(* ===== verification/C_Prelude.thy ===== *)
theory C_Prelude
  imports Main "HOL-Library.Word"
begin

text \<open>
  What every component shares: the machine integers, the undefined behaviours of C as values
  of a sum type, a byte-addressed store of memory objects, the array loops the modules are
  written with, and the error codes of \<^verbatim>\<open>nrf_error.h\<close>, \<^verbatim>\<open>sdk_errors.h\<close> and \<^verbatim>\<open>iot_errors.h\<close>.

  Conventions used by every theory:
  \<^item> a function of type \<open>fault + 'a\<close> returns \<open>Inl\<close> where the C code performs an access that is
    undefined in C (out of bounds, through NULL) and \<open>Inr\<close> otherwise;
  \<^item> a parameter \<open>T * p\<close> that the code tests for NULL is a \<open>T option\<close>: \<open>None\<close> is NULL, \<open>Some v\<close> is
    a pointer to a cell that holds \<open>v\<close>; where the code writes through it, the new content of the
    cell is part of the result;
  \<^item> a pointer into byte memory is a \<open>ptr\<close>: NULL, or the base address of a memory object and an
    offset in it.
\<close>

unbundle bit_operations_syntax

section \<open>Machine integers\<close>

type_synonym u8 = "8 word"
type_synonym u16 = "16 word"
type_synonym u32 = "32 word"

named_theorems c_simps \<open>equations that evaluate the C-level primitives\<close>
named_theorems c_consts \<open>definitions of the numeric constants of the headers\<close>

lemma unat_u8_less: "unat (x :: u8) < 256"
  using unsigned_less [of x, where ?'a = nat] by simp

lemma unat_u16_less: "unat (x :: u16) < 65536"
  using unsigned_less [of x, where ?'a = nat] by simp

lemma unat_u32_less: "unat (x :: u32) < 4294967296"
  using unsigned_less [of x, where ?'a = nat] by simp

lemma unat_ucast_u8_u16 [simp]: "unat (ucast (x :: u8) :: u16) = unat x"
  using unat_u8_less [of x] by (simp add: unsigned_ucast_eq take_bit_nat_def)

lemma unat_ucast_u8_u32 [simp]: "unat (ucast (x :: u8) :: u32) = unat x"
  using unat_u8_less [of x] by (simp add: unsigned_ucast_eq take_bit_nat_def)

lemma unat_ucast_u16_u32 [simp]: "unat (ucast (x :: u16) :: u32) = unat x"
  using unat_u16_less [of x] by (simp add: unsigned_ucast_eq take_bit_nat_def)

lemma unat_ucast_u16_u8: "unat (ucast (x :: u16) :: u8) = unat x mod 256"
  by (simp add: unsigned_ucast_eq take_bit_nat_def)

lemma unat_of_nat_u8: "n < 256 \<Longrightarrow> unat (of_nat n :: u8) = n"
  by (simp add: unat_of_nat)

lemma unat_of_nat_u16: "n < 65536 \<Longrightarrow> unat (of_nat n :: u16) = n"
  by (simp add: unat_of_nat)

lemma unat_of_nat_u32: "n < 4294967296 \<Longrightarrow> unat (of_nat n :: u32) = n"
  by (simp add: unat_of_nat)

lemma unat_add_u8: "unat (a :: u8) + unat b < 256 \<Longrightarrow> unat (a + b) = unat a + unat b"
  by (simp add: unat_word_ariths)

lemma unat_add_u16: "unat (a :: u16) + unat b < 65536 \<Longrightarrow> unat (a + b) = unat a + unat b"
  by (simp add: unat_word_ariths)

lemma unat_add_u32: "unat (a :: u32) + unat b < 4294967296 \<Longrightarrow> unat (a + b) = unat a + unat b"
  by (simp add: unat_word_ariths)

section \<open>Undefined behaviour as a value\<close>

datatype fault = OutOfBoundsRead | OutOfBoundsWrite | NullDereference | ShiftTooLarge | DivisionByZero | Diverges
  | AppError u32

text \<open>
  \<open>Diverges\<close> is the value of a loop or recursion over linked structures whose fuel has run out; the
  theorems show for which structures, and with how much fuel, it cannot occur.
  \<open>AppError e\<close> is a call of the application's error handler with the code \<open>e\<close>, which lights the LEDs and
  loops for ever.
\<close>

definition c_bind :: "fault + 'a \<Rightarrow> ('a \<Rightarrow> fault + 'b) \<Rightarrow> fault + 'b" where
  "c_bind m k = (case m of Inl f \<Rightarrow> Inl f | Inr x \<Rightarrow> k x)"

lemma c_bind_Inl [simp, c_simps]: "c_bind (Inl f) k = Inl f"
  by (simp add: c_bind_def)

lemma c_bind_Inr [simp, c_simps]: "c_bind (Inr x) k = k x"
  by (simp add: c_bind_def)

lemma c_bind_eq_Inr: "c_bind m k = Inr y \<longleftrightarrow> (\<exists>x. m = Inr x \<and> k x = Inr y)"
  by (cases m) simp_all

lemma c_bind_eq_Inl: "c_bind m k = Inl f \<longleftrightarrow> m = Inl f \<or> (\<exists>x. m = Inr x \<and> k x = Inl f)"
  by (cases m) simp_all

lemma c_bind_assoc: "c_bind (c_bind m k) l = c_bind m (\<lambda>x. c_bind (k x) l)"
  by (cases m) simp_all

lemma c_bind_cong [fundef_cong]:
  "m = m' \<Longrightarrow> (\<And>x. m' = Inr x \<Longrightarrow> k x = k' x) \<Longrightarrow> c_bind m k = c_bind m' k'"
  by (cases m') (simp_all add: c_bind_def)

section \<open>Arrays and the byte store\<close>

text \<open>An access \<open>a[i]\<close> to an array object of fixed length.\<close>

definition arr_get :: "'a list \<Rightarrow> nat \<Rightarrow> fault + 'a" where
  "arr_get xs i = (if i < length xs then Inr (xs ! i) else Inl OutOfBoundsRead)"

definition arr_set :: "'a list \<Rightarrow> nat \<Rightarrow> 'a \<Rightarrow> fault + 'a list" where
  "arr_set xs i v = (if i < length xs then Inr (xs[i := v]) else Inl OutOfBoundsWrite)"

text \<open>A store to a field of the array element \<open>a[i]\<close>.\<close>

definition arr_upd :: "'a list \<Rightarrow> nat \<Rightarrow> ('a \<Rightarrow> 'a) \<Rightarrow> fault + 'a list" where
  "arr_upd xs i f = (if i < length xs then Inr (xs[i := f (xs ! i)]) else Inl OutOfBoundsWrite)"

lemma arr_upd_Inr [simp, c_simps]: "i < length xs \<Longrightarrow> arr_upd xs i f = Inr (xs[i := f (xs ! i)])"
  by (simp add: arr_upd_def)

lemma arr_upd_eq_Inr: "arr_upd xs i f = Inr ys \<longleftrightarrow> i < length xs \<and> ys = xs[i := f (xs ! i)]"
  by (auto simp: arr_upd_def)

lemma arr_get_Inr [simp, c_simps]: "i < length xs \<Longrightarrow> arr_get xs i = Inr (xs ! i)"
  by (simp add: arr_get_def)

lemma arr_set_Inr [simp, c_simps]: "i < length xs \<Longrightarrow> arr_set xs i v = Inr (xs[i := v])"
  by (simp add: arr_set_def)

lemma arr_get_eq_Inr: "arr_get xs i = Inr v \<longleftrightarrow> i < length xs \<and> v = xs ! i"
  by (auto simp: arr_get_def)

lemma arr_set_eq_Inr: "arr_set xs i v = Inr ys \<longleftrightarrow> i < length xs \<and> ys = xs[i := v]"
  by (auto simp: arr_set_def)

text \<open>\<open>memcpy\<close> of a run of bytes out of, and into, an array object.\<close>

definition arr_read :: "'a list \<Rightarrow> nat \<Rightarrow> nat \<Rightarrow> fault + 'a list" where
  "arr_read xs i n = (if n = 0 then Inr [] else if i + n \<le> length xs then Inr (take n (drop i xs))
                      else Inl OutOfBoundsRead)"

definition arr_write :: "'a list \<Rightarrow> nat \<Rightarrow> 'a list \<Rightarrow> fault + 'a list" where
  "arr_write xs i vs = (if vs = [] then Inr xs
                        else if i + length vs \<le> length xs
                        then Inr (take i xs @ vs @ drop (i + length vs) xs)
                        else Inl OutOfBoundsWrite)"

lemma arr_read_eq: "i + n \<le> length xs \<Longrightarrow> arr_read xs i n = Inr (take n (drop i xs))"
  by (simp add: arr_read_def)

lemma arr_read_Inr_length: "arr_read xs i n = Inr vs \<Longrightarrow> length vs = n"
  by (auto simp: arr_read_def split: if_splits)

lemma arr_write_eq:
  "i + length vs \<le> length xs \<Longrightarrow> arr_write xs i vs = Inr (take i xs @ vs @ drop (i + length vs) xs)"
  by (simp add: arr_write_def)

lemma arr_write_Inr_length: "arr_write xs i vs = Inr ys \<Longrightarrow> length ys = length xs"
  by (auto simp: arr_write_def split: if_splits)

text \<open>Writing just behind a filled prefix extends the prefix: the step of every serialiser.\<close>

lemma arr_set_prefix:
  "length pre < length buf \<Longrightarrow>
   arr_set (pre @ drop (length pre) buf) (length pre) v = Inr ((pre @ [v]) @ drop (length (pre @ [v])) buf)"
  by (simp add: arr_set_def list_update_append Cons_nth_drop_Suc [symmetric])

lemma arr_write_prefix:
  "length pre + length vs \<le> length buf \<Longrightarrow>
   arr_write (pre @ drop (length pre) buf) (length pre) vs
   = Inr ((pre @ vs) @ drop (length (pre @ vs)) buf)"
  by (simp add: arr_write_def add.commute)

datatype ptr = NULL | Ptr nat nat

text \<open>
  The store maps the base address of a memory object to its bytes. An address at which no object
  lives holds the empty list, so that every access through it faults.
\<close>

type_synonym heap = "nat \<Rightarrow> u8 list"

fun ptr_add :: "ptr \<Rightarrow> nat \<Rightarrow> ptr" where
  "ptr_add NULL n = NULL"
| "ptr_add (Ptr b i) n = Ptr b (i + n)"

fun load :: "heap \<Rightarrow> ptr \<Rightarrow> nat \<Rightarrow> fault + u8" where
  "load h NULL i = Inl NullDereference"
| "load h (Ptr b o') i = arr_get (h b) (o' + i)"

fun load_bytes :: "heap \<Rightarrow> ptr \<Rightarrow> nat \<Rightarrow> fault + u8 list" where
  "load_bytes h NULL n = (if n = 0 then Inr [] else Inl NullDereference)"
| "load_bytes h (Ptr b o') n = arr_read (h b) o' n"

fun store_bytes :: "heap \<Rightarrow> ptr \<Rightarrow> u8 list \<Rightarrow> fault + heap" where
  "store_bytes h NULL vs = (if vs = [] then Inr h else Inl NullDereference)"
| "store_bytes h (Ptr b o') vs = c_bind (arr_write (h b) o' vs) (\<lambda>xs. Inr (h(b := xs)))"

lemma load_bytes_Inr_length: "load_bytes h p n = Inr vs \<Longrightarrow> length vs = n"
  by (cases p) (auto simp: arr_read_Inr_length split: if_splits)

lemma store_bytes_frame: "store_bytes h (Ptr b i) vs = Inr h' \<Longrightarrow> b' \<noteq> b \<Longrightarrow> h' b' = h b'"
  by (auto simp: c_bind_eq_Inr)

lemma store_bytes_size: "store_bytes h p vs = Inr h' \<Longrightarrow> length (h' b) = length (h b)"
  by (cases p) (auto simp: c_bind_eq_Inr arr_write_Inr_length split: if_splits)

section \<open>Searching loops\<close>

text \<open>
  \<open>for (i = 0; i < N; i++) if (P (a[i])) ... return;\<close>: the first index from \<open>i\<close> on whose element
  satisfies \<open>P\<close>. The modules allocate slots, look entries up and iterate with this loop.
\<close>

fun find_from :: "('a \<Rightarrow> bool) \<Rightarrow> nat \<Rightarrow> 'a list \<Rightarrow> nat option" where
  "find_from P i [] = None"
| "find_from P i (x # xs) = (if P x then Some i else find_from P (Suc i) xs)"

definition find_first :: "('a \<Rightarrow> bool) \<Rightarrow> 'a list \<Rightarrow> nat option" where
  "find_first P xs = find_from P 0 xs"

definition find_next :: "('a \<Rightarrow> bool) \<Rightarrow> nat \<Rightarrow> 'a list \<Rightarrow> nat option" where
  "find_next P i xs = find_from P i (drop i xs)"

lemma find_from_Some:
  "find_from P k xs = Some i \<longleftrightarrow>
   (k \<le> i \<and> i - k < length xs \<and> P (xs ! (i - k)) \<and> (\<forall>j < i - k. \<not> P (xs ! j)))"
proof (induction xs arbitrary: k)
  case Nil
  then show ?case by simp
next
  case (Cons x xs)
  show ?case
  proof (cases "P x")
    case True
    have "(\<forall>j < i - k. \<not> P ((x # xs) ! j)) \<longleftrightarrow> i \<le> k"
      using True by (cases "i - k") auto
    then show ?thesis using True by auto
  next
    case False
    show ?thesis
    proof (cases "i \<le> k")
      case True
      then show ?thesis using False Cons.IH [of "Suc k"] by auto
    next
      case gt: False
      then obtain d where d: "i = Suc (k + d)"
        using less_iff_Suc_add [of k i] by auto
      have "(\<forall>j < Suc d. \<not> P ((x # xs) ! j)) \<longleftrightarrow> (\<forall>j < d. \<not> P (xs ! j))"
        using False by (auto simp: less_Suc_eq_0_disj)
      then show ?thesis using False Cons.IH [of "Suc k"] by (simp add: d Suc_diff_le)
    qed
  qed
qed

lemma find_from_None: "find_from P k xs = None \<longleftrightarrow> (\<forall>x \<in> set xs. \<not> P x)"
  by (induction xs arbitrary: k) auto

lemma find_first_Some:
  "find_first P xs = Some i \<longleftrightarrow> i < length xs \<and> P (xs ! i) \<and> (\<forall>j < i. \<not> P (xs ! j))"
  by (simp add: find_first_def find_from_Some)

lemma find_first_None: "find_first P xs = None \<longleftrightarrow> (\<forall>x \<in> set xs. \<not> P x)"
  by (simp add: find_first_def find_from_None)

lemma find_next_Some:
  "find_next P k xs = Some i \<longleftrightarrow>
   k \<le> i \<and> i < length xs \<and> P (xs ! i) \<and> (\<forall>j. k \<le> j \<and> j < i \<longrightarrow> \<not> P (xs ! j))"
proof -
  have "(\<forall>j < i - k. \<not> P (drop k xs ! j)) \<longleftrightarrow> (\<forall>j. k \<le> j \<and> j < i \<longrightarrow> \<not> P (xs ! j))"
    if "k \<le> i" "i < length xs"
  proof safe
    fix j assume "\<forall>j < i - k. \<not> P (drop k xs ! j)" "k \<le> j" "j < i" "P (xs ! j)"
    then show False using that by (auto dest!: spec [of _ "j - k"])
  next
    fix j assume "\<forall>j. k \<le> j \<and> j < i \<longrightarrow> \<not> P (xs ! j)" "j < i - k" "P (drop k xs ! j)"
    then show False using that by (auto dest!: spec [of _ "k + j"])
  qed
  then show ?thesis by (auto simp: find_next_def find_from_Some)
qed

lemma find_next_None: "find_next P k xs = None \<longleftrightarrow> (\<forall>i. k \<le> i \<and> i < length xs \<longrightarrow> \<not> P (xs ! i))"
proof -
  have "(\<forall>x \<in> set (drop k xs). \<not> P x) \<longleftrightarrow> (\<forall>i. k \<le> i \<and> i < length xs \<longrightarrow> \<not> P (xs ! i))"
  proof safe
    fix i assume "\<forall>x \<in> set (drop k xs). \<not> P x" "k \<le> i" "i < length xs" "P (xs ! i)"
    moreover have "xs ! i \<in> set (drop k xs)"
      using \<open>k \<le> i\<close> \<open>i < length xs\<close> by (auto simp: in_set_conv_nth intro: exI [of _ "i - k"])
    ultimately show False by blast
  next
    fix x assume "\<forall>i. k \<le> i \<and> i < length xs \<longrightarrow> \<not> P (xs ! i)" "x \<in> set (drop k xs)" "P x"
    then show False by (auto simp: in_set_conv_nth)
  qed
  then show ?thesis by (simp add: find_next_def find_from_None)
qed

text \<open>How many elements of a table satisfy a predicate, and how one update changes that number.\<close>

definition count_if :: "('a \<Rightarrow> bool) \<Rightarrow> 'a list \<Rightarrow> nat" where
  "count_if P xs = length (filter P xs)"

lemma count_if_le: "count_if P xs \<le> length xs"
  by (simp add: count_if_def)

lemma count_if_update:
  assumes "i < length xs"
  shows "count_if P (xs[i := v]) + (if P (xs ! i) then 1 else 0)
       = count_if P xs + (if P v then 1 else 0)"
proof -
  have xs: "xs = take i xs @ xs ! i # drop (Suc i) xs"
    using assms by (simp add: id_take_nth_drop)
  have upd: "xs[i := v] = take i xs @ v # drop (Suc i) xs"
    using assms by (simp add: upd_conv_take_nth_drop)
  have "count_if P xs = count_if P (take i xs @ xs ! i # drop (Suc i) xs)"
    using xs by simp
  then show ?thesis unfolding upd by (simp add: count_if_def)
qed

lemma count_if_full: "count_if P xs = length xs \<longleftrightarrow> (\<forall>x \<in> set xs. P x)"
  by (metis count_if_def filter_True length_filter_less nat_less_le)

lemma count_if_zero: "count_if P xs = 0 \<longleftrightarrow> (\<forall>x \<in> set xs. \<not> P x)"
  by (simp add: count_if_def filter_empty_conv)

section \<open>Big-endian byte order\<close>

text \<open>
  The byte shuffles of the serialisers: \<open>(uint8_t)((x & 0xFF00) >> 8)\<close>, \<open>(uint8_t)(x & 0x00FF)\<close> and
  \<open>(hi << 8) + lo\<close> on 16-bit values.
\<close>

definition u16_hi :: "u16 \<Rightarrow> u8" where
  "u16_hi x = ucast (drop_bit 8 (x AND 0xFF00))"

definition u16_lo :: "u16 \<Rightarrow> u8" where
  "u16_lo x = ucast (x AND 0x00FF)"

definition u16_of_bytes :: "u8 \<Rightarrow> u8 \<Rightarrow> u16" where
  "u16_of_bytes hi lo = push_bit 8 (ucast hi) + ucast lo"

lemma mask_u16: "(0xFF00 :: u16) = push_bit 8 (mask 8)" "(0x00FF :: u16) = mask 8"
  by (simp_all add: mask_eq_exp_minus_1)

lemma mask_u32:
  "(0xFF000000 :: u32) = push_bit 24 (mask 8)" "(0x00FF0000 :: u32) = push_bit 16 (mask 8)"
  "(0x0000FF00 :: u32) = push_bit 8 (mask 8)" "(0x000000FF :: u32) = mask 8"
  by (simp_all add: mask_eq_exp_minus_1)

lemma u16_of_bytes_hi_lo [simp]: "u16_of_bytes (u16_hi x) (u16_lo x) = x"
proof -
  have disj: "push_bit 8 (ucast (u16_hi x)) AND ucast (u16_lo x) = (0 :: u16)"
    by (rule bit_word_eqI) (auto simp: u16_hi_def u16_lo_def mask_u16 bit_simps)
  have "push_bit 8 (ucast (u16_hi x)) OR ucast (u16_lo x) = x"
    by (rule bit_word_eqI) (auto simp: u16_hi_def u16_lo_def mask_u16 bit_simps)
  then show ?thesis
    using disjunctive_add_eq_or [OF disj] by (simp add: u16_of_bytes_def)
qed

lemma u16_hi_of_bytes [simp]: "u16_hi (u16_of_bytes a b) = a"
  and u16_lo_of_bytes [simp]: "u16_lo (u16_of_bytes a b) = b"
proof -
  have disj: "push_bit 8 (ucast a) AND ucast b = (0 :: u16)"
    by (rule bit_word_eqI) (auto simp: bit_simps dest: bit_imp_le_length)
  have eq: "u16_of_bytes a b = push_bit 8 (ucast a) OR ucast b"
    using disjunctive_add_eq_or [OF disj] by (simp add: u16_of_bytes_def)
  show "u16_hi (u16_of_bytes a b) = a"
    unfolding eq by (rule bit_word_eqI) (auto simp: u16_hi_def mask_u16 bit_simps dest: bit_imp_le_length)
  show "u16_lo (u16_of_bytes a b) = b"
    unfolding eq by (rule bit_word_eqI) (auto simp: u16_lo_def mask_u16 bit_simps dest: bit_imp_le_length)
qed

text \<open>The macros of \<^verbatim>\<open>iot_defines.h\<close> that swap the bytes of a number.\<close>

definition HTONS :: "u16 \<Rightarrow> u16" where
  "HTONS val = (drop_bit 8 (val AND 0xFF00) OR push_bit 8 (val AND 0x00FF))"

definition NTOHS :: "u16 \<Rightarrow> u16" where "NTOHS val = HTONS val"

lemma HTONS_swap: "HTONS (u16_of_bytes a b) = u16_of_bytes b a"
proof -
  have e: "u16_of_bytes x y = push_bit 8 (ucast x) OR ucast y" for x y :: u8
  proof -
    have "push_bit 8 (ucast x) AND ucast y = (0 :: u16)"
      by (rule bit_word_eqI) (auto simp: bit_simps dest: bit_imp_le_length)
    then show ?thesis using disjunctive_add_eq_or [of "push_bit 8 (ucast x :: u16)" "ucast y"] by (simp add: u16_of_bytes_def)
  qed
  show ?thesis
    unfolding e HTONS_def by (rule bit_word_eqI) (auto simp: mask_u16 bit_simps dest: bit_imp_le_length)
qed

lemma HTONS_bytes [simp]: "u16_lo (HTONS x) = u16_hi x" "u16_hi (HTONS x) = u16_lo x"
  using HTONS_swap [of "u16_hi x" "u16_lo x"] by simp_all

lemma HTONS_HTONS [simp]: "HTONS (HTONS x) = x" "NTOHS (HTONS x) = x" "HTONS (NTOHS x) = x"
  using HTONS_swap [of "u16_lo x" "u16_hi x"] HTONS_swap [of "u16_hi x" "u16_lo x"]
  by (simp_all add: NTOHS_def)

end
