(* ===== verification/Sdk_Config.thy ===== *)
theory Sdk_Config
  imports C_Prelude
begin

text \<open>
  The numeric constants the modules are compiled with: the error codes of \<^verbatim>\<open>nrf_error.h\<close>,
  \<^verbatim>\<open>sdk_errors.h\<close> and \<^verbatim>\<open>iot_errors.h\<close>, and the configuration of the switch device in
  \<^verbatim>\<open>examples/iot/coap/ipv6/client_server_observe/sdk_config.h\<close>. All definitions are in the
  collection \<open>c_consts\<close>. Error codes are 32-bit words; array sizes are natural numbers.
\<close>

section \<open>Error codes\<close>

definition NRF_SUCCESS :: u32 where [c_consts]: "NRF_SUCCESS = 0"
definition NRF_ERROR_NO_MEM :: u32 where [c_consts]: "NRF_ERROR_NO_MEM = 4"
definition NRF_ERROR_NOT_FOUND :: u32 where [c_consts]: "NRF_ERROR_NOT_FOUND = 5"
definition NRF_ERROR_NOT_SUPPORTED :: u32 where [c_consts]: "NRF_ERROR_NOT_SUPPORTED = 6"
definition NRF_ERROR_INVALID_PARAM :: u32 where [c_consts]: "NRF_ERROR_INVALID_PARAM = 7"
definition NRF_ERROR_INVALID_STATE :: u32 where [c_consts]: "NRF_ERROR_INVALID_STATE = 8"
definition NRF_ERROR_INVALID_LENGTH :: u32 where [c_consts]: "NRF_ERROR_INVALID_LENGTH = 9"
definition NRF_ERROR_INVALID_DATA :: u32 where [c_consts]: "NRF_ERROR_INVALID_DATA = 11"
definition NRF_ERROR_DATA_SIZE :: u32 where [c_consts]: "NRF_ERROR_DATA_SIZE = 12"
definition NRF_ERROR_NULL :: u32 where [c_consts]: "NRF_ERROR_NULL = 14"
definition NRF_ERROR_INVALID_ADDR :: u32 where [c_consts]: "NRF_ERROR_INVALID_ADDR = 16"

definition SDK_ERR_MODULE_NOT_INITIALZED :: u32 where [c_consts]: "SDK_ERR_MODULE_NOT_INITIALZED = 0x80"
definition MEMORY_MANAGER_ERR_BASE :: u32 where [c_consts]: "MEMORY_MANAGER_ERR_BASE = 0x8100"
definition IOT_PBUFFER_ERR_BASE :: u32 where [c_consts]: "IOT_PBUFFER_ERR_BASE = 0xB000"
definition IOT_CONTEXT_MANAGER_ERR_BASE :: u32 where [c_consts]: "IOT_CONTEXT_MANAGER_ERR_BASE = 0xB100"
definition IOT_TIMER_ERR_BASE :: u32 where [c_consts]: "IOT_TIMER_ERR_BASE = 0xB200"
definition IOT_IPV6_ERR_BASE :: u32 where [c_consts]: "IOT_IPV6_ERR_BASE = 0xC000"
definition IOT_ICMP6_ERR_BASE :: u32 where [c_consts]: "IOT_ICMP6_ERR_BASE = 0xC100"
definition IOT_UDP6_ERR_BASE :: u32 where [c_consts]: "IOT_UDP6_ERR_BASE = 0xC200"
definition IOT_COAP_ERR_BASE :: u32 where [c_consts]: "IOT_COAP_ERR_BASE = 0xC300"
definition UDP_TRUNCATED_PACKET :: u32 where [c_consts]: "UDP_TRUNCATED_PACKET = 0xC242"
definition COAP_MESSAGE_ERROR_NULL :: u32 where [c_consts]: "COAP_MESSAGE_ERROR_NULL = 0xC340"
definition COAP_MESSAGE_INVALID_CONTENT :: u32 where [c_consts]: "COAP_MESSAGE_INVALID_CONTENT = 0xC342"
definition COAP_TRANSMISSION_RESET_BY_PEER :: u32 where [c_consts]: "COAP_TRANSMISSION_RESET_BY_PEER = 0xC343"
definition COAP_TRANSMISSION_TIMEOUT :: u32 where [c_consts]: "COAP_TRANSMISSION_TIMEOUT = 0xC344"

section \<open>Configuration\<close>

definition MEMORY_MANAGER_SMALL_BLOCK_COUNT :: nat where [c_consts]: "MEMORY_MANAGER_SMALL_BLOCK_COUNT = 8"
definition MEMORY_MANAGER_SMALL_BLOCK_SIZE :: nat where [c_consts]: "MEMORY_MANAGER_SMALL_BLOCK_SIZE = 128"
definition MEMORY_MANAGER_MEDIUM_BLOCK_COUNT :: nat where [c_consts]: "MEMORY_MANAGER_MEDIUM_BLOCK_COUNT = 4"
definition MEMORY_MANAGER_MEDIUM_BLOCK_SIZE :: nat where [c_consts]: "MEMORY_MANAGER_MEDIUM_BLOCK_SIZE = 256"
definition MEMORY_MANAGER_LARGE_BLOCK_COUNT :: nat where [c_consts]: "MEMORY_MANAGER_LARGE_BLOCK_COUNT = 1"
definition MEMORY_MANAGER_LARGE_BLOCK_SIZE :: nat where [c_consts]: "MEMORY_MANAGER_LARGE_BLOCK_SIZE = 1024"
definition IOT_PBUFFER_MAX_COUNT :: nat where [c_consts]: "IOT_PBUFFER_MAX_COUNT = 10"
definition IOT_CONTEXT_MANAGER_MAX_CONTEXTS :: nat where [c_consts]: "IOT_CONTEXT_MANAGER_MAX_CONTEXTS = 16"
definition IOT_CONTEXT_MANAGER_MAX_TABLES :: nat where [c_consts]: "IOT_CONTEXT_MANAGER_MAX_TABLES = 1"
definition COAP_VERSION :: u8 where [c_consts]: "COAP_VERSION = 1"
definition COAP_PORT_COUNT :: nat where [c_consts]: "COAP_PORT_COUNT = 1"
definition COAP_SERVER_PORT :: u16 where [c_consts]: "COAP_SERVER_PORT = 5683"
definition COAP_CLIENT_PORT :: u16 where [c_consts]: "COAP_CLIENT_PORT = 5683"
definition COAP_MAX_NUMBER_OF_OPTIONS :: nat where [c_consts]: "COAP_MAX_NUMBER_OF_OPTIONS = 8"
definition COAP_MESSAGE_DATA_MAX_SIZE :: u16 where [c_consts]: "COAP_MESSAGE_DATA_MAX_SIZE = 256"
definition COAP_MESSAGE_QUEUE_SIZE :: nat where [c_consts]: "COAP_MESSAGE_QUEUE_SIZE = 8"
definition COAP_RESOURCE_MAX_NAME_LEN :: nat where [c_consts]: "COAP_RESOURCE_MAX_NAME_LEN = 19"
definition COAP_RESOURCE_MAX_DEPTH :: nat where [c_consts]: "COAP_RESOURCE_MAX_DEPTH = 5"
definition COAP_OBSERVE_MAX_NUM_OBSERVERS :: nat where [c_consts]: "COAP_OBSERVE_MAX_NUM_OBSERVERS = 4"
definition COAP_MAX_RETRANSMIT_COUNT :: u8 where [c_consts]: "COAP_MAX_RETRANSMIT_COUNT = 1"
definition COAP_MAX_TRANSMISSION_SPAN :: u16 where [c_consts]: "COAP_MAX_TRANSMISSION_SPAN = 10"
definition COAP_ACK_TIMEOUT :: u16 where [c_consts]: "COAP_ACK_TIMEOUT = 2"
definition COAP_ACK_RANDOM_FACTOR :: u16 where [c_consts]: "COAP_ACK_RANDOM_FACTOR = 1"
definition IOT_TIMER_RESOLUTION_IN_MS :: u32 where [c_consts]: "IOT_TIMER_RESOLUTION_IN_MS = 100"

text \<open>An error code of a module, \<open>e OR base\<close>, is never the success code.\<close>

lemma err_ne_success [simp]:
  "NRF_ERROR_NO_MEM OR b \<noteq> NRF_SUCCESS" "NRF_ERROR_NOT_FOUND OR b \<noteq> NRF_SUCCESS"
  "NRF_ERROR_INVALID_PARAM OR b \<noteq> NRF_SUCCESS" "NRF_ERROR_INVALID_STATE OR b \<noteq> NRF_SUCCESS"
  "NRF_ERROR_INVALID_LENGTH OR b \<noteq> NRF_SUCCESS" "NRF_ERROR_INVALID_DATA OR b \<noteq> NRF_SUCCESS"
  "NRF_ERROR_DATA_SIZE OR b \<noteq> NRF_SUCCESS" "NRF_ERROR_NULL OR b \<noteq> NRF_SUCCESS"
  "NRF_ERROR_INVALID_ADDR OR b \<noteq> NRF_SUCCESS" "SDK_ERR_MODULE_NOT_INITIALZED OR b \<noteq> NRF_SUCCESS"
  by (simp_all add: c_consts or_eq_0_iff)

lemma err_ne_success2 [simp]:
  "NRF_ERROR_NO_MEM \<noteq> NRF_SUCCESS" "NRF_ERROR_NOT_FOUND \<noteq> NRF_SUCCESS"
  "NRF_ERROR_INVALID_PARAM \<noteq> NRF_SUCCESS" "NRF_ERROR_INVALID_LENGTH \<noteq> NRF_SUCCESS"
  "NRF_ERROR_NULL \<noteq> NRF_SUCCESS" "COAP_MESSAGE_ERROR_NULL \<noteq> NRF_SUCCESS"
  "COAP_MESSAGE_INVALID_CONTENT \<noteq> NRF_SUCCESS" "UDP_TRUNCATED_PACKET \<noteq> NRF_SUCCESS"
  "COAP_TRANSMISSION_RESET_BY_PEER \<noteq> NRF_SUCCESS" "COAP_TRANSMISSION_TIMEOUT \<noteq> NRF_SUCCESS"
  by (simp_all add: c_consts)

lemmas err_ne_success_sym [simp] = err_ne_success [symmetric] err_ne_success2 [symmetric]

end
