(* ===== verification/Iot_Timer.thy ===== *)
theory Iot_Timer
  imports Sdk_Config
begin

text \<open>
  The tick source of the IoT modules, \<^verbatim>\<open>components/iot/iot_timer/iot_timer.c\<close>: a wall clock in
  milliseconds that advances by \<open>IOT_TIMER_RESOLUTION_IN_MS\<close>, and a list of clients that are called
  back when the clock is a multiple of their interval. A callback may change the state of the program
  (the field \<open>tm_world\<close>) and the client list, so it transforms the whole state.
\<close>

section \<open>State and operations\<close>

record iot_timer_client_t =
  iot_timer_callback :: "nat option"
  cb_interval :: u32

record iot_timer_clients_list_t =
  client_list_length :: u8
  p_client_list :: "iot_timer_client_t list"

record 'w iot_timer =
  m_wall_clock :: u32
  m_clients :: "iot_timer_clients_list_t option"
  tm_world :: 'w

text \<open>The macro \<open>VERIFY_CLIENT_LIST_IS_VALID\<close>: an error code, or \<open>NRF_SUCCESS\<close> where it falls through.\<close>

fun client_list_check :: "iot_timer_client_t list \<Rightarrow> nat list \<Rightarrow> fault + u32" where
  "client_list_check cs [] = Inr NRF_SUCCESS"
| "client_list_check cs (i # is) =
     c_bind (arr_get cs i) (\<lambda>c.
     if iot_timer_callback c = None then Inr (NRF_ERROR_INVALID_PARAM OR IOT_TIMER_ERR_BASE)
     else if cb_interval c = 0 \<or> cb_interval c < IOT_TIMER_RESOLUTION_IN_MS
           \<or> cb_interval c mod IOT_TIMER_RESOLUTION_IN_MS \<noteq> 0
     then Inr (NRF_ERROR_INVALID_PARAM OR IOT_TIMER_ERR_BASE)
     else client_list_check cs is)"

definition iot_timer_client_list_set ::
  "'w iot_timer \<Rightarrow> iot_timer_clients_list_t option \<Rightarrow> fault + u32 \<times> 'w iot_timer" where
  "iot_timer_client_list_set tm p_list_of_clients =
     c_bind
       (case p_list_of_clients of
          None \<Rightarrow> Inr NRF_SUCCESS
        | Some l \<Rightarrow> client_list_check (p_client_list l) [0..<unat (client_list_length l)]) (\<lambda>err_code.
     if err_code \<noteq> NRF_SUCCESS then Inr (err_code, tm)
     else Inr (NRF_SUCCESS, tm\<lparr>m_clients := p_list_of_clients\<rparr>))"

definition wall_clock_advance :: "u32 \<Rightarrow> u32" where
  "wall_clock_advance c =
     (let c1 = c + IOT_TIMER_RESOLUTION_IN_MS
      in if 0xFFFFFFFF - c1 < IOT_TIMER_RESOLUTION_IN_MS then IOT_TIMER_RESOLUTION_IN_MS else c1)"

text \<open>
  The loop of \<open>iot_timer_update\<close> over the clients; \<open>cb n\<close> is the callback with number \<open>n\<close>. The list of
  clients and the clock are read again in every turn. The index is 8 bits wide and below the length of
  the list, which is at most 255.
\<close>

fun timer_client_loop :: "(nat \<Rightarrow> u32 \<Rightarrow> 'w iot_timer \<Rightarrow> 'w iot_timer) \<Rightarrow> 'w iot_timer \<Rightarrow> nat list \<Rightarrow> fault + 'w iot_timer" where
  "timer_client_loop cb tm [] = Inr tm"
| "timer_client_loop cb tm (i # is) =
     (case m_clients tm of
        None \<Rightarrow> Inl NullDereference
      | Some l \<Rightarrow>
        if i < unat (client_list_length l) then
          c_bind (arr_get (p_client_list l) i) (\<lambda>c.
          if cb_interval c = 0 then Inl DivisionByZero
          else if m_wall_clock tm mod cb_interval c = 0 then
            (case iot_timer_callback c of
               None \<Rightarrow> Inl NullDereference
             | Some f \<Rightarrow> timer_client_loop cb (cb f (m_wall_clock tm) tm) is)
          else timer_client_loop cb tm is)
        else Inr tm)"

definition iot_timer_update ::
  "(nat \<Rightarrow> u32 \<Rightarrow> 'w iot_timer \<Rightarrow> 'w iot_timer) \<Rightarrow> 'w iot_timer \<Rightarrow> fault + u32 \<times> 'w iot_timer" where
  "iot_timer_update cb tm =
     (let tm1 = tm\<lparr>m_wall_clock := wall_clock_advance (m_wall_clock tm)\<rparr>
      in c_bind (if m_clients tm1 = None then Inr tm1 else timer_client_loop cb tm1 [0..<256]) (\<lambda>tm2.
         Inr (NRF_SUCCESS, tm2)))"

text \<open>The result is the error code and the cell behind the out parameter.\<close>

definition iot_timer_wall_clock_get :: "'w iot_timer \<Rightarrow> u32 option \<Rightarrow> u32 \<times> u32 option" where
  "iot_timer_wall_clock_get tm p_elapsed_time =
     (if p_elapsed_time = None then (NRF_ERROR_NULL OR IOT_TIMER_ERR_BASE, None)
      else (NRF_SUCCESS, Some (m_wall_clock tm)))"

definition iot_timer_wall_clock_delta_get ::
  "'w iot_timer \<Rightarrow> u32 option \<Rightarrow> u32 option \<Rightarrow> u32 \<times> u32 option" where
  "iot_timer_wall_clock_delta_get tm p_past_time p_delta_time =
     (case p_past_time of
        None \<Rightarrow> (NRF_ERROR_NULL OR IOT_TIMER_ERR_BASE, p_delta_time)
      | Some past \<Rightarrow>
        if p_delta_time = None then (NRF_ERROR_NULL OR IOT_TIMER_ERR_BASE, p_delta_time)
        else if past mod IOT_TIMER_RESOLUTION_IN_MS \<noteq> 0
        then (NRF_ERROR_INVALID_PARAM OR IOT_TIMER_ERR_BASE, p_delta_time)
        else if past = m_wall_clock tm then (NRF_SUCCESS, Some 0)
        else if past < m_wall_clock tm then (NRF_SUCCESS, Some (m_wall_clock tm - past))
        else
          let max_wall_clock = (0xFFFFFFFF div IOT_TIMER_RESOLUTION_IN_MS) * IOT_TIMER_RESOLUTION_IN_MS;
              d1 = max_wall_clock - past;
              d2 = d1 + m_wall_clock tm;
              d3 = d2 - IOT_TIMER_RESOLUTION_IN_MS
          in (NRF_SUCCESS, Some d3))"

section \<open>The clock\<close>

text \<open>The values of the clock are the multiples of 100 up to 4294967100, the last one before the wrap.\<close>

definition clock_ok :: "u32 \<Rightarrow> bool" where
  "clock_ok c \<longleftrightarrow> (\<exists>k \<le> 42949671. unat c = 100 * k)"

text \<open>The clock after \<open>n\<close> advances, as a number of steps of 100 ms from \<open>k\<close>.\<close>

definition clock_steps :: "nat \<Rightarrow> nat \<Rightarrow> nat" where
  "clock_steps k n = (if k + n \<le> 42949671 then k + n else (k + n - 1) mod 42949671 + 1)"

lemma wall_clock_advance_unat:
  assumes "unat c = 100 * k" "k \<le> 42949671"
  shows "unat (wall_clock_advance c) = (if k = 42949671 then 100 else 100 * Suc k)"
proof -
  have s: "unat (c + 100) = 100 * Suc k"
    using unat_add_u32 [of c 100] assms by simp
  have d: "unat (0xFFFFFFFF - (c + 100)) = 4294967295 - 100 * Suc k"
    using s assms by (subst unat_sub) (simp_all add: word_le_nat_alt)
  show ?thesis
    using assms s d by (auto simp: wall_clock_advance_def c_consts Let_def word_less_nat_alt)
qed

lemma clock_advance_n:
  assumes "unat c = 100 * k" "k \<le> 42949671"
  shows "unat ((wall_clock_advance ^^ n) c) = 100 * clock_steps k n"
proof (induction n)
  case 0
  then show ?case using assms by (simp add: clock_steps_def)
next
  case (Suc n)
  have le: "clock_steps k n \<le> 42949671"
    unfolding clock_steps_def by (auto intro: Suc_leI)
  have step: "clock_steps k (Suc n) = (if clock_steps k n = 42949671 then 1 else Suc (clock_steps k n))"
  proof (cases "k + n \<le> 42949671")
    case True
    then show ?thesis by (simp add: clock_steps_def)
  next
    case False
    then obtain m where m: "k + n = Suc m" by (cases "k + n") simp_all
    then show ?thesis using False by (simp add: clock_steps_def mod_Suc)
  qed
  show ?case
    using wall_clock_advance_unat [OF Suc le] step by simp
qed

text \<open>The elapsed time is measured correctly across the wrap of the clock: \<open>iot_timer_wall_clock_delta_get\<close>,
  given a clock value of the past, returns 100 ms for each of the updates since then, as long as there
  were fewer than 42949671 of them (49.7 days); the three wrap corrections of the code cancel out.\<close>

theorem iot_timer_delta_exact:
  assumes "clock_ok past" "n < 42949671" "m_wall_clock tm = (wall_clock_advance ^^ n) past"
  shows "\<exists>d. iot_timer_wall_clock_delta_get tm (Some past) (Some d0) = (NRF_SUCCESS, Some d) \<and> unat d = 100 * n"
proof -
  obtain k where k: "k \<le> 42949671" "unat past = 100 * k" using assms(1) by (auto simp: clock_ok_def)
  let ?now = "m_wall_clock tm"
  have now: "unat ?now = 100 * clock_steps k n" using clock_advance_n [OF k(2,1)] assms(3) by simp
  have p: "past mod 100 = 0" using k by (simp add: word_unat_eq_iff unat_mod)
  show ?thesis
  proof (cases "k + n \<le> 42949671")
    case True
    then have now': "unat ?now = 100 * (k + n)" using now by (simp add: clock_steps_def)
    show ?thesis
    proof (cases "n = 0")
      case True
      then show ?thesis using assms(3) p by (simp add: iot_timer_wall_clock_delta_get_def c_consts)
    next
      case False
      then have lt: "past < ?now" using now' k by (simp add: word_less_nat_alt)
      then have "unat (?now - past) = 100 * n" using now' k by (simp add: unat_sub_if_size less_imp_le)
      then show ?thesis using lt p by (auto simp: iot_timer_wall_clock_delta_get_def c_consts)
    qed
  next
    case False
    obtain x where x: "k + n = Suc (42949671 + x)" using False by (metis add_Suc less_iff_Suc_add not_le)
    then have "clock_steps k n = k + n - 42949671"
      using assms(2) k(1) by (simp add: clock_steps_def)
    then have now': "unat ?now = 100 * (k + n - 42949671)" using now by simp
    have gt: "\<not> ?now = past" "\<not> past < ?now"
      using now' k False assms(2) by (auto simp: word_less_nat_alt)
    have d1: "unat (4294967200 - past) = 4294967200 - 100 * k"
      using k by (subst unat_sub) (simp_all add: word_le_nat_alt)
    have d2: "unat (4294967200 - past + ?now) = 4294967200 - 100 * k + 100 * (k + n - 42949671)"
      using d1 now' k assms(2) by (subst unat_add_u32) simp_all
    have "unat (4294967200 - past + ?now - 100) = 4294967200 - 100 * k + 100 * (k + n - 42949671) - 100"
      using d2 k False assms(2) by (subst unat_sub) (simp_all add: word_le_nat_alt)
    also have "\<dots> = 100 * n" using k False assms(2) by simp
    finally have d3: "unat (4294967200 - past + ?now - 100) = 100 * n" .
    have m: "(0xFFFFFFFF div 100) * 100 = (4294967200 :: u32)" by simp
    show ?thesis using gt p d3 by (auto simp: iot_timer_wall_clock_delta_get_def c_consts Let_def m)
  qed
qed

theorem iot_timer_delta_exact_witness:
  "\<exists>d. iot_timer_wall_clock_delta_get \<lparr>m_wall_clock = 100, m_clients = None, tm_world = ()\<rparr>
      (Some 4294967000) (Some 0) = (NRF_SUCCESS, Some d) \<and> unat d = 200"
proof -
  have "clock_ok 4294967000" by (auto simp: clock_ok_def intro: exI [of _ 42949670])
  moreover have adv: "wall_clock_advance 4294967000 = 4294967100" "wall_clock_advance 4294967100 = 100"
    by (simp_all add: wall_clock_advance_def c_consts)
  moreover have "100 = (wall_clock_advance ^^ 2) 4294967000"
    by (simp only: numeral_2_eq_2 funpow.simps comp_def id_def adv)
  ultimately show ?thesis
    using iot_timer_delta_exact [of 4294967000 2 "\<lparr>m_wall_clock = 100, m_clients = None, tm_world = ()\<rparr>" 0]
    by simp
qed

section \<open>The clients\<close>

text \<open>A client that \<open>iot_timer_client_list_set\<close> accepts.\<close>

definition client_ok :: "iot_timer_client_t \<Rightarrow> bool" where
  "client_ok c \<longleftrightarrow> iot_timer_callback c \<noteq> None \<and> (\<exists>j > 0. unat (cb_interval c) = 100 * j)"

lemma client_interval_ok:
  "\<not> (x = 0 \<or> x < (100 :: u32) \<or> x mod 100 \<noteq> 0) \<longleftrightarrow> (\<exists>j > 0. unat x = 100 * j)"
proof -
  have "x mod 100 = 0 \<longleftrightarrow> unat x mod 100 = 0" by (simp add: word_unat_eq_iff unat_mod)
  moreover have "x = 0 \<longleftrightarrow> unat x = 0" by (simp add: word_unat_eq_iff)
  moreover have "x < 100 \<longleftrightarrow> unat x < 100" by (simp add: word_less_nat_alt)
  ultimately show ?thesis by (auto simp: mod_eq_0_iff_dvd elim!: dvdE)
qed

lemma client_ok_check:
  "client_ok c \<longleftrightarrow> iot_timer_callback c \<noteq> None \<and>
     \<not> (cb_interval c = 0 \<or> cb_interval c < IOT_TIMER_RESOLUTION_IN_MS \<or> cb_interval c mod IOT_TIMER_RESOLUTION_IN_MS \<noteq> 0)"
  unfolding client_ok_def c_consts client_interval_ok ..

lemma client_list_check_ok:
  "(\<forall>i \<in> set is. i < length cs) \<Longrightarrow>
   client_list_check cs is = Inr NRF_SUCCESS \<longleftrightarrow> (\<forall>i \<in> set is. client_ok (cs ! i))"
proof (induction "is")
  case (Cons i "is")
  then show ?case by (simp add: client_ok_check)
qed simp

text \<open>Callbacks that leave the clock and the client list alone.\<close>

definition cb_frame :: "(nat \<Rightarrow> u32 \<Rightarrow> 'w iot_timer \<Rightarrow> 'w iot_timer) \<Rightarrow> bool" where
  "cb_frame cb \<longleftrightarrow> (\<forall>f c t. m_clients (cb f c t) = m_clients t \<and> m_wall_clock (cb f c t) = m_wall_clock t)"

definition due :: "u32 \<Rightarrow> iot_timer_client_t \<Rightarrow> bool" where
  "due c cl \<longleftrightarrow> c mod cb_interval cl = 0"

lemma timer_client_loop_eq:
  assumes "cb_frame cb" "m_clients tm = Some l" "m_wall_clock tm = c"
    and "unat (client_list_length l) = length (p_client_list l)" "\<forall>cl \<in> set (p_client_list l). client_ok cl"
  shows "timer_client_loop cb tm [i..<256]
    = Inr (fold (\<lambda>cl t. cb (the (iot_timer_callback cl)) c t) (filter (due c) (drop i (p_client_list l))) tm)"
proof (cases "i \<le> 256")
  case True
  then show ?thesis
    using assms(2,3)
  proof (induction i arbitrary: tm rule: inc_induct)
    case base
    then show ?case using assms(4) unat_u8_less [of "client_list_length l"] by simp
  next
    case (step i)
    have u: "[i..<256] = i # [Suc i..<256]" using step.hyps by (simp add: upt_conv_Cons)
    show ?case
    proof (cases "i < length (p_client_list l)")
      case False
      then show ?thesis using step.prems assms(4) by (simp add: u)
    next
      case True
      let ?cl = "p_client_list l ! i"
      have d: "drop i (p_client_list l) = ?cl # drop (Suc i) (p_client_list l)" using True by (simp add: Cons_nth_drop_Suc)
      have ok: "client_ok ?cl" using assms(5) True by simp
      then obtain f where f: "iot_timer_callback ?cl = Some f" by (auto simp: client_ok_def)
      have nz: "cb_interval ?cl \<noteq> 0" using ok by (auto simp: client_ok_def)
      have fr: "m_clients (cb f c tm) = Some l" "m_wall_clock (cb f c tm) = c"
        using assms(1) step.prems by (simp_all add: cb_frame_def)
      show ?thesis
        using True step.prems assms(4) nz f step.IH [OF fr] step.IH [OF step.prems]
        by (simp add: u d due_def)
    qed
  qed
next
  case False
  then show ?thesis using assms(4) unat_u8_less [of "client_list_length l"] by simp
qed

text \<open>C29: Once a client list is accepted, an update advances the clock and calls exactly the clients whose
  interval divides the new clock value, in the order of the list, each once and with that value; it
  neither divides by zero nor calls through NULL, as the check of the list promises.\<close>

theorem iot_timer_update_calls_due_clients:
  assumes "iot_timer_client_list_set tm (Some l) = Inr (NRF_SUCCESS, tm1)"
    and "unat (client_list_length l) = length (p_client_list l)" "cb_frame cb"
  shows "iot_timer_update cb tm1 = Inr (NRF_SUCCESS,
     (let c = wall_clock_advance (m_wall_clock tm)
      in fold (\<lambda>cl t. cb (the (iot_timer_callback cl)) c t) (filter (\<lambda>cl. c mod cb_interval cl = 0) (p_client_list l))
           (tm\<lparr>m_clients := Some l, m_wall_clock := c\<rparr>)))"
proof -
  have tm1: "tm1 = tm\<lparr>m_clients := Some l\<rparr>"
    and chk: "client_list_check (p_client_list l) [0..<length (p_client_list l)] = Inr NRF_SUCCESS"
    using assms(1,2) by (auto simp: iot_timer_client_list_set_def c_bind_eq_Inr split: if_splits)
  then have "\<forall>cl \<in> set (p_client_list l). client_ok cl"
    using client_list_check_ok [of "[0..<length (p_client_list l)]" "p_client_list l"]
    by (simp add: all_set_conv_all_nth)
  then show ?thesis
    using timer_client_loop_eq [OF assms(3), of "tm1\<lparr>m_wall_clock := wall_clock_advance (m_wall_clock tm1)\<rparr>" l _ 0]
      assms(2)
    by (simp add: iot_timer_update_def Let_def tm1 due_def [abs_def])
qed

definition sample_clients :: iot_timer_clients_list_t where
  "sample_clients = \<lparr>client_list_length = 2, p_client_list =
     [\<lparr>iot_timer_callback = Some 10, cb_interval = 300\<rparr>, \<lparr>iot_timer_callback = Some 11, cb_interval = 200\<rparr>]\<rparr>"

text \<open>A callback that records its calls.\<close>

definition record_call :: "nat \<Rightarrow> u32 \<Rightarrow> (nat \<times> u32) list iot_timer \<Rightarrow> (nat \<times> u32) list iot_timer" where
  "record_call f c t = t\<lparr>tm_world := tm_world t @ [(f, c)]\<rparr>"

lemma record_call_frame: "cb_frame record_call"
  by (simp add: cb_frame_def record_call_def)

theorem iot_timer_update_calls_due_clients_witness:
  "\<exists>tm1 tm2. iot_timer_client_list_set \<lparr>m_wall_clock = 300, m_clients = None, tm_world = []\<rparr> (Some sample_clients)
       = Inr (NRF_SUCCESS, tm1) \<and>
     iot_timer_update record_call tm1 = Inr (NRF_SUCCESS, tm2) \<and> tm_world tm2 = [(11, 400)]"
proof -
  let ?tm = "\<lparr>m_wall_clock = 300, m_clients = None, tm_world = []\<rparr> :: (nat \<times> u32) list iot_timer"
  have l: "unat (client_list_length sample_clients) = length (p_client_list sample_clients)"
    by (simp add: sample_clients_def)
  have "client_list_check (p_client_list sample_clients) [0..<2] = Inr NRF_SUCCESS"
    by (simp add: sample_clients_def upt_rec c_consts)
  then have set: "iot_timer_client_list_set ?tm (Some sample_clients) = Inr (NRF_SUCCESS, ?tm\<lparr>m_clients := Some sample_clients\<rparr>)"
    using l by (simp add: iot_timer_client_list_set_def sample_clients_def)
  show ?thesis
    using iot_timer_update_calls_due_clients [OF set l record_call_frame] set
    by (simp add: sample_clients_def wall_clock_advance_def c_consts record_call_def Let_def)
qed

end
