(* ===== verification/Ring_Buffer.thy ===== *)
theory Ring_Buffer
  imports C_Prelude
begin

text \<open>
  First-in first-out queues in a ring of slots: the index arithmetic that the byte FIFO and the event
  scheduler share, and the contract of a bounded queue, which both provide.
\<close>

section \<open>The slots in use\<close>

definition ring_ixs :: "nat \<Rightarrow> nat \<Rightarrow> nat \<Rightarrow> nat list" where
  "ring_ixs N s n = map (\<lambda>i. (s + i) mod N) [0..<n]"

lemma ring_ixs_0 [simp]: "ring_ixs N s 0 = []"
  by (simp add: ring_ixs_def)

lemma ring_ixs_length [simp]: "length (ring_ixs N s n) = n"
  by (simp add: ring_ixs_def)

lemma ring_ixs_snoc: "ring_ixs N s (Suc n) = ring_ixs N s n @ [(s + n) mod N]"
  by (simp add: ring_ixs_def)

lemma ring_ixs_Cons:
  assumes "s < N"
  shows "ring_ixs N s (Suc n) = s # ring_ixs N (Suc s mod N) n"
proof -
  have "(s + Suc i) mod N = (Suc s mod N + i) mod N" for i
    by (simp add: mod_add_left_eq)
  then show ?thesis
    using assms unfolding ring_ixs_def by (subst upt_conv_Cons) (simp_all add: map_Suc_upt [symmetric] del: upt_Suc)
qed

lemma ring_ixs_less: "0 < N \<Longrightarrow> k \<in> set (ring_ixs N s n) \<Longrightarrow> k < N"
  by (auto simp: ring_ixs_def)

text \<open>The slot after the last one in use is free as long as not all slots are in use.\<close>

lemma ring_ixs_next_free:
  assumes "n < N"
  shows "(s + n) mod N \<notin> set (ring_ixs N s n)"
proof
  assume "(s + n) mod N \<in> set (ring_ixs N s n)"
  then obtain i where i: "i < n" "(s + n) mod N = (s + i) mod N" by (auto simp: ring_ixs_def)
  then have "N dvd (s + n) - (s + i)" by (subst mod_eq_dvd_iff_nat [symmetric]) simp_all
  then have "N \<le> n - i" using i(1) by (auto dest: dvd_imp_le)
  then show False using assms by simp
qed

section \<open>The contract of a bounded queue\<close>

text \<open>A sequence of operations on a queue, and what a client sees of it: for each operation whether it
  succeeded, and the item a successful read returned. \<open>None\<close> stands for a read, \<open>Some x\<close> for a write of \<open>x\<close>.\<close>

fun queue_run :: "('s \<Rightarrow> 'a \<Rightarrow> 's option) \<Rightarrow> ('s \<Rightarrow> ('a \<times> 's) option) \<Rightarrow> 's \<Rightarrow> 'a option list \<Rightarrow>
    (bool \<times> 'a option) list \<times> 's" where
  "queue_run put get s [] = ([], s)"
| "queue_run put get s (Some x # ops) =
     (case put s x of
        Some s' \<Rightarrow> apfst ((#) (True, None)) (queue_run put get s' ops)
      | None \<Rightarrow> apfst ((#) (False, None)) (queue_run put get s ops))"
| "queue_run put get s (None # ops) =
     (case get s of
        Some (x, s') \<Rightarrow> apfst ((#) (True, Some x)) (queue_run put get s' ops)
      | None \<Rightarrow> apfst ((#) (False, None)) (queue_run put get s ops))"

text \<open>The same on a list with at most \<open>n\<close> elements: the specification.\<close>

fun spec_run :: "nat \<Rightarrow> 'a list \<Rightarrow> 'a option list \<Rightarrow> (bool \<times> 'a option) list \<times> 'a list" where
  "spec_run n xs [] = ([], xs)"
| "spec_run n xs (Some x # ops) =
     (if length xs < n
      then apfst ((#) (True, None)) (spec_run n (xs @ [x]) ops)
      else apfst ((#) (False, None)) (spec_run n xs ops))"
| "spec_run n xs (None # ops) =
     (case xs of
        y # zs \<Rightarrow> apfst ((#) (True, Some y)) (spec_run n zs ops)
      | [] \<Rightarrow> apfst ((#) (False, None)) (spec_run n [] ops))"

text \<open>
  \<open>items\<close> is the content, oldest item first; \<open>room\<close> is the number of items the queue holds at most and
  \<open>fits\<close> says which items it takes.
\<close>

locale bounded_queue =
  fixes inv :: "'s \<Rightarrow> bool"
    and items :: "'s \<Rightarrow> 'a list"
    and room :: "'s \<Rightarrow> nat"
    and fits :: "'s \<Rightarrow> 'a \<Rightarrow> bool"
    and put :: "'s \<Rightarrow> 'a \<Rightarrow> 's option"
    and get :: "'s \<Rightarrow> ('a \<times> 's) option"
  assumes put_ok: "inv s \<Longrightarrow> fits s x \<Longrightarrow> length (items s) < room s \<Longrightarrow>
      \<exists>s'. put s x = Some s' \<and> inv s' \<and> items s' = items s @ [x] \<and> room s' = room s \<and> fits s' = fits s"
    and put_full: "inv s \<Longrightarrow> room s \<le> length (items s) \<Longrightarrow> put s x = None"
    and get_ok: "inv s \<Longrightarrow> items s = x # xs \<Longrightarrow>
      \<exists>s'. get s = Some (x, s') \<and> inv s' \<and> items s' = xs \<and> room s' = room s \<and> fits s' = fits s"
    and get_empty: "inv s \<Longrightarrow> items s = [] \<Longrightarrow> get s = None"
begin

lemma run_refines:
  assumes "inv s" "\<forall>x. Some x \<in> set ops \<longrightarrow> fits s x"
  shows "fst (queue_run put get s ops) = fst (spec_run (room s) (items s) ops) \<and>
    inv (snd (queue_run put get s ops)) \<and> items (snd (queue_run put get s ops)) = snd (spec_run (room s) (items s) ops)"
  using assms
proof (induction ops arbitrary: s)
  case (Cons op ops)
  note IH = Cons.IH
  show ?case
  proof (cases op)
    case (Some x)
    show ?thesis
    proof (cases "length (items s) < room s")
      case True
      then obtain s' where "put s x = Some s'" "inv s'" "items s' = items s @ [x]" "room s' = room s" "fits s' = fits s"
        using put_ok [OF Cons.prems(1), of x] Cons.prems(2) Some by auto
      then show ?thesis using IH [of s'] Cons.prems Some True by simp
    next
      case False
      then show ?thesis using put_full [OF Cons.prems(1), of x] IH [of s] Cons.prems Some False by simp
    qed
  next
    case None
    show ?thesis
    proof (cases "items s")
      case Nil
      then show ?thesis using get_empty [OF Cons.prems(1)] IH [of s] Cons.prems None by simp
    next
      case (Cons y ys)
      then obtain s' where "get s = Some (y, s')" "inv s'" "items s' = ys" "room s' = room s" "fits s' = fits s"
        using get_ok [OF Cons.prems(1), of y ys] by auto
      then show ?thesis using IH [of s'] Cons Cons.prems None by simp
    qed
  qed
qed simp

end

end
