(* ===== verification/App_Fifo.thy ===== *)
theory App_Fifo
  imports Sdk_Config Ring_Buffer
begin

text \<open>
  The byte FIFO, \<^verbatim>\<open>components/libraries/fifo/app_fifo.c\<close>. The read and write positions are 32-bit
  counters that run on and wrap around; they are masked when the buffer is accessed. The memory behind
  \<open>p_buf\<close> is part of the state.
\<close>

section \<open>State and operations\<close>

record app_fifo_t =
  p_buf :: "u8 list"
  buf_size_mask :: u16
  read_pos :: u32
  write_pos :: u32

definition fifo_length :: "app_fifo_t \<Rightarrow> u32" where
  "fifo_length f = write_pos f - read_pos f"

definition IS_POWER_OF_TWO :: "u16 \<Rightarrow> bool" where
  "IS_POWER_OF_TWO a \<longleftrightarrow> a \<noteq> 0 \<and> (a - 1) AND a = 0"

definition app_fifo_init :: "app_fifo_t \<Rightarrow> u8 list option \<Rightarrow> u16 \<Rightarrow> u32 \<times> app_fifo_t" where
  "app_fifo_init f buf buf_size =
     (case buf of
        None \<Rightarrow> (NRF_ERROR_NULL, f)
      | Some b \<Rightarrow>
        if \<not> IS_POWER_OF_TWO buf_size then (NRF_ERROR_INVALID_LENGTH, f)
        else (NRF_SUCCESS, f\<lparr>p_buf := b, buf_size_mask := buf_size - 1, read_pos := 0, write_pos := 0\<rparr>))"

definition app_fifo_put :: "app_fifo_t \<Rightarrow> u8 \<Rightarrow> fault + u32 \<times> app_fifo_t" where
  "app_fifo_put f byte =
     (if fifo_length f \<le> ucast (buf_size_mask f)
      then c_bind (arr_set (p_buf f) (unat (write_pos f AND ucast (buf_size_mask f))) byte) (\<lambda>b.
           Inr (NRF_SUCCESS, f\<lparr>p_buf := b, write_pos := write_pos f + 1\<rparr>))
      else Inr (NRF_ERROR_NO_MEM, f))"

text \<open>The result is the error code, the cell behind \<open>p_byte\<close> and the state.\<close>

definition app_fifo_get :: "app_fifo_t \<Rightarrow> u8 \<Rightarrow> fault + u32 \<times> u8 \<times> app_fifo_t" where
  "app_fifo_get f p_byte =
     (if fifo_length f \<noteq> 0
      then c_bind (arr_get (p_buf f) (unat (read_pos f AND ucast (buf_size_mask f)))) (\<lambda>b.
           Inr (NRF_SUCCESS, b, f\<lparr>read_pos := read_pos f + 1\<rparr>))
      else Inr (NRF_ERROR_NOT_FOUND, p_byte, f))"

definition app_fifo_flush :: "app_fifo_t \<Rightarrow> u32 \<times> app_fifo_t" where
  "app_fifo_flush f = (NRF_SUCCESS, f\<lparr>read_pos := write_pos f\<rparr>)"

section \<open>Powers of two\<close>

lemma nat_power_of_two: "a > 0 \<Longrightarrow> (a - 1) AND a = 0 \<Longrightarrow> \<exists>n. a = (2 :: nat) ^ n"
proof (induction a rule: less_induct)
  case (less a)
  show ?case
  proof (cases "even a")
    case True
    then obtain b where b: "a = 2 * b" by (elim evenE)
    have "b > 0" using b less.prems(1) by simp
    have "(2 * b - 1) div 2 = b - 1" "odd (2 * b - 1)" using \<open>b > 0\<close> by (cases b; simp)+
    then have "(a - 1) AND a = 2 * ((b - 1) AND b)"
      using b by (subst and_rec) simp
    then obtain n where "b = 2 ^ n" using less.IH [of b] less.prems(2) b \<open>b > 0\<close> by auto
    then show ?thesis using b by (intro exI [of _ "Suc n"]) simp
  next
    case False
    then obtain b where b: "a = 2 * b + 1" by (elim oddE)
    have "(a - 1) AND a = 2 * b" using b by (subst and_rec) simp
    then show ?thesis using less.prems(2) b by (intro exI [of _ 0]) simp
  qed
qed

lemma IS_POWER_OF_TWO_iff: "IS_POWER_OF_TWO a \<longleftrightarrow> (\<exists>n < 16. unat a = 2 ^ n)"
proof
  assume p: "IS_POWER_OF_TWO a"
  then have pos: "unat a > 0" and "unat ((a - 1) AND a) = 0"
    by (auto simp: IS_POWER_OF_TWO_def unat_gt_0)
  moreover have "unat (a - 1) = unat a - 1"
    using pos by (simp add: unat_minus_one IS_POWER_OF_TWO_def unat_gt_0)
  ultimately obtain n where n: "unat a = 2 ^ n"
    using nat_power_of_two [of "unat a"] by (auto simp: unsigned_and_eq)
  then have "(2 :: nat) ^ n < 2 ^ 16" using unat_u16_less [of a] by simp
  then have "n < 16" by (rule power_less_imp_less_exp [rotated]) simp
  then show "\<exists>n < 16. unat a = 2 ^ n" using n by blast
next
  assume "\<exists>n < 16. unat a = 2 ^ n"
  then obtain n where n: "n < 16" "unat a = 2 ^ n" by blast
  then have nz: "a \<noteq> 0" by auto
  have "unat (a - 1) = mask n" using n nz by (simp add: unat_minus_one mask_eq_exp_minus_1)
  then have "unat ((a - 1) AND a) = take_bit n (2 ^ n)" using n by (simp add: unsigned_and_eq and.commute take_bit_eq_mask)
  then have "unat ((a - 1) AND a) = 0" by (simp add: take_bit_nat_def)
  then show "IS_POWER_OF_TWO a" using nz by (simp add: IS_POWER_OF_TWO_def word_unat_eq_iff)
qed

section \<open>The queue\<close>

definition fifo_size :: "app_fifo_t \<Rightarrow> nat" where
  "fifo_size f = Suc (unat (buf_size_mask f))"

definition fifo_inv :: "app_fifo_t \<Rightarrow> bool" where
  "fifo_inv f \<longleftrightarrow> (\<exists>n < 16. fifo_size f = 2 ^ n) \<and> fifo_size f \<le> length (p_buf f) \<and>
     unat (fifo_length f) \<le> fifo_size f"

definition fifo_bytes :: "app_fifo_t \<Rightarrow> u8 list" where
  "fifo_bytes f =
     map (\<lambda>k. p_buf f ! k) (ring_ixs (fifo_size f) (unat (read_pos f) mod fifo_size f) (unat (fifo_length f)))"

lemma fifo_index:
  assumes "fifo_inv f"
  shows "unat ((w :: u32) AND ucast (buf_size_mask f)) = unat w mod fifo_size f"
proof -
  obtain n where n: "fifo_size f = 2 ^ n" using assms by (auto simp: fifo_inv_def)
  then have "unat (buf_size_mask f) = mask n" by (simp add: fifo_size_def mask_eq_exp_minus_1)
  then have "unat (w AND ucast (buf_size_mask f)) = take_bit n (unat w)"
    by (simp add: unsigned_and_eq take_bit_eq_mask)
  then show ?thesis using n by (simp add: take_bit_nat_def)
qed

lemma fifo_write_index:
  assumes "fifo_inv f"
  shows "unat (write_pos f) mod fifo_size f
    = (unat (read_pos f) mod fifo_size f + unat (fifo_length f)) mod fifo_size f"
proof -
  obtain n where n: "n < 16" "fifo_size f = 2 ^ n" using assms by (auto simp: fifo_inv_def)
  have d: "(2 :: nat) ^ n dvd 2 ^ 32" using n(1) by (intro le_imp_power_dvd) simp
  have "write_pos f = read_pos f + fifo_length f" by (simp add: fifo_length_def)
  then have "unat (write_pos f) = (unat (read_pos f) + unat (fifo_length f)) mod 2 ^ 32"
    by (simp add: unat_word_ariths)
  then have "unat (write_pos f) mod 2 ^ n = (unat (read_pos f) + unat (fifo_length f)) mod 2 ^ n"
    using d by (simp add: mod_mod_cancel)
  then show ?thesis using n(2) by (simp add: mod_add_left_eq)
qed

lemma fifo_put_ok:
  assumes "fifo_inv f" "unat (fifo_length f) < fifo_size f"
  shows "\<exists>f'. app_fifo_put f x = Inr (NRF_SUCCESS, f') \<and> fifo_inv f' \<and> fifo_bytes f' = fifo_bytes f @ [x] \<and>
    fifo_size f' = fifo_size f"
proof -
  let ?N = "fifo_size f" and ?r = "unat (read_pos f) mod fifo_size f"
  define k where "k = unat (write_pos f) mod ?N"
  let ?f' = "f\<lparr>p_buf := (p_buf f)[k := x], write_pos := write_pos f + 1\<rparr>"
  obtain n where n: "n < 16" "?N = 2 ^ n" using assms(1) by (auto simp: fifo_inv_def)
  then have "?N \<le> 2 ^ 15" by (simp add: power_increasing del: power_numeral)
  then have N: "0 < ?N" "?N \<le> length (p_buf f)" "?N \<le> 2 ^ 15"
    using assms(1) by (auto simp: fifo_inv_def fifo_size_def)
  have k: "k < length (p_buf f)" unfolding k_def using N by (meson less_le_trans mod_less_divisor)
  have last: "(?r + unat (fifo_length f)) mod ?N = k" using fifo_write_index [OF assms(1)] by (simp add: k_def)
  have le: "fifo_length f \<le> ucast (buf_size_mask f)"
    using assms(2) by (simp add: word_le_nat_alt fifo_size_def)
  have len: "unat (fifo_length ?f') = Suc (unat (fifo_length f))"
    using assms(2) N unat_add_u32 [of "fifo_length f" 1] by (simp add: fifo_length_def add_diff_eq [symmetric] diff_add_eq)
  have put: "app_fifo_put f x = Inr (NRF_SUCCESS, ?f')"
    using le k by (simp add: app_fifo_put_def fifo_index [OF assms(1)] k_def)
  have sz: "fifo_size ?f' = ?N" by (simp add: fifo_size_def)
  have "fifo_inv ?f'" using assms N(2) len sz by (simp add: fifo_inv_def)
  moreover have "fifo_bytes ?f' = fifo_bytes f @ [x]"
    using ring_ixs_next_free [OF assms(2), of ?r] k
    by (auto simp: fifo_bytes_def sz len ring_ixs_snoc last nth_list_update)
  ultimately show ?thesis using put sz by blast
qed

lemma fifo_get_ok:
  assumes "fifo_inv f" "fifo_bytes f = x # xs"
  shows "\<exists>f'. app_fifo_get f b = Inr (NRF_SUCCESS, x, f') \<and> fifo_inv f' \<and> fifo_bytes f' = xs \<and>
    fifo_size f' = fifo_size f"
proof -
  let ?N = "fifo_size f" and ?k = "unat (read_pos f) mod fifo_size f"
  let ?f' = "f\<lparr>read_pos := read_pos f + 1\<rparr>"
  obtain n where n: "n < 16" "?N = 2 ^ n" using assms(1) by (auto simp: fifo_inv_def)
  have N: "0 < ?N" "?N \<le> length (p_buf f)" using assms(1) by (auto simp: fifo_inv_def fifo_size_def)
  have k: "?k < ?N" using N by simp
  obtain l where l: "unat (fifo_length f) = Suc l"
    using assms(2) by (cases "unat (fifo_length f)") (simp_all add: fifo_bytes_def)
  then have nz: "fifo_length f \<noteq> 0" by auto
  have sz: "fifo_size ?f' = ?N" by (simp add: fifo_size_def)
  have len: "unat (fifo_length ?f') = l"
    using l nz by (simp add: fifo_length_def diff_diff_eq [symmetric] unat_minus_one)
  have d: "(2 :: nat) ^ n dvd 2 ^ 32" using n(1) by (intro le_imp_power_dvd) simp
  have rp: "unat (read_pos f + 1) mod ?N = Suc ?k mod ?N"
    using d n(2) by (simp add: unat_word_ariths mod_mod_cancel mod_Suc_eq)
  have split: "fifo_bytes f = p_buf f ! ?k # fifo_bytes ?f'"
    using k by (simp add: fifo_bytes_def l len sz rp ring_ixs_Cons)
  have "app_fifo_get f b = Inr (NRF_SUCCESS, p_buf f ! ?k, ?f')"
    using nz less_le_trans [OF k N(2)] by (simp add: app_fifo_get_def fifo_index [OF assms(1)])
  moreover have "fifo_inv ?f'" using assms(1) l by (simp add: fifo_inv_def sz len)
  ultimately show ?thesis using split assms(2) sz by simp
qed

section \<open>The contract\<close>

text \<open>
  The operations as the contract sees them. An access out of bounds would be a success without an
  effect, which the contract excludes.
\<close>

definition fifo_put :: "app_fifo_t \<Rightarrow> u8 \<Rightarrow> app_fifo_t option" where
  "fifo_put f x = (case app_fifo_put f x of
     Inl _ \<Rightarrow> Some f
   | Inr (e, f') \<Rightarrow> if e = NRF_SUCCESS then Some f' else None)"

definition fifo_get :: "app_fifo_t \<Rightarrow> (u8 \<times> app_fifo_t) option" where
  "fifo_get f = (case app_fifo_get f 0 of
     Inl _ \<Rightarrow> Some (0, f)
   | Inr (e, x, f') \<Rightarrow> if e = NRF_SUCCESS then Some (x, f') else None)"

lemma fifo_bytes_length: "length (fifo_bytes f) = unat (fifo_length f)"
  by (simp add: fifo_bytes_def)

lemma fifo_full:
  assumes "fifo_size f \<le> unat (fifo_length f)"
  shows "app_fifo_put f x = Inr (NRF_ERROR_NO_MEM, f)"
  using assms by (simp add: app_fifo_put_def fifo_size_def word_le_nat_alt)

lemma fifo_empty:
  assumes "unat (fifo_length f) = 0"
  shows "app_fifo_get f x = Inr (NRF_ERROR_NOT_FOUND, x, f)"
proof -
  have "fifo_length f = 0" using assms by (simp add: word_unat_eq_iff)
  then show ?thesis by (simp add: app_fifo_get_def)
qed

interpretation fifo: bounded_queue fifo_inv fifo_bytes fifo_size "\<lambda>_ _. True" fifo_put fifo_get
proof unfold_locales
  fix s :: app_fifo_t and x
  assume "fifo_inv s" "length (fifo_bytes s) < fifo_size s"
  then show "\<exists>s'. fifo_put s x = Some s' \<and> fifo_inv s' \<and> fifo_bytes s' = fifo_bytes s @ [x] \<and>
      fifo_size s' = fifo_size s \<and> (\<lambda>_. True) = (\<lambda>_. True)"
    using fifo_put_ok [of s x] by (auto simp: fifo_put_def fifo_bytes_length)
next
  fix s x
  assume "fifo_inv s" "fifo_size s \<le> length (fifo_bytes s)"
  then show "fifo_put s x = None" by (simp add: fifo_put_def fifo_full fifo_bytes_length)
next
  fix s x xs
  assume "fifo_inv s" "fifo_bytes s = x # xs"
  then show "\<exists>s'. fifo_get s = Some (x, s') \<and> fifo_inv s' \<and> fifo_bytes s' = xs \<and>
      fifo_size s' = fifo_size s \<and> (\<lambda>_. True) = (\<lambda>_. True)"
    using fifo_get_ok [of s x xs 0] by (auto simp: fifo_get_def)
next
  fix s
  assume "fifo_inv s" "fifo_bytes s = []"
  then have "unat (fifo_length s) = 0" using fifo_bytes_length [of s] by simp
  then show "fifo_get s = None" by (simp add: fifo_get_def fifo_empty)
qed

lemma fifo_init_inv:
  assumes "app_fifo_init f (Some b) n = (NRF_SUCCESS, f')" "unat n \<le> length b"
  shows "fifo_inv f' \<and> fifo_bytes f' = [] \<and> fifo_size f' = unat n"
proof -
  have p: "IS_POWER_OF_TWO n" and f': "f' = f\<lparr>p_buf := b, buf_size_mask := n - 1, read_pos := 0, write_pos := 0\<rparr>"
    using assms(1) by (auto simp: app_fifo_init_def c_consts split: if_splits)
  obtain k where k: "k < 16" "unat n = 2 ^ k" using p IS_POWER_OF_TWO_iff by blast
  then have "n \<noteq> 0" by auto
  then have "Suc (unat (n - 1)) = 2 ^ k" using k by (simp add: unat_minus_one)
  then show ?thesis using k assms(2) f' by (auto simp: fifo_inv_def fifo_size_def fifo_bytes_def fifo_length_def)
qed

text \<open>C30: After a successful initialisation with a buffer of \<open>n\<close> bytes, every sequence of \<open>app_fifo_put\<close>
  and \<open>app_fifo_get\<close> calls, however long, returns what a list with at most \<open>n\<close> bytes returns: bytes
  come out in the order they went in, a write fails exactly when \<open>n\<close> bytes wait and a read exactly when
  none does; no access leaves the buffer, also when the 32-bit positions wrap around.\<close>

theorem app_fifo_implements_queue:
  assumes "app_fifo_init f0 (Some b) n = (NRF_SUCCESS, f)" "unat n \<le> length b"
  shows "fst (queue_run fifo_put fifo_get f ops) = fst (spec_run (unat n) [] ops) \<and>
    fifo_bytes (snd (queue_run fifo_put fifo_get f ops)) = snd (spec_run (unat n) [] ops)"
  using fifo.run_refines [of f ops] fifo_init_inv [OF assms] by simp

theorem app_fifo_implements_queue_witness:
  "fst (queue_run fifo_put fifo_get
     \<lparr>p_buf = [9, 9], buf_size_mask = 1, read_pos = 0, write_pos = 0\<rparr>
     [Some 5, Some 6, Some 7, None, None, None])
   = [(True, None), (True, None), (False, None), (True, Some 5), (True, Some 6), (False, None)]"
proof -
  have "app_fifo_init \<lparr>p_buf = [], buf_size_mask = 0, read_pos = 0, write_pos = 0\<rparr> (Some [9, 9]) 2
      = (NRF_SUCCESS, \<lparr>p_buf = [9, 9], buf_size_mask = 1, read_pos = 0, write_pos = 0\<rparr>)"
    by (simp add: app_fifo_init_def IS_POWER_OF_TWO_def)
  from app_fifo_implements_queue [OF this] show ?thesis by (simp del: queue_run.simps)
qed

text \<open>Flushing discards all waiting bytes and keeps the queue usable, whatever it holds.\<close>

theorem app_fifo_flush_empties:
  assumes "fifo_inv f"
  shows "\<exists>f'. app_fifo_flush f = (NRF_SUCCESS, f') \<and> fifo_inv f' \<and> fifo_bytes f' = [] \<and> fifo_size f' = fifo_size f"
  using assms by (simp add: app_fifo_flush_def fifo_inv_def fifo_size_def fifo_bytes_def fifo_length_def)

theorem app_fifo_flush_empties_witness:
  "\<exists>f'. app_fifo_flush \<lparr>p_buf = [9, 9], buf_size_mask = 1, read_pos = 4294967295, write_pos = 1\<rparr> = (NRF_SUCCESS, f') \<and>
     fifo_bytes f' = []"
proof -
  have "fifo_inv \<lparr>p_buf = [9, 9], buf_size_mask = 1, read_pos = 4294967295, write_pos = 1\<rparr>"
    by (auto simp: fifo_inv_def fifo_size_def fifo_length_def intro!: exI [of _ 1])
  from app_fifo_flush_empties [OF this] show ?thesis by blast
qed

end
