(* ===== verification/App_Scheduler.thy ===== *)
theory App_Scheduler
  imports Sdk_Config Ring_Buffer
begin

text \<open>
  The event scheduler, \<^verbatim>\<open>components/libraries/scheduler/app_scheduler.c\<close>: a ring of event headers and
  data slots that interrupt handlers fill and the main loop empties. The indices are 8 bits wide. The
  critical region makes the reservation of a slot atomic, so an operation is one step. The event
  buffer is seen as the two arrays that \<open>app_sched_init\<close> cuts it into.
\<close>

section \<open>State and operations\<close>

record event_header_t =
  ev_handler :: "nat option"
  event_data_size :: u16

record 'w app_sched =
  m_queue_event_headers :: "event_header_t list"
  m_queue_event_data :: "u8 list"
  m_queue_start_index :: u8
  m_queue_end_index :: u8
  m_queue_event_size :: u16
  m_queue_size :: u16
  sc_world :: 'w

definition next_index :: "'w app_sched \<Rightarrow> u8 \<Rightarrow> u8" where
  "next_index s i = (if unat i < unat (m_queue_size s) then i + 1 else 0)"

definition app_sched_queue_full :: "'w app_sched \<Rightarrow> bool" where
  "app_sched_queue_full s \<longleftrightarrow> next_index s (m_queue_end_index s) = m_queue_start_index s"

definition app_sched_queue_empty :: "'w app_sched \<Rightarrow> bool" where
  "app_sched_queue_empty s \<longleftrightarrow> m_queue_end_index s = m_queue_start_index s"

text \<open>\<open>aligned\<close> says whether the event buffer is word aligned; \<open>headers\<close> and \<open>data\<close> are its two parts.\<close>

definition app_sched_init ::
  "'w app_sched \<Rightarrow> u16 \<Rightarrow> u16 \<Rightarrow> bool \<Rightarrow> event_header_t list \<Rightarrow> u8 list \<Rightarrow> u32 \<times> 'w app_sched" where
  "app_sched_init s event_size queue_size aligned headers data =
     (if \<not> aligned then (NRF_ERROR_INVALID_PARAM, s)
      else (NRF_SUCCESS,
            s\<lparr>m_queue_event_headers := headers, m_queue_event_data := data, m_queue_end_index := 0,
              m_queue_start_index := 0, m_queue_event_size := event_size, m_queue_size := queue_size\<rparr>))"

definition app_sched_event_put ::
  "'w app_sched \<Rightarrow> u8 list option \<Rightarrow> u16 \<Rightarrow> nat option \<Rightarrow> fault + u32 \<times> 'w app_sched" where
  "app_sched_event_put s p_event_data data_size hnd =
     (if data_size \<le> m_queue_event_size s then
        if \<not> app_sched_queue_full s then
          let event_index = unat (m_queue_end_index s);
              s1 = s\<lparr>m_queue_end_index := next_index s (m_queue_end_index s)\<rparr>
          in c_bind (arr_upd (m_queue_event_headers s1) event_index (\<lambda>e. e\<lparr>ev_handler := hnd\<rparr>)) (\<lambda>headers.
             c_bind
               (case p_event_data of
                  Some d \<Rightarrow>
                    if data_size > 0 then
                      c_bind (arr_read d 0 (unat data_size)) (\<lambda>bytes.
                      c_bind (arr_write (m_queue_event_data s1) (event_index * unat (m_queue_event_size s1)) bytes)
                        (\<lambda>data. Inr (data, data_size)))
                    else Inr (m_queue_event_data s1, 0)
                | None \<Rightarrow> Inr (m_queue_event_data s1, 0)) (\<lambda>(data, sz).
             c_bind (arr_upd headers event_index (\<lambda>e. e\<lparr>event_data_size := sz\<rparr>)) (\<lambda>headers.
             Inr (NRF_SUCCESS, s1\<lparr>m_queue_event_headers := headers, m_queue_event_data := data\<rparr>))))
        else Inr (NRF_ERROR_NO_MEM, s)
      else Inr (NRF_ERROR_INVALID_LENGTH, s))"

text \<open>
  The result is the error code, the cells behind the out parameters (the offset of the event data, its
  size and the handler), where they are written, and the state.
\<close>

definition app_sched_event_get ::
  "'w app_sched \<Rightarrow> fault + u32 \<times> (nat \<times> u16 \<times> nat option) option \<times> 'w app_sched" where
  "app_sched_event_get s =
     (if \<not> app_sched_queue_empty s then
        let event_index = unat (m_queue_start_index s);
            s1 = s\<lparr>m_queue_start_index := next_index s (m_queue_start_index s)\<rparr>
        in c_bind (arr_get (m_queue_event_headers s1) event_index) (\<lambda>e.
           Inr (NRF_SUCCESS,
                Some (event_index * unat (m_queue_event_size s1), event_data_size e, ev_handler e), s1))
      else Inr (NRF_ERROR_NOT_FOUND, None, s))"

text \<open>
  The main loop: \<open>handler n\<close> is the event handler with number \<open>n\<close>, called with the offset and the size of
  its data; it may put new events, so it transforms the state. The loop runs until the queue is empty,
  which a handler that always puts an event prevents; \<open>fuel\<close> bounds the turns.
\<close>

fun app_sched_execute :: "nat \<Rightarrow> (nat \<Rightarrow> nat \<Rightarrow> u16 \<Rightarrow> 'w app_sched \<Rightarrow> fault + 'w app_sched) \<Rightarrow>
    'w app_sched \<Rightarrow> fault + 'w app_sched" where
  "app_sched_execute 0 handler s = Inl Diverges"
| "app_sched_execute (Suc fuel) handler s =
     c_bind (app_sched_event_get s) (\<lambda>(err_code, ev, s1).
     if err_code = NRF_SUCCESS then
       (case ev of
          None \<Rightarrow> Inl NullDereference
        | Some (p_event_data, sz, h) \<Rightarrow>
          (case h of
             None \<Rightarrow> Inl NullDereference
           | Some n \<Rightarrow> c_bind (handler n p_event_data sz s1) (\<lambda>s2. app_sched_execute fuel handler s2)))
     else Inr s1)"

section \<open>The queue of events\<close>

text \<open>
  The number of slots: one more than the queue holds, and at most 256, where the 8-bit index wraps
  around by itself.
\<close>

definition sched_slots :: "'w app_sched \<Rightarrow> nat" where
  "sched_slots s = min (unat (m_queue_size s) + 1) 256"

definition sched_room :: "'w app_sched \<Rightarrow> nat" where
  "sched_room s = sched_slots s - 1"

definition sched_waiting :: "'w app_sched \<Rightarrow> nat" where
  "sched_waiting s = (unat (m_queue_end_index s) + sched_slots s - unat (m_queue_start_index s)) mod sched_slots s"

definition sched_ixs :: "'w app_sched \<Rightarrow> nat list" where
  "sched_ixs s = ring_ixs (sched_slots s) (unat (m_queue_start_index s)) (sched_waiting s)"

definition sched_slot :: "'w app_sched \<Rightarrow> nat \<Rightarrow> nat option \<times> u8 list" where
  "sched_slot s k =
     (ev_handler (m_queue_event_headers s ! k),
      take (unat (event_data_size (m_queue_event_headers s ! k)))
        (drop (k * unat (m_queue_event_size s)) (m_queue_event_data s)))"

definition sched_events :: "'w app_sched \<Rightarrow> (nat option \<times> u8 list) list" where
  "sched_events s = map (sched_slot s) (sched_ixs s)"

definition sched_inv :: "'w app_sched \<Rightarrow> bool" where
  "sched_inv s \<longleftrightarrow> unat (m_queue_start_index s) < sched_slots s \<and> unat (m_queue_end_index s) < sched_slots s \<and>
     sched_slots s \<le> length (m_queue_event_headers s) \<and>
     sched_slots s * unat (m_queue_event_size s) \<le> length (m_queue_event_data s) \<and>
     (\<forall>k \<in> set (sched_ixs s). event_data_size (m_queue_event_headers s ! k) \<le> m_queue_event_size s)"

text \<open>An event the queue takes: its data fit into a slot.\<close>

definition sched_fits :: "'w app_sched \<Rightarrow> nat option \<times> u8 list \<Rightarrow> bool" where
  "sched_fits s ev \<longleftrightarrow> length (snd ev) \<le> unat (m_queue_event_size s)"

lemma next_index_unat:
  assumes "unat i < sched_slots s"
  shows "unat (next_index s i) = Suc (unat i) mod sched_slots s"
proof (cases "unat i < unat (m_queue_size s)")
  case True
  show ?thesis
  proof (cases "unat i = 255")
    case True
    then have "i + 1 = 0" by (simp add: word_unat_eq_iff unat_word_ariths)
    then show ?thesis using True \<open>unat i < unat (m_queue_size s)\<close> by (simp add: next_index_def sched_slots_def)
  next
    case False
    then have "unat i < 255" using unat_u8_less [of i] by simp
    then have "unat (i + 1) = Suc (unat i)" using unat_add_u8 [of i 1] by simp
    then show ?thesis using True \<open>unat i < 255\<close> by (simp add: next_index_def sched_slots_def)
  qed
next
  case False
  then have "Suc (unat i) = sched_slots s" using assms by (simp add: sched_slots_def)
  then show ?thesis using False by (simp add: next_index_def)
qed

lemma sched_end_index:
  assumes "sched_inv s"
  shows "(unat (m_queue_start_index s) + sched_waiting s) mod sched_slots s = unat (m_queue_end_index s)"
  using assms by (simp add: sched_inv_def sched_waiting_def mod_add_right_eq)

lemma sched_waiting_less: "sched_inv s \<Longrightarrow> sched_waiting s < sched_slots s"
  by (auto simp: sched_inv_def sched_waiting_def)

lemma sched_empty_iff:
  assumes "sched_inv s"
  shows "app_sched_queue_empty s \<longleftrightarrow> sched_waiting s = 0"
proof -
  let ?a = "unat (m_queue_start_index s)" and ?b = "unat (m_queue_end_index s)" and ?N = "sched_slots s"
  have "?a < ?N" "?b < ?N" using assms by (simp_all add: sched_inv_def)
  then have "(?b + ?N - ?a) mod ?N = 0 \<longleftrightarrow> ?b = ?a"
    using sched_end_index [OF assms] by (auto simp: sched_waiting_def)
  then show ?thesis by (simp add: app_sched_queue_empty_def sched_waiting_def word_unat_eq_iff)
qed

lemma sched_full_iff:
  assumes "sched_inv s"
  shows "app_sched_queue_full s \<longleftrightarrow> sched_waiting s = sched_room s"
proof -
  let ?a = "unat (m_queue_start_index s)" and ?b = "unat (m_queue_end_index s)" and ?N = "sched_slots s"
  have ab: "?a < ?N" "?b < ?N" using assms by (simp_all add: sched_inv_def)
  have e: "(?a + sched_waiting s) mod ?N = ?b" by (rule sched_end_index [OF assms])
  have "Suc ?b mod ?N = (?a + Suc (sched_waiting s)) mod ?N" using e by (metis add_Suc_right mod_Suc_eq)
  moreover have "(?a + Suc (sched_waiting s)) mod ?N = ?a \<longleftrightarrow> Suc (sched_waiting s) = ?N"
  proof
    assume h: "(?a + Suc (sched_waiting s)) mod ?N = ?a"
    show "Suc (sched_waiting s) = ?N"
    proof (rule ccontr)
      assume "Suc (sched_waiting s) \<noteq> ?N"
      then have lt: "Suc (sched_waiting s) < ?N" using sched_waiting_less [OF assms] by simp
      have "(?a + Suc (sched_waiting s)) mod ?N \<notin> set (ring_ixs ?N ?a (Suc (sched_waiting s)))"
        by (rule ring_ixs_next_free [OF lt])
      then show False using h ab by (simp add: ring_ixs_Cons)
    qed
  qed (use ab in simp)
  ultimately show ?thesis
    using next_index_unat [OF ab(2)] sched_waiting_less [OF assms]
    by (auto simp: app_sched_queue_full_def word_unat_eq_iff sched_room_def)
qed

lemma ring_distance:
  assumes "a < (N :: nat)" "b < N" "w < N" "(a + w) mod N = b"
  shows "(b + N - a) mod N = w"
proof (cases "a + w < N")
  case True
  then show ?thesis using assms by auto
next
  case False
  moreover have "a + w - N < N" using assms by simp
  ultimately have "b = a + w - N" using assms(4) by (simp add: le_mod_geq)
  then show ?thesis using False assms by simp
qed

section \<open>Putting and getting events\<close>

lemma memory_slice_other:
  assumes "arr_write data (i * z) bytes = Inr data'" "length bytes \<le> z" "n \<le> z" "k \<noteq> (i :: nat)"
  shows "take n (drop (k * z) data') = take n (drop (k * z) data)"
proof (rule nth_equalityI)
  have l: "length data' = length data" using assms(1) by (rule arr_write_Inr_length)
  then show "length (take n (drop (k * z) data')) = length (take n (drop (k * z) data))" by simp
  fix j assume "j < length (take n (drop (k * z) data'))"
  then have j: "j < n" "k * z + j < length data" using l by auto
  have out: "k * z + j < i * z \<or> i * z + length bytes \<le> k * z + j"
  proof (cases "k < i")
    case True
    then have "Suc k * z \<le> i * z" by (intro mult_le_mono1) simp
    then show ?thesis using j(1) assms(3) by simp
  next
    case False
    then have "Suc i * z \<le> k * z" using assms(4) by (intro mult_le_mono1) simp
    then show ?thesis using assms(2) by simp
  qed
  have "data' ! (k * z + j) = data ! (k * z + j)"
    using assms(1) out j(2) by (auto simp: arr_write_def nth_append split: if_splits)
  then show "take n (drop (k * z) data') ! j = take n (drop (k * z) data) ! j" using j l by simp
qed

lemma memory_slice_same:
  "arr_write data i bytes = Inr data' \<Longrightarrow> take (length bytes) (drop i data') = bytes"
  by (auto simp: arr_write_def split: if_splits)

text \<open>What a put that finds a free slot does: the slot at the end index gets the event, all others stay.\<close>

lemma sched_put_effect:
  assumes "sched_inv s" "\<not> app_sched_queue_full s" "length bytes \<le> unat (m_queue_event_size s)"
  shows "\<exists>s'. app_sched_event_put s (Some bytes) (of_nat (length bytes)) h = Inr (NRF_SUCCESS, s') \<and>
    sched_slot s' (unat (m_queue_end_index s)) = (h, bytes) \<and>
    event_data_size (m_queue_event_headers s' ! unat (m_queue_end_index s)) \<le> m_queue_event_size s \<and>
    (\<forall>k. k \<noteq> unat (m_queue_end_index s) \<longrightarrow> m_queue_event_headers s' ! k = m_queue_event_headers s ! k \<and>
       (event_data_size (m_queue_event_headers s ! k) \<le> m_queue_event_size s \<longrightarrow> sched_slot s' k = sched_slot s k)) \<and>
    m_queue_end_index s' = next_index s (m_queue_end_index s) \<and> m_queue_start_index s' = m_queue_start_index s \<and>
    m_queue_event_size s' = m_queue_event_size s \<and> m_queue_size s' = m_queue_size s \<and>
    length (m_queue_event_headers s') = length (m_queue_event_headers s) \<and>
    length (m_queue_event_data s') = length (m_queue_event_data s)"
proof -
  define i where "i = unat (m_queue_end_index s)"
  define z where "z = unat (m_queue_event_size s)"
  define hs where "hs = m_queue_event_headers s"
  have i: "i < length hs" using assms(1) by (simp add: sched_inv_def i_def hs_def)
  have zl: "z < 65536" unfolding z_def by (rule unat_u16_less)
  then have sz: "unat (of_nat (length bytes) :: u16) = length bytes"
    using assms(3) by (intro unat_of_nat_u16) (simp add: z_def)
  have le: "(of_nat (length bytes) :: u16) \<le> m_queue_event_size s"
    using assms(3) by (simp add: word_le_nat_alt sz)
  have "Suc i * z \<le> sched_slots s * z" using assms(1) by (intro mult_le_mono1) (simp add: sched_inv_def i_def Suc_le_eq)
  then have room: "i * z + length bytes \<le> length (m_queue_event_data s)"
    using assms(1,3) by (simp add: sched_inv_def z_def)
  obtain data' where data': "arr_write (m_queue_event_data s) (i * z) bytes = Inr data'"
    using arr_write_eq [OF room] by blast
  have pos: "(of_nat (length bytes) :: u16) > 0 \<longleftrightarrow> bytes \<noteq> []"
    using sz by (auto simp: word_less_nat_alt)
  have d0: "data' = m_queue_event_data s" if "bytes = []" using data' that by (simp add: arr_write_def)
  have z0: "(of_nat (length bytes) :: u16) = 0" if "bytes = []" using that by simp
  let ?e = "\<lparr>ev_handler = h, event_data_size = of_nat (length bytes)\<rparr>"
  let ?s' = "s\<lparr>m_queue_end_index := next_index s (m_queue_end_index s), m_queue_event_headers := hs[i := ?e],
      m_queue_event_data := data'\<rparr>"
  have e: "x\<lparr>ev_handler := h, event_data_size := y\<rparr> = \<lparr>ev_handler = h, event_data_size = y\<rparr>" for x :: event_header_t and y
    by simp
  have put: "app_sched_event_put s (Some bytes) (of_nat (length bytes)) h = Inr (NRF_SUCCESS, ?s')"
  proof (cases "bytes = []")
    case True
    then show ?thesis
      using le i assms(2) d0
      by (simp add: e app_sched_event_put_def Let_def i_def [symmetric] hs_def [symmetric])
  next
    case False
    then show ?thesis
      using le i assms(2) data' pos sz
      by (simp add: e app_sched_event_put_def Let_def i_def [symmetric] hs_def [symmetric] z_def [symmetric] arr_read_eq)
  qed
  have slot: "sched_slot ?s' i = (h, bytes)"
    using i sz memory_slice_same [OF data'] by (simp add: sched_slot_def z_def [symmetric])
  have other: "(hs[i := ?e]) ! k = hs ! k \<and>
      (event_data_size (hs ! k) \<le> m_queue_event_size s \<longrightarrow> sched_slot ?s' k = sched_slot s k)" if "k \<noteq> i" for k
    using that memory_slice_other [OF data' _ _ that] assms(3)
    by (simp add: sched_slot_def hs_def [symmetric] z_def [symmetric] word_le_nat_alt)
  show ?thesis
    using put slot other i le arr_write_Inr_length [OF data']
    by (intro exI [of _ ?s']) (simp add: i_def [symmetric] hs_def [symmetric])
qed

lemma sched_put_ok:
  assumes "sched_inv s" "sched_waiting s < sched_room s" "length bytes \<le> unat (m_queue_event_size s)"
  shows "\<exists>s'. app_sched_event_put s (Some bytes) (of_nat (length bytes)) h = Inr (NRF_SUCCESS, s') \<and>
    sched_inv s' \<and> sched_events s' = sched_events s @ [(h, bytes)] \<and> sched_slots s' = sched_slots s \<and>
    m_queue_event_size s' = m_queue_event_size s"
proof -
  let ?N = "sched_slots s" and ?a = "unat (m_queue_start_index s)" and ?w = "sched_waiting s"
  define i where "i = unat (m_queue_end_index s)"
  have inv: "?a < ?N" "i < ?N" "\<forall>k \<in> set (ring_ixs ?N ?a ?w). event_data_size (m_queue_event_headers s ! k) \<le> m_queue_event_size s"
    using assms(1) by (simp_all add: sched_inv_def i_def sched_ixs_def)
  have nf: "\<not> app_sched_queue_full s" using assms(2) sched_full_iff [OF assms(1)] by simp
  have w: "Suc ?w < ?N" using assms(2) by (simp add: sched_room_def)
  obtain s' where s': "app_sched_event_put s (Some bytes) (of_nat (length bytes)) h = Inr (NRF_SUCCESS, s')"
      "sched_slot s' i = (h, bytes)" "event_data_size (m_queue_event_headers s' ! i) \<le> m_queue_event_size s"
      "\<And>k. k \<noteq> i \<Longrightarrow> m_queue_event_headers s' ! k = m_queue_event_headers s ! k"
      "\<And>k. k \<noteq> i \<Longrightarrow> event_data_size (m_queue_event_headers s ! k) \<le> m_queue_event_size s \<Longrightarrow> sched_slot s' k = sched_slot s k"
      "m_queue_end_index s' = next_index s (m_queue_end_index s)" "m_queue_start_index s' = m_queue_start_index s"
      "m_queue_event_size s' = m_queue_event_size s" "m_queue_size s' = m_queue_size s"
      "length (m_queue_event_headers s') = length (m_queue_event_headers s)"
      "length (m_queue_event_data s') = length (m_queue_event_data s)"
    using sched_put_effect [OF assms(1) nf assms(3), of h] by (auto simp: i_def)
  have N': "sched_slots s' = ?N" using s'(9) by (simp add: sched_slots_def)
  have e: "(?a + ?w) mod ?N = i" using sched_end_index [OF assms(1)] by (simp add: i_def)
  have b': "unat (m_queue_end_index s') = Suc i mod ?N"
    using next_index_unat [of "m_queue_end_index s" s] inv(2) s'(6) by (simp add: i_def)
  have "(?a + Suc ?w) mod ?N = Suc i mod ?N" using e by (metis add_Suc_right mod_Suc_eq)
  then have w': "sched_waiting s' = Suc ?w"
    using ring_distance [OF inv(1) _ w, of "Suc i mod ?N"] inv(1) unfolding sched_waiting_def [of s'] N' s'(7) b'
    by simp
  have ixs: "sched_ixs s' = sched_ixs s @ [i]"
    unfolding sched_ixs_def N' s'(7) w' by (simp add: ring_ixs_snoc e)
  have fresh: "i \<notin> set (sched_ixs s)"
    using ring_ixs_next_free [of ?w ?N ?a] w by (simp add: sched_ixs_def e)
  have sl: "sched_slot s' k = sched_slot s k" "m_queue_event_headers s' ! k = m_queue_event_headers s ! k"
    if "k \<in> set (sched_ixs s)" for k
    using s'(4,5) [of k] that fresh inv(3) by (auto simp: sched_ixs_def)
  have "sched_events s' = sched_events s @ [(h, bytes)]"
    by (simp add: sched_events_def ixs s'(2) sl(1))
  moreover have "sched_inv s'"
    using assms(1) inv(1) s'(3,7,8,10,11) N' b' ixs sl(2)
    by (auto simp: sched_inv_def sched_ixs_def)
  ultimately show ?thesis using s'(1,8) N' by blast
qed

lemma sched_get_ok:
  assumes "sched_inv s" "sched_events s = ev # evs"
  shows "\<exists>s'. app_sched_event_get s = Inr (NRF_SUCCESS,
      Some (unat (m_queue_start_index s) * unat (m_queue_event_size s), of_nat (length (snd ev)), fst ev), s') \<and>
    s' = s\<lparr>m_queue_start_index := next_index s (m_queue_start_index s)\<rparr> \<and>
    ev = sched_slot s (unat (m_queue_start_index s)) \<and>
    event_data_size (m_queue_event_headers s ! unat (m_queue_start_index s)) \<le> m_queue_event_size s \<and>
    sched_inv s' \<and> sched_events s' = evs"
proof -
  let ?N = "sched_slots s" and ?w = "sched_waiting s"
  define a where "a = unat (m_queue_start_index s)"
  let ?s' = "s\<lparr>m_queue_start_index := next_index s (m_queue_start_index s)\<rparr>"
  have inv: "a < ?N" "unat (m_queue_end_index s) < ?N" "?N \<le> length (m_queue_event_headers s)"
    "?N * unat (m_queue_event_size s) \<le> length (m_queue_event_data s)"
    using assms(1) by (simp_all add: sched_inv_def a_def)
  obtain v where v: "?w = Suc v"
    using assms(2) by (cases ?w) (simp_all add: sched_events_def sched_ixs_def)
  have ne: "\<not> app_sched_queue_empty s" using v sched_empty_iff [OF assms(1)] by simp
  have N': "sched_slots ?s' = ?N" by (simp add: sched_slots_def)
  have a': "unat (m_queue_start_index ?s') = Suc a mod ?N"
    using next_index_unat [of "m_queue_start_index s" s] inv(1) by (simp add: a_def)
  have lt: "Suc a mod ?N < ?N" using inv(1) by simp
  have "(Suc a mod ?N + v) mod ?N = (a + ?w) mod ?N" by (simp add: v mod_add_left_eq)
  then have e: "(Suc a mod ?N + v) mod ?N = unat (m_queue_end_index s)"
    using sched_end_index [OF assms(1)] by (simp add: a_def)
  have vl: "v < ?N" using v sched_waiting_less [OF assms(1)] by simp
  have w': "sched_waiting ?s' = v"
    unfolding sched_waiting_def N' a' using ring_distance [OF lt inv(2) vl e] by simp
  have ixs: "sched_ixs s = a # sched_ixs ?s'"
    unfolding sched_ixs_def N' a' w' using inv(1) by (simp add: v a_def [symmetric] ring_ixs_Cons)
  have slot: "sched_slot ?s' = sched_slot s" by (rule ext) (simp add: sched_slot_def)
  have ev: "ev = sched_slot s a" "evs = sched_events ?s'"
    using assms(2) by (simp_all add: sched_events_def ixs slot)
  have sz: "event_data_size (m_queue_event_headers s ! a) \<le> m_queue_event_size s"
    using assms(1) by (simp add: sched_inv_def ixs)
  have "Suc a * unat (m_queue_event_size s) \<le> ?N * unat (m_queue_event_size s)"
    using inv(1) by (intro mult_le_mono1) simp
  then have "a * unat (m_queue_event_size s) + unat (event_data_size (m_queue_event_headers s ! a)) \<le> length (m_queue_event_data s)"
    using inv(4) sz by (simp add: word_le_nat_alt)
  then have len: "length (snd ev) = unat (event_data_size (m_queue_event_headers s ! a))"
    by (simp add: ev(1) sched_slot_def)
  have "app_sched_event_get s = Inr (NRF_SUCCESS, Some (a * unat (m_queue_event_size s), of_nat (length (snd ev)), fst ev), ?s')"
    using ne inv(1,3) len by (simp add: app_sched_event_get_def Let_def a_def [symmetric] ev(1) sched_slot_def)
  moreover have "sched_inv ?s'"
    using assms(1) lt N' a' ixs by (simp add: sched_inv_def)
  ultimately show ?thesis using ev sz by (auto simp: a_def)
qed

section \<open>The contract\<close>

text \<open>
  The operations as the contract sees them. An access out of bounds would be a success without an
  effect, which the contract excludes. An event is read when it is fetched, from the slot the code
  hands to the handler.
\<close>

definition sched_put :: "'w app_sched \<Rightarrow> nat option \<times> u8 list \<Rightarrow> 'w app_sched option" where
  "sched_put s ev =
     (case app_sched_event_put s (Some (snd ev)) (of_nat (length (snd ev))) (fst ev) of
        Inl _ \<Rightarrow> Some s
      | Inr (e, s') \<Rightarrow> if e = NRF_SUCCESS then Some s' else None)"

definition sched_get :: "'w app_sched \<Rightarrow> ((nat option \<times> u8 list) \<times> 'w app_sched) option" where
  "sched_get s =
     (case app_sched_event_get s of
        Inl _ \<Rightarrow> Some ((None, []), s)
      | Inr (e, ev, s') \<Rightarrow>
        (case ev of
           Some (p_event_data, sz, h) \<Rightarrow>
             if e = NRF_SUCCESS
             then Some ((h, take (unat sz) (drop p_event_data (m_queue_event_data s'))), s') else None
         | None \<Rightarrow> None))"

lemma sched_events_length: "length (sched_events s) = sched_waiting s"
  by (simp add: sched_events_def sched_ixs_def)

lemma sched_slot_size_u16:
  "unat (of_nat (length (snd (sched_slot s k))) :: u16) = length (snd (sched_slot s k))"
proof -
  have "length (snd (sched_slot s k)) \<le> unat (event_data_size (m_queue_event_headers s ! k))"
    by (simp add: sched_slot_def)
  then show ?thesis
    using unat_u16_less [of "event_data_size (m_queue_event_headers s ! k)"] by (intro unat_of_nat_u16) linarith
qed

lemma sched_slot_read:
  "take (length (snd (sched_slot s k))) (drop (k * unat (m_queue_event_size s)) (m_queue_event_data s))
   = snd (sched_slot s k)"
  by (simp add: sched_slot_def min_def)

lemma sched_get_some:
  assumes "sched_inv s" "sched_events s = ev # evs"
  shows "\<exists>s'. sched_get s = Some (ev, s') \<and> sched_inv s' \<and> sched_events s' = evs \<and>
    sched_slots s' = sched_slots s \<and> m_queue_event_size s' = m_queue_event_size s"
proof -
  let ?s' = "s\<lparr>m_queue_start_index := next_index s (m_queue_start_index s)\<rparr>"
  let ?a = "unat (m_queue_start_index s)"
  have g: "app_sched_event_get s = Inr (NRF_SUCCESS,
      Some (?a * unat (m_queue_event_size s), of_nat (length (snd ev)), fst ev), ?s')"
    "ev = sched_slot s ?a" "sched_inv ?s'" "sched_events ?s' = evs"
    using sched_get_ok [OF assms] by blast+
  have "sched_get s = Some (ev, ?s')"
    using g(2) sched_slot_size_u16 [of s ?a] sched_slot_read [of s ?a] by (simp add: sched_get_def g(1))
  then show ?thesis using g by (simp add: sched_slots_def)
qed

interpretation sched: bounded_queue sched_inv sched_events sched_room sched_fits sched_put sched_get
proof unfold_locales
  fix s :: "'a app_sched" and x
  assume a: "sched_inv s" "sched_fits s x" "length (sched_events s) < sched_room s"
  then obtain s' where s': "app_sched_event_put s (Some (snd x)) (of_nat (length (snd x))) (fst x) = Inr (NRF_SUCCESS, s')"
      "sched_inv s'" "sched_events s' = sched_events s @ [x]" "sched_slots s' = sched_slots s"
      "m_queue_event_size s' = m_queue_event_size s"
    using sched_put_ok [of s "snd x" "fst x"] by (auto simp: sched_fits_def sched_events_length)
  then have "sched_put s x = Some s'" "sched_room s' = sched_room s" "sched_fits s' = sched_fits s"
    by (auto simp: sched_put_def sched_room_def sched_fits_def fun_eq_iff)
  then show "\<exists>s'. sched_put s x = Some s' \<and> sched_inv s' \<and> sched_events s' = sched_events s @ [x] \<and>
      sched_room s' = sched_room s \<and> sched_fits s' = sched_fits s"
    using s' by blast
next
  fix s :: "'a app_sched" and x
  assume "sched_inv s" "sched_room s \<le> length (sched_events s)"
  then have "app_sched_queue_full s"
    using sched_full_iff [of s] sched_waiting_less [of s] by (simp add: sched_events_length sched_room_def)
  then show "sched_put s x = None"
    by (auto simp: sched_put_def app_sched_event_put_def c_consts)
next
  fix s :: "'a app_sched" and x xs
  assume "sched_inv s" "sched_events s = x # xs"
  from sched_get_some [OF this]
  obtain s' where "sched_get s = Some (x, s')" "sched_inv s'" "sched_events s' = xs"
      "sched_slots s' = sched_slots s" "m_queue_event_size s' = m_queue_event_size s" by blast
  then show "\<exists>s'. sched_get s = Some (x, s') \<and> sched_inv s' \<and> sched_events s' = xs \<and>
      sched_room s' = sched_room s \<and> sched_fits s' = sched_fits s"
    by (auto simp: sched_room_def sched_fits_def fun_eq_iff)
next
  fix s :: "'a app_sched"
  assume "sched_inv s" "sched_events s = []"
  then have "app_sched_queue_empty s"
    using sched_empty_iff [of s] sched_events_length [of s] by simp
  then show "sched_get s = None" by (simp add: sched_get_def app_sched_event_get_def)
qed

lemma sched_init_inv:
  assumes "app_sched_init s0 event_size queue_size True headers data = (NRF_SUCCESS, s)"
    and "unat queue_size < length headers" "Suc (unat queue_size) * unat event_size \<le> length data"
  shows "sched_inv s \<and> sched_events s = [] \<and> sched_room s = min (unat queue_size) 255 \<and>
    m_queue_event_size s = event_size"
proof -
  have "min (Suc (unat queue_size)) 256 * unat event_size \<le> Suc (unat queue_size) * unat event_size"
    by (intro mult_le_mono1) simp
  then have "min (Suc (unat queue_size)) 256 * unat event_size \<le> length data"
    using assms(3) by (rule le_trans)
  then show ?thesis
    using assms(1,2)
    by (auto simp: app_sched_init_def sched_inv_def sched_slots_def sched_room_def sched_events_def
        sched_ixs_def sched_waiting_def)
qed


definition blank_sched :: "unit app_sched" where
  "blank_sched = \<lparr>m_queue_event_headers = [], m_queue_event_data = [], m_queue_start_index = 0, m_queue_end_index = 0,
     m_queue_event_size = 0, m_queue_size = 0, sc_world = ()\<rparr>"

definition sample_sched :: "unit app_sched" where
  "sample_sched = snd (app_sched_init blank_sched 2 2 True
     (replicate 3 \<lparr>ev_handler = None, event_data_size = 0\<rparr>) (replicate 6 0))"

lemma sample_sched_init:
  "app_sched_init blank_sched 2 2 True (replicate 3 \<lparr>ev_handler = None, event_data_size = 0\<rparr>) (replicate 6 0)
   = (NRF_SUCCESS, sample_sched)"
  by (simp add: app_sched_init_def sample_sched_def)


section \<open>The main loop\<close>

text \<open>
  Handlers that read their data and change the program, but put no events: \<open>act n d\<close> is what the
  handler with number \<open>n\<close> does with the data \<open>d\<close>.
\<close>

definition plain_handler ::
  "(nat \<Rightarrow> u8 list \<Rightarrow> 'w \<Rightarrow> 'w) \<Rightarrow> nat \<Rightarrow> nat \<Rightarrow> u16 \<Rightarrow> 'w app_sched \<Rightarrow> fault + 'w app_sched" where
  "plain_handler act n p_event_data sz s =
     Inr (s\<lparr>sc_world := act n (take (unat sz) (drop p_event_data (m_queue_event_data s))) (sc_world s)\<rparr>)"

lemma sched_world_frame:
  "sched_inv (s\<lparr>sc_world := w\<rparr>) = sched_inv s" "sched_events (s\<lparr>sc_world := w\<rparr>) = sched_events s"
proof -
  have slots: "sched_slots (s\<lparr>sc_world := w\<rparr>) = sched_slots s" by (simp add: sched_slots_def)
  have ixs: "sched_ixs (s\<lparr>sc_world := w\<rparr>) = sched_ixs s"
    by (simp add: sched_ixs_def sched_waiting_def slots)
  have slot: "sched_slot (s\<lparr>sc_world := w\<rparr>) = sched_slot s" by (rule ext) (simp add: sched_slot_def)
  show "sched_events (s\<lparr>sc_world := w\<rparr>) = sched_events s" by (simp add: sched_events_def ixs slot)
  show "sched_inv (s\<lparr>sc_world := w\<rparr>) = sched_inv s" by (simp add: sched_inv_def slots ixs)
qed

text \<open>C32: The main loop runs the handlers of all waiting events in the order the events were put, each once and
  on its own data, and then ends with an empty queue, provided no handler puts new events; one turn
  more than there are events is enough.\<close>

theorem app_sched_execute_runs_all:
  assumes "sched_inv s" "length (sched_events s) < fuel" "\<forall>ev \<in> set (sched_events s). fst ev \<noteq> None"
  shows "\<exists>s'. app_sched_execute fuel (plain_handler act) s = Inr s' \<and> sched_inv s' \<and> sched_events s' = [] \<and>
    sc_world s' = fold (\<lambda>ev. act (the (fst ev)) (snd ev)) (sched_events s) (sc_world s)"
  using assms
proof (induction fuel arbitrary: s)
  case (Suc fuel)
  show ?case
  proof (cases "sched_events s")
    case Nil
    then have "app_sched_queue_empty s"
      using sched_empty_iff [OF Suc.prems(1)] sched_events_length [of s] by simp
    then show ?thesis using Nil Suc.prems(1) by (simp add: app_sched_event_get_def)
  next
    case (Cons ev evs)
    let ?a = "unat (m_queue_start_index s)"
    let ?s1 = "s\<lparr>m_queue_start_index := next_index s (m_queue_start_index s)\<rparr>"
    have g: "app_sched_event_get s = Inr (NRF_SUCCESS,
        Some (?a * unat (m_queue_event_size s), of_nat (length (snd ev)), fst ev), ?s1)"
      "ev = sched_slot s ?a" "sched_inv ?s1" "sched_events ?s1 = evs"
      using sched_get_ok [OF Suc.prems(1) Cons] by blast+
    obtain n where n: "fst ev = Some n" using Suc.prems(3) Cons by auto
    let ?s2 = "?s1\<lparr>sc_world := act n (snd ev) (sc_world s)\<rparr>"
    have h: "plain_handler act n (?a * unat (m_queue_event_size s)) (of_nat (length (snd ev))) ?s1 = Inr ?s2"
      using g(2) sched_slot_size_u16 [of s ?a] sched_slot_read [of s ?a] by (simp add: plain_handler_def)
    have "sched_inv ?s2" "sched_events ?s2 = evs" "sc_world ?s2 = act n (snd ev) (sc_world s)"
      using g(3,4) by (simp_all add: sched_world_frame)
    then obtain s' where "app_sched_execute fuel (plain_handler act) ?s2 = Inr s'" "sched_inv s'" "sched_events s' = []"
        "sc_world s' = fold (\<lambda>ev. act (the (fst ev)) (snd ev)) evs (act n (snd ev) (sc_world s))"
      using Suc.IH [of ?s2] Suc.prems(2,3) Cons by auto
    then show ?thesis using g(1) n h Cons by simp
  qed
qed simp

text \<open>A handler that logs its number and data, on a queue with two events.\<close>

definition log_sched :: "(nat \<times> u8 list) list app_sched" where
  "log_sched = \<lparr>m_queue_event_headers = [\<lparr>ev_handler = Some 10, event_data_size = 1\<rparr>,
       \<lparr>ev_handler = Some 11, event_data_size = 2\<rparr>, \<lparr>ev_handler = None, event_data_size = 0\<rparr>],
     m_queue_event_data = [7, 0, 8, 9, 0, 0], m_queue_start_index = 0, m_queue_end_index = 2,
     m_queue_event_size = 2, m_queue_size = 2, sc_world = []\<rparr>"

lemma log_sched_events: "sched_events log_sched = [(Some 10, [7]), (Some 11, [8, 9])]"
  by (simp add: sched_events_def sched_ixs_def sched_waiting_def sched_slots_def log_sched_def
      ring_ixs_def sched_slot_def upt_rec)

lemma log_sched_inv: "sched_inv log_sched"
  by (simp add: sched_inv_def sched_ixs_def sched_waiting_def sched_slots_def log_sched_def ring_ixs_def upt_rec)

theorem app_sched_execute_runs_all_witness:
  "\<exists>s'. app_sched_execute 3 (plain_handler (\<lambda>n d w. w @ [(n, d)])) log_sched = Inr s' \<and>
     sc_world s' = [(10, [7]), (11, [8, 9])]"
  using app_sched_execute_runs_all [OF log_sched_inv, of 3 "\<lambda>n d w. w @ [(n, d)]"] log_sched_events
  by (auto simp: log_sched_def)

text \<open>The data a handler is called with stay intact while it runs, even if it puts events until the queue
  is full: the slot it reads is the one the ring keeps free.\<close>

theorem app_sched_handler_data_stable:
  assumes "sched_inv s" "sched_events s = (h, d) # evs"
    and "app_sched_event_get s = Inr (NRF_SUCCESS, Some (p, sz, h), s1)"
    and "\<forall>ev \<in> set puts. sched_fits s ev"
  shows "take (unat sz) (drop p (m_queue_event_data (fold (\<lambda>ev t. case sched_put t ev of Some t' \<Rightarrow> t' | None \<Rightarrow> t) puts s1))) = d"
proof -
  define k where "k = unat (m_queue_start_index s)"
  define z where "z = m_queue_event_size s"
  let ?put = "\<lambda>ev t. case sched_put t ev of Some t' \<Rightarrow> t' | None \<Rightarrow> t"
  let ?good = "\<lambda>t. sched_inv t \<and> unat (m_queue_start_index t) = Suc k mod sched_slots t \<and> k < sched_slots t \<and>
      m_queue_event_size t = z \<and> sched_slot t k = (h, d) \<and> event_data_size (m_queue_event_headers t ! k) \<le> z"
  have g: "s1 = s\<lparr>m_queue_start_index := next_index s (m_queue_start_index s)\<rparr>"
    "(h, d) = sched_slot s k" "event_data_size (m_queue_event_headers s ! k) \<le> z" "sched_inv s1"
    "p = k * unat z" "sz = of_nat (length d)"
    using sched_get_ok [OF assms(1,2)] assms(3) by (auto simp: k_def z_def)
  have szl: "unat sz = length d" using sched_slot_size_u16 [of s k] g(2,6) by (metis snd_conv)
  have kl: "k < sched_slots s" using assms(1) by (simp add: sched_inv_def k_def)
  have slots1: "sched_slots (s\<lparr>m_queue_start_index := x\<rparr>) = sched_slots s" for x by (simp add: sched_slots_def)
  have start: "?good s1"
    using g kl next_index_unat [of "m_queue_start_index s" s]
    by (simp add: g(1) slots1 k_def z_def sched_slot_def)
  have step: "?good (?put ev t)" if t: "?good t" and f: "sched_fits s ev" for t ev
  proof (cases "app_sched_queue_full t")
    case True
    then have "sched_put t ev = None" by (auto simp: sched_put_def app_sched_event_put_def c_consts)
    then show ?thesis using t by simp
  next
    case False
    have e: "unat (m_queue_end_index t) \<noteq> k"
    proof
      assume ek: "unat (m_queue_end_index t) = k"
      then have "unat (next_index t (m_queue_end_index t)) = Suc k mod sched_slots t"
        using next_index_unat [of "m_queue_end_index t" t] t by (simp add: sched_inv_def)
      then show False using False t by (simp add: app_sched_queue_full_def word_unat_eq_iff)
    qed
    have fl: "length (snd ev) \<le> unat (m_queue_event_size t)" using f t by (simp add: sched_fits_def z_def)
    obtain t' where t': "app_sched_event_put t (Some (snd ev)) (of_nat (length (snd ev))) (fst ev) = Inr (NRF_SUCCESS, t')"
        "m_queue_event_headers t' ! k = m_queue_event_headers t ! k" "sched_slot t' k = sched_slot t k"
        "m_queue_start_index t' = m_queue_start_index t" "m_queue_event_size t' = m_queue_event_size t"
        "m_queue_size t' = m_queue_size t"
      using sched_put_effect [OF _ False fl, of "fst ev"] t e by auto
    have "sched_waiting t < sched_room t"
      using False t sched_full_iff [of t] sched_waiting_less [of t] by (simp add: sched_room_def)
    then have "sched_inv t'"
      using sched_put_ok [of t "snd ev" "fst ev"] t fl t'(1) by auto
    moreover have "sched_slots t' = sched_slots t" using t'(6) by (simp add: sched_slots_def)
    moreover have "?put ev t = t'" using t'(1) by (simp add: sched_put_def)
    ultimately show ?thesis using t t' by simp
  qed
  have "?good (fold ?put puts t)" if "?good t" "\<forall>ev \<in> set puts. sched_fits s ev" for t
    using that by (induction puts arbitrary: t) (simp_all add: step del: split_paired_All)
  then have "?good (fold ?put puts s1)" using start assms(4) by blast
  then show ?thesis using sched_slot_read [of "fold ?put puts s1" k] szl g(5) by simp
qed

theorem app_sched_handler_data_stable_witness:
  "take 1 (drop 0 (m_queue_event_data (fold (\<lambda>ev t. case sched_put t ev of Some t' \<Rightarrow> t' | None \<Rightarrow> t)
     [(Some 12, [1, 2]), (Some 13, [3, 4])] (log_sched\<lparr>m_queue_start_index := 1\<rparr>)))) = [7]"
proof -
  have g: "app_sched_event_get log_sched = Inr (NRF_SUCCESS, Some (0, 1, Some 10), log_sched\<lparr>m_queue_start_index := 1\<rparr>)"
    by (simp add: app_sched_event_get_def app_sched_queue_empty_def next_index_def log_sched_def)
  have f: "\<forall>ev \<in> set [(Some 12, [1, 2]), (Some 13, [3, 4])]. sched_fits log_sched ev"
    by (simp add: sched_fits_def log_sched_def)
  show ?thesis
    using app_sched_handler_data_stable [OF log_sched_inv log_sched_events g f] by simp
qed

end
