(* ===== verification/Allocator.thy ===== *)
theory Allocator
  imports C_Prelude
begin

text \<open>
  The contract between the memory manager and its clients (the packet buffers and the CoAP
  module): what a client may rely on when it allocates and frees blocks. The provider is
  \<open>Mem_Manager\<close>, which interprets the locale on the model of the code.
\<close>

locale allocator =
  fixes alloc :: "'s \<Rightarrow> nat \<Rightarrow> (ptr \<times> nat \<times> 's) option"
    and dealloc :: "'s \<Rightarrow> ptr \<Rightarrow> 's option"
    and live :: "'s \<Rightarrow> ptr set"
    and inv :: "'s \<Rightarrow> bool"
  assumes alloc_inv: "inv s \<Longrightarrow> alloc s n = Some (p, m, s') \<Longrightarrow> inv s'"
    and alloc_size: "inv s \<Longrightarrow> alloc s n = Some (p, m, s') \<Longrightarrow> n \<le> m"
    and alloc_fresh: "inv s \<Longrightarrow> alloc s n = Some (p, m, s') \<Longrightarrow> p \<notin> live s"
    and alloc_live: "inv s \<Longrightarrow> alloc s n = Some (p, m, s') \<Longrightarrow> live s' = insert p (live s)"
    and alloc_not_null: "inv s \<Longrightarrow> alloc s n = Some (p, m, s') \<Longrightarrow> p \<noteq> NULL"
    and dealloc_inv: "inv s \<Longrightarrow> dealloc s p = Some s' \<Longrightarrow> inv s'"
    and dealloc_succeeds: "inv s \<Longrightarrow> p \<in> live s \<Longrightarrow> dealloc s p \<noteq> None"
    and dealloc_live: "inv s \<Longrightarrow> dealloc s p = Some s' \<Longrightarrow> live s' = live s - {p}"
begin

lemma alloc_twice_distinct:
  assumes "inv s" "alloc s n = Some (p, k, s')" "alloc s' m = Some (q, l, s'')"
  shows "p \<noteq> q" and "live s'' = insert q (insert p (live s))"
proof -
  have inv': "inv s'" using alloc_inv [OF assms(1,2)] .
  show "p \<noteq> q"
    using alloc_fresh [OF inv' assms(3)] alloc_live [OF assms(1,2)] by auto
  show "live s'' = insert q (insert p (live s))"
    using alloc_live [OF inv' assms(3)] alloc_live [OF assms(1,2)] by simp
qed

text \<open>A client that frees what it allocated leaves the set of live blocks as it found it.\<close>

lemma alloc_dealloc_live:
  assumes "inv s" "alloc s n = Some (p, m, s')"
  shows "\<exists>s''. dealloc s' p = Some s'' \<and> inv s'' \<and> live s'' = live s"
proof -
  have inv': "inv s'" using alloc_inv [OF assms] .
  have "p \<in> live s'" using alloc_live [OF assms] by simp
  then obtain s'' where s'': "dealloc s' p = Some s''"
    using dealloc_succeeds [OF inv'] by blast
  show ?thesis
    using s'' dealloc_inv [OF inv' s''] dealloc_live [OF inv' s''] alloc_live [OF assms]
      alloc_fresh [OF assms] by auto
qed

text \<open>Freeing one of two blocks keeps the other one live.\<close>

lemma dealloc_keeps_other:
  "inv s \<Longrightarrow> dealloc s p = Some s' \<Longrightarrow> q \<in> live s \<Longrightarrow> q \<noteq> p \<Longrightarrow> q \<in> live s'"
  by (simp add: dealloc_live)

end

end
