(* ===== verification/Mem_Manager.thy ===== *)
theory Mem_Manager
  imports Sdk_Config Allocator
begin

text \<open>
  The memory manager, \<^verbatim>\<open>components/libraries/mem_manager/mem_manager.c\<close>: three pools of blocks of
  fixed sizes, cut out of one static array \<open>m_memory\<close>. A block is known by its offset in that array:
  \<open>Ptr a 0\<close> is the address of the block at offset \<open>a\<close>, and each block is a memory object of its own.
  The mutex macros of the module expand to nothing and are not modelled.
\<close>

section \<open>State\<close>

definition BLOCK_CAT_SMALL :: nat where [c_consts]: "BLOCK_CAT_SMALL = 0"
definition BLOCK_CAT_MEDIUM :: nat where [c_consts]: "BLOCK_CAT_MEDIUM = 1"
definition BLOCK_CAT_LARGE :: nat where [c_consts]: "BLOCK_CAT_LARGE = 2"

record mem_block_t =
  p_block :: ptr
  is_free :: bool
  block_cat :: nat

record mem_manager =
  m_mem_pool :: "mem_block_t list"
  m_module_initialized :: bool

definition MAX_MEM_SIZE :: nat where
  [c_consts]: "MAX_MEM_SIZE = MEMORY_MANAGER_LARGE_BLOCK_SIZE"

definition TOTAL_BLOCK_COUNT :: nat where
  [c_consts]: "TOTAL_BLOCK_COUNT = MEMORY_MANAGER_SMALL_BLOCK_COUNT + MEMORY_MANAGER_MEDIUM_BLOCK_COUNT
     + MEMORY_MANAGER_LARGE_BLOCK_COUNT"

definition TOTAL_MEMORY_SIZE :: nat where
  [c_consts]: "TOTAL_MEMORY_SIZE =
     MEMORY_MANAGER_SMALL_BLOCK_COUNT * MEMORY_MANAGER_SMALL_BLOCK_SIZE
     + MEMORY_MANAGER_MEDIUM_BLOCK_COUNT * MEMORY_MANAGER_MEDIUM_BLOCK_SIZE
     + MEMORY_MANAGER_LARGE_BLOCK_COUNT * MEMORY_MANAGER_LARGE_BLOCK_SIZE"

definition m_block_size :: "nat list" where
  "m_block_size = [MEMORY_MANAGER_SMALL_BLOCK_SIZE, MEMORY_MANAGER_MEDIUM_BLOCK_SIZE,
                   MEMORY_MANAGER_LARGE_BLOCK_SIZE]"

section \<open>Operations\<close>

definition block_init :: "mem_block_t \<Rightarrow> mem_block_t" where
  "block_init b = b\<lparr>is_free := True\<rparr>"

text \<open>
  One of the three loops of \<open>nrf51_sdk_mem_init\<close>: \<open>n\<close> blocks of \<open>sz\<close> bytes and category \<open>cat\<close> from
  \<open>p_memory\<close> on. Every field of every block is written, so the old content plays no role.
\<close>

fun mem_init_loop :: "nat \<Rightarrow> nat \<Rightarrow> nat \<Rightarrow> nat \<Rightarrow> mem_block_t list" where
  "mem_init_loop 0 sz cat p_memory = []"
| "mem_init_loop (Suc n) sz cat p_memory =
     block_init \<lparr>p_block = Ptr p_memory 0, is_free = False, block_cat = cat\<rparr>
     # mem_init_loop n sz cat (p_memory + sz)"

definition nrf51_sdk_mem_init :: "mem_manager \<Rightarrow> u32 \<times> mem_manager" where
  "nrf51_sdk_mem_init mm =
     (let p_medium = MEMORY_MANAGER_SMALL_BLOCK_COUNT * MEMORY_MANAGER_SMALL_BLOCK_SIZE;
          p_large = p_medium + MEMORY_MANAGER_MEDIUM_BLOCK_COUNT * MEMORY_MANAGER_MEDIUM_BLOCK_SIZE
      in (NRF_SUCCESS,
          mm\<lparr>m_mem_pool :=
               mem_init_loop MEMORY_MANAGER_SMALL_BLOCK_COUNT MEMORY_MANAGER_SMALL_BLOCK_SIZE
                 BLOCK_CAT_SMALL 0
               @ mem_init_loop MEMORY_MANAGER_MEDIUM_BLOCK_COUNT MEMORY_MANAGER_MEDIUM_BLOCK_SIZE
                 BLOCK_CAT_MEDIUM p_medium
               @ mem_init_loop MEMORY_MANAGER_LARGE_BLOCK_COUNT MEMORY_MANAGER_LARGE_BLOCK_SIZE
                 BLOCK_CAT_LARGE p_large,
             m_module_initialized := True\<rparr>))"

text \<open>The index at which the search for a block of the requested size starts.\<close>

definition start_index :: "nat \<Rightarrow> nat" where
  "start_index requested_size =
     (if requested_size \<le> MEMORY_MANAGER_SMALL_BLOCK_SIZE then 0
      else if requested_size \<le> MEMORY_MANAGER_MEDIUM_BLOCK_SIZE then MEMORY_MANAGER_SMALL_BLOCK_COUNT
      else MEMORY_MANAGER_SMALL_BLOCK_COUNT + MEMORY_MANAGER_MEDIUM_BLOCK_COUNT)"

text \<open>
  The result is the error code, the cell behind \<open>pp_buffer\<close>, the cell behind \<open>p_size\<close> and the state.
\<close>

definition nrf51_sdk_mem_alloc ::
  "mem_manager \<Rightarrow> ptr option \<Rightarrow> u32 option \<Rightarrow> u32 \<times> ptr option \<times> u32 option \<times> mem_manager" where
  "nrf51_sdk_mem_alloc mm pp_buffer p_size =
     (if \<not> m_module_initialized mm
      then (NRF_ERROR_INVALID_STATE OR MEMORY_MANAGER_ERR_BASE, pp_buffer, p_size, mm)
      else case pp_buffer of
        None \<Rightarrow> (NRF_ERROR_NULL OR MEMORY_MANAGER_ERR_BASE, pp_buffer, p_size, mm)
      | Some _ \<Rightarrow>
        (case p_size of
           None \<Rightarrow> (NRF_ERROR_NULL OR MEMORY_MANAGER_ERR_BASE, pp_buffer, p_size, mm)
         | Some requested_size \<Rightarrow>
           if requested_size = 0 \<or> unat requested_size > MAX_MEM_SIZE
           then (NRF_ERROR_INVALID_PARAM OR MEMORY_MANAGER_ERR_BASE, pp_buffer, p_size, mm)
           else
             case find_next is_free (start_index (unat requested_size)) (m_mem_pool mm) of
               None \<Rightarrow> (NRF_ERROR_NO_MEM OR MEMORY_MANAGER_ERR_BASE, pp_buffer, p_size, mm)
             | Some i \<Rightarrow>
               (let b = m_mem_pool mm ! i
                in (NRF_SUCCESS, Some (p_block b), Some (of_nat (m_block_size ! block_cat b)),
                    mm\<lparr>m_mem_pool := (m_mem_pool mm)[i := b\<lparr>is_free := False\<rparr>]\<rparr>))))"

definition nrf51_sdk_mem_free :: "mem_manager \<Rightarrow> ptr \<Rightarrow> u32 \<times> mem_manager" where
  "nrf51_sdk_mem_free mm p_buffer =
     (if \<not> m_module_initialized mm then (NRF_ERROR_INVALID_STATE OR MEMORY_MANAGER_ERR_BASE, mm)
      else if p_buffer = NULL then (NRF_ERROR_NULL OR MEMORY_MANAGER_ERR_BASE, mm)
      else case find_first (\<lambda>b. p_block b = p_buffer) (m_mem_pool mm) of
             None \<Rightarrow> (NRF_ERROR_INVALID_ADDR OR MEMORY_MANAGER_ERR_BASE, mm)
           | Some i \<Rightarrow> (NRF_SUCCESS, mm\<lparr>m_mem_pool := (m_mem_pool mm)[i := block_init (m_mem_pool mm ! i)]\<rparr>))"

section \<open>The pool layout is an invariant\<close>

text \<open>Where the block at an index lies in \<open>m_memory\<close>, and how large it is.\<close>

definition block_offset :: "nat \<Rightarrow> nat" where
  "block_offset i = (if i < 8 then 128 * i else if i < 12 then 1024 + 256 * (i - 8) else 2048)"

definition block_category :: "nat \<Rightarrow> nat" where
  "block_category i = (if i < 8 then 0 else if i < 12 then 1 else 2)"

definition block_bytes :: "nat \<Rightarrow> nat" where
  "block_bytes i = m_block_size ! block_category i"

definition pool_inv :: "mem_manager \<Rightarrow> bool" where
  "pool_inv mm \<longleftrightarrow> m_module_initialized mm \<and> length (m_mem_pool mm) = TOTAL_BLOCK_COUNT \<and>
     (\<forall>i < TOTAL_BLOCK_COUNT. p_block (m_mem_pool mm ! i) = Ptr (block_offset i) 0 \<and>
        block_cat (m_mem_pool mm ! i) = block_category i)"

lemma block_bytes_eq: "block_bytes i = (if i < 8 then 128 else if i < 12 then 256 else 1024)"
  by (simp add: block_bytes_def block_category_def m_block_size_def c_consts)

lemma block_offset_inj: "i < TOTAL_BLOCK_COUNT \<Longrightarrow> j < TOTAL_BLOCK_COUNT \<Longrightarrow>
  block_offset i = block_offset j \<longleftrightarrow> i = j"
  by (auto simp: block_offset_def c_consts split: if_splits)

text \<open>The blocks tile the static array: no two overlap, and all of them lie inside it.\<close>

lemma blocks_disjoint: "i < j \<Longrightarrow> j < TOTAL_BLOCK_COUNT \<Longrightarrow> block_offset i + block_bytes i \<le> block_offset j"
  by (auto simp: block_offset_def block_bytes_eq c_consts)

lemma block_in_memory: "i < TOTAL_BLOCK_COUNT \<Longrightarrow> block_offset i + block_bytes i \<le> TOTAL_MEMORY_SIZE"
  by (auto simp: block_offset_def block_bytes_eq c_consts)

lemma length_mem_init_loop [simp]: "length (mem_init_loop n s c p) = n"
  by (induction n arbitrary: p) simp_all

lemma mem_init_loop_numeral: "mem_init_loop (numeral k) s c p =
  \<lparr>p_block = Ptr p 0, is_free = True, block_cat = c\<rparr> # mem_init_loop (pred_numeral k) s c (p + s)"
  by (simp add: numeral_eq_Suc block_init_def)

lemma mem_init_loop_nth: "i < n \<Longrightarrow>
  mem_init_loop n s c p ! i = \<lparr>p_block = Ptr (p + s * i) 0, is_free = True, block_cat = c\<rparr>"
  by (induction n arbitrary: p i) (auto simp: nth_Cons block_init_def split: nat.split)

lemma mem_init_pool_nth:
  assumes "nrf51_sdk_mem_init mm = (e, mm')" "i < TOTAL_BLOCK_COUNT"
  shows "m_mem_pool mm' ! i = \<lparr>p_block = Ptr (block_offset i) 0, is_free = True, block_cat = block_category i\<rparr>"
proof -
  consider "i < 8" | "8 \<le> i" "i < 12" | "i = 12"
    using assms(2) by (force simp: c_consts)
  then show ?thesis
    using assms(1) by cases
      (auto simp: nrf51_sdk_mem_init_def Let_def c_consts nth_append mem_init_loop_nth block_init_def
        block_offset_def block_category_def)
qed

lemma mem_init_inv: "nrf51_sdk_mem_init mm = (e, mm') \<Longrightarrow> pool_inv mm'"
  using mem_init_pool_nth [of mm e mm']
  by (auto simp: pool_inv_def nrf51_sdk_mem_init_def Let_def c_consts)

lemma pool_inv_set_free:
  assumes "pool_inv mm"
  shows "pool_inv (mm\<lparr>m_mem_pool := (m_mem_pool mm)[i := (m_mem_pool mm ! i)\<lparr>is_free := f\<rparr>]\<rparr>)"
proof (cases "i < length (m_mem_pool mm)")
  case True
  then show ?thesis using assms by (auto simp: pool_inv_def nth_list_update)
next
  case False
  then show ?thesis using assms by (simp add: list_update_beyond)
qed

lemma mem_alloc_inv: "pool_inv mm \<Longrightarrow> nrf51_sdk_mem_alloc mm pp sz = (e, pp', sz', mm') \<Longrightarrow> pool_inv mm'"
  by (auto simp: nrf51_sdk_mem_alloc_def Let_def pool_inv_set_free split: if_splits option.splits)

lemma mem_free_inv: "pool_inv mm \<Longrightarrow> nrf51_sdk_mem_free mm p = (e, mm') \<Longrightarrow> pool_inv mm'"
  by (auto simp: nrf51_sdk_mem_free_def block_init_def pool_inv_set_free split: if_splits option.splits)

section \<open>The allocator contract\<close>

text \<open>The memory manager as its clients call it: an allocation with its out-parameters unpacked.\<close>

definition mm_alloc :: "mem_manager \<Rightarrow> nat \<Rightarrow> (ptr \<times> nat \<times> mem_manager) option" where
  "mm_alloc mm n =
     (case nrf51_sdk_mem_alloc mm (Some NULL) (Some (of_nat n)) of
        (e, Some p, Some sz, mm') \<Rightarrow>
          if e = NRF_SUCCESS \<and> n < 2 ^ 32 then Some (p, unat sz, mm') else None
      | _ \<Rightarrow> None)"

definition mm_free :: "mem_manager \<Rightarrow> ptr \<Rightarrow> mem_manager option" where
  "mm_free mm p = (case nrf51_sdk_mem_free mm p of (e, mm') \<Rightarrow> if e = NRF_SUCCESS then Some mm' else None)"

definition mm_live :: "mem_manager \<Rightarrow> ptr set" where
  "mm_live mm = set (map p_block (filter (\<lambda>b. \<not> is_free b) (m_mem_pool mm)))"

lemma mm_live_iff: "p \<in> mm_live mm \<longleftrightarrow>
  (\<exists>i < length (m_mem_pool mm). p = p_block (m_mem_pool mm ! i) \<and> \<not> is_free (m_mem_pool mm ! i))"
  by (auto simp: mm_live_def in_set_conv_nth image_iff)

lemma mm_live_index: "pool_inv mm \<Longrightarrow> p \<in> mm_live mm \<Longrightarrow> \<exists>i < TOTAL_BLOCK_COUNT. p = Ptr (block_offset i) 0"
  by (auto simp: mm_live_iff pool_inv_def)

lemma pool_p_block_inj:
  "pool_inv mm \<Longrightarrow> i < length (m_mem_pool mm) \<Longrightarrow> j < length (m_mem_pool mm) \<Longrightarrow>
   p_block (m_mem_pool mm ! i) = p_block (m_mem_pool mm ! j) \<longleftrightarrow> i = j"
  by (auto simp: pool_inv_def block_offset_inj)

lemma start_index_fits:
  "n \<le> MAX_MEM_SIZE \<Longrightarrow> start_index n \<le> i \<Longrightarrow> n \<le> block_bytes i"
  by (auto simp: start_index_def block_bytes_eq c_consts split: if_splits)

lemma block_bytes_u32: "unat (of_nat (block_bytes i) :: u32) = block_bytes i"
  by (rule unat_of_nat_u32) (simp add: block_bytes_eq)

text \<open>All that a successful allocation does.\<close>

lemma mem_alloc_success:
  assumes "pool_inv mm" "nrf51_sdk_mem_alloc mm pp sz = (NRF_SUCCESS, pp', sz', mm')"
  obtains i n where "sz = Some n" "n \<noteq> 0" "unat n \<le> block_bytes i" "start_index (unat n) \<le> i"
    "i < TOTAL_BLOCK_COUNT" "is_free (m_mem_pool mm ! i)"
    "\<And>j. start_index (unat n) \<le> j \<Longrightarrow> j < i \<Longrightarrow> \<not> is_free (m_mem_pool mm ! j)"
    "pp' = Some (Ptr (block_offset i) 0)" "sz' = Some (of_nat (block_bytes i))"
    "mm' = mm\<lparr>m_mem_pool := (m_mem_pool mm)[i := (m_mem_pool mm ! i)\<lparr>is_free := False\<rparr>]\<rparr>"
proof -
  from assms(2) obtain n i where *: "sz = Some n" "n \<noteq> 0" "unat n \<le> MAX_MEM_SIZE"
    "find_next is_free (start_index (unat n)) (m_mem_pool mm) = Some i"
    "pp' = Some (p_block (m_mem_pool mm ! i))"
    "sz' = Some (of_nat (m_block_size ! block_cat (m_mem_pool mm ! i)))"
    "mm' = mm\<lparr>m_mem_pool := (m_mem_pool mm)[i := (m_mem_pool mm ! i)\<lparr>is_free := False\<rparr>]\<rparr>"
    by (auto simp: nrf51_sdk_mem_alloc_def Let_def split: if_splits option.splits)
  from *(4) assms(1) have "i < TOTAL_BLOCK_COUNT"
    by (auto simp: find_next_Some pool_inv_def)
  moreover from *(3,4) have "unat n \<le> block_bytes i"
    by (auto simp: find_next_Some intro: start_index_fits)
  ultimately show thesis using * assms(1)
    by (intro that [of n i]) (auto simp: find_next_Some pool_inv_def block_bytes_def)
qed

lemma mem_alloc_live:
  assumes "pool_inv mm" "nrf51_sdk_mem_alloc mm pp sz = (NRF_SUCCESS, Some p, sz', mm')"
  shows "p \<notin> mm_live mm" and "mm_live mm' = insert p (mm_live mm)" and "p \<noteq> NULL"
proof -
  from assms obtain i where i: "i < TOTAL_BLOCK_COUNT" "is_free (m_mem_pool mm ! i)"
    "p = Ptr (block_offset i) 0"
    "mm' = mm\<lparr>m_mem_pool := (m_mem_pool mm)[i := (m_mem_pool mm ! i)\<lparr>is_free := False\<rparr>]\<rparr>"
    by (elim mem_alloc_success) auto
  have len: "length (m_mem_pool mm) = TOTAL_BLOCK_COUNT" and p: "p = p_block (m_mem_pool mm ! i)"
    using assms(1) i(1,3) by (auto simp: pool_inv_def)
  show "p \<noteq> NULL" using i(3) by simp
  show "p \<notin> mm_live mm"
    using assms(1) i(1,2) len by (auto simp: mm_live_iff p pool_p_block_inj)
  show "mm_live mm' = insert p (mm_live mm)"
  proof (rule set_eqI)
    fix q
    show "q \<in> mm_live mm' \<longleftrightarrow> q \<in> insert p (mm_live mm)"
      using i(1,2) len by (auto simp: mm_live_iff i(4) p nth_list_update split: if_splits)
  qed
qed

lemma mem_free_cases:
  assumes "pool_inv mm" "nrf51_sdk_mem_free mm p = (e, mm')"
  obtains (bad) "p \<noteq> NULL" "\<forall>i < TOTAL_BLOCK_COUNT. p \<noteq> Ptr (block_offset i) 0"
      "e = NRF_ERROR_INVALID_ADDR OR MEMORY_MANAGER_ERR_BASE" "mm' = mm"
    | (null) "p = NULL" "e = NRF_ERROR_NULL OR MEMORY_MANAGER_ERR_BASE" "mm' = mm"
    | (ok) i where "i < TOTAL_BLOCK_COUNT" "p = Ptr (block_offset i) 0" "e = NRF_SUCCESS"
      "mm' = mm\<lparr>m_mem_pool := (m_mem_pool mm)[i := (m_mem_pool mm ! i)\<lparr>is_free := True\<rparr>]\<rparr>"
proof (cases "p = NULL")
  case True
  with assms show thesis by (intro null) (auto simp: nrf51_sdk_mem_free_def pool_inv_def)
next
  case nn: False
  show thesis
  proof (cases "find_first (\<lambda>b. p_block b = p) (m_mem_pool mm)")
    case None
    with assms nn show thesis
      by (intro bad) (auto simp: nrf51_sdk_mem_free_def pool_inv_def find_first_None all_set_conv_all_nth)
  next
    case (Some i)
    with assms nn show thesis
      by (intro ok [of i]) (auto simp: nrf51_sdk_mem_free_def pool_inv_def find_first_Some block_init_def)
  qed
qed

lemma mem_free_live:
  assumes "pool_inv mm" "nrf51_sdk_mem_free mm p = (NRF_SUCCESS, mm')"
  shows "mm_live mm' = mm_live mm - {p}"
  using assms
proof (cases rule: mem_free_cases)
  case (ok i)
  have len: "length (m_mem_pool mm) = TOTAL_BLOCK_COUNT" and p: "p = p_block (m_mem_pool mm ! i)"
    using assms(1) ok(1,2) by (auto simp: pool_inv_def)
  show ?thesis
  proof (rule set_eqI)
    fix q
    show "q \<in> mm_live mm' \<longleftrightarrow> q \<in> mm_live mm - {p}"
      using ok(1) len assms(1)
      by (auto simp: mm_live_iff ok(4) p nth_list_update pool_p_block_inj split: if_splits)
  qed
qed auto

lemma mem_free_live_succeeds:
  assumes "pool_inv mm" "p \<in> mm_live mm"
  shows "fst (nrf51_sdk_mem_free mm p) = NRF_SUCCESS"
proof -
  obtain e mm' where f: "nrf51_sdk_mem_free mm p = (e, mm')" by force
  have "\<exists>i < TOTAL_BLOCK_COUNT. p = Ptr (block_offset i) 0"
    using assms by (auto simp: mm_live_iff pool_inv_def)
  then show ?thesis using assms(1) f by (auto elim: mem_free_cases)
qed

interpretation mm: allocator mm_alloc mm_free mm_live pool_inv
proof (unfold_locales, goal_cases)
  case (2 s n p m s')
  then show ?case
    by (auto simp: mm_alloc_def block_bytes_u32 unat_of_nat_u32 elim!: mem_alloc_success
        split: prod.splits option.splits if_splits)
qed (auto simp: mm_alloc_def mm_free_def mem_alloc_live mem_free_live
    dest: mem_alloc_inv mem_free_inv mem_free_live_succeeds
    split: prod.splits option.splits if_splits)

text \<open>The two outcomes of an allocation, as the clients of the module use them.\<close>

lemma mem_alloc_outcome:
  assumes "pool_inv mm"
  obtains (ok) i where "nrf51_sdk_mem_alloc mm (Some q) (Some n)
        = (NRF_SUCCESS, Some (Ptr (block_offset i) 0), Some (of_nat (block_bytes i)),
           mm\<lparr>m_mem_pool := (m_mem_pool mm)[i := (m_mem_pool mm ! i)\<lparr>is_free := False\<rparr>]\<rparr>)"
      "i < TOTAL_BLOCK_COUNT" "n \<noteq> 0" "unat n \<le> block_bytes i" "is_free (m_mem_pool mm ! i)"
      "Ptr (block_offset i) 0 \<notin> mm_live mm"
      "pool_inv (mm\<lparr>m_mem_pool := (m_mem_pool mm)[i := (m_mem_pool mm ! i)\<lparr>is_free := False\<rparr>]\<rparr>)"
      "mm_live (mm\<lparr>m_mem_pool := (m_mem_pool mm)[i := (m_mem_pool mm ! i)\<lparr>is_free := False\<rparr>]\<rparr>)
         = insert (Ptr (block_offset i) 0) (mm_live mm)"
  | (fail) e where "nrf51_sdk_mem_alloc mm (Some q) (Some n) = (e, Some q, Some n, mm)" "e \<noteq> NRF_SUCCESS"
proof (cases "fst (nrf51_sdk_mem_alloc mm (Some q) (Some n)) = NRF_SUCCESS")
  case True
  then obtain pp' sz' mm' where a: "nrf51_sdk_mem_alloc mm (Some q) (Some n) = (NRF_SUCCESS, pp', sz', mm')"
    by (metis prod_cases4 fst_conv)
  then obtain i where i: "i < TOTAL_BLOCK_COUNT" "n \<noteq> 0" "unat n \<le> block_bytes i" "is_free (m_mem_pool mm ! i)"
    "pp' = Some (Ptr (block_offset i) 0)" "sz' = Some (of_nat (block_bytes i))"
    "mm' = mm\<lparr>m_mem_pool := (m_mem_pool mm)[i := (m_mem_pool mm ! i)\<lparr>is_free := False\<rparr>]\<rparr>"
    using assms by (elim mem_alloc_success) auto
  show thesis
    using a i mem_alloc_live [OF assms, of "Some q" "Some n" "Ptr (block_offset i) 0" sz' mm'] mem_alloc_inv [OF assms a]
    by (intro ok [of i]) simp_all
next
  case False
  then show thesis
    by (intro fail [of "fst (nrf51_sdk_mem_alloc mm (Some q) (Some n))"])
      (auto simp: nrf51_sdk_mem_alloc_def Let_def split: if_splits option.splits)
qed

text \<open>The byte store has an object of the right size for every block of the pools.\<close>

definition pool_heap :: "heap \<Rightarrow> bool" where
  "pool_heap h \<longleftrightarrow> (\<forall>i < TOTAL_BLOCK_COUNT. length (h (block_offset i)) = block_bytes i)"

lemma pool_heap_store: "pool_heap h \<Longrightarrow> store_bytes h p vs = Inr h' \<Longrightarrow> pool_heap h'"
  using store_bytes_size [of h p vs h'] by (simp add: pool_heap_def)

lemma pool_heap_write:
  assumes "pool_heap h" "i < TOTAL_BLOCK_COUNT" "j + length vs \<le> block_bytes i"
  shows "\<exists>h'. store_bytes h (Ptr (block_offset i) j) vs = Inr h' \<and> pool_heap h' \<and>
    take (length vs) (drop j (h' (block_offset i))) = vs"
proof -
  have l: "length (h (block_offset i)) = block_bytes i" using assms(1,2) by (simp add: pool_heap_def)
  then have st: "store_bytes h (Ptr (block_offset i) j) vs
      = Inr (h(block_offset i := take j (h (block_offset i)) @ vs @ drop (j + length vs) (h (block_offset i))))"
    using assms(3) by (simp add: arr_write_eq)
  show ?thesis using st pool_heap_store [OF assms(1) st] l assms(3) by (simp del: store_bytes.simps)
qed

section \<open>Sequences of calls\<close>

datatype mm_op = MemAlloc u32 | MemFree ptr

fun mm_step :: "mem_manager \<Rightarrow> mm_op \<Rightarrow> mem_manager" where
  "mm_step mm (MemAlloc n) = (case nrf51_sdk_mem_alloc mm (Some NULL) (Some n) of (_, _, _, mm') \<Rightarrow> mm')"
| "mm_step mm (MemFree p) = snd (nrf51_sdk_mem_free mm p)"

fun mm_run :: "mem_manager \<Rightarrow> mm_op list \<Rightarrow> mem_manager" where
  "mm_run mm [] = mm"
| "mm_run mm (x # xs) = mm_run (mm_step mm x) xs"

lemma mm_step_inv: "pool_inv mm \<Longrightarrow> pool_inv (mm_step mm x)"
  by (cases x) (auto split: prod.splits intro: mem_alloc_inv mem_free_inv [OF _ prod.collapse [symmetric]])

lemma mm_run_inv: "pool_inv mm \<Longrightarrow> pool_inv (mm_run mm xs)"
  by (induction xs arbitrary: mm) (auto simp: mm_step_inv)

section \<open>Properties\<close>

lemma start_index_iff_fits:
  "n \<le> MAX_MEM_SIZE \<Longrightarrow> i < TOTAL_BLOCK_COUNT \<Longrightarrow> start_index n \<le> i \<longleftrightarrow> n \<le> block_bytes i"
  by (auto simp: start_index_def block_bytes_eq c_consts)

text \<open>A block of at least \<open>n\<close> bytes is free.\<close>

definition room_for :: "mem_manager \<Rightarrow> nat \<Rightarrow> bool" where
  "room_for mm n \<longleftrightarrow> n \<noteq> 0 \<and> n \<le> MAX_MEM_SIZE \<and>
     (\<exists>i < TOTAL_BLOCK_COUNT. n \<le> block_bytes i \<and> is_free (m_mem_pool mm ! i))"

lemma mem_alloc_room:
  assumes "pool_inv mm"
  shows "fst (nrf51_sdk_mem_alloc mm (Some q) (Some n)) = NRF_SUCCESS \<longleftrightarrow> room_for mm (unat n)"
proof (cases "find_next is_free (start_index (unat n)) (m_mem_pool mm)")
  case None
  have "\<not> room_for mm (unat n)"
    using assms None by (auto simp: find_next_None pool_inv_def room_for_def start_index_iff_fits)
  then show ?thesis using assms None by (auto simp: nrf51_sdk_mem_alloc_def pool_inv_def)
next
  case (Some i)
  then have "room_for mm (unat n) \<longleftrightarrow> n \<noteq> 0 \<and> unat n \<le> MAX_MEM_SIZE"
    using assms by (auto simp: find_next_Some pool_inv_def room_for_def start_index_iff_fits unat_eq_zero)
  then show ?thesis using assms Some by (auto simp: nrf51_sdk_mem_alloc_def pool_inv_def Let_def)
qed

text \<open>C24: A valid request is answered with the first free block of a sufficient category: on success
  the block was free, is at least as large as requested, and no block that precedes it and is large
  enough was free; only that block becomes live. The request fails with NO_MEM exactly when no free
  block is large enough, and then nothing changes, the caller's buffer pointer included.\<close>

theorem mem_alloc_first_fit:
  assumes "pool_inv mm" "n \<noteq> 0" "unat n \<le> MAX_MEM_SIZE"
    and "nrf51_sdk_mem_alloc mm (Some q) (Some n) = (e, pp', sz', mm')"
  shows "if \<exists>i < TOTAL_BLOCK_COUNT. unat n \<le> block_bytes i \<and> is_free (m_mem_pool mm ! i)
    then e = NRF_SUCCESS \<and> (\<exists>i < TOTAL_BLOCK_COUNT. is_free (m_mem_pool mm ! i) \<and> unat n \<le> block_bytes i \<and>
        (\<forall>j < i. unat n \<le> block_bytes j \<longrightarrow> \<not> is_free (m_mem_pool mm ! j)) \<and>
        pp' = Some (Ptr (block_offset i) 0) \<and> sz' = Some (of_nat (block_bytes i)) \<and>
        mm_live mm' = insert (Ptr (block_offset i) 0) (mm_live mm) \<and>
        Ptr (block_offset i) 0 \<notin> mm_live mm)
    else e = NRF_ERROR_NO_MEM OR MEMORY_MANAGER_ERR_BASE \<and> pp' = Some q \<and> sz' = Some n \<and> mm' = mm"
proof (cases "find_next is_free (start_index (unat n)) (m_mem_pool mm)")
  case None
  then have "\<not> (\<exists>i < TOTAL_BLOCK_COUNT. unat n \<le> block_bytes i \<and> is_free (m_mem_pool mm ! i))"
    using assms(1,3) by (auto simp: find_next_None pool_inv_def start_index_iff_fits)
  then show ?thesis
    using assms None by (auto simp: nrf51_sdk_mem_alloc_def pool_inv_def)
next
  case (Some i)
  then have i: "i < TOTAL_BLOCK_COUNT" "is_free (m_mem_pool mm ! i)" "unat n \<le> block_bytes i"
    "\<forall>j < i. unat n \<le> block_bytes j \<longrightarrow> \<not> is_free (m_mem_pool mm ! j)"
    using assms(1,3) by (auto simp: find_next_Some pool_inv_def start_index_iff_fits
        start_index_fits intro: start_index_iff_fits [THEN iffD2])
  have res: "e = NRF_SUCCESS" "pp' = Some (Ptr (block_offset i) 0)" "sz' = Some (of_nat (block_bytes i))"
    using assms i(1) Some by (auto simp: nrf51_sdk_mem_alloc_def pool_inv_def Let_def block_bytes_def)
  show ?thesis
    using mem_alloc_live [OF assms(1), of "Some q" "Some n" "Ptr (block_offset i) 0" sz' mm'] assms(4) i res
    by auto
qed

theorem mem_alloc_first_fit_witness:
  "let mm = snd (nrf51_sdk_mem_init \<lparr>m_mem_pool = [], m_module_initialized = False\<rparr>)
   in fst (nrf51_sdk_mem_alloc mm (Some NULL) (Some 200)) = NRF_SUCCESS"
proof -
  define mm where "mm = snd (nrf51_sdk_mem_init \<lparr>m_mem_pool = [], m_module_initialized = False\<rparr>)"
  have init: "nrf51_sdk_mem_init \<lparr>m_mem_pool = [], m_module_initialized = False\<rparr> = (NRF_SUCCESS, mm)"
    by (simp add: mm_def nrf51_sdk_mem_init_def Let_def)
  obtain e pp' sz' mm' where a: "nrf51_sdk_mem_alloc mm (Some NULL) (Some 200) = (e, pp', sz', mm')"
    by (metis prod_cases4)
  have "\<exists>i < TOTAL_BLOCK_COUNT. unat (200 :: u32) \<le> block_bytes i \<and> is_free (m_mem_pool mm ! i)"
    using mem_init_pool_nth [OF init, of 8] by (intro exI [of _ 8]) (simp add: c_consts block_bytes_eq)
  then show ?thesis
    using mem_alloc_first_fit [OF mem_init_inv [OF init] _ _ a] a
    by (simp add: mm_def [symmetric] Let_def c_consts)
qed



text \<open>Freeing a block that has just been allocated restores the memory manager's state exactly.\<close>

theorem mem_alloc_free_roundtrip:
  assumes "pool_inv mm" and "nrf51_sdk_mem_alloc mm pp sz = (NRF_SUCCESS, Some p, sz', mm')"
  shows "nrf51_sdk_mem_free mm' p = (NRF_SUCCESS, mm)"
proof -
  from assms obtain i where i: "i < TOTAL_BLOCK_COUNT" "is_free (m_mem_pool mm ! i)"
    "p = Ptr (block_offset i) 0"
    "mm' = mm\<lparr>m_mem_pool := (m_mem_pool mm)[i := (m_mem_pool mm ! i)\<lparr>is_free := False\<rparr>]\<rparr>"
    by (elim mem_alloc_success) auto
  have len: "length (m_mem_pool mm) = TOTAL_BLOCK_COUNT" using assms(1) by (simp add: pool_inv_def)
  have inv': "pool_inv mm'" using mem_alloc_inv [OF assms] .
  have "p \<in> mm_live mm'" using mem_alloc_live [OF assms] by simp
  then have ok: "fst (nrf51_sdk_mem_free mm' p) = NRF_SUCCESS"
    using mem_free_live_succeeds [OF inv'] by simp
  obtain e mm'' where f: "nrf51_sdk_mem_free mm' p = (e, mm'')" by force
  from inv' f show ?thesis
  proof (cases rule: mem_free_cases)
    case (ok k)
    then have "k = i" using i(1,3) by (simp add: block_offset_inj)
    then show ?thesis using ok f i len
      by (simp add: list_update_same_conv)
  qed (use ok f in auto)
qed

theorem mem_alloc_free_roundtrip_witness:
  "let mm = snd (nrf51_sdk_mem_init \<lparr>m_mem_pool = [], m_module_initialized = False\<rparr>)
   in nrf51_sdk_mem_free (snd (snd (snd (nrf51_sdk_mem_alloc mm (Some NULL) (Some 10))))) (Ptr 0 0)
      = (NRF_SUCCESS, mm)"
proof -
  define mm where "mm = snd (nrf51_sdk_mem_init \<lparr>m_mem_pool = [], m_module_initialized = False\<rparr>)"
  have inv: "pool_inv mm" unfolding mm_def by (metis mem_init_inv prod.collapse)
  have "\<exists>sz' mm'. nrf51_sdk_mem_alloc mm (Some NULL) (Some 10) = (NRF_SUCCESS, Some (Ptr 0 0), sz', mm')"
    by (simp add: mm_def nrf51_sdk_mem_init_def nrf51_sdk_mem_alloc_def start_index_def Let_def
        c_consts block_init_def find_next_def mem_init_loop_numeral)
  then obtain sz' mm' where a: "nrf51_sdk_mem_alloc mm (Some NULL) (Some 10) = (NRF_SUCCESS, Some (Ptr 0 0), sz', mm')"
    by blast
  show ?thesis
    using mem_alloc_free_roundtrip [OF inv a] a by (simp add: mm_def [symmetric] Let_def)
qed

end
