(* ===== verification/Slot_Table.thy ===== *)
theory Slot_Table
  imports C_Prelude "HOL-Library.Multiset"
begin

text \<open>
  The tables of the modules: an array whose elements are free or used, filled at the first free
  element, emptied by clearing an element, and walked through with "first used" and "next used"
  calls. The message queue, the observer tables, the packet buffers and the IPv6 contexts are such
  tables; the theories that provide them interpret the locale.
\<close>

text \<open>The indices a client visits that starts with \<open>next_get(NULL)\<close> and continues with the item returned.\<close>

fun visit_from :: "('e \<Rightarrow> bool) \<Rightarrow> 'e list \<Rightarrow> nat \<Rightarrow> nat \<Rightarrow> nat list" where
  "visit_from P xs i 0 = []"
| "visit_from P xs i (Suc fuel) =
     (case find_next P i xs of None \<Rightarrow> [] | Some j \<Rightarrow> j # visit_from P xs (Suc j) fuel)"

text \<open>The contents of a table, as a bag.\<close>

definition table_items :: "('e \<Rightarrow> bool) \<Rightarrow> 'e list \<Rightarrow> 'e multiset" where
  "table_items P xs = filter_mset P (mset xs)"

lemma table_items_size: "size (table_items P xs) = count_if P xs"
  unfolding table_items_def count_if_def mset_filter [symmetric] by (rule size_mset)

lemma table_items_update:
  assumes "i < length xs"
  shows "table_items P (xs[i := v]) =
    (if P v then {#v#} else {#}) + (table_items P xs - (if P (xs ! i) then {#xs ! i#} else {#}))"
  unfolding table_items_def mset_update [OF assms] by (simp add: filter_diff_mset)

lemma table_items_member: "i < length xs \<Longrightarrow> P (xs ! i) \<Longrightarrow> xs ! i \<in># table_items P xs"
  by (simp add: table_items_def)

locale slot_table =
  fixes free :: "'e \<Rightarrow> bool"
    and cleared :: "'e \<Rightarrow> 'e"
  assumes cleared_free: "free (cleared x)"
begin

lemma free_slot:
  assumes "find_first free xs = Some i"
  shows "i < length xs" "free (xs ! i)" "\<And>j. j < i \<Longrightarrow> \<not> free (xs ! j)"
  using assms by (auto simp: find_first_Some)

lemma no_free_slot: "find_first free xs = None \<longleftrightarrow> count_if (\<lambda>x. \<not> free x) xs = length xs"
  by (simp add: find_first_None count_if_full)

lemma add_count:
  assumes "find_first free xs = Some i" "\<not> free e"
  shows "count_if (\<lambda>x. \<not> free x) (xs[i := e]) = Suc (count_if (\<lambda>x. \<not> free x) xs)"
  using count_if_update [of i xs "\<lambda>x. \<not> free x" e] free_slot [OF assms(1)] assms(2) by simp

lemma add_items:
  assumes "find_first free xs = Some i" "\<not> free e"
  shows "table_items (\<lambda>x. \<not> free x) (xs[i := e]) = add_mset e (table_items (\<lambda>x. \<not> free x) xs)"
  using table_items_update [of i xs "\<lambda>x. \<not> free x" e] free_slot [OF assms(1)] assms(2) by simp

lemma clear_items:
  assumes "i < length xs" "\<not> free (xs ! i)"
  shows "table_items (\<lambda>x. \<not> free x) (xs[i := cleared x]) = table_items (\<lambda>x. \<not> free x) xs - {#xs ! i#}"
  using table_items_update [of i xs "\<lambda>x. \<not> free x" "cleared x"] assms cleared_free [of x] by simp

lemma add_room:
  assumes "find_first free xs = Some i"
  shows "count_if (\<lambda>x. \<not> free x) xs < length xs"
  using assms no_free_slot [of xs] count_if_le [of "\<lambda>x. \<not> free x" xs] by simp

lemma clear_count:
  assumes "i < length xs" "\<not> free (xs ! i)"
  shows "Suc (count_if (\<lambda>x. \<not> free x) (xs[i := cleared x])) = count_if (\<lambda>x. \<not> free x) xs"
  using count_if_update [of i xs "\<lambda>x. \<not> free x" "cleared x"] assms cleared_free [of x] by simp

lemma clear_free_count:
  assumes "i < length xs" "free (xs ! i)"
  shows "count_if (\<lambda>x. \<not> free x) (xs[i := cleared x]) = count_if (\<lambda>x. \<not> free x) xs"
  using count_if_update [of i xs "\<lambda>x. \<not> free x" "cleared x"] assms cleared_free [of x] by simp

text \<open>Walking through the table visits every used element once, in ascending order.\<close>

lemma visit_all:
  assumes "length xs \<le> i + fuel"
  shows "visit_from (\<lambda>x. \<not> free x) xs i fuel = filter (\<lambda>j. \<not> free (xs ! j)) [i..<length xs]"
  using assms
proof (induction fuel arbitrary: i)
  case 0
  then show ?case by simp
next
  case (Suc fuel)
  show ?case
  proof (cases "find_next (\<lambda>x. \<not> free x) i xs")
    case None
    then have "filter (\<lambda>j. \<not> free (xs ! j)) [i..<length xs] = []"
      by (auto simp: find_next_None filter_empty_conv)
    then show ?thesis using None by simp
  next
    case (Some j)
    then have j: "i \<le> j" "j < length xs" "\<not> free (xs ! j)" "\<And>k. i \<le> k \<Longrightarrow> k < j \<Longrightarrow> free (xs ! k)"
      by (auto simp: find_next_Some)
    have split: "[i..<length xs] = [i..<j] @ j # [Suc j..<length xs]"
      using j(1,2) by (metis le_add_diff_inverse less_imp_le_nat upt_add_eq_append upt_conv_Cons)
    have "filter (\<lambda>j. \<not> free (xs ! j)) [i..<j] = []"
      using j(4) by (auto simp: filter_empty_conv)
    then have "filter (\<lambda>j. \<not> free (xs ! j)) [i..<length xs] = j # filter (\<lambda>j. \<not> free (xs ! j)) [Suc j..<length xs]"
      unfolding split using j(3) by simp
    then show ?thesis using Some Suc.IH [of "Suc j"] Suc.prems j(1) by simp
  qed
qed

end

end
