(* ===== verification/Ipv6_Utils.thy ===== *)
theory Ipv6_Utils
  imports Sdk_Config
begin

text \<open>
  The Internet checksum of the IPv6 stack, \<^verbatim>\<open>components/iot/ipv6_stack/utils/ipv6_utils.c\<close>. The code
  keeps the even and the odd bytes of the running sum in two 16-bit variables and moves the carries
  between them; the theorem shows that this is the one's complement sum of RFC 1071.
\<close>

section \<open>The code\<close>

text \<open>The expressions \<open>(x & 0xFF00) >> 8\<close> and \<open>x & 0x00FF\<close> on 16-bit values.\<close>

definition byte_hi :: "u16 \<Rightarrow> u16" where
  "byte_hi x = drop_bit 8 (x AND 0xFF00)"

definition byte_lo :: "u16 \<Rightarrow> u16" where
  "byte_lo x = x AND 0x00FF"

text \<open>The two carry corrections at the end of each turn of the loop.\<close>

definition checksum_fold :: "u16 \<Rightarrow> u16 \<Rightarrow> u16 \<times> u16" where
  "checksum_fold even1 odd1 =
     (let (even2, odd2) =
            (if odd1 AND 0xFF00 \<noteq> 0 then (even1 + byte_hi odd1, byte_lo odd1) else (even1, odd1))
      in if even2 AND 0xFF00 \<noteq> 0 then (byte_lo even2, odd2 + byte_hi even2) else (even2, odd2))"

text \<open>The loop over the data, which the list holds from \<open>p_data\<close> on; the second list is the data left.\<close>

fun checksum_loop :: "u8 list \<Rightarrow> u16 \<Rightarrow> u16 \<Rightarrow> u16 \<times> u16" where
  "checksum_loop [] even1 odd1 = (even1, odd1)"
| "checksum_loop [a] even1 odd1 = checksum_fold (even1 + ucast a) odd1"
| "checksum_loop (a # b # bs) even1 odd1 =
     (case checksum_fold (even1 + ucast a) (odd1 + ucast b) of (even2, odd2) \<Rightarrow> checksum_loop bs even2 odd2)"

text \<open>The result is the cell behind \<open>p_checksum\<close>.\<close>

definition ipv6_checksum_calculate :: "heap \<Rightarrow> ptr \<Rightarrow> u16 \<Rightarrow> u16 \<Rightarrow> bool \<Rightarrow> fault + u16" where
  "ipv6_checksum_calculate h data len checksum flip_flag =
     c_bind (load_bytes h data (unat len)) (\<lambda>bytes.
     case checksum_loop bytes (byte_hi checksum) (byte_lo checksum) of (even1, odd1) \<Rightarrow>
     let even2 = push_bit 8 even1 + (odd1 AND 0xFFFF)
     in Inr (if flip_flag \<and> even2 = 0xFFFF then 0 else even2))"

section \<open>The reference\<close>

text \<open>The data as big-endian 16-bit words, the last one padded with a zero byte; and the sum.\<close>

fun be_words :: "u8 list \<Rightarrow> nat list" where
  "be_words [] = []"
| "be_words [a] = [256 * unat a]"
| "be_words (a # b # bs) = (256 * unat a + unat b) # be_words bs"

text \<open>One's complement addition of two 16-bit numbers: the carry is added at the other end.\<close>

definition oc_add :: "nat \<Rightarrow> nat \<Rightarrow> nat" where
  "oc_add x y = (if x + y > 65535 then x + y - 65535 else x + y)"

definition oc_sum :: "nat \<Rightarrow> nat list \<Rightarrow> nat" where
  "oc_sum x ws = fold (\<lambda>w v. oc_add v w) ws x"

text \<open>The sum is the residue modulo \<open>2 ^ 16 - 1\<close>, with 65535 for the zero of a non-zero sum.\<close>

lemma oc_add_residue:
  "x \<le> 65535 \<Longrightarrow> y \<le> 65535 \<Longrightarrow> oc_add x y = (if x + y = 0 then 0 else (x + y - 1) mod 65535 + 1)"
  by (auto simp: oc_add_def mod_if)

lemma be_words_le: "w \<in> set (be_words bs) \<Longrightarrow> w \<le> 65535"
proof (induction bs rule: be_words.induct)
  case (2 a)
  then show ?case using unat_u8_less [of a] by simp
next
  case (3 a b bs)
  then show ?case using unat_u8_less [of a] unat_u8_less [of b] by auto
qed simp

section \<open>Equivalence\<close>

text \<open>The pair of sums the loop keeps, and the number it stands for.\<close>

definition sum_ok :: "u16 \<Rightarrow> u16 \<Rightarrow> bool" where
  "sum_ok e d \<longleftrightarrow> unat e < 256 \<and> unat d \<le> 256 \<and> 256 * unat e + unat d \<le> 65535"

definition sum_value :: "u16 \<Rightarrow> u16 \<Rightarrow> nat" where
  "sum_value e d = 256 * unat e + unat d"

lemma byte_hi_unat: "unat (byte_hi x) = unat x div 256"
proof -
  have "byte_hi x = drop_bit 8 x"
    by (rule bit_word_eqI) (auto simp: byte_hi_def mask_u16 bit_simps dest: bit_imp_le_length)
  then show ?thesis using unat_u16_less [of x]
    by (simp only: unsigned_drop_bit_eq) (simp add: drop_bit_eq_div take_bit_nat_def)
qed

lemma byte_lo_unat: "unat (byte_lo x) = unat x mod 256"
  unfolding byte_lo_def mask_u16 take_bit_eq_mask [symmetric] unsigned_take_bit_eq take_bit_nat_def by simp

lemma has_high_byte: "(x :: u16) AND 0xFF00 \<noteq> 0 \<longleftrightarrow> 256 \<le> unat x"
proof -
  have "x AND 0xFF00 = push_bit 8 (byte_hi x)"
    unfolding byte_hi_def by (rule bit_word_eqI) (auto simp: mask_u16 bit_simps)
  moreover have "byte_hi x = 0" if "x AND 0xFF00 = 0" using that unfolding byte_hi_def by (metis drop_bit_of_0)
  ultimately have "x AND 0xFF00 = 0 \<longleftrightarrow> byte_hi x = 0" by (metis push_bit_of_0)
  also have "\<dots> \<longleftrightarrow> unat x div 256 = 0" by (simp only: word_unat_eq_iff byte_hi_unat) simp
  finally show ?thesis by auto
qed

lemma one_carry: "256 \<le> n \<Longrightarrow> n \<le> 511 \<Longrightarrow> n div 256 = (1 :: nat)" "256 \<le> n \<Longrightarrow> n \<le> 511 \<Longrightarrow> n mod 256 = n - (256 :: nat)"
  by (simp_all add: div_if mod_if)

lemma checksum_fold_add:
  assumes "sum_ok e d" "unat a < 256" "unat b < 256"
  shows "case checksum_fold (e + a) (d + b) of (e', d') \<Rightarrow>
    sum_ok e' d' \<and> sum_value e' d' = oc_add (sum_value e d) (256 * unat a + unat b)"
proof -
  define x y where "x = e + a" and "y = d + b"
  have x: "unat x = unat e + unat a" and y: "unat y = unat d + unat b"
    using assms unfolding x_def y_def by (auto simp: sum_ok_def intro!: unat_add_u16)
  have xl: "unat x \<le> 510" and yl: "unat y \<le> 511" using assms x y by (auto simp: sum_ok_def)
  define x2 y2 where "x2 = (if 256 \<le> unat y then x + byte_hi y else x)"
    and "y2 = (if 256 \<le> unat y then byte_lo y else y)"
  have x2: "unat x2 = (if 256 \<le> unat y then unat x + 1 else unat x)"
    using xl yl by (simp add: x2_def unat_add_u16 byte_hi_unat one_carry)
  have y2: "unat y2 = (if 256 \<le> unat y then unat y - 256 else unat y)"
    using yl by (simp add: y2_def byte_lo_unat one_carry)
  define x3 y3 where "x3 = (if 256 \<le> unat x2 then byte_lo x2 else x2)"
    and "y3 = (if 256 \<le> unat x2 then y2 + byte_hi x2 else y2)"
  have x2l: "unat x2 \<le> 511" and y2l: "unat y2 \<le> 255" using x2 y2 xl yl by auto
  have x3: "unat x3 = (if 256 \<le> unat x2 then unat x2 - 256 else unat x2)"
    using x2l by (simp add: x3_def byte_lo_unat one_carry)
  have y3: "unat y3 = (if 256 \<le> unat x2 then unat y2 + 1 else unat y2)"
    using x2l y2l by (simp add: y3_def unat_add_u16 byte_hi_unat one_carry)
  have fold: "checksum_fold x y = (x3, y3)"
    by (simp add: checksum_fold_def has_high_byte x3_def y3_def x2_def y2_def)
  have v: "256 * unat x2 + unat y2 = sum_value e d + (256 * unat a + unat b)"
    using x y x2 y2 by (simp add: sum_value_def)
  have sv: "sum_value e d \<le> 65535" using assms(1) by (simp add: sum_ok_def sum_value_def)
  have "sum_ok x3 y3 \<and> sum_value x3 y3 = oc_add (sum_value e d) (256 * unat a + unat b)"
  proof (cases "256 \<le> unat x2")
    case True
    then have n: "256 * unat x3 + unat y3 + 65535 = sum_value e d + (256 * unat a + unat b)"
      using x3 y3 v by simp
    then show ?thesis
      using True x3 y3 x2l y2l sv assms(2,3) by (simp add: sum_ok_def oc_add_def) (simp add: sum_value_def)
  next
    case False
    then show ?thesis
      using x3 y3 y2l v by (simp add: sum_ok_def oc_add_def) (simp add: sum_value_def)
  qed
  then show ?thesis using fold by (simp add: x_def y_def)
qed

lemma checksum_loop_sum:
  assumes "sum_ok e d"
  shows "case checksum_loop bs e d of (e', d') \<Rightarrow> sum_ok e' d' \<and> sum_value e' d' = oc_sum (sum_value e d) (be_words bs)"
  using assms
proof (induction bs e d rule: checksum_loop.induct)
  case (1 e d)
  then show ?case by (simp add: oc_sum_def)
next
  case (2 a e d)
  then show ?case
    using checksum_fold_add [of e d "ucast a" 0] unat_u8_less [of a] by (simp add: oc_sum_def)
next
  case (3 a b bs e d)
  obtain e2 d2 where f: "checksum_fold (e + ucast a) (d + ucast b) = (e2, d2)" by (cases "checksum_fold (e + ucast a) (d + ucast b)")
  have "sum_ok e2 d2" "sum_value e2 d2 = oc_add (sum_value e d) (256 * unat a + unat b)"
    using checksum_fold_add [OF "3.prems", of "ucast a" "ucast b"] unat_u8_less [of a] unat_u8_less [of b] f by auto
  then show ?case using "3.IH" [OF f [symmetric]] f by (simp add: oc_sum_def)
qed

lemma sum_value_u16:
  assumes "sum_ok e d"
  shows "unat (push_bit 8 e + (d AND 0xFFFF)) = sum_value e d"
proof -
  have "(0xFFFF :: u16) = mask 16" by (simp add: mask_eq_exp_minus_1)
  moreover have "take_bit 16 d = d" by (rule bit_word_eqI) (auto simp: bit_simps)
  ultimately have "d AND 0xFFFF = d" by (metis take_bit_eq_mask)
  moreover have "unat (push_bit 8 e) = 256 * unat e"
    using assms unfolding unsigned_push_bit_eq by (simp add: push_bit_eq_mult take_bit_nat_def sum_ok_def)
  ultimately show ?thesis
    using assms unat_add_u16 [of "push_bit 8 e" d] by (simp add: sum_ok_def sum_value_def)
qed

lemma checksum_is_sum:
  assumes "load_bytes h data (unat len) = Inr bytes"
  shows "\<exists>r. ipv6_checksum_calculate h data len checksum flip = Inr r \<and>
    unat r = (let v = oc_sum (unat checksum) (be_words bytes) in if flip \<and> v = 65535 then 0 else v)"
proof -
  define e0 d0 where "e0 = byte_hi checksum" and "d0 = byte_lo checksum"
  have e0: "unat e0 = unat checksum div 256" and d0: "unat d0 = unat checksum mod 256"
    unfolding e0_def d0_def by (rule byte_hi_unat, rule byte_lo_unat)
  have v0: "sum_value e0 d0 = unat checksum" by (simp add: sum_value_def e0 d0)
  then have ok0: "sum_ok e0 d0"
    using unat_u16_less [of checksum] by (simp add: sum_ok_def sum_value_def e0 d0 div_less_iff_less_mult)
  obtain e d where l: "checksum_loop bytes e0 d0 = (e, d)" by (cases "checksum_loop bytes e0 d0")
  have s: "sum_ok e d" "sum_value e d = oc_sum (unat checksum) (be_words bytes)"
    using checksum_loop_sum [OF ok0, of bytes] l v0 by auto
  define r where "r = push_bit 8 e + (d AND 0xFFFF)"
  have r: "unat r = oc_sum (unat checksum) (be_words bytes)"
    using sum_value_u16 [OF s(1)] s(2) by (simp add: r_def)
  then have "r = 0xFFFF \<longleftrightarrow> oc_sum (unat checksum) (be_words bytes) = 65535"
    by (simp add: word_unat_eq_iff)
  then show ?thesis
    using r assms l by (simp add: ipv6_checksum_calculate_def e0_def [symmetric] d0_def [symmetric] r_def [symmetric] Let_def)
qed

text \<open>C33: \<open>ipv6_checksum_calculate\<close> computes the one's complement sum of RFC 1071: the start value and
  all 16-bit big-endian words of the data, an odd last byte padded with zero, added with the carry
  brought round; no carry is lost in the byte-wise sums of the code. With the flip flag the sum 0xFFFF
  becomes 0, so that its complement is not the value that means "no checksum".\<close>

theorem ipv6_checksum_is_ones_complement_sum:
  assumes "load_bytes h data (unat len) = Inr bytes"
  shows "\<exists>r. ipv6_checksum_calculate h data len checksum flip = Inr r \<and>
    unat r = (let v = oc_sum (unat checksum) (be_words bytes) in if flip \<and> v = 65535 then 0 else v)"
  using checksum_is_sum [OF assms] .

theorem ipv6_checksum_is_ones_complement_sum_witness:
  "\<exists>r. ipv6_checksum_calculate (\<lambda>a. if a = 100 then [0xFF, 0xFF, 0x00, 0x01, 0x80] else []) (Ptr 100 0) 5 0xFFFE False = Inr r \<and>
     unat r = 0x8000"
proof -
  let ?h = "\<lambda>a. if a = 100 then [0xFF, 0xFF, 0x00, 0x01, 0x80] else [] :: u8 list"
  have "load_bytes ?h (Ptr 100 0) (unat (5 :: u16)) = Inr [0xFF, 0xFF, 0x00, 0x01, 0x80]"
    by (simp add: arr_read_def)
  from ipv6_checksum_is_ones_complement_sum [OF this, of 65534 False] show ?thesis
    by (simp add: oc_sum_def oc_add_def)
qed

section \<open>Constants of the headers\<close>

definition IPV6_DEFAULT_VER_TC :: u8 where [c_consts]: "IPV6_DEFAULT_VER_TC = 0x60"
definition IPV6_DEFAULT_TC_FL :: u8 where [c_consts]: "IPV6_DEFAULT_TC_FL = 0"
definition IPV6_DEFAULT_FL :: u16 where [c_consts]: "IPV6_DEFAULT_FL = 0"
definition IPV6_NEXT_HEADER_UDP :: u8 where [c_consts]: "IPV6_NEXT_HEADER_UDP = 17"
definition IPV6_NEXT_HEADER_ICMP6 :: u8 where [c_consts]: "IPV6_NEXT_HEADER_ICMP6 = 58"
definition IPV6_NEXT_HEADER_RESERVED :: u8 where [c_consts]: "IPV6_NEXT_HEADER_RESERVED = 255"
definition IPV6_DEFAULT_HOP_LIMIT :: u8 where [c_consts]: "IPV6_DEFAULT_HOP_LIMIT = 64"
definition IPV6_IP_HEADER_SIZE :: u32 where [c_consts]: "IPV6_IP_HEADER_SIZE = 40"
definition ICMP6_HEADER_SIZE :: u32 where [c_consts]: "ICMP6_HEADER_SIZE = 4"
definition UDP_HEADER_SIZE :: u32 where [c_consts]: "UDP_HEADER_SIZE = 8"
definition COAP_HEADER_SIZE :: u32 where [c_consts]: "COAP_HEADER_SIZE = 4"

end
