(* ===== verification/Iot_Pbuffer.thy ===== *)
theory Iot_Pbuffer
  imports Mem_Manager Slot_Table Ipv6_Utils
begin

text \<open>
  The packet buffers of the IPv6 stack, \<^verbatim>\<open>components/iot/ipv6_stack/pbuffer/iot_pbuffer.c\<close>: a table of
  buffer descriptors with memory from the memory manager. A pointer to a descriptor is the distance in
  bytes from the start of the table, as the code computes it; \<open>None\<close> is NULL.
\<close>

section \<open>State\<close>

definition RAW_PACKET_TYPE :: u32 where [c_consts]: "RAW_PACKET_TYPE = 1"
definition IPV6_PACKET_TYPE :: u32 where [c_consts]: "IPV6_PACKET_TYPE = 2"
definition ICMP6_PACKET_TYPE :: u32 where [c_consts]: "ICMP6_PACKET_TYPE = 3"
definition UDP6_PACKET_TYPE :: u32 where [c_consts]: "UDP6_PACKET_TYPE = 4"
definition COAP_PACKET_TYPE :: u32 where [c_consts]: "COAP_PACKET_TYPE = 5"
definition PBUFFER_FLAG_DEFAULT :: u32 where [c_consts]: "PBUFFER_FLAG_DEFAULT = 0"
definition PBUFFER_FLAG_NO_MEM_ALLOCATION :: u32 where [c_consts]: "PBUFFER_FLAG_NO_MEM_ALLOCATION = 1"

text \<open>\<open>sizeof(pbuffer_t)\<close>: five words.\<close>

definition SIZEOF_PBUFFER :: u32 where [c_consts]: "SIZEOF_PBUFFER = 20"

record pbuffer_t =
  pb_type :: u32
  pb_memory :: ptr
  pb_payload :: ptr
  pb_length :: u32
  allocated_length :: u32

record iot_pbuffer_alloc_param_t =
  param_type :: u32
  param_flags :: u32
  param_length :: u32

record pbuf_state =
  m_pbuffer :: "pbuffer_t list"
  pb_initialized :: bool
  pb_mm :: mem_manager
  pb_heap :: heap

section \<open>Operations\<close>

definition pbuffer_init :: "pbuffer_t \<Rightarrow> pbuffer_t" where
  "pbuffer_init b = b\<lparr>pb_memory := NULL, pb_payload := NULL, pb_length := 0, pb_type := 0, allocated_length := 0\<rparr>"

definition type_offset_get :: "u32 \<Rightarrow> u32" where
  "type_offset_get type =
     (if type = RAW_PACKET_TYPE then 0
      else if type = IPV6_PACKET_TYPE then IPV6_IP_HEADER_SIZE
      else if type = ICMP6_PACKET_TYPE then IPV6_IP_HEADER_SIZE + ICMP6_HEADER_SIZE
      else if type = UDP6_PACKET_TYPE then IPV6_IP_HEADER_SIZE + UDP_HEADER_SIZE
      else if type = COAP_PACKET_TYPE then IPV6_IP_HEADER_SIZE + UDP_HEADER_SIZE + COAP_HEADER_SIZE
      else 0)"

definition pbuf_upd :: "pbuf_state \<Rightarrow> nat \<Rightarrow> (pbuffer_t \<Rightarrow> pbuffer_t) \<Rightarrow> pbuf_state" where
  "pbuf_upd s i f = s\<lparr>m_pbuffer := (m_pbuffer s)[i := f (m_pbuffer s ! i)]\<rparr>"

text \<open>The result is the error code, the index of the buffer where \<open>pp_buffer\<close> is written, and the state.\<close>

definition pbuffer_allocate :: "pbuf_state \<Rightarrow> u32 \<Rightarrow> u32 \<Rightarrow> u32 \<times> nat option \<times> pbuf_state" where
  "pbuffer_allocate s len flags =
     (case find_first (\<lambda>b. allocated_length b = 0) (m_pbuffer s) of
        None \<Rightarrow> (NRF_ERROR_NO_MEM OR IOT_PBUFFER_ERR_BASE, None, s)
      | Some i \<Rightarrow>
        let s1 = pbuf_upd s i (\<lambda>b. b\<lparr>allocated_length := len\<rparr>)
        in if flags = PBUFFER_FLAG_DEFAULT then
             (case nrf51_sdk_mem_alloc (pb_mm s1) (Some (pb_memory (m_pbuffer s1 ! i))) (Some len) of
                (err_code, pp, sz, mm) \<Rightarrow>
                  let s2 = (pbuf_upd s1 i (\<lambda>b. b\<lparr>pb_memory := the pp, allocated_length := the sz\<rparr>))\<lparr>pb_mm := mm\<rparr>
                  in if err_code = NRF_SUCCESS then (err_code, Some i, s2)
                     else (err_code, None, pbuf_upd s2 i (\<lambda>b. b\<lparr>allocated_length := 0\<rparr>)))
           else (NRF_SUCCESS, Some i, s1))"

text \<open>The check admits the address just behind the table.\<close>

definition pbuffer_find :: "u32 \<Rightarrow> u32 \<times> nat option" where
  "pbuffer_find diff =
     (if diff > SIZEOF_PBUFFER * of_nat IOT_PBUFFER_MAX_COUNT \<or> diff mod SIZEOF_PBUFFER \<noteq> 0
      then (NRF_ERROR_INVALID_ADDR OR IOT_PBUFFER_ERR_BASE, None)
      else (NRF_SUCCESS, Some (unat (diff div SIZEOF_PBUFFER))))"

definition iot_pbuffer_init :: "pbuf_state \<Rightarrow> u32 \<times> pbuf_state" where
  "iot_pbuffer_init s = (NRF_SUCCESS, s\<lparr>m_pbuffer := map pbuffer_init (m_pbuffer s), pb_initialized := True\<rparr>)"

text \<open>The checks of the parameters that allocation and reallocation share: an error code, if one fails.\<close>

definition alloc_param_error :: "iot_pbuffer_alloc_param_t \<Rightarrow> u32 option" where
  "alloc_param_error param =
     (if param_type param = 0 \<or> param_type param > COAP_PACKET_TYPE
      then Some (NRF_ERROR_INVALID_PARAM OR IOT_PBUFFER_ERR_BASE)
      else if param_flags param > PBUFFER_FLAG_NO_MEM_ALLOCATION
      then Some (NRF_ERROR_INVALID_PARAM OR IOT_PBUFFER_ERR_BASE)
      else if param_length param = 0 then Some (NRF_ERROR_INVALID_LENGTH OR IOT_PBUFFER_ERR_BASE)
      else None)"

definition iot_pbuffer_allocate ::
  "pbuf_state \<Rightarrow> iot_pbuffer_alloc_param_t option \<Rightarrow> u32 option option \<Rightarrow> u32 \<times> u32 option option \<times> pbuf_state" where
  "iot_pbuffer_allocate s p_param pp_pbuffer =
     (if \<not> pb_initialized s then (SDK_ERR_MODULE_NOT_INITIALZED OR IOT_PBUFFER_ERR_BASE, pp_pbuffer, s)
      else case p_param of
        None \<Rightarrow> (NRF_ERROR_NULL OR IOT_PBUFFER_ERR_BASE, pp_pbuffer, s)
      | Some param \<Rightarrow>
        if pp_pbuffer = None then (NRF_ERROR_NULL OR IOT_PBUFFER_ERR_BASE, pp_pbuffer, s)
        else case alloc_param_error param of
          Some e \<Rightarrow> (e, pp_pbuffer, s)
        | None \<Rightarrow>
          let off = type_offset_get (param_type param)
          in case pbuffer_allocate s (param_length param + off) (param_flags param) of
            (err_code, p, s1) \<Rightarrow>
              if err_code = NRF_SUCCESS then
                (let i = the p;
                     s2 = pbuf_upd s1 i (\<lambda>b. b\<lparr>pb_length := param_length param, pb_type := param_type param\<rparr>);
                     s3 = (if param_flags param \<noteq> PBUFFER_FLAG_NO_MEM_ALLOCATION
                           then pbuf_upd s2 i (\<lambda>b. b\<lparr>pb_payload := ptr_add (pb_memory b) (unat off)\<rparr>) else s2)
                 in (err_code, Some (Some (SIZEOF_PBUFFER * of_nat i)), s3))
              else (err_code, pp_pbuffer, s1))"

definition iot_pbuffer_reallocate ::
  "pbuf_state \<Rightarrow> iot_pbuffer_alloc_param_t option \<Rightarrow> u32 option \<Rightarrow> fault + u32 \<times> pbuf_state" where
  "iot_pbuffer_reallocate s p_param p_pbuffer =
     (if \<not> pb_initialized s then Inr (SDK_ERR_MODULE_NOT_INITIALZED OR IOT_PBUFFER_ERR_BASE, s)
      else case p_param of
        None \<Rightarrow> Inr (NRF_ERROR_NULL OR IOT_PBUFFER_ERR_BASE, s)
      | Some param \<Rightarrow>
        (case p_pbuffer of
           None \<Rightarrow> Inr (NRF_ERROR_NULL OR IOT_PBUFFER_ERR_BASE, s)
         | Some diff \<Rightarrow>
           (case alloc_param_error param of
              Some e \<Rightarrow> Inr (e, s)
            | None \<Rightarrow>
              (case pbuffer_find diff of
                 (err_code, p) \<Rightarrow>
                   if err_code \<noteq> NRF_SUCCESS then Inr (err_code, s)
                   else
                   let i = the p; off = type_offset_get (param_type param); realloc_len = param_length param + off
                   in c_bind (arr_get (m_pbuffer s) i) (\<lambda>b.
                      c_bind
                        (if realloc_len > allocated_length b \<and> param_flags param \<noteq> PBUFFER_FLAG_NO_MEM_ALLOCATION then
                           (case nrf51_sdk_mem_alloc (pb_mm s) (Some NULL) (Some realloc_len) of
                              (err_code, pp, sz, mm) \<Rightarrow>
                                if err_code = NRF_SUCCESS then
                                  c_bind (load_bytes (pb_heap s) (pb_memory b) (unat (allocated_length b))) (\<lambda>vs.
                                  c_bind (store_bytes (pb_heap s) (the pp) vs) (\<lambda>h.
                                  let s1 = s\<lparr>pb_mm := snd (nrf51_sdk_mem_free mm (pb_memory b)), pb_heap := h\<rparr>
                                  in Inr (err_code, pbuf_upd s1 i (\<lambda>b. b\<lparr>allocated_length := the sz,
                                        pb_memory := the pp, pb_length := param_length param\<rparr>))))
                                else Inr (err_code, s\<lparr>pb_mm := mm\<rparr>))
                         else Inr (NRF_SUCCESS, s)) (\<lambda>(err_code, s2).
                      if err_code = NRF_SUCCESS then
                        let s3 = pbuf_upd s2 i (\<lambda>b. b\<lparr>pb_length := param_length param, pb_type := param_type param\<rparr>)
                        in Inr (err_code,
                             if param_flags param = PBUFFER_FLAG_DEFAULT
                             then pbuf_upd s3 i (\<lambda>b. b\<lparr>pb_payload := ptr_add (pb_memory b) (unat off)\<rparr>) else s3)
                      else Inr (err_code, s2)))))))"

definition iot_pbuffer_free :: "pbuf_state \<Rightarrow> u32 option \<Rightarrow> bool \<Rightarrow> fault + u32 \<times> pbuf_state" where
  "iot_pbuffer_free s p_pbuffer free_flag =
     (if \<not> pb_initialized s then Inr (SDK_ERR_MODULE_NOT_INITIALZED OR IOT_PBUFFER_ERR_BASE, s)
      else case p_pbuffer of
        None \<Rightarrow> Inr (NRF_ERROR_NULL OR IOT_PBUFFER_ERR_BASE, s)
      | Some diff \<Rightarrow>
        (case pbuffer_find diff of
           (err_code, p) \<Rightarrow>
             if err_code = NRF_SUCCESS then
               let i = the p
               in c_bind (arr_get (m_pbuffer s) i) (\<lambda>b.
                  case (if free_flag then nrf51_sdk_mem_free (pb_mm s) (pb_memory b) else (err_code, pb_mm s)) of
                    (err_code, mm) \<Rightarrow> Inr (err_code, pbuf_upd (s\<lparr>pb_mm := mm\<rparr>) i pbuffer_init))
             else Inr (err_code, s)))"

section \<open>Invariant\<close>

interpretation pbufs: slot_table "\<lambda>b. allocated_length b = 0" pbuffer_init
  by unfold_locales (simp add: pbuffer_init_def)

text \<open>
  Every buffer in use owns a live block of the memory manager of the recorded size, and no two buffers
  share one. (This is for buffers allocated with memory, \<open>PBUFFER_FLAG_DEFAULT\<close>.)
\<close>

definition owns :: "mem_manager \<Rightarrow> pbuffer_t \<Rightarrow> bool" where
  "owns mm b \<longleftrightarrow> (\<exists>j < TOTAL_BLOCK_COUNT. pb_memory b = Ptr (block_offset j) 0 \<and>
     unat (allocated_length b) = block_bytes j \<and> pb_memory b \<in> mm_live mm)"

definition pbuf_inv :: "pbuf_state \<Rightarrow> bool" where
  "pbuf_inv s \<longleftrightarrow> pb_initialized s \<and> pool_inv (pb_mm s) \<and> pool_heap (pb_heap s) \<and>
     length (m_pbuffer s) = IOT_PBUFFER_MAX_COUNT \<and>
     (\<forall>i < IOT_PBUFFER_MAX_COUNT. allocated_length (m_pbuffer s ! i) \<noteq> 0 \<longrightarrow> owns (pb_mm s) (m_pbuffer s ! i)) \<and>
     (\<forall>i < IOT_PBUFFER_MAX_COUNT. \<forall>j < IOT_PBUFFER_MAX_COUNT. allocated_length (m_pbuffer s ! i) \<noteq> 0 \<longrightarrow>
        allocated_length (m_pbuffer s ! j) \<noteq> 0 \<longrightarrow> pb_memory (m_pbuffer s ! i) = pb_memory (m_pbuffer s ! j) \<longrightarrow> i = j)"

lemma owns_mono: "owns mm b \<Longrightarrow> mm_live mm \<subseteq> mm_live mm' \<Longrightarrow> owns mm' b"
  by (auto simp: owns_def)

lemma owns_live: "owns mm b \<Longrightarrow> pb_memory b \<in> mm_live mm"
  by (auto simp: owns_def)

lemma type_offset_cases: "type_offset_get t \<in> {0, 40, 44, 48, 52}"
  by (simp add: type_offset_get_def c_consts)

text \<open>Giving the free slot \<open>i\<close> a block that was not live keeps the invariant.\<close>

lemma pbuf_inv_fill:
  assumes inv: "pbuf_inv s" and i: "i < IOT_PBUFFER_MAX_COUNT" "allocated_length (m_pbuffer s ! i) = 0"
    and b: "pb_memory b \<notin> mm_live (pb_mm s)" "owns mm' b"
    and mm': "pool_inv mm'" "mm_live (pb_mm s) \<subseteq> mm_live mm'"
  shows "pbuf_inv (s\<lparr>pb_mm := mm', m_pbuffer := (m_pbuffer s)[i := b]\<rparr>)"
proof -
  let ?bs = "m_pbuffer s"
  have len: "length ?bs = IOT_PBUFFER_MAX_COUNT" using inv by (simp add: pbuf_inv_def)
  have own: "owns (pb_mm s) (?bs ! k)" if "k < IOT_PBUFFER_MAX_COUNT" "allocated_length (?bs ! k) \<noteq> 0" for k
    using inv that by (simp add: pbuf_inv_def)
  have uniq: "k = l" if "k < IOT_PBUFFER_MAX_COUNT" "l < IOT_PBUFFER_MAX_COUNT" "allocated_length (?bs ! k) \<noteq> 0"
      "allocated_length (?bs ! l) \<noteq> 0" "pb_memory (?bs ! k) = pb_memory (?bs ! l)" for k l
    using inv that unfolding pbuf_inv_def by blast
  have diff: "pb_memory (?bs ! k) \<noteq> pb_memory b" if "k < IOT_PBUFFER_MAX_COUNT" "allocated_length (?bs ! k) \<noteq> 0" for k
    using owns_live [OF own [OF that]] b(1) by auto
  show ?thesis
    unfolding pbuf_inv_def
  proof (intro conjI allI impI)
    show "pb_initialized (s\<lparr>pb_mm := mm', m_pbuffer := ?bs[i := b]\<rparr>)"
      "pool_heap (pb_heap (s\<lparr>pb_mm := mm', m_pbuffer := ?bs[i := b]\<rparr>))"
      using inv by (simp_all add: pbuf_inv_def)
    show "pool_inv (pb_mm (s\<lparr>pb_mm := mm', m_pbuffer := ?bs[i := b]\<rparr>))" using mm'(1) by simp
    show "length (m_pbuffer (s\<lparr>pb_mm := mm', m_pbuffer := ?bs[i := b]\<rparr>)) = IOT_PBUFFER_MAX_COUNT" using len by simp
  next
    fix k assume "k < IOT_PBUFFER_MAX_COUNT" "allocated_length (m_pbuffer (s\<lparr>pb_mm := mm', m_pbuffer := ?bs[i := b]\<rparr>) ! k) \<noteq> 0"
    then show "owns (pb_mm (s\<lparr>pb_mm := mm', m_pbuffer := ?bs[i := b]\<rparr>)) (m_pbuffer (s\<lparr>pb_mm := mm', m_pbuffer := ?bs[i := b]\<rparr>) ! k)"
      using b(2) owns_mono [OF own mm'(2)] len by (cases "k = i") simp_all
  next
    fix k l
    assume "k < IOT_PBUFFER_MAX_COUNT" "l < IOT_PBUFFER_MAX_COUNT"
      "allocated_length (m_pbuffer (s\<lparr>pb_mm := mm', m_pbuffer := ?bs[i := b]\<rparr>) ! k) \<noteq> 0"
      "allocated_length (m_pbuffer (s\<lparr>pb_mm := mm', m_pbuffer := ?bs[i := b]\<rparr>) ! l) \<noteq> 0"
      "pb_memory (m_pbuffer (s\<lparr>pb_mm := mm', m_pbuffer := ?bs[i := b]\<rparr>) ! k)
         = pb_memory (m_pbuffer (s\<lparr>pb_mm := mm', m_pbuffer := ?bs[i := b]\<rparr>) ! l)"
    then show "k = l"
      using len uniq [of k l] diff [of k] diff [of l] by (cases "k = i"; cases "l = i") auto
  qed
qed

text \<open>The memory a request needs: no wrap-around up to the largest block.\<close>

definition request_size :: "iot_pbuffer_alloc_param_t \<Rightarrow> nat" where
  "request_size param = unat (param_length param) + unat (type_offset_get (param_type param))"

lemma request_size_u32:
  assumes "request_size param < 4294967296"
  shows "unat (param_length param + type_offset_get (param_type param)) = request_size param"
  using assms unat_add_u32 by (simp add: request_size_def)

text \<open>The descriptor after the block \<open>j\<close> was allocated for it.\<close>

definition alloc_buffer :: "pbuffer_t \<Rightarrow> iot_pbuffer_alloc_param_t \<Rightarrow> nat \<Rightarrow> pbuffer_t" where
  "alloc_buffer b param j =
     b\<lparr>pb_memory := Ptr (block_offset j) 0, allocated_length := of_nat (block_bytes j), pb_length := param_length param,
       pb_type := param_type param, pb_payload := Ptr (block_offset j) (unat (type_offset_get (param_type param)))\<rparr>"

text \<open>A descriptor and a block of at least \<open>n\<close> bytes are free.\<close>

definition pbuf_room :: "pbuf_state \<Rightarrow> nat \<Rightarrow> bool" where
  "pbuf_room s n \<longleftrightarrow> (\<exists>b \<in> set (m_pbuffer s). allocated_length b = 0) \<and> room_for (pb_mm s) n"

text \<open>What an allocation with memory does, on either outcome.\<close>

lemma iot_pbuffer_alloc_cases:
  assumes "pb_initialized s" "pool_inv (pb_mm s)" "alloc_param_error param = None"
    and "param_flags param = PBUFFER_FLAG_DEFAULT" "request_size param < 4294967296"
  obtains (fail) e where "iot_pbuffer_allocate s (Some param) (Some p0) = (e, Some p0, s)" "e \<noteq> NRF_SUCCESS"
      "\<not> pbuf_room s (request_size param)"
  | (ok) i j mm' where "i < length (m_pbuffer s)" "allocated_length (m_pbuffer s ! i) = 0"
      "j < TOTAL_BLOCK_COUNT" "request_size param \<le> block_bytes j"
      "Ptr (block_offset j) 0 \<notin> mm_live (pb_mm s)" "pool_inv mm'"
      "mm_live mm' = insert (Ptr (block_offset j) 0) (mm_live (pb_mm s))"
      "iot_pbuffer_allocate s (Some param) (Some p0) = (NRF_SUCCESS, Some (Some (SIZEOF_PBUFFER * of_nat i)),
         s\<lparr>pb_mm := mm', m_pbuffer := (m_pbuffer s)[i := alloc_buffer (m_pbuffer s ! i) param j]\<rparr>)"
proof -
  define n where "n = param_length param + type_offset_get (param_type param)"
  have n: "unat n = request_size param" using request_size_u32 [OF assms(5)] by (simp add: n_def)
  have fl: "param_flags param = 0" "param_flags param \<noteq> PBUFFER_FLAG_NO_MEM_ALLOCATION"
    using assms(4) by (simp_all add: c_consts)
  show thesis
  proof (cases "find_first (\<lambda>b. allocated_length b = 0) (m_pbuffer s)")
    case None
    have "\<not> pbuf_room s (request_size param)"
      using None by (auto simp: pbuf_room_def find_first_None)
    moreover have "iot_pbuffer_allocate s (Some param) (Some p0) = (NRF_ERROR_NO_MEM OR IOT_PBUFFER_ERR_BASE, Some p0, s)"
      using assms(1,3) None by (simp add: iot_pbuffer_allocate_def pbuffer_allocate_def Let_def)
    ultimately show thesis using fail by simp
  next
    case (Some i)
    have i: "i < length (m_pbuffer s)" "allocated_length (m_pbuffer s ! i) = 0"
      using pbufs.free_slot [OF Some] by simp_all
    show thesis
      using assms(2)
    proof (cases rule: mem_alloc_outcome [of "pb_mm s" "pb_memory (m_pbuffer s ! i)" n])
      case (fail e)
      have "(m_pbuffer s)[i := (m_pbuffer s ! i)\<lparr>allocated_length := 0\<rparr>] = m_pbuffer s"
        using i by (simp add: list_update_same_conv)
      then have "iot_pbuffer_allocate s (Some param) (Some p0) = (e, Some p0, s)"
        using assms(1,3,4) Some i fail
        by (simp add: iot_pbuffer_allocate_def pbuffer_allocate_def n_def [symmetric] pbuf_upd_def Let_def)
      moreover have "\<not> pbuf_room s (request_size param)"
        using mem_alloc_room [OF assms(2), of "pb_memory (m_pbuffer s ! i)" n] fail n by (simp add: pbuf_room_def)
      ultimately show thesis using that(1) fail(2) by blast
    next
      case (ok j)
      have "iot_pbuffer_allocate s (Some param) (Some p0) = (NRF_SUCCESS, Some (Some (SIZEOF_PBUFFER * of_nat i)),
          s\<lparr>pb_mm := pb_mm s\<lparr>m_mem_pool := (m_mem_pool (pb_mm s))[j := (m_mem_pool (pb_mm s) ! j)\<lparr>is_free := False\<rparr>]\<rparr>,
            m_pbuffer := (m_pbuffer s)[i := alloc_buffer (m_pbuffer s ! i) param j]\<rparr>)"
        using assms(1,3,4) fl Some i ok(1)
        by (simp add: iot_pbuffer_allocate_def pbuffer_allocate_def n_def [symmetric] pbuf_upd_def Let_def alloc_buffer_def)
      then show thesis using that(2) i ok(2,4,6,7,8) n by metis
    qed
  qed
qed

text \<open>Allocating a packet buffer with memory either fails and changes nothing, or returns a descriptor that
  was free, with a block that was not live and belongs to no other packet buffer; the payload pointer leaves room
  for the headers of the lower layers in front and for the requested length behind. All buffers keep
  disjoint live blocks.\<close>

theorem iot_pbuffer_allocate_reserves:
  assumes "pbuf_inv s" "alloc_param_error param = None" "param_flags param = PBUFFER_FLAG_DEFAULT"
    and "request_size param < 4294967296"
  shows "\<exists>e p s'. iot_pbuffer_allocate s (Some param) (Some p0) = (e, Some p, s') \<and> pbuf_inv s' \<and>
    (if e \<noteq> NRF_SUCCESS then p = p0 \<and> s' = s
     else \<exists>i < IOT_PBUFFER_MAX_COUNT. \<exists>j < TOTAL_BLOCK_COUNT. let b = m_pbuffer s' ! i in
       p = Some (SIZEOF_PBUFFER * of_nat i) \<and> allocated_length (m_pbuffer s ! i) = 0 \<and>
       pb_memory b = Ptr (block_offset j) 0 \<and> pb_memory b \<notin> mm_live (pb_mm s) \<and>
       mm_live (pb_mm s') = insert (pb_memory b) (mm_live (pb_mm s)) \<and>
       pb_payload b = Ptr (block_offset j) (unat (type_offset_get (param_type param))) \<and>
       unat (type_offset_get (param_type param)) + unat (param_length param) \<le> block_bytes j \<and>
       pb_length b = param_length param \<and> pb_type b = param_type param)"
proof -
  have init: "pb_initialized s" and pool: "pool_inv (pb_mm s)" and len: "length (m_pbuffer s) = IOT_PBUFFER_MAX_COUNT"
    using assms(1) by (simp_all add: pbuf_inv_def)
  show ?thesis
  proof (cases rule: iot_pbuffer_alloc_cases [OF init pool assms(2,3,4), of p0, case_names fail ok])
    case (fail e)
    then show ?thesis using assms(1) by simp
  next
    case (ok i j mm')
    let ?b = "alloc_buffer (m_pbuffer s ! i) param j"
    have "owns mm' ?b" using ok(3,7) block_bytes_u32 [of j] by (auto simp: owns_def alloc_buffer_def)
    then have "pbuf_inv (s\<lparr>pb_mm := mm', m_pbuffer := (m_pbuffer s)[i := ?b]\<rparr>)"
      using ok(1,2,5,6,7) len assms(1) by (intro pbuf_inv_fill) (auto simp: alloc_buffer_def)
    moreover have "unat (type_offset_get (param_type param)) + unat (param_length param) \<le> block_bytes j"
      using ok(4) by (simp add: request_size_def)
    ultimately show ?thesis
      using ok len
      by - (rule exI [of _ NRF_SUCCESS], rule exI [of _ "Some (SIZEOF_PBUFFER * of_nat i)"], rule exI, rule conjI, assumption,
          simp, rule exI [of _ i], simp, rule exI [of _ j], simp add: alloc_buffer_def)
  qed
qed

definition sample_pbuf :: pbuf_state where
  "sample_pbuf = \<lparr>m_pbuffer = replicate 10 \<lparr>pb_type = 0, pb_memory = NULL, pb_payload = NULL, pb_length = 0, allocated_length = 0\<rparr>,
     pb_initialized = True, pb_mm = snd (nrf51_sdk_mem_init \<lparr>m_mem_pool = [], m_module_initialized = False\<rparr>),
     pb_heap = (\<lambda>a. if a < 1024 then replicate 128 0 else if a < 2048 then replicate 256 0 else replicate 1024 0)\<rparr>"

lemma sample_pbuf_inv: "pbuf_inv sample_pbuf"
proof -
  have "pool_inv (pb_mm sample_pbuf)"
    using mem_init_inv [of "\<lparr>m_mem_pool = [], m_module_initialized = False\<rparr>" NRF_SUCCESS]
    by (simp add: sample_pbuf_def nrf51_sdk_mem_init_def Let_def)
  moreover have "pool_heap (pb_heap sample_pbuf)"
    by (auto simp: pool_heap_def sample_pbuf_def block_offset_def block_bytes_eq c_consts)
  ultimately show ?thesis by (simp add: pbuf_inv_def) (simp add: sample_pbuf_def c_consts)
qed

theorem iot_pbuffer_allocate_reserves_witness:
  "\<exists>e p s'. iot_pbuffer_allocate sample_pbuf (Some \<lparr>param_type = 4, param_flags = 0, param_length = 100\<rparr>) (Some None) = (e, Some p, s') \<and>
     pbuf_inv s'"
proof -
  have "alloc_param_error \<lparr>param_type = 4, param_flags = 0, param_length = 100\<rparr> = None"
    by (simp add: alloc_param_error_def c_consts)
  moreover have "request_size \<lparr>param_type = 4, param_flags = 0, param_length = 100\<rparr> < 4294967296"
    by (simp add: request_size_def type_offset_get_def c_consts)
  ultimately show ?thesis
    using iot_pbuffer_allocate_reserves [OF sample_pbuf_inv, of "\<lparr>param_type = 4, param_flags = 0, param_length = 100\<rparr>" None]
    by (auto simp: PBUFFER_FLAG_DEFAULT_def)
qed

section \<open>Release\<close>

lemma pbuffer_find_index:
  assumes "i \<le> IOT_PBUFFER_MAX_COUNT"
  shows "pbuffer_find (SIZEOF_PBUFFER * of_nat i) = (NRF_SUCCESS, Some i)"
proof -
  have i: "i \<le> 10" using assms by (simp add: c_consts)
  have u: "unat (20 * of_nat i :: u32) = 20 * i" using i by (simp add: unat_word_ariths unat_of_nat)
  have d: "unat ((20 * of_nat i :: u32) div 20) = i" by (simp add: unat_div u)
  have m: "(20 * of_nat i :: u32) mod 20 = 0" by (simp add: word_unat_eq_iff unat_mod u)
  have "\<not> 200 < (20 * of_nat i :: u32)" using i by (simp add: word_less_nat_alt u)
  then show ?thesis using d m by (simp add: pbuffer_find_def c_consts)
qed

text \<open>Freeing a packet buffer in use gives its block back to the memory manager, makes the descriptor free and
  leaves all other buffers as they are.\<close>

theorem iot_pbuffer_free_releases:
  assumes "pbuf_inv s" "i < IOT_PBUFFER_MAX_COUNT" "allocated_length (m_pbuffer s ! i) \<noteq> 0"
  shows "\<exists>s'. iot_pbuffer_free s (Some (SIZEOF_PBUFFER * of_nat i)) True = Inr (NRF_SUCCESS, s') \<and> pbuf_inv s' \<and>
    allocated_length (m_pbuffer s' ! i) = 0 \<and> (\<forall>k. k \<noteq> i \<longrightarrow> m_pbuffer s' ! k = m_pbuffer s ! k) \<and>
    mm_live (pb_mm s') = mm_live (pb_mm s) - {pb_memory (m_pbuffer s ! i)}"
proof -
  let ?bs = "m_pbuffer s" and ?p = "pb_memory (m_pbuffer s ! i)"
  have len: "length ?bs = IOT_PBUFFER_MAX_COUNT" and pool: "pool_inv (pb_mm s)" and init: "pb_initialized s"
    using assms(1) by (simp_all add: pbuf_inv_def)
  have own: "owns (pb_mm s) (?bs ! k)" if "k < IOT_PBUFFER_MAX_COUNT" "allocated_length (?bs ! k) \<noteq> 0" for k
    using assms(1) that by (simp add: pbuf_inv_def)
  have uniq: "k = l" if "k < IOT_PBUFFER_MAX_COUNT" "l < IOT_PBUFFER_MAX_COUNT" "allocated_length (?bs ! k) \<noteq> 0"
      "allocated_length (?bs ! l) \<noteq> 0" "pb_memory (?bs ! k) = pb_memory (?bs ! l)" for k l
    using assms(1) that unfolding pbuf_inv_def by blast
  obtain mm' where f: "nrf51_sdk_mem_free (pb_mm s) ?p = (NRF_SUCCESS, mm')"
    using mem_free_live_succeeds [OF pool owns_live [OF own [OF assms(2,3)]]] by (metis prod.collapse)
  have live: "mm_live mm' = mm_live (pb_mm s) - {?p}" by (rule mem_free_live [OF pool f])
  let ?s' = "s\<lparr>pb_mm := mm', m_pbuffer := ?bs[i := pbuffer_init (?bs ! i)]\<rparr>"
  have free: "allocated_length (pbuffer_init b) = 0" for b by (simp add: pbuffer_init_def)
  have call: "iot_pbuffer_free s (Some (SIZEOF_PBUFFER * of_nat i)) True = Inr (NRF_SUCCESS, ?s')"
    using init f len assms(2) by (simp add: iot_pbuffer_free_def pbuffer_find_index pbuf_upd_def Let_def)
  have "owns mm' (?bs ! k)" if "k < IOT_PBUFFER_MAX_COUNT" "allocated_length (?bs ! k) \<noteq> 0" "k \<noteq> i" for k
    using own [OF that(1,2)] uniq [OF that(1) assms(2) that(2) assms(3)] that(3) by (auto simp: owns_def live)
  then have own': "allocated_length (?bs[i := pbuffer_init (?bs ! i)] ! k) \<noteq> 0 \<longrightarrow> owns mm' (?bs[i := pbuffer_init (?bs ! i)] ! k)"
    if "k < IOT_PBUFFER_MAX_COUNT" for k
    using that len free by (cases "k = i") simp_all
  have uniq': "k = l" if "k < IOT_PBUFFER_MAX_COUNT" "l < IOT_PBUFFER_MAX_COUNT"
      "allocated_length (?bs[i := pbuffer_init (?bs ! i)] ! k) \<noteq> 0" "allocated_length (?bs[i := pbuffer_init (?bs ! i)] ! l) \<noteq> 0"
      "pb_memory (?bs[i := pbuffer_init (?bs ! i)] ! k) = pb_memory (?bs[i := pbuffer_init (?bs ! i)] ! l)" for k l
    using that len free uniq by (cases "k = i"; cases "l = i") simp_all
  have "pbuf_inv ?s'"
    using assms(1) own' uniq' mem_free_inv [OF pool f] by (simp add: pbuf_inv_def)
  then show ?thesis using call live free len assms(2) by (intro exI [of _ ?s']) simp
qed

theorem iot_pbuffer_free_releases_witness:
  "\<exists>s s'. pbuf_inv s \<and> iot_pbuffer_free s (Some (SIZEOF_PBUFFER * of_nat 0)) True = Inr (NRF_SUCCESS, s') \<and>
     allocated_length (m_pbuffer s' ! 0) = 0"
proof -
  let ?mm = "pb_mm sample_pbuf\<lparr>m_mem_pool := (m_mem_pool (pb_mm sample_pbuf))[0 := (m_mem_pool (pb_mm sample_pbuf) ! 0)\<lparr>is_free := False\<rparr>]\<rparr>"
  let ?b = "\<lparr>pb_type = 1, pb_memory = Ptr (block_offset 0) 0, pb_payload = Ptr (block_offset 0) 0, pb_length = 10, allocated_length = 128\<rparr>"
  let ?s = "sample_pbuf\<lparr>pb_mm := ?mm, m_pbuffer := (m_pbuffer sample_pbuf)[0 := ?b]\<rparr>"
  have pool: "pool_inv (pb_mm sample_pbuf)" using sample_pbuf_inv by (simp add: pbuf_inv_def)
  have free: "is_free (m_mem_pool (pb_mm sample_pbuf) ! 0)"
    using mem_init_pool_nth [of "\<lparr>m_mem_pool = [], m_module_initialized = False\<rparr>" NRF_SUCCESS "pb_mm sample_pbuf" 0]
    by (simp add: sample_pbuf_def nrf51_sdk_mem_init_def Let_def c_consts)
  have first: "find_next is_free 0 (m_mem_pool (pb_mm sample_pbuf)) = Some 0"
    using pool free by (simp add: find_next_Some pool_inv_def c_consts)
  have "nrf51_sdk_mem_alloc (pb_mm sample_pbuf) (Some NULL) (Some 10)
      = (NRF_SUCCESS, Some (Ptr (block_offset 0) 0), Some (of_nat (block_bytes 0)), ?mm)"
    using pool free
    by (simp add: nrf51_sdk_mem_alloc_def pool_inv_def start_index_def first Let_def block_bytes_def c_consts)
  note a = mem_alloc_live [OF pool this] mem_alloc_inv [OF pool this]
  have "pbuf_inv ?s"
  proof (rule pbuf_inv_fill [OF sample_pbuf_inv])
    show "pb_memory ?b \<notin> mm_live (pb_mm sample_pbuf)" using a(1) by simp
    show "owns ?mm ?b" using a(2) by (auto simp: owns_def block_bytes_eq c_consts intro!: exI [of _ 0])
    show "pool_inv ?mm" by (rule a(4))
    show "mm_live (pb_mm sample_pbuf) \<subseteq> mm_live ?mm" using a(2) by auto
  qed (simp_all add: sample_pbuf_def c_consts)
  then show ?thesis
    using iot_pbuffer_free_releases [of ?s 0] by (auto simp: c_consts sample_pbuf_def)
qed

text \<open>A state with a received packet in the first block, and a descriptor for it.\<close>

definition sample_rx :: "u8 list \<Rightarrow> pbuffer_t \<Rightarrow> pbuf_state" where
  "sample_rx bytes b = sample_pbuf\<lparr>
     pb_mm := (pb_mm sample_pbuf)\<lparr>m_mem_pool := (m_mem_pool (pb_mm sample_pbuf))[0 := (m_mem_pool (pb_mm sample_pbuf) ! 0)\<lparr>is_free := False\<rparr>]\<rparr>,
     pb_heap := (pb_heap sample_pbuf)(0 := bytes), m_pbuffer := (m_pbuffer sample_pbuf)[0 := b]\<rparr>"

lemma sample_pool_nth:
  "i < TOTAL_BLOCK_COUNT \<Longrightarrow> is_free (m_mem_pool (pb_mm sample_pbuf) ! i) \<and> p_block (m_mem_pool (pb_mm sample_pbuf) ! i) = Ptr (block_offset i) 0"
  using mem_init_pool_nth [of "\<lparr>m_mem_pool = [], m_module_initialized = False\<rparr>" NRF_SUCCESS "pb_mm sample_pbuf" i]
  by (simp add: sample_pbuf_def nrf51_sdk_mem_init_def Let_def)

lemma sample_rx_pool:
  assumes "length bytes = 128"
  shows "pool_inv (pb_mm (sample_rx bytes b))" "pool_heap (pb_heap (sample_rx bytes b))"
    "Ptr 0 0 \<in> mm_live (pb_mm (sample_rx bytes b))" "pb_initialized (sample_rx bytes b)"
    "length (m_pbuffer (sample_rx bytes b)) = IOT_PBUFFER_MAX_COUNT" "m_pbuffer (sample_rx bytes b) ! 0 = b"
    "pb_heap (sample_rx bytes b) 0 = bytes" "0 < n \<Longrightarrow> n \<le> 1024 \<Longrightarrow> pbuf_room (sample_rx bytes b) n"
proof -
  have pool: "pool_inv (pb_mm sample_pbuf)" "pool_heap (pb_heap sample_pbuf)" "length (m_pbuffer sample_pbuf) = IOT_PBUFFER_MAX_COUNT"
    "pb_initialized sample_pbuf"
    using sample_pbuf_inv by (simp_all add: pbuf_inv_def)
  have z: "block_offset 0 = 0" by (simp add: block_offset_def c_consts)
  show "pool_inv (pb_mm (sample_rx bytes b))"
    using pool(1) by (auto simp: sample_rx_def pool_inv_def nth_list_update)
  have "block_offset i = 0 \<longleftrightarrow> i = 0" if "i < TOTAL_BLOCK_COUNT" for i
    using block_offset_inj [OF that, of 0] z by (simp add: c_consts)
  moreover have "block_bytes 0 = 128" by (simp add: block_bytes_eq)
  ultimately show "pool_heap (pb_heap (sample_rx bytes b))"
    using pool(2) assms by (auto simp: sample_rx_def pool_heap_def)
  show "Ptr 0 0 \<in> mm_live (pb_mm (sample_rx bytes b))"
    using pool(1) sample_pool_nth [of 0] z by (auto simp: sample_rx_def mm_live_iff pool_inv_def c_consts intro!: exI [of _ 0])
  show "pb_initialized (sample_rx bytes b)" "length (m_pbuffer (sample_rx bytes b)) = IOT_PBUFFER_MAX_COUNT"
    "m_pbuffer (sample_rx bytes b) ! 0 = b" "pb_heap (sample_rx bytes b) 0 = bytes"
    using pool by (simp_all add: sample_rx_def c_consts)
  assume n: "0 < n" "n \<le> 1024"
  have "m_pbuffer sample_pbuf ! 1 \<in> set (m_pbuffer (sample_rx bytes b))" "allocated_length (m_pbuffer sample_pbuf ! 1) = 0"
    by (simp_all add: sample_rx_def sample_pbuf_def eval_nat_numeral)
  moreover have "is_free (m_mem_pool (pb_mm (sample_rx bytes b)) ! 12)"
    using sample_pool_nth [of 12] by (simp add: sample_rx_def c_consts)
  ultimately show "pbuf_room (sample_rx bytes b) n"
    using n by (auto simp: pbuf_room_def room_for_def c_consts block_bytes_eq intro!: exI [of _ 12])
qed

section \<open>Limits of the checks\<close>

text \<open>The address just behind the table passes the check of \<open>pbuffer_find\<close> and is used as a descriptor.\<close>

theorem iot_pbuffer_free_past_end:
  assumes "pbuf_inv s"
  shows "iot_pbuffer_free s (Some (SIZEOF_PBUFFER * of_nat IOT_PBUFFER_MAX_COUNT)) free_flag = Inl OutOfBoundsRead"
  using assms pbuffer_find_index [of IOT_PBUFFER_MAX_COUNT]
  by (simp add: iot_pbuffer_free_def pbuf_inv_def arr_get_def Let_def)

text \<open>The sum of the requested length and the header offset may wrap around: a request for 4294967257
  bytes is then served with the smallest block.\<close>

theorem iot_pbuffer_allocate_wraps:
  assumes "param_type param = IPV6_PACKET_TYPE" "param_length param = 4294967257"
  shows "alloc_param_error (param\<lparr>param_flags := 0\<rparr>) = None \<and>
    unat (param_length param + type_offset_get (param_type param)) = 1"
  using assms by (simp add: alloc_param_error_def type_offset_get_def c_consts)

end
