(* ===== verification/Keyed_Table.thy ===== *)
theory Keyed_Table
  imports Slot_Table
begin

text \<open>
  Tables whose used elements carry a key, no key twice: such a table is a finite map from keys to
  elements. The observers (key: resource and remote) and the IPv6 contexts (key: context identifier)
  are stored this way.
\<close>

definition keys_unique :: "('e \<Rightarrow> 'k option) \<Rightarrow> 'e list \<Rightarrow> bool" where
  "keys_unique key xs \<longleftrightarrow>
     (\<forall>i < length xs. \<forall>j < length xs. key (xs ! i) \<noteq> None \<longrightarrow> key (xs ! i) = key (xs ! j) \<longrightarrow> i = j)"

definition table_map :: "('e \<Rightarrow> 'k option) \<Rightarrow> 'e list \<Rightarrow> 'k \<Rightarrow> 'e option" where
  "table_map key xs k = find (\<lambda>e. key e = Some k) xs"

lemma keys_unique_index:
  assumes "keys_unique key xs" "i < length xs" "j < length xs" "key (xs ! i) = Some k" "key (xs ! j) = Some k"
  shows "i = j"
proof -
  have "key (xs ! i) \<noteq> None \<longrightarrow> key (xs ! i) = key (xs ! j) \<longrightarrow> i = j"
    using assms(1-3) unfolding keys_unique_def by blast
  then show ?thesis using assms(4,5) by simp
qed

lemma table_map_Some:
  assumes "keys_unique key xs" "i < length xs" "key (xs ! i) = Some k"
  shows "table_map key xs k = Some (xs ! i)"
proof -
  have "key (xs ! j) \<noteq> Some k" if "j < i" for j
    using keys_unique_index [OF assms(1) _ assms(2) _ assms(3), of j] assms(2) that by auto
  then show ?thesis unfolding table_map_def find_Some_iff using assms(2,3) by blast
qed

lemma table_map_None: "table_map key xs k = None \<longleftrightarrow> (\<forall>i < length xs. key (xs ! i) \<noteq> Some k)"
  by (auto simp: table_map_def find_None_iff in_set_conv_nth)

lemma table_map_cases:
  assumes "table_map key xs k = Some e"
  obtains i where "i < length xs" "key (xs ! i) = Some k" "e = xs ! i"
  using assms by (auto simp: table_map_def find_Some_iff)

text \<open>Overwriting an element changes the map at the old and the new key of the element only.\<close>

lemma keys_unique_update:
  assumes "keys_unique key xs" "i < length xs"
    and "\<And>k j. key v = Some k \<Longrightarrow> j < length xs \<Longrightarrow> j \<noteq> i \<Longrightarrow> key (xs ! j) \<noteq> Some k"
  shows "keys_unique key (xs[i := v])"
  unfolding keys_unique_def
proof (intro allI impI)
  fix a b
  assume ab: "a < length (xs[i := v])" "b < length (xs[i := v])" "key (xs[i := v] ! a) \<noteq> None"
    "key (xs[i := v] ! a) = key (xs[i := v] ! b)"
  then obtain k where k: "key (xs[i := v] ! a) = Some k" "key (xs[i := v] ! b) = Some k" by auto
  show "a = b"
    using ab(1,2) k assms(2,3) keys_unique_index [OF assms(1), of a b k]
    by (cases "a = i"; cases "b = i") (auto simp: nth_list_update)
qed

lemma table_map_update:
  assumes "keys_unique key xs" "i < length xs" "keys_unique key (xs[i := v])"
  shows "table_map key (xs[i := v]) k =
    (if key v = Some k then Some v else if key (xs ! i) = Some k then None else table_map key xs k)"
proof -
  let ?xs' = "xs[i := v]"
  have l: "i < length ?xs'" using assms(2) by simp
  consider "key v = Some k" | "key v \<noteq> Some k" "key (xs ! i) = Some k"
    | "key v \<noteq> Some k" "key (xs ! i) \<noteq> Some k" by blast
  then show ?thesis
  proof cases
    case 1
    then show ?thesis using table_map_Some [OF assms(3) l, of k] assms(2) by simp
  next
    case 2
    have "key (?xs' ! j) \<noteq> Some k" if "j < length ?xs'" for j
      using that 2 assms(2) keys_unique_index [OF assms(1,2) _ 2(2), of j] by (auto simp: nth_list_update)
    then show ?thesis using 2 table_map_None [of key ?xs' k] by simp
  next
    case 3
    show ?thesis
    proof (cases "table_map key xs k")
      case None
      then have "key (?xs' ! j) \<noteq> Some k" if "j < length ?xs'" for j
        using that 3 assms(2) by (cases "j = i") (auto simp: table_map_None)
      then show ?thesis using 3 None table_map_None [of key ?xs' k] by simp
    next
      case (Some e)
      then obtain j where j: "j < length xs" "key (xs ! j) = Some k" "e = xs ! j"
        by (elim table_map_cases)
      then have "j \<noteq> i" using 3 by auto
      then show ?thesis using 3 j Some table_map_Some [OF assms(3), of j k] by simp
    qed
  qed
qed

text \<open>Clearing an element deletes its key; filling a free one, or the one with the same key, sets it.\<close>

lemma table_map_delete:
  assumes "keys_unique key xs" "i < length xs" "key (xs ! i) = Some k" "key v = None"
  shows "keys_unique key (xs[i := v]) \<and> table_map key (xs[i := v]) = (table_map key xs)(k := None)"
proof -
  have u: "keys_unique key (xs[i := v])" by (rule keys_unique_update [OF assms(1,2)]) (simp add: assms(4))
  then show ?thesis using table_map_update [OF assms(1,2) u] assms(3,4) by (auto simp: fun_eq_iff)
qed

lemma table_map_insert:
  assumes "keys_unique key xs" "i < length xs" "key v = Some k"
    and "key (xs ! i) = Some k \<or> key (xs ! i) = None \<and> table_map key xs k = None"
  shows "keys_unique key (xs[i := v]) \<and> table_map key (xs[i := v]) = (table_map key xs)(k \<mapsto> v)"
proof -
  have free: "key (xs ! j) \<noteq> Some k" if "j < length xs" "j \<noteq> i" for j
    using assms(4)
  proof
    assume "key (xs ! i) = Some k"
    then show ?thesis using keys_unique_index [OF assms(1,2) that(1)] that(2) by auto
  next
    assume "key (xs ! i) = None \<and> table_map key xs k = None"
    then show ?thesis using that(1) by (simp add: table_map_None)
  qed
  have u: "keys_unique key (xs[i := v])"
    by (rule keys_unique_update [OF assms(1,2)]) (use assms(3) free in auto)
  have old: "key (xs ! i) = Some k' \<Longrightarrow> k' = k" for k' using assms(4) by auto
  show ?thesis using u table_map_update [OF assms(1,2) u] assms(3) old by (auto simp: fun_eq_iff)
qed

text \<open>The number of keys is the number of elements that have one.\<close>

lemma table_map_card:
  assumes "keys_unique key xs"
  shows "card (dom (table_map key xs)) = count_if (\<lambda>e. key e \<noteq> None) xs"
proof -
  let ?used = "{i. i < length xs \<and> key (xs ! i) \<noteq> None}"
  have "bij_betw (\<lambda>i. the (key (xs ! i))) ?used (dom (table_map key xs))"
    unfolding bij_betw_def
  proof
    show "inj_on (\<lambda>i. the (key (xs ! i))) ?used"
      using keys_unique_index [OF assms] by (intro inj_onI) auto
    show "(\<lambda>i. the (key (xs ! i))) ` ?used = dom (table_map key xs)"
    proof (intro equalityI subsetI)
      fix k assume "k \<in> (\<lambda>i. the (key (xs ! i))) ` ?used"
      then obtain i where i: "i < length xs" "key (xs ! i) = Some k" by auto
      then show "k \<in> dom (table_map key xs)" using table_map_Some [OF assms i] by auto
    next
      fix k assume "k \<in> dom (table_map key xs)"
      then obtain e where "table_map key xs k = Some e" by auto
      then obtain i where "i < length xs" "key (xs ! i) = Some k" by (rule table_map_cases)
      then show "k \<in> (\<lambda>i. the (key (xs ! i))) ` ?used"
        by (intro image_eqI [of _ _ i]) auto
    qed
  qed
  then have "card ?used = card (dom (table_map key xs))" by (rule bij_betw_same_card)
  then show ?thesis by (simp add: count_if_def length_filter_conv_card)
qed

text \<open>The searching loop of the modules is the lookup in the map.\<close>

lemma find_key_None: "find_first (\<lambda>e. key e = Some k) xs = None \<longleftrightarrow> table_map key xs k = None"
  by (simp add: find_first_None table_map_None all_set_conv_all_nth)

lemma find_key_Some:
  assumes "keys_unique key xs"
  shows "find_first (\<lambda>e. key e = Some k) xs = Some i \<longleftrightarrow> i < length xs \<and> key (xs ! i) = Some k"
proof
  assume i: "i < length xs \<and> key (xs ! i) = Some k"
  have "key (xs ! j) \<noteq> Some k" if "j < i" for j
    using keys_unique_index [OF assms, of j i k] i that by auto
  then show "find_first (\<lambda>e. key e = Some k) xs = Some i" using i by (simp add: find_first_Some)
qed (simp add: find_first_Some)

end
