(* ===== verification/Ipv6_Address.thy ===== *)
theory Ipv6_Address
  imports Keyed_Table Ipv6_Utils "HOL-Library.Sublist"
begin

text \<open>
  The interfaces and addresses of the IPv6 stack, the tables of
  \<^verbatim>\<open>components/iot/ipv6_stack/ipv6/ipv6.c\<close>. An address is the list of its 16 bytes. The interface
  objects belong to the 6LoWPAN library; a pointer to one is its number, and the fields the stack uses
  are in the store \<open>if_objects\<close>.
\<close>

section \<open>State\<close>

definition IPV6_MAX_INTERFACE :: nat where [c_consts]: "IPV6_MAX_INTERFACE = 1"
definition IPV6_MAX_ADDRESS_PER_INTERFACE :: nat where [c_consts]: "IPV6_MAX_ADDRESS_PER_INTERFACE = 3"
definition IPV6_MAX_ADDRESS_COUNT :: nat where [c_consts]:
  "IPV6_MAX_ADDRESS_COUNT = IPV6_MAX_ADDRESS_PER_INTERFACE * IPV6_MAX_INTERFACE"
definition IPV6_INVALID_ADDR_INDEX :: u8 where [c_consts]: "IPV6_INVALID_ADDR_INDEX = 0xFF"
definition IPV6_IID_FLIP_VALUE :: u8 where [c_consts]: "IPV6_IID_FLIP_VALUE = 0x02"

definition IPV6_ADDR_ANY :: "u8 list" where "IPV6_ADDR_ANY = replicate 16 0"

datatype ipv6_addr_state_t =
  IPV6_ADDR_STATE_UNUSED | IPV6_ADDR_STATE_TENTATIVE | IPV6_ADDR_STATE_PREFERRED | IPV6_ADDR_STATE_DEPRECATED

record ipv6_addr_conf_t =
  conf_addr :: "u8 list"
  conf_state :: ipv6_addr_state_t

record interface_t =
  if_object :: "nat option"
  addr_range :: "u8 list"

record iot_interface_t =
  local_eui64 :: "u8 list"
  p_upper_stack :: u32

record ipv6_state =
  m_event_handler :: "nat option"
  m_address_table :: "ipv6_addr_conf_t list"
  m_interfaces :: "interface_t list"
  m_interfaces_count :: u32
  if_objects :: "nat \<Rightarrow> iot_interface_t"

section \<open>Well-known addresses\<close>

definition IPV6_ADDRESS_IS_ALL_NODE :: "u8 list \<Rightarrow> bool" where
  "IPV6_ADDRESS_IS_ALL_NODE a \<longleftrightarrow> a = [0xFF, 0x02] @ replicate 13 0 @ [0x01]"

definition IPV6_ADDRESS_IS_MLDV2_MCAST :: "u8 list \<Rightarrow> bool" where
  "IPV6_ADDRESS_IS_MLDV2_MCAST a \<longleftrightarrow> a = [0xFF, 0x02] @ replicate 13 0 @ [0x16]"

definition IPV6_CREATE_LINK_LOCAL_FROM_EUI64 :: "u8 list \<Rightarrow> u8 list" where
  "IPV6_CREATE_LINK_LOCAL_FROM_EUI64 eui64 =
     [0xFE, 0x80, 0, 0, 0, 0, 0, 0] @ (eui64[0 := eui64 ! 0 XOR IPV6_IID_FLIP_VALUE])"

section \<open>The address table\<close>

text \<open>A search returns the error code and, where \<open>p_index\<close> is written, the index.\<close>

definition addr_find :: "ipv6_state \<Rightarrow> u8 list \<Rightarrow> u32 \<times> nat option" where
  "addr_find s p_addr =
     (case find_first (\<lambda>c. conf_state c \<noteq> IPV6_ADDR_STATE_UNUSED \<and> conf_addr c = p_addr) (m_address_table s) of
        Some index \<Rightarrow> (NRF_SUCCESS, Some index)
      | None \<Rightarrow> (NRF_ERROR_NOT_FOUND OR IOT_IPV6_ERR_BASE, None))"

definition addr_find_free :: "ipv6_state \<Rightarrow> u32 \<times> nat option" where
  "addr_find_free s =
     (case find_first (\<lambda>c. conf_state c = IPV6_ADDR_STATE_UNUSED) (m_address_table s) of
        Some index \<Rightarrow> (NRF_SUCCESS, Some index)
      | None \<Rightarrow> (NRF_ERROR_NO_MEM OR IOT_IPV6_ERR_BASE, None))"

definition addr_clear :: "ipv6_addr_conf_t \<Rightarrow> ipv6_addr_conf_t" where
  "addr_clear c = c\<lparr>conf_state := IPV6_ADDR_STATE_UNUSED, conf_addr := replicate 16 0\<rparr>"

definition addr_free :: "ipv6_state \<Rightarrow> nat \<Rightarrow> bool \<Rightarrow> fault + ipv6_state" where
  "addr_free s addr_index check_references =
     (if check_references \<and> list_ex (\<lambda>it. list_ex (\<lambda>a. unat a = addr_index) (addr_range it)) (m_interfaces s)
      then Inr s
      else c_bind (arr_upd (m_address_table s) addr_index addr_clear) (\<lambda>t. Inr (s\<lparr>m_address_table := t\<rparr>)))"

fun addr_check_loop :: "ipv6_addr_conf_t list \<Rightarrow> u8 list \<Rightarrow> u8 list \<Rightarrow> fault + u32" where
  "addr_check_loop table [] p_addr = Inr NRF_ERROR_NOT_FOUND"
| "addr_check_loop table (a # rng) p_addr =
     (if a \<noteq> IPV6_INVALID_ADDR_INDEX then
        c_bind (arr_get table (unat a)) (\<lambda>c.
        if conf_addr c = p_addr \<or> IPV6_ADDRESS_IS_MLDV2_MCAST p_addr \<or> IPV6_ADDRESS_IS_ALL_NODE p_addr
        then Inr NRF_SUCCESS else addr_check_loop table rng p_addr)
      else addr_check_loop table rng p_addr)"

definition addr_check :: "ipv6_state \<Rightarrow> nat \<Rightarrow> u8 list \<Rightarrow> fault + u32" where
  "addr_check s interface_id p_addr =
     c_bind (arr_get (m_interfaces s) interface_id) (\<lambda>it. addr_check_loop (m_address_table s) (addr_range it) p_addr)"

text \<open>
  The entry is updated at the index \<open>index\<close> of the range of the interface, not at the index
  \<open>addr_index\<close> that was searched in the table of addresses.
\<close>

definition addr_set :: "ipv6_state \<Rightarrow> nat \<Rightarrow> ipv6_addr_conf_t \<Rightarrow> fault + u32 \<times> ipv6_state" where
  "addr_set s iface p_addr =
     (let interface_id = unat (p_upper_stack (if_objects s iface))
      in case (case addr_find s (conf_addr p_addr) of
                 (err_code, addr_index) \<Rightarrow>
                   if err_code \<noteq> NRF_SUCCESS then addr_find_free s else (err_code, addr_index)) of
        (err_code, addr_index) \<Rightarrow>
          if err_code = NRF_SUCCESS then
            c_bind (arr_get (m_interfaces s) interface_id) (\<lambda>it.
            case find_first (\<lambda>a. unat a = the addr_index) (addr_range it) of
              Some index \<Rightarrow>
                c_bind (arr_upd (m_address_table s) index (\<lambda>c. c\<lparr>conf_state := conf_state p_addr\<rparr>)) (\<lambda>t.
                Inr (NRF_SUCCESS, s\<lparr>m_address_table := t\<rparr>))
            | None \<Rightarrow>
                (case find_first (\<lambda>a. a = IPV6_INVALID_ADDR_INDEX) (addr_range it) of
                   Some index \<Rightarrow>
                     c_bind (arr_upd (m_address_table s) index
                              (\<lambda>c. c\<lparr>conf_state := conf_state p_addr, conf_addr := conf_addr p_addr\<rparr>)) (\<lambda>t.
                     Inr (NRF_SUCCESS, s\<lparr>m_address_table := t,
                       m_interfaces := (m_interfaces s)[interface_id :=
                         it\<lparr>addr_range := (addr_range it)[index := of_nat (the addr_index)]\<rparr>]\<rparr>))
                 | None \<Rightarrow> Inr (NRF_ERROR_NO_MEM OR IOT_IPV6_ERR_BASE, s)))
          else Inr (err_code, s))"

text \<open>The number of leading bits in which the addresses agree; \<open>byte_loop\<close> counts the high zero bits of \<open>temp\<close>.\<close>

fun byte_loop :: "nat \<Rightarrow> u8 \<Rightarrow> u32 \<Rightarrow> u32" where
  "byte_loop 0 temp match = match"
| "byte_loop (Suc n) temp match =
     (if temp AND 0x80 = 0 then byte_loop n (push_bit 1 temp) (match + 1) else match)"

fun addr_bit_loop :: "u8 list \<Rightarrow> u8 list \<Rightarrow> u32 \<Rightarrow> u32" where
  "addr_bit_loop (x # xs) (y # ys) match =
     (if x = y then addr_bit_loop xs ys (match + 8) else byte_loop 8 (x XOR y) match)"
| "addr_bit_loop _ _ match = match"

definition addr_bit_equal :: "u8 list \<Rightarrow> u8 list \<Rightarrow> u32" where
  "addr_bit_equal p_addr1 p_addr2 = addr_bit_loop p_addr1 p_addr2 0"

section \<open>The interface table\<close>

text \<open>The result is the error code and, where \<open>pp_interface\<close> is written, the interface.\<close>

definition interface_find :: "ipv6_state \<Rightarrow> u32 \<times> nat option" where
  "interface_find s =
     (if m_interfaces_count s = 1 then
        (case find_first (\<lambda>it. if_object it \<noteq> None) (m_interfaces s) of
           Some index \<Rightarrow> (NRF_SUCCESS, if_object (m_interfaces s ! index))
         | None \<Rightarrow> (NRF_ERROR_NOT_FOUND OR IOT_IPV6_ERR_BASE, None))
      else if m_interfaces_count s = 0 then (NRF_ERROR_NOT_FOUND OR IOT_IPV6_ERR_BASE, None)
      else (NRF_ERROR_NOT_SUPPORTED OR IOT_IPV6_ERR_BASE, None))"

definition range_upd :: "ipv6_state \<Rightarrow> nat \<Rightarrow> nat \<Rightarrow> u8 \<Rightarrow> ipv6_state" where
  "range_upd s ifn index a =
     s\<lparr>m_interfaces := (m_interfaces s)[ifn := (m_interfaces s ! ifn)\<lparr>addr_range := (addr_range (m_interfaces s ! ifn))[index := a]\<rparr>]\<rparr>"

text \<open>The address freed is the one at the index of the range, not the one the range refers to.\<close>

fun interface_reset_loop :: "ipv6_state \<Rightarrow> nat \<Rightarrow> nat list \<Rightarrow> fault + ipv6_state" where
  "interface_reset_loop s ifn [] = Inr s"
| "interface_reset_loop s ifn (index # is) =
     c_bind (arr_get (addr_range (m_interfaces s ! ifn)) index) (\<lambda>addr_index.
     if addr_index \<noteq> IPV6_INVALID_ADDR_INDEX then
       c_bind (addr_free (range_upd s ifn index IPV6_INVALID_ADDR_INDEX) index True) (\<lambda>s1.
       interface_reset_loop s1 ifn is)
     else interface_reset_loop s ifn is)"

definition interface_reset :: "ipv6_state \<Rightarrow> nat \<Rightarrow> fault + ipv6_state" where
  "interface_reset s ifn =
     c_bind (arr_upd (m_interfaces s) ifn (\<lambda>it. it\<lparr>if_object := None\<rparr>)) (\<lambda>its.
     interface_reset_loop (s\<lparr>m_interfaces := its\<rparr>) ifn [0..<IPV6_MAX_ADDRESS_PER_INTERFACE])"

definition interface_get_by_6lo :: "ipv6_state \<Rightarrow> nat \<Rightarrow> u32" where
  "interface_get_by_6lo s iface = p_upper_stack (if_objects s iface)"

text \<open>The result is the error code, the index where \<open>p_index\<close> is written, and the state.\<close>

definition interface_add :: "ipv6_state \<Rightarrow> nat \<Rightarrow> fault + u32 \<times> nat option \<times> ipv6_state" where
  "interface_add s iface =
     (case find_first (\<lambda>it. if_object it = None) (m_interfaces s) of
        Some index \<Rightarrow>
          let s1 = s\<lparr>m_interfaces := (m_interfaces s)[index := (m_interfaces s ! index)\<lparr>if_object := Some iface\<rparr>],
                     if_objects := (if_objects s)(iface := (if_objects s iface)\<lparr>p_upper_stack := of_nat index\<rparr>)\<rparr>;
              linklocal_addr = \<lparr>conf_addr = IPV6_CREATE_LINK_LOCAL_FROM_EUI64 (local_eui64 (if_objects s1 iface)),
                                conf_state = IPV6_ADDR_STATE_PREFERRED\<rparr>
          in c_bind (addr_set s1 iface linklocal_addr) (\<lambda>(err_code, s2). Inr (NRF_SUCCESS, Some index, s2))
      | None \<Rightarrow> Inr (NRF_ERROR_NO_MEM, None, s))"

definition interface_delete :: "ipv6_state \<Rightarrow> nat \<Rightarrow> fault + ipv6_state" where
  "interface_delete s index = interface_reset s index"

section \<open>Interface of the module\<close>

definition ipv6_address_set ::
  "ipv6_state \<Rightarrow> nat option \<Rightarrow> ipv6_addr_conf_t option \<Rightarrow> fault + u32 \<times> ipv6_state" where
  "ipv6_address_set s p_interface p_addr =
     (if m_event_handler s = None then Inr (SDK_ERR_MODULE_NOT_INITIALZED OR IOT_IPV6_ERR_BASE, s)
      else case p_addr of
        None \<Rightarrow> Inr (NRF_ERROR_NULL OR IOT_IPV6_ERR_BASE, s)
      | Some conf \<Rightarrow>
        (case p_interface of
           None \<Rightarrow> Inr (NRF_ERROR_NULL OR IOT_IPV6_ERR_BASE, s)
         | Some iface \<Rightarrow> addr_set s iface conf))"

text \<open>
  The loop over the addresses of the interface: \<open>match_best\<close> and the best address so far. The last one
  wins among equals.
\<close>

fun best_match_loop ::
  "ipv6_addr_conf_t list \<Rightarrow> u8 list \<Rightarrow> u8 list \<Rightarrow> u32 \<Rightarrow> u8 list option \<Rightarrow> fault + u8 list option" where
  "best_match_loop table [] p_addr_f match_best p_best_addr = Inr p_best_addr"
| "best_match_loop table (a # rng) p_addr_f match_best p_best_addr =
     (if a \<noteq> IPV6_INVALID_ADDR_INDEX then
        c_bind (arr_get table (unat a)) (\<lambda>c.
        if conf_state c = IPV6_ADDR_STATE_PREFERRED then
          let match_temp = addr_bit_equal p_addr_f (conf_addr c)
          in if match_temp \<ge> match_best
             then best_match_loop table rng p_addr_f match_temp (Some (conf_addr c))
             else best_match_loop table rng p_addr_f match_best p_best_addr
        else best_match_loop table rng p_addr_f match_best p_best_addr)
      else best_match_loop table rng p_addr_f match_best p_best_addr)"

text \<open>
  \<open>pp_interface\<close> and \<open>p_addr_r\<close> are the cells behind the two result pointers (\<open>None\<close> is NULL); the result
  is the error code and their new contents.
\<close>

definition ipv6_address_find_best_match ::
  "ipv6_state \<Rightarrow> nat option option \<Rightarrow> u8 list option \<Rightarrow> u8 list option \<Rightarrow>
   fault + u32 \<times> nat option option \<times> u8 list option" where
  "ipv6_address_find_best_match s pp_interface p_addr_r p_addr_f =
     (if m_event_handler s = None then Inr (SDK_ERR_MODULE_NOT_INITIALZED OR IOT_IPV6_ERR_BASE, pp_interface, p_addr_r)
      else case p_addr_f of
        None \<Rightarrow> Inr (NRF_ERROR_NULL OR IOT_IPV6_ERR_BASE, pp_interface, p_addr_r)
      | Some addr_f \<Rightarrow>
        if pp_interface = None then Inr (NRF_ERROR_NULL OR IOT_IPV6_ERR_BASE, pp_interface, p_addr_r)
        else case interface_find s of (err_code, found) \<Rightarrow>
          if err_code \<noteq> NRF_SUCCESS then Inr (err_code, pp_interface, p_addr_r)
          else if p_addr_r = None then Inr (err_code, Some found, p_addr_r)
          else
            let interface_id = unat (p_upper_stack (if_objects s (the found)))
            in c_bind (arr_get (m_interfaces s) interface_id) (\<lambda>it.
               c_bind (best_match_loop (m_address_table s) (addr_range it) addr_f 0 None) (\<lambda>p_best_addr.
               Inr (err_code, Some found, Some (case p_best_addr of None \<Rightarrow> replicate 16 0 | Some a \<Rightarrow> a)))))"

fun address_remove_loop :: "ipv6_state \<Rightarrow> nat \<Rightarrow> u8 list \<Rightarrow> nat list \<Rightarrow> fault + u32 \<times> ipv6_state" where
  "address_remove_loop s ifn p_addr [] = Inr (NRF_ERROR_NOT_FOUND OR IOT_IPV6_ERR_BASE, s)"
| "address_remove_loop s ifn p_addr (index # is) =
     c_bind (arr_get (m_interfaces s) ifn) (\<lambda>it.
     c_bind (arr_get (addr_range it) index) (\<lambda>addr_index.
     if addr_index \<noteq> IPV6_INVALID_ADDR_INDEX then
       c_bind (arr_get (m_address_table s) (unat addr_index)) (\<lambda>c.
       if conf_addr c = p_addr
       then c_bind (addr_free (range_upd s ifn index IPV6_INVALID_ADDR_INDEX) index True) (\<lambda>s1. Inr (NRF_SUCCESS, s1))
       else address_remove_loop s ifn p_addr is)
     else address_remove_loop s ifn p_addr is))"

definition ipv6_address_remove ::
  "ipv6_state \<Rightarrow> nat option \<Rightarrow> u8 list option \<Rightarrow> fault + u32 \<times> ipv6_state" where
  "ipv6_address_remove s p_interface p_addr =
     (if m_event_handler s = None then Inr (SDK_ERR_MODULE_NOT_INITIALZED OR IOT_IPV6_ERR_BASE, s)
      else case p_addr of
        None \<Rightarrow> Inr (NRF_ERROR_NULL OR IOT_IPV6_ERR_BASE, s)
      | Some addr \<Rightarrow>
        (case p_interface of
           None \<Rightarrow> Inr (NRF_ERROR_NULL OR IOT_IPV6_ERR_BASE, s)
         | Some iface \<Rightarrow>
           address_remove_loop s (unat (p_upper_stack (if_objects s iface))) addr [0..<IPV6_MAX_ADDRESS_PER_INTERFACE]))"

section \<open>The table as a map\<close>

text \<open>
  With one interface the range of the interface and the table of addresses move in step: the element
  \<open>i\<close> of the range is \<open>i\<close> where the entry \<open>i\<close> of the table is in use, and invalid otherwise. That is why
  the two indices, which the code mixes up, are always the same.
\<close>

definition addr_key :: "ipv6_addr_conf_t \<Rightarrow> u8 list option" where
  "addr_key c = (if conf_state c = IPV6_ADDR_STATE_UNUSED then None else Some (conf_addr c))"

definition range_entry :: "ipv6_addr_conf_t list \<Rightarrow> nat \<Rightarrow> u8" where
  "range_entry table i = (if addr_key (table ! i) = None then IPV6_INVALID_ADDR_INDEX else of_nat i)"

definition addr_inv :: "ipv6_state \<Rightarrow> bool" where
  "addr_inv s \<longleftrightarrow> length (m_interfaces s) = IPV6_MAX_INTERFACE \<and> length (m_address_table s) = IPV6_MAX_ADDRESS_COUNT \<and>
     keys_unique addr_key (m_address_table s) \<and>
     addr_range (m_interfaces s ! 0) = map (range_entry (m_address_table s)) [0..<IPV6_MAX_ADDRESS_PER_INTERFACE]"

definition addr_map :: "ipv6_state \<Rightarrow> u8 list \<Rightarrow> ipv6_addr_state_t option" where
  "addr_map s a = map_option conf_state (table_map addr_key (m_address_table s) a)"

lemma dom_addr_map: "dom (addr_map s) = dom (table_map addr_key (m_address_table s))"
  by (auto simp: addr_map_def dom_def)

lemma addr_key_Some: "addr_key c = Some a \<longleftrightarrow> conf_state c \<noteq> IPV6_ADDR_STATE_UNUSED \<and> conf_addr c = a"
  by (simp add: addr_key_def)

lemma addr_key_None: "addr_key c = None \<longleftrightarrow> conf_state c = IPV6_ADDR_STATE_UNUSED"
  by (simp add: addr_key_def)

lemma addr_inv_len:
  assumes "addr_inv s"
  shows "length (m_address_table s) = 3" "length (m_interfaces s) = 1" "length (addr_range (m_interfaces s ! 0)) = 3"
    "i < 3 \<Longrightarrow> addr_range (m_interfaces s ! 0) ! i = range_entry (m_address_table s) i"
  using assms by (simp_all add: addr_inv_def c_consts)

lemma unat_range_entry:
  "i < 3 \<Longrightarrow> j < 3 \<Longrightarrow> unat (range_entry table i) = j \<longleftrightarrow> addr_key (table ! i) \<noteq> None \<and> i = j"
  by (auto simp: range_entry_def c_consts unat_of_nat_u8)

lemma range_entry_invalid:
  assumes "i < 3"
  shows "range_entry table i = IPV6_INVALID_ADDR_INDEX \<longleftrightarrow> addr_key (table ! i) = None"
proof -
  have "(of_nat i :: u8) \<noteq> 255" using assms by (simp add: word_unat_eq_iff unat_of_nat_u8)
  then show ?thesis by (simp add: range_entry_def c_consts)
qed

lemma find_first_eqI:
  assumes "length xs = length ys" "\<And>i. i < length ys \<Longrightarrow> P (xs ! i) \<longleftrightarrow> Q (ys ! i)"
  shows "find_first P xs = find_first Q ys"
proof (cases "find_first Q ys")
  case None
  then have "find_first P xs = None" using assms by (simp add: find_first_None all_set_conv_all_nth)
  then show ?thesis using None by simp
next
  case (Some i)
  then have "find_first P xs = Some i" using assms by (auto simp: find_first_Some)
  then show ?thesis using Some by simp
qed

lemma range_find:
  assumes "addr_inv s" "i < 3"
  shows "find_first (\<lambda>a. unat a = i) (addr_range (m_interfaces s ! 0)) =
    (if addr_key (m_address_table s ! i) = None then None else Some i)"
proof (cases "addr_key (m_address_table s ! i) = None")
  case True
  then show ?thesis
    using assms addr_inv_len [OF assms(1)] unat_range_entry [of _ i "m_address_table s"]
    by (auto simp: find_first_None all_set_conv_all_nth)
next
  case False
  then show ?thesis
    using assms addr_inv_len [OF assms(1)] unat_range_entry [of _ i "m_address_table s"]
    by (auto simp: find_first_Some)
qed

lemma range_free:
  assumes "addr_inv s"
  shows "find_first (\<lambda>a. a = IPV6_INVALID_ADDR_INDEX) (addr_range (m_interfaces s ! 0)) =
    find_first (\<lambda>c. conf_state c = IPV6_ADDR_STATE_UNUSED) (m_address_table s)"
  using addr_inv_len [OF assms] range_entry_invalid [of _ "m_address_table s"]
  by (intro find_first_eqI) (simp_all add: addr_key_None)

lemma addr_find_key: "addr_find s a = (case find_first (\<lambda>c. addr_key c = Some a) (m_address_table s) of
   Some index \<Rightarrow> (NRF_SUCCESS, Some index) | None \<Rightarrow> (NRF_ERROR_NOT_FOUND OR IOT_IPV6_ERR_BASE, None))"
  by (simp add: addr_find_def addr_key_Some)

text \<open>An update of the entry \<open>i\<close> and of the range at \<open>i\<close> keeps them in step.\<close>

lemma addr_inv_upd:
  assumes "addr_inv s" "i < 3" "keys_unique addr_key ((m_address_table s)[i := c])"
    and "r = (if addr_key c = None then IPV6_INVALID_ADDR_INDEX else of_nat i)"
  shows "addr_inv (s\<lparr>m_address_table := (m_address_table s)[i := c],
    m_interfaces := (m_interfaces s)[0 := (m_interfaces s ! 0)\<lparr>addr_range := (addr_range (m_interfaces s ! 0))[i := r]\<rparr>]\<rparr>)"
proof -
  have "(map (range_entry (m_address_table s)) [0..<3])[i := r] = map (range_entry ((m_address_table s)[i := c])) [0..<3]"
    using assms(2,4) addr_inv_len [OF assms(1)]
    by (intro nth_equalityI) (auto simp: range_entry_def nth_list_update)
  then show ?thesis using assms by (simp add: addr_inv_def c_consts)
qed

lemma addr_inv_upd_same:
  assumes "addr_inv s" "i < 3" "keys_unique addr_key ((m_address_table s)[i := c])"
    and "addr_key (m_address_table s ! i) \<noteq> None" "addr_key c \<noteq> None"
  shows "addr_inv (s\<lparr>m_address_table := (m_address_table s)[i := c]\<rparr>)"
proof -
  have "map (range_entry (m_address_table s)) [0..<3] = map (range_entry ((m_address_table s)[i := c])) [0..<3]"
    using assms(2,4,5) addr_inv_len [OF assms(1)]
    by (intro nth_equalityI) (auto simp: range_entry_def nth_list_update)
  then show ?thesis using assms by (simp add: addr_inv_def c_consts)
qed

definition attached :: "ipv6_state \<Rightarrow> nat \<Rightarrow> bool" where
  "attached s iface \<longleftrightarrow> p_upper_stack (if_objects s iface) = 0"

lemma addr_set_updates:
  assumes "addr_inv s" "attached s iface" "conf_state c \<noteq> IPV6_ADDR_STATE_UNUSED"
  shows "\<exists>e s'. addr_set s iface c = Inr (e, s') \<and> addr_inv s' \<and> if_objects s' = if_objects s \<and>
    m_event_handler s' = m_event_handler s \<and> m_interfaces_count s' = m_interfaces_count s \<and>
    map if_object (m_interfaces s') = map if_object (m_interfaces s) \<and>
    (if addr_map s (conf_addr c) \<noteq> None \<or> card (dom (addr_map s)) < IPV6_MAX_ADDRESS_COUNT
     then e = NRF_SUCCESS \<and> addr_map s' = (addr_map s)(conf_addr c \<mapsto> conf_state c)
     else e = NRF_ERROR_NO_MEM OR IOT_IPV6_ERR_BASE \<and> s' = s)"
proof -
  let ?t = "m_address_table s" and ?a = "conf_addr c"
  have u: "keys_unique addr_key ?t" and len: "length ?t = 3" "length (m_interfaces s) = 1"
    using assms(1) addr_inv_len [OF assms(1)] by (simp_all add: addr_inv_def)
  have id0: "unat (p_upper_stack (if_objects s iface)) = 0" using assms(2) by (simp add: attached_def)
  show ?thesis
  proof (cases "table_map addr_key ?t ?a")
    case (Some e)
    then obtain i where i: "i < 3" "addr_key (?t ! i) = Some ?a" "e = ?t ! i"
      using len by (auto elim: table_map_cases)
    let ?c = "(?t ! i)\<lparr>conf_state := conf_state c\<rparr>"
    have k: "addr_key ?c = Some ?a" using i(2) assms(3) by (simp add: addr_key_Some)
    have ff: "find_first (\<lambda>c. addr_key c = Some ?a) ?t = Some i"
      using find_key_Some [OF u, of ?a i] i len by simp
    have ins: "keys_unique addr_key (?t[i := ?c])" "table_map addr_key (?t[i := ?c]) = (table_map addr_key ?t)(?a \<mapsto> ?c)"
      using table_map_insert [OF u _ k, of i] i len by auto
    let ?s = "s\<lparr>m_address_table := ?t[i := ?c]\<rparr>"
    have "addr_set s iface c = Inr (NRF_SUCCESS, ?s)"
      using range_find [OF assms(1) i(1)] i len id0 ff by (simp add: addr_set_def addr_find_key)
    moreover have "addr_inv ?s" by (rule addr_inv_upd_same [OF assms(1) i(1) ins(1)]) (simp_all add: i(2) k)
    moreover have "addr_map ?s = (addr_map s)(?a \<mapsto> conf_state c)" by (rule ext) (simp add: addr_map_def ins(2))
    moreover have "addr_map s ?a \<noteq> None" using Some by (simp add: addr_map_def)
    ultimately show ?thesis by simp
  next
    case None
    have nf: "find_first (\<lambda>c. addr_key c = Some ?a) ?t = None" using None find_key_None [of addr_key ?a ?t] by simp
    have card: "card (dom (addr_map s)) = count_if (\<lambda>c. addr_key c \<noteq> None) ?t"
      unfolding dom_addr_map by (rule table_map_card [OF u])
    have known: "addr_map s ?a = None" using None by (simp add: addr_map_def)
    show ?thesis
    proof (cases "find_first (\<lambda>c. conf_state c = IPV6_ADDR_STATE_UNUSED) ?t")
      case full: None
      then have "card (dom (addr_map s)) = 3"
        unfolding card using len count_if_full [of "\<lambda>c. addr_key c \<noteq> None" ?t] by (auto simp: find_first_None addr_key_None)
      moreover have "addr_set s iface c = Inr (NRF_ERROR_NO_MEM OR IOT_IPV6_ERR_BASE, s)"
        using full nf by (simp add: addr_set_def addr_find_key addr_find_free_def)
      ultimately show ?thesis using known assms(1) by (simp add: c_consts)
    next
      case (Some i)
      then have i: "i < 3" "addr_key (?t ! i) = None" using len by (auto simp: find_first_Some addr_key_None)
      let ?c = "(?t ! i)\<lparr>conf_state := conf_state c, conf_addr := ?a\<rparr>"
      have k: "addr_key ?c = Some ?a" using assms(3) by (simp add: addr_key_Some)
      have ins: "keys_unique addr_key (?t[i := ?c])" "table_map addr_key (?t[i := ?c]) = (table_map addr_key ?t)(?a \<mapsto> ?c)"
        using table_map_insert [OF u _ k, of i] i len None by auto
      let ?s = "s\<lparr>m_address_table := ?t[i := ?c],
        m_interfaces := (m_interfaces s)[0 := (m_interfaces s ! 0)\<lparr>addr_range := (addr_range (m_interfaces s ! 0))[i := of_nat i]\<rparr>]\<rparr>"
      have "addr_set s iface c = Inr (NRF_SUCCESS, ?s)"
        using range_find [OF assms(1) i(1)] range_free [OF assms(1)] i len id0 nf Some
        by (simp add: addr_set_def addr_find_key addr_find_free_def)
      moreover have "addr_inv ?s" by (rule addr_inv_upd [OF assms(1) i(1) ins(1)]) (simp add: k)
      moreover have "addr_map ?s = (addr_map s)(?a \<mapsto> conf_state c)" by (rule ext) (simp add: addr_map_def ins(2))
      moreover have "card (dom (addr_map s)) < 3"
        using card i len count_if_le [of "\<lambda>c. addr_key c \<noteq> None" ?t] count_if_full [of "\<lambda>c. addr_key c \<noteq> None" ?t]
        by (metis le_neq_implies_less nth_mem)
      moreover have "map if_object (m_interfaces ?s) = map if_object (m_interfaces s)"
        using len by (intro nth_equalityI) (auto simp: nth_list_update)
      ultimately show ?thesis by (simp add: c_consts)
    qed
  qed
qed

text \<open>Removing the entry \<open>i\<close>, as \<open>ipv6_address_remove\<close> and \<open>interface_reset\<close> do it.\<close>

lemma addr_entry_removed:
  assumes "addr_inv s" "i < 3" "addr_key (m_address_table s ! i) = Some a"
  obtains s' where "addr_free (range_upd s 0 i IPV6_INVALID_ADDR_INDEX) i True = Inr s'" "addr_inv s'"
    "addr_map s' = (addr_map s)(a := None)" "m_address_table s' = (m_address_table s)[i := addr_clear (m_address_table s ! i)]"
    "if_objects s' = if_objects s" "m_event_handler s' = m_event_handler s" "m_interfaces_count s' = m_interfaces_count s"
    "map if_object (m_interfaces s') = map if_object (m_interfaces s)"
proof -
  let ?t = "m_address_table s" and ?r = "addr_range (m_interfaces s ! 0)"
  have u: "keys_unique addr_key ?t" and len: "length ?t = 3" "length (m_interfaces s) = 1" "length ?r = 3"
    using assms(1) addr_inv_len [OF assms(1)] by (simp_all add: addr_inv_def)
  let ?c = "addr_clear (?t ! i)"
  have k: "addr_key ?c = None" by (simp add: addr_key_None addr_clear_def)
  have del: "keys_unique addr_key (?t[i := ?c])" "table_map addr_key (?t[i := ?c]) = (table_map addr_key ?t)(a := None)"
    using table_map_delete [OF u _ assms(3) k] assms(2) len by auto
  let ?s = "s\<lparr>m_address_table := ?t[i := ?c],
    m_interfaces := (m_interfaces s)[0 := (m_interfaces s ! 0)\<lparr>addr_range := ?r[i := IPV6_INVALID_ADDR_INDEX]\<rparr>]\<rparr>"
  obtain it where its: "m_interfaces s = [it]" using len(2) by (cases "m_interfaces s") auto
  have "unat x \<noteq> i" if mem: "x \<in> set (?r[i := IPV6_INVALID_ADDR_INDEX])" for x
  proof -
    obtain j where "j < 3" "x = ?r[i := IPV6_INVALID_ADDR_INDEX] ! j"
      using mem len(3) by (auto simp: in_set_conv_nth)
    then show ?thesis
      using assms(2) len addr_inv_len(4) [OF assms(1), of j] unat_range_entry [of j i ?t]
      by (cases "j = i") (auto simp: c_consts)
  qed
  then have "addr_free (range_upd s 0 i IPV6_INVALID_ADDR_INDEX) i True = Inr ?s"
    using its assms(2) len by (auto simp: addr_free_def range_upd_def list_ex_iff)
  moreover have "addr_inv ?s" by (rule addr_inv_upd [OF assms(1,2) del(1)]) (simp add: k)
  moreover have "addr_map ?s = (addr_map s)(a := None)" by (rule ext) (simp add: addr_map_def del(2))
  ultimately show ?thesis by (intro that [of ?s]) (simp_all add: its)
qed

lemma address_remove_loop_find:
  assumes "addr_inv s" "\<forall>i \<in> set is. i < 3"
  shows "address_remove_loop s 0 a is =
    (case find (\<lambda>i. addr_key (m_address_table s ! i) = Some a) is of
       Some i \<Rightarrow> c_bind (addr_free (range_upd s 0 i IPV6_INVALID_ADDR_INDEX) i True) (\<lambda>s1. Inr (NRF_SUCCESS, s1))
     | None \<Rightarrow> Inr (NRF_ERROR_NOT_FOUND OR IOT_IPV6_ERR_BASE, s))"
  using assms(2)
proof (induction "is")
  case (Cons i "is")
  have len: "length (m_address_table s) = 3" "length (m_interfaces s) = 1" "length (addr_range (m_interfaces s ! 0)) = 3"
    by (rule addr_inv_len [OF assms(1)])+
  have i: "i < 3" using Cons.prems by simp
  show ?case
  proof (cases "addr_key (m_address_table s ! i)")
    case None
    then show ?thesis
      using Cons i len addr_inv_len(4) [OF assms(1) i] range_entry_invalid [OF i, of "m_address_table s"] by simp
  next
    case (Some b)
    have "unat (range_entry (m_address_table s) i) = i" using i Some by (simp add: unat_range_entry)
    then show ?thesis
      using Cons i len Some addr_inv_len(4) [OF assms(1) i] range_entry_invalid [OF i, of "m_address_table s"]
      by (auto simp: addr_key_Some)
  qed
qed simp

lemma addr_remove_deletes:
  assumes "addr_inv s"
  shows "\<exists>e s'. address_remove_loop s 0 a [0..<IPV6_MAX_ADDRESS_PER_INTERFACE] = Inr (e, s') \<and> addr_inv s' \<and>
    if_objects s' = if_objects s \<and> m_event_handler s' = m_event_handler s \<and>
    (if addr_map s a \<noteq> None then e = NRF_SUCCESS \<and> addr_map s' = (addr_map s)(a := None)
     else e = NRF_ERROR_NOT_FOUND OR IOT_IPV6_ERR_BASE \<and> s' = s)"
proof -
  let ?t = "m_address_table s" and ?is = "[0..<IPV6_MAX_ADDRESS_PER_INTERFACE]"
  have u: "keys_unique addr_key ?t" using assms by (simp add: addr_inv_def)
  have lt: "\<forall>i \<in> set ?is. i < 3" and len: "length ?t = 3" using addr_inv_len [OF assms] by (simp_all add: c_consts)
  show ?thesis
  proof (cases "find (\<lambda>i. addr_key (?t ! i) = Some a) ?is")
    case None
    then have "\<forall>i < 3. addr_key (?t ! i) \<noteq> Some a" by (simp add: find_None_iff c_consts)
    then have "addr_map s a = None" using len table_map_None [of addr_key ?t a] by (simp add: addr_map_def)
    then show ?thesis using None assms address_remove_loop_find [OF assms lt, of a] by simp
  next
    case (Some i)
    then have i: "i < 3" "addr_key (?t ! i) = Some a" by (auto simp: find_Some_iff c_consts)
    have "addr_map s a \<noteq> None" using table_map_Some [OF u _ i(2)] i len by (simp add: addr_map_def)
    moreover obtain s' where s': "addr_free (range_upd s 0 i IPV6_INVALID_ADDR_INDEX) i True = Inr s'" "addr_inv s'"
      "addr_map s' = (addr_map s)(a := None)" "if_objects s' = if_objects s" "m_event_handler s' = m_event_handler s"
      by (rule addr_entry_removed [OF assms i])
    ultimately show ?thesis
      using Some address_remove_loop_find [OF assms lt, of a] by simp
  qed
qed

lemma interface_reset_loop_clears:
  assumes "addr_inv s" "\<forall>i \<in> set is. i < 3"
  shows "\<exists>s'. interface_reset_loop s 0 is = Inr s' \<and> addr_inv s' \<and> if_objects s' = if_objects s \<and>
    map if_object (m_interfaces s') = map if_object (m_interfaces s) \<and>
    (\<forall>i < 3. addr_key (m_address_table s' ! i) = (if i \<in> set is then None else addr_key (m_address_table s ! i)))"
  using assms
proof (induction "is" arbitrary: s)
  case (Cons i "is")
  note inv = Cons.prems(1)
  have i: "i < 3" and "is": "\<forall>i \<in> set is. i < 3" using Cons.prems(2) by simp_all
  have len: "length (m_address_table s) = 3" "length (addr_range (m_interfaces s ! 0)) = 3" by (rule addr_inv_len [OF inv])+
  show ?case
  proof (cases "addr_key (m_address_table s ! i)")
    case None
    then have "addr_range (m_interfaces s ! 0) ! i = IPV6_INVALID_ADDR_INDEX"
      using addr_inv_len(4) [OF inv i] range_entry_invalid [OF i, of "m_address_table s"] by simp
    then show ?thesis using Cons.IH [OF inv "is"] None i len by (auto simp: arr_get_def)
  next
    case (Some a)
    then have r: "addr_range (m_interfaces s ! 0) ! i \<noteq> IPV6_INVALID_ADDR_INDEX"
      using addr_inv_len(4) [OF inv i] range_entry_invalid [OF i, of "m_address_table s"] by simp
    obtain t where t: "addr_free (range_upd s 0 i IPV6_INVALID_ADDR_INDEX) i True = Inr t" "addr_inv t"
      "m_address_table t = (m_address_table s)[i := addr_clear (m_address_table s ! i)]"
      "if_objects t = if_objects s" "map if_object (m_interfaces t) = map if_object (m_interfaces s)"
      by (rule addr_entry_removed [OF inv i Some])
    have "addr_key (addr_clear c) = None" for c by (simp add: addr_key_def addr_clear_def)
    then have k: "addr_key (m_address_table t ! j) = (if j = i then None else addr_key (m_address_table s ! j))" if "j < 3" for j
      using that t(3) i len by (simp add: nth_list_update)
    obtain s' where "interface_reset_loop t 0 is = Inr s'" "addr_inv s'" "if_objects s' = if_objects t"
      "map if_object (m_interfaces s') = map if_object (m_interfaces t)"
      "\<forall>i < 3. addr_key (m_address_table s' ! i) = (if i \<in> set is then None else addr_key (m_address_table t ! i))"
      using Cons.IH [OF t(2) "is"] by blast
    then show ?thesis using t(1,2,4,5) r k i len by (auto simp: arr_get_def)
  qed
qed simp

text \<open>Deleting the interface deletes all its addresses.\<close>

lemma interface_delete_clears:
  assumes "addr_inv s"
  shows "\<exists>s'. interface_delete s 0 = Inr s' \<and> addr_inv s' \<and> addr_map s' = (\<lambda>_. None) \<and>
    if_object (m_interfaces s' ! 0) = None \<and> if_objects s' = if_objects s"
proof -
  let ?s = "s\<lparr>m_interfaces := (m_interfaces s)[0 := (m_interfaces s ! 0)\<lparr>if_object := None\<rparr>]\<rparr>"
  have len: "length (m_interfaces s) = 1" by (rule addr_inv_len [OF assms])
  then have inv: "addr_inv ?s" using assms by (simp add: addr_inv_def c_consts)
  have "\<forall>i \<in> set [0..<IPV6_MAX_ADDRESS_PER_INTERFACE]. i < 3" by (simp add: c_consts)
  from interface_reset_loop_clears [OF inv this] obtain s' where
    s': "interface_reset_loop ?s 0 [0..<IPV6_MAX_ADDRESS_PER_INTERFACE] = Inr s'" "addr_inv s'" "if_objects s' = if_objects s"
      "map if_object (m_interfaces s') = map if_object (m_interfaces ?s)"
      "\<forall>i < 3. addr_key (m_address_table s' ! i) = (if i \<in> set [0..<IPV6_MAX_ADDRESS_PER_INTERFACE] then None else addr_key (m_address_table ?s ! i))"
    by auto
  have "addr_map s' = (\<lambda>_. None)"
    using s'(5) addr_inv_len(1) [OF s'(2)] by (auto simp: addr_map_def fun_eq_iff table_map_None c_consts)
  moreover have "map if_object (m_interfaces s') ! 0 = None" unfolding s'(4) using len by simp
  then have "if_object (m_interfaces s' ! 0) = None" using addr_inv_len(2) [OF s'(2)] by simp
  ultimately show ?thesis using s' len by (simp add: interface_delete_def interface_reset_def)
qed

section \<open>The length of the common prefix\<close>

text \<open>The bits of an address, the most significant first.\<close>

definition byte_bits :: "u8 \<Rightarrow> bool list" where
  "byte_bits b = map (bit b) [7, 6, 5, 4, 3, 2, 1, 0]"

definition addr_bits :: "u8 list \<Rightarrow> bool list" where
  "addr_bits a = concat (map byte_bits a)"

definition common_bits :: "u8 list \<Rightarrow> u8 list \<Rightarrow> nat" where
  "common_bits a b = length (longest_common_prefix (addr_bits a) (addr_bits b))"

lemma top_bit: "(x :: u8) AND 0x80 = 0 \<longleftrightarrow> \<not> bit x 7"
  using and_exp_eq_0_iff_not_bit [of x 7] by simp

lemma byte_loop_shifted:
  "n + k = 8 \<Longrightarrow> byte_loop n (push_bit k x) match = match + of_nat (length (takeWhile Not (map (bit x) (rev [0..<n]))))"
proof (induction n arbitrary: k match)
  case (Suc n)
  have "bit (push_bit k x) 7 = bit x n" using Suc.prems by (auto simp: bit_push_bit_iff elim: back_subst [of "bit x"])
  moreover have "push_bit 1 (push_bit k x) = push_bit (Suc k) x" by (simp add: ac_simps)
  moreover have "byte_loop n (push_bit (Suc k) x) (match + 1) =
      match + 1 + of_nat (length (takeWhile Not (map (bit x) (rev [0..<n]))))"
    using Suc.IH [of "Suc k"] Suc.prems by simp
  ultimately show ?case by (simp only: byte_loop.simps top_bit) simp
qed simp

lemma byte_bits_rev: "byte_bits x = map (bit x) (rev [0..<8])"
  by (simp add: byte_bits_def upt_rec eval_nat_numeral)

lemma byte_loop_bits: "byte_loop 8 x match = match + of_nat (length (takeWhile Not (byte_bits x)))"
  using byte_loop_shifted [of 8 0 x match] by (simp add: byte_bits_rev)

lemma lcp_differ:
  "length xs = length ys \<Longrightarrow> xs \<noteq> ys \<Longrightarrow>
   length (longest_common_prefix (xs @ xs') (ys @ ys')) = length (takeWhile (\<lambda>(a, b). a = b) (zip xs ys))"
proof (induction xs arbitrary: ys)
  case (Cons x xs)
  then show ?case by (cases ys) auto
qed simp

lemma byte_bits_inj: "byte_bits x = byte_bits y \<longleftrightarrow> x = y"
proof
  assume "byte_bits x = byte_bits y"
  then have "bit x i = bit y i" if "i < 8" for i
    using that by (auto simp: byte_bits_def less_Suc_eq numeral_nat)
  then show "x = y" by (intro bit_word_eqI) simp
qed simp

lemma xor_bits: "length (takeWhile Not (byte_bits (x XOR y))) = length (takeWhile (\<lambda>(a, b). a = b) (zip (byte_bits x) (byte_bits y)))"
  by (simp add: byte_bits_def bit_xor_iff)

lemma lcp_append_same: "longest_common_prefix (xs @ as) (xs @ bs) = xs @ longest_common_prefix as bs"
  by (induction xs) auto

lemma addr_bit_loop_bits:
  "addr_bit_loop xs ys match = match + of_nat (length (longest_common_prefix (addr_bits xs) (addr_bits ys)))"
  if "length xs = length ys"
  using that
proof (induction xs ys match rule: addr_bit_loop.induct)
  case (1 x xs y ys match)
  show ?case
  proof (cases "x = y")
    case True
    have "length (byte_bits y) = 8" by (simp add: byte_bits_def)
    then show ?thesis using 1 True by (simp add: addr_bits_def lcp_append_same)
  next
    case False
    have "length (byte_bits x) = length (byte_bits y)" "byte_bits x \<noteq> byte_bits y"
      using False byte_bits_inj [of x y] by (simp_all add: byte_bits_def)
    from lcp_differ [OF this] show ?thesis
      using False by (simp add: byte_loop_bits addr_bits_def xor_bits)
  qed
qed (simp_all add: addr_bits_def)

lemma length_addr_bits: "length (addr_bits a) = 8 * length a"
  by (induction a) (simp_all add: addr_bits_def byte_bits_def)

lemma common_bits_le: "common_bits a b \<le> 8 * length a"
  using longest_common_prefix_prefix1 [of "addr_bits a" "addr_bits b"] length_addr_bits [of a]
  by (metis common_bits_def prefix_length_le)

lemma addr_bit_equal_common:
  assumes "length a = 16" "length b = 16"
  shows "unat (addr_bit_equal a b) = common_bits a b"
proof -
  have "common_bits a b < 4294967296" using common_bits_le [of a b] assms by simp
  then show ?thesis
    using addr_bit_loop_bits [of a b 0] assms by (simp add: addr_bit_equal_def common_bits_def unat_of_nat_u32)
qed

section \<open>Properties\<close>

text \<open>Calls of the interface, and what they do to a map of at most 3 addresses.\<close>

datatype addr_op = SetAddress ipv6_addr_conf_t | RemoveAddress "u8 list"

fun addr_exec :: "ipv6_state \<Rightarrow> nat \<Rightarrow> addr_op list \<Rightarrow> fault + u32 list \<times> ipv6_state" where
  "addr_exec s iface [] = Inr ([], s)"
| "addr_exec s iface (op # ops) =
     c_bind (case op of SetAddress c \<Rightarrow> ipv6_address_set s (Some iface) (Some c)
                      | RemoveAddress a \<Rightarrow> ipv6_address_remove s (Some iface) (Some a)) (\<lambda>(e, s1).
     c_bind (addr_exec s1 iface ops) (\<lambda>(es, s2). Inr (e # es, s2)))"

fun addr_spec :: "(u8 list \<Rightarrow> ipv6_addr_state_t option) \<Rightarrow> addr_op list \<Rightarrow>
  u32 list \<times> (u8 list \<Rightarrow> ipv6_addr_state_t option)" where
  "addr_spec m [] = ([], m)"
| "addr_spec m (op # ops) =
     (let (e, m1) = (case op of
        SetAddress c \<Rightarrow>
          if conf_addr c \<in> dom m \<or> card (dom m) < IPV6_MAX_ADDRESS_COUNT
          then (NRF_SUCCESS, m(conf_addr c \<mapsto> conf_state c)) else (NRF_ERROR_NO_MEM OR IOT_IPV6_ERR_BASE, m)
      | RemoveAddress a \<Rightarrow>
          if a \<in> dom m then (NRF_SUCCESS, m(a := None)) else (NRF_ERROR_NOT_FOUND OR IOT_IPV6_ERR_BASE, m))
      in (e # fst (addr_spec m1 ops), snd (addr_spec m1 ops)))"

definition op_valid :: "addr_op \<Rightarrow> bool" where
  "op_valid op = (case op of SetAddress c \<Rightarrow> conf_state c \<noteq> IPV6_ADDR_STATE_UNUSED | RemoveAddress a \<Rightarrow> True)"

text \<open>C34: With the one interface of the configuration, setting and removing addresses implements a finite map from
  addresses to their states, bounded by 3 entries: any sequence of calls returns the error codes of the
  map and ends in a table that stands for the resulting map. The two tables of the module, whose indices
  the code exchanges, stay in step, and no access is out of bounds.\<close>

theorem ipv6_address_table_implements_map:
  assumes "addr_inv s" "attached s iface" "m_event_handler s \<noteq> None" "\<forall>op \<in> set ops. op_valid op"
  shows "\<exists>s'. addr_exec s iface ops = Inr (fst (addr_spec (addr_map s) ops), s') \<and> addr_inv s' \<and>
    addr_map s' = snd (addr_spec (addr_map s) ops)"
  using assms
proof (induction ops arbitrary: s)
  case (Cons op ops)
  have step: ?case
    if "(case op of SetAddress c \<Rightarrow> ipv6_address_set s (Some iface) (Some c)
                  | RemoveAddress a \<Rightarrow> ipv6_address_remove s (Some iface) (Some a)) = Inr (e, t)"
      and "addr_inv t" "if_objects t = if_objects s" "m_event_handler t = m_event_handler s"
      and "addr_spec (addr_map s) (op # ops) = (e # fst (addr_spec (addr_map t) ops), snd (addr_spec (addr_map t) ops))" for e t
    using Cons.IH [of t] Cons.prems that by (auto simp: attached_def)
  show ?case
  proof (cases op)
    case (SetAddress c)
    from addr_set_updates [OF Cons.prems(1,2), of c] Cons.prems(4) SetAddress obtain e t where
      t: "addr_set s iface c = Inr (e, t)" "addr_inv t" "if_objects t = if_objects s" "m_event_handler t = m_event_handler s"
        "if addr_map s (conf_addr c) \<noteq> None \<or> card (dom (addr_map s)) < IPV6_MAX_ADDRESS_COUNT
         then e = NRF_SUCCESS \<and> addr_map t = (addr_map s)(conf_addr c \<mapsto> conf_state c)
         else e = NRF_ERROR_NO_MEM OR IOT_IPV6_ERR_BASE \<and> t = s"
      by (auto simp: op_valid_def)
    show ?thesis
      by (rule step [of e t]) (use t SetAddress Cons.prems(3) in \<open>auto simp: ipv6_address_set_def dom_def Let_def\<close>)
  next
    case (RemoveAddress a)
    from addr_remove_deletes [OF Cons.prems(1), of a] obtain e t where
      t: "address_remove_loop s 0 a [0..<IPV6_MAX_ADDRESS_PER_INTERFACE] = Inr (e, t)" "addr_inv t"
        "if_objects t = if_objects s" "m_event_handler t = m_event_handler s"
        "if addr_map s a \<noteq> None then e = NRF_SUCCESS \<and> addr_map t = (addr_map s)(a := None)
         else e = NRF_ERROR_NOT_FOUND OR IOT_IPV6_ERR_BASE \<and> t = s"
      by blast
    show ?thesis
      by (rule step [of e t])
        (use t RemoveAddress Cons.prems(2,3) in \<open>auto simp: ipv6_address_remove_def attached_def dom_def Let_def split: if_splits\<close>)
  qed
qed simp

text \<open>The state after initialisation and the arrival of an interface with the number 0.\<close>

definition link_state :: ipv6_state where
  "link_state = \<lparr>m_event_handler = Some 1,
     m_address_table = replicate 3 \<lparr>conf_addr = replicate 16 0, conf_state = IPV6_ADDR_STATE_UNUSED\<rparr>,
     m_interfaces = [\<lparr>if_object = Some 0, addr_range = [0xFF, 0xFF, 0xFF]\<rparr>], m_interfaces_count = 1,
     if_objects = (\<lambda>_. \<lparr>local_eui64 = replicate 8 0, p_upper_stack = 0\<rparr>)\<rparr>"

lemma link_state_inv: "addr_inv link_state" "addr_map link_state = (\<lambda>_. None)" "attached link_state 0"
proof -
  have k: "addr_key (m_address_table link_state ! i) = None" if "i < 3" for i
    using that by (simp add: link_state_def addr_key_def)
  have l: "length (m_address_table link_state) = 3" "m_interfaces link_state = [\<lparr>if_object = Some 0, addr_range = replicate 3 0xFF\<rparr>]"
    by (simp_all add: link_state_def numeral_3_eq_3)
  have "replicate 3 0xFF = map (range_entry (m_address_table link_state)) [0..<3]"
    using k by (intro nth_equalityI) (simp_all add: range_entry_def c_consts)
  then show "addr_inv link_state" using k l by (simp add: addr_inv_def c_consts keys_unique_def)
  show "addr_map link_state = (\<lambda>_. None)" using k l by (auto simp: addr_map_def table_map_None fun_eq_iff)
  show "attached link_state 0" by (simp add: attached_def link_state_def)
qed

definition unicast :: "u8 \<Rightarrow> ipv6_addr_conf_t" where
  "unicast n = \<lparr>conf_addr = [0x20, 0x01, 0x04, 0x70, 0xCA, 0xFE, 0, 0, 0, 0, 0, 0, 0, 0, 0, n], conf_state = IPV6_ADDR_STATE_PREFERRED\<rparr>"

theorem ipv6_address_table_implements_map_witness:
  "\<exists>s'. addr_exec link_state 0 [SetAddress (unicast 1), SetAddress (unicast 2), RemoveAddress (conf_addr (unicast 1)),
      RemoveAddress (conf_addr (unicast 3))] =
    Inr ([NRF_SUCCESS, NRF_SUCCESS, NRF_SUCCESS, NRF_ERROR_NOT_FOUND OR IOT_IPV6_ERR_BASE], s') \<and>
    addr_map s' = [conf_addr (unicast 2) \<mapsto> IPV6_ADDR_STATE_PREFERRED]"
proof -
  let ?ops = "[SetAddress (unicast 1), SetAddress (unicast 2), RemoveAddress (conf_addr (unicast 1)), RemoveAddress (conf_addr (unicast 3))]"
  have "m_event_handler link_state \<noteq> None" "\<forall>op \<in> set ?ops. op_valid op"
    by (simp_all add: link_state_def op_valid_def unicast_def)
  from ipv6_address_table_implements_map [OF link_state_inv(1,3) this]
  show ?thesis by (auto simp: link_state_inv unicast_def c_consts fun_upd_twist)
qed

text \<open>The loop keeps the best address so far, and every preferred address is compared with it.\<close>

lemma best_match_loop_best:
  assumes "\<forall>i \<in> set is. i < 3" "length t = 3" "\<forall>a. b = Some a \<longrightarrow> addr_bit_equal f a = m" "b = None \<longrightarrow> m = 0"
  shows "\<exists>r. best_match_loop t (map (range_entry t) is) f m b = Inr r \<and>
    (\<forall>a. r = Some a \<longrightarrow> b = Some a \<or> (\<exists>i \<in> set is. t ! i = \<lparr>conf_addr = a, conf_state = IPV6_ADDR_STATE_PREFERRED\<rparr>)) \<and>
    (\<forall>a. b = Some a \<or> (\<exists>i \<in> set is. t ! i = \<lparr>conf_addr = a, conf_state = IPV6_ADDR_STATE_PREFERRED\<rparr>) \<longrightarrow>
      (\<exists>a'. r = Some a' \<and> addr_bit_equal f a \<le> addr_bit_equal f a'))"
  using assms(1,3,4)
proof (induction "is" arbitrary: m b)
  case (Cons i "is")
  have i: "i < 3" and "is": "\<forall>i \<in> set is. i < 3" using Cons.prems(1) by simp_all
  let ?c = "t ! i"
  have c: "?c = \<lparr>conf_addr = conf_addr ?c, conf_state = conf_state ?c\<rparr>" by simp
  show ?case
  proof (cases "conf_state ?c = IPV6_ADDR_STATE_PREFERRED")
    case pref: True
    then have ru: "range_entry t i \<noteq> IPV6_INVALID_ADDR_INDEX" "unat (range_entry t i) = i"
      using i by (simp_all add: range_entry_invalid unat_range_entry addr_key_def)
    let ?m = "addr_bit_equal f (conf_addr ?c)"
    show ?thesis
    proof (cases "m \<le> ?m")
      case True
      from Cons.IH [of "Some (conf_addr ?c)" ?m] "is" obtain r where
        r: "best_match_loop t (map (range_entry t) is) f ?m (Some (conf_addr ?c)) = Inr r"
          "\<forall>a. r = Some a \<longrightarrow> conf_addr ?c = a \<or> (\<exists>i \<in> set is. t ! i = \<lparr>conf_addr = a, conf_state = IPV6_ADDR_STATE_PREFERRED\<rparr>)"
          "\<forall>a. conf_addr ?c = a \<or> (\<exists>i \<in> set is. t ! i = \<lparr>conf_addr = a, conf_state = IPV6_ADDR_STATE_PREFERRED\<rparr>) \<longrightarrow>
             (\<exists>a'. r = Some a' \<and> addr_bit_equal f a \<le> addr_bit_equal f a')" by auto
      have l: "best_match_loop t (map (range_entry t) (i # is)) f m b = Inr r" using r(1) ru pref True i assms(2) by simp
      obtain a' where a': "r = Some a'" "?m \<le> addr_bit_equal f a'" using r(3) by blast
      have "\<exists>a'. r = Some a' \<and> addr_bit_equal f a \<le> addr_bit_equal f a'" if "b = Some a" for a
        using a' True Cons.prems(2) that by (auto intro: order_trans)
      moreover have "\<exists>i \<in> set (i # is). t ! i = \<lparr>conf_addr = a, conf_state = IPV6_ADDR_STATE_PREFERRED\<rparr>" if "r = Some a" for a
        using r(2) that c pref by auto
      moreover have "\<exists>a'. r = Some a' \<and> addr_bit_equal f a \<le> addr_bit_equal f a'"
        if "j \<in> set (i # is)" "t ! j = \<lparr>conf_addr = a, conf_state = IPV6_ADDR_STATE_PREFERRED\<rparr>" for a j
        using r(3) that a' by auto
      ultimately show ?thesis using l by blast
    next
      case False
      from Cons.IH [of b m] "is" Cons.prems(2,3) obtain r where
        r: "best_match_loop t (map (range_entry t) is) f m b = Inr r"
          "\<forall>a. r = Some a \<longrightarrow> b = Some a \<or> (\<exists>i \<in> set is. t ! i = \<lparr>conf_addr = a, conf_state = IPV6_ADDR_STATE_PREFERRED\<rparr>)"
          "\<forall>a. b = Some a \<or> (\<exists>i \<in> set is. t ! i = \<lparr>conf_addr = a, conf_state = IPV6_ADDR_STATE_PREFERRED\<rparr>) \<longrightarrow>
             (\<exists>a'. r = Some a' \<and> addr_bit_equal f a \<le> addr_bit_equal f a')" by auto
      have l: "best_match_loop t (map (range_entry t) (i # is)) f m b = Inr r" using r(1) ru pref False i assms(2) by simp
      obtain a0 where a0: "b = Some a0" using False Cons.prems(3) by (cases b) auto
      then obtain a' where a': "r = Some a'" "m \<le> addr_bit_equal f a'" using r(3) Cons.prems(2) by auto
      then have "?m \<le> addr_bit_equal f a'" using False by simp
      then have "\<exists>a'. r = Some a' \<and> addr_bit_equal f a \<le> addr_bit_equal f a'"
        if "j \<in> set (i # is)" "t ! j = \<lparr>conf_addr = a, conf_state = IPV6_ADDR_STATE_PREFERRED\<rparr>" for a j
        using r(3) that a' by auto
      then show ?thesis using l r(2,3) by (intro exI [of _ r]) auto
    qed
  next
    case False
    then have "t ! i \<noteq> \<lparr>conf_addr = a, conf_state = IPV6_ADDR_STATE_PREFERRED\<rparr>" for a by (metis ipv6_addr_conf_t.select_convs(2))
    moreover have "best_match_loop t (map (range_entry t) (i # is)) f m b = best_match_loop t (map (range_entry t) is) f m b"
      using False i assms(2) unat_range_entry [OF i i, of t] range_entry_invalid [OF i, of t]
      by (cases "addr_key (t ! i)") simp_all
    ultimately show ?thesis using Cons.IH [of b m] "is" Cons.prems(2,3) by simp
  qed
qed auto

lemma addr_map_preferred:
  assumes "addr_inv s"
  shows "addr_map s a = Some IPV6_ADDR_STATE_PREFERRED \<longleftrightarrow>
    (\<exists>i \<in> set [0..<IPV6_MAX_ADDRESS_PER_INTERFACE]. m_address_table s ! i = \<lparr>conf_addr = a, conf_state = IPV6_ADDR_STATE_PREFERRED\<rparr>)"
proof
  assume "addr_map s a = Some IPV6_ADDR_STATE_PREFERRED"
  then obtain c where c: "table_map addr_key (m_address_table s) a = Some c" "conf_state c = IPV6_ADDR_STATE_PREFERRED"
    by (auto simp: addr_map_def)
  then obtain i where "i < 3" "addr_key (m_address_table s ! i) = Some a" "c = m_address_table s ! i"
    using addr_inv_len(1) [OF assms] by (elim table_map_cases) auto
  then show "\<exists>i \<in> set [0..<IPV6_MAX_ADDRESS_PER_INTERFACE]. m_address_table s ! i = \<lparr>conf_addr = a, conf_state = IPV6_ADDR_STATE_PREFERRED\<rparr>"
    using c(2) by (intro bexI [of _ i]) (auto simp: addr_key_Some c_consts)
next
  assume "\<exists>i \<in> set [0..<IPV6_MAX_ADDRESS_PER_INTERFACE]. m_address_table s ! i = \<lparr>conf_addr = a, conf_state = IPV6_ADDR_STATE_PREFERRED\<rparr>"
  then obtain i where i: "i < 3" "m_address_table s ! i = \<lparr>conf_addr = a, conf_state = IPV6_ADDR_STATE_PREFERRED\<rparr>"
    by (auto simp: c_consts)
  have "keys_unique addr_key (m_address_table s)" using assms by (simp add: addr_inv_def)
  from table_map_Some [OF this, of i a] i addr_inv_len(1) [OF assms]
  show "addr_map s a = Some IPV6_ADDR_STATE_PREFERRED" by (simp add: addr_map_def addr_key_def)
qed

text \<open>C35: The source address for a destination is a preferred address of the interface that shares the longest prefix
  with the destination, counted in bits; with no preferred address it is the unspecified address. The
  interface is the one that is up.\<close>

theorem ipv6_address_best_match_is_longest_prefix:
  assumes "addr_inv s" "attached s iface" "m_event_handler s \<noteq> None" "m_interfaces_count s = 1"
    and "if_object (m_interfaces s ! 0) = Some iface"
    and "length dst = 16" "\<forall>a \<in> dom (addr_map s). length a = 16"
  shows "\<exists>r. ipv6_address_find_best_match s (Some p) (Some r0) (Some dst) = Inr (NRF_SUCCESS, Some (Some iface), Some r) \<and>
    (if IPV6_ADDR_STATE_PREFERRED \<in> ran (addr_map s)
     then addr_map s r = Some IPV6_ADDR_STATE_PREFERRED \<and>
       (\<forall>a. addr_map s a = Some IPV6_ADDR_STATE_PREFERRED \<longrightarrow> common_bits dst a \<le> common_bits dst r)
     else r = IPV6_ADDR_ANY)"
proof -
  let ?t = "m_address_table s" and ?is = "[0..<IPV6_MAX_ADDRESS_PER_INTERFACE]"
  have "\<forall>i \<in> set ?is. i < 3" by (simp add: c_consts)
  from best_match_loop_best [OF this addr_inv_len(1) [OF assms(1)], of None dst 0] obtain r where
    r: "best_match_loop ?t (map (range_entry ?t) ?is) dst 0 None = Inr r"
      "\<forall>a. r = Some a \<longrightarrow> addr_map s a = Some IPV6_ADDR_STATE_PREFERRED"
      "\<forall>a. addr_map s a = Some IPV6_ADDR_STATE_PREFERRED \<longrightarrow> (\<exists>a'. r = Some a' \<and> addr_bit_equal dst a \<le> addr_bit_equal dst a')"
    unfolding addr_map_preferred [OF assms(1)] by auto
  let ?r = "case r of None \<Rightarrow> replicate 16 0 | Some a \<Rightarrow> a"
  have rng: "addr_range (m_interfaces s ! 0) = map (range_entry ?t) ?is" and "length (m_interfaces s) = 1"
    using assms(1) by (simp_all add: addr_inv_def c_consts)
  moreover from this have "find_first (\<lambda>it. if_object it \<noteq> None) (m_interfaces s) = Some 0"
    using assms(5) by (simp add: find_first_Some)
  ultimately have "ipv6_address_find_best_match s (Some p) (Some r0) (Some dst) = Inr (NRF_SUCCESS, Some (Some iface), Some ?r)"
    using assms(2-5) r(1) by (simp add: ipv6_address_find_best_match_def interface_find_def attached_def)
  moreover have "common_bits dst a \<le> common_bits dst b"
    if "addr_bit_equal dst a \<le> addr_bit_equal dst b" "a \<in> dom (addr_map s)" "b \<in> dom (addr_map s)" for a b
    using that assms(6,7) addr_bit_equal_common [of dst] by (auto simp: word_le_nat_alt)
  then have "if IPV6_ADDR_STATE_PREFERRED \<in> ran (addr_map s)
     then addr_map s ?r = Some IPV6_ADDR_STATE_PREFERRED \<and>
       (\<forall>a. addr_map s a = Some IPV6_ADDR_STATE_PREFERRED \<longrightarrow> common_bits dst a \<le> common_bits dst ?r)
     else ?r = IPV6_ADDR_ANY"
    using r(2,3) by (cases r) (fastforce simp: ran_def IPV6_ADDR_ANY_def)+
  ultimately show ?thesis by blast
qed

theorem ipv6_address_best_match_is_longest_prefix_witness:
  "\<exists>s r. addr_map s = [conf_addr (unicast 7) \<mapsto> IPV6_ADDR_STATE_PREFERRED] \<and>
     ipv6_address_find_best_match s (Some None) (Some []) (Some (conf_addr (unicast 1))) =
       Inr (NRF_SUCCESS, Some (Some 0), Some r) \<and> r = conf_addr (unicast 7)"
proof -
  have "conf_state (unicast 7) \<noteq> IPV6_ADDR_STATE_UNUSED" by (simp add: unicast_def)
  from addr_set_updates [OF link_state_inv(1,3) this] obtain s where
    s: "addr_inv s" "if_objects s = if_objects link_state" "m_event_handler s = m_event_handler link_state"
      "m_interfaces_count s = m_interfaces_count link_state" "map if_object (m_interfaces s) = map if_object (m_interfaces link_state)"
      "addr_map s = [conf_addr (unicast 7) \<mapsto> IPV6_ADDR_STATE_PREFERRED]"
    by (auto simp: link_state_inv c_consts unicast_def)
  have a: "attached s 0" "m_event_handler s \<noteq> None" "m_interfaces_count s = 1"
    using s by (simp_all add: attached_def link_state_def)
  have "map if_object (m_interfaces s) ! 0 = Some 0" by (simp add: s(5) link_state_def)
  then have o0: "if_object (m_interfaces s ! 0) = Some 0" using addr_inv_len(2) [OF s(1)] by simp
  have "length (conf_addr (unicast 1)) = 16" "\<forall>a \<in> dom (addr_map s). length a = 16"
    by (auto simp: s(6) unicast_def split: if_splits)
  from ipv6_address_best_match_is_longest_prefix [OF s(1) a o0 this, of None "[]"] s(6)
  show ?thesis by (intro exI [of _ s]) (auto simp: split: if_splits)
qed

end
