(* ===== verification/Context_Manager.thy ===== *)
theory Context_Manager
  imports Sdk_Config Keyed_Table
begin

text \<open>
  The table of 6LoWPAN compression contexts, \<^verbatim>\<open>components/iot/context_manager/iot_context_manager.c\<close>:
  for each interface an array of contexts, found by context identifier or by address prefix. An
  interface is known by its address; a pointer to a context of the table is a pair of indices.
\<close>

section \<open>State and operations\<close>

definition IPV6_CONTEXT_IDENTIFIER_NONE :: u8 where [c_consts]: "IPV6_CONTEXT_IDENTIFIER_NONE = 0xFF"
definition CID_VALUE_MAX :: u8 where [c_consts]: "CID_VALUE_MAX = 15"
definition PREFIX_LENGTH_VALUE_MAX :: u8 where [c_consts]: "PREFIX_LENGTH_VALUE_MAX = 128"
definition IPV6_ADDR_SIZE :: nat where [c_consts]: "IPV6_ADDR_SIZE = 16"

record iot_context_t =
  context_id :: u8
  prefix_len :: u8
  prefix :: "u8 list"
  compression_flag :: bool

record iot_context_table_t =
  tab_interface :: "nat option"
  context_count :: u8
  contexts :: "iot_context_t list"

record context_manager =
  m_context_table :: "iot_context_table_t list"
  cm_initialization_state :: bool

definition context_init :: "iot_context_t \<Rightarrow> iot_context_t" where
  "context_init c =
     c\<lparr>context_id := IPV6_CONTEXT_IDENTIFIER_NONE, prefix_len := 0, compression_flag := False,
       prefix := replicate IPV6_ADDR_SIZE 0\<rparr>"

definition context_table_init :: "iot_context_table_t \<Rightarrow> iot_context_table_t" where
  "context_table_init t = t\<lparr>contexts := map context_init (contexts t), context_count := 0, tab_interface := None\<rparr>"

text \<open>The result is the index of the table, or \<open>IOT_CONTEXT_MANAGER_MAX_TABLES\<close>.\<close>

definition context_table_find :: "context_manager \<Rightarrow> nat option \<Rightarrow> nat" where
  "context_table_find cm iface =
     (case find_first (\<lambda>t. tab_interface t = iface) (m_context_table cm) of
        Some i \<Rightarrow> i | None \<Rightarrow> IOT_CONTEXT_MANAGER_MAX_TABLES)"

definition context_find_by_cid :: "iot_context_table_t \<Rightarrow> u8 \<Rightarrow> u32 \<times> nat option" where
  "context_find_by_cid t cid =
     (case find_first (\<lambda>c. context_id c = cid) (contexts t) of
        Some i \<Rightarrow> (NRF_SUCCESS, Some i)
      | None \<Rightarrow> (NRF_ERROR_NOT_FOUND OR IOT_CONTEXT_MANAGER_ERR_BASE, None))"

text \<open>
  The macro \<open>IPV6_ADDRESS_PREFIX_CMP\<close>. The number of bytes to compare is the number of whole bytes,
  less one where bits are left over; for a length of 1 to 7 bits it is negative, and \<open>memcmp\<close> gets a
  huge length. The shifted mask \<open>0xFF00\<close> is wider than a byte.
\<close>

definition ipv6_address_prefix_cmp :: "u8 list \<Rightarrow> u8 list \<Rightarrow> u8 \<Rightarrow> fault + bool" where
  "ipv6_address_prefix_cmp pfx pfx2 len =
     (let whole = unat len div 8;
          rest = unat len mod 8
      in if rest \<noteq> 0 \<and> whole = 0 then Inl OutOfBoundsRead
         else
           c_bind (arr_read pfx 0 (whole - (if rest \<noteq> 0 then 1 else 0))) (\<lambda>xs.
           c_bind (arr_read pfx2 0 (whole - (if rest \<noteq> 0 then 1 else 0))) (\<lambda>ys.
           if xs = ys then
             c_bind (arr_get pfx whole) (\<lambda>a.
             c_bind (arr_get pfx2 whole) (\<lambda>b.
             Inr ((ucast a AND drop_bit rest (0xFF00 :: u32)) = (ucast b AND drop_bit rest (0xFF00 :: u32)))))
           else Inr False)))"

text \<open>The loop stops when as many used contexts have been seen as the counter of the table says.\<close>

fun find_by_prefix_loop :: "iot_context_t list \<Rightarrow> u8 list \<Rightarrow> nat \<Rightarrow> u32 \<Rightarrow> fault + nat option" where
  "find_by_prefix_loop [] addr i context_left = Inr None"
| "find_by_prefix_loop (c # cs) addr i context_left =
     (if context_left \<noteq> 0 then
        if context_id c \<noteq> IPV6_CONTEXT_IDENTIFIER_NONE then
          c_bind (ipv6_address_prefix_cmp (prefix c) addr (prefix_len c)) (\<lambda>eq.
          if eq then Inr (Some i) else find_by_prefix_loop cs addr (Suc i) (context_left - 1))
        else find_by_prefix_loop cs addr (Suc i) context_left
      else Inr None)"

definition context_find_by_prefix :: "iot_context_table_t \<Rightarrow> u8 list \<Rightarrow> fault + u32 \<times> nat option" where
  "context_find_by_prefix t p_prefix =
     c_bind (find_by_prefix_loop (contexts t) p_prefix 0 (ucast (context_count t))) (\<lambda>r.
     case r of
       Some i \<Rightarrow> Inr (NRF_SUCCESS, Some i)
     | None \<Rightarrow> Inr (NRF_ERROR_NOT_FOUND OR IOT_CONTEXT_MANAGER_ERR_BASE, None))"

definition context_find_free :: "iot_context_table_t \<Rightarrow> u32 \<times> nat option" where
  "context_find_free t =
     (case find_first (\<lambda>c. context_id c = IPV6_CONTEXT_IDENTIFIER_NONE) (contexts t) of
        Some i \<Rightarrow> (NRF_SUCCESS, Some i)
      | None \<Rightarrow> (NRF_ERROR_NO_MEM OR IOT_CONTEXT_MANAGER_ERR_BASE, None))"

definition iot_context_manager_init :: "context_manager \<Rightarrow> u32 \<times> context_manager" where
  "iot_context_manager_init cm =
     (NRF_SUCCESS, cm\<lparr>m_context_table := map context_table_init (m_context_table cm), cm_initialization_state := True\<rparr>)"

definition table_upd :: "context_manager \<Rightarrow> nat \<Rightarrow> (iot_context_table_t \<Rightarrow> iot_context_table_t) \<Rightarrow> context_manager" where
  "table_upd cm i f = cm\<lparr>m_context_table := (m_context_table cm)[i := f (m_context_table cm ! i)]\<rparr>"

definition iot_context_manager_table_alloc :: "context_manager \<Rightarrow> nat option \<Rightarrow> u32 \<times> context_manager" where
  "iot_context_manager_table_alloc cm iface =
     (if \<not> cm_initialization_state cm then (SDK_ERR_MODULE_NOT_INITIALZED OR IOT_CONTEXT_MANAGER_ERR_BASE, cm)
      else if iface = None then (NRF_ERROR_NULL OR IOT_CONTEXT_MANAGER_ERR_BASE, cm)
      else let table_id = context_table_find cm None
           in if table_id \<noteq> IOT_CONTEXT_MANAGER_MAX_TABLES
              then (NRF_SUCCESS, table_upd cm table_id (\<lambda>t. t\<lparr>tab_interface := iface\<rparr>))
              else (NRF_ERROR_NO_MEM OR IOT_CONTEXT_MANAGER_ERR_BASE, cm))"

definition iot_context_manager_table_free :: "context_manager \<Rightarrow> nat option \<Rightarrow> u32 \<times> context_manager" where
  "iot_context_manager_table_free cm iface =
     (if \<not> cm_initialization_state cm then (SDK_ERR_MODULE_NOT_INITIALZED OR IOT_CONTEXT_MANAGER_ERR_BASE, cm)
      else if iface = None then (NRF_ERROR_NULL OR IOT_CONTEXT_MANAGER_ERR_BASE, cm)
      else let table_id = context_table_find cm iface
           in if table_id \<noteq> IOT_CONTEXT_MANAGER_MAX_TABLES
              then (NRF_SUCCESS, table_upd cm table_id context_table_init)
              else (NRF_ERROR_NOT_FOUND OR IOT_CONTEXT_MANAGER_ERR_BASE, cm))"

definition iot_context_manager_update ::
  "context_manager \<Rightarrow> nat option \<Rightarrow> iot_context_t option \<Rightarrow> u32 \<times> context_manager" where
  "iot_context_manager_update cm iface p_context =
     (if \<not> cm_initialization_state cm then (SDK_ERR_MODULE_NOT_INITIALZED OR IOT_CONTEXT_MANAGER_ERR_BASE, cm)
      else case p_context of
        None \<Rightarrow> (NRF_ERROR_NULL OR IOT_CONTEXT_MANAGER_ERR_BASE, cm)
      | Some c \<Rightarrow>
        if \<not> context_id c \<le> CID_VALUE_MAX then (NRF_ERROR_INVALID_PARAM OR IOT_CONTEXT_MANAGER_ERR_BASE, cm)
        else if \<not> prefix_len c \<le> PREFIX_LENGTH_VALUE_MAX
        then (NRF_ERROR_INVALID_PARAM OR IOT_CONTEXT_MANAGER_ERR_BASE, cm)
        else
          let table_id = context_table_find cm iface
          in if table_id \<noteq> IOT_CONTEXT_MANAGER_MAX_TABLES then
               let t = m_context_table cm ! table_id
               in case context_find_by_cid t (context_id c) of
                    (retval, p) \<Rightarrow>
                      if retval = NRF_SUCCESS
                      then (NRF_SUCCESS, table_upd cm table_id (\<lambda>t. t\<lparr>contexts := (contexts t)[the p := c]\<rparr>))
                      else
                        (case context_find_free t of
                           (err_code, p) \<Rightarrow>
                             if err_code = NRF_SUCCESS
                             then (NRF_SUCCESS, table_upd cm table_id (\<lambda>t. t\<lparr>context_count := context_count t + 1,
                                     contexts := (contexts t)[the p := c]\<rparr>))
                             else (err_code, cm))
             else (NRF_ERROR_NOT_FOUND OR IOT_CONTEXT_MANAGER_ERR_BASE, cm))"

text \<open>
  \<open>p_context\<close> points to any context structure: to the element of the table given by two indices, or, as
  the function does not check it, to a structure of the caller. The result includes that structure.
\<close>

datatype context_ptr = InTable nat nat | Foreign iot_context_t

definition iot_context_manager_remove ::
  "context_manager \<Rightarrow> nat option \<Rightarrow> context_ptr option \<Rightarrow> u32 \<times> context_ptr option \<times> context_manager" where
  "iot_context_manager_remove cm iface p_context =
     (if \<not> cm_initialization_state cm
      then (SDK_ERR_MODULE_NOT_INITIALZED OR IOT_CONTEXT_MANAGER_ERR_BASE, p_context, cm)
      else if iface = None then (NRF_ERROR_NULL OR IOT_CONTEXT_MANAGER_ERR_BASE, p_context, cm)
      else case p_context of
        None \<Rightarrow> (NRF_ERROR_NULL OR IOT_CONTEXT_MANAGER_ERR_BASE, p_context, cm)
      | Some p \<Rightarrow>
        let table_id = context_table_find cm iface
        in if table_id \<noteq> IOT_CONTEXT_MANAGER_MAX_TABLES then
             let c = (case p of InTable i j \<Rightarrow> contexts (m_context_table cm ! i) ! j | Foreign c \<Rightarrow> c);
                 cm1 = (if context_id c \<noteq> IPV6_CONTEXT_IDENTIFIER_NONE
                        then table_upd cm table_id (\<lambda>t. t\<lparr>context_count := context_count t - 1\<rparr>) else cm)
             in case p of
                  InTable i j \<Rightarrow>
                    (NRF_SUCCESS, p_context, table_upd cm1 i (\<lambda>t. t\<lparr>contexts := (contexts t)[j := context_init c]\<rparr>))
                | Foreign _ \<Rightarrow> (NRF_SUCCESS, Some (Foreign (context_init c)), cm1)
           else (NRF_ERROR_NOT_FOUND OR IOT_CONTEXT_MANAGER_ERR_BASE, p_context, cm))"

text \<open>The result is the error code and the cell behind \<open>pp_context\<close>, a pointer into the table.\<close>

definition iot_context_manager_get_by_addr ::
  "context_manager \<Rightarrow> nat option \<Rightarrow> u8 list option \<Rightarrow> (nat \<times> nat) option option \<Rightarrow>
   fault + u32 \<times> (nat \<times> nat) option option" where
  "iot_context_manager_get_by_addr cm iface p_addr pp_context =
     (if \<not> cm_initialization_state cm
      then Inr (SDK_ERR_MODULE_NOT_INITIALZED OR IOT_CONTEXT_MANAGER_ERR_BASE, pp_context)
      else if iface = None then Inr (NRF_ERROR_NULL OR IOT_CONTEXT_MANAGER_ERR_BASE, pp_context)
      else case p_addr of
        None \<Rightarrow> Inr (NRF_ERROR_NULL OR IOT_CONTEXT_MANAGER_ERR_BASE, pp_context)
      | Some addr \<Rightarrow>
        if pp_context = None then Inr (NRF_ERROR_NULL OR IOT_CONTEXT_MANAGER_ERR_BASE, pp_context)
        else
          let table_id = context_table_find cm iface
          in if table_id \<noteq> IOT_CONTEXT_MANAGER_MAX_TABLES
             then c_bind (context_find_by_prefix (m_context_table cm ! table_id) addr) (\<lambda>(err_code, p).
                  Inr (err_code, case p of Some i \<Rightarrow> Some (Some (table_id, i)) | None \<Rightarrow> pp_context))
             else Inr (NRF_ERROR_NOT_FOUND OR IOT_CONTEXT_MANAGER_ERR_BASE, pp_context))"

definition iot_context_manager_get_by_cid ::
  "context_manager \<Rightarrow> nat option \<Rightarrow> u8 \<Rightarrow> (nat \<times> nat) option option \<Rightarrow> u32 \<times> (nat \<times> nat) option option" where
  "iot_context_manager_get_by_cid cm iface cid pp_context =
     (if \<not> cm_initialization_state cm
      then (SDK_ERR_MODULE_NOT_INITIALZED OR IOT_CONTEXT_MANAGER_ERR_BASE, pp_context)
      else if iface = None then (NRF_ERROR_NULL OR IOT_CONTEXT_MANAGER_ERR_BASE, pp_context)
      else if pp_context = None then (NRF_ERROR_NULL OR IOT_CONTEXT_MANAGER_ERR_BASE, pp_context)
      else if \<not> cid \<le> CID_VALUE_MAX then (NRF_ERROR_INVALID_PARAM OR IOT_CONTEXT_MANAGER_ERR_BASE, pp_context)
      else
        let table_id = context_table_find cm iface
        in if table_id \<noteq> IOT_CONTEXT_MANAGER_MAX_TABLES
           then case context_find_by_cid (m_context_table cm ! table_id) cid of
             (err_code, p) \<Rightarrow> (err_code, case p of Some i \<Rightarrow> Some (Some (table_id, i)) | None \<Rightarrow> pp_context)
           else (NRF_ERROR_NOT_FOUND OR IOT_CONTEXT_MANAGER_ERR_BASE, pp_context))"

section \<open>The table of an interface as a map\<close>

definition ctx_used :: "iot_context_t \<Rightarrow> bool" where
  "ctx_used c \<longleftrightarrow> context_id c \<noteq> IPV6_CONTEXT_IDENTIFIER_NONE"

definition ctx_key :: "iot_context_t \<Rightarrow> u8 option" where
  "ctx_key c = (if ctx_used c then Some (context_id c) else None)"

definition ctx_valid :: "iot_context_t \<Rightarrow> bool" where
  "ctx_valid c \<longleftrightarrow> context_id c \<le> CID_VALUE_MAX \<and> prefix_len c \<le> PREFIX_LENGTH_VALUE_MAX \<and> length (prefix c) = IPV6_ADDR_SIZE"

definition ctx_inv :: "iot_context_table_t \<Rightarrow> bool" where
  "ctx_inv t \<longleftrightarrow> length (contexts t) = IOT_CONTEXT_MANAGER_MAX_CONTEXTS \<and> keys_unique ctx_key (contexts t) \<and>
     (\<forall>c \<in> set (contexts t). ctx_used c \<longrightarrow> ctx_valid c) \<and> unat (context_count t) = count_if ctx_used (contexts t)"

definition ctx_map :: "iot_context_table_t \<Rightarrow> u8 \<Rightarrow> iot_context_t option" where
  "ctx_map t = table_map ctx_key (contexts t)"

interpretation ctxs: slot_table "\<lambda>c. \<not> ctx_used c" context_init
  by unfold_locales (simp add: ctx_used_def context_init_def)

lemma ctx_valid_used: "ctx_valid c \<Longrightarrow> ctx_used c"
  by (auto simp: ctx_valid_def ctx_used_def c_consts)

lemma ctx_key_init: "ctx_key (context_init c) = None"
  by (simp add: ctx_key_def ctx_used_def context_init_def)

lemma ctx_ids:
  assumes "ctx_inv t"
  shows "dom (ctx_map t) \<subseteq> {k. k \<le> CID_VALUE_MAX}"
proof
  fix k assume "k \<in> dom (ctx_map t)"
  then obtain c where "ctx_map t k = Some c" by auto
  then obtain i where "i < length (contexts t)" "ctx_key (contexts t ! i) = Some k"
    unfolding ctx_map_def by (rule table_map_cases)
  then show "k \<in> {k. k \<le> CID_VALUE_MAX}"
    using assms by (auto simp: ctx_inv_def ctx_key_def ctx_valid_def split: if_splits)
qed

lemma cid_count: "card {k. k \<le> CID_VALUE_MAX} = IOT_CONTEXT_MANAGER_MAX_CONTEXTS"
proof -
  have "bij_betw unat {k. k \<le> CID_VALUE_MAX} {..<16 :: nat}"
    by (rule bij_betw_byWitness [of _ of_nat])
      (auto simp: c_consts word_le_nat_alt unat_of_nat_u8)
  then show ?thesis by (simp add: bij_betw_same_card c_consts)
qed

text \<open>There is a slot for every identifier.\<close>

lemma ctx_room:
  assumes "ctx_inv t" "k \<le> CID_VALUE_MAX" "ctx_map t k = None"
  obtains i where "find_first (\<lambda>c. \<not> ctx_used c) (contexts t) = Some i"
proof (cases "find_first (\<lambda>c. \<not> ctx_used c) (contexts t)")
  case None
  have fin: "finite {k. k \<le> CID_VALUE_MAX}" by (rule card_ge_0_finite) (use cid_count in \<open>simp add: c_consts\<close>)
  have "dom (ctx_map t) \<subset> {k. k \<le> CID_VALUE_MAX}" using ctx_ids [OF assms(1)] assms(2,3) by auto
  then have "card (dom (ctx_map t)) < IOT_CONTEXT_MANAGER_MAX_CONTEXTS"
    using psubset_card_mono [OF fin] cid_count by simp
  moreover have "card (dom (ctx_map t)) = count_if ctx_used (contexts t)"
    using table_map_card [of ctx_key "contexts t"] assms(1)
    by (simp add: ctx_map_def ctx_inv_def ctx_key_def)
  moreover have "count_if ctx_used (contexts t) = IOT_CONTEXT_MANAGER_MAX_CONTEXTS"
    using None ctxs.no_free_slot [of "contexts t"] assms(1) by (simp add: ctx_inv_def)
  ultimately show ?thesis by simp
qed

lemma find_by_cid_eq:
  "k \<le> CID_VALUE_MAX \<Longrightarrow> context_find_by_cid t k =
    (case find_first (\<lambda>c. ctx_key c = Some k) (contexts t) of
       Some i \<Rightarrow> (NRF_SUCCESS, Some i)
     | None \<Rightarrow> (NRF_ERROR_NOT_FOUND OR IOT_CONTEXT_MANAGER_ERR_BASE, None))"
proof -
  assume k: "k \<le> CID_VALUE_MAX"
  have "(context_id c = k) = (ctx_key c = Some k)" for c
    using k by (auto simp: ctx_key_def ctx_used_def c_consts)
  then show ?thesis by (simp add: context_find_by_cid_def)
qed

lemma find_free_eq:
  "context_find_free t = (case find_first (\<lambda>c. \<not> ctx_used c) (contexts t) of
     Some i \<Rightarrow> (NRF_SUCCESS, Some i) | None \<Rightarrow> (NRF_ERROR_NO_MEM OR IOT_CONTEXT_MANAGER_ERR_BASE, None))"
  by (simp add: context_find_free_def ctx_used_def)

text \<open>The configuration has one table.\<close>

lemma one_table:
  assumes "m_context_table cm = [t]"
  shows "context_table_find cm iface = (if tab_interface t = iface then 0 else IOT_CONTEXT_MANAGER_MAX_TABLES)"
  using assms by (simp add: context_table_find_def find_first_def)

text \<open>Updating a context sets the entry of its identifier in the map from identifiers to contexts, whether
  it is new or not, and never fails for lack of memory: 16 slots are enough for the 16 identifiers the
  parameter check admits. The counter of the table stays the number of contexts.\<close>

theorem iot_context_manager_update_sets:
  assumes "cm_initialization_state cm" "m_context_table cm = [t]" "tab_interface t = iface" "ctx_inv t" "ctx_valid c"
  shows "\<exists>t'. iot_context_manager_update cm iface (Some c) = (NRF_SUCCESS, cm\<lparr>m_context_table := [t']\<rparr>) \<and>
    ctx_inv t' \<and> tab_interface t' = iface \<and> ctx_map t' = (ctx_map t)(context_id c \<mapsto> c)"
proof -
  let ?k = "context_id c" and ?cs = "contexts t"
  have k: "?k \<le> CID_VALUE_MAX" "prefix_len c \<le> PREFIX_LENGTH_VALUE_MAX" using assms(5) by (simp_all add: ctx_valid_def)
  have key: "ctx_key c = Some ?k" using ctx_valid_used [OF assms(5)] by (simp add: ctx_key_def)
  have inv: "keys_unique ctx_key ?cs" "length ?cs = IOT_CONTEXT_MANAGER_MAX_CONTEXTS"
    "\<forall>c \<in> set ?cs. ctx_used c \<longrightarrow> ctx_valid c" "unat (context_count t) = count_if ctx_used ?cs"
    using assms(4) by (simp_all add: ctx_inv_def)
  have find: "context_table_find cm iface = 0" using one_table [OF assms(2)] assms(3) by simp
  have valid: "\<forall>c' \<in> set (?cs[i := c]). ctx_used c' \<longrightarrow> ctx_valid c'" for i
    using inv(3) assms(5) set_update_subset_insert [of ?cs i c] by blast
  show ?thesis
  proof (cases "ctx_map t ?k")
    case (Some c0)
    then obtain i where i: "i < length ?cs" "ctx_key (?cs ! i) = Some ?k"
      unfolding ctx_map_def by (rule table_map_cases)
    let ?t' = "t\<lparr>contexts := ?cs[i := c]\<rparr>"
    have f: "context_find_by_cid t ?k = (NRF_SUCCESS, Some i)"
      using find_key_Some [OF inv(1), of ?k i] i by (simp add: find_by_cid_eq [OF k(1)])
    have u: "ctx_used (?cs ! i)" using i(2) by (simp add: ctx_key_def split: if_splits)
    have "iot_context_manager_update cm iface (Some c) = (NRF_SUCCESS, cm\<lparr>m_context_table := [?t']\<rparr>)"
      using assms(1,2) k find f by (simp add: iot_context_manager_update_def table_upd_def c_consts)
    moreover have "ctx_inv ?t'"
      using table_map_insert [OF inv(1) i(1) key] i(2) inv valid count_if_update [OF i(1), of ctx_used c] u
        ctx_valid_used [OF assms(5)] by (simp add: ctx_inv_def)
    moreover have "ctx_map ?t' = (ctx_map t)(?k \<mapsto> c)"
      using table_map_insert [OF inv(1) i(1) key] i(2) by (simp add: ctx_map_def)
    ultimately show ?thesis using assms(3) by (intro exI [of _ ?t']) simp
  next
    case None
    obtain i where i: "find_first (\<lambda>c. \<not> ctx_used c) ?cs = Some i" by (rule ctx_room [OF assms(4) k(1) None])
    note i' = ctxs.free_slot [OF i]
    let ?t' = "t\<lparr>context_count := context_count t + 1, contexts := ?cs[i := c]\<rparr>"
    have "find_first (\<lambda>c. ctx_key c = Some ?k) ?cs = None"
      using None by (simp add: find_key_None ctx_map_def)
    then have f: "context_find_by_cid t ?k = (NRF_ERROR_NOT_FOUND OR IOT_CONTEXT_MANAGER_ERR_BASE, None)"
      "context_find_free t = (NRF_SUCCESS, Some i)"
      using i by (simp_all add: find_by_cid_eq [OF k(1)] find_free_eq)
    have fk: "ctx_key (?cs ! i) = None" using i'(2) by (simp add: ctx_key_def)
    have cnt: "count_if ctx_used (?cs[i := c]) = Suc (count_if ctx_used ?cs)"
      using ctxs.add_count [OF i, of c] ctx_valid_used [OF assms(5)] by simp
    then have "Suc (count_if ctx_used ?cs) \<le> 16"
      using count_if_le [of ctx_used "?cs[i := c]"] inv(2) by (simp add: c_consts)
    then have "unat (context_count t + 1) = Suc (count_if ctx_used ?cs)"
      using inv(4) unat_add_u8 [of "context_count t" 1] by simp
    moreover note ins = table_map_insert [OF inv(1) i'(1) key]
    ultimately have "ctx_inv ?t'" using fk None inv(2) valid cnt by (simp add: ctx_inv_def ctx_map_def)
    moreover have "iot_context_manager_update cm iface (Some c) = (NRF_SUCCESS, cm\<lparr>m_context_table := [?t']\<rparr>)"
      using assms(1,2) k find f by (simp add: iot_context_manager_update_def table_upd_def) (simp add: c_consts)
    moreover have "ctx_map ?t' = (ctx_map t)(?k \<mapsto> c)" using ins fk None by (simp add: ctx_map_def)
    ultimately show ?thesis using assms(3) by (intro exI [of _ ?t']) simp
  qed
qed

definition sample_context :: "u8 \<Rightarrow> u8 \<Rightarrow> u8 list \<Rightarrow> iot_context_t" where
  "sample_context k n p = \<lparr>context_id = k, prefix_len = n, prefix = p, compression_flag = True\<rparr>"

text \<open>A table with the context 10, prefix \<open>2001:db8::/32\<close>, in its first slot.\<close>

definition sample_table :: iot_context_table_t where
  "sample_table = \<lparr>tab_interface = Some 20, context_count = 1, contexts =
     sample_context 10 32 ([32, 1, 13, 184] @ replicate 12 0) # replicate 15 (sample_context 255 0 (replicate 16 0))\<rparr>"

definition sample_cm :: context_manager where
  "sample_cm = \<lparr>m_context_table = [sample_table], cm_initialization_state = True\<rparr>"

lemma sample_table_inv: "ctx_inv sample_table"
proof -
  have "keys_unique ctx_key (contexts sample_table)"
    by (auto simp: keys_unique_def sample_table_def ctx_key_def ctx_used_def sample_context_def c_consts nth_Cons'
        split: if_splits)
  then show ?thesis
    by (simp add: ctx_inv_def) (simp add: sample_table_def c_consts count_if_def sample_context_def ctx_used_def ctx_valid_def)
qed

theorem iot_context_manager_update_sets_witness:
  "\<exists>t'. iot_context_manager_update sample_cm (Some 20) (Some (sample_context 11 64 (replicate 16 7)))
      = (NRF_SUCCESS, sample_cm\<lparr>m_context_table := [t']\<rparr>) \<and>
     ctx_map t' 11 = Some (sample_context 11 64 (replicate 16 7))"
proof -
  have "ctx_valid (sample_context 11 64 (replicate 16 7))" by (simp add: ctx_valid_def sample_context_def c_consts)
  from iot_context_manager_update_sets [OF _ _ _ sample_table_inv this, of sample_cm "Some 20"]
  show ?thesis by (auto simp: sample_cm_def sample_table_def sample_context_def)
qed

section \<open>Removal\<close>

text \<open>Removing a context through the pointer that a lookup by identifier returned deletes the identifier from
  the map and keeps the counter right.\<close>

theorem iot_context_manager_remove_deletes:
  assumes "cm_initialization_state cm" "m_context_table cm = [t]" "tab_interface t = Some f" "ctx_inv t"
    and "iot_context_manager_get_by_cid cm (Some f) k (Some p0) = (NRF_SUCCESS, Some (Some (i, j)))"
  shows "\<exists>t'. iot_context_manager_remove cm (Some f) (Some (InTable i j))
      = (NRF_SUCCESS, Some (InTable i j), cm\<lparr>m_context_table := [t']\<rparr>) \<and>
    ctx_inv t' \<and> tab_interface t' = Some f \<and> ctx_map t' = (ctx_map t)(k := None)"
proof -
  let ?cs = "contexts t"
  have inv: "keys_unique ctx_key ?cs" "length ?cs = IOT_CONTEXT_MANAGER_MAX_CONTEXTS"
    "\<forall>c \<in> set ?cs. ctx_used c \<longrightarrow> ctx_valid c" "unat (context_count t) = count_if ctx_used ?cs"
    using assms(4) by (simp_all add: ctx_inv_def)
  have find: "context_table_find cm (Some f) = 0" using one_table [OF assms(2)] assms(3) by simp
  have nz: "IOT_CONTEXT_MANAGER_MAX_TABLES \<noteq> 0" by (simp add: c_consts)
  have k: "k \<le> CID_VALUE_MAX"
    using assms(1,5) by (auto simp: iot_context_manager_get_by_cid_def split: if_splits)
  have get: "iot_context_manager_get_by_cid cm (Some f) k (Some p0)
      = (case find_first (\<lambda>c. ctx_key c = Some k) ?cs of
           Some i \<Rightarrow> (NRF_SUCCESS, Some (Some (0, i)))
         | None \<Rightarrow> (NRF_ERROR_NOT_FOUND OR IOT_CONTEXT_MANAGER_ERR_BASE, Some p0))"
    using assms(1,2) k find nz
    by (simp add: iot_context_manager_get_by_cid_def find_by_cid_eq split: option.splits)
  have j: "i = 0" "j < length ?cs" "ctx_key (?cs ! j) = Some k"
    using assms(5) find_key_Some [OF inv(1), of k] unfolding get by (auto split: option.splits)
  have u: "ctx_used (?cs ! j)" using j(3) by (simp add: ctx_key_def split: if_splits)
  let ?t' = "t\<lparr>context_count := context_count t - 1, contexts := ?cs[j := context_init (?cs ! j)]\<rparr>"
  have cnt: "Suc (count_if ctx_used (?cs[j := context_init (?cs ! j)])) = count_if ctx_used ?cs"
    using ctxs.clear_count [OF j(2)] u by simp
  then have "context_count t \<noteq> 0" using inv(4) by (auto simp: word_unat_eq_iff)
  then have "unat (context_count t - 1) = count_if ctx_used (?cs[j := context_init (?cs ! j)])"
    using cnt inv(4) by (simp add: unat_minus_one)
  moreover have "\<forall>c \<in> set (?cs[j := context_init (?cs ! j)]). ctx_used c \<longrightarrow> ctx_valid c"
    using inv(3) set_update_subset_insert [of ?cs j "context_init (?cs ! j)"] ctxs.cleared_free by blast
  ultimately have "ctx_inv ?t'"
    using table_map_delete [OF inv(1) j(2,3) ctx_key_init] inv(2) by (simp add: ctx_inv_def)
  moreover have "ctx_map ?t' = (ctx_map t)(k := None)"
    using table_map_delete [OF inv(1) j(2,3) ctx_key_init] by (simp add: ctx_map_def)
  moreover have "iot_context_manager_remove cm (Some f) (Some (InTable i j))
      = (NRF_SUCCESS, Some (InTable i j), cm\<lparr>m_context_table := [?t']\<rparr>)"
    using assms(1,2) find nz u j(1)
    by (simp add: iot_context_manager_remove_def table_upd_def ctx_used_def Let_def)
  ultimately show ?thesis using assms(3) by (intro exI [of _ ?t']) simp
qed

theorem iot_context_manager_remove_deletes_witness:
  "\<exists>t'. iot_context_manager_remove sample_cm (Some 20) (Some (InTable 0 0))
      = (NRF_SUCCESS, Some (InTable 0 0), sample_cm\<lparr>m_context_table := [t']\<rparr>) \<and> ctx_map t' 10 = None"
proof -
  have "iot_context_manager_get_by_cid sample_cm (Some 20) 10 (Some None) = (NRF_SUCCESS, Some (Some (0, 0)))"
    by (simp add: iot_context_manager_get_by_cid_def context_find_by_cid_def context_table_find_def find_first_def
        sample_cm_def sample_table_def sample_context_def) (simp add: c_consts)
  from iot_context_manager_remove_deletes [OF _ _ _ sample_table_inv this]
  show ?thesis by (auto simp: sample_cm_def sample_table_def)
qed

text \<open>Removing a context through a copy of it, which the function accepts, leaves the context in the table
  but takes one off the counter: where it is the only context it is still found by its identifier, while
  a lookup by address finds nothing any more.\<close>

theorem iot_context_manager_remove_copy_miscounts:
  assumes "cm_initialization_state cm" "m_context_table cm = [t]" "tab_interface t = Some f" "ctx_inv t"
    and "context_count t = 1" "ctx_map t k = Some c"
  shows "\<exists>cm'. iot_context_manager_remove cm (Some f) (Some (Foreign c))
      = (NRF_SUCCESS, Some (Foreign (context_init c)), cm') \<and>
    iot_context_manager_get_by_cid cm' (Some f) k (Some None) = iot_context_manager_get_by_cid cm (Some f) k (Some None) \<and>
    fst (iot_context_manager_get_by_cid cm' (Some f) k (Some None)) = NRF_SUCCESS \<and>
    (\<forall>addr. iot_context_manager_get_by_addr cm' (Some f) (Some addr) (Some None)
       = Inr (NRF_ERROR_NOT_FOUND OR IOT_CONTEXT_MANAGER_ERR_BASE, Some None))"
proof -
  let ?cs = "contexts t"
  have u: "keys_unique ctx_key ?cs" using assms(4) by (simp add: ctx_inv_def)
  obtain j where j: "j < length ?cs" "ctx_key (?cs ! j) = Some k" "c = ?cs ! j"
    using assms(6) unfolding ctx_map_def by (rule table_map_cases)
  have used: "ctx_used c" using j by (simp add: ctx_key_def split: if_splits)
  have k: "k \<le> CID_VALUE_MAX" using ctx_ids [OF assms(4)] assms(6) by auto
  have nz: "IOT_CONTEXT_MANAGER_MAX_TABLES \<noteq> 0" by (simp add: c_consts)
  let ?t' = "t\<lparr>context_count := 0\<rparr>" and ?cm' = "cm\<lparr>m_context_table := [t\<lparr>context_count := 0\<rparr>]\<rparr>"
  have find: "context_table_find cm (Some f) = 0" "context_table_find ?cm' (Some f) = 0"
    using one_table [of cm t] one_table [of ?cm' ?t'] assms(2,3) by simp_all
  have fj: "find_first (\<lambda>c. ctx_key c = Some k) ?cs = Some j" using find_key_Some [OF u] j by simp
  have "iot_context_manager_remove cm (Some f) (Some (Foreign c)) = (NRF_SUCCESS, Some (Foreign (context_init c)), ?cm')"
    using assms(1,2,5) find nz used by (simp add: iot_context_manager_remove_def table_upd_def ctx_used_def Let_def)
  moreover have "iot_context_manager_get_by_cid ?cm' (Some f) k (Some None) = (NRF_SUCCESS, Some (Some (0, j)))"
    "iot_context_manager_get_by_cid cm (Some f) k (Some None) = (NRF_SUCCESS, Some (Some (0, j)))"
    using assms(1,2) k find nz fj by (simp_all add: iot_context_manager_get_by_cid_def find_by_cid_eq)
  moreover have "find_by_prefix_loop cs addr i 0 = Inr None" for cs addr i by (cases cs) simp_all
  ultimately show ?thesis
    using assms(1) find nz
    by (intro exI [of _ ?cm']) (simp add: iot_context_manager_get_by_addr_def context_find_by_prefix_def)
qed

theorem iot_context_manager_remove_copy_miscounts_witness:
  "\<exists>cm'. iot_context_manager_remove sample_cm (Some 20) (Some (Foreign (contexts sample_table ! 0)))
      = (NRF_SUCCESS, Some (Foreign (context_init (contexts sample_table ! 0))), cm') \<and>
     fst (iot_context_manager_get_by_cid cm' (Some 20) 10 (Some None)) = NRF_SUCCESS \<and>
     iot_context_manager_get_by_addr cm' (Some 20) (Some ([32, 1, 13, 184] @ replicate 12 5)) (Some None)
       = Inr (NRF_ERROR_NOT_FOUND OR IOT_CONTEXT_MANAGER_ERR_BASE, Some None)"
proof -
  have u: "keys_unique ctx_key (contexts sample_table)" using sample_table_inv by (simp add: ctx_inv_def)
  have "ctx_map sample_table 10 = Some (contexts sample_table ! 0)"
    unfolding ctx_map_def
    by (rule table_map_Some [OF u]) (simp_all add: sample_table_def ctx_key_def ctx_used_def sample_context_def c_consts)
  from iot_context_manager_remove_copy_miscounts [OF _ _ _ sample_table_inv _ this, of sample_cm 20]
  show ?thesis by (auto simp: sample_cm_def) (auto simp: sample_table_def)
qed

section \<open>Lookup by address\<close>

lemma byte_and_high: "(ucast (a :: u8) :: u32) AND 0xFF00 = 0"
proof -
  have e: "(0xFF00 :: u32) = push_bit 8 (mask 8)" by (simp add: mask_eq_exp_minus_1)
  show ?thesis unfolding e by (rule bit_word_eqI) (auto simp: bit_simps dest: bit_imp_le_length)
qed

lemma prefix_cmp_aligned:
  assumes "length pfx = IPV6_ADDR_SIZE" "length pfx2 = IPV6_ADDR_SIZE" "unat n mod 8 = 0" "unat n < 128"
  shows "ipv6_address_prefix_cmp pfx pfx2 n = Inr (take (unat n div 8) pfx = take (unat n div 8) pfx2)"
proof -
  have "unat n div 8 < 16" using assms(4) by (simp add: div_less_iff_less_mult)
  then show ?thesis
    using assms(1-3) by (simp add: ipv6_address_prefix_cmp_def c_consts arr_read_eq byte_and_high Let_def)
qed

text \<open>The prefix comparison of two addresses is right for prefixes of whole bytes shorter than 128 bits. For a
  full address it reads one byte behind the address; for 1 to 7 bits it compares with a negative length;
  and for every other length the last whole byte of the prefix is not compared at all.\<close>

theorem ipv6_address_prefix_cmp_cases:
  assumes "length pfx = IPV6_ADDR_SIZE" "length pfx2 = IPV6_ADDR_SIZE" "n \<le> PREFIX_LENGTH_VALUE_MAX"
  shows "if unat n = 128 then ipv6_address_prefix_cmp pfx pfx2 n = (if pfx = pfx2 then Inl OutOfBoundsRead else Inr False)
    else if unat n mod 8 = 0
    then ipv6_address_prefix_cmp pfx pfx2 n = Inr (take (unat n div 8) pfx = take (unat n div 8) pfx2)
    else if unat n < 8 then ipv6_address_prefix_cmp pfx pfx2 n = Inl OutOfBoundsRead
    else ipv6_address_prefix_cmp pfx (pfx[unat n div 8 - 1 := x]) n = Inr True"
proof -
  have le: "unat n \<le> 128" using assms(3) by (simp add: c_consts word_le_nat_alt)
  consider "unat n = 128" | "unat n < 128" "unat n mod 8 = 0" | "unat n < 8" "unat n mod 8 \<noteq> 0"
    | "unat n < 128" "8 \<le> unat n" "unat n mod 8 \<noteq> 0"
    using le by linarith
  then show ?thesis
  proof cases
    case 1
    then show ?thesis
      using assms(1,2) by (simp add: ipv6_address_prefix_cmp_def c_consts arr_read_eq arr_get_def)
  next
    case 2
    then show ?thesis using prefix_cmp_aligned [OF assms(1,2)] by simp
  next
    case 3
    then show ?thesis by (simp add: ipv6_address_prefix_cmp_def)
  next
    case 4
    then have w: "unat n div 8 < 16" "1 \<le> unat n div 8"
      by (simp_all add: div_less_iff_less_mult less_eq_div_iff_mult_less_eq)
    have "take (unat n div 8 - 1) (pfx[unat n div 8 - 1 := x]) = take (unat n div 8 - 1) pfx" by simp
    moreover have "pfx[unat n div 8 - 1 := x] ! (unat n div 8) = pfx ! (unat n div 8)" using w by simp
    ultimately show ?thesis
      using 4 w assms(1) by (simp add: ipv6_address_prefix_cmp_def c_consts arr_read_eq)
  qed
qed

theorem ipv6_address_prefix_cmp_cases_witness:
  "ipv6_address_prefix_cmp (replicate 16 1) ((replicate 16 1)[4 := 77]) 44 = Inr True"
  using ipv6_address_prefix_cmp_cases [of "replicate 16 1" "replicate 16 1" 44 77] by (simp add: c_consts)

text \<open>With the counter right the loop looks at every context of the table.\<close>

lemma find_by_prefix_all:
  assumes "\<forall>c \<in> set cs. ctx_used c \<longrightarrow> length (prefix c) = IPV6_ADDR_SIZE \<and> unat (prefix_len c) mod 8 = 0 \<and> unat (prefix_len c) < 128"
    and "length addr = IPV6_ADDR_SIZE" "unat left = count_if ctx_used cs"
  shows "find_by_prefix_loop cs addr i left = Inr (find_from (\<lambda>c. ctx_used c \<and>
    take (unat (prefix_len c) div 8) (prefix c) = take (unat (prefix_len c) div 8) addr) i cs)"
  using assms(1,3)
proof (induction cs arbitrary: i left)
  case (Cons c cs)
  show ?case
  proof (cases "ctx_used c")
    case True
    then have n: "unat left = Suc (count_if ctx_used cs)" using Cons.prems(2) by (simp add: count_if_def)
    then have nz: "left \<noteq> 0" by auto
    then have "unat (left - 1) = count_if ctx_used cs" using n by (simp add: unat_minus_one)
    note ih = Cons.IH [OF _ this, of "Suc i"]
    show ?thesis
      using True Cons.prems(1) ih nz prefix_cmp_aligned [OF _ assms(2), of "prefix c" "prefix_len c"]
      by (simp add: ctx_used_def)
  next
    case False
    then have n: "unat left = count_if ctx_used cs" using Cons.prems(2) by (simp add: count_if_def)
    show ?thesis
    proof (cases "left = 0")
      case True
      then have "\<forall>c \<in> set cs. \<not> ctx_used c" using n by (simp add: count_if_zero)
      then have "find_from (\<lambda>c. ctx_used c \<and> Q c) j cs = None" for Q j by (simp add: find_from_None)
      then show ?thesis using True False by simp
    next
      case nz: False
      then show ?thesis using False Cons.IH [OF _ n] Cons.prems(1) by (simp add: ctx_used_def)
    qed
  qed
qed simp

text \<open>In a table whose prefixes have whole bytes and fewer than 128 bits, the lookup by address returns the first
  context of the table whose prefix the address has, and fails exactly when there is none; the shortcut
  by the counter never misses a context.\<close>

theorem iot_context_manager_get_by_addr_finds:
  assumes "cm_initialization_state cm" "m_context_table cm = [t]" "tab_interface t = Some f" "ctx_inv t"
    and "\<forall>c \<in> set (contexts t). ctx_used c \<longrightarrow> unat (prefix_len c) mod 8 = 0 \<and> unat (prefix_len c) < 128"
    and "length addr = IPV6_ADDR_SIZE"
  shows "iot_context_manager_get_by_addr cm (Some f) (Some addr) (Some p0) =
    (case find_first (\<lambda>c. ctx_used c \<and>
            take (unat (prefix_len c) div 8) (prefix c) = take (unat (prefix_len c) div 8) addr) (contexts t) of
       Some i \<Rightarrow> Inr (NRF_SUCCESS, Some (Some (0, i)))
     | None \<Rightarrow> Inr (NRF_ERROR_NOT_FOUND OR IOT_CONTEXT_MANAGER_ERR_BASE, Some p0))"
proof -
  have find: "context_table_find cm (Some f) = 0" using one_table [OF assms(2)] assms(3) by simp
  have ok: "\<forall>c \<in> set (contexts t). ctx_used c \<longrightarrow>
      length (prefix c) = IPV6_ADDR_SIZE \<and> unat (prefix_len c) mod 8 = 0 \<and> unat (prefix_len c) < 128"
    using assms(4,5) by (auto simp: ctx_inv_def ctx_valid_def)
  have nz: "IOT_CONTEXT_MANAGER_MAX_TABLES \<noteq> 0" by (simp add: c_consts)
  have "unat (ucast (context_count t) :: u32) = count_if ctx_used (contexts t)"
    using assms(4) by (simp add: ctx_inv_def)
  from find_by_prefix_all [OF ok assms(6) this, of 0] show ?thesis
    using assms(1,2) find nz
    by (simp add: iot_context_manager_get_by_addr_def context_find_by_prefix_def find_first_def split: option.splits)
qed

theorem iot_context_manager_get_by_addr_finds_witness:
  "iot_context_manager_get_by_addr sample_cm (Some 20) (Some ([32, 1, 13, 184] @ replicate 12 5)) (Some None)
   = Inr (NRF_SUCCESS, Some (Some (0, 0)))"
proof -
  have "\<forall>c \<in> set (contexts sample_table). ctx_used c \<longrightarrow> unat (prefix_len c) mod 8 = 0 \<and> unat (prefix_len c) < 128"
    by (simp add: sample_table_def sample_context_def)
  from iot_context_manager_get_by_addr_finds [OF _ _ _ sample_table_inv this, of sample_cm 20 "[32, 1, 13, 184] @ replicate 12 5" None]
  show ?thesis
    by (simp add: sample_cm_def c_consts)
       (simp add: sample_table_def sample_context_def find_first_def ctx_used_def c_consts)
qed

end
