(* ===== verification/Net_Stack.thy ===== *)
theory Net_Stack
  imports Iot_Pbuffer Ipv6_Address Context_Manager
begin

text \<open>
  The state the layers of the IPv6 stack share, the fields of packet headers in byte memory, and
  \<open>ipv6_send\<close> of \<^verbatim>\<open>components/iot/ipv6_stack/ipv6/ipv6.c\<close>. The CPU is little-endian: a 16-bit field is
  stored with its low byte first, and \<open>HTONS\<close> swaps the bytes of a number before it is stored.
\<close>

section \<open>Header fields\<close>

definition store_u8 :: "heap \<Rightarrow> ptr \<Rightarrow> nat \<Rightarrow> u8 \<Rightarrow> fault + heap" where
  "store_u8 h p off v = store_bytes h (ptr_add p off) [v]"

definition store_u16 :: "heap \<Rightarrow> ptr \<Rightarrow> nat \<Rightarrow> u16 \<Rightarrow> fault + heap" where
  "store_u16 h p off v = store_bytes h (ptr_add p off) [u16_lo v, u16_hi v]"

definition load_u16 :: "heap \<Rightarrow> ptr \<Rightarrow> nat \<Rightarrow> fault + u16" where
  "load_u16 h p off = c_bind (load_bytes h (ptr_add p off) 2) (\<lambda>bs. Inr (u16_of_bytes (bs ! 1) (bs ! 0)))"

definition load_addr :: "heap \<Rightarrow> ptr \<Rightarrow> nat \<Rightarrow> fault + u8 list" where
  "load_addr h p off = load_bytes h (ptr_add p off) 16"

text \<open>\<open>p - n\<close>: a pointer before the start of the object is undefined.\<close>

fun ptr_sub :: "ptr \<Rightarrow> nat \<Rightarrow> fault + ptr" where
  "ptr_sub NULL n = Inl NullDereference"
| "ptr_sub (Ptr b i) n = (if n \<le> i then Inr (Ptr b (i - n)) else Inl OutOfBoundsWrite)"

text \<open>\<open>ipv6_header_init\<close> of \<^verbatim>\<open>ipv6_utils.c\<close> fills all fields but the addresses.\<close>

definition ipv6_header_init :: "heap \<Rightarrow> ptr \<Rightarrow> fault + heap" where
  "ipv6_header_init h p_ip_header =
     c_bind (store_u8 h p_ip_header 0 IPV6_DEFAULT_VER_TC) (\<lambda>h.
     c_bind (store_u8 h p_ip_header 1 IPV6_DEFAULT_TC_FL) (\<lambda>h.
     c_bind (store_u16 h p_ip_header 2 IPV6_DEFAULT_FL) (\<lambda>h.
     c_bind (store_u8 h p_ip_header 6 IPV6_NEXT_HEADER_RESERVED) (\<lambda>h.
     c_bind (store_u8 h p_ip_header 7 IPV6_DEFAULT_HOP_LIMIT) (\<lambda>h.
     store_u16 h p_ip_header 4 0)))))"

section \<open>The state of the stack\<close>

record udp6_socket_t =
  socket_id :: u32
  sock_app_data :: nat

record socket_t =
  local_port :: u16
  remote_port :: u16
  local_addr :: "u8 list"
  remote_addr :: "u8 list"
  rx_cb :: "nat option"
  skt_app_data :: nat

text \<open>
  \<open>net\<close> collects the static data of the modules: the packet buffers with the memory manager and the byte
  store, the interface and address tables, the compression contexts, the UDP sockets and the ICMPv6
  module. \<open>n_world\<close> is what lies outside: the radio link and the application.
\<close>

record 'w net =
  n_pbuf :: pbuf_state
  n_ipv6 :: ipv6_state
  udp_initialized :: bool
  m_socket :: "socket_t list"
  n_ctx :: context_manager
  icmp_initialized :: bool
  m_sequence_number :: u16
  icmp_handler :: "nat option"
  n_world :: 'w

text \<open>The events of the IPv6 module; a received packet comes with its buffer and the address of its header.\<close>

datatype ipv6_event_t =
  IPV6_EVT_INTERFACE_ADD | IPV6_EVT_INTERFACE_DELETE | IPV6_EVT_INTERFACE_RX_DATA u32 ptr

text \<open>
  The functions called outside: \<open>ble_6lowpan_init\<close> with the EUI-64 of the device and
  \<open>ble_6lowpan_interface_send\<close> with the interface, the bytes of the packet and their number; the event
  handler of the application with the interface and the event; and the receive callbacks of the sockets
  with the socket, the addresses of the two headers, the result and the packet buffer.
\<close>

record 'w net_env =
  env_6lo_init :: "u8 list \<Rightarrow> 'w \<Rightarrow> u32 \<times> 'w"
  env_6lo_send :: "nat \<Rightarrow> u8 list \<Rightarrow> u16 \<Rightarrow> 'w \<Rightarrow> u32 \<times> 'w"
  env_rx :: "nat \<Rightarrow> udp6_socket_t \<Rightarrow> ptr \<Rightarrow> ptr \<Rightarrow> u32 \<Rightarrow> u32 \<Rightarrow> 'w net \<Rightarrow> fault + u32 \<times> 'w net"
  env_evt :: "nat \<Rightarrow> nat \<Rightarrow> ipv6_event_t \<Rightarrow> 'w net \<Rightarrow> fault + 'w net"

abbreviation net_heap :: "'w net \<Rightarrow> heap" where "net_heap s \<equiv> pb_heap (n_pbuf s)"

definition set_heap :: "'w net \<Rightarrow> heap \<Rightarrow> 'w net" where
  "set_heap s h = s\<lparr>n_pbuf := (n_pbuf s)\<lparr>pb_heap := h\<rparr>\<rparr>"

text \<open>The descriptor behind a pointer to a packet buffer, which is its distance from the table.\<close>

definition pb_index :: "u32 \<Rightarrow> nat" where "pb_index diff = unat (diff div SIZEOF_PBUFFER)"

definition pb_get :: "'w net \<Rightarrow> u32 \<Rightarrow> fault + pbuffer_t" where
  "pb_get s diff =
     (if diff mod SIZEOF_PBUFFER \<noteq> 0 then Inl OutOfBoundsRead else arr_get (m_pbuffer (n_pbuf s)) (pb_index diff))"

definition pb_set :: "'w net \<Rightarrow> u32 \<Rightarrow> (pbuffer_t \<Rightarrow> pbuffer_t) \<Rightarrow> 'w net" where
  "pb_set s diff f = s\<lparr>n_pbuf := pbuf_upd (n_pbuf s) (pb_index diff) f\<rparr>"

section \<open>Sending a packet\<close>

text \<open>The descriptor is released, the memory belongs to the 6LoWPAN library from then on.\<close>

definition ipv6_send :: "'w net_env \<Rightarrow> 'w net \<Rightarrow> nat option \<Rightarrow> u32 option \<Rightarrow> fault + u32 \<times> 'w net" where
  "ipv6_send E s p_interface p_packet =
     (if m_event_handler (n_ipv6 s) = None then Inr (SDK_ERR_MODULE_NOT_INITIALZED OR IOT_IPV6_ERR_BASE, s)
      else case p_packet of
        None \<Rightarrow> Inr (NRF_ERROR_NULL OR IOT_IPV6_ERR_BASE, s)
      | Some packet \<Rightarrow>
        (case p_interface of
           None \<Rightarrow> Inr (NRF_ERROR_NULL OR IOT_IPV6_ERR_BASE, s)
         | Some iface \<Rightarrow>
           c_bind (pb_get s packet) (\<lambda>b.
           let len = ucast (pb_length b) :: u16
           in c_bind (load_bytes (net_heap s) (pb_payload b) (unat len)) (\<lambda>bytes.
              case env_6lo_send E iface bytes len (n_world s) of (err_code, w) \<Rightarrow>
              c_bind (iot_pbuffer_free (n_pbuf s) (Some packet) False) (\<lambda>(_, pb).
              Inr (err_code, s\<lparr>n_world := w, n_pbuf := pb\<rparr>))))))"

text \<open>The buffer with index \<open>i\<close>.\<close>

definition pb_ptr :: "nat \<Rightarrow> u32" where "pb_ptr i = SIZEOF_PBUFFER * of_nat i"

lemma pb_ptr_index [simp]:
  assumes "i \<le> IOT_PBUFFER_MAX_COUNT"
  shows "pb_index (pb_ptr i) = i" "pb_ptr i mod SIZEOF_PBUFFER = 0" "pbuffer_find (pb_ptr i) = (NRF_SUCCESS, Some i)"
  using pbuffer_find_index [OF assms] by (simp_all add: pb_ptr_def pb_index_def pbuffer_find_def split: if_splits)

lemma pb_get_ptr:
  "length (m_pbuffer (n_pbuf s)) = IOT_PBUFFER_MAX_COUNT \<Longrightarrow> i < IOT_PBUFFER_MAX_COUNT \<Longrightarrow>
   pb_get s (pb_ptr i) = Inr (m_pbuffer (n_pbuf s) ! i)"
  by (simp add: pb_get_def)

lemma pbuffer_init_eq: "pbuffer_init (pbuffer_init b) = pbuffer_init b"
  "pbuffer_init (b\<lparr>pb_payload := p, pb_length := n\<rparr>) = pbuffer_init b"
  by (simp_all add: pbuffer_init_def)

text \<open>The state after a packet was given away: the descriptor is free, the memory is not.\<close>

definition given_away :: "'w net \<Rightarrow> nat \<Rightarrow> heap \<Rightarrow> 'w \<Rightarrow> 'w net" where
  "given_away s i h w = s\<lparr>n_world := w, n_pbuf := pbuf_upd ((n_pbuf s)\<lparr>pb_heap := h\<rparr>) i pbuffer_init\<rparr>"

lemma ipv6_send_gives:
  assumes "m_event_handler (n_ipv6 s) \<noteq> None" "pb_initialized (n_pbuf s)"
    and "length (m_pbuffer (n_pbuf s)) = IOT_PBUFFER_MAX_COUNT" "i < IOT_PBUFFER_MAX_COUNT"
    and "load_bytes h p (unat n) = Inr bytes" "env_6lo_send E iface bytes n (n_world s) = (e, w)" "unat len = unat n"
  shows "ipv6_send E (pb_set (set_heap s h) (pb_ptr i) (\<lambda>b. b\<lparr>pb_payload := p, pb_length := len\<rparr>)) (Some iface) (Some (pb_ptr i)) =
    Inr (e, given_away s i h w)"
proof -
  have "(ucast len :: u16) = n"
    using assms(7) unat_u16_less [of n] by (simp add: word_unat_eq_iff unsigned_ucast_eq take_bit_nat_def)
  then show ?thesis
    using assms by (auto simp: ipv6_send_def pb_set_def set_heap_def pb_get_def pbuf_upd_def iot_pbuffer_free_def
        given_away_def pbuffer_init_eq)
qed

text \<open>A stack with one interface whose world is the list of the packets sent.\<close>

definition sample_net :: "pbuf_state \<Rightarrow> u8 list list net" where
  "sample_net pb = \<lparr>n_pbuf = pb, n_ipv6 = link_state, udp_initialized = True,
     m_socket = replicate 3 \<lparr>local_port = 0, remote_port = 0, local_addr = replicate 16 0, remote_addr = replicate 16 0,
       rx_cb = None, skt_app_data = 0\<rparr>,
     n_ctx = \<lparr>m_context_table = [\<lparr>tab_interface = Some 0, context_count = 0,
       contexts = replicate 16 \<lparr>context_id = 0xFF, prefix_len = 0, prefix = replicate 16 0, compression_flag = False\<rparr>\<rparr>],
       cm_initialization_state = True\<rparr>,
     icmp_initialized = True, m_sequence_number = 0, icmp_handler = None, n_world = []\<rparr>"

definition sample_env :: "u8 list list net_env" where
  "sample_env = \<lparr>env_6lo_init = (\<lambda>_ w. (NRF_SUCCESS, w)), env_6lo_send = (\<lambda>_ bytes _ w. (NRF_SUCCESS, w @ [bytes])),
     env_rx = (\<lambda>_ _ _ _ _ _ s. Inr (NRF_SUCCESS, s)), env_evt = (\<lambda>_ _ _ s. Inr s)\<rparr>"

end
