(* ===== verification/Packet_Fields.thy ===== *)
theory Packet_Fields
  imports Net_Stack
begin

text \<open>
  Reasoning about packets in byte memory: a header is a list of fields of fixed widths between what lies
  in front of it and behind it, a store to a field updates one element of the list. The second half is
  the checksum over such fields: the one's complement sum depends on the sum of the words only.
\<close>

section \<open>Fields of fixed widths\<close>

definition has_widths :: "nat list \<Rightarrow> u8 list list \<Rightarrow> bool" where
  "has_widths ws cs \<longleftrightarrow> map length cs = ws"

definition pos :: "nat list \<Rightarrow> nat \<Rightarrow> nat" where
  "pos ws j = sum_list (take j ws)"

lemma widths_length: "has_widths ws cs \<Longrightarrow> length cs = length ws"
  by (auto simp: has_widths_def)

lemma widths_nth: "has_widths ws cs \<Longrightarrow> j < length ws \<Longrightarrow> length (cs ! j) = ws ! j"
  by (auto simp: has_widths_def)

lemma widths_upd [simp]: "has_widths ws cs \<Longrightarrow> length v = ws ! j \<Longrightarrow> has_widths ws (cs[j := v])"
  by (cases "j < length cs") (auto simp: has_widths_def map_update list_update_same_conv list_update_beyond)

lemma widths_take: "has_widths ws cs \<Longrightarrow> length (concat (take j cs)) = pos ws j"
  by (auto simp: length_concat pos_def has_widths_def take_map [symmetric])

lemma widths_concat: "has_widths ws cs \<Longrightarrow> length (concat cs) = sum_list ws"
  by (auto simp: length_concat has_widths_def)

lemma widths_drop: "has_widths ws cs \<Longrightarrow> length (concat (drop j cs)) = sum_list ws - pos ws j"
proof -
  assume l: "has_widths ws cs"
  have "length (concat (take j cs)) + length (concat (drop j cs)) = sum_list ws"
    using widths_concat [OF l] by (metis append_take_drop_id concat_append length_append)
  then show ?thesis using widths_take [OF l, of j] by simp
qed

lemma concat_split: "j < length cs \<Longrightarrow> concat cs = concat (take j cs) @ cs ! j @ concat (drop (Suc j) cs)"
  by (metis concat.simps(2) concat_append id_take_nth_drop)

lemma concat_cuts:
  "k \<le> length ns \<Longrightarrow> concat (map (\<lambda>j. take (ns ! j) (drop (sum_list (take j ns)) xs)) [0..<k]) = take (sum_list (take k ns)) xs"
  by (induction k) (simp_all add: take_Suc_conv_app_nth take_add)

lemma pos_le: "j < length ws \<Longrightarrow> pos ws j + ws ! j \<le> sum_list ws"
proof -
  assume j: "j < length ws"
  have "sum_list ws = sum_list (take j ws) + sum_list (drop j ws)" by (metis append_take_drop_id sum_list.append)
  moreover have "drop j ws = ws ! j # drop (Suc j) ws" using j by (simp add: Cons_nth_drop_Suc)
  ultimately show ?thesis by (simp add: pos_def)
qed

text \<open>Any bytes of the right number can be read as fields.\<close>

lemma widths_of:
  assumes "length old = sum_list ws"
  obtains cs where "has_widths ws cs" "concat cs = old"
proof
  let ?cs = "map (\<lambda>j. take (ws ! j) (drop (pos ws j) old)) [0..<length ws]"
  have len: "length (take (ws ! j) (drop (pos ws j) old)) = ws ! j" if "j < length ws" for j
    using pos_le [OF that] assms by simp
  show "has_widths ws ?cs"
    unfolding has_widths_def
  proof (rule nth_equalityI)
    fix j assume "j < length (map length ?cs)"
    then have "j < length ws" by simp
    then show "map length ?cs ! j = ws ! j" using len [of j] by (simp del: length_take length_drop)
  qed simp
  show "concat ?cs = old"
    using concat_cuts [of "length ws" ws old] assms by (simp add: pos_def)
qed

section \<open>A header in memory\<close>

text \<open>The heap with the fields \<open>cs\<close> in the object \<open>blk\<close>, between \<open>pre\<close> and \<open>post\<close>.\<close>

definition hput :: "heap \<Rightarrow> nat \<Rightarrow> u8 list \<Rightarrow> u8 list list \<Rightarrow> u8 list \<Rightarrow> heap" where
  "hput h blk pre cs post = h(blk := pre @ concat cs @ post)"

declare store_bytes.simps(2) [simp del] load_bytes.simps(2) [simp del]

lemma hput_store:
  assumes "has_widths ws cs" "a = length pre + pos ws j" "j < length ws" "length v = ws ! j"
  shows "store_bytes (hput h blk pre cs post) (Ptr blk a) v = Inr (hput h blk pre (cs[j := v]) post)"
proof -
  have j: "j < length cs" using assms(1,3) by (simp add: widths_length)
  have a: "a = length (pre @ concat (take j cs))" using assms(1,2) by (simp add: widths_take)
  have h: "pre @ concat cs @ post = (pre @ concat (take j cs)) @ cs ! j @ concat (drop (Suc j) cs) @ post"
    using concat_split [OF j] by simp
  have "concat (cs[j := v]) = concat (take j cs) @ v @ concat (drop (Suc j) cs)"
    using j by (simp add: upd_conv_take_nth_drop)
  then show ?thesis
    unfolding a hput_def store_bytes.simps fun_upd_same h
    using assms widths_nth [OF assms(1,3)] by (simp add: arr_write_eq)
qed

text \<open>Several fields and the payload behind them.\<close>

lemma hput_tail_load:
  assumes "has_widths ws cs" "n = length (concat (drop j cs)) + m" "m \<le> length post" "a = length pre + pos ws j"
  shows "load_bytes (hput h blk pre cs post) (Ptr blk a) n = Inr (concat (drop j cs) @ take m post)"
proof -
  have h: "pre @ concat cs @ post = (pre @ concat (take j cs)) @ concat (drop j cs) @ post"
    by (metis append.assoc append_take_drop_id concat_append)
  have a: "a = length (pre @ concat (take j cs))" using assms(1,4) by (simp add: widths_take)
  show ?thesis unfolding a hput_def load_bytes.simps fun_upd_same h assms(2) using assms(3) by (simp add: arr_read_def)
qed

lemma hput_load:
  assumes "has_widths ws cs" "a = length pre + pos ws j" "j < length ws" "n = ws ! j"
  shows "load_bytes (hput h blk pre cs post) (Ptr blk a) n = Inr (cs ! j)"
proof -
  have j: "j < length cs" using assms(1,3) by (simp add: widths_length)
  have a: "a = length (pre @ concat (take j cs))" using assms(1,2) by (simp add: widths_take)
  have h: "pre @ concat cs @ post = (pre @ concat (take j cs)) @ cs ! j @ concat (drop (Suc j) cs) @ post"
    using concat_split [OF j] by simp
  show ?thesis
    unfolding a hput_def load_bytes.simps fun_upd_same h using assms widths_nth [OF assms(1,3)] by (auto simp: arr_read_def)
qed

lemma load_field:
  assumes "has_widths ws cs" "a + k = length pre + pos ws j" "j < length ws" "cs ! j = [v]"
  shows "load (hput h blk pre cs post) (Ptr blk a) k = Inr v"
proof -
  have "ws ! j = 1" using widths_nth [OF assms(1,3)] assms(4) by simp
  then have "load_bytes (hput h blk pre cs post) (Ptr blk (a + k)) 1 = Inr [v]"
    using hput_load [OF assms(1,2,3), of 1 h blk post] assms(4) by simp
  then show ?thesis
    by (auto simp: load_bytes.simps arr_read_def arr_get_def take_Suc_conv_app_nth split: if_splits)
qed

text \<open>Fields of 16 bits, in the byte order of the network and of the CPU.\<close>

definition net16 :: "u16 \<Rightarrow> u8 list" where "net16 x = [u16_hi x, u16_lo x]"

definition le16 :: "u16 \<Rightarrow> u8 list" where "le16 x = [u16_lo x, u16_hi x]"

lemma le16_HTONS [simp]: "le16 (HTONS x) = net16 x" "net16 (HTONS x) = le16 x" "le16 0 = [0, 0]"
  by (simp_all add: le16_def net16_def) (simp_all add: u16_lo_def u16_hi_def)

lemma length_le16 [simp]: "length (le16 x) = 2" "length (net16 x) = 2"
  by (simp_all add: le16_def net16_def)

lemma store_u16_le16: "store_u16 h (Ptr b a) off v = store_bytes h (Ptr b (a + off)) (le16 v)"
  by (simp add: store_u16_def le16_def)

lemma load_u16_field:
  assumes "has_widths ws cs" "a + off = length pre + pos ws j" "j < length ws" "ws ! j = 2"
  shows "load_u16 (hput h blk pre cs post) (Ptr blk a) off = Inr (u16_of_bytes (cs ! j ! 1) (cs ! j ! 0))"
  using assms hput_load [OF assms(1,2,3), of 2] by (simp add: load_u16_def)

lemma u16_of_fields [simp]:
  "u16_of_bytes (net16 x ! Suc 0) (net16 x ! 0) = HTONS x" "u16_of_bytes (le16 x ! Suc 0) (le16 x ! 0) = x"
  using HTONS_swap [of "u16_hi x" "u16_lo x"] by (simp_all add: net16_def le16_def)

section \<open>The checksum\<close>

text \<open>
  The one's complement sum depends on the total only: it is the residue modulo 65535 in the range 1 to
  65535, and 0 for the total 0.
\<close>

definition oc_norm :: "nat \<Rightarrow> nat" where
  "oc_norm t = (if t = 0 then 0 else (t - 1) mod 65535 + 1)"

lemma oc_norm_le: "oc_norm t \<le> 65535"
proof -
  have "(t - 1) mod 65535 < (65535 :: nat)" by simp
  then have "(t - 1) mod 65535 + 1 \<le> (65535 :: nat)" by linarith
  then show ?thesis by (simp only: oc_norm_def if_split) simp
qed

lemma oc_norm_small: "t \<le> 65535 \<Longrightarrow> oc_norm t = t"
  by (simp add: oc_norm_def)

lemma oc_norm_step:
  assumes "x \<le> 65535" "y \<le> 65535"
  shows "oc_norm (x + y + t) = oc_norm (oc_add x y + t)"
proof (cases "x + y > 65535")
  case True
  then have "x + y + t - 1 = 65535 + (x + y - 65535 + t - 1)" "x + y - 65535 + t \<noteq> 0" by auto
  then have "(x + y + t - 1) mod 65535 = (x + y - 65535 + t - 1) mod 65535" by (metis mod_add_self1)
  moreover have "x + y + t \<noteq> 0" using True by linarith
  ultimately show ?thesis using True by (simp only: oc_norm_def oc_add_def if_True if_False) simp
next
  case False
  then show ?thesis by (simp add: oc_add_def)
qed

lemma oc_add_le: "x \<le> 65535 \<Longrightarrow> y \<le> 65535 \<Longrightarrow> oc_add x y \<le> 65535"
  by (auto simp: oc_add_def)

lemma oc_sum_norm:
  assumes "x \<le> 65535" "\<forall>w \<in> set ws. w \<le> 65535"
  shows "oc_sum x ws = oc_norm (x + sum_list ws)"
  using assms
proof (induction ws arbitrary: x)
  case Nil
  then show ?case by (simp add: oc_sum_def oc_norm_small)
next
  case (Cons w ws)
  then have "oc_sum x (w # ws) = oc_norm (oc_add x w + sum_list ws)"
    using Cons.IH [of "oc_add x w"] oc_add_le [of x w] by (simp add: oc_sum_def)
  then show ?case using oc_norm_step [of x w "sum_list ws"] Cons.prems by (simp add: add.assoc)
qed

definition byte_total :: "u8 list \<Rightarrow> nat" where
  "byte_total bs = sum_list (be_words bs)"

lemma be_words_append: "even (length xs) \<Longrightarrow> be_words (xs @ ys) = be_words xs @ be_words ys"
  by (induction xs rule: be_words.induct) auto

lemma byte_total_append: "even (length xs) \<Longrightarrow> byte_total (xs @ ys) = byte_total xs + byte_total ys"
  by (simp add: byte_total_def be_words_append)

lemma byte_total_net16 [simp]: "byte_total (net16 x) = unat x"
proof -
  have "unat (u16_of_bytes (u16_hi x) (u16_lo x)) = 256 * unat (u16_hi x) + unat (u16_lo x)"
  proof -
    have "unat (push_bit 8 (ucast (u16_hi x)) :: u16) = 256 * unat (u16_hi x)"
      using unat_u8_less [of "u16_hi x"] unfolding unsigned_push_bit_eq
      by (simp add: push_bit_eq_mult take_bit_nat_def)
    moreover have "unat (push_bit 8 (ucast (u16_hi x)) :: u16) + unat (ucast (u16_lo x) :: u16) < 65536"
      using calculation unat_u8_less [of "u16_hi x"] unat_u8_less [of "u16_lo x"] by simp
    ultimately show ?thesis by (simp add: u16_of_bytes_def unat_add_u16)
  qed
  then show ?thesis by (simp add: byte_total_def net16_def)
qed

lemma byte_total_zero [simp]: "byte_total [0, 0] = 0" "byte_total [] = 0"
  by (simp_all add: byte_total_def)

lemma oc_sum_bytes: "x \<le> 65535 \<Longrightarrow> oc_sum x (be_words bs) = oc_norm (x + byte_total bs)"
  using be_words_le [of _ bs] by (simp add: oc_sum_norm byte_total_def)

lemma oc_norm_idem: "oc_norm (oc_norm a + b) = oc_norm (a + b)"
proof (cases "a = 0")
  case False
  have "((a - 1) mod 65535 + b) mod 65535 = (a - 1 + b) mod 65535" by (simp add: mod_add_left_eq)
  moreover have "a + b - 1 = a - 1 + b" using False by simp
  ultimately show ?thesis using False by (simp add: oc_norm_def)
qed (simp add: oc_norm_def)

text \<open>A call of \<open>ipv6_checksum_calculate\<close> in these terms.\<close>

lemma checksum_calculate_total:
  assumes "load_bytes h data (unat len) = Inr bytes"
  shows "\<exists>r. ipv6_checksum_calculate h data len checksum flip = Inr r \<and>
    unat r = (let v = oc_norm (unat checksum + byte_total bytes) in if flip \<and> v = 65535 then 0 else v)"
  using checksum_is_sum [OF assms, of checksum flip] unat_u16_less [of checksum]
  by (simp add: oc_sum_bytes Let_def)

lemma unat_NOT_u16: "unat (NOT (r :: u16)) = 65535 - unat r"
proof -
  have "unat (NOT r) = 65535 - unat r \<longleftrightarrow> unat (NOT r) + unat r = 65535"
    using unat_u16_less [of r] by linarith
  moreover have "NOT r = 65535 - r" by (simp add: not_eq_complement)
  moreover have "unat (65535 - r) = unat (65535 :: u16) - unat r"
    using unat_u16_less [of r] by (intro unat_sub) (simp add: word_le_nat_alt)
  ultimately show ?thesis by simp
qed

text \<open>The pseudo header of RFC 2460, for the protocol \<open>nh\<close> and a message of \<open>n\<close> bytes.\<close>

definition pseudo_header :: "u8 \<Rightarrow> u8 list \<Rightarrow> u8 list \<Rightarrow> nat \<Rightarrow> u8 list" where
  "pseudo_header nh src dst n = src @ dst @ [0, 0] @ net16 (of_nat n) @ [0, 0, 0, nh]"

lemma byte_total_pseudo_header:
  assumes "length src = 16" "length dst = 16" "n < 65536"
  shows "byte_total (pseudo_header nh src dst n @ xs) = byte_total src + byte_total dst + n + unat nh + byte_total xs"
proof -
  have "unat (of_nat n :: u16) = n" by (rule unat_of_nat_u16 [OF assms(3)])
  moreover have "byte_total (0 # 0 # ys) = byte_total ys" for ys using byte_total_append [of "[0, 0]" ys] by simp
  moreover have "byte_total (0 # nh # ys) = unat nh + byte_total ys" for ys
    using byte_total_append [of "[0, nh]" ys] by (simp add: byte_total_def)
  ultimately show ?thesis using assms(1,2) by (simp add: pseudo_header_def byte_total_append)
qed

end
