(* ===== verification/Icmp6.thy ===== *)
theory Icmp6
  imports Packet_Fields
begin

text \<open>
  ICMPv6, \<^verbatim>\<open>components/iot/ipv6_stack/icmp6/icmp6.c\<close>: the reply to an echo request, the options of a router
  advertisement, and the messages the application may send. In the configuration of the device no message
  is passed to the application and echo requests are answered by the module.
\<close>

section \<open>Constants\<close>

definition ICMP6_TYPE_DESTINATION_UNREACHABLE :: u8 where [c_consts]: "ICMP6_TYPE_DESTINATION_UNREACHABLE = 1"
definition ICMP6_TYPE_PACKET_TOO_LONG :: u8 where [c_consts]: "ICMP6_TYPE_PACKET_TOO_LONG = 2"
definition ICMP6_TYPE_TIME_EXCEED :: u8 where [c_consts]: "ICMP6_TYPE_TIME_EXCEED = 3"
definition ICMP6_TYPE_PARAMETER_PROBLEM :: u8 where [c_consts]: "ICMP6_TYPE_PARAMETER_PROBLEM = 4"
definition ICMP6_TYPE_ECHO_REQUEST :: u8 where [c_consts]: "ICMP6_TYPE_ECHO_REQUEST = 128"
definition ICMP6_TYPE_ECHO_REPLY :: u8 where [c_consts]: "ICMP6_TYPE_ECHO_REPLY = 129"
definition ICMP6_TYPE_ROUTER_SOLICITATION :: u8 where [c_consts]: "ICMP6_TYPE_ROUTER_SOLICITATION = 133"
definition ICMP6_TYPE_ROUTER_ADVERTISEMENT :: u8 where [c_consts]: "ICMP6_TYPE_ROUTER_ADVERTISEMENT = 134"
definition ICMP6_TYPE_NEIGHBOR_SOLICITATION :: u8 where [c_consts]: "ICMP6_TYPE_NEIGHBOR_SOLICITATION = 135"
definition ICMP6_TYPE_NEIGHBOR_ADVERTISEMENT :: u8 where [c_consts]: "ICMP6_TYPE_NEIGHBOR_ADVERTISEMENT = 136"
definition ICMP6_UNHANDLED_PACKET_TYPE :: u32 where [c_consts]: "ICMP6_UNHANDLED_PACKET_TYPE = 0xC140"
definition ICMP6_BAD_CHECKSUM :: u32 where [c_consts]: "ICMP6_BAD_CHECKSUM = 0xC141"
definition ICMP6_MALFORMED_PACKET :: u32 where [c_consts]: "ICMP6_MALFORMED_PACKET = 0xC142"
definition ICMP6_INVALID_PACKET_DATA :: u32 where [c_consts]: "ICMP6_INVALID_PACKET_DATA = 0xC143"
definition ND_NS_HEADER_SIZE :: u32 where [c_consts]: "ND_NS_HEADER_SIZE = 20"
definition ND_RS_HEADER_SIZE :: u32 where [c_consts]: "ND_RS_HEADER_SIZE = 4"
definition ND_RA_HEADER_SIZE :: u16 where [c_consts]: "ND_RA_HEADER_SIZE = 12"
definition ND_OPT_TYPE_SLLAO :: u8 where [c_consts]: "ND_OPT_TYPE_SLLAO = 1"
definition ND_OPT_TYPE_PIO :: u8 where [c_consts]: "ND_OPT_TYPE_PIO = 3"
definition ND_OPT_TYPE_ARO :: u8 where [c_consts]: "ND_OPT_TYPE_ARO = 33"
definition ND_OPT_TYPE_6CO :: u8 where [c_consts]: "ND_OPT_TYPE_6CO = 34"
definition ND_OPT_SLLAO_LENGTH :: u8 where [c_consts]: "ND_OPT_SLLAO_LENGTH = 2"
definition ND_OPT_ARO_LENGTH :: u8 where [c_consts]: "ND_OPT_ARO_LENGTH = 2"
definition ND_OPT_SLLAO_SIZE :: u32 where [c_consts]: "ND_OPT_SLLAO_SIZE = 16"
definition ND_OPT_ARO_SIZE :: u32 where [c_consts]: "ND_OPT_ARO_SIZE = 16"
definition ND_OPT_PIO_A_MASK :: u8 where [c_consts]: "ND_OPT_PIO_A_MASK = 0x40"
definition ND_OPT_PIO_L_MASK :: u8 where [c_consts]: "ND_OPT_PIO_L_MASK = 0x80"
definition ND_OPT_6CO_CID_MASK :: u8 where [c_consts]: "ND_OPT_6CO_CID_MASK = 0x0F"
definition ND_OPT_6CO_C_MASK :: u8 where [c_consts]: "ND_OPT_6CO_C_MASK = 0x10"
definition ND_HOP_LIMIT :: u8 where [c_consts]: "ND_HOP_LIMIT = 255"

abbreviation icmp_err :: "u32 \<Rightarrow> u32" where "icmp_err e \<equiv> e OR IOT_ICMP6_ERR_BASE"

section \<open>Headers\<close>

definition icmp_ip_header :: "heap \<Rightarrow> ptr \<Rightarrow> u8 \<Rightarrow> fault + heap" where
  "icmp_ip_header h p_ip_header hoplimit =
     c_bind (ipv6_header_init h p_ip_header) (\<lambda>h.
     c_bind (store_u8 h p_ip_header 6 IPV6_NEXT_HEADER_ICMP6) (\<lambda>h.
     store_u8 h p_ip_header 7 hoplimit))"

text \<open>The ICMPv6 header: type, code 0 and, for now, checksum 0.\<close>

definition icmp_header_store :: "heap \<Rightarrow> ptr \<Rightarrow> u8 \<Rightarrow> fault + heap" where
  "icmp_header_store h p_icmp_header type =
     c_bind (store_u8 h p_icmp_header 0 type) (\<lambda>h.
     c_bind (store_u8 h p_icmp_header 1 0) (\<lambda>h. store_u16 h p_icmp_header 2 0))"

text \<open>Addresses and length of the IPv6 header of a message that is sent.\<close>

definition icmp_addresses_store :: "heap \<Rightarrow> ptr \<Rightarrow> u8 list \<Rightarrow> u8 list \<Rightarrow> u32 \<Rightarrow> fault + heap" where
  "icmp_addresses_store h p_ip_header src dest len =
     c_bind (store_bytes h (ptr_add p_ip_header 8) src) (\<lambda>h.
     c_bind (store_bytes h (ptr_add p_ip_header 24) dest) (\<lambda>h.
     store_u16 h p_ip_header 4 (HTONS (ucast (len + ICMP6_HEADER_SIZE)))))"

definition add_sllao_opt :: "heap \<Rightarrow> u8 list \<Rightarrow> ptr \<Rightarrow> fault + heap" where
  "add_sllao_opt h eui64 p_sllao =
     c_bind (store_u8 h p_sllao 0 ND_OPT_TYPE_SLLAO) (\<lambda>h.
     c_bind (store_u8 h p_sllao 1 ND_OPT_SLLAO_LENGTH) (\<lambda>h.
     c_bind (store_bytes h (ptr_add p_sllao 2) eui64) (\<lambda>h.
     store_bytes h (ptr_add p_sllao 10) (replicate 6 0))))"

definition add_aro_opt :: "heap \<Rightarrow> u8 list \<Rightarrow> ptr \<Rightarrow> u16 \<Rightarrow> fault + heap" where
  "add_aro_opt h eui64 p_aro aro_lifetime =
     c_bind (store_u8 h p_aro 0 ND_OPT_TYPE_ARO) (\<lambda>h.
     c_bind (store_u8 h p_aro 1 ND_OPT_ARO_LENGTH) (\<lambda>h.
     c_bind (store_u8 h p_aro 2 0) (\<lambda>h.
     c_bind (store_u8 h p_aro 3 0) (\<lambda>h.
     c_bind (store_u16 h p_aro 4 0) (\<lambda>h.
     c_bind (store_u16 h p_aro 6 (HTONS aro_lifetime)) (\<lambda>h.
     store_bytes h (ptr_add p_aro 8) eui64))))))"

section \<open>Sending\<close>

text \<open>The sums over the addresses and the ICMPv6 message, and the complement in the header.\<close>

definition icmp_checksum_store :: "heap \<Rightarrow> ptr \<Rightarrow> ptr \<Rightarrow> u32 \<Rightarrow> fault + heap" where
  "icmp_checksum_store h p_ip_header p_icmp_header len =
     (let checksum = ucast (len + ICMP6_HEADER_SIZE + ucast IPV6_NEXT_HEADER_ICMP6) :: u16
      in c_bind (ipv6_checksum_calculate h (ptr_add p_ip_header 8) 16 checksum False) (\<lambda>checksum.
         c_bind (ipv6_checksum_calculate h (ptr_add p_ip_header 24) 16 checksum False) (\<lambda>checksum.
         c_bind (ipv6_checksum_calculate h p_icmp_header (ucast (len + ICMP6_HEADER_SIZE)) checksum False) (\<lambda>checksum.
         store_u16 h p_icmp_header 2 (HTONS (NOT checksum))))))"

text \<open>
  The end of all messages sent: checksum, the payload pointer moved to the IPv6 header, \<open>ipv6_send\<close>. The
  message is in the packet buffer \<open>packet\<close> of the state \<open>s\<close>, in the heap \<open>h\<close>.
\<close>

definition icmp_transmit :: "'w net_env \<Rightarrow> 'w net \<Rightarrow> heap \<Rightarrow> nat \<Rightarrow> u32 \<Rightarrow> fault + u32 \<times> 'w net" where
  "icmp_transmit E s h iface packet =
     c_bind (pb_get s packet) (\<lambda>b.
     let offset = IPV6_IP_HEADER_SIZE + ICMP6_HEADER_SIZE
     in c_bind (ptr_sub (pb_payload b) (unat offset)) (\<lambda>p_ip_header.
        c_bind (ptr_sub (pb_payload b) (unat ICMP6_HEADER_SIZE)) (\<lambda>p_icmp_header.
        c_bind (icmp_checksum_store h p_ip_header p_icmp_header (pb_length b)) (\<lambda>h1.
        ipv6_send E (pb_set (set_heap s h1) packet
          (\<lambda>b. b\<lparr>pb_payload := p_ip_header, pb_length := pb_length b + offset\<rparr>)) (Some iface) (Some packet)))))"

text \<open>The beginning of the messages that are not replies: the two headers in front of the payload.\<close>

definition icmp_headers :: "heap \<Rightarrow> pbuffer_t \<Rightarrow> u8 \<Rightarrow> u8 \<Rightarrow> u8 list \<Rightarrow> u8 list \<Rightarrow> fault + heap" where
  "icmp_headers h b type hoplimit src dest =
     c_bind (ptr_sub (pb_payload b) (unat (ICMP6_HEADER_SIZE + IPV6_IP_HEADER_SIZE))) (\<lambda>p_ip_header.
     c_bind (ptr_sub (pb_payload b) (unat ICMP6_HEADER_SIZE)) (\<lambda>p_icmp_header.
     c_bind (icmp_header_store h p_icmp_header type) (\<lambda>h.
     c_bind (icmp_ip_header h p_ip_header hoplimit) (\<lambda>h.
     icmp_addresses_store h p_ip_header src dest (pb_length b)))))"

definition icmp_alloc_param :: "u32 \<Rightarrow> iot_pbuffer_alloc_param_t" where
  "icmp_alloc_param len = \<lparr>param_type = ICMP6_PACKET_TYPE, param_flags = PBUFFER_FLAG_DEFAULT, param_length = len\<rparr>"

section \<open>Messages of the application\<close>

definition icmp6_echo_request ::
  "'w net_env \<Rightarrow> 'w net \<Rightarrow> nat option \<Rightarrow> u8 list option \<Rightarrow> u8 list option \<Rightarrow> u32 option \<Rightarrow> fault + u32 \<times> 'w net" where
  "icmp6_echo_request E s p_interface p_src_addr p_dest_addr p_request =
     (if \<not> icmp_initialized s then Inr (icmp_err SDK_ERR_MODULE_NOT_INITIALZED, s)
      else case (p_interface, p_src_addr, p_dest_addr, p_request) of
        (Some iface, Some src, Some dest, Some packet) \<Rightarrow>
          c_bind (pb_get s packet) (\<lambda>b.
          if pb_type b \<noteq> ICMP6_PACKET_TYPE then Inr (icmp_err NRF_ERROR_INVALID_PARAM, s)
          else
            c_bind (icmp_headers (net_heap s) b ICMP6_TYPE_ECHO_REQUEST IPV6_DEFAULT_HOP_LIMIT src dest) (\<lambda>h.
            c_bind (store_u16 h (pb_payload b) 0 0) (\<lambda>h.
            c_bind (store_u16 h (pb_payload b) 2 (HTONS (m_sequence_number s))) (\<lambda>h.
            icmp_transmit E (s\<lparr>m_sequence_number := m_sequence_number s + 1\<rparr>) h iface packet))))
      | _ \<Rightarrow> Inr (icmp_err NRF_ERROR_NULL, s))"

definition icmp6_rs_send ::
  "'w net_env \<Rightarrow> 'w net \<Rightarrow> nat option \<Rightarrow> u8 list option \<Rightarrow> u8 list option \<Rightarrow> fault + u32 \<times> 'w net" where
  "icmp6_rs_send E s p_interface p_src_addr p_dest_addr =
     (if \<not> icmp_initialized s then Inr (icmp_err SDK_ERR_MODULE_NOT_INITIALZED, s)
      else case (p_interface, p_src_addr, p_dest_addr) of
        (Some iface, Some src, Some dest) \<Rightarrow>
          (case iot_pbuffer_allocate (n_pbuf s) (Some (icmp_alloc_param (ND_RS_HEADER_SIZE + ND_OPT_SLLAO_SIZE))) (Some None) of
             (err_code, pp, pb) \<Rightarrow>
               let s1 = s\<lparr>n_pbuf := pb\<rparr>
               in if err_code = NRF_SUCCESS then
                    let packet = the (the pp)
                    in c_bind (pb_get s1 packet) (\<lambda>b.
                       c_bind (icmp_headers (net_heap s1) b ICMP6_TYPE_ROUTER_SOLICITATION ND_HOP_LIMIT src dest) (\<lambda>h.
                       c_bind (store_bytes h (pb_payload b) (replicate 4 0)) (\<lambda>h.
                       c_bind (add_sllao_opt h (local_eui64 (if_objects (n_ipv6 s) iface))
                                (ptr_add (pb_payload b) (unat ND_RS_HEADER_SIZE))) (\<lambda>h.
                       icmp_transmit E s1 h iface packet))))
                  else Inr (err_code, s1))
      | _ \<Rightarrow> Inr (icmp_err NRF_ERROR_NULL, s))"

record icmp6_ns_param_t =
  target_addr :: "u8 list"
  add_aro :: bool
  aro_lifetime :: u16

definition icmp6_ns_send ::
  "'w net_env \<Rightarrow> 'w net \<Rightarrow> nat option \<Rightarrow> u8 list option \<Rightarrow> u8 list option \<Rightarrow> icmp6_ns_param_t option \<Rightarrow>
   fault + u32 \<times> 'w net" where
  "icmp6_ns_send E s p_interface p_src_addr p_dest_addr p_param =
     (if \<not> icmp_initialized s then Inr (icmp_err SDK_ERR_MODULE_NOT_INITIALZED, s)
      else case (p_interface, p_src_addr, p_dest_addr, p_param) of
        (Some iface, Some src, Some dest, Some param) \<Rightarrow>
          let aro_size = (if add_aro param then ND_OPT_ARO_SIZE else 0);
              eui64 = local_eui64 (if_objects (n_ipv6 s) iface)
          in (case iot_pbuffer_allocate (n_pbuf s)
                     (Some (icmp_alloc_param (ND_NS_HEADER_SIZE + ND_OPT_SLLAO_SIZE + aro_size))) (Some None) of
                (err_code, pp, pb) \<Rightarrow>
                  let s1 = s\<lparr>n_pbuf := pb\<rparr>
                  in if err_code = NRF_SUCCESS then
                       let packet = the (the pp)
                       in c_bind (pb_get s1 packet) (\<lambda>b.
                          c_bind (icmp_headers (net_heap s1) b ICMP6_TYPE_NEIGHBOR_SOLICITATION ND_HOP_LIMIT src dest) (\<lambda>h.
                          c_bind (store_bytes h (pb_payload b) (replicate 4 0)) (\<lambda>h.
                          c_bind (store_bytes h (ptr_add (pb_payload b) 4) (target_addr param)) (\<lambda>h.
                          c_bind (add_sllao_opt h eui64 (ptr_add (pb_payload b) (unat ND_NS_HEADER_SIZE))) (\<lambda>h.
                          c_bind (if add_aro param
                                  then add_aro_opt h eui64 (ptr_add (pb_payload b) (unat (ND_NS_HEADER_SIZE + ND_OPT_SLLAO_SIZE)))
                                         (aro_lifetime param)
                                  else Inr h) (\<lambda>h.
                          icmp_transmit E s1 h iface packet))))))
                     else Inr (err_code, s1))
      | _ \<Rightarrow> Inr (icmp_err NRF_ERROR_NULL, s))"

definition icmp6_receive_register :: "'w net \<Rightarrow> nat option \<Rightarrow> u32 \<times> 'w net" where
  "icmp6_receive_register s cb =
     (if \<not> icmp_initialized s then (icmp_err SDK_ERR_MODULE_NOT_INITIALZED, s)
      else if cb = None then (icmp_err NRF_ERROR_NULL, s)
      else (NRF_SUCCESS, s\<lparr>icmp_handler := cb\<rparr>))"

definition icmp6_init :: "'w net \<Rightarrow> u32 \<times> 'w net" where
  "icmp6_init s = (NRF_SUCCESS, s\<lparr>icmp_handler := None, icmp_initialized := True\<rparr>)"

section \<open>The echo reply\<close>

text \<open>The headers of the reply; \<open>p_ip_header\<close> is the IPv6 header of the request.\<close>

definition echo_reply_headers :: "heap \<Rightarrow> pbuffer_t \<Rightarrow> u8 list \<Rightarrow> ptr \<Rightarrow> fault + heap" where
  "echo_reply_headers h b eui64 p_ip_header =
     c_bind (ptr_sub (pb_payload b) (unat (ICMP6_HEADER_SIZE + IPV6_IP_HEADER_SIZE))) (\<lambda>p_reply_ip_header.
     c_bind (ptr_sub (pb_payload b) (unat ICMP6_HEADER_SIZE)) (\<lambda>p_reply_icmp_header.
     c_bind (icmp_header_store h p_reply_icmp_header ICMP6_TYPE_ECHO_REPLY) (\<lambda>h.
     c_bind (icmp_ip_header h p_reply_ip_header IPV6_DEFAULT_HOP_LIMIT) (\<lambda>h.
     c_bind (load_addr h p_ip_header 8) (\<lambda>src.
     c_bind (store_bytes h (ptr_add p_reply_ip_header 24) src) (\<lambda>h.
     c_bind (store_u16 h p_reply_ip_header 4 (HTONS (ucast (pb_length b + ICMP6_HEADER_SIZE)))) (\<lambda>h.
     c_bind (load_addr h p_ip_header 24) (\<lambda>dest.
     store_bytes h (ptr_add p_reply_ip_header 8)
       (if hd dest = 0xFF then IPV6_CREATE_LINK_LOCAL_FROM_EUI64 eui64 else dest)))))))))"

text \<open>
  Identifier, sequence number and user data. The user data is as long as the payload of the request less
  4, in 32-bit arithmetic.
\<close>

definition echo_reply_data :: "heap \<Rightarrow> pbuffer_t \<Rightarrow> ptr \<Rightarrow> fault + heap" where
  "echo_reply_data h rq payload =
     c_bind (load_u16 h (pb_payload rq) 0) (\<lambda>identifier.
     c_bind (store_u16 h payload 0 identifier) (\<lambda>h.
     c_bind (load_u16 h (pb_payload rq) 2) (\<lambda>sequence_number.
     c_bind (store_u16 h payload 2 sequence_number) (\<lambda>h.
     c_bind (load_bytes h (ptr_add (pb_payload rq) 4) (unat (pb_length rq - 4))) (\<lambda>user_data.
     store_bytes h (ptr_add payload 4) user_data)))))"

definition echo_reply_send :: "'w net_env \<Rightarrow> 'w net \<Rightarrow> nat \<Rightarrow> ptr \<Rightarrow> u32 \<Rightarrow> fault + 'w net" where
  "echo_reply_send E s iface p_ip_header p_packet =
     c_bind (pb_get s p_packet) (\<lambda>rq.
     case iot_pbuffer_allocate (n_pbuf s) (Some (icmp_alloc_param (pb_length rq))) (Some None) of
       (err_code, pp, pb) \<Rightarrow>
         let s1 = s\<lparr>n_pbuf := pb\<rparr>
         in if err_code = NRF_SUCCESS then
              let packet = the (the pp)
              in c_bind (pb_get s1 p_packet) (\<lambda>rq.
                 c_bind (pb_get s1 packet) (\<lambda>b.
                 c_bind (echo_reply_headers (net_heap s1) b (local_eui64 (if_objects (n_ipv6 s) iface)) p_ip_header) (\<lambda>h.
                 c_bind (echo_reply_data h rq (pb_payload b)) (\<lambda>h.
                 c_bind (icmp_transmit E s1 h iface packet) (\<lambda>(_, s2). Inr s2)))))
            else Inr s1)"

section \<open>Router advertisements\<close>

definition IPV6_ADDRESS_IS_LINK_LOCAL :: "heap \<Rightarrow> ptr \<Rightarrow> fault + bool" where
  "IPV6_ADDRESS_IS_LINK_LOCAL h p = c_bind (load_u16 h p 0) (\<lambda>w. Inr (w = HTONS 0xFE80))"

text \<open>
  The first \<open>len\<close> bits of the address are replaced by those behind the pointer. The address has 16 bytes;
  the length is not checked.
\<close>

definition IPV6_ADDRESS_PREFIX_SET :: "u8 list \<Rightarrow> heap \<Rightarrow> ptr \<Rightarrow> u8 \<Rightarrow> fault + u8 list" where
  "IPV6_ADDRESS_PREFIX_SET pfx_to h pfx_from len =
     c_bind (load_bytes h pfx_from (unat len div 8)) (\<lambda>bs.
     c_bind (arr_write pfx_to 0 bs) (\<lambda>to.
     if len AND 0x7 \<noteq> 0 then
       let mask_byte = ucast (drop_bit (unat len mod 8) (0xFF00 :: u32)) :: u8
       in c_bind (load h pfx_from (unat len div 8)) (\<lambda>b.
          c_bind (arr_get to (unat len div 8)) (\<lambda>a.
          arr_set to (unat len div 8) ((a AND NOT mask_byte) OR (b AND mask_byte))))
     else Inr to))"

text \<open>
  A prefix information option: the result is an error code where the function returns, and the state.
\<close>

definition ra_pio :: "'w net \<Rightarrow> nat \<Rightarrow> ptr \<Rightarrow> fault + u32 option \<times> 'w net" where
  "ra_pio s iface p_pio =
     (let h = net_heap s; bad = Inr (Some ICMP6_INVALID_PACKET_DATA, s)
      in c_bind (load h p_pio 2) (\<lambda>prefix_length.
         if prefix_length = 0 then bad
         else
           c_bind (load h p_pio 3) (\<lambda>flags.
           if flags AND ND_OPT_PIO_A_MASK = 0 \<or> flags AND ND_OPT_PIO_L_MASK \<noteq> 0 then bad
           else
             c_bind (IPV6_ADDRESS_IS_LINK_LOCAL h (ptr_add p_pio 16)) (\<lambda>link_local.
             if link_local then Inr (None, s)
             else
               c_bind (IPV6_ADDRESS_PREFIX_SET (IPV6_CREATE_LINK_LOCAL_FROM_EUI64 (local_eui64 (if_objects (n_ipv6 s) iface)))
                        h (ptr_add p_pio 16) prefix_length) (\<lambda>addr.
               c_bind (load_bytes h (ptr_add p_pio 4) 4) (\<lambda>valid_lifetime.
               c_bind (if valid_lifetime \<noteq> [0, 0, 0, 0]
                       then ipv6_address_set (n_ipv6 s) (Some iface)
                              (Some \<lparr>conf_addr = addr, conf_state = IPV6_ADDR_STATE_PREFERRED\<rparr>)
                       else ipv6_address_remove (n_ipv6 s) (Some iface) (Some addr)) (\<lambda>(_, ip).
               Inr (None, s\<lparr>n_ipv6 := ip\<rparr>))))))))"

text \<open>A context option: the context is removed where its lifetime is 0, and set otherwise.\<close>

definition ra_6co :: "'w net \<Rightarrow> nat \<Rightarrow> ptr \<Rightarrow> fault + 'w net" where
  "ra_6co s iface p_6co =
     (let h = net_heap s
      in c_bind (load_bytes h (ptr_add p_6co 8) 16) (\<lambda>context.
         c_bind (load h p_6co 2) (\<lambda>context_length.
         c_bind (load h p_6co 3) (\<lambda>CID_C.
         c_bind (load_u16 h p_6co 6) (\<lambda>valid_lifetime.
         let cid = CID_C AND ND_OPT_6CO_CID_MASK
         in Inr (s\<lparr>n_ctx :=
              (if valid_lifetime = 0 then
                 (case iot_context_manager_get_by_cid (n_ctx s) (Some iface) cid (Some None) of
                    (err_code, pp) \<Rightarrow>
                      if err_code = NRF_SUCCESS
                      then snd (snd (iot_context_manager_remove (n_ctx s) (Some iface)
                                       (map_option (\<lambda>(i, j). InTable i j) (the pp))))
                      else n_ctx s)
               else snd (iot_context_manager_update (n_ctx s) (Some iface)
                      (Some \<lparr>context_id = cid, prefix_len = context_length, prefix = context,
                             compression_flag = (CID_C AND ND_OPT_6CO_C_MASK \<noteq> 0)\<rparr>)))\<rparr>))))))"

text \<open>
  The loop over the options. The offset is a 16-bit number; a step of the loop moves it by at least 8. The
  fuel bounds the number of steps.
\<close>

fun ra_option_loop :: "nat \<Rightarrow> 'w net \<Rightarrow> nat \<Rightarrow> ptr \<Rightarrow> u32 \<Rightarrow> u16 \<Rightarrow> fault + u32 \<times> 'w net" where
  "ra_option_loop 0 s iface payload len curr_opt_offset = Inl Diverges"
| "ra_option_loop (Suc n) s iface payload len curr_opt_offset =
     (if ucast curr_opt_offset < len then
        let p_opt = ptr_add payload (unat curr_opt_offset)
        in c_bind (load (net_heap s) p_opt 1) (\<lambda>opt_length.
           if opt_length = 0 then Inr (ICMP6_INVALID_PACKET_DATA, s)
           else
             c_bind (load (net_heap s) p_opt 0) (\<lambda>opt_type.
             c_bind (if opt_type = ND_OPT_TYPE_PIO then ra_pio s iface p_opt
                     else if opt_type = ND_OPT_TYPE_6CO then c_bind (ra_6co s iface p_opt) (\<lambda>s1. Inr (None, s1))
                     else Inr (None, s)) (\<lambda>(ret, s1).
             case ret of
               Some e \<Rightarrow> Inr (e, s1)
             | None \<Rightarrow> ra_option_loop n s1 iface payload len (curr_opt_offset + 8 * ucast opt_length))))
      else Inr (NRF_SUCCESS, s))"

definition RA_FUEL :: nat where "RA_FUEL = 8192"

definition ra_input :: "'w net \<Rightarrow> nat \<Rightarrow> ptr \<Rightarrow> u32 \<Rightarrow> fault + u32 \<times> 'w net" where
  "ra_input s iface p_ip_header p_packet =
     c_bind (IPV6_ADDRESS_IS_LINK_LOCAL (net_heap s) (ptr_add p_ip_header 8)) (\<lambda>link_local.
     if \<not> link_local then Inr (ICMP6_INVALID_PACKET_DATA, s)
     else c_bind (pb_get s p_packet) (\<lambda>b.
          ra_option_loop RA_FUEL s iface (pb_payload b) (pb_length b) ND_RA_HEADER_SIZE))"

definition ndisc_input :: "'w net \<Rightarrow> nat \<Rightarrow> ptr \<Rightarrow> u8 \<Rightarrow> u32 \<Rightarrow> fault + u32 \<times> 'w net" where
  "ndisc_input s iface p_ip_header type p_packet =
     (if type = ICMP6_TYPE_ROUTER_SOLICITATION then Inr (ICMP6_UNHANDLED_PACKET_TYPE, s)
      else if type = ICMP6_TYPE_ROUTER_ADVERTISEMENT then ra_input s iface p_ip_header p_packet
      else if type = ICMP6_TYPE_NEIGHBOR_SOLICITATION then Inr (ICMP6_UNHANDLED_PACKET_TYPE, s)
      else if type = ICMP6_TYPE_NEIGHBOR_ADVERTISEMENT then Inr (NRF_SUCCESS, s)
      else Inr (ICMP6_UNHANDLED_PACKET_TYPE, s))"

section \<open>Receiving\<close>

text \<open>The message processed: the checksum and the kinds of messages. The result is \<open>process_result\<close>.\<close>

definition icmp_process :: "'w net \<Rightarrow> nat \<Rightarrow> ptr \<Rightarrow> ptr \<Rightarrow> u32 \<Rightarrow> fault + u32 \<times> 'w net" where
  "icmp_process s iface p_ip_header p_icmp_header p_packet =
     c_bind (pb_get s p_packet) (\<lambda>b.
     let h = net_heap s; checksum = ucast (pb_length b + ucast IPV6_NEXT_HEADER_ICMP6) :: u16
     in c_bind (ipv6_checksum_calculate h (ptr_add p_ip_header 8) 16 checksum False) (\<lambda>checksum.
        c_bind (ipv6_checksum_calculate h (ptr_add p_ip_header 24) 16 checksum False) (\<lambda>checksum.
        c_bind (ipv6_checksum_calculate h (pb_payload b) (ucast (pb_length b)) checksum False) (\<lambda>checksum.
        let s1 = pb_set s p_packet (\<lambda>b. b\<lparr>pb_type := ICMP6_PACKET_TYPE,
                   pb_payload := ptr_add (pb_payload b) (unat ICMP6_HEADER_SIZE),
                   pb_length := pb_length b - ICMP6_HEADER_SIZE\<rparr>)
        in if NOT checksum \<noteq> 0 then Inr (ICMP6_BAD_CHECKSUM, s1)
           else
             c_bind (load h p_icmp_header 0) (\<lambda>type.
             if type \<in> {ICMP6_TYPE_DESTINATION_UNREACHABLE, ICMP6_TYPE_PACKET_TOO_LONG, ICMP6_TYPE_TIME_EXCEED,
                        ICMP6_TYPE_PARAMETER_PROBLEM} then Inr (NRF_SUCCESS, s1)
             else if type \<in> {ICMP6_TYPE_ECHO_REQUEST, ICMP6_TYPE_ECHO_REPLY} then Inr (NRF_SUCCESS, s1)
             else if type \<in> {ICMP6_TYPE_ROUTER_SOLICITATION, ICMP6_TYPE_ROUTER_ADVERTISEMENT,
                             ICMP6_TYPE_NEIGHBOR_SOLICITATION, ICMP6_TYPE_NEIGHBOR_ADVERTISEMENT}
             then ndisc_input s1 iface p_ip_header type p_packet
             else Inr (ICMP6_UNHANDLED_PACKET_TYPE, s1))))))"

text \<open>
  The length in the IPv6 header is in the byte order of the host already. The echo reply is sent whatever
  the result of the processing is.
\<close>

definition icmp6_input ::
  "'w net_env \<Rightarrow> 'w net \<Rightarrow> nat option \<Rightarrow> ptr \<Rightarrow> u32 option \<Rightarrow> fault + u32 \<times> 'w net" where
  "icmp6_input E s p_interface p_ip_header p_packet =
     (if \<not> icmp_initialized s then Inr (icmp_err SDK_ERR_MODULE_NOT_INITIALZED, s)
      else case (p_interface, p_packet) of
        (Some iface, Some packet) \<Rightarrow>
          if p_ip_header = NULL then Inr (icmp_err NRF_ERROR_NULL, s)
          else
            c_bind (pb_get s packet) (\<lambda>b.
            let p_icmp_header = pb_payload b
            in c_bind (if pb_length b < ICMP6_HEADER_SIZE then Inr True
                       else c_bind (load_u16 (net_heap s) p_ip_header 4) (\<lambda>ip_len. Inr (ucast ip_len < ICMP6_HEADER_SIZE))) (\<lambda>malformed.
               c_bind (if malformed then Inr (ICMP6_MALFORMED_PACKET, s)
                       else icmp_process s iface p_ip_header p_icmp_header packet) (\<lambda>(process_result, s1).
               c_bind (load (net_heap s1) p_icmp_header 0) (\<lambda>type.
               c_bind (if type = ICMP6_TYPE_ECHO_REQUEST then echo_reply_send E s1 iface p_ip_header packet else Inr s1) (\<lambda>s2.
               Inr (NRF_SUCCESS, s2))))))
      | _ \<Rightarrow> Inr (icmp_err NRF_ERROR_NULL, s))"

section \<open>A message in memory\<close>

text \<open>The headers as fields; the fields of the body have the widths \<open>bw\<close>.\<close>

definition icmp_widths :: "nat list" where
  "icmp_widths = [1, 1, 2, 2, 1, 1, 16, 16, 1, 1, 2]"

abbreviation msg :: "nat list \<Rightarrow> u8 list list \<Rightarrow> bool" where
  "msg bw \<equiv> has_widths (icmp_widths @ bw)"

lemma icmp_pos [simp]:
  "pos (icmp_widths @ bw) 0 = 0" "pos (icmp_widths @ bw) 1 = 1" "pos (icmp_widths @ bw) (Suc 0) = 1"
  "pos (icmp_widths @ bw) 2 = 2" "pos (icmp_widths @ bw) 3 = 4" "pos (icmp_widths @ bw) 4 = 6"
  "pos (icmp_widths @ bw) 5 = 7" "pos (icmp_widths @ bw) 6 = 8" "pos (icmp_widths @ bw) 7 = 24"
  "pos (icmp_widths @ bw) 8 = 40" "pos (icmp_widths @ bw) 9 = 41" "pos (icmp_widths @ bw) 10 = 42"
  "pos (icmp_widths @ bw) 11 = 44"
  by (simp_all add: pos_def icmp_widths_def)

lemma icmp_nth [simp]:
  "length icmp_widths = 11" "sum_list icmp_widths = 44"
  "(icmp_widths @ bw) ! 0 = 1" "(icmp_widths @ bw) ! 1 = 1" "(icmp_widths @ bw) ! Suc 0 = 1" "(icmp_widths @ bw) ! 2 = 2"
  "(icmp_widths @ bw) ! 3 = 2" "(icmp_widths @ bw) ! 4 = 1" "(icmp_widths @ bw) ! 5 = 1" "(icmp_widths @ bw) ! 6 = 16"
  "(icmp_widths @ bw) ! 7 = 16" "(icmp_widths @ bw) ! 8 = 1" "(icmp_widths @ bw) ! 9 = 1" "(icmp_widths @ bw) ! 10 = 2"
  by (simp_all add: icmp_widths_def)

lemmas icmp_store = hput_store [where ws = "icmp_widths @ bw" for bw]
lemmas icmp_load = hput_load [where ws = "icmp_widths @ bw" for bw]
lemmas icmp_load_u16 = load_u16_field [where ws = "icmp_widths @ bw" for bw]

lemmas icmp_store_field =
  icmp_store [where j = 0] icmp_store [where j = 1] icmp_store [where j = 2] icmp_store [where j = 3]
  icmp_store [where j = 4] icmp_store [where j = 5] icmp_store [where j = 6] icmp_store [where j = 7]
  icmp_store [where j = 8] icmp_store [where j = 9] icmp_store [where j = 10]

text \<open>The headers of a message of \<open>n\<close> bytes behind them.\<close>

definition icmp_fields :: "u8 \<Rightarrow> u8 list \<Rightarrow> u8 list \<Rightarrow> u8 \<Rightarrow> nat \<Rightarrow> u8 list \<Rightarrow> u8 list list" where
  "icmp_fields hop src dst type n ck =
     [[0x60], [0], [0, 0], net16 (of_nat (n + 4)), [58], [hop], src, dst, [type], [0], ck]"

lemma icmp_fields_of_updates:
  assumes "msg bw cs"
  shows "cs[8 := [type], 9 := [0], 10 := [0, 0], 0 := [0x60], 1 := [0], 2 := [0, 0], 4 := [255], 5 := [64], 3 := [0, 0],
      4 := [58], 5 := [hop], 6 := src, 7 := dst, 3 := net16 (of_nat (n + 4))]
    = icmp_fields hop src dst type n [0, 0] @ drop 11 cs"
    "cs[8 := [type], 9 := [0], 10 := [0, 0], 0 := [0x60], 1 := [0], 2 := [0, 0], 4 := [255], 5 := [64], 3 := [0, 0],
      4 := [58], 5 := [hop], 7 := dst, 3 := net16 (of_nat (n + 4)), 6 := src]
    = icmp_fields hop src dst type n [0, 0] @ drop 11 cs"
proof -
  define xs where "xs = take 11 cs"
  have "length xs = 11" using widths_length [OF assms] by (simp add: xs_def)
  then obtain c0 c1 c2 c3 c4 c5 c6 c7 c8 c9 ca where "xs = [c0, c1, c2, c3, c4, c5, c6, c7, c8, c9, ca]"
    by (auto simp: length_Suc_conv eval_nat_numeral)
  then have cs: "cs = [c0, c1, c2, c3, c4, c5, c6, c7, c8, c9, ca] @ drop 11 cs" unfolding xs_def by (metis append_take_drop_id)
  show "cs[8 := [type], 9 := [0], 10 := [0, 0], 0 := [0x60], 1 := [0], 2 := [0, 0], 4 := [255], 5 := [64], 3 := [0, 0],
      4 := [58], 5 := [hop], 6 := src, 7 := dst, 3 := net16 (of_nat (n + 4))]
    = icmp_fields hop src dst type n [0, 0] @ drop 11 cs"
    "cs[8 := [type], 9 := [0], 10 := [0, 0], 0 := [0x60], 1 := [0], 2 := [0, 0], 4 := [255], 5 := [64], 3 := [0, 0],
      4 := [58], 5 := [hop], 7 := dst, 3 := net16 (of_nat (n + 4)), 6 := src]
    = icmp_fields hop src dst type n [0, 0] @ drop 11 cs"
    by (subst cs, simp add: icmp_fields_def)+
qed

lemma icmp_headers_fields:
  assumes "msg bw cs" "length src = 16" "length dst = 16" "pb_payload b = Ptr blk (length pre + 44)"
    and "unat (pb_length b) = n" "n + 4 < 65536"
  shows "icmp_headers (hput h blk pre cs post) b type hop src dst =
    Inr (hput h blk pre (icmp_fields hop src dst type n [0, 0] @ drop 11 cs) post)"
proof -
  have "unat (pb_length b + 4) = n + 4" using assms(5,6) by (simp add: unat_add_u32)
  then have len: "(ucast (pb_length b + 4) :: u16) = of_nat (n + 4)"
    using assms(6) by (simp add: word_unat_eq_iff unsigned_ucast_eq take_bit_nat_def unat_of_nat_u16 del: of_nat_add)
  have p: "ptr_sub (pb_payload b) 44 = Inr (Ptr blk (length pre))" "ptr_sub (pb_payload b) 4 = Inr (Ptr blk (length pre + 40))"
    using assms(4) by simp_all
  show ?thesis
    unfolding icmp_fields_of_updates(1) [OF assms(1), symmetric]
    using assms(1-3) p
    by (simp add: icmp_headers_def icmp_header_store_def icmp_ip_header_def ipv6_header_init_def icmp_addresses_store_def
        store_u8_def store_u16_le16 icmp_store_field [where bw = bw] c_consts len del: of_nat_add)
qed

text \<open>The message of RFC 4443: the checksum with the pseudo header, and the bytes.\<close>

definition icmp_checksum :: "u8 list \<Rightarrow> u8 list \<Rightarrow> u8 \<Rightarrow> u8 list \<Rightarrow> u16" where
  "icmp_checksum src dst type body =
     of_nat (65535 - oc_sum 0 (be_words (pseudo_header 58 src dst (length body + 4) @ [type, 0, 0, 0] @ body)))"

definition icmp_packet :: "u8 \<Rightarrow> u8 list \<Rightarrow> u8 list \<Rightarrow> u8 \<Rightarrow> u8 list \<Rightarrow> u8 list" where
  "icmp_packet hop src dst type body =
     concat (icmp_fields hop src dst type (length body) (net16 (icmp_checksum src dst type body))) @ body"

lemma icmp_checksum_total:
  assumes "length src = 16" "length dst = 16" "length body + 4 < 65536"
    and "unat r = oc_norm (length body + 62 + byte_total src + byte_total dst + byte_total ([type, 0, 0, 0] @ body))"
  shows "NOT r = icmp_checksum src dst type body"
proof -
  have "unat (58 :: u8) = 58" by simp
  then have "oc_sum 0 (be_words (pseudo_header 58 src dst (length body + 4) @ [type, 0, 0, 0] @ body)) = unat r"
    using assms by (simp add: oc_sum_bytes byte_total_pseudo_header ac_simps del: unsigned_numeral)
  moreover have "unat (of_nat (65535 - unat r) :: u16) = 65535 - unat r" by (rule unat_of_nat_u16) simp
  ultimately show ?thesis
    by (simp add: icmp_checksum_def word_unat_eq_iff unat_NOT_u16 del: of_nat_diff)
qed

lemma icmp_checksum_store_fields:
  fixes hop type and src dst body :: "u8 list"
  defines "cs \<equiv> icmp_fields hop src dst type (length body)"
  assumes "msg bw (cs [0, 0] @ bs)" "concat bs = body" "unat len = length body" "length body + 62 < 65536"
  shows "icmp_checksum_store (hput h blk pre (cs [0, 0] @ bs) post) (Ptr blk (length pre)) (Ptr blk (length pre + 40)) len =
    Inr (hput h blk pre (cs (net16 (icmp_checksum src dst type body)) @ bs) post)"
proof -
  let ?n = "length body" and ?H = "hput h blk pre (cs [0, 0] @ bs) post"
  note w = assms(2)
  have nth: "(cs [0, 0] @ bs) ! 6 = src" "(cs [0, 0] @ bs) ! 7 = dst" "drop 8 (cs [0, 0] @ bs) = [[type], [0], [0, 0]] @ bs"
    by (simp_all add: cs_def icmp_fields_def)
  have len: "length src = 16" "length dst = 16"
    using widths_nth [OF w, of 6] widths_nth [OF w, of 7] nth by simp_all
  define c0 :: u16 where "c0 = ucast (len + ICMP6_HEADER_SIZE + ucast IPV6_NEXT_HEADER_ICMP6)"
  define n16 :: u16 where "n16 = ucast (len + ICMP6_HEADER_SIZE)"
  have "unat (len + 4) = ?n + 4" using assms(4,5) by (simp add: unat_add_u32)
  moreover have "unat (len + 4 + 58) = ?n + 62"
    using calculation assms(5) unfolding unat_add_u32 [of "len + 4" 58] by (subst unat_add_u32) simp_all
  ultimately have c0: "unat c0 = ?n + 62" and n16: "unat n16 = ?n + 4"
    using assms(5) by (simp_all add: c0_def n16_def c_consts unsigned_ucast_eq take_bit_nat_def add.assoc del: add_numeral_left)
  have "load_bytes ?H (Ptr blk (length pre + 8)) (unat (16 :: u16)) = Inr src"
    using icmp_load [OF w, of "length pre + 8" pre 6 16] nth by simp
  from checksum_calculate_total [OF this, of c0 False] obtain r1 where
    r1: "ipv6_checksum_calculate ?H (Ptr blk (length pre + 8)) 16 c0 False = Inr r1" "unat r1 = oc_norm (unat c0 + byte_total src)"
    by auto
  have "load_bytes ?H (Ptr blk (length pre + 24)) (unat (16 :: u16)) = Inr dst"
    using icmp_load [OF w, of "length pre + 24" pre 7 16] nth by simp
  from checksum_calculate_total [OF this, of r1 False] obtain r2 where
    r2: "ipv6_checksum_calculate ?H (Ptr blk (length pre + 24)) 16 r1 False = Inr r2" "unat r2 = oc_norm (unat r1 + byte_total dst)"
    by auto
  have "load_bytes ?H (Ptr blk (length pre + 40)) (unat n16) = Inr ([type, 0, 0, 0] @ body)"
    using hput_tail_load [OF w, of "unat n16" 8 0 post "length pre + 40" pre h blk] assms(3) n16
    unfolding nth(3) by simp
  from checksum_calculate_total [OF this, of r2 False] obtain r where
    r: "ipv6_checksum_calculate ?H (Ptr blk (length pre + 40)) n16 r2 False = Inr r"
      "unat r = oc_norm (unat r2 + byte_total ([type, 0, 0, 0] @ body))"
    by auto
  have "unat r = oc_norm (?n + 62 + byte_total src + byte_total dst + byte_total ([type, 0, 0, 0] @ body))"
    unfolding r(2) r2(2) r1(2) c0 oc_norm_idem
    using oc_norm_idem [of _ "byte_total dst + byte_total ([type, 0, 0, 0] @ body)"] by (simp add: add.assoc)
  then have c: "NOT r = icmp_checksum src dst type body"
    using len assms(5) by (intro icmp_checksum_total) simp_all
  have upd: "(cs [0, 0] @ bs)[10 := net16 (NOT r)] = cs (net16 (NOT r)) @ bs"
    by (simp add: cs_def icmp_fields_def)
  show ?thesis
    using r1(1) r2(1) r(1) icmp_store [OF w, of "42 + length pre" pre 10 "net16 (NOT r)" h blk post] upd
    by (simp add: icmp_checksum_store_def c0_def [symmetric] n16_def [symmetric] store_u16_le16 c [symmetric])
qed

text \<open>The end of every message sent: the packet handed to the 6LoWPAN library.\<close>

lemma icmp_transmit_sends:
  fixes hop type and src dst body :: "u8 list"
  defines "cs \<equiv> icmp_fields hop src dst type (length body)"
  assumes "i < IOT_PBUFFER_MAX_COUNT" "length (m_pbuffer (n_pbuf s)) = IOT_PBUFFER_MAX_COUNT" "pb_initialized (n_pbuf s)"
    and "m_event_handler (n_ipv6 s) \<noteq> None"
    and "pb_payload (m_pbuffer (n_pbuf s) ! i) = Ptr blk (length pre + 44)"
    and "unat (pb_length (m_pbuffer (n_pbuf s) ! i)) = length body" "length body + 62 < 65536"
    and "msg bw (cs [0, 0] @ bs)" "concat bs = body"
    and "env_6lo_send E iface (icmp_packet hop src dst type body) (of_nat (length body + 44)) (n_world s) = (e, w)"
  shows "icmp_transmit E s (hput h blk pre (cs [0, 0] @ bs) post) iface (pb_ptr i) =
    Inr (e, given_away s i (h(blk := pre @ icmp_packet hop src dst type body @ post)) w)"
proof -
  let ?b = "m_pbuffer (n_pbuf s) ! i" and ?n = "length body"
  let ?ck = "net16 (icmp_checksum src dst type body)"
  let ?h1 = "hput h blk pre (cs ?ck @ bs) post"
  have ck: "icmp_checksum_store (hput h blk pre (cs [0, 0] @ bs) post) (Ptr blk (length pre)) (Ptr blk (length pre + 40)) (pb_length ?b) = Inr ?h1"
    unfolding cs_def using assms(7-10) by (intro icmp_checksum_store_fields) (simp_all add: cs_def)
  have bytes: "concat (cs ?ck @ bs) = icmp_packet hop src dst type body"
    using assms(10) by (simp add: icmp_packet_def cs_def)
  have h1: "?h1 = h(blk := pre @ icmp_packet hop src dst type body @ post)" by (simp only: hput_def bytes)
  have "length (concat (cs [0, 0] @ bs)) = 44 + ?n"
    using widths_nth [OF assms(9), of 6] widths_nth [OF assms(9), of 7] assms(10)
    by (simp add: cs_def icmp_fields_def)
  then have len: "length (icmp_packet hop src dst type body) = ?n + 44"
    by (simp add: icmp_packet_def icmp_fields_def cs_def assms(10))
  have n44: "unat (of_nat (?n + 44) :: u16) = ?n + 44" by (rule unat_of_nat_u16) (use assms(8) in simp)
  have "load_bytes ?h1 (Ptr blk (length pre)) (?n + 44) = Inr (icmp_packet hop src dst type body)"
    by (simp add: h1 load_bytes.simps arr_read_def len)
  moreover have "unat (pb_length ?b + 44) = ?n + 44" using assms(7,8) by (simp add: unat_add_u32)
  ultimately have "ipv6_send E (pb_set (set_heap s ?h1) (pb_ptr i) (\<lambda>b. b\<lparr>pb_payload := Ptr blk (length pre), pb_length := pb_length ?b + 44\<rparr>))
      (Some iface) (Some (pb_ptr i)) = Inr (e, given_away s i ?h1 w)"
    using ipv6_send_gives [OF assms(5,4,3,2) _ assms(11)] n44 by simp
  moreover have "pb_set (set_heap s h) (pb_ptr i) (\<lambda>b. b\<lparr>pb_payload := p, pb_length := pb_length b + k\<rparr>) =
      pb_set (set_heap s h) (pb_ptr i) (\<lambda>b. b\<lparr>pb_payload := p, pb_length := pb_length ?b + k\<rparr>)" for h p k
    using assms(2) by (simp add: pb_set_def set_heap_def pbuf_upd_def)
  moreover have "ptr_sub (Ptr blk (length pre + 44)) 44 = Inr (Ptr blk (length pre))"
    "ptr_sub (Ptr blk (length pre + 44)) 4 = Inr (Ptr blk (length pre + 40))" by simp_all
  ultimately show ?thesis
    using pb_get_ptr [OF assms(3,2)] assms(6) ck unfolding h1
    by (simp add: icmp_transmit_def c_consts del: ptr_sub.simps)
qed

section \<open>The echo reply\<close>

lemma load_hput_other:
  "blk \<noteq> b \<Longrightarrow> load_bytes (hput h b pre cs post) (Ptr blk a) n = load_bytes h (Ptr blk a) n"
  by (simp add: load_bytes.simps hput_def)

text \<open>
  A message in memory: the fields \<open>cs\<close> of the headers and of the body, in a block of the memory manager, as
  \<open>ipv6_input\<close> passes it on: the length in the IPv6 header is in the byte order of the host.
\<close>

definition icmp_arrived :: "'w net \<Rightarrow> nat \<Rightarrow> nat \<Rightarrow> u8 list \<Rightarrow> nat list \<Rightarrow> u8 list list \<Rightarrow> u8 list \<Rightarrow> bool" where
  "icmp_arrived s i blk pre bw cs post \<longleftrightarrow>
     icmp_initialized s \<and> m_event_handler (n_ipv6 s) \<noteq> None \<and>
     pb_initialized (n_pbuf s) \<and> pool_inv (pb_mm (n_pbuf s)) \<and> pool_heap (net_heap s) \<and>
     length (m_pbuffer (n_pbuf s)) = IOT_PBUFFER_MAX_COUNT \<and> i < IOT_PBUFFER_MAX_COUNT \<and>
     allocated_length (m_pbuffer (n_pbuf s) ! i) \<noteq> 0 \<and> Ptr blk 0 \<in> mm_live (pb_mm (n_pbuf s)) \<and>
     msg bw cs \<and> net_heap s = hput (net_heap s) blk pre cs post \<and>
     pb_payload (m_pbuffer (n_pbuf s) ! i) = Ptr blk (length pre + 40) \<and>
     unat (pb_length (m_pbuffer (n_pbuf s) ! i)) = sum_list bw + 4 \<and> sum_list bw + 62 < 65536 \<and>
     (\<exists>l. cs ! 3 = le16 l \<and> 4 \<le> unat l)"

text \<open>The check of the checksum: the one's complement sum of pseudo header and message is 65535.\<close>

definition icmp_valid :: "nat list \<Rightarrow> u8 list list \<Rightarrow> bool" where
  "icmp_valid bw cs \<longleftrightarrow>
     oc_sum 0 (be_words (pseudo_header 58 (cs ! 6) (cs ! 7) (sum_list bw + 4) @ concat (drop 8 cs))) = 65535"

text \<open>The buffer after the ICMPv6 header was taken off.\<close>

definition icmp_opened :: "'w net \<Rightarrow> nat \<Rightarrow> nat \<Rightarrow> nat \<Rightarrow> nat \<Rightarrow> 'w net" where
  "icmp_opened s i blk off n = pb_set s (pb_ptr i) (\<lambda>b. b\<lparr>pb_type := ICMP6_PACKET_TYPE,
     pb_payload := Ptr blk off, pb_length := of_nat n\<rparr>)"

lemma icmp_process_eq:
  assumes "icmp_arrived s i blk pre bw cs post" "cs ! 8 = [type]"
  shows "icmp_process s iface (Ptr blk (length pre)) (Ptr blk (length pre + 40)) (pb_ptr i) =
    (let s1 = icmp_opened s i blk (length pre + 44) (sum_list bw)
     in if \<not> icmp_valid bw cs then Inr (ICMP6_BAD_CHECKSUM, s1)
        else if type \<in> {1, 2, 3, 4, 128, 129} then Inr (NRF_SUCCESS, s1)
        else if type \<in> {133, 134, 135, 136} then ndisc_input s1 iface (Ptr blk (length pre)) type (pb_ptr i)
        else Inr (ICMP6_UNHANDLED_PACKET_TYPE, s1))"
proof -
  let ?b = "m_pbuffer (n_pbuf s) ! i" and ?n = "sum_list bw"
  from assms have i: "i < IOT_PBUFFER_MAX_COUNT" "length (m_pbuffer (n_pbuf s)) = IOT_PBUFFER_MAX_COUNT"
    and w: "msg bw cs" and H: "net_heap s = hput (net_heap s) blk pre cs post"
    and b: "pb_payload ?b = Ptr blk (length pre + 40)" "unat (pb_length ?b) = ?n + 4" and n: "?n + 62 < 65536"
    by (simp_all add: icmp_arrived_def)
  have len: "length (cs ! 6) = 16" "length (cs ! 7) = 16" using widths_nth [OF w, of 6] widths_nth [OF w, of 7] by simp_all
  define c0 :: u16 where "c0 = ucast (pb_length ?b + ucast IPV6_NEXT_HEADER_ICMP6)"
  define n16 :: u16 where "n16 = ucast (pb_length ?b)"
  have "unat (pb_length ?b + 58) = ?n + 62" using b(2) n by (simp add: unat_add_u32)
  then have c0: "unat c0 = ?n + 62" and n16: "unat n16 = ?n + 4"
    using b(2) n by (simp_all add: c0_def n16_def c_consts unsigned_ucast_eq take_bit_nat_def)
  have "load_bytes (net_heap s) (Ptr blk (length pre + 8)) (unat (16 :: u16)) = Inr (cs ! 6)"
    using icmp_load [OF w, of "length pre + 8" pre 6 16 "net_heap s" blk post] H by simp
  from checksum_calculate_total [OF this, of c0 False] obtain r1 where
    r1: "ipv6_checksum_calculate (net_heap s) (Ptr blk (length pre + 8)) 16 c0 False = Inr r1"
      "unat r1 = oc_norm (unat c0 + byte_total (cs ! 6))"
    by auto
  have "load_bytes (net_heap s) (Ptr blk (length pre + 24)) (unat (16 :: u16)) = Inr (cs ! 7)"
    using icmp_load [OF w, of "length pre + 24" pre 7 16 "net_heap s" blk post] H by simp
  from checksum_calculate_total [OF this, of r1 False] obtain r2 where
    r2: "ipv6_checksum_calculate (net_heap s) (Ptr blk (length pre + 24)) 16 r1 False = Inr r2"
      "unat r2 = oc_norm (unat r1 + byte_total (cs ! 7))" by auto
  have "length (concat (drop 8 cs)) = ?n + 4" using widths_drop [OF w, of 8] by simp
  then have "load_bytes (net_heap s) (Ptr blk (length pre + 40)) (unat n16) = Inr (concat (drop 8 cs))"
    using hput_tail_load [OF w, of _ 8 0 post "length pre + 40" pre "net_heap s" blk] H n16 by simp
  from checksum_calculate_total [OF this, of r2 False] obtain r where
    r: "ipv6_checksum_calculate (net_heap s) (Ptr blk (length pre + 40)) n16 r2 False = Inr r"
      "unat r = oc_norm (unat r2 + byte_total (concat (drop 8 cs)))" by auto
  have "unat r = oc_norm (?n + 62 + byte_total (cs ! 6) + byte_total (cs ! 7) + byte_total (concat (drop 8 cs)))"
    unfolding r(2) r2(2) r1(2) c0 oc_norm_idem
    using oc_norm_idem [of _ "byte_total (cs ! 7) + byte_total (concat (drop 8 cs))"] by (simp add: add.assoc)
  moreover have "unat (58 :: u8) = 58" by simp
  ultimately have "unat r = oc_sum 0 (be_words (pseudo_header 58 (cs ! 6) (cs ! 7) (?n + 4) @ concat (drop 8 cs)))"
    using len n by (simp add: oc_sum_bytes byte_total_pseudo_header ac_simps del: unsigned_numeral)
  then have valid: "NOT r = 0 \<longleftrightarrow> icmp_valid bw cs"
    using unat_u16_less [of r] by (auto simp: icmp_valid_def word_unat_eq_iff unat_NOT_u16)
  have type: "load (net_heap s) (Ptr blk (length pre + 40)) 0 = Inr type"
    using load_field [OF w, of "length pre + 40" 0 pre 8 type "net_heap s" blk post] H assms(2)
    by (simp del: load.simps)
  have "of_nat (unat (pb_length ?b)) = pb_length ?b" by simp
  then have "pb_length ?b - 4 = of_nat ?n" unfolding b(2) by (simp add: algebra_simps)
  then have st: "pb_set s (pb_ptr i) (\<lambda>b. b\<lparr>pb_type := ICMP6_PACKET_TYPE, pb_payload := ptr_add (pb_payload b) 4, pb_length := pb_length b - 4\<rparr>)
      = icmp_opened s i blk (length pre + 44) ?n"
    using b(1) i by (simp add: icmp_opened_def pb_set_def pbuf_upd_def add.commute)
  show ?thesis
    using pb_get_ptr [OF i(2,1)] b(1) r1(1) r2(1) r(1) type
    by (simp add: icmp_process_def ICMP6_HEADER_SIZE_def st c0_def [symmetric] n16_def [symmetric] valid)
      (simp add: c_consts Let_def)
qed

lemma icmp_opened_simps [simp]:
  "net_heap (icmp_opened s i blk off n) = net_heap s" "n_ipv6 (icmp_opened s i blk off n) = n_ipv6 s"
  "pb_mm (n_pbuf (icmp_opened s i blk off n)) = pb_mm (n_pbuf s)" "n_world (icmp_opened s i blk off n) = n_world s"
  "pb_initialized (n_pbuf (icmp_opened s i blk off n)) = pb_initialized (n_pbuf s)"
  "length (m_pbuffer (n_pbuf (icmp_opened s i blk off n))) = length (m_pbuffer (n_pbuf s))"
  by (simp_all add: icmp_opened_def pb_set_def pbuf_upd_def)

lemma icmp_opened_nth:
  assumes "i < IOT_PBUFFER_MAX_COUNT" "length (m_pbuffer (n_pbuf s)) = IOT_PBUFFER_MAX_COUNT"
  shows "m_pbuffer (n_pbuf (icmp_opened s i blk off n)) = (m_pbuffer (n_pbuf s))[i :=
    (m_pbuffer (n_pbuf s) ! i)\<lparr>pb_type := ICMP6_PACKET_TYPE, pb_payload := Ptr blk off, pb_length := of_nat n\<rparr>]"
  using assms by (simp add: icmp_opened_def pb_set_def pbuf_upd_def)

lemma icmp_opened_room:
  assumes "i < IOT_PBUFFER_MAX_COUNT" "length (m_pbuffer (n_pbuf s)) = IOT_PBUFFER_MAX_COUNT"
    and "pbuf_room (n_pbuf s) k" "allocated_length (m_pbuffer (n_pbuf s) ! i) \<noteq> 0"
  shows "pbuf_room (n_pbuf (icmp_opened s i blk off n)) k"
proof -
  from assms(3) obtain b where "b \<in> set (m_pbuffer (n_pbuf s))" "allocated_length b = 0"
    by (auto simp: pbuf_room_def)
  then obtain m where m: "m < length (m_pbuffer (n_pbuf s))" "allocated_length (m_pbuffer (n_pbuf s) ! m) = 0"
    by (auto simp: in_set_conv_nth)
  moreover have "m \<noteq> i" using m(2) assms(4) by auto
  ultimately have "m_pbuffer (n_pbuf s) ! m \<in> set (m_pbuffer (n_pbuf (icmp_opened s i blk off n)))"
    using assms(1,2) by (auto simp: icmp_opened_nth in_set_conv_nth intro!: exI [of _ m])
  then show ?thesis using assms(3) m(2) by (auto simp: pbuf_room_def)
qed

text \<open>The source address of the reply.\<close>

definition reply_from :: "'w net \<Rightarrow> nat \<Rightarrow> u8 list \<Rightarrow> u8 list" where
  "reply_from s iface dst =
     (if hd dst = 0xFF then IPV6_CREATE_LINK_LOCAL_FROM_EUI64 (local_eui64 (if_objects (n_ipv6 s) iface)) else dst)"

lemma reply_from_length: "length dst = 16 \<Longrightarrow> length (local_eui64 (if_objects (n_ipv6 s) iface)) = 8 \<Longrightarrow>
    length (reply_from s iface dst) = 16"
  by (simp add: reply_from_def IPV6_CREATE_LINK_LOCAL_FROM_EUI64_def)

lemma echo_widths [simp]:
  "pos (icmp_widths @ [2, 2, n]) 12 = 46" "pos (icmp_widths @ [2, 2, n]) 13 = 48"
  "(icmp_widths @ [2, 2, n]) ! 11 = 2" "(icmp_widths @ [2, 2, n]) ! 12 = 2" "(icmp_widths @ [2, 2, n]) ! 13 = n"
  by (simp_all add: pos_def icmp_widths_def)

lemma length_icmp_fields [simp]: "length (icmp_fields hop src dst type n ck) = 11"
  by (simp add: icmp_fields_def)

lemma hput_fold: "h blk = concat cs @ post \<Longrightarrow> h = hput h blk [] cs post"
  by (auto simp: hput_def)

lemma load_u16_bytes: "load_bytes h (Ptr b (a + off)) 2 = Inr v \<Longrightarrow> load_u16 h (Ptr b a) off = Inr (u16_of_bytes (v ! 1) (v ! 0))"
  by (simp add: load_u16_def)

lemma le16_of_bytes: "length v = 2 \<Longrightarrow> le16 (u16_of_bytes (v ! Suc 0) (v ! 0)) = v"
proof -
  assume "length v = 2"
  then obtain a b where "v = [a, b]" by (auto simp: length_Suc_conv eval_nat_numeral)
  then show ?thesis by (simp add: le16_def)
qed

lemma echo_reply_headers_fields:
  assumes "msg bw cs'" "length src = 16" "length dst = 16" "pb_payload b = Ptr bo 44"
    and "unat (pb_length b) = n" "n + 4 < 65536" "length eui64 = 8"
    and src: "\<And>c. load_addr (hput h bo [] c post) ip 8 = Inr src" and dst: "\<And>c. load_addr (hput h bo [] c post) ip 24 = Inr dst"
  shows "echo_reply_headers (hput h bo [] cs' post) b eui64 ip =
    Inr (hput h bo [] (icmp_fields 64 (if hd dst = 0xFF then IPV6_CREATE_LINK_LOCAL_FROM_EUI64 eui64 else dst) src 129 n [0, 0] @ drop 11 cs') post)"
proof -
  let ?from = "if hd dst = 0xFF then IPV6_CREATE_LINK_LOCAL_FROM_EUI64 eui64 else dst"
  have "unat (pb_length b + 4) = n + 4" using assms(5,6) by (simp add: unat_add_u32)
  then have len: "(ucast (pb_length b + 4) :: u16) = of_nat (n + 4)"
    using assms(6) by (simp add: word_unat_eq_iff unsigned_ucast_eq take_bit_nat_def unat_of_nat_u16 del: of_nat_add)
  have p: "ptr_sub (pb_payload b) 44 = Inr (Ptr bo 0)" "ptr_sub (pb_payload b) 4 = Inr (Ptr bo 40)" using assms(4) by simp_all
  have l: "length ?from = 16" using assms(3,7) by (simp add: IPV6_CREATE_LINK_LOCAL_FROM_EUI64_def)
  show ?thesis
    unfolding icmp_fields_of_updates(2) [OF assms(1), symmetric]
    using assms(1-3) p l
    by (simp add: echo_reply_headers_def icmp_header_store_def icmp_ip_header_def ipv6_header_init_def src dst
        store_u8_def store_u16_le16 icmp_store_field [where bw = bw] c_consts len del: of_nat_add)
qed

text \<open>
  The buffer for the reply: a descriptor and a block of their own. The fields \<open>bw'\<close> of the body of the
  reply fit where those of the request do, or in the smallest block.
\<close>

lemma icmp_reply_buffer:
  fixes s :: "'w net" and pre :: "u8 list" and i blk N :: nat
  defines "s1 \<equiv> icmp_opened s i blk (length pre + 44) N"
  assumes arr: "icmp_arrived s i blk pre bw cs post" and N: "sum_list bw = N" "N \<noteq> 0"
    and room: "pbuf_room (n_pbuf s) (N + 44)" and fits: "sum_list bw' \<le> N \<or> sum_list bw' \<le> 84"
  obtains k bo pb rq b cs' post' where "k < IOT_PBUFFER_MAX_COUNT" "bo \<noteq> blk"
    "iot_pbuffer_allocate (n_pbuf s1) (Some (icmp_alloc_param (of_nat N))) (Some None) = (NRF_SUCCESS, Some (Some (pb_ptr k)), pb)"
    "pb_get s1 (pb_ptr i) = Inr rq" "pb_get (s1\<lparr>n_pbuf := pb\<rparr>) (pb_ptr i) = Inr rq"
    "pb_payload rq = Ptr blk (length pre + 44)" "pb_length rq = of_nat N"
    "pb_get (s1\<lparr>n_pbuf := pb\<rparr>) (pb_ptr k) = Inr b" "pb_payload b = Ptr bo 44" "pb_length b = of_nat N"
    "m_pbuffer pb ! k = b" "length (m_pbuffer pb) = IOT_PBUFFER_MAX_COUNT" "pb_initialized pb"
    "msg bw' cs'" "pb_heap pb = hput (net_heap s) bo [] cs' post'"
proof -
  from arr have i: "i < IOT_PBUFFER_MAX_COUNT" and len: "length (m_pbuffer (n_pbuf s)) = IOT_PBUFFER_MAX_COUNT"
    and n: "N + 62 < 65536" and live: "Ptr blk 0 \<in> mm_live (pb_mm (n_pbuf s))"
    and used: "allocated_length (m_pbuffer (n_pbuf s) ! i) \<noteq> 0"
    and pool: "pool_inv (pb_mm (n_pbuf s))" "pool_heap (net_heap s)" "pb_initialized (n_pbuf s)"
    using N(1) by (simp_all add: icmp_arrived_def)
  let ?param = "icmp_alloc_param (of_nat N)"
  have n4: "unat (of_nat N :: u32) = N" by (rule unat_of_nat_u32) (use n in simp)
  have size: "request_size ?param = N + 44"
    using n4 by (simp add: request_size_def icmp_alloc_param_def type_offset_get_def c_consts)
  have "(of_nat N :: u32) \<noteq> 0" using n4 N(2) by auto
  then have ok_param: "alloc_param_error ?param = None" "param_flags ?param = PBUFFER_FLAG_DEFAULT"
    by (simp_all add: alloc_param_error_def icmp_alloc_param_def c_consts)
  have s1: "pb_initialized (n_pbuf s1)" "pool_inv (pb_mm (n_pbuf s1))" "length (m_pbuffer (n_pbuf s1)) = IOT_PBUFFER_MAX_COUNT"
    "net_heap s1 = net_heap s" "mm_live (pb_mm (n_pbuf s1)) = mm_live (pb_mm (n_pbuf s))" "pbuf_room (n_pbuf s1) (N + 44)"
    using len pool icmp_opened_room [OF i len room used] by (simp_all add: s1_def)
  have nth: "m_pbuffer (n_pbuf s1) = (m_pbuffer (n_pbuf s))[i :=
      (m_pbuffer (n_pbuf s) ! i)\<lparr>pb_type := ICMP6_PACKET_TYPE, pb_payload := Ptr blk (length pre + 44), pb_length := of_nat N\<rparr>]"
    unfolding s1_def by (rule icmp_opened_nth [OF i len])
  have small: "request_size ?param < 4294967296" using n unfolding size by simp
  show thesis
  proof (cases rule: iot_pbuffer_alloc_cases [OF s1(1,2) ok_param small, of None, case_names fail ok])
    case (fail e)
    then show thesis using s1(6) unfolding size by blast
  next
    case (ok k j mm')
    let ?bo = "block_offset j" and ?B = "alloc_buffer (m_pbuffer (n_pbuf s1) ! k) ?param j"
    define pb where "pb = (n_pbuf s1)\<lparr>pb_mm := mm', m_pbuffer := (m_pbuffer (n_pbuf s1))[k := ?B]\<rparr>"
    have k: "k < IOT_PBUFFER_MAX_COUNT" "k \<noteq> i" using ok(1,2) used i len by (auto simp: nth)
    have "length (net_heap s ?bo) = block_bytes j" using pool(2) ok(3) by (simp add: pool_heap_def)
    moreover have "128 \<le> block_bytes j" by (simp add: block_bytes_eq)
    ultimately have "length (take (sum_list bw' + 44) (net_heap s ?bo)) = sum_list (icmp_widths @ bw')"
      using ok(4) fits unfolding size by auto
    then obtain cs' where cs': "msg bw' cs'" "concat cs' = take (sum_list bw' + 44) (net_heap s ?bo)"
      by (rule widths_of)
    have heap: "pb_heap pb = hput (net_heap s) ?bo [] cs' (drop (sum_list bw' + 44) (net_heap s ?bo))"
      using s1(4) hput_fold [of "net_heap s" ?bo cs' "drop (sum_list bw' + 44) (net_heap s ?bo)"] cs'(2) by (simp add: pb_def)
    have len': "length (m_pbuffer pb) = IOT_PBUFFER_MAX_COUNT" using s1(3) by (simp add: pb_def)
    have get: "pb_get s1 (pb_ptr i) = Inr (m_pbuffer (n_pbuf s1) ! i)" using s1(3) i by (rule pb_get_ptr)
    have get': "pb_get (s1\<lparr>n_pbuf := pb\<rparr>) (pb_ptr m) = Inr (m_pbuffer pb ! m)" if "m < IOT_PBUFFER_MAX_COUNT" for m
      using len' that by (subst pb_get_ptr) simp_all
    show thesis
    proof (rule that [OF k(1) _ _ get _ _ _ get' [OF k(1)] _ _ refl len' _ cs'(1) heap])
      show "?bo \<noteq> blk" using ok(5) live s1(5) by auto
      show "iot_pbuffer_allocate (n_pbuf s1) (Some ?param) (Some None) = (NRF_SUCCESS, Some (Some (pb_ptr k)), pb)"
        using ok(8) by (simp only: pb_def pb_ptr_def)
      show "pb_get (s1\<lparr>n_pbuf := pb\<rparr>) (pb_ptr i) = Inr (m_pbuffer (n_pbuf s1) ! i)"
        using get' [OF i] k by (simp add: pb_def)
      show "pb_payload (m_pbuffer pb ! k) = Ptr ?bo 44" "pb_length (m_pbuffer pb ! k) = of_nat N"
        using k s1(3) by (simp_all add: pb_def alloc_buffer_def icmp_alloc_param_def type_offset_get_def c_consts)
    qed (use i len pool(3) s1(1) in \<open>simp_all add: nth pb_def\<close>)
  qed
qed

text \<open>What the request holds is read as before, as the reply lies in another block.\<close>

lemma request_load:
  assumes "icmp_arrived s i blk pre bw cs post" "bo \<noteq> blk"
  shows "load_bytes (hput (net_heap s) bo [] c p) (Ptr blk a) m = load_bytes (hput (net_heap s) blk pre cs post) (Ptr blk a) m"
  using load_hput_other [of blk bo "net_heap s" "[]" c p a m] assms by (simp add: icmp_arrived_def)

lemma request_addresses:
  assumes "icmp_arrived s i blk pre bw cs post" "bo \<noteq> blk"
  shows "load_addr (hput (net_heap s) bo [] c p) (Ptr blk (length pre)) 8 = Inr (cs ! 6)"
    "load_addr (hput (net_heap s) bo [] c p) (Ptr blk (length pre)) 24 = Inr (cs ! 7)"
proof -
  have w: "msg bw cs" using assms(1) by (simp add: icmp_arrived_def)
  show "load_addr (hput (net_heap s) bo [] c p) (Ptr blk (length pre)) 8 = Inr (cs ! 6)"
    unfolding load_addr_def ptr_add.simps request_load [OF assms] by (rule icmp_load [OF w]) simp_all
  show "load_addr (hput (net_heap s) bo [] c p) (Ptr blk (length pre)) 24 = Inr (cs ! 7)"
    unfolding load_addr_def ptr_add.simps request_load [OF assms] by (rule icmp_load [OF w]) simp_all
qed

text \<open>The data of the reply is that of the request.\<close>

lemma echo_reply_data_fields:
  assumes arr: "icmp_arrived s i blk pre [2, 2, n] cs post" and bo: "bo \<noteq> blk"
    and rq: "pb_payload rq = Ptr blk (length pre + 44)" "pb_length rq = of_nat (n + 4)"
    and w': "msg [2, 2, n] (fs @ bs)" "length fs = 11"
  shows "echo_reply_data (hput (net_heap s) bo [] (fs @ bs) p) rq (Ptr bo 44) =
    Inr (hput (net_heap s) bo [] (fs @ [cs ! 11, cs ! 12, cs ! 13]) p)"
proof -
  have w: "msg [2, 2, n] cs" and n: "n + 66 < 65536" using arr by (simp_all add: icmp_arrived_def)
  have cl: "length (cs ! 11) = 2" "length (cs ! 12) = 2" "length (cs ! 13) = n"
    using widths_nth [OF w, of 11] widths_nth [OF w, of 12] widths_nth [OF w, of 13] by simp_all
  note ld = request_load [OF arr bo] and l = icmp_load [OF w]
  have idn: "load_u16 (hput (net_heap s) bo [] c p) (Ptr blk (length pre + 44)) 0 = Inr (u16_of_bytes (cs ! 11 ! 1) (cs ! 11 ! 0))" for c
    by (rule load_u16_bytes, unfold ld, rule l) simp_all
  have seq: "load_u16 (hput (net_heap s) bo [] c p) (Ptr blk (length pre + 44)) 2 = Inr (u16_of_bytes (cs ! 12 ! 1) (cs ! 12 ! 0))" for c
    by (rule load_u16_bytes, unfold ld, rule l) simp_all
  have data: "load_bytes (hput (net_heap s) bo [] c p) (Ptr blk (48 + length pre)) n = Inr (cs ! 13)" for c
    unfolding ld by (rule l) simp_all
  have "unat (of_nat n :: u32) = n" by (rule unat_of_nat_u32) (use n in simp)
  then have n44: "unat (of_nat (n + 4) - 4 :: u32) = n" by simp
  have "length bs = 3" using widths_length [OF w'(1)] w'(2) by simp
  then obtain a b c where "bs = [a, b, c]" by (auto simp: length_Suc_conv eval_nat_numeral)
  then have upd: "(fs @ bs)[11 := cs ! 11, 12 := cs ! 12, 13 := cs ! 13] = fs @ [cs ! 11, cs ! 12, cs ! 13]"
    using w'(2) by (simp add: list_update_append)
  show ?thesis
    unfolding upd [symmetric]
    using w'(1) cl
    by (simp add: echo_reply_data_def rq idn seq data n44 store_u16_le16 le16_of_bytes
        icmp_store [where bw = "[2, 2, n]" and j = 11] icmp_store [where bw = "[2, 2, n]" and j = 12]
        icmp_store [where bw = "[2, 2, n]" and j = 13] del: of_nat_add)
qed

text \<open>The reply is composed in a block of its own, and handed to the 6LoWPAN library.\<close>

lemma echo_reply_sends:
  fixes s :: "'w net" and cs :: "u8 list list" and pre :: "u8 list" and i iface blk n :: nat
  defines "s1 \<equiv> icmp_opened s i blk (length pre + 44) (n + 4)"
  defines "packet \<equiv> icmp_packet 64 (reply_from s iface (cs ! 7)) (cs ! 6) 129 (concat (drop 11 cs))"
  assumes arr: "icmp_arrived s i blk pre [2, 2, n] cs post"
    and room: "pbuf_room (n_pbuf s) (n + 48)"
    and eui: "length (local_eui64 (if_objects (n_ipv6 s) iface)) = 8"
  shows "\<exists>k h pb. echo_reply_send E s1 iface (Ptr blk (length pre)) (pb_ptr i) =
    Inr (given_away (s1\<lparr>n_pbuf := pb\<rparr>) k h (snd (env_6lo_send E iface packet (of_nat (n + 48)) (n_world s))))"
proof -
  let ?src = "reply_from s iface (cs ! 7)" and ?data = "[cs ! 11, cs ! 12, cs ! 13]"
  from arr have w: "msg [2, 2, n] cs" and n: "n + 66 < 65536" and up: "m_event_handler (n_ipv6 s1) \<noteq> None"
    by (simp_all add: icmp_arrived_def s1_def)
  have cl: "length (cs ! 6) = 16" "length (cs ! 7) = 16" "length (cs ! 11) = 2" "length (cs ! 12) = 2" "length (cs ! 13) = n"
    using widths_nth [OF w, of 6] widths_nth [OF w, of 7] widths_nth [OF w, of 11] widths_nth [OF w, of 12] widths_nth [OF w, of 13]
    by simp_all
  have sum: "sum_list [2, 2, n] = n + 4" "n + 4 \<noteq> 0" "sum_list [2, 2, n] \<le> n + 4 \<or> sum_list [2, 2, n] \<le> 84" by simp_all
  have room': "pbuf_room (n_pbuf s) (n + 4 + 44)" using room by (simp add: add.assoc)
  obtain k bo pb rq b cs' post' where k: "k < IOT_PBUFFER_MAX_COUNT" "bo \<noteq> blk"
    and al: "iot_pbuffer_allocate (n_pbuf s1) (Some (icmp_alloc_param (of_nat (n + 4)))) (Some None) = (NRF_SUCCESS, Some (Some (pb_ptr k)), pb)"
    and rq: "pb_get s1 (pb_ptr i) = Inr rq" "pb_get (s1\<lparr>n_pbuf := pb\<rparr>) (pb_ptr i) = Inr rq"
      "pb_payload rq = Ptr blk (length pre + 44)" "pb_length rq = of_nat (n + 4)"
    and b: "pb_get (s1\<lparr>n_pbuf := pb\<rparr>) (pb_ptr k) = Inr b" "pb_payload b = Ptr bo 44" "pb_length b = of_nat (n + 4)"
      "m_pbuffer pb ! k = b"
    and pb: "length (m_pbuffer pb) = IOT_PBUFFER_MAX_COUNT" "pb_initialized pb"
    and cs': "msg [2, 2, n] cs'" and heap: "pb_heap pb = hput (net_heap s) bo [] cs' post'"
    using icmp_reply_buffer [OF arr sum(1,2) room' sum(3)] unfolding s1_def by blast
  have n4: "unat (pb_length b) = n + 4" unfolding b(3) by (rule unat_of_nat_u32) (use n in simp)
  define fs where "fs = icmp_fields 64 ?src (cs ! 6) 129 (n + 4) [0, 0]"
  have H: "echo_reply_headers (pb_heap pb) b (local_eui64 (if_objects (n_ipv6 s) iface)) (Ptr blk (length pre)) =
      Inr (hput (net_heap s) bo [] (fs @ drop 11 cs') post')"
    unfolding heap fs_def reply_from_def
    by (rule echo_reply_headers_fields [OF cs' cl(1,2) b(2) n4 _ eui]) (use request_addresses [OF arr k(2)] n in simp_all)
  have ws: "map length fs = icmp_widths" using cl reply_from_length [OF cl(2) eui] by (simp add: fs_def icmp_fields_def icmp_widths_def)
  have "map length (drop 11 cs') = [2, 2, n]"
    using cs' by (simp add: has_widths_def drop_map [symmetric] icmp_widths_def)
  then have w1: "msg [2, 2, n] (fs @ drop 11 cs')" and w2: "msg [2, 2, n] (fs @ ?data)"
    using ws cl by (simp_all add: has_widths_def)
  have D: "echo_reply_data (hput (net_heap s) bo [] (fs @ drop 11 cs') post') rq (pb_payload b) = Inr (hput (net_heap s) bo [] (fs @ ?data) post')"
    unfolding b(2) by (rule echo_reply_data_fields [OF arr k(2) rq(3,4) w1]) (simp add: fs_def)
  have "length cs = 14" using widths_length [OF w] by simp
  then have "drop 11 cs = ?data" by (simp add: Cons_nth_drop_Suc [symmetric])
  then have body: "concat ?data = concat (drop 11 cs)" "length (concat (drop 11 cs)) = n + 4" using cl by simp_all
  obtain e w' where send: "env_6lo_send E iface packet (of_nat (n + 48)) (n_world s) = (e, w')"
    by (cases "env_6lo_send E iface packet (of_nat (n + 48)) (n_world s)")
  let ?s2 = "s1\<lparr>n_pbuf := pb\<rparr>"
  have T: "icmp_transmit E ?s2 (hput (net_heap s) bo [] (fs @ ?data) post') iface (pb_ptr k) =
      Inr (e, given_away ?s2 k ((net_heap s)(bo := [] @ packet @ post')) w')"
    unfolding fs_def packet_def body(2) [symmetric]
  proof (rule icmp_transmit_sends)
    show "msg [2, 2, n] (icmp_fields 64 ?src (cs ! 6) 129 (length (concat (drop 11 cs))) [0, 0] @ ?data)"
      using w2 by (simp only: fs_def body(2))
    show "unat (pb_length (m_pbuffer (n_pbuf ?s2) ! k)) = length (concat (drop 11 cs))" using n4 b(4) body(2) by simp
    show "env_6lo_send E iface (icmp_packet 64 ?src (cs ! 6) 129 (concat (drop 11 cs)))
        (of_nat (length (concat (drop 11 cs)) + 44)) (n_world ?s2) = (e, w')"
      using send by (simp add: packet_def body(2) s1_def add.commute)
  qed (use k pb up n b body in simp_all)
  have "echo_reply_send E s1 iface (Ptr blk (length pre)) (pb_ptr i) =
      Inr (given_away ?s2 k ((net_heap s)(bo := [] @ packet @ post')) w')"
    using H D T rq(1,2,4) al b(1) by (simp add: echo_reply_send_def Let_def s1_def)
  then show ?thesis unfolding send snd_conv by blast
qed

lemma icmp6_input_eq:
  assumes arr: "icmp_arrived s i blk pre bw cs post" and type: "cs ! 8 = [type]"
  shows "icmp6_input E s (Some iface) (Ptr blk (length pre)) (Some (pb_ptr i)) =
    c_bind (icmp_process s iface (Ptr blk (length pre)) (Ptr blk (length pre + 40)) (pb_ptr i)) (\<lambda>(_, s1).
    c_bind (load (net_heap s1) (Ptr blk (length pre + 40)) 0) (\<lambda>t.
    c_bind (if t = 128 then echo_reply_send E s1 iface (Ptr blk (length pre)) (pb_ptr i) else Inr s1) (\<lambda>s2.
    Inr (NRF_SUCCESS, s2))))"
proof -
  let ?b = "m_pbuffer (n_pbuf s) ! i"
  from arr have i: "i < IOT_PBUFFER_MAX_COUNT" "length (m_pbuffer (n_pbuf s)) = IOT_PBUFFER_MAX_COUNT"
    and w: "msg bw cs" and H: "net_heap s = hput (net_heap s) blk pre cs post"
    and b: "pb_payload ?b = Ptr blk (length pre + 40)" "unat (pb_length ?b) = sum_list bw + 4"
    and init: "icmp_initialized s"
    by (simp_all add: icmp_arrived_def)
  from arr obtain l where l: "cs ! 3 = le16 l" "4 \<le> unat l" by (auto simp: icmp_arrived_def)
  have "load_u16 (net_heap s) (Ptr blk (length pre)) 4 = Inr l"
    using icmp_load_u16 [OF w, of "length pre" 4 pre 3 "net_heap s" blk post] H l(1) by simp
  moreover have "\<not> pb_length ?b < 4" "\<not> (ucast l :: u32) < 4"
    using b(2) l(2) by (simp_all add: word_less_nat_alt)
  ultimately show ?thesis
    using pb_get_ptr [OF i(2,1)] b(1) init
    by (simp add: icmp6_input_def c_consts case_prod_beta)
qed

lemma type_load:
  assumes "icmp_arrived s i blk pre bw cs post" "cs ! 8 = [type]"
  shows "load (net_heap s) (Ptr blk (length pre + 40)) 0 = Inr type"
proof -
  from assms have w: "msg bw cs" and H: "net_heap s = hput (net_heap s) blk pre cs post"
    by (simp_all add: icmp_arrived_def)
  show ?thesis
    using load_field [OF w, of "length pre + 40" 0 pre 8 type "net_heap s" blk post] H assms(2)
    by (simp del: load.simps)
qed

text \<open>C38: An echo request for the device is answered, whatever its checksum: with a buffer and a block free,
  exactly one packet is handed to the 6LoWPAN library, an echo reply to the sender with the identifier, the sequence
  number and the user data of the request, a correct checksum, and the address the request was sent to as source
  (the link-local address of the interface where that was a multicast address).\<close>

theorem icmp6_input_answers_echo:
  assumes arr: "icmp_arrived s i blk pre [2, 2, n] cs post" and type: "cs ! 8 = [128]"
    and room: "pbuf_room (n_pbuf s) (n + 48)"
    and eui: "length (local_eui64 (if_objects (n_ipv6 s) iface)) = 8"
  shows "\<exists>s'. icmp6_input E s (Some iface) (Ptr blk (length pre)) (Some (pb_ptr i)) = Inr (NRF_SUCCESS, s') \<and>
    n_world s' = snd (env_6lo_send E iface
      (icmp_packet 64 (reply_from s iface (cs ! 7)) (cs ! 6) 129 (concat (drop 11 cs))) (of_nat (n + 48)) (n_world s))"
proof -
  let ?s1 = "icmp_opened s i blk (length pre + 44) (n + 4)"
  have "sum_list [2, 2, n] = n + 4" by simp
  note eq = icmp_process_eq [OF arr type, of iface, unfolded this]
  have p: "icmp_process s iface (Ptr blk (length pre)) (Ptr blk (length pre + 40)) (pb_ptr i) =
      Inr (if icmp_valid [2, 2, n] cs then NRF_SUCCESS else ICMP6_BAD_CHECKSUM, ?s1)"
    unfolding eq by (simp add: Let_def)
  obtain k h pb where "echo_reply_send E ?s1 iface (Ptr blk (length pre)) (pb_ptr i) =
      Inr (given_away (?s1\<lparr>n_pbuf := pb\<rparr>) k h (snd (env_6lo_send E iface
        (icmp_packet 64 (reply_from s iface (cs ! 7)) (cs ! 6) 129 (concat (drop 11 cs))) (of_nat (n + 48)) (n_world s))))"
    using echo_reply_sends [OF arr room eui] by blast
  then show ?thesis
    using p type_load [OF arr type] unfolding icmp6_input_eq [OF arr type]
    by (simp add: given_away_def del: load.simps)
qed

lemma live_block_size:
  assumes "pool_inv mm" "pool_heap h" "Ptr blk 0 \<in> mm_live mm"
  shows "length (h blk) \<le> 1024"
proof -
  obtain j where "j < TOTAL_BLOCK_COUNT" "blk = block_offset j"
    using assms(1,3) by (auto simp: mm_live_iff pool_inv_def)
  then show ?thesis using assms(2) by (simp add: pool_heap_def block_bytes_eq)
qed

lemma load_u16_cases:
  obtains v where "load_u16 h (Ptr b a) off = Inr v" | "load_u16 h (Ptr b a) off = Inl OutOfBoundsRead"
  by (cases "load_bytes h (Ptr b (a + off)) 2") (auto simp: load_u16_def load_bytes.simps arr_read_def split: if_splits)

text \<open>The number of bytes to copy is negative, as an unsigned number about four billions.\<close>

lemma short_echo_data:
  assumes arr: "icmp_arrived s i blk pre [m] cs post" and m: "m < 4" and bo: "bo \<noteq> blk"
    and rq: "pb_payload rq = Ptr blk (length pre + 44)" "pb_length rq = of_nat m"
    and w': "msg [2, 2] fs"
  shows "echo_reply_data (hput (net_heap s) bo [] fs p) rq (Ptr bo 44) = Inl OutOfBoundsRead"
proof -
  have w: "msg [m] cs" and len: "length (net_heap s blk) \<le> 1024"
    using arr live_block_size [of "pb_mm (n_pbuf s)" "net_heap s" blk] by (simp_all add: icmp_arrived_def)
  have "unat (of_nat m - 4 :: u32) > 4294960000"
  proof -
    have "m = 0 \<or> m = 1 \<or> m = 2 \<or> m = 3" using m by auto
    then show ?thesis by (auto simp: unsigned_minus_1_eq_mask mask_eq_exp_minus_1)
  qed
  then have huge: "load_bytes (hput (net_heap s) bo [] c p) (Ptr blk (48 + length pre)) (unat (of_nat m - 4 :: u32)) = Inl OutOfBoundsRead" for c
    using len bo by (simp add: load_bytes.simps hput_def arr_read_def)
  have st: "store_bytes (hput (net_heap s) bo [] c p) (Ptr bo 44) (le16 v) = Inr (hput (net_heap s) bo [] (c[11 := le16 v]) p)"
    "store_bytes (hput (net_heap s) bo [] c p) (Ptr bo 46) (le16 v) = Inr (hput (net_heap s) bo [] (c[12 := le16 v]) p)"
    if "msg [2, 2] c" for c v
  proof -
    have "pos (icmp_widths @ [2, 2]) 12 = 46" "(icmp_widths @ [2, 2]) ! 11 = 2" "(icmp_widths @ [2, 2]) ! 12 = 2"
      by (simp_all add: pos_def icmp_widths_def)
    then show "store_bytes (hput (net_heap s) bo [] c p) (Ptr bo 44) (le16 v) = Inr (hput (net_heap s) bo [] (c[11 := le16 v]) p)"
      "store_bytes (hput (net_heap s) bo [] c p) (Ptr bo 46) (le16 v) = Inr (hput (net_heap s) bo [] (c[12 := le16 v]) p)"
      using icmp_store [OF that, of 44 "[]" 11 "le16 v"] icmp_store [OF that, of 46 "[]" 12 "le16 v"] by simp_all
  qed
  have msg': "msg [2, 2] (fs[11 := le16 v])" for v
    using w' by (simp add: icmp_widths_def)
  show ?thesis
  proof (cases rule: load_u16_cases [of "hput (net_heap s) bo [] fs p" blk "length pre + 44" 0])
    case (1 v)
    show ?thesis
    proof (cases rule: load_u16_cases [of "hput (net_heap s) bo [] (fs[11 := le16 v]) p" blk "length pre + 44" 2])
      case (1 u)
      show ?thesis
        using \<open>load_u16 (hput (net_heap s) bo [] fs p) (Ptr blk (length pre + 44)) 0 = Inr v\<close> 1 w'
        by (simp add: echo_reply_data_def rq store_u16_le16 st msg' huge)
    qed (use 1 w' in \<open>simp add: echo_reply_data_def rq store_u16_le16 st msg'\<close>)
  qed (simp add: echo_reply_data_def rq)
qed

text \<open>An echo request whose ICMPv6 payload has one to three bytes makes the module copy about four billion bytes:
  the length of the user data is computed as the length of the payload less four, without a check. Any node on the
  link can send such a message; its checksum need not be correct.\<close>

theorem icmp6_input_short_echo_overruns:
  assumes arr: "icmp_arrived s i blk pre [m] cs post" and type: "cs ! 8 = [128]" and m: "0 < m" "m < 4"
    and room: "pbuf_room (n_pbuf s) (m + 44)"
    and eui: "length (local_eui64 (if_objects (n_ipv6 s) iface)) = 8"
  shows "icmp6_input E s (Some iface) (Ptr blk (length pre)) (Some (pb_ptr i)) = Inl OutOfBoundsRead"
proof -
  let ?s1 = "icmp_opened s i blk (length pre + 44) m"
  have w: "msg [m] cs" using arr by (simp add: icmp_arrived_def)
  have cl: "length (cs ! 6) = 16" "length (cs ! 7) = 16" using widths_nth [OF w, of 6] widths_nth [OF w, of 7] by simp_all
  have sum: "sum_list [m] = m" "m \<noteq> 0" "sum_list [2, 2] \<le> m \<or> sum_list [2, 2] \<le> (84 :: nat)" using m by simp_all
  have p: "icmp_process s iface (Ptr blk (length pre)) (Ptr blk (length pre + 40)) (pb_ptr i) =
      Inr (if icmp_valid [m] cs then NRF_SUCCESS else ICMP6_BAD_CHECKSUM, ?s1)"
    unfolding icmp_process_eq [OF arr type, of iface, unfolded sum(1)] by (simp add: Let_def)
  obtain k bo pb rq b cs' post' where k: "k < IOT_PBUFFER_MAX_COUNT" "bo \<noteq> blk"
    and al: "iot_pbuffer_allocate (n_pbuf ?s1) (Some (icmp_alloc_param (of_nat m))) (Some None) = (NRF_SUCCESS, Some (Some (pb_ptr k)), pb)"
    and rq: "pb_get ?s1 (pb_ptr i) = Inr rq" "pb_get (?s1\<lparr>n_pbuf := pb\<rparr>) (pb_ptr i) = Inr rq"
      "pb_payload rq = Ptr blk (length pre + 44)" "pb_length rq = of_nat m"
    and b: "pb_get (?s1\<lparr>n_pbuf := pb\<rparr>) (pb_ptr k) = Inr b" "pb_payload b = Ptr bo 44" "pb_length b = of_nat m"
    and cs': "msg [2, 2] cs'" and heap: "pb_heap pb = hput (net_heap s) bo [] cs' post'"
    by (rule icmp_reply_buffer [OF arr sum(1,2) room sum(3)]) (rule that; assumption)
  have n4: "unat (pb_length b) = m" using m(2) unfolding b(3) by (simp add: unat_of_nat_u32)
  define fs where "fs = icmp_fields 64 (reply_from s iface (cs ! 7)) (cs ! 6) 129 m [0, 0]"
  have H: "echo_reply_headers (pb_heap pb) b (local_eui64 (if_objects (n_ipv6 s) iface)) (Ptr blk (length pre)) =
      Inr (hput (net_heap s) bo [] (fs @ drop 11 cs') post')"
    unfolding heap fs_def reply_from_def
    using request_addresses [OF arr k(2)] m(2) by (intro echo_reply_headers_fields [OF cs' cl(1,2) b(2) n4 _ eui]) simp_all
  have ws: "map length fs = icmp_widths" using cl reply_from_length [OF cl(2) eui] by (simp add: fs_def icmp_fields_def icmp_widths_def)
  have "map length (drop 11 cs') = [2, 2]"
    using cs' by (simp add: has_widths_def drop_map [symmetric] icmp_widths_def)
  then have "msg [2, 2] (fs @ drop 11 cs')" using ws by (simp add: has_widths_def)
  from short_echo_data [OF arr m(2) k(2) rq(3,4) this, of post']
  have "echo_reply_send E ?s1 iface (Ptr blk (length pre)) (pb_ptr i) = Inl OutOfBoundsRead"
    using H rq(1,2,4) al b(1,2) by (simp add: echo_reply_send_def Let_def)
  then show ?thesis
    using p type_load [OF arr type] unfolding icmp6_input_eq [OF arr type]
    by (simp del: load.simps)
qed

text \<open>A received message with the body \<open>bs\<close>, in the first block.\<close>

definition node_addr :: "u8 \<Rightarrow> u8 list" where
  "node_addr n = [0xFE, 0x80, 0, 0, 0, 0, 0, 0, 0, 0, 0, 0, 0, 0, 0, n]"

definition rx_fields :: "u8 \<Rightarrow> u8 list \<Rightarrow> u8 list list \<Rightarrow> u8 list list" where
  "rx_fields type ck bs = [[0x60], [0], [0, 0], le16 (of_nat (length (concat bs) + 4)), [58], [255],
     node_addr 2, node_addr 1, [type], [0], ck] @ bs"

definition rx_net :: "u8 \<Rightarrow> u8 list \<Rightarrow> u8 list list \<Rightarrow> u8 list list net" where
  "rx_net type ck bs = sample_net (sample_rx (concat (rx_fields type ck bs) @ replicate (84 - length (concat bs)) 0)
     \<lparr>pb_type = RAW_PACKET_TYPE, pb_memory = Ptr 0 0, pb_payload = Ptr 0 40, pb_length = of_nat (length (concat bs) + 4),
      allocated_length = of_nat (length (concat bs) + 44)\<rparr>)"

lemma rx_net_arrived:
  assumes "length (concat bs) \<le> 84" "length ck = 2"
  shows "icmp_arrived (rx_net type ck bs) 0 0 [] (map length bs) (rx_fields type ck bs) (replicate (84 - length (concat bs)) 0)"
    "0 < n \<Longrightarrow> n \<le> 1024 \<Longrightarrow> pbuf_room (n_pbuf (rx_net type ck bs)) n"
proof -
  let ?n = "length (concat bs)"
  define bytes where "bytes = concat (rx_fields type ck bs) @ replicate (84 - ?n) 0"
  have "length bytes = 128" using assms by (simp add: bytes_def rx_fields_def node_addr_def)
  note p = sample_rx_pool [OF this, where b = "\<lparr>pb_type = RAW_PACKET_TYPE, pb_memory = Ptr 0 0, pb_payload = Ptr 0 40, pb_length = of_nat (?n + 4),
      allocated_length = of_nat (?n + 44)\<rparr>"]
  have u: "unat (of_nat (?n + 4) :: u32) = ?n + 4" "unat (of_nat (?n + 44) :: u32) = ?n + 44"
    using assms(1) by (simp_all only: unat_of_nat_u32)
  have u16: "unat (of_nat (?n + 4) :: u16) = ?n + 4" using assms(1) by (simp only: unat_of_nat_u16)
  have nz: "(of_nat (?n + 44) :: u32) \<noteq> 0" using u(2) by (metis add_is_0 unat_0 zero_neq_numeral)
  have sum: "sum_list (map length bs) = ?n" by (simp add: length_concat)
  have l: "\<exists>l. rx_fields type ck bs ! 3 = le16 l \<and> 4 \<le> unat l"
    using u16 by (intro exI [of _ "of_nat (?n + 4)"]) (simp add: rx_fields_def)
  have w: "msg (map length bs) (rx_fields type ck bs)"
    using assms(2) by (simp add: has_widths_def rx_fields_def icmp_widths_def node_addr_def)
  have h: "net_heap (rx_net type ck bs) = hput (net_heap (rx_net type ck bs)) 0 [] (rx_fields type ck bs) (replicate (84 - ?n) 0)"
    using p(7) by (auto simp: rx_net_def sample_net_def hput_def bytes_def fun_eq_iff)
  show "icmp_arrived (rx_net type ck bs) 0 0 [] (map length bs) (rx_fields type ck bs) (replicate (84 - ?n) 0)"
    unfolding icmp_arrived_def sum
  proof (intro conjI)
    show "net_heap (rx_net type ck bs) = hput (net_heap (rx_net type ck bs)) 0 [] (rx_fields type ck bs) (replicate (84 - ?n) 0)"
      by (rule h)
    show "unat (pb_length (m_pbuffer (n_pbuf (rx_net type ck bs)) ! 0)) = ?n + 4"
      using p(6) u(1) by (simp add: rx_net_def sample_net_def bytes_def del: of_nat_add)
    show "allocated_length (m_pbuffer (n_pbuf (rx_net type ck bs)) ! 0) \<noteq> 0"
      using p(6) nz by (simp add: rx_net_def sample_net_def bytes_def del: of_nat_add)
  qed (use p(1-6) w l assms(1) in \<open>simp_all add: rx_net_def sample_net_def link_state_def bytes_def c_consts\<close>)
  show "pbuf_room (n_pbuf (rx_net type ck bs)) n" if "0 < n" "n \<le> 1024"
    using p(8) [OF that] by (simp add: rx_net_def sample_net_def bytes_def)
qed

theorem icmp6_input_answers_echo_witness:
  "\<exists>s'. icmp6_input sample_env (rx_net 128 [0xBE, 0xEF] [[0x12, 0x34], [0, 1], [1, 2, 3]]) (Some 0) (Ptr 0 0) (Some (pb_ptr 0)) =
      Inr (NRF_SUCCESS, s') \<and>
    n_world s' = [icmp_packet 64 (node_addr 1) (node_addr 2) 129 [0x12, 0x34, 0, 1, 1, 2, 3]]"
proof -
  let ?bs = "[[0x12, 0x34], [0, 1], [1, 2, 3]] :: u8 list list" and ?s = "rx_net 128 [0xBE, 0xEF] [[0x12, 0x34], [0, 1], [1, 2, 3]]"
  have w: "map length ?bs = [2, 2, 3]" by simp
  have "length (concat ?bs) \<le> 84" "length [0xBE, 0xEF :: u8] = 2" by simp_all
  note a = rx_net_arrived [OF this, where type = 128, unfolded w]
  have "length (local_eui64 (if_objects (n_ipv6 ?s) 0)) = 8" by (simp add: rx_net_def sample_net_def link_state_def)
  from icmp6_input_answers_echo [OF a(1) _ a(2) this, of sample_env, simplified] show ?thesis
    by (simp add: rx_fields_def sample_env_def reply_from_def node_addr_def) (simp add: rx_net_def sample_net_def)
qed

theorem icmp6_input_short_echo_overruns_witness:
  "icmp6_input sample_env (rx_net 128 [0, 0] [[7]]) (Some 0) (Ptr 0 0) (Some (pb_ptr 0)) = Inl OutOfBoundsRead"
proof -
  have w: "map length [[7 :: u8]] = [1]" by simp
  have "length (concat [[7 :: u8]]) \<le> 84" "length [0, 0 :: u8] = 2" by simp_all
  note a = rx_net_arrived [OF this, where type = 128, unfolded w]
  have "length (local_eui64 (if_objects (n_ipv6 (rx_net 128 [0, 0] [[7]])) 0)) = 8"
    by (simp add: rx_net_def sample_net_def link_state_def)
  from icmp6_input_short_echo_overruns [OF a(1) _ _ _ a(2) this, of sample_env, simplified] show ?thesis
    by (simp add: rx_fields_def)
qed

end
