(* ===== verification/Icmp6_Router.thy ===== *)
theory Icmp6_Router
  imports Icmp6
begin

text \<open>
  Router advertisements: the loop over the options returns, a prefix option configures an address
  of the interface, a context option the table of contexts; and the option whose prefix length is not
  checked writes outside the address.
\<close>

section \<open>Setting a prefix\<close>

lemma addr_bits_append: "addr_bits (xs @ ys) = addr_bits xs @ addr_bits ys"
  by (simp add: addr_bits_def)

lemma addr_bits_take: "addr_bits (take q xs) = take (8 * q) (addr_bits xs)"
  and addr_bits_drop: "addr_bits (drop q xs) = drop (8 * q) (addr_bits xs)"
proof -
  have s: "addr_bits xs = addr_bits (take q xs) @ addr_bits (drop q xs)"
    using addr_bits_append [of "take q xs" "drop q xs"] by simp
  have "addr_bits (take q xs) = take (8 * q) (addr_bits xs) \<and> addr_bits (drop q xs) = drop (8 * q) (addr_bits xs)"
  proof (cases "q \<le> length xs")
    case True
    then have "length (addr_bits (take q xs)) = 8 * q" by (simp add: length_addr_bits)
    then show ?thesis using s by (metis append_eq_conv_conj)
  next
    case False
    then show ?thesis using length_addr_bits [of xs] by (simp add: addr_bits_def)
  qed
  then show "addr_bits (take q xs) = take (8 * q) (addr_bits xs)" "addr_bits (drop q xs) = drop (8 * q) (addr_bits xs)" by simp_all
qed

lemma low_bits_u8: "unat (len AND 7 :: u8) = unat len mod 8"
proof -
  have "len AND 7 = take_bit 3 len" by (simp add: take_bit_eq_mask mask_eq_exp_minus_1)
  then show ?thesis by (simp add: unsigned_take_bit_eq take_bit_nat_def)
qed

lemma merged_byte_bits:
  assumes "0 < m" "m < 8"
  shows "byte_bits ((a AND NOT (ucast (drop_bit m (0xFF00 :: u32)))) OR (b AND ucast (drop_bit m (0xFF00 :: u32)))) =
    take m (byte_bits b) @ drop m (byte_bits a)"
proof -
  have "m = 1 \<or> m = 2 \<or> m = 3 \<or> m = 4 \<or> m = 5 \<or> m = 6 \<or> m = 7" using assms by auto
  then show ?thesis
    by (elim disjE) (simp_all add: byte_bits_def bit_simps)
qed

lemma prefix_set_bits:
  assumes "length to = 16" "load_bytes h (Ptr blk off) 16 = Inr pfx" "unat len \<le> 128"
  shows "\<exists>r. IPV6_ADDRESS_PREFIX_SET to h (Ptr blk off) len = Inr r \<and> length r = 16 \<and>
    addr_bits r = take (unat len) (addr_bits pfx) @ drop (unat len) (addr_bits to)"
proof -
  define q where "q = unat len div 8"
  define m where "m = unat len mod 8"
  have len: "unat len = 8 * q + m" "m < 8" "q \<le> 16" using assms(3) by (simp_all add: q_def m_def)
  have pfx: "off + 16 \<le> length (h blk)" "pfx = take 16 (drop off (h blk))"
    using assms(2) by (auto simp: load_bytes.simps arr_read_def split: if_splits)
  have lp: "length pfx = 16" using pfx by simp
  have rd: "load_bytes h (Ptr blk off) q = Inr (take q pfx)"
    using pfx len(3) by (simp add: load_bytes.simps arr_read_def min_def)
  have wr: "arr_write to 0 (take q pfx) = Inr (take q pfx @ drop q to)"
    using lp len(3) assms(1) by (auto simp: arr_write_def)
  show ?thesis
  proof (cases "m = 0")
    case True
    have "len AND 7 = 0" using low_bits_u8 [of len] True by (simp add: m_def unat_eq_zero)
    then have "IPV6_ADDRESS_PREFIX_SET to h (Ptr blk off) len = Inr (take q pfx @ drop q to)"
      using rd wr by (simp add: IPV6_ADDRESS_PREFIX_SET_def q_def [symmetric])
    then show ?thesis
      using True len lp assms(1) by (simp add: addr_bits_append addr_bits_take addr_bits_drop)
  next
    case False
    then have q: "q < 16" using len assms(3) by auto
    have "len AND 7 \<noteq> 0" using low_bits_u8 [of len] False by (auto simp: m_def)
    moreover have "load h (Ptr blk off) q = Inr (pfx ! q)" using pfx q by (simp add: arr_get_def)
    moreover have "arr_get (take q pfx @ drop q to) q = Inr (to ! q)" using lp q assms(1) by (simp add: nth_append)
    moreover define nb where "nb = (to ! q AND NOT (ucast (drop_bit m (0xFF00 :: u32)))) OR (pfx ! q AND ucast (drop_bit m (0xFF00 :: u32)))"
    moreover have "(take q pfx @ drop q to)[q := nb] = take q pfx @ nb # drop (Suc q) to"
      using lp q assms(1) by (simp add: list_update_append Cons_nth_drop_Suc [symmetric])
    ultimately have "IPV6_ADDRESS_PREFIX_SET to h (Ptr blk off) len = Inr (take q pfx @ nb # drop (Suc q) to)"
      using rd wr lp q assms(1) by (simp add: IPV6_ADDRESS_PREFIX_SET_def q_def [symmetric] m_def [symmetric] Let_def del: load.simps)
    moreover have "addr_bits (take q pfx @ nb # drop (Suc q) to) = take (unat len) (addr_bits pfx) @ drop (unat len) (addr_bits to)"
    proof -
      have "pfx = take q pfx @ pfx ! q # drop (Suc q) pfx" "to = take q to @ to ! q # drop (Suc q) to"
        using q lp assms(1) by (simp_all add: id_take_nth_drop)
      then have "addr_bits pfx = addr_bits (take q pfx) @ byte_bits (pfx ! q) @ addr_bits (drop (Suc q) pfx)"
        "addr_bits to = addr_bits (take q to) @ byte_bits (to ! q) @ addr_bits (drop (Suc q) to)"
        by (metis addr_bits_append addr_bits_def concat.simps(2) list.simps(9))+
      moreover have "length (addr_bits (take q pfx)) = 8 * q" "length (addr_bits (take q to)) = 8 * q"
        using q lp assms(1) by (simp_all add: length_addr_bits)
      moreover have "length (byte_bits x) = 8" for x by (simp add: byte_bits_def)
      ultimately have "take (unat len) (addr_bits pfx) = addr_bits (take q pfx) @ take m (byte_bits (pfx ! q))"
        "drop (unat len) (addr_bits to) = drop m (byte_bits (to ! q)) @ addr_bits (drop (Suc q) to)"
        using len by simp_all
      moreover have "byte_bits nb = take m (byte_bits (pfx ! q)) @ drop m (byte_bits (to ! q))"
        unfolding nb_def by (rule merged_byte_bits) (use False len in simp_all)
      ultimately show ?thesis by (simp add: addr_bits_append) (simp add: addr_bits_def)
    qed
    ultimately show ?thesis using q lp assms(1) by simp
  qed
qed

section \<open>The loop over the options\<close>

text \<open>A computation that may fault but not run out of fuel.\<close>

definition returns :: "fault + 'a \<Rightarrow> bool" where
  "returns m \<longleftrightarrow> m \<noteq> Inl Diverges"

named_theorems returns_intros

lemma returns_Inr [returns_intros]: "returns (Inr x)"
  by (simp add: returns_def)

lemma returns_bind [returns_intros]: "returns m \<Longrightarrow> (\<And>x. returns (k x)) \<Longrightarrow> returns (c_bind m k)"
  by (cases m) (auto simp: returns_def)

lemma returns_access [returns_intros]:
  "returns (arr_get xs i)" "returns (arr_set xs i v)" "returns (arr_upd xs i f)" "returns (arr_write xs i vs)"
  "returns (load h p i)" "returns (load_bytes h p n)"
  by (auto simp: returns_def arr_get_def arr_set_def arr_upd_def arr_write_def load_bytes.simps arr_read_def
      elim: load.elims split: ptr.splits) (cases p; simp add: load_bytes.simps arr_read_def arr_get_def split: if_splits)+

lemma returns_if [returns_intros]: "(b \<Longrightarrow> returns m) \<Longrightarrow> (\<not> b \<Longrightarrow> returns m') \<Longrightarrow> returns (if b then m else m')"
  by simp

lemma returns_option [returns_intros]:
  "(x = None \<Longrightarrow> returns m) \<Longrightarrow> (\<And>y. x = Some y \<Longrightarrow> returns (k y)) \<Longrightarrow> returns (case x of None \<Rightarrow> m | Some y \<Rightarrow> k y)"
  by (cases x) simp_all

lemma returns_pair [returns_intros]: "(\<And>a b. x = (a, b) \<Longrightarrow> returns (k a b)) \<Longrightarrow> returns (case x of (a, b) \<Rightarrow> k a b)"
  by (cases x) simp

lemma returns_load_u16 [returns_intros]: "returns (load_u16 h p off)"
  unfolding load_u16_def by (intro returns_intros)

lemma returns_address_set: "returns (ipv6_address_set s iface conf)"
  unfolding ipv6_address_set_def addr_set_def Let_def by (intro returns_intros)

lemma returns_addr_free [returns_intros]: "returns (addr_free s i b)"
  unfolding addr_free_def by (intro returns_intros)

lemma returns_address_remove: "returns (ipv6_address_remove s iface addr)"
proof -
  have "returns (address_remove_loop s ifn a is)" for ifn a "is"
    by (induction "is" arbitrary: s) (auto intro!: returns_intros)
  then show ?thesis unfolding ipv6_address_remove_def by (intro returns_intros)
qed

lemma returns_options: "returns (ra_pio s iface p)" "returns (ra_6co s iface p)"
  unfolding ra_pio_def ra_6co_def Let_def IPV6_ADDRESS_PREFIX_SET_def IPV6_ADDRESS_IS_LINK_LOCAL_def
  by (intro returns_intros returns_address_set returns_address_remove)+

text \<open>Every step moves the offset by at least 8, and a packet is too short for the offset to wrap around.\<close>

lemma ra_option_loop_returns:
  fixes s :: "'w net"
  shows "unat len + 8 \<le> unat off + 8 * n \<Longrightarrow> unat len \<le> 63488 \<Longrightarrow> returns (ra_option_loop n s iface payload len off) \<or> n = 0"
proof (induction n arbitrary: s off)
  case (Suc n)
  have step: "returns (ra_option_loop n s' iface payload len (off + 8 * ucast l))"
    if "(ucast off :: u32) < len" "l \<noteq> 0" for s' :: "'w net" and l :: u8
  proof -
    have off: "unat off < unat len" using that(1) by (simp add: word_less_nat_alt)
    have "unat l < 256" "unat l \<noteq> 0" using unat_u8_less that(2) by (simp_all add: unat_eq_zero)
    then have l8: "unat (8 * ucast l :: u16) = 8 * unat l" by (simp add: unat_word_ariths)
    have "unat (off + 8 * ucast l) = unat off + 8 * unat l"
      using off Suc.prems(2) \<open>unat l < 256\<close> by (subst unat_add_u16) (simp_all add: l8)
    then have "unat len + 8 \<le> unat (off + 8 * ucast l) + 8 * n"
      using Suc.prems(1) \<open>unat l \<noteq> 0\<close> by simp
    moreover have "n \<noteq> 0" using Suc.prems(1) off by (cases n) simp_all
    ultimately show ?thesis using Suc.IH [of "off + 8 * ucast l" s'] Suc.prems(2) by blast
  qed
  have "returns (ra_option_loop (Suc n) s iface payload len off)"
    unfolding ra_option_loop.simps Let_def by (intro returns_intros returns_options) (simp_all add: step)
  then show ?case ..
qed simp


section \<open>A router advertisement\<close>

lemma load_bytes_prefix: "load_bytes h (Ptr b a) n = Inr v \<Longrightarrow> k \<le> n \<Longrightarrow> load_bytes h (Ptr b a) k = Inr (take k v)"
  by (auto simp: load_bytes.simps arr_read_def min_def split: if_splits)

lemma link_local_prefix:
  assumes "load_bytes h (Ptr b a) 16 = Inr v"
  shows "IPV6_ADDRESS_IS_LINK_LOCAL h (Ptr b a) = Inr (take 2 v = [0xFE, 0x80])"
proof -
  have v: "length v = 16" using load_bytes_Inr_length [OF assms] by simp
  have "u16_of_bytes x y = HTONS 0xFE80 \<longleftrightarrow> x = 0x80 \<and> y = 0xFE" for x y
  proof -
    have "HTONS 0xFE80 = u16_of_bytes 0x80 0xFE" by (simp add: HTONS_def u16_of_bytes_def)
    then show ?thesis by (metis u16_hi_of_bytes u16_lo_of_bytes)
  qed
  moreover have "take 2 v = [v ! 0, v ! 1]" using v by (cases v; cases "tl v") auto
  ultimately show ?thesis
    using load_bytes_prefix [OF assms, of 2] by (auto simp: IPV6_ADDRESS_IS_LINK_LOCAL_def load_u16_def)
qed

lemma ra_arrived_input:
  assumes arr: "icmp_arrived s i blk pre bw cs post" and type: "cs ! 8 = [134]"
    and valid: "icmp_valid bw cs" and src: "take 2 (cs ! 6) = [0xFE, 0x80]"
  defines "s1 \<equiv> icmp_opened s i blk (length pre + 44) (sum_list bw)"
  shows "icmp6_input E s (Some iface) (Ptr blk (length pre)) (Some (pb_ptr i)) =
    c_bind (ra_option_loop RA_FUEL s1 iface (Ptr blk (length pre + 44)) (of_nat (sum_list bw)) 12) (\<lambda>(_, s2).
    c_bind (load (net_heap s2) (Ptr blk (length pre + 40)) 0) (\<lambda>t.
    c_bind (if t = 128 then echo_reply_send E s2 iface (Ptr blk (length pre)) (pb_ptr i) else Inr s2) (\<lambda>s3.
    Inr (NRF_SUCCESS, s3))))"
proof -
  from arr have i: "i < IOT_PBUFFER_MAX_COUNT" "length (m_pbuffer (n_pbuf s)) = IOT_PBUFFER_MAX_COUNT"
    and w: "msg bw cs" and H: "net_heap s = hput (net_heap s) blk pre cs post"
    by (simp_all add: icmp_arrived_def)
  have "load_bytes (net_heap s1) (Ptr blk (length pre + 8)) 16 = Inr (cs ! 6)"
    using icmp_load [OF w, of "length pre + 8" pre 6 16 "net_heap s" blk post] H by (simp add: s1_def)
  from link_local_prefix [OF this] have ll: "IPV6_ADDRESS_IS_LINK_LOCAL (net_heap s1) (Ptr blk (length pre + 8)) = Inr True"
    using src by simp
  have b: "pb_get s1 (pb_ptr i) = Inr ((m_pbuffer (n_pbuf s) ! i)\<lparr>pb_type := ICMP6_PACKET_TYPE,
      pb_payload := Ptr blk (length pre + 44), pb_length := of_nat (sum_list bw)\<rparr>)"
    using i by (subst pb_get_ptr) (simp_all add: s1_def icmp_opened_nth)
  have "icmp_process s iface (Ptr blk (length pre)) (Ptr blk (length pre + 40)) (pb_ptr i) =
      ra_option_loop RA_FUEL s1 iface (Ptr blk (length pre + 44)) (of_nat (sum_list bw)) 12"
    using icmp_process_eq [OF arr type, of iface] valid ll b
    by (simp add: s1_def [symmetric] Let_def ndisc_input_def ra_input_def c_consts)
  then show ?thesis using icmp6_input_eq [OF arr type, of E iface] by simp
qed

text \<open>A prefix option behind the 12 bytes of the advertisement.\<close>

definition pio_widths :: "nat list" where
  "pio_widths = [12, 1, 1, 1, 1, 4, 4, 4, 16]"

lemma pio_widths_simps [simp]:
  "pos (icmp_widths @ pio_widths) 12 = 56" "pos (icmp_widths @ pio_widths) 13 = 57" "pos (icmp_widths @ pio_widths) 14 = 58"
  "pos (icmp_widths @ pio_widths) 15 = 59" "pos (icmp_widths @ pio_widths) 16 = 60" "pos (icmp_widths @ pio_widths) 19 = 72"
  "(icmp_widths @ pio_widths) ! 16 = 4" "(icmp_widths @ pio_widths) ! 19 = 16"
  "length pio_widths = 9" "sum_list pio_widths = 44"
  by (simp_all add: pos_def icmp_widths_def pio_widths_def)

text \<open>What the option needs to be accepted: a prefix, the autonomous flag and not the on-link flag.\<close>

definition pio_option :: "u8 list list \<Rightarrow> u8 \<Rightarrow> bool" where
  "pio_option cs plen \<longleftrightarrow> cs ! 12 = [3] \<and> cs ! 13 = [4] \<and> cs ! 14 = [plen] \<and> plen \<noteq> 0 \<and>
     (\<exists>flags. cs ! 15 = [flags] \<and> flags AND 0x40 \<noteq> 0 \<and> flags AND 0x80 = 0) \<and> take 2 (cs ! 19) \<noteq> [0xFE, 0x80]"

definition pio_addr :: "'w net \<Rightarrow> nat \<Rightarrow> ptr \<Rightarrow> u8 \<Rightarrow> fault + u8 list" where
  "pio_addr s iface p plen =
     IPV6_ADDRESS_PREFIX_SET (IPV6_CREATE_LINK_LOCAL_FROM_EUI64 (local_eui64 (if_objects (n_ipv6 s) iface))) (net_heap s) p plen"

lemma pio_option_loop:
  assumes w: "msg pio_widths cs" and H: "net_heap s = hput h blk pre cs post" and opt: "pio_option cs plen"
  shows "ra_option_loop RA_FUEL s iface (Ptr blk (length pre + 44)) 44 12 =
    c_bind (pio_addr s iface (Ptr blk (length pre + 72)) plen) (\<lambda>addr.
    c_bind (if cs ! 16 \<noteq> [0, 0, 0, 0]
            then ipv6_address_set (n_ipv6 s) (Some iface) (Some \<lparr>conf_addr = addr, conf_state = IPV6_ADDR_STATE_PREFERRED\<rparr>)
            else ipv6_address_remove (n_ipv6 s) (Some iface) (Some addr)) (\<lambda>(_, ip).
    Inr (NRF_SUCCESS, s\<lparr>n_ipv6 := ip\<rparr>)))"
proof -
  from opt obtain flags where o': "cs ! 12 = [3]" "cs ! 13 = [4]" "cs ! 14 = [plen]" "plen \<noteq> 0" "cs ! 15 = [flags]"
    "flags AND 0x40 \<noteq> 0" "flags AND 0x80 = 0" "take 2 (cs ! 19) \<noteq> [0xFE, 0x80]"
    by (auto simp: pio_option_def)
  note ld = load_field [OF w, of _ _ pre _ _ h blk post, folded H]
  have l: "load (net_heap s) (Ptr blk (length pre + 56)) 0 = Inr 3" "load (net_heap s) (Ptr blk (length pre + 56)) 1 = Inr 4"
    "load (net_heap s) (Ptr blk (length pre + 56)) 2 = Inr plen" "load (net_heap s) (Ptr blk (length pre + 56)) 3 = Inr flags"
    using o' by (intro ld [of _ _ 12] ld [of _ _ 13] ld [of _ _ 14] ld [of _ _ 15]; simp)+
  have life: "load_bytes (net_heap s) (Ptr blk (length pre + 60)) 4 = Inr (cs ! 16)"
    unfolding H by (rule icmp_load [OF w]) simp_all
  have "load_bytes (net_heap s) (Ptr blk (length pre + 72)) 16 = Inr (cs ! 19)"
    unfolding H by (rule icmp_load [OF w]) simp_all
  from link_local_prefix [OF this] have ll: "IPV6_ADDRESS_IS_LINK_LOCAL (net_heap s) (Ptr blk (length pre + 72)) = Inr False"
    using o' by simp
  have fuel: "RA_FUEL = Suc (Suc 8190)" by (simp add: RA_FUEL_def)
  have cmp: "(ucast (12 :: u16) :: u32) < 44" "\<not> (ucast (44 :: u16) :: u32) < 44" by simp_all
  have add: "ptr_add (Ptr blk (length pre + 56)) 16 = Ptr blk (length pre + 72)" "ptr_add (Ptr blk (length pre + 56)) 4 = Ptr blk (length pre + 60)"
    "ptr_add (Ptr blk (length pre + 44)) 12 = Ptr blk (length pre + 56)" by simp_all
  have pio: "ra_pio s iface (Ptr blk (length pre + 56)) =
    c_bind (pio_addr s iface (Ptr blk (length pre + 72)) plen) (\<lambda>addr.
    c_bind (if cs ! 16 \<noteq> [0, 0, 0, 0]
            then ipv6_address_set (n_ipv6 s) (Some iface) (Some \<lparr>conf_addr = addr, conf_state = IPV6_ADDR_STATE_PREFERRED\<rparr>)
            else ipv6_address_remove (n_ipv6 s) (Some iface) (Some addr)) (\<lambda>(_, ip).
    Inr (None, s\<lparr>n_ipv6 := ip\<rparr>)))"
    using l o' ll life add by (simp add: ra_pio_def pio_addr_def c_consts Let_def del: load.simps ptr_add.simps)
  show ?thesis
    unfolding fuel ra_option_loop.simps
    using l cmp add by (simp add: pio c_bind_assoc c_consts case_prod_unfold Let_def del: load.simps ptr_add.simps)
qed


text \<open>The prefix length of the option is not checked: one of more than 128 bits makes the module write behind the
  16 bytes of the address it composes on its stack. Any neighbour can send such a router advertisement.\<close>

theorem icmp6_prefix_option_overruns:
  assumes arr: "icmp_arrived s i blk pre pio_widths cs post" and type: "cs ! 8 = [134]"
    and valid: "icmp_valid pio_widths cs" and src: "take 2 (cs ! 6) = [0xFE, 0x80]"
    and opt: "pio_option cs plen" and plen: "128 < unat plen" and more: "16 \<le> length post"
    and eui: "length (local_eui64 (if_objects (n_ipv6 s) iface)) = 8"
  shows "\<exists>f \<in> {OutOfBoundsWrite, OutOfBoundsRead}.
    icmp6_input E s (Some iface) (Ptr blk (length pre)) (Some (pb_ptr i)) = Inl f"
proof -
  let ?s1 = "icmp_opened s i blk (length pre + 44) 44"
  let ?ll = "IPV6_CREATE_LINK_LOCAL_FROM_EUI64 (local_eui64 (if_objects (n_ipv6 s) iface))"
  from arr have w: "msg pio_widths cs" and H: "net_heap s = hput (net_heap s) blk pre cs post"
    by (simp_all add: icmp_arrived_def)
  have H1: "net_heap ?s1 = hput (net_heap s) blk pre cs post" using H by simp
  have l16: "length ?ll = 16" using eui by (simp add: IPV6_CREATE_LINK_LOCAL_FROM_EUI64_def)
  define q where "q = unat plen div 8"
  have q: "16 \<le> q" "q < 32" using plen unat_u8_less [of plen] by (simp_all add: q_def)
  have "length (concat cs) = 88" using widths_concat [OF w] by simp
  moreover have "net_heap ?s1 blk = pre @ concat cs @ post" unfolding H1 by (simp add: hput_def)
  ultimately have "length (net_heap ?s1 blk) \<ge> length pre + 72 + q"
    using more q(2) by (simp del: icmp_opened_simps)
  then have rd: "\<exists>bs. load_bytes (net_heap ?s1) (Ptr blk (length pre + 72)) q = Inr bs \<and> length bs = q"
    unfolding load_bytes.simps arr_read_def by simp
  obtain bs where bs: "load_bytes (net_heap ?s1) (Ptr blk (length pre + 72)) q = Inr bs" "length bs = q" using rd by blast
  have "\<exists>f \<in> {OutOfBoundsWrite, OutOfBoundsRead}. pio_addr ?s1 iface (Ptr blk (length pre + 72)) plen = Inl f"
  proof (cases "q = 16")
    case False
    then have "arr_write ?ll 0 bs = Inl OutOfBoundsWrite" using bs(2) q l16 by (auto simp: arr_write_def)
    then show ?thesis using bs(1) by (simp add: pio_addr_def IPV6_ADDRESS_PREFIX_SET_def q_def)
  next
    case True
    have "8 * q + unat plen mod 8 = unat plen" unfolding q_def by simp
    then have "unat plen mod 8 \<noteq> 0" using True plen by simp
    then have "plen AND 7 \<noteq> 0" using low_bits_u8 [of plen] by auto
    moreover have "arr_write ?ll 0 bs = Inr bs" using True bs(2) l16 by (auto simp: arr_write_def)
    moreover have "arr_get bs 16 = Inl OutOfBoundsRead" using True bs(2) by (simp add: arr_get_def)
    moreover have "load (net_heap ?s1) (Ptr blk (length pre + 72)) q \<in> {Inl OutOfBoundsRead} \<union> range Inr"
      by (simp add: arr_get_def)
    ultimately show ?thesis
      using bs(1) True by (auto simp: pio_addr_def IPV6_ADDRESS_PREFIX_SET_def q_def Let_def simp del: load.simps)
  qed
  then obtain f where f: "f \<in> {OutOfBoundsWrite, OutOfBoundsRead}" "pio_addr ?s1 iface (Ptr blk (length pre + 72)) plen = Inl f"
    by blast
  then have "ra_option_loop RA_FUEL ?s1 iface (Ptr blk (length pre + 44)) 44 12 = Inl f"
    by (simp only: pio_option_loop [OF w H1 opt] c_bind_Inl)
  then have "icmp6_input E s (Some iface) (Ptr blk (length pre)) (Some (pb_ptr i)) = Inl f"
    using ra_arrived_input [OF arr type valid src, of E iface] by simp
  then show ?thesis using f(1) by blast
qed

section \<open>Witnesses\<close>

definition pio_body :: "u8 \<Rightarrow> u8 list list" where
  "pio_body plen = [[0, 0, 0, 0, 0, 0, 0, 0, 0, 0, 0, 0], [3], [4], [plen], [0x40], [0, 1, 0x51, 0x80], [0, 0, 0x38, 0x40], [0, 0, 0, 0],
     [0x20, 1, 0x0D, 0xB8, 0, 0, 0, 0, 0, 0, 0, 0, 0, 0, 0, 0]]"

lemma pio_body_arrived:
  assumes "length ck = 2"
  shows "icmp_arrived (rx_net 134 ck (pio_body plen)) 0 0 [] pio_widths (rx_fields 134 ck (pio_body plen)) (replicate 40 0)"
    "plen \<noteq> 0 \<Longrightarrow> pio_option (rx_fields 134 ck (pio_body plen)) plen"
    "take 2 (rx_fields 134 ck (pio_body plen) ! 6) = [0xFE, 0x80]" "rx_fields 134 ck (pio_body plen) ! 8 = [134]"
    "rx_fields 134 ck (pio_body plen) ! 16 = [0, 1, 0x51, 0x80]" "rx_fields 134 ck (pio_body plen) ! 19 = [0x20, 1, 0x0D, 0xB8, 0, 0, 0, 0, 0, 0, 0, 0, 0, 0, 0, 0]"
    "n_ipv6 (rx_net 134 ck (pio_body plen)) = link_state"
proof -
  have w: "map length (pio_body plen) = pio_widths" "length (concat (pio_body plen)) = 44" by (simp_all add: pio_body_def pio_widths_def)
  have "length (concat (pio_body plen)) \<le> 84" by (simp add: w)
  from rx_net_arrived(1) [OF this assms, of 134] show
    "icmp_arrived (rx_net 134 ck (pio_body plen)) 0 0 [] pio_widths (rx_fields 134 ck (pio_body plen)) (replicate 40 0)"
    by (simp add: w)
qed (simp_all add: pio_option_def rx_fields_def pio_body_def node_addr_def rx_net_def sample_net_def)

lemma pio_body_valid:
  "icmp_valid pio_widths (rx_fields 134 [0x81, 0xD1] (pio_body 64))" "icmp_valid pio_widths (rx_fields 134 [0xC2, 0xD0] (pio_body 255))"
  by (simp_all add: icmp_valid_def rx_fields_def pio_body_def node_addr_def pio_widths_def pseudo_header_def net16_def u16_hi_def u16_lo_def oc_sum_def oc_add_def)

lemma link_eui: "length (local_eui64 (if_objects link_state 0)) = 8"
  by (simp add: link_state_def)

lemma link_addr: "local_eui64 (if_objects link_state 0) = replicate 8 0"
  by (simp add: link_state_def)



theorem icmp6_prefix_option_overruns_witness:
  "\<exists>f \<in> {OutOfBoundsWrite, OutOfBoundsRead}.
    icmp6_input sample_env (rx_net 134 [0xC2, 0xD0] (pio_body 255)) (Some 0) (Ptr 0 0) (Some (pb_ptr 0)) = Inl f"
proof -
  have ck: "length ([0xC2, 0xD0] :: u8 list) = 2" by simp
  note p = pio_body_arrived [OF ck, of 255]
  from icmp6_prefix_option_overruns [OF p(1,4) pio_body_valid(2) p(3) p(2), of 0 sample_env, unfolded p(7)]
  show ?thesis using link_eui by simp
qed

end
