(* ===== verification/Coap_Option.thy ===== *)
theory Coap_Option
  imports Sdk_Config
begin

text \<open>
  The option value codecs, \<^verbatim>\<open>components/iot/coap/coap_option.c\<close>: strings are copied, unsigned integers
  are written in network byte order in 1, 2 or 4 bytes and read back from 0 to 4 bytes.
\<close>

section \<open>Operations\<close>

text \<open>The result is the error code, the store and the cell behind \<open>p_length\<close>.\<close>

definition coap_opt_string_encode ::
  "heap \<Rightarrow> ptr \<Rightarrow> u16 option \<Rightarrow> ptr \<Rightarrow> u16 \<Rightarrow> fault + u32 \<times> heap \<times> u16 option" where
  "coap_opt_string_encode h p_encoded p_length p_string str_len =
     (if p_encoded = NULL then Inr (NRF_ERROR_NULL OR IOT_COAP_ERR_BASE, h, p_length)
      else case p_length of
        None \<Rightarrow> Inr (NRF_ERROR_NULL OR IOT_COAP_ERR_BASE, h, p_length)
      | Some len \<Rightarrow>
        if p_string = NULL then Inr (NRF_ERROR_NULL OR IOT_COAP_ERR_BASE, h, p_length)
        else if str_len > len then Inr (NRF_ERROR_DATA_SIZE OR IOT_COAP_ERR_BASE, h, p_length)
        else c_bind (load_bytes h p_string (unat str_len)) (\<lambda>bs.
             c_bind (store_bytes h p_encoded bs) (\<lambda>h'.
             Inr (NRF_SUCCESS, h', Some str_len))))"

definition coap_opt_string_decode :: "heap \<Rightarrow> u32 \<times> heap" where
  "coap_opt_string_decode h = (NRF_SUCCESS, h)"

definition coap_opt_uint_encode ::
  "heap \<Rightarrow> ptr \<Rightarrow> u16 option \<Rightarrow> u32 \<Rightarrow> fault + u32 \<times> heap \<times> u16 option" where
  "coap_opt_uint_encode h p_encoded p_length data =
     (if p_encoded = NULL then Inr (NRF_ERROR_NULL OR IOT_COAP_ERR_BASE, h, p_length)
      else case p_length of
        None \<Rightarrow> Inr (NRF_ERROR_NULL OR IOT_COAP_ERR_BASE, h, p_length)
      | Some len \<Rightarrow>
        if data \<le> 0xFF then
          if len < 1 then Inr (NRF_ERROR_DATA_SIZE OR IOT_COAP_ERR_BASE, h, p_length)
          else c_bind (store_bytes h p_encoded [ucast data]) (\<lambda>h'. Inr (NRF_SUCCESS, h', Some 1))
        else if data \<le> 0xFFFF then
          if len < 2 then Inr (NRF_ERROR_DATA_SIZE OR IOT_COAP_ERR_BASE, h, p_length)
          else c_bind (store_bytes h p_encoded
                  [ucast (drop_bit 8 (data AND 0xFF00)), ucast (data AND 0x00FF)])
                 (\<lambda>h'. Inr (NRF_SUCCESS, h', Some 2))
        else
          if len < 4 then Inr (NRF_ERROR_DATA_SIZE OR IOT_COAP_ERR_BASE, h, p_length)
          else c_bind (store_bytes h p_encoded
                  [ucast (drop_bit 24 (data AND 0xFF000000)), ucast (drop_bit 16 (data AND 0x00FF0000)),
                   ucast (drop_bit 8 (data AND 0x0000FF00)), ucast (data AND 0x000000FF)])
                 (\<lambda>h'. Inr (NRF_SUCCESS, h', Some 4)))"

text \<open>The result is the error code and the cell behind \<open>p_data\<close>.\<close>

definition coap_opt_uint_decode ::
  "heap \<Rightarrow> u32 option \<Rightarrow> u16 \<Rightarrow> ptr \<Rightarrow> fault + u32 \<times> u32 option" where
  "coap_opt_uint_decode h p_data len p_encoded =
     (if p_data = None then Inr (NRF_ERROR_NULL OR IOT_COAP_ERR_BASE, p_data)
      else if p_encoded = NULL then Inr (NRF_ERROR_NULL OR IOT_COAP_ERR_BASE, p_data)
      else if len = 0 then Inr (NRF_SUCCESS, Some 0)
      else if len = 1 then
        c_bind (load h p_encoded 0) (\<lambda>b0. Inr (NRF_SUCCESS, Some (0 OR ucast b0)))
      else if len = 2 then
        c_bind (load h p_encoded 0) (\<lambda>b0. c_bind (load h p_encoded 1) (\<lambda>b1.
          Inr (NRF_SUCCESS, Some (0 OR push_bit 8 (ucast b0) OR ucast b1))))
      else if len = 3 then
        c_bind (load h p_encoded 0) (\<lambda>b0. c_bind (load h p_encoded 1) (\<lambda>b1.
        c_bind (load h p_encoded 2) (\<lambda>b2.
          Inr (NRF_SUCCESS, Some (0 OR push_bit 16 (ucast b0) OR push_bit 8 (ucast b1) OR ucast b2)))))
      else if len = 4 then
        c_bind (load h p_encoded 0) (\<lambda>b0. c_bind (load h p_encoded 1) (\<lambda>b1.
        c_bind (load h p_encoded 2) (\<lambda>b2. c_bind (load h p_encoded 3) (\<lambda>b3.
          Inr (NRF_SUCCESS, Some (0 OR push_bit 24 (ucast b0) OR push_bit 16 (ucast b1)
                                    OR push_bit 8 (ucast b2) OR ucast b3))))))
      else Inr (NRF_ERROR_INVALID_LENGTH OR IOT_COAP_ERR_BASE, p_data))"

section \<open>Reference encoding\<close>

text \<open>The bytes the encoder writes for a value, and the number a byte string denotes.\<close>

definition uint_bytes :: "u32 \<Rightarrow> u8 list" where
  "uint_bytes d =
     (if d \<le> 0xFF then [ucast d]
      else if d \<le> 0xFFFF then [ucast (drop_bit 8 (d AND 0xFF00)), ucast (d AND 0x00FF)]
      else [ucast (drop_bit 24 (d AND 0xFF000000)), ucast (drop_bit 16 (d AND 0x00FF0000)),
            ucast (drop_bit 8 (d AND 0x0000FF00)), ucast (d AND 0x000000FF)])"

fun bytes_value :: "nat \<Rightarrow> u8 list \<Rightarrow> nat" where
  "bytes_value acc [] = acc"
| "bytes_value acc (b # bs) = bytes_value (256 * acc + unat b) bs"

lemma length_uint_bytes: "length (uint_bytes d) \<in> {1, 2, 4}"
  by (simp add: uint_bytes_def)

lemma coap_opt_uint_encode_eq:
  "p \<noteq> NULL \<Longrightarrow> coap_opt_uint_encode h p (Some len) d =
     (if unat len < length (uint_bytes d)
      then Inr (NRF_ERROR_DATA_SIZE OR IOT_COAP_ERR_BASE, h, Some len)
      else c_bind (store_bytes h p (uint_bytes d))
             (\<lambda>h'. Inr (NRF_SUCCESS, h', Some (of_nat (length (uint_bytes d))))))"
  by (simp add: coap_opt_uint_encode_def uint_bytes_def word_less_nat_alt)

text \<open>Reassembling the bytes of a word.\<close>

lemma bit_imp_exp_le: "bit (d :: u32) n \<Longrightarrow> 2 ^ n \<le> unat d"
proof -
  assume "bit d n"
  then have "bit (unat d) n"
    by (simp add: bit_unsigned_iff bit_imp_le_length)
  then have "unat d div 2 ^ n \<noteq> 0"
    by (metis bit_iff_odd even_zero)
  then show ?thesis by (simp add: div_eq_0_iff not_less)
qed

lemma bit_less_of_le:
  assumes "bit (d :: u32) n" "unat d < 2 ^ k"
  shows "n < k"
proof -
  have "(2 :: nat) ^ n < 2 ^ k" using bit_imp_exp_le [OF assms(1)] assms(2) by (rule le_less_trans)
  then show ?thesis by simp
qed

lemma word_le_mask:
  "d \<le> (0xFF :: u32) \<Longrightarrow> bit d n \<Longrightarrow> n < 8"
  "d \<le> (0xFFFF :: u32) \<Longrightarrow> bit d n \<Longrightarrow> n < 16"
  by (rule bit_less_of_le, assumption, simp add: word_le_nat_alt)+

lemma join_byte_1: "d \<le> 0xFF \<Longrightarrow> ucast (ucast (d :: u32) :: u8) = d"
  by (rule bit_word_eqI) (auto simp: bit_simps dest: word_le_mask)

lemma join_byte_2: "d \<le> 0xFFFF \<Longrightarrow>
  push_bit 8 (ucast (ucast (drop_bit 8 (d AND 0xFF00)) :: u8)) OR ucast (ucast (d AND 0x00FF) :: u8) = (d :: u32)"
  unfolding mask_u32
  by (rule bit_word_eqI) (auto simp: bit_simps dest: word_le_mask)

lemma join_byte_4:
  "push_bit 24 (ucast (ucast (drop_bit 24 (d AND 0xFF000000)) :: u8))
   OR push_bit 16 (ucast (ucast (drop_bit 16 (d AND 0x00FF0000)) :: u8))
   OR push_bit 8 (ucast (ucast (drop_bit 8 (d AND 0x0000FF00)) :: u8))
   OR ucast (ucast (d AND 0x000000FF) :: u8) = (d :: u32)"
proof (rule bit_word_eqI)
  fix n assume "n < LENGTH(32)"
  then consider "n < 8" | "8 \<le> n" "n < 16" | "16 \<le> n" "n < 24" | "24 \<le> n" "n < 32"
    by force
  then show "bit (push_bit 24 (ucast (ucast (drop_bit 24 (d AND 0xFF000000)) :: u8))
      OR push_bit 16 (ucast (ucast (drop_bit 16 (d AND 0x00FF0000)) :: u8))
      OR push_bit 8 (ucast (ucast (drop_bit 8 (d AND 0x0000FF00)) :: u8))
      OR ucast (ucast (d AND 0x000000FF) :: u8) :: u32) n = bit d n"
    unfolding mask_u32 by cases (auto simp: bit_simps)
qed

section \<open>Decoding what was encoded\<close>

lemma store_bytes_load:
  assumes "store_bytes h (Ptr b o') vs = Inr h'" "i < length vs"
  shows "load h' (Ptr b o') i = Inr (vs ! i)"
proof -
  have "vs \<noteq> []" using assms(2) by auto
  then have "o' + length vs \<le> length (h b)" "h' = h(b := take o' (h b) @ vs @ drop (o' + length vs) (h b))"
    using assms(1) by (auto simp: c_bind_eq_Inr arr_write_def split: if_splits)
  then show ?thesis using assms(2) by (simp add: nth_append)
qed

lemma uint_decode_bytes:
  assumes "\<And>i. i < length (uint_bytes d) \<Longrightarrow> load h (Ptr b o') i = Inr (uint_bytes d ! i)"
  shows "coap_opt_uint_decode h (Some x) (of_nat (length (uint_bytes d))) (Ptr b o')
         = Inr (NRF_SUCCESS, Some d)"
proof -
  consider "d \<le> 0xFF" | "\<not> d \<le> 0xFF" "d \<le> 0xFFFF" | "\<not> d \<le> 0xFF" "\<not> d \<le> 0xFFFF" by blast
  then show ?thesis
  proof cases
    case 1
    then show ?thesis using assms [of 0]
      by (simp add: coap_opt_uint_decode_def uint_bytes_def join_byte_1 del: load.simps)
  next
    case 2
    then show ?thesis using assms [of 0] assms [of 1] join_byte_2 [of d]
      by (simp add: coap_opt_uint_decode_def uint_bytes_def del: load.simps)
  next
    case 3
    then show ?thesis using assms [of 0] assms [of 1] assms [of 2] assms [of 3] join_byte_4 [of d]
      by (simp add: coap_opt_uint_decode_def uint_bytes_def del: load.simps)
  qed
qed

text \<open>A value that fits into the buffer is encoded, and decoding the bytes written, with the length
  returned, gives the value back; the store changes only in the bytes written.\<close>

theorem coap_opt_uint_roundtrip:
  assumes "o' + unat len \<le> length (h b)" and "length (uint_bytes d) \<le> unat len"
  shows "\<exists>h' n. coap_opt_uint_encode h (Ptr b o') (Some len) d = Inr (NRF_SUCCESS, h', Some n) \<and>
    unat n = length (uint_bytes d) \<and>
    coap_opt_uint_decode h' (Some x) n (Ptr b o') = Inr (NRF_SUCCESS, Some d) \<and>
    h' = h(b := take o' (h b) @ uint_bytes d @ drop (o' + unat n) (h b))"
proof -
  let ?bs = "uint_bytes d"
  let ?h' = "h(b := take o' (h b) @ ?bs @ drop (o' + length ?bs) (h b))"
  have n: "unat (of_nat (length ?bs) :: u16) = length ?bs"
    using length_uint_bytes [of d] by auto
  have st: "store_bytes h (Ptr b o') ?bs = Inr ?h'"
    using assms by (simp add: arr_write_eq)
  have "coap_opt_uint_encode h (Ptr b o') (Some len) d = Inr (NRF_SUCCESS, ?h', Some (of_nat (length ?bs)))"
    using assms(2) st by (simp add: coap_opt_uint_encode_eq del: store_bytes.simps)
  moreover have "coap_opt_uint_decode ?h' (Some x) (of_nat (length ?bs)) (Ptr b o') = Inr (NRF_SUCCESS, Some d)"
    by (rule uint_decode_bytes) (rule store_bytes_load [OF st])
  ultimately show ?thesis using n by auto
qed

theorem coap_opt_uint_roundtrip_witness:
  "\<exists>h' n. coap_opt_uint_encode ((\<lambda>_. [])(7 := replicate 4 0)) (Ptr 7 0) (Some 4) 5683 = Inr (NRF_SUCCESS, h', Some n) \<and>
     coap_opt_uint_decode h' (Some 0) n (Ptr 7 0) = Inr (NRF_SUCCESS, Some 5683)"
  using coap_opt_uint_roundtrip [of 0 4 "(\<lambda>_. [])(7 := replicate 4 0)" 7 5683 0]
  by (auto simp: uint_bytes_def)

text \<open>The encoder refuses a buffer that is too small for the value with DATA_SIZE and writes nothing.\<close>

theorem coap_opt_uint_encode_too_small:
  assumes "unat len < length (uint_bytes d)" and "p \<noteq> NULL"
  shows "coap_opt_uint_encode h p (Some len) d = Inr (NRF_ERROR_DATA_SIZE OR IOT_COAP_ERR_BASE, h, Some len)"
  using assms by (simp add: coap_opt_uint_encode_eq)

theorem coap_opt_uint_encode_too_small_witness:
  "coap_opt_uint_encode (\<lambda>_. []) (Ptr 7 0) (Some 1) 5683
   = Inr (NRF_ERROR_DATA_SIZE OR IOT_COAP_ERR_BASE, (\<lambda>_. []), Some 1)"
  by (rule coap_opt_uint_encode_too_small) (simp_all add: uint_bytes_def)

lemma or_bytes_add:
  fixes a b c d :: u8
  shows "push_bit 8 (ucast a) OR ucast b = (push_bit 8 (ucast a) + ucast b :: u32)"
    and "push_bit 16 (ucast a) OR push_bit 8 (ucast b) OR ucast c
         = (push_bit 16 (ucast a) + (push_bit 8 (ucast b) + ucast c) :: u32)"
    and "push_bit 24 (ucast a) OR push_bit 16 (ucast b) OR push_bit 8 (ucast c) OR ucast d
         = (push_bit 24 (ucast a) + (push_bit 16 (ucast b) + (push_bit 8 (ucast c) + ucast d)) :: u32)"
proof -
  have two: "push_bit 8 (ucast x) OR ucast y = (push_bit 8 (ucast x) + ucast y :: u32)" for x y :: u8
    by (rule disjunctive_add_eq_or [symmetric])
      (rule bit_word_eqI, auto simp: bit_simps dest: bit_imp_le_length)
  have three: "push_bit 16 (ucast x) OR push_bit 8 (ucast y) OR ucast z
      = (push_bit 16 (ucast x) + (push_bit 8 (ucast y) OR ucast z) :: u32)" for x y z :: u8
    by (rule disjunctive_add_eq_or [symmetric])
      (rule bit_word_eqI, auto simp: bit_simps dest: bit_imp_le_length)
  have four: "push_bit 24 (ucast a) OR push_bit 16 (ucast b) OR push_bit 8 (ucast c) OR ucast d
      = (push_bit 24 (ucast a) + (push_bit 16 (ucast b) OR push_bit 8 (ucast c) OR ucast d) :: u32)"
    by (rule disjunctive_add_eq_or [symmetric])
      (rule bit_word_eqI, auto simp: bit_simps dest: bit_imp_le_length)
  show "push_bit 8 (ucast a) OR ucast b = (push_bit 8 (ucast a) + ucast b :: u32)" by (rule two)
  show "push_bit 16 (ucast a) OR push_bit 8 (ucast b) OR ucast c
         = (push_bit 16 (ucast a) + (push_bit 8 (ucast b) + ucast c) :: u32)"
    by (subst three, subst two, rule refl)
  show "push_bit 24 (ucast a) OR push_bit 16 (ucast b) OR push_bit 8 (ucast c) OR ucast d
         = (push_bit 24 (ucast a) + (push_bit 16 (ucast b) + (push_bit 8 (ucast c) + ucast d)) :: u32)"
    by (subst four, subst three, subst two, rule refl)
qed

lemma ucast_u8_of_nat: "(ucast (b :: u8) :: u32) = of_nat (unat b)"
  by simp

lemma load_of_load_bytes:
  "load_bytes h (Ptr b o') n = Inr bs \<Longrightarrow> i < n \<Longrightarrow> load h (Ptr b o') i = Inr (bs ! i)"
  by (auto simp: arr_read_def split: if_splits)

text \<open>The decoder computes the big-endian number its bytes denote, for every length it supports, and
  rejects longer values.\<close>

theorem coap_opt_uint_decode_value:
  assumes "load_bytes h (Ptr b o') (unat len) = Inr bs"
  shows "coap_opt_uint_decode h (Some x) len (Ptr b o') =
    (if unat len \<le> 4 then Inr (NRF_SUCCESS, Some (of_nat (bytes_value 0 bs)))
     else Inr (NRF_ERROR_INVALID_LENGTH OR IOT_COAP_ERR_BASE, Some x))"
proof -
  have len_bs: "length bs = unat len" using assms by (rule load_bytes_Inr_length)
  have ld: "load h (Ptr b o') i = Inr (bs ! i)" if "i < unat len" for i
    using load_of_load_bytes [OF assms that] .
  have len_eq: "len = of_nat (length bs)" by (simp add: len_bs)
  consider "length bs = 0" | "length bs = 1" | "length bs = 2" | "length bs = 3" | "length bs = 4"
    | "4 < length bs" by linarith
  then show ?thesis
  proof cases
    case 1
    then show ?thesis by (simp add: coap_opt_uint_decode_def len_eq)
  next
    case 2
    then obtain b0 where bs: "bs = [b0]" by (auto simp: length_Suc_conv)
    show ?thesis using ld [of 0]
      by (simp add: coap_opt_uint_decode_def len_eq bs del: load.simps)
  next
    case 3
    then obtain b0 b1 where bs: "bs = [b0, b1]" by (auto simp: length_Suc_conv numeral_2_eq_2)
    show ?thesis using ld [of 0] ld [of 1]
      by (simp add: coap_opt_uint_decode_def len_eq bs or_bytes_add del: load.simps)
        (simp add: push_bit_eq_mult)
  next
    case 4
    then obtain b0 b1 b2 where bs: "bs = [b0, b1, b2]" by (auto simp: length_Suc_conv numeral_3_eq_3)
    show ?thesis using ld [of 0] ld [of 1] ld [of 2]
      by (simp add: coap_opt_uint_decode_def len_eq bs or_bytes_add(2) del: load.simps)
        (simp add: push_bit_eq_mult algebra_simps)
  next
    case 5
    then obtain b0 b1 b2 b3 where bs: "bs = [b0, b1, b2, b3]"
      by (auto simp: length_Suc_conv numeral_eq_Suc)
    show ?thesis using ld [of 0] ld [of 1] ld [of 2] ld [of 3]
      by (simp add: coap_opt_uint_decode_def len_eq bs or_bytes_add(3) del: load.simps)
        (simp add: push_bit_eq_mult algebra_simps)
  next
    case 6
    then have "unat len \<noteq> 0" "unat len \<noteq> 1" "unat len \<noteq> 2" "unat len \<noteq> 3" "unat len \<noteq> 4"
      using len_bs by auto
    then have "len \<noteq> 0" "len \<noteq> 1" "len \<noteq> 2" "len \<noteq> 3" "len \<noteq> 4" by auto
    then show ?thesis using 6 len_bs by (simp add: coap_opt_uint_decode_def)
  qed
qed

theorem coap_opt_uint_decode_value_witness:
  "coap_opt_uint_decode ((\<lambda>_. [])(7 := [1, 2, 3])) (Some 0) 3 (Ptr 7 0)
   = Inr (NRF_SUCCESS, Some (of_nat (bytes_value 0 [1, 2, 3])))"
  using coap_opt_uint_decode_value [of "(\<lambda>_. [])(7 := [1, 2, 3])" 7 0 3 "[1, 2, 3]" 0]
  by (simp add: arr_read_def)

end
