(* ===== verification/Coap_Message.thy ===== *)
theory Coap_Message
  imports Coap_Option
begin

text \<open>
  CoAP messages, \<^verbatim>\<open>components/iot/coap/coap_message.c\<close> with the structures of \<^verbatim>\<open>coap_api.h\<close> and
  \<^verbatim>\<open>coap_transport.h\<close>: creation, the wire codec and the functions that add options and payload.
  Function and data pointers of the application are opaque numbers (\<open>None\<close> is NULL).
\<close>

section \<open>Data\<close>

record coap_port_t =
  port_number :: u16

record coap_remote_t =
  remote_addr :: "u8 list"
  remote_port_number :: u16

definition COAP_TYPE_CON :: u8 where [c_consts]: "COAP_TYPE_CON = 0"
definition COAP_TYPE_NON :: u8 where [c_consts]: "COAP_TYPE_NON = 1"
definition COAP_TYPE_ACK :: u8 where [c_consts]: "COAP_TYPE_ACK = 2"
definition COAP_TYPE_RST :: u8 where [c_consts]: "COAP_TYPE_RST = 3"

definition COAP_PAYLOAD_MARKER :: u8 where [c_consts]: "COAP_PAYLOAD_MARKER = 0xFF"

definition COAP_OPT_OBSERVE :: u16 where [c_consts]: "COAP_OPT_OBSERVE = 6"
definition COAP_OPT_URI_PATH :: u16 where [c_consts]: "COAP_OPT_URI_PATH = 11"
definition COAP_OPT_CONTENT_FORMAT :: u16 where [c_consts]: "COAP_OPT_CONTENT_FORMAT = 12"
definition COAP_OPT_MAX_AGE :: u16 where [c_consts]: "COAP_OPT_MAX_AGE = 14"
definition COAP_OPT_ACCEPT :: u16 where [c_consts]: "COAP_OPT_ACCEPT = 17"

definition COAP_CT_PLAIN_TEXT :: u32 where [c_consts]: "COAP_CT_PLAIN_TEXT = 0"
definition COAP_CT_APP_LINK_FORMAT :: u32 where [c_consts]: "COAP_CT_APP_LINK_FORMAT = 40"
definition COAP_CT_APP_XML :: u32 where [c_consts]: "COAP_CT_APP_XML = 41"
definition COAP_CT_APP_OCTET_STREAM :: u32 where [c_consts]: "COAP_CT_APP_OCTET_STREAM = 42"
definition COAP_CT_APP_EXI :: u32 where [c_consts]: "COAP_CT_APP_EXI = 47"
definition COAP_CT_APP_JSON :: u32 where [c_consts]: "COAP_CT_APP_JSON = 50"

definition COAP_CT_MASK_PLAIN_TEXT :: u32 where [c_consts]: "COAP_CT_MASK_PLAIN_TEXT = 0x01"
definition COAP_CT_MASK_APP_LINK_FORMAT :: u32 where [c_consts]: "COAP_CT_MASK_APP_LINK_FORMAT = 0x04"
definition COAP_CT_MASK_APP_XML :: u32 where [c_consts]: "COAP_CT_MASK_APP_XML = 0x08"
definition COAP_CT_MASK_APP_OCTET_STREAM :: u32 where [c_consts]: "COAP_CT_MASK_APP_OCTET_STREAM = 0x10"
definition COAP_CT_MASK_APP_EXI :: u32 where [c_consts]: "COAP_CT_MASK_APP_EXI = 0x20"
definition COAP_CT_MASK_APP_JSON :: u32 where [c_consts]: "COAP_CT_MASK_APP_JSON = 0x40"

record coap_option_t =
  opt_number :: u16
  opt_length :: u16
  opt_data :: ptr

record coap_message_conf_t =
  conf_response_callback :: "nat option"
  conf_token :: "u8 list"
  conf_token_len :: u8
  conf_id :: u16
  conf_type :: u8
  conf_code :: u8
  conf_port :: coap_port_t

text \<open>The bit fields \<open>version:2\<close>, \<open>type:2\<close> and \<open>token_len:4\<close> hold values truncated to their width.\<close>

record coap_message_header_t =
  hdr_version :: u8
  hdr_type :: u8
  hdr_token_len :: u8
  hdr_code :: u8
  hdr_id :: u16

record coap_message_t =
  remote :: coap_remote_t
  header :: coap_message_header_t
  p_payload :: ptr
  payload_len :: u16
  options_count :: u8
  options :: "coap_option_t list"
  p_arg :: "nat option"
  response_callback :: "nat option"
  token :: "u8 list"
  port :: coap_port_t
  options_len :: u16
  options_offset :: u16
  options_delta :: u8
  p_data :: ptr
  data_len :: u16

text \<open>The message \<open>memset(p_message, 0, sizeof(coap_message_t))\<close> leaves behind.\<close>

definition coap_message_zero :: coap_message_t where
  "coap_message_zero =
     \<lparr>remote = \<lparr>remote_addr = replicate 16 0, remote_port_number = 0\<rparr>,
      header = \<lparr>hdr_version = 0, hdr_type = 0, hdr_token_len = 0, hdr_code = 0, hdr_id = 0\<rparr>,
      p_payload = NULL, payload_len = 0, options_count = 0,
      options = replicate COAP_MAX_NUMBER_OF_OPTIONS \<lparr>opt_number = 0, opt_length = 0, opt_data = NULL\<rparr>,
      p_arg = None, response_callback = None, token = replicate 8 0, port = \<lparr>port_number = 0\<rparr>,
      options_len = 0, options_offset = 0, options_delta = 0, p_data = NULL, data_len = 0\<rparr>"

definition coap_message_conf_zero :: coap_message_conf_t where
  "coap_message_conf_zero =
     \<lparr>conf_response_callback = None, conf_token = replicate 8 0, conf_token_len = 0, conf_id = 0,
      conf_type = 0, conf_code = 0, conf_port = \<lparr>port_number = 0\<rparr>\<rparr>"

section \<open>Creation\<close>

definition coap_message_create ::
  "coap_message_t option \<Rightarrow> coap_message_conf_t option \<Rightarrow> u32 \<times> coap_message_t option" where
  "coap_message_create p_message p_init_config =
     (case p_message of
        None \<Rightarrow> (NRF_ERROR_NULL OR IOT_COAP_ERR_BASE, None)
      | Some m \<Rightarrow>
        (case p_init_config of
           None \<Rightarrow> (NRF_ERROR_NULL OR IOT_COAP_ERR_BASE, Some m)
         | Some c \<Rightarrow>
           (let m1 = m\<lparr>header := \<lparr>hdr_version = take_bit 2 COAP_VERSION,
                                  hdr_type = take_bit 2 (conf_type c),
                                  hdr_token_len = take_bit 4 (conf_token_len c),
                                  hdr_code = conf_code c,
                                  hdr_id = conf_id c\<rparr>,
                        response_callback := conf_response_callback c,
                        p_arg := None\<rparr>
            in if port_number (conf_port c) = 0
               then (NRF_ERROR_INVALID_PARAM OR IOT_COAP_ERR_BASE, Some m1)
               else (NRF_SUCCESS, Some (m1\<lparr>port := conf_port c, token := conf_token c\<rparr>)))))"

section \<open>Decoding\<close>

text \<open>A store to a field of \<open>p_message->options[i]\<close>, an array of \<open>COAP_MAX_NUMBER_OF_OPTIONS\<close> elements.\<close>

definition option_upd :: "coap_message_t \<Rightarrow> nat \<Rightarrow> (coap_option_t \<Rightarrow> coap_option_t) \<Rightarrow> fault + coap_message_t" where
  "option_upd m i f =
     (if i < COAP_MAX_NUMBER_OF_OPTIONS
      then c_bind (arr_upd (options m) i f) (\<lambda>os. Inr (m\<lparr>options := os\<rparr>))
      else Inl OutOfBoundsWrite)"

text \<open>The result is the error code, the message and the cell behind \<open>byte_count\<close>.\<close>

definition decode_option :: "heap \<Rightarrow> ptr \<Rightarrow> coap_message_t \<Rightarrow> fault + u32 \<times> coap_message_t \<times> u16" where
  "decode_option h p_raw_option m =
     (let option_num = unat (options_count m)
      in c_bind (load h p_raw_option 0) (\<lambda>b0.
         let option_delta = ucast (drop_bit 4 (b0 AND 0xF0)) :: u16;
             option_length = ucast (b0 AND 0x0F) :: u16;
             acc = ucast (options_delta m) :: u16
         in c_bind
              (if option_delta = 13 then
                 c_bind (load h p_raw_option 1) (\<lambda>b1. Inr (acc + (13 + ucast b1), 2))
               else if option_delta = 14 then
                 c_bind (load h p_raw_option 1) (\<lambda>b1. c_bind (load h p_raw_option 2) (\<lambda>b2.
                   Inr (acc + 269 + push_bit 8 (ucast b1) + ucast b2, 3)))
               else Inr (acc + option_delta, 1)) (\<lambda>(acc_option_delta, byte_index).
            c_bind (option_upd m option_num (\<lambda>op. op\<lparr>opt_number := acc_option_delta\<rparr>)) (\<lambda>m1.
            c_bind
              (if option_length = 13 then
                 c_bind (load h p_raw_option byte_index) (\<lambda>b1. Inr (13 + ucast b1, byte_index + 1))
               else if option_length = 14 then
                 c_bind (load h p_raw_option byte_index) (\<lambda>b1.
                 c_bind (load h p_raw_option (byte_index + 1)) (\<lambda>b2.
                   Inr (269 + push_bit 8 (ucast b1) + ucast b2, byte_index + 2)))
               else Inr (option_length, byte_index)) (\<lambda>(option_length', byte_index').
            c_bind (option_upd m1 option_num (\<lambda>op. op\<lparr>opt_length := option_length'\<rparr>)) (\<lambda>m2.
            c_bind (option_upd m2 option_num (\<lambda>op. op\<lparr>opt_data := ptr_add p_raw_option byte_index'\<rparr>)) (\<lambda>m3.
            Inr (NRF_SUCCESS, m3\<lparr>options_delta := ucast acc_option_delta\<rparr>,
                 of_nat byte_index' + option_length'))))))))"

text \<open>The loop that copies the token.\<close>

function decode_token ::
  "heap \<Rightarrow> ptr \<Rightarrow> u16 \<Rightarrow> nat \<Rightarrow> u16 \<Rightarrow> nat \<Rightarrow> u8 list \<Rightarrow> fault + u16 \<times> u8 list" where
  "decode_token h raw message_len token_len byte_index index tok =
     (if byte_index < message_len \<and> index < token_len then
        c_bind (load h raw (unat byte_index)) (\<lambda>b.
        c_bind (arr_set tok index b) (\<lambda>tok'.
        decode_token h raw message_len token_len (byte_index + 1) (Suc index) tok'))
      else Inr (byte_index, tok))"
  by pat_completeness auto
termination
  by (relation "measure (\<lambda>(h, raw, message_len, token_len, byte_index, index, tok). token_len - index)") auto

declare decode_token.simps [simp del]

lemma option_upd_eq_Inr: "option_upd m i f = Inr m' \<longleftrightarrow>
  i < COAP_MAX_NUMBER_OF_OPTIONS \<and> i < length (options m) \<and>
  m' = m\<lparr>options := (options m)[i := f (options m ! i)]\<rparr>"
  by (auto simp: option_upd_def c_bind_eq_Inr arr_upd_eq_Inr)

lemma decode_option_count:
  assumes "decode_option h p m = Inr (e, m', n)"
  shows "e = NRF_SUCCESS" and "options_count m' = options_count m"
    and "unat (options_count m) < COAP_MAX_NUMBER_OF_OPTIONS"
  using assms by (auto simp: decode_option_def Let_def c_bind_eq_Inr option_upd_eq_Inr)

text \<open>
  The loop over the options. Every iteration fills one more element of the option array, and the
  ninth one faults; the loop cannot run longer, even where \<open>byte_index\<close> wraps around.
\<close>

function decode_options ::
  "heap \<Rightarrow> ptr \<Rightarrow> u16 \<Rightarrow> u16 \<Rightarrow> coap_message_t \<Rightarrow> fault + u32 \<times> u16 \<times> coap_message_t" where
  "decode_options h raw message_len byte_index m =
     (if byte_index < message_len then
        c_bind (load h raw (unat byte_index)) (\<lambda>b.
        if b \<noteq> COAP_PAYLOAD_MARKER then
          c_bind (decode_option h (ptr_add raw (unat byte_index)) m) (\<lambda>(err_code, m', byte_count).
          if err_code \<noteq> NRF_SUCCESS then Inr (err_code, byte_index, m')
          else decode_options h raw message_len (byte_index + byte_count)
                 (m'\<lparr>options_count := options_count m' + 1\<rparr>))
        else Inr (NRF_SUCCESS, byte_index, m))
      else Inr (NRF_SUCCESS, byte_index, m))"
  by pat_completeness auto
termination
proof (relation "measure (\<lambda>(h, raw, message_len, byte_index, m).
    COAP_MAX_NUMBER_OF_OPTIONS - unat (options_count m))", goal_cases)
  case (2 h raw message_len byte_index m b x e y m' n)
  then have "decode_option h (ptr_add raw (unat byte_index)) m = Inr (e, m', n)" by simp
  note c = decode_option_count [OF this]
  have "unat (options_count m + 1) = unat (options_count m) + 1"
    using unat_add_u8 [of "options_count m" 1] c(3) by (simp add: c_consts)
  then show ?case using c by simp
qed simp

declare decode_options.simps [simp del]

definition coap_message_decode ::
  "heap \<Rightarrow> coap_message_t option \<Rightarrow> ptr \<Rightarrow> u16 \<Rightarrow> coap_remote_t option \<Rightarrow> fault + u32 \<times> coap_message_t option" where
  "coap_message_decode h p_message p_raw_message message_len p_address =
     (case p_message of
        None \<Rightarrow> Inr (NRF_ERROR_NULL OR IOT_COAP_ERR_BASE, None)
      | Some m \<Rightarrow>
        if p_raw_message = NULL then Inr (NRF_ERROR_NULL OR IOT_COAP_ERR_BASE, Some m)
        else case p_address of
          None \<Rightarrow> Inr (NRF_ERROR_NULL OR IOT_COAP_ERR_BASE, Some m)
        | Some address \<Rightarrow>
          if message_len < 4 then Inr (NRF_ERROR_INVALID_LENGTH OR IOT_COAP_ERR_BASE, Some m)
          else
            c_bind (load h p_raw_message 0) (\<lambda>b0.
            c_bind (load h p_raw_message 1) (\<lambda>b1.
            c_bind (load h p_raw_message 2) (\<lambda>b2.
            c_bind (load h p_raw_message 3) (\<lambda>b3.
            let hdr = \<lparr>hdr_version = drop_bit 6 b0,
                       hdr_type = drop_bit 4 b0 AND 0x03,
                       hdr_token_len = b0 AND 0x0F,
                       hdr_code = b1,
                       hdr_id = u16_of_bytes b2 b3\<rparr>
            in
            c_bind (decode_token h p_raw_message message_len (unat (hdr_token_len hdr)) 4 0 (token m))
              (\<lambda>(byte_index, tok).
            c_bind (decode_options h p_raw_message message_len byte_index
                      (m\<lparr>remote := address, header := hdr, token := tok,
                         options_count := 0, options_delta := 0\<rparr>))
              (\<lambda>(err_code, byte_index, m1).
            if err_code \<noteq> NRF_SUCCESS then Inr (err_code, Some m1)
            else if byte_index < message_len then
              c_bind (load h p_raw_message (unat byte_index)) (\<lambda>b.
              if b = COAP_PAYLOAD_MARKER then
                Inr (NRF_SUCCESS, Some (m1\<lparr>payload_len := message_len - (byte_index + 1),
                                           p_payload := ptr_add p_raw_message (unat (byte_index + 1))\<rparr>))
              else Inr (COAP_MESSAGE_INVALID_CONTENT, Some m1))
            else Inr (NRF_SUCCESS, Some m1))))))))"

section \<open>Encoding\<close>

text \<open>
  The nibble and the extension bytes of an option delta or length, and the size of the extension:
  the two identical case distinctions of \<open>encode_option\<close>.
\<close>

definition opt_nibble :: "u16 \<Rightarrow> u16" where
  "opt_nibble x = (if x \<ge> 13 then if x \<ge> 269 then 14 else 13 else x)"

definition opt_ext :: "u16 \<Rightarrow> u16" where
  "opt_ext x = (if x \<ge> 13 then if x \<ge> 269 then x - 269 else x - 13 else 0)"

definition opt_ext_size :: "u16 \<Rightarrow> nat" where
  "opt_ext_size x = (if x \<ge> 13 then if x \<ge> 269 then 2 else 1 else 0)"

definition opt_ext_bytes :: "u16 \<Rightarrow> u8 list" where
  "opt_ext_bytes x =
     (if opt_ext_size x = 1 then [ucast (opt_ext x)]
      else if opt_ext_size x = 2 then [u16_hi (opt_ext x), u16_lo (opt_ext x)]
      else [])"

text \<open>With \<open>p_buffer = NULL\<close> only the size is computed. The result is the error code, the store and
  \<open>byte_count\<close>.\<close>

definition encode_option :: "heap \<Rightarrow> ptr \<Rightarrow> coap_option_t \<Rightarrow> fault + u32 \<times> heap \<times> u16" where
  "encode_option h p_buffer op =
     (let delta = ucast (opt_nibble (opt_number op)) :: u8;
          len = opt_nibble (opt_length op)
      in if p_buffer = NULL
         then Inr (NRF_SUCCESS, h, 1 + of_nat (opt_ext_size (opt_number op))
                                    + of_nat (opt_ext_size (opt_length op)) + opt_length op)
         else
           let hdr = (push_bit 4 (delta AND 0x0F) OR ucast (len AND 0x0F))
                     # opt_ext_bytes (opt_number op) @ opt_ext_bytes (opt_length op);
               byte_index = length hdr
           in c_bind (store_bytes h p_buffer hdr) (\<lambda>h1.
              c_bind (load_bytes h1 (opt_data op) (unat (opt_length op))) (\<lambda>vs.
              c_bind (store_bytes h1 (ptr_add p_buffer byte_index) vs) (\<lambda>h2.
              Inr (NRF_SUCCESS, h2, of_nat byte_index + opt_length op)))))"

fun encode_token :: "heap \<Rightarrow> ptr \<Rightarrow> u8 list \<Rightarrow> u16 \<Rightarrow> nat list \<Rightarrow> fault + heap \<times> u16" where
  "encode_token h p_buffer tok byte_index [] = Inr (h, byte_index)"
| "encode_token h p_buffer tok byte_index (i # is) =
     c_bind (arr_get tok i) (\<lambda>b.
     c_bind (store_bytes h (ptr_add p_buffer (unat byte_index)) [b]) (\<lambda>h1.
     encode_token h1 p_buffer tok (byte_index + 1) is))"

fun encode_options :: "heap \<Rightarrow> ptr \<Rightarrow> coap_option_t list \<Rightarrow> u16 \<Rightarrow> nat list \<Rightarrow> fault + heap \<times> u16" where
  "encode_options h p_buffer os byte_index [] = Inr (h, byte_index)"
| "encode_options h p_buffer os byte_index (i # is) =
     c_bind (arr_get os i) (\<lambda>op.
     c_bind (encode_option h (ptr_add p_buffer (unat byte_index)) op) (\<lambda>(err_code, h1, byte_count).
     encode_options h1 p_buffer os (if err_code = NRF_SUCCESS then byte_index + byte_count else byte_index) is))"

definition total_packet_size :: "coap_message_t \<Rightarrow> u16" where
  "total_packet_size m =
     4 + (if payload_len m > 0 then payload_len m + 1 else 0)
       + ucast (hdr_token_len (header m)) + options_len m"

definition encode_header_bytes :: "coap_message_header_t \<Rightarrow> u8 list" where
  "encode_header_bytes hdr =
     [(push_bit 6 (hdr_version hdr AND 0x3) OR push_bit 4 (hdr_type hdr AND 0x3)) OR (hdr_token_len hdr AND 0x0F),
      hdr_code hdr, u16_hi (hdr_id hdr), u16_lo (hdr_id hdr)]"

text \<open>The result is the error code, the store and the cell behind \<open>p_length\<close>.\<close>

definition coap_message_encode ::
  "heap \<Rightarrow> coap_message_t option \<Rightarrow> ptr \<Rightarrow> u16 option \<Rightarrow> fault + u32 \<times> heap \<times> u16 option" where
  "coap_message_encode h p_message p_buffer p_length =
     (case p_length of
        None \<Rightarrow> Inr (NRF_ERROR_NULL OR IOT_COAP_ERR_BASE, h, p_length)
      | Some len \<Rightarrow>
        (case p_message of
           None \<Rightarrow> Inr (NRF_ERROR_NULL OR IOT_COAP_ERR_BASE, h, p_length)
         | Some m \<Rightarrow>
           if hdr_token_len (header m) > 8 then Inr (NRF_ERROR_INVALID_DATA OR IOT_COAP_ERR_BASE, h, p_length)
           else if len = 0 then Inr (NRF_SUCCESS, h, Some (total_packet_size m))
           else if len < total_packet_size m then Inr (NRF_ERROR_DATA_SIZE OR IOT_COAP_ERR_BASE, h, p_length)
           else if payload_len m > 0 \<and> p_payload m = NULL \<or> p_buffer = NULL
           then Inr (COAP_MESSAGE_ERROR_NULL, h, p_length)
           else
             c_bind (store_bytes h p_buffer (encode_header_bytes (header m))) (\<lambda>h1.
             c_bind (encode_token h1 p_buffer (token m) 4 [0..<unat (hdr_token_len (header m))])
               (\<lambda>(h2, byte_index).
             c_bind (encode_options h2 p_buffer (options m) byte_index [0..<unat (options_count m)])
               (\<lambda>(h3, byte_index).
             c_bind
               (if payload_len m > 0 \<and> p_payload m \<noteq> NULL then
                  c_bind (store_bytes h3 (ptr_add p_buffer (unat byte_index)) [0xFF]) (\<lambda>h4.
                  c_bind (load_bytes h4 (p_payload m) (unat (payload_len m))) (\<lambda>vs.
                  store_bytes h4 (ptr_add p_buffer (unat (byte_index + 1))) vs))
                else Inr h3) (\<lambda>h5.
             Inr (NRF_SUCCESS, h5, Some (total_packet_size m))))))))"

section \<open>Adding options and payload\<close>

text \<open>
  The part the four \<open>coap_message_opt_*_add\<close> functions have in common: the option at the current
  index gets its number relative to the previous option, its length and, where \<open>p_opt\<close> is given,
  its data pointer; the encoded size is accumulated with a dry run of \<open>encode_option\<close>.
\<close>

definition opt_append ::
  "heap \<Rightarrow> coap_message_t \<Rightarrow> ptr option \<Rightarrow> u16 \<Rightarrow> u16 \<Rightarrow> fault + u32 \<times> heap \<times> coap_message_t" where
  "opt_append h m p_opt option_num encoded_len =
     (let i = unat (options_count m)
      in c_bind (option_upd m i (\<lambda>op.
                  (case p_opt of None \<Rightarrow> op | Some p \<Rightarrow> op\<lparr>opt_data := p\<rparr>)
                    \<lparr>opt_number := option_num - ucast (options_delta m), opt_length := encoded_len\<rparr>)) (\<lambda>m1.
         let m2 = m1\<lparr>options_delta := ucast option_num\<rparr>
         in c_bind (arr_get (options m2) i) (\<lambda>op.
            c_bind (encode_option h NULL op) (\<lambda>(err_code, h', option_byte_count).
            Inr (err_code, h', m2\<lparr>options_len := options_len m2 + option_byte_count,
                                  options_count := options_count m2 + 1,
                                  options_offset := options_offset m2 + encoded_len\<rparr>)))))"

definition coap_message_opt_empty_add ::
  "heap \<Rightarrow> coap_message_t \<Rightarrow> u16 \<Rightarrow> fault + u32 \<times> heap \<times> coap_message_t" where
  "coap_message_opt_empty_add h m option_num =
     (if unat (options_count m) \<ge> COAP_MAX_NUMBER_OF_OPTIONS
      then Inr (NRF_ERROR_NO_MEM OR IOT_COAP_ERR_BASE, h, m)
      else opt_append h m None option_num 0)"

definition coap_message_opt_uint_add ::
  "heap \<Rightarrow> coap_message_t \<Rightarrow> u16 \<Rightarrow> u32 \<Rightarrow> fault + u32 \<times> heap \<times> coap_message_t" where
  "coap_message_opt_uint_add h m option_num data =
     (if unat (options_count m) \<ge> COAP_MAX_NUMBER_OF_OPTIONS
      then Inr (NRF_ERROR_NO_MEM OR IOT_COAP_ERR_BASE, h, m)
      else
        let encoded_len = data_len m - options_offset m;
            p_next = ptr_add (p_data m) (unat (options_offset m))
        in if data = 0 then opt_append h m (Some p_next) option_num 0
           else c_bind (coap_opt_uint_encode h p_next (Some encoded_len) data) (\<lambda>(err_code, h1, len').
                if err_code \<noteq> NRF_SUCCESS then Inr (err_code, h1, m)
                else opt_append h1 m (Some p_next) option_num (the len')))"

definition coap_message_opt_str_add ::
  "heap \<Rightarrow> coap_message_t \<Rightarrow> u16 \<Rightarrow> ptr \<Rightarrow> u16 \<Rightarrow> fault + u32 \<times> heap \<times> coap_message_t" where
  "coap_message_opt_str_add h m option_num p_str len =
     (if unat (options_count m) \<ge> COAP_MAX_NUMBER_OF_OPTIONS
      then Inr (NRF_ERROR_NO_MEM OR IOT_COAP_ERR_BASE, h, m)
      else
        let p_next = ptr_add (p_data m) (unat (options_offset m))
        in c_bind (coap_opt_string_encode h p_next (Some len) p_str len) (\<lambda>(err_code, h1, len').
           if err_code \<noteq> NRF_SUCCESS then Inr (err_code, h1, m)
           else opt_append h1 m (Some p_next) option_num (the len')))"

text \<open>The room check subtracts in \<open>int\<close>, so a negative difference also refuses the option.\<close>

definition coap_message_opt_opaque_add ::
  "heap \<Rightarrow> coap_message_t \<Rightarrow> u16 \<Rightarrow> ptr \<Rightarrow> u16 \<Rightarrow> fault + u32 \<times> heap \<times> coap_message_t" where
  "coap_message_opt_opaque_add h m option_num p_src len =
     (if unat (options_count m) \<ge> COAP_MAX_NUMBER_OF_OPTIONS
      then Inr (NRF_ERROR_NO_MEM OR IOT_COAP_ERR_BASE, h, m)
      else if uint (data_len m) - uint (options_offset m) < uint len
      then Inr (NRF_ERROR_DATA_SIZE OR IOT_COAP_ERR_BASE, h, m)
      else
        let p_next = ptr_add (p_data m) (unat (options_offset m))
        in c_bind (load_bytes h p_src (unat len)) (\<lambda>vs.
           c_bind (store_bytes h p_next vs) (\<lambda>h1.
           opt_append h1 m (Some p_next) option_num len)))"

definition coap_message_payload_set ::
  "heap \<Rightarrow> coap_message_t \<Rightarrow> ptr \<Rightarrow> u16 \<Rightarrow> fault + u32 \<times> heap \<times> coap_message_t" where
  "coap_message_payload_set h m payload len =
     (let m1 = m\<lparr>p_payload := ptr_add (p_data m) (unat (options_offset m)), payload_len := len\<rparr>
      in c_bind (load_bytes h payload (unat len)) (\<lambda>vs.
         c_bind (store_bytes h (p_payload m1) vs) (\<lambda>h1.
         Inr (NRF_SUCCESS, h1, m1))))"

definition coap_message_remote_addr_set :: "coap_message_t \<Rightarrow> coap_remote_t \<Rightarrow> u32 \<times> coap_message_t" where
  "coap_message_remote_addr_set m p_address = (NRF_SUCCESS, m\<lparr>remote := p_address\<rparr>)"

section \<open>Options of a received message\<close>

fun opt_present_loop :: "coap_option_t list \<Rightarrow> u16 \<Rightarrow> nat list \<Rightarrow> fault + u32" where
  "opt_present_loop os opt [] = Inr (NRF_ERROR_NOT_FOUND OR IOT_COAP_ERR_BASE)"
| "opt_present_loop os opt (i # is) =
     c_bind (arr_get os i) (\<lambda>op. if opt_number op = opt then Inr NRF_SUCCESS else opt_present_loop os opt is)"

definition coap_message_opt_present :: "coap_message_t option \<Rightarrow> u16 \<Rightarrow> fault + u32" where
  "coap_message_opt_present p_message opt =
     (case p_message of
        None \<Rightarrow> Inr (NRF_ERROR_NULL OR IOT_COAP_ERR_BASE)
      | Some m \<Rightarrow> opt_present_loop (options m) opt [0..<unat (options_count m)])"

definition bit_to_content_format :: "u32 \<Rightarrow> u32 \<Rightarrow> u32 \<times> u32" where
  "bit_to_content_format ct b =
     (if b = COAP_CT_MASK_PLAIN_TEXT then (NRF_SUCCESS, COAP_CT_PLAIN_TEXT)
      else if b = COAP_CT_MASK_APP_LINK_FORMAT then (NRF_SUCCESS, COAP_CT_APP_LINK_FORMAT)
      else if b = COAP_CT_MASK_APP_XML then (NRF_SUCCESS, COAP_CT_APP_XML)
      else if b = COAP_CT_MASK_APP_OCTET_STREAM then (NRF_SUCCESS, COAP_CT_APP_OCTET_STREAM)
      else if b = COAP_CT_MASK_APP_EXI then (NRF_SUCCESS, COAP_CT_APP_EXI)
      else if b = COAP_CT_MASK_APP_JSON then (NRF_SUCCESS, COAP_CT_APP_JSON)
      else (NRF_ERROR_NOT_FOUND OR IOT_COAP_ERR_BASE, ct))"

definition content_format_to_bit :: "u32 \<Rightarrow> u32" where
  "content_format_to_bit ct =
     (if ct = COAP_CT_PLAIN_TEXT then COAP_CT_MASK_PLAIN_TEXT
      else if ct = COAP_CT_APP_LINK_FORMAT then COAP_CT_MASK_APP_LINK_FORMAT
      else if ct = COAP_CT_APP_XML then COAP_CT_MASK_APP_XML
      else if ct = COAP_CT_APP_OCTET_STREAM then COAP_CT_MASK_APP_OCTET_STREAM
      else if ct = COAP_CT_APP_EXI then COAP_CT_MASK_APP_EXI
      else if ct = COAP_CT_APP_JSON then COAP_CT_MASK_APP_JSON
      else 0)"

text \<open>
  The loop of \<open>coap_message_ct_mask_get\<close> and \<open>coap_message_accept_mask_get\<close>, which differ in the
  option number they look for. It stops at the first value that does not decode and leaves the
  mask accumulated so far.
\<close>

fun mask_get_loop :: "heap \<Rightarrow> coap_option_t list \<Rightarrow> u16 \<Rightarrow> u32 \<Rightarrow> nat list \<Rightarrow> fault + u32 \<times> u32" where
  "mask_get_loop h os opt acc [] = Inr (NRF_SUCCESS, acc)"
| "mask_get_loop h os opt acc (i # is) =
     c_bind (arr_get os i) (\<lambda>op.
     if opt_number op = opt then
       c_bind (coap_opt_uint_decode h (Some 0) (opt_length op) (opt_data op)) (\<lambda>(err_code, v).
       if err_code = NRF_SUCCESS
       then mask_get_loop h os opt (acc OR content_format_to_bit (the v)) is
       else Inr (err_code, acc))
     else mask_get_loop h os opt acc is)"

definition coap_message_ct_mask_get ::
  "heap \<Rightarrow> coap_message_t option \<Rightarrow> u32 option \<Rightarrow> fault + u32 \<times> u32 option" where
  "coap_message_ct_mask_get h p_message p_mask =
     (case p_message of
        None \<Rightarrow> Inr (NRF_ERROR_NULL OR IOT_COAP_ERR_BASE, p_mask)
      | Some m \<Rightarrow>
        if p_mask = None then Inr (NRF_ERROR_NULL OR IOT_COAP_ERR_BASE, p_mask)
        else c_bind (mask_get_loop h (options m) COAP_OPT_CONTENT_FORMAT 0 [0..<unat (options_count m)])
               (\<lambda>(err_code, mask). Inr (err_code, Some mask)))"

definition coap_message_accept_mask_get ::
  "heap \<Rightarrow> coap_message_t option \<Rightarrow> u32 option \<Rightarrow> fault + u32 \<times> u32 option" where
  "coap_message_accept_mask_get h p_message p_mask =
     (case p_message of
        None \<Rightarrow> Inr (NRF_ERROR_NULL OR IOT_COAP_ERR_BASE, p_mask)
      | Some m \<Rightarrow>
        if p_mask = None then Inr (NRF_ERROR_NULL OR IOT_COAP_ERR_BASE, p_mask)
        else c_bind (mask_get_loop h (options m) COAP_OPT_ACCEPT 0 [0..<unat (options_count m)])
               (\<lambda>(err_code, mask). Inr (err_code, Some mask)))"

text \<open>
  \<open>ct_support_mask\<close> is the field of the resource the function is called with. Where no bit is
  common the loop ends with \<open>bit_index = 32\<close>, and \<open>1 << 32\<close> is undefined in C. The shift
  \<open>1 << 31\<close> of a signed 1 gives the sign bit, as the compilers of the project define it.
\<close>

definition coap_message_ct_match_select ::
  "heap \<Rightarrow> u32 \<Rightarrow> coap_message_t option \<Rightarrow> u32 \<Rightarrow> fault + u32 \<times> u32" where
  "coap_message_ct_match_select h p_ct p_message ct_support_mask =
     c_bind (coap_message_accept_mask_get h p_message (Some 0)) (\<lambda>(_, mask).
     let accept_mask = (if the mask = 0 then COAP_CT_MASK_PLAIN_TEXT else the mask);
         common_ct = ct_support_mask AND accept_mask
     in case find_first (\<lambda>bit_index. drop_bit bit_index common_ct AND 0x1 = 1) [0..<32] of
          Some bit_index \<Rightarrow> Inr (bit_to_content_format p_ct (push_bit bit_index 1))
        | None \<Rightarrow> Inl ShiftTooLarge)"

end
