(* ===== verification/Udp6.thy ===== *)
theory Udp6
  imports Packet_Fields
begin

text \<open>
  UDP over IPv6, \<^verbatim>\<open>components/iot/ipv6_stack/udp/udp6.c\<close>: a table of sockets, the construction of a
  datagram with its UDP and IPv6 headers in front of the payload, and the distribution of received
  datagrams to the sockets. Ports are kept in network byte order in the table.
\<close>

section \<open>Constants\<close>

definition UDP6_MAX_SOCKET_COUNT :: nat where [c_consts]: "UDP6_MAX_SOCKET_COUNT = 3"
definition UDP_PORT_FREE :: u16 where [c_consts]: "UDP_PORT_FREE = 0"
definition UDP_PORT_IN_USE :: u32 where [c_consts]: "UDP_PORT_IN_USE = 0xC240"
definition UDP_BAD_CHECKSUM :: u32 where [c_consts]: "UDP_BAD_CHECKSUM = 0xC241"
definition UDP_MALFORMED_PACKET :: u32 where [c_consts]: "UDP_MALFORMED_PACKET = 0xC243"
definition UDP_INTERFACE_NOT_READY :: u32 where [c_consts]: "UDP_INTERFACE_NOT_READY = 0xC244"

abbreviation udp_err :: "u32 \<Rightarrow> u32" where "udp_err e \<equiv> e OR IOT_UDP6_ERR_BASE"

section \<open>Sockets\<close>

definition socket_init :: "socket_t \<Rightarrow> socket_t" where
  "socket_init k = k\<lparr>local_port := UDP_PORT_FREE, remote_port := UDP_PORT_FREE, rx_cb := None, skt_app_data := 0,
     local_addr := replicate 16 0, remote_addr := replicate 16 0\<rparr>"

definition socket_find :: "'w net \<Rightarrow> u16 \<Rightarrow> nat" where
  "socket_find s port =
     (case find_first (\<lambda>k. local_port k = port) (m_socket s) of Some i \<Rightarrow> i | None \<Rightarrow> UDP6_MAX_SOCKET_COUNT)"

definition udp_init :: "'w net \<Rightarrow> u32 \<times> 'w net" where
  "udp_init s = (NRF_SUCCESS, s\<lparr>m_socket := map socket_init (m_socket s), udp_initialized := True\<rparr>)"

definition skt_upd :: "'w net \<Rightarrow> u32 \<Rightarrow> (socket_t \<Rightarrow> socket_t) \<Rightarrow> 'w net" where
  "skt_upd s sid f = s\<lparr>m_socket := (m_socket s)[unat sid := f (m_socket s ! unat sid)]\<rparr>"

text \<open>\<open>p_socket\<close> is the cell behind the pointer; the result is the error code and its new content.\<close>

definition udp6_socket_allocate :: "'w net \<Rightarrow> udp6_socket_t option \<Rightarrow> u32 \<times> udp6_socket_t option" where
  "udp6_socket_allocate s p_socket =
     (if \<not> udp_initialized s then (udp_err SDK_ERR_MODULE_NOT_INITIALZED, p_socket)
      else case p_socket of
        None \<Rightarrow> (udp_err NRF_ERROR_NULL, p_socket)
      | Some sock \<Rightarrow>
        let i = socket_find s UDP_PORT_FREE
        in if i \<noteq> UDP6_MAX_SOCKET_COUNT then (NRF_SUCCESS, Some (sock\<lparr>socket_id := of_nat i\<rparr>))
           else (udp_err NRF_ERROR_NO_MEM, p_socket))"

definition udp6_socket_free :: "'w net \<Rightarrow> udp6_socket_t option \<Rightarrow> u32 \<times> 'w net" where
  "udp6_socket_free s p_socket =
     (if \<not> udp_initialized s then (udp_err SDK_ERR_MODULE_NOT_INITIALZED, s)
      else case p_socket of
        None \<Rightarrow> (udp_err NRF_ERROR_NULL, s)
      | Some sock \<Rightarrow>
        if unat (socket_id sock) \<ge> UDP6_MAX_SOCKET_COUNT then (udp_err NRF_ERROR_INVALID_ADDR, s)
        else (NRF_SUCCESS, skt_upd s (socket_id sock) socket_init))"

definition udp6_socket_recv :: "'w net \<Rightarrow> udp6_socket_t option \<Rightarrow> nat option \<Rightarrow> u32 \<times> 'w net" where
  "udp6_socket_recv s p_socket cb =
     (if \<not> udp_initialized s then (udp_err SDK_ERR_MODULE_NOT_INITIALZED, s)
      else case p_socket of
        None \<Rightarrow> (udp_err NRF_ERROR_NULL, s)
      | Some sock \<Rightarrow>
        if cb = None then (udp_err NRF_ERROR_NULL, s)
        else if unat (socket_id sock) \<ge> UDP6_MAX_SOCKET_COUNT then (udp_err NRF_ERROR_INVALID_ADDR, s)
        else if local_port (m_socket s ! unat (socket_id sock)) = 0 then (udp_err NRF_ERROR_INVALID_PARAM, s)
        else (NRF_SUCCESS, skt_upd s (socket_id sock) (\<lambda>k. k\<lparr>rx_cb := cb\<rparr>)))"

definition udp6_socket_bind :: "'w net \<Rightarrow> udp6_socket_t option \<Rightarrow> u8 list option \<Rightarrow> u16 \<Rightarrow> u32 \<times> 'w net" where
  "udp6_socket_bind s p_socket p_src_addr src_port =
     (if \<not> udp_initialized s then (udp_err SDK_ERR_MODULE_NOT_INITIALZED, s)
      else case p_socket of
        None \<Rightarrow> (udp_err NRF_ERROR_NULL, s)
      | Some sock \<Rightarrow>
        (case p_src_addr of
           None \<Rightarrow> (udp_err NRF_ERROR_NULL, s)
         | Some addr \<Rightarrow>
           if unat (socket_id sock) \<ge> UDP6_MAX_SOCKET_COUNT then (udp_err NRF_ERROR_INVALID_ADDR, s)
           else if src_port = 0 then (udp_err NRF_ERROR_INVALID_PARAM, s)
           else if list_ex (\<lambda>k. local_port k = HTONS src_port) (m_socket s) then (UDP_PORT_IN_USE, s)
           else (NRF_SUCCESS, skt_upd s (socket_id sock) (\<lambda>k. k\<lparr>local_port := HTONS src_port, local_addr := addr\<rparr>))))"

definition udp6_socket_connect :: "'w net \<Rightarrow> udp6_socket_t option \<Rightarrow> u8 list option \<Rightarrow> u16 \<Rightarrow> u32 \<times> 'w net" where
  "udp6_socket_connect s p_socket p_dest_addr dest_port =
     (if \<not> udp_initialized s then (udp_err SDK_ERR_MODULE_NOT_INITIALZED, s)
      else case p_socket of
        None \<Rightarrow> (udp_err NRF_ERROR_NULL, s)
      | Some sock \<Rightarrow>
        (case p_dest_addr of
           None \<Rightarrow> (udp_err NRF_ERROR_NULL, s)
         | Some addr \<Rightarrow>
           if unat (socket_id sock) \<ge> UDP6_MAX_SOCKET_COUNT then (udp_err NRF_ERROR_INVALID_ADDR, s)
           else if dest_port = 0 then (udp_err NRF_ERROR_INVALID_PARAM, s)
           else if local_port (m_socket s ! unat (socket_id sock)) = 0 then (udp_err NRF_ERROR_INVALID_PARAM, s)
           else (NRF_SUCCESS, skt_upd s (socket_id sock) (\<lambda>k. k\<lparr>remote_port := HTONS dest_port, remote_addr := addr\<rparr>))))"

definition udp6_socket_app_data_set :: "'w net \<Rightarrow> udp6_socket_t option \<Rightarrow> u32 \<times> 'w net" where
  "udp6_socket_app_data_set s p_socket =
     (if \<not> udp_initialized s then (udp_err SDK_ERR_MODULE_NOT_INITIALZED, s)
      else case p_socket of
        None \<Rightarrow> (udp_err NRF_ERROR_NULL, s)
      | Some sock \<Rightarrow>
        if unat (socket_id sock) \<ge> UDP6_MAX_SOCKET_COUNT then (udp_err NRF_ERROR_INVALID_ADDR, s)
        else (NRF_SUCCESS, skt_upd s (socket_id sock) (\<lambda>k. k\<lparr>skt_app_data := sock_app_data sock\<rparr>)))"

section \<open>Sending\<close>

text \<open>The fields of the UDP header, which lies 8 bytes in front of the payload: the ports, in network order, and the length.\<close>

definition udp_header_store :: "heap \<Rightarrow> ptr \<Rightarrow> u16 \<Rightarrow> u16 \<Rightarrow> u32 \<Rightarrow> fault + heap" where
  "udp_header_store h p_header srcport destport len =
     c_bind (store_u16 h p_header 0 srcport) (\<lambda>h.
     c_bind (store_u16 h p_header 2 destport) (\<lambda>h.
     c_bind (store_u16 h p_header 6 0) (\<lambda>h.
     store_u16 h p_header 4 (HTONS (ucast (len + UDP_HEADER_SIZE))))))"

text \<open>The fields of the IPv6 header behind the addresses.\<close>

definition ip_header_store :: "heap \<Rightarrow> ptr \<Rightarrow> u32 \<Rightarrow> fault + heap" where
  "ip_header_store h p_ip_header len =
     c_bind (store_u8 h p_ip_header 6 IPV6_NEXT_HEADER_UDP) (\<lambda>h.
     c_bind (store_u8 h p_ip_header 7 IPV6_DEFAULT_HOP_LIMIT) (\<lambda>h.
     c_bind (store_u8 h p_ip_header 0 0x60) (\<lambda>h.
     c_bind (store_u8 h p_ip_header 1 0x00) (\<lambda>h.
     c_bind (store_u16 h p_ip_header 2 0) (\<lambda>h.
     store_u16 h p_ip_header 4 (HTONS (ucast (len + UDP_HEADER_SIZE))))))))"

text \<open>The source address: the best match where the socket is bound to any address, the local address otherwise.\<close>

definition source_address_store ::
  "'w net \<Rightarrow> heap \<Rightarrow> ptr \<Rightarrow> socket_t \<Rightarrow> u8 list \<Rightarrow> fault + u32 \<times> nat option \<times> heap" where
  "source_address_store s h p_ip_header skt dest =
     (if local_addr skt = IPV6_ADDR_ANY then
        c_bind (load_addr h p_ip_header 8) (\<lambda>src0.
        c_bind (ipv6_address_find_best_match (n_ipv6 s) (Some None) (Some src0) (Some dest)) (\<lambda>(err_code, pi, pr).
        c_bind (store_bytes h (ptr_add p_ip_header 8) (the pr)) (\<lambda>h. Inr (err_code, the pi, h))))
      else
        c_bind (ipv6_address_find_best_match (n_ipv6 s) (Some None) None (Some dest)) (\<lambda>(err_code, pi, pr).
        c_bind (store_bytes h (ptr_add p_ip_header 8) (local_addr skt)) (\<lambda>h. Inr (err_code, the pi, h))))"

text \<open>The three sums over the addresses and the UDP packet, and the complement in the header.\<close>

definition udp_checksum_store :: "heap \<Rightarrow> ptr \<Rightarrow> ptr \<Rightarrow> u32 \<Rightarrow> fault + heap" where
  "udp_checksum_store h p_ip_header p_header len =
     (let checksum = ucast (len + UDP_HEADER_SIZE + ucast IPV6_NEXT_HEADER_UDP) :: u16
      in c_bind (ipv6_checksum_calculate h (ptr_add p_ip_header 8) 16 checksum False) (\<lambda>checksum.
         c_bind (ipv6_checksum_calculate h (ptr_add p_ip_header 24) 16 checksum False) (\<lambda>checksum.
         c_bind (ipv6_checksum_calculate h p_header (ucast (len + UDP_HEADER_SIZE)) checksum True) (\<lambda>checksum.
         store_u16 h p_header 6 (HTONS (NOT checksum))))))"

text \<open>
  What \<open>udp6_socket_send\<close> and \<open>udp6_socket_sendto\<close> share after their checks: the remote port, in network
  order, and the remote address are those of the connection or of the call.
\<close>

definition udp6_transmit ::
  "'w net_env \<Rightarrow> 'w net \<Rightarrow> socket_t \<Rightarrow> u8 list \<Rightarrow> u16 \<Rightarrow> u32 \<Rightarrow> fault + u32 \<times> 'w net" where
  "udp6_transmit E s skt dest destport packet =
     c_bind (pb_get s packet) (\<lambda>b.
     let header_size = UDP_HEADER_SIZE + IPV6_IP_HEADER_SIZE
     in c_bind (ptr_sub (pb_payload b) (unat UDP_HEADER_SIZE)) (\<lambda>p_header.
        c_bind (ptr_sub (pb_payload b) (unat header_size)) (\<lambda>p_ip_header.
        c_bind (udp_header_store (net_heap s) p_header (local_port skt) destport (pb_length b)) (\<lambda>h1.
        c_bind (store_bytes h1 (ptr_add p_ip_header 24) dest) (\<lambda>h2.
        c_bind (source_address_store s h2 p_ip_header skt dest) (\<lambda>(err_code, p_interface, h3).
        if err_code = NRF_SUCCESS then
          c_bind (ip_header_store h3 p_ip_header (pb_length b)) (\<lambda>h4.
          c_bind (udp_checksum_store h4 p_ip_header p_header (pb_length b)) (\<lambda>h5.
          ipv6_send E (pb_set (set_heap s h5) packet
            (\<lambda>b. b\<lparr>pb_payload := p_ip_header, pb_length := pb_length b + header_size\<rparr>)) p_interface (Some packet)))
        else Inr (UDP_INTERFACE_NOT_READY, set_heap s h3)))))))"

definition udp6_socket_send :: "'w net_env \<Rightarrow> 'w net \<Rightarrow> udp6_socket_t option \<Rightarrow> u32 option \<Rightarrow> fault + u32 \<times> 'w net" where
  "udp6_socket_send E s p_socket p_packet =
     (if \<not> udp_initialized s then Inr (udp_err SDK_ERR_MODULE_NOT_INITIALZED, s)
      else case p_socket of
        None \<Rightarrow> Inr (udp_err NRF_ERROR_NULL, s)
      | Some sock \<Rightarrow>
        (case p_packet of
           None \<Rightarrow> Inr (udp_err NRF_ERROR_NULL, s)
         | Some packet \<Rightarrow>
           c_bind (pb_get s packet) (\<lambda>b.
           if pb_payload b = NULL then Inr (udp_err NRF_ERROR_NULL, s)
           else if pb_length b = 0 then Inr (udp_err NRF_ERROR_INVALID_LENGTH, s)
           else if unat (socket_id sock) \<ge> UDP6_MAX_SOCKET_COUNT then Inr (udp_err NRF_ERROR_INVALID_ADDR, s)
           else
           let skt = m_socket s ! unat (socket_id sock)
           in if local_port skt = 0 then Inr (udp_err NRF_ERROR_INVALID_PARAM, s)
              else if remote_port skt = 0 then Inr (udp_err NRF_ERROR_INVALID_PARAM, s)
              else udp6_transmit E s skt (remote_addr skt) (remote_port skt) packet)))"

definition udp6_socket_sendto ::
  "'w net_env \<Rightarrow> 'w net \<Rightarrow> udp6_socket_t option \<Rightarrow> u8 list option \<Rightarrow> u16 \<Rightarrow> u32 option \<Rightarrow> fault + u32 \<times> 'w net" where
  "udp6_socket_sendto E s p_socket p_dest_addr dest_port p_packet =
     (if \<not> udp_initialized s then Inr (udp_err SDK_ERR_MODULE_NOT_INITIALZED, s)
      else case p_socket of
        None \<Rightarrow> Inr (udp_err NRF_ERROR_NULL, s)
      | Some sock \<Rightarrow>
        (case p_dest_addr of
           None \<Rightarrow> Inr (udp_err NRF_ERROR_NULL, s)
         | Some dest \<Rightarrow>
           (case p_packet of
              None \<Rightarrow> Inr (udp_err NRF_ERROR_NULL, s)
            | Some packet \<Rightarrow>
              c_bind (pb_get s packet) (\<lambda>b.
              if pb_payload b = NULL then Inr (udp_err NRF_ERROR_NULL, s)
              else if pb_length b = 0 then Inr (udp_err NRF_ERROR_INVALID_LENGTH, s)
              else if unat (socket_id sock) \<ge> UDP6_MAX_SOCKET_COUNT then Inr (udp_err NRF_ERROR_INVALID_ADDR, s)
              else if dest_port = 0 then Inr (udp_err NRF_ERROR_INVALID_PARAM, s)
              else udp6_transmit E s (m_socket s ! unat (socket_id sock)) dest (HTONS dest_port) packet))))"

section \<open>Receiving\<close>

text \<open>Whether a datagram is for a socket: its port, its addresses, and those of the peer it is connected to.\<close>

definition socket_accepts :: "socket_t \<Rightarrow> u16 \<Rightarrow> u16 \<Rightarrow> u8 list \<Rightarrow> u8 list \<Rightarrow> bool" where
  "socket_accepts k destport srcport src dest \<longleftrightarrow>
     local_port k = destport \<and> (local_addr k = IPV6_ADDR_ANY \<or> local_addr k = dest) \<and>
     (remote_port k = 0 \<or> remote_port k = srcport) \<and> (remote_addr k = IPV6_ADDR_ANY \<or> remote_addr k = src)"

definition udp_process_result :: "heap \<Rightarrow> ptr \<Rightarrow> ptr \<Rightarrow> u32 \<Rightarrow> fault + u32" where
  "udp_process_result h p_ip_header payload len =
     (let checksum = ucast (len + ucast IPV6_NEXT_HEADER_UDP) :: u16
      in c_bind (load_u16 h payload 4) (\<lambda>hlen.
         let udp_hdr_length = ucast (NTOHS hlen) :: u32
         in if udp_hdr_length > len then Inr UDP_TRUNCATED_PACKET
            else if udp_hdr_length < len then Inr UDP_MALFORMED_PACKET
            else c_bind (ipv6_checksum_calculate h (ptr_add p_ip_header 8) 16 checksum False) (\<lambda>checksum.
                 c_bind (ipv6_checksum_calculate h (ptr_add p_ip_header 24) 16 checksum False) (\<lambda>checksum.
                 c_bind (ipv6_checksum_calculate h payload (ucast len) checksum False) (\<lambda>checksum.
                 Inr (if checksum \<noteq> 0 \<and> checksum \<noteq> 0xFFFF then UDP_BAD_CHECKSUM else NRF_SUCCESS))))))"

text \<open>The fields of the UDP header, turned to the byte order of the host for the application.\<close>

definition swap_u16 :: "heap \<Rightarrow> ptr \<Rightarrow> nat \<Rightarrow> fault + heap" where
  "swap_u16 h p off = c_bind (load_u16 h p off) (\<lambda>v. store_u16 h p off (NTOHS v))"

definition udp_header_swap :: "heap \<Rightarrow> ptr \<Rightarrow> fault + heap" where
  "udp_header_swap h p =
     c_bind (swap_u16 h p 2) (\<lambda>h. c_bind (swap_u16 h p 0) (\<lambda>h. c_bind (swap_u16 h p 4) (\<lambda>h. swap_u16 h p 6)))"

definition udp_input ::
  "'w net_env \<Rightarrow> 'w net \<Rightarrow> nat option \<Rightarrow> ptr \<Rightarrow> u32 option \<Rightarrow> fault + u32 \<times> 'w net" where
  "udp_input E s p_interface p_ip_header p_packet =
     (if p_interface = None \<or> p_ip_header = NULL then Inr (udp_err NRF_ERROR_NULL, s)
      else case p_packet of
        None \<Rightarrow> Inr (udp_err NRF_ERROR_NULL, s)
      | Some packet \<Rightarrow>
        c_bind (pb_get s packet) (\<lambda>b.
        c_bind (load_u16 (net_heap s) p_ip_header 4) (\<lambda>ip_len.
        if pb_length b > UDP_HEADER_SIZE \<and> ucast ip_len > UDP_HEADER_SIZE then
          let h = net_heap s; p_udp_header = pb_payload b
          in c_bind (load_u16 h p_udp_header 2) (\<lambda>destport.
             c_bind (load_u16 h p_udp_header 0) (\<lambda>srcport.
             c_bind (load_addr h p_ip_header 8) (\<lambda>src.
             c_bind (load_addr h p_ip_header 24) (\<lambda>dest.
             case find_first (\<lambda>k. socket_accepts k destport srcport src dest) (m_socket s) of
               None \<Rightarrow> Inr (udp_err NRF_ERROR_NOT_FOUND, s)
             | Some index \<Rightarrow>
               c_bind (udp_process_result h p_ip_header p_udp_header (pb_length b)) (\<lambda>process_result.
               let s1 = pb_set s packet (\<lambda>b. b\<lparr>pb_payload := ptr_add (pb_payload b) (unat UDP_HEADER_SIZE),
                                             pb_length := pb_length b - UDP_HEADER_SIZE\<rparr>);
                   sock = \<lparr>socket_id = of_nat index, sock_app_data = skt_app_data (m_socket s ! index)\<rparr>
               in case rx_cb (m_socket s ! index) of
                    None \<Rightarrow> Inr (NRF_SUCCESS, s1)
                  | Some cb \<Rightarrow>
                    c_bind (udp_header_swap h p_udp_header) (\<lambda>h1.
                    c_bind (env_rx E cb sock p_ip_header p_udp_header process_result packet (set_heap s1 h1)) (\<lambda>(_, s2).
                    Inr (NRF_SUCCESS, s2))))))))
        else Inr (udp_err NRF_ERROR_INVALID_LENGTH, s))))"

section \<open>A datagram in memory\<close>

text \<open>
  The 48 bytes in front of the payload as fields: version and traffic class, flow label, length, next
  header, hop limit, source, destination; source port, destination port, length, checksum.
\<close>

definition udp_widths :: "nat list" where
  "udp_widths = [1, 1, 2, 2, 1, 1, 16, 16, 2, 2, 2, 2]"

abbreviation layout :: "u8 list list \<Rightarrow> bool" where
  "layout \<equiv> has_widths udp_widths"

abbreviation field_pos :: "nat \<Rightarrow> nat" where
  "field_pos \<equiv> pos udp_widths"

lemma field_pos_simps [simp]:
  "field_pos 0 = 0" "field_pos 1 = 1" "field_pos (Suc 0) = 1" "field_pos 2 = 2" "field_pos 3 = 4" "field_pos 4 = 6"
  "field_pos 5 = 7" "field_pos 6 = 8" "field_pos 7 = 24" "field_pos 8 = 40" "field_pos 9 = 42" "field_pos 10 = 44"
  "field_pos 11 = 46"
  by (simp_all add: pos_def udp_widths_def)

lemma udp_widths_simps [simp]:
  "length udp_widths = 12" "sum_list udp_widths = 48"
  "udp_widths ! 0 = 1" "udp_widths ! 1 = 1" "udp_widths ! Suc 0 = 1" "udp_widths ! 2 = 2" "udp_widths ! 3 = 2"
  "udp_widths ! 4 = 1" "udp_widths ! 5 = 1" "udp_widths ! 6 = 16" "udp_widths ! 7 = 16" "udp_widths ! 8 = 2"
  "udp_widths ! 9 = 2" "udp_widths ! 10 = 2" "udp_widths ! 11 = 2"
  by (simp_all add: udp_widths_def)

lemmas udp_store = hput_store [where ws = udp_widths]
lemmas udp_load = hput_load [where ws = udp_widths]
lemmas udp_load_u16 = load_u16_field [where ws = udp_widths]

lemmas hput_store_field =
  udp_store [where j = 0] udp_store [where j = 1] udp_store [where j = 2] udp_store [where j = 3]
  udp_store [where j = 4] udp_store [where j = 5] udp_store [where j = 6] udp_store [where j = 7]
  udp_store [where j = 8] udp_store [where j = 9] udp_store [where j = 10] udp_store [where j = 11]

lemmas hput_load_field =
  udp_load [where j = 0] udp_load [where j = 1] udp_load [where j = 2] udp_load [where j = 3]
  udp_load [where j = 4] udp_load [where j = 5] udp_load [where j = 6] udp_load [where j = 7]
  udp_load [where j = 8] udp_load [where j = 9] udp_load [where j = 10] udp_load [where j = 11]

lemma udp_header_store_fields:
  assumes "layout cs"
  shows "udp_header_store (hput h blk pre cs post) (Ptr blk (length pre + 40)) sport dport len =
    Inr (hput h blk pre (cs[8 := le16 sport, 9 := le16 dport, 11 := [0, 0], 10 := net16 (ucast (len + 8))]) post)"
  using assms by (simp add: udp_header_store_def store_u16_le16 hput_store_field UDP_HEADER_SIZE_def)

lemma ip_header_store_fields:
  assumes "layout cs"
  shows "ip_header_store (hput h blk pre cs post) (Ptr blk (length pre)) len =
    Inr (hput h blk pre (cs[4 := [17], 5 := [64], 0 := [0x60], 1 := [0], 2 := [0, 0], 3 := net16 (ucast (len + 8))]) post)"
  using assms by (simp add: ip_header_store_def store_u16_le16 store_u8_def hput_store_field c_consts)

lemma udp_checksum_store_fields:
  assumes "layout cs" "unat len \<le> length post" "unat len + 25 \<le> 65535"
  shows "\<exists>r. udp_checksum_store (hput h blk pre cs post) (Ptr blk (length pre)) (Ptr blk (length pre + 40)) len =
      Inr (hput h blk pre (cs[11 := net16 (NOT r)]) post) \<and>
    unat r = (let v = oc_norm (unat len + 25 + byte_total (cs ! 6) + byte_total (cs ! 7) +
                byte_total (concat (drop 8 cs)) + byte_total (take (unat len) post))
              in if v = 65535 then 0 else v)"
proof -
  let ?H = "hput h blk pre cs post"
  define c0 :: u16 where "c0 = ucast (len + UDP_HEADER_SIZE + ucast IPV6_NEXT_HEADER_UDP)"
  define n16 :: u16 where "n16 = ucast (len + UDP_HEADER_SIZE)"
  have a8: "unat (len + 8) = unat len + 8" using assms(3) by (simp add: unat_add_u32)
  moreover have "unat (len + 8 + 17) = unat len + 25" using a8 assms(3) by (simp add: unat_add_u32)
  ultimately have c0: "unat c0 = unat len + 25" and n16: "unat n16 = unat len + 8"
    using assms(3) by (simp_all add: c0_def n16_def c_consts unsigned_ucast_eq take_bit_nat_def)
  have "load_bytes ?H (Ptr blk (length pre + 8)) (unat (16 :: u16)) = Inr (cs ! 6)"
    using assms(1) by (simp add: hput_load_field)
  from checksum_calculate_total [OF this, of c0 False] obtain r1 where
    r1: "ipv6_checksum_calculate ?H (Ptr blk (length pre + 8)) 16 c0 False = Inr r1" "unat r1 = oc_norm (unat c0 + byte_total (cs ! 6))"
    by auto
  have "load_bytes ?H (Ptr blk (length pre + 24)) (unat (16 :: u16)) = Inr (cs ! 7)"
    using assms(1) by (simp add: hput_load_field)
  from checksum_calculate_total [OF this, of r1 False] obtain r2 where
    r2: "ipv6_checksum_calculate ?H (Ptr blk (length pre + 24)) 16 r1 False = Inr r2" "unat r2 = oc_norm (unat r1 + byte_total (cs ! 7))"
    by auto
  have l8: "length (concat (drop 8 cs)) = 8" using widths_drop [OF assms(1), of 8] by simp
  have "load_bytes ?H (Ptr blk (length pre + 40)) (unat n16) = Inr (concat (drop 8 cs) @ take (unat len) post)"
    by (rule hput_tail_load [OF assms(1) _ assms(2)]) (simp_all add: n16 l8)
  from checksum_calculate_total [OF this, of r2 True] obtain r where
    r: "ipv6_checksum_calculate ?H (Ptr blk (length pre + 40)) n16 r2 True = Inr r"
      "unat r = (let v = oc_norm (unat r2 + byte_total (concat (drop 8 cs) @ take (unat len) post)) in if v = 65535 then 0 else v)"
    by auto
  have "oc_norm (unat r2 + t) = oc_norm (unat len + 25 + byte_total (cs ! 6) + byte_total (cs ! 7) + t)" for t
    unfolding r2(2) r1(2) c0 oc_norm_idem using oc_norm_idem [of _ "byte_total (cs ! 7) + t"] by (simp add: add.assoc)
  then have "unat r = (let v = oc_norm (unat len + 25 + byte_total (cs ! 6) + byte_total (cs ! 7) +
                byte_total (concat (drop 8 cs)) + byte_total (take (unat len) post))
              in if v = 65535 then 0 else v)"
    using r(2) l8 by (simp add: byte_total_append add.assoc)
  moreover have "udp_checksum_store ?H (Ptr blk (length pre)) (Ptr blk (length pre + 40)) len =
      Inr (hput h blk pre (cs[11 := net16 (NOT r)]) post)"
    using assms(1) r1(1) r2(1) r(1)
    by (simp add: udp_checksum_store_def c0_def [symmetric] n16_def [symmetric] store_u16_le16 hput_store_field)
  ultimately show ?thesis by blast
qed

text \<open>The datagram of RFC 768 and RFC 2460: the checksum with the pseudo header, and the bytes.\<close>

definition udp_checksum :: "u8 list \<Rightarrow> u8 list \<Rightarrow> u16 \<Rightarrow> u16 \<Rightarrow> u8 list \<Rightarrow> u16" where
  "udp_checksum src dst sport dport payload =
     (let n = length payload + 8;
          v = oc_sum 0 (be_words (pseudo_header 17 src dst n @ net16 sport @ net16 dport @ net16 (of_nat n) @ [0, 0] @ payload))
      in if v = 65535 then 0xFFFF else of_nat (65535 - v))"

definition udp_fields :: "u8 list \<Rightarrow> u8 list \<Rightarrow> u16 \<Rightarrow> u16 \<Rightarrow> nat \<Rightarrow> u16 \<Rightarrow> u8 list list" where
  "udp_fields src dst sport dport n c =
     [[0x60], [0], [0, 0], net16 (of_nat n), [17], [64], src, dst, net16 sport, net16 dport, net16 (of_nat n), net16 c]"

definition udp_datagram :: "u8 list \<Rightarrow> u8 list \<Rightarrow> u16 \<Rightarrow> u16 \<Rightarrow> u8 list \<Rightarrow> u8 list" where
  "udp_datagram src dst sport dport payload =
     concat (udp_fields src dst sport dport (length payload + 8) (udp_checksum src dst sport dport payload)) @ payload"

definition udp_total :: "u8 list \<Rightarrow> u8 list \<Rightarrow> u16 \<Rightarrow> u16 \<Rightarrow> u8 list \<Rightarrow> nat" where
  "udp_total src dst sport dport payload =
     2 * length payload + 33 + byte_total src + byte_total dst + unat sport + unat dport + byte_total payload"

lemma udp_checksum_total:
  assumes "length src = 16" "length dst = 16" "length payload + 8 < 65536"
  shows "unat (udp_checksum src dst sport dport payload) =
    (let v = oc_norm (udp_total src dst sport dport payload) in if v = 65535 then 65535 else 65535 - v)"
proof -
  define n where "n = length payload + 8"
  have n: "unat (of_nat n :: u16) = n" by (rule unat_of_nat_u16) (use assms(3) in \<open>simp add: n_def\<close>)
  have u: "byte_total (0 # 0 # xs) = byte_total xs" for xs using byte_total_append [of "[0, 0]" xs] by simp
  have "byte_total [0, 17] = 17" by (simp add: byte_total_def)
  then have "byte_total (pseudo_header 17 src dst n @ net16 sport @ net16 dport @ net16 (of_nat n) @ [0, 0] @ payload) =
      udp_total src dst sport dport payload"
    using assms(1,2) n byte_total_append [of "[0, 17]"] by (simp add: pseudo_header_def byte_total_append u udp_total_def n_def)
  moreover have "unat (of_nat (65535 - v) :: u16) = 65535 - v" for v by (rule unat_of_nat_u16) simp
  ultimately show ?thesis
    by (simp add: udp_checksum_def n_def [symmetric] Let_def oc_sum_bytes del: of_nat_diff)
qed

text \<open>The source address and the interface a socket sends with.\<close>

definition sends_from :: "ipv6_state \<Rightarrow> socket_t \<Rightarrow> u8 list \<Rightarrow> nat \<Rightarrow> u8 list \<Rightarrow> bool" where
  "sends_from ip skt dest iface src \<longleftrightarrow>
     (if local_addr skt = IPV6_ADDR_ANY
      then \<forall>r0. ipv6_address_find_best_match ip (Some None) (Some r0) (Some dest) = Inr (NRF_SUCCESS, Some (Some iface), Some src)
      else ipv6_address_find_best_match ip (Some None) None (Some dest) = Inr (NRF_SUCCESS, Some (Some iface), None) \<and>
           src = local_addr skt) \<and> length src = 16"

lemma source_address_store_fields:
  assumes "layout cs" "sends_from (n_ipv6 s) skt dest iface src"
  shows "source_address_store s (hput h blk pre cs post) (Ptr blk (length pre)) skt dest =
    Inr (NRF_SUCCESS, Some iface, hput h blk pre (cs[6 := src]) post)"
  using assms by (auto simp: source_address_store_def sends_from_def load_addr_def hput_load_field hput_store_field split: if_splits)

text \<open>A packet buffer with a payload and room for the headers in front of it.\<close>

definition packet_at :: "'w net \<Rightarrow> nat \<Rightarrow> nat \<Rightarrow> u8 list \<Rightarrow> u8 list \<Rightarrow> u8 list \<Rightarrow> bool" where
  "packet_at s i blk pre payload post \<longleftrightarrow> i < IOT_PBUFFER_MAX_COUNT \<and> length (m_pbuffer (n_pbuf s)) = IOT_PBUFFER_MAX_COUNT \<and>
     pb_initialized (n_pbuf s) \<and> (\<exists>old. length old = 48 \<and> net_heap s blk = pre @ old @ payload @ post) \<and>
     pb_payload (m_pbuffer (n_pbuf s) ! i) = Ptr blk (length pre + 48) \<and>
     unat (pb_length (m_pbuffer (n_pbuf s) ! i)) = length payload \<and> length payload + 48 < 65536"

lemma udp_fields_of_updates:
  assumes "layout cs" "length src = 16" "length dst = 16"
  shows "cs[8 := a, 9 := b, 11 := [0, 0], 10 := l, 7 := dst, 6 := src, 4 := [17], 5 := [64], 0 := [0x60], 1 := [0], 2 := [0, 0], 3 := l]
    = [[0x60], [0], [0, 0], l, [17], [64], src, dst, a, b, l, [0, 0]]"
proof -
  have "length cs = 12" using widths_length [OF assms(1)] by simp
  then obtain c0 c1 c2 c3 c4 c5 c6 c7 c8 c9 ca cb where "cs = [c0, c1, c2, c3, c4, c5, c6, c7, c8, c9, ca, cb]"
    by (auto simp: length_Suc_conv eval_nat_numeral)
  then show ?thesis by simp
qed

lemma udp6_transmit_sends:
  assumes "packet_at s i blk pre payload post" "m_event_handler (n_ipv6 s) \<noteq> None"
    and "sends_from (n_ipv6 s) skt dest iface src" "length dest = 16"
    and "local_port skt = HTONS sp"
    and "env_6lo_send E iface (udp_datagram src dest sp dp payload) (of_nat (length payload + 48)) (n_world s) = (e, w)"
  shows "udp6_transmit E s skt dest (HTONS dp) (pb_ptr i) =
    Inr (e, given_away s i ((net_heap s)(blk := pre @ udp_datagram src dest sp dp payload @ post)) w)"
proof -
  let ?b = "m_pbuffer (n_pbuf s) ! i" and ?n = "length payload" and ?post = "payload @ post"
  from assms(1) obtain old where old: "length old = 48" "net_heap s blk = pre @ old @ ?post"
    and i: "i < IOT_PBUFFER_MAX_COUNT" "length (m_pbuffer (n_pbuf s)) = IOT_PBUFFER_MAX_COUNT" "pb_initialized (n_pbuf s)"
    and b: "pb_payload ?b = Ptr blk (length pre + 48)" "unat (pb_length ?b) = ?n" and small: "?n + 48 < 65536"
    by (auto simp: packet_at_def)
  obtain cs where cs: "layout cs" "concat cs = old" using widths_of [of old udp_widths] old(1) by auto
  have H: "net_heap s = hput (net_heap s) blk pre cs ?post" using old(2) cs(2) by (auto simp: hput_def)
  have src: "length src = 16" using assms(3) by (simp add: sends_from_def)
  define l where "l = net16 (ucast (pb_length ?b + 8))"
  have "unat (pb_length ?b + 8) = ?n + 8" using b(2) small by (simp add: unat_add_u32)
  then have "(ucast (pb_length ?b + 8) :: u16) = of_nat (?n + 8)"
    using small by (simp add: word_unat_eq_iff unsigned_ucast_eq take_bit_nat_def unat_of_nat_u16 del: of_nat_add)
  then have l: "l = net16 (of_nat (?n + 8))" by (simp add: l_def)
  define h2 where "h2 = hput (net_heap s) blk pre (cs[8 := net16 sp, 9 := net16 dp, 11 := [0, 0], 10 := l, 7 := dest]) ?post"
  define cs3 where "cs3 = cs[8 := net16 sp, 9 := net16 dp, 11 := [0, 0], 10 := l, 7 := dest, 6 := src]"
  define cs4 where "cs4 = cs3[4 := [17], 5 := [64], 0 := [0x60], 1 := [0], 2 := [0, 0], 3 := l]"
  have lay: "layout cs3" "layout cs4" using cs(1) assms(4) src by (simp_all add: cs3_def cs4_def l_def)
  have h1: "udp_header_store (net_heap s) (Ptr blk (length pre + 40)) (local_port skt) (HTONS dp) (pb_length ?b) =
      Inr (hput (net_heap s) blk pre (cs[8 := net16 sp, 9 := net16 dp, 11 := [0, 0], 10 := l]) ?post)"
    using udp_header_store_fields [OF cs(1), of "net_heap s" blk pre ?post] H assms(5) by (simp add: l_def)
  have h2: "store_bytes (hput (net_heap s) blk pre (cs[8 := net16 sp, 9 := net16 dp, 11 := [0, 0], 10 := l]) ?post)
      (Ptr blk (length pre + 24)) dest = Inr h2"
    using cs(1) assms(4) by (simp add: h2_def hput_store_field l_def)
  have h3: "source_address_store s h2 (Ptr blk (length pre)) skt dest =
      Inr (NRF_SUCCESS, Some iface, hput (net_heap s) blk pre cs3 ?post)"
    unfolding h2_def cs3_def
    using cs(1) assms(4) by (subst source_address_store_fields [OF _ assms(3)]) (simp_all add: l_def)
  have h4: "ip_header_store (hput (net_heap s) blk pre cs3 ?post) (Ptr blk (length pre)) (pb_length ?b) =
      Inr (hput (net_heap s) blk pre cs4 ?post)"
    unfolding cs4_def l_def by (rule ip_header_store_fields [OF lay(1)])
  have pl: "unat (pb_length ?b) \<le> length ?post" "unat (pb_length ?b) + 25 \<le> 65535" using b(2) small by simp_all
  from udp_checksum_store_fields [OF lay(2) pl, of "net_heap s" blk pre] obtain r where
    h5: "udp_checksum_store (hput (net_heap s) blk pre cs4 ?post) (Ptr blk (length pre)) (Ptr blk (length pre + 40)) (pb_length ?b) =
        Inr (hput (net_heap s) blk pre (cs4[11 := net16 (NOT r)]) ?post)"
    and r: "unat r = (let v = oc_norm (?n + 25 + byte_total (cs4 ! 6) + byte_total (cs4 ! 7) +
                byte_total (concat (drop 8 cs4)) + byte_total payload) in if v = 65535 then 0 else v)"
    by (auto simp: b(2))
  have cs4: "cs4 = [[0x60], [0], [0, 0], l, [17], [64], src, dest, net16 sp, net16 dp, l, [0, 0]]"
    unfolding cs4_def cs3_def by (rule udp_fields_of_updates [OF cs(1) src assms(4)])
  have u: "byte_total (0 # 0 # xs) = byte_total xs" for xs using byte_total_append [of "[0, 0]" xs] by simp
  have n8: "unat (of_nat (?n + 8) :: u16) = ?n + 8" by (rule unat_of_nat_u16) (use small in simp)
  have "byte_total (concat (drop 8 cs4)) = unat sp + unat dp + (?n + 8)"
    using n8 by (simp add: cs4 l byte_total_append del: of_nat_add)
  moreover have "cs4 ! 6 = src" "cs4 ! 7 = dest" by (simp_all add: cs4)
  ultimately have t: "?n + 25 + byte_total (cs4 ! 6) + byte_total (cs4 ! 7) + byte_total (concat (drop 8 cs4)) + byte_total payload =
      udp_total src dest sp dp payload" by (simp add: udp_total_def)
  have "unat (NOT r) = unat (udp_checksum src dest sp dp payload)"
    using r udp_checksum_total [OF src assms(4), of payload sp dp] small unfolding t unat_NOT_u16 by (simp add: Let_def)
  then have "NOT r = udp_checksum src dest sp dp payload" by (simp only: word_unat_eq_iff)
  then have final: "concat (cs4[11 := net16 (NOT r)]) @ payload = udp_datagram src dest sp dp payload"
    by (simp add: cs4 l udp_datagram_def udp_fields_def del: of_nat_add)
  let ?h5 = "(net_heap s)(blk := pre @ udp_datagram src dest sp dp payload @ post)"
  have h5': "hput (net_heap s) blk pre (cs4[11 := net16 (NOT r)]) ?post = ?h5"
    unfolding hput_def using final by (metis append.assoc)
  have len: "length (udp_datagram src dest sp dp payload) = ?n + 48"
    using src assms(4) by (simp add: udp_datagram_def udp_fields_def)
  have n48: "unat (of_nat (?n + 48) :: u16) = ?n + 48" by (rule unat_of_nat_u16) (use small in simp)
  have "load_bytes ?h5 (Ptr blk (length pre)) (?n + 48) = Inr (udp_datagram src dest sp dp payload)"
    by (simp add: load_bytes.simps arr_read_def len)
  moreover have "unat (pb_length ?b + 48) = ?n + 48" using b(2) small by (simp add: unat_add_u32)
  ultimately have "ipv6_send E (pb_set (set_heap s ?h5) (pb_ptr i) (\<lambda>b. b\<lparr>pb_payload := Ptr blk (length pre), pb_length := pb_length ?b + 48\<rparr>))
      (Some iface) (Some (pb_ptr i)) = Inr (e, given_away s i ?h5 w)"
    using ipv6_send_gives [OF assms(2) i(3) i(2) i(1) _ assms(6)] n48 by simp
  moreover have "pb_set (set_heap s h) (pb_ptr i) (\<lambda>b. b\<lparr>pb_payload := p, pb_length := pb_length b + k\<rparr>) =
      pb_set (set_heap s h) (pb_ptr i) (\<lambda>b. b\<lparr>pb_payload := p, pb_length := pb_length ?b + k\<rparr>)" for h p k
    using i(1) by (simp add: pb_set_def set_heap_def pbuf_upd_def)
  moreover have "ptr_sub (Ptr blk (length pre + 48)) 8 = Inr (Ptr blk (length pre + 40))"
    "ptr_sub (Ptr blk (length pre + 48)) 48 = Inr (Ptr blk (length pre))" by simp_all
  ultimately show ?thesis
    using pb_get_ptr [OF i(2) i(1)] b(1) h1 h2 h3 h4 h5 unfolding h5'
    by (simp add: udp6_transmit_def c_consts del: ptr_sub.simps)
qed

section \<open>A datagram received\<close>

lemma swap_u16_field:
  assumes "layout cs" "a + off = length pre + field_pos j" "j < 12" "udp_widths ! j = 2"
    and "cs ! j = net16 x"
  shows "swap_u16 (hput h blk pre cs post) (Ptr blk a) off = Inr (hput h blk pre (cs[j := le16 x]) post)"
  using assms udp_store [of cs a pre j "le16 x"] hput_store [OF assms(1,2), of "le16 x"] load_u16_field [OF assms(1,2)]
  by (simp add: swap_u16_def store_u16_le16 NTOHS_def)

text \<open>
  The fields of a datagram as \<open>udp_input\<close> finds them: the length of the IPv6 header was turned to the byte
  order of the host before, and those of the UDP header are turned for the application.
\<close>

definition host_fields :: "u8 list list \<Rightarrow> u16 \<Rightarrow> u8 list list" where
  "host_fields cs n = cs[3 := le16 n]"

definition app_fields :: "u8 list \<Rightarrow> u8 list \<Rightarrow> u16 \<Rightarrow> u16 \<Rightarrow> nat \<Rightarrow> u16 \<Rightarrow> u8 list list" where
  "app_fields src dst sport dport n c =
     [[0x60], [0], [0, 0], le16 (of_nat n), [17], [64], src, dst, le16 sport, le16 dport, le16 (of_nat n), le16 c]"

lemma layout_udp_fields: "length src = 16 \<Longrightarrow> length dst = 16 \<Longrightarrow> layout (udp_fields src dst sport dport n c)"
  by (simp add: has_widths_def udp_widths_def udp_fields_def)

lemma layout_host_fields: "layout cs \<Longrightarrow> layout (host_fields cs n)"
  by (simp add: host_fields_def)

definition arrived ::
  "'w net \<Rightarrow> nat \<Rightarrow> nat \<Rightarrow> u8 list \<Rightarrow> u8 list list \<Rightarrow> u8 list \<Rightarrow> u8 list \<Rightarrow> bool" where
  "arrived s i blk pre cs payload post \<longleftrightarrow> i < IOT_PBUFFER_MAX_COUNT \<and> length (m_pbuffer (n_pbuf s)) = IOT_PBUFFER_MAX_COUNT \<and>
     net_heap s = hput (net_heap s) blk pre (host_fields cs (of_nat (length payload + 8))) (payload @ post) \<and>
     pb_payload (m_pbuffer (n_pbuf s) ! i) = Ptr blk (length pre + 40) \<and>
     unat (pb_length (m_pbuffer (n_pbuf s) ! i)) = length payload + 8 \<and> payload \<noteq> [] \<and> length payload + 48 < 65536"

lemma udp_process_result_fields:
  assumes "length src = 16" "length dst = 16" "unat len = length payload + 8" "length payload + 48 < 65536"
  shows "udp_process_result (hput h blk pre (host_fields (udp_fields src dst sport dport (length payload + 8) c) l) (payload @ post))
      (Ptr blk (length pre)) (Ptr blk (length pre + 40)) len =
    Inr (if oc_norm (udp_total src dst sport dport payload + unat c) \<in> {0, 65535} then NRF_SUCCESS else UDP_BAD_CHECKSUM)"
proof -
  let ?n = "length payload + 8"
  let ?cs = "host_fields (udp_fields src dst sport dport ?n c) l"
  let ?H = "hput h blk pre ?cs (payload @ post)"
  have lay: "layout ?cs" using assms(1,2) by (simp add: layout_host_fields layout_udp_fields)
  have cs: "?cs = [[0x60], [0], [0, 0], le16 l, [17], [64], src, dst, net16 sport, net16 dport, net16 (of_nat ?n), net16 c]"
    by (simp add: host_fields_def udp_fields_def)
  define c0 :: u16 where "c0 = ucast (len + ucast IPV6_NEXT_HEADER_UDP)"
  define n16 :: u16 where "n16 = ucast len"
  have "unat (len + 17) = ?n + 17" using assms(3,4) by (simp add: unat_add_u32)
  then have c0: "unat c0 = ?n + 17" and n16: "unat n16 = ?n"
    using assms(3,4) by (simp_all add: c0_def n16_def c_consts unsigned_ucast_eq take_bit_nat_def)
  have n8: "unat (of_nat ?n :: u16) = ?n" by (rule unat_of_nat_u16) (use assms(4) in simp)
  have hl: "load_u16 ?H (Ptr blk (length pre + 40)) 4 = Inr (HTONS (of_nat ?n))"
    using udp_load_u16 [OF lay, of "length pre + 40" 4 pre 10] by (simp add: cs del: of_nat_add)
  have eq: "ucast (of_nat ?n :: u16) = len"
    using n8 assms(3) by (simp add: word_unat_eq_iff del: of_nat_add)
  have "load_bytes ?H (Ptr blk (length pre + 8)) (unat (16 :: u16)) = Inr src"
    using udp_load [OF lay, of "length pre + 8" pre 6] by (simp add: cs)
  from checksum_calculate_total [OF this, of c0 False] obtain r1 where
    r1: "ipv6_checksum_calculate ?H (Ptr blk (length pre + 8)) 16 c0 False = Inr r1" "unat r1 = oc_norm (unat c0 + byte_total src)"
    by auto
  have "load_bytes ?H (Ptr blk (length pre + 24)) (unat (16 :: u16)) = Inr dst"
    using udp_load [OF lay, of "length pre + 24" pre 7] by (simp add: cs)
  from checksum_calculate_total [OF this, of r1 False] obtain r2 where
    r2: "ipv6_checksum_calculate ?H (Ptr blk (length pre + 24)) 16 r1 False = Inr r2" "unat r2 = oc_norm (unat r1 + byte_total dst)"
    by auto
  have l8: "length (concat (drop 8 ?cs)) = 8" using widths_drop [OF lay, of 8] by simp
  have "load_bytes ?H (Ptr blk (length pre + 40)) (unat n16) = Inr (concat (drop 8 ?cs) @ take (length payload) (payload @ post))"
    by (rule hput_tail_load [OF lay]) (simp_all add: n16 l8)
  then have "load_bytes ?H (Ptr blk (length pre + 40)) (unat n16) = Inr (concat (drop 8 ?cs) @ payload)" by simp
  from checksum_calculate_total [OF this, of r2 False] obtain r where
    r: "ipv6_checksum_calculate ?H (Ptr blk (length pre + 40)) n16 r2 False = Inr r"
      "unat r = oc_norm (unat r2 + byte_total (concat (drop 8 ?cs) @ payload))"
    by auto
  have "byte_total (concat (drop 8 ?cs)) = unat sport + unat dport + ?n + unat c"
    using n8 by (simp add: cs byte_total_append del: of_nat_add)
  then have "unat r = oc_norm (udp_total src dst sport dport payload + unat c)"
    unfolding r(2) r2(2) r1(2) c0 oc_norm_idem using l8
    by (simp add: byte_total_append udp_total_def ac_simps)
  then have "r \<noteq> 0 \<and> r \<noteq> 0xFFFF \<longleftrightarrow> oc_norm (udp_total src dst sport dport payload + unat c) \<notin> {0, 65535}"
    by (simp add: word_unat_eq_iff)
  then show ?thesis
    using hl eq r1(1) r2(1) r(1)
    by (simp add: udp_process_result_def c0_def [symmetric] n16_def [symmetric] del: of_nat_add)
qed

lemma udp_header_swap_fields:
  assumes "length src = 16" "length dst = 16"
  shows "udp_header_swap (hput h blk pre (host_fields (udp_fields src dst sport dport n c) (of_nat n)) post) (Ptr blk (length pre + 40)) =
    Inr (hput h blk pre (app_fields src dst sport dport n c) post)"
proof -
  let ?f = "\<lambda>sp dp l ck. [[0x60], [0], [0, 0], le16 (of_nat n), [17], [64], src, dst, sp, dp, l, ck]"
  have lay: "layout (?f sp dp l ck)" if "length sp = 2" "length dp = 2" "length l = 2" "length ck = 2" for sp dp l ck
    using that assms by (simp add: has_widths_def udp_widths_def)
  have "host_fields (udp_fields src dst sport dport n c) (of_nat n) = ?f (net16 sport) (net16 dport) (net16 (of_nat n)) (net16 c)"
    by (simp add: host_fields_def udp_fields_def)
  moreover have "swap_u16 (hput h blk pre (?f (net16 sport) (net16 dport) (net16 (of_nat n)) (net16 c)) post) (Ptr blk (length pre + 40)) 2 =
      Inr (hput h blk pre (?f (net16 sport) (le16 dport) (net16 (of_nat n)) (net16 c)) post)"
    by (subst swap_u16_field [where j = 9 and x = dport]) (simp_all add: lay)
  moreover have "swap_u16 (hput h blk pre (?f (net16 sport) (le16 dport) (net16 (of_nat n)) (net16 c)) post) (Ptr blk (length pre + 40)) 0 =
      Inr (hput h blk pre (?f (le16 sport) (le16 dport) (net16 (of_nat n)) (net16 c)) post)"
    by (subst swap_u16_field [where j = 8 and x = sport]) (simp_all add: lay)
  moreover have "swap_u16 (hput h blk pre (?f (le16 sport) (le16 dport) (net16 (of_nat n)) (net16 c)) post) (Ptr blk (length pre + 40)) 4 =
      Inr (hput h blk pre (?f (le16 sport) (le16 dport) (le16 (of_nat n)) (net16 c)) post)"
    by (subst swap_u16_field [where j = 10 and x = "of_nat n"]) (simp_all add: lay)
  moreover have "swap_u16 (hput h blk pre (?f (le16 sport) (le16 dport) (le16 (of_nat n)) (net16 c)) post) (Ptr blk (length pre + 40)) 6 =
      Inr (hput h blk pre (?f (le16 sport) (le16 dport) (le16 (of_nat n)) (le16 c)) post)"
    by (subst swap_u16_field [where j = 11 and x = c]) (simp_all add: lay)
  ultimately show ?thesis by (simp add: udp_header_swap_def app_fields_def)
qed

text \<open>What the receive callback of a socket finds.\<close>

definition delivered ::
  "'w net \<Rightarrow> nat \<Rightarrow> nat \<Rightarrow> u8 list \<Rightarrow> u8 list \<Rightarrow> u8 list \<Rightarrow> u16 \<Rightarrow> u16 \<Rightarrow> u16 \<Rightarrow> u8 list \<Rightarrow> u8 list \<Rightarrow> 'w net" where
  "delivered s i blk pre src dst sport dport c payload post =
     pb_set (set_heap s (hput (net_heap s) blk pre (app_fields src dst sport dport (length payload + 8) c) (payload @ post))) (pb_ptr i)
       (\<lambda>b. b\<lparr>pb_payload := Ptr blk (length pre + 48), pb_length := of_nat (length payload)\<rparr>)"

definition udp_result :: "u8 list \<Rightarrow> u8 list \<Rightarrow> u16 \<Rightarrow> u16 \<Rightarrow> u16 \<Rightarrow> u8 list \<Rightarrow> u32" where
  "udp_result src dst sport dport c payload =
     (if oc_norm (udp_total src dst sport dport payload + unat c) \<in> {0, 65535} then NRF_SUCCESS else UDP_BAD_CHECKSUM)"

lemma udp_input_delivers:
  assumes arr: "arrived s i blk pre (udp_fields src dst sport dport (length payload + 8) c) payload post"
    and len: "length src = 16" "length dst = 16"
    and k: "find_first (\<lambda>k. socket_accepts k (HTONS dport) (HTONS sport) src dst) (m_socket s) = Some k"
    and cb: "rx_cb (m_socket s ! k) = Some cb"
  shows "udp_input E s (Some iface) (Ptr blk (length pre)) (Some (pb_ptr i)) =
    c_bind (env_rx E cb \<lparr>socket_id = of_nat k, sock_app_data = skt_app_data (m_socket s ! k)\<rparr>
        (Ptr blk (length pre)) (Ptr blk (length pre + 40)) (udp_result src dst sport dport c payload) (pb_ptr i)
        (delivered s i blk pre src dst sport dport c payload post)) (\<lambda>(_, s2). Inr (NRF_SUCCESS, s2))"
proof -
  let ?n = "length payload + 8" and ?b = "m_pbuffer (n_pbuf s) ! i" and ?post = "payload @ post"
  let ?cs = "host_fields (udp_fields src dst sport dport ?n c) (of_nat ?n)"
  from arr have i: "i < IOT_PBUFFER_MAX_COUNT" "length (m_pbuffer (n_pbuf s)) = IOT_PBUFFER_MAX_COUNT"
    and b: "pb_payload ?b = Ptr blk (length pre + 40)" "unat (pb_length ?b) = ?n"
    and small: "payload \<noteq> []" "length payload + 48 < 65536"
    and H: "net_heap s = hput (net_heap s) blk pre ?cs ?post"
    by (simp_all add: arrived_def)
  have lay: "layout ?cs" using len by (simp add: layout_host_fields layout_udp_fields)
  have cs: "?cs = [[0x60], [0], [0, 0], le16 (of_nat ?n), [17], [64], src, dst, net16 sport, net16 dport, net16 (of_nat ?n), net16 c]"
    by (simp add: host_fields_def udp_fields_def)
  have n8: "unat (of_nat ?n :: u16) = ?n" by (rule unat_of_nat_u16) (use small in simp)
  have ip_len: "load_u16 (net_heap s) (Ptr blk (length pre)) 4 = Inr (of_nat ?n)"
    using udp_load_u16 [OF lay, of "length pre" 4 pre 3 "net_heap s" blk ?post] H by (simp add: cs del: of_nat_add)
  have dp: "load_u16 (net_heap s) (Ptr blk (length pre + 40)) 2 = Inr (HTONS dport)"
    using udp_load_u16 [OF lay, of "length pre + 40" 2 pre 9 "net_heap s" blk ?post] H by (simp add: cs del: of_nat_add)
  have sp: "load_u16 (net_heap s) (Ptr blk (length pre + 40)) 0 = Inr (HTONS sport)"
    using udp_load_u16 [OF lay, of "length pre + 40" 0 pre 8 "net_heap s" blk ?post] H by (simp add: cs del: of_nat_add)
  have src: "load_addr (net_heap s) (Ptr blk (length pre)) 8 = Inr src"
    using udp_load [OF lay, of "length pre + 8" pre 6 16 "net_heap s" blk ?post] H by (simp add: cs load_addr_def del: of_nat_add)
  have dst: "load_addr (net_heap s) (Ptr blk (length pre)) 24 = Inr dst"
    using udp_load [OF lay, of "length pre + 24" pre 7 16 "net_heap s" blk ?post] H by (simp add: cs load_addr_def del: of_nat_add)
  have res: "udp_process_result (net_heap s) (Ptr blk (length pre)) (Ptr blk (length pre + 40)) (pb_length ?b) =
      Inr (udp_result src dst sport dport c payload)"
    using udp_process_result_fields [OF len b(2) small(2), of "net_heap s" blk pre sport dport c "of_nat ?n" post] H
    by (simp add: udp_result_def del: of_nat_add)
  have swap: "udp_header_swap (net_heap s) (Ptr blk (length pre + 40)) =
      Inr (hput (net_heap s) blk pre (app_fields src dst sport dport ?n c) ?post)"
    using udp_header_swap_fields [OF len, of "net_heap s" blk pre sport dport ?n c ?post] H by simp
  have gt: "(8 :: u32) < pb_length ?b" "(8 :: u32) < ucast (of_nat ?n :: u16)"
    using b(2) n8 small(1) by (simp_all add: word_less_nat_alt del: of_nat_add)
  have "of_nat (unat (pb_length ?b)) = pb_length ?b" by simp
  then have "pb_length ?b - 8 = of_nat (length payload)" unfolding b(2) by (simp add: algebra_simps)
  then have st: "set_heap (pb_set s (pb_ptr i) (\<lambda>b. b\<lparr>pb_payload := ptr_add (pb_payload b) 8, pb_length := pb_length b - 8\<rparr>)) h =
      pb_set (set_heap s h) (pb_ptr i) (\<lambda>b. b\<lparr>pb_payload := Ptr blk (length pre + 48), pb_length := of_nat (length payload)\<rparr>)" for h
    using b(1) i(1) by (simp add: set_heap_def pb_set_def pbuf_upd_def add.commute)
  show ?thesis
    using pb_get_ptr [OF i(2,1)] ip_len dp sp src dst res swap gt k cb b(1)
    by (simp add: udp_input_def delivered_def st [symmetric] c_consts del: of_nat_add)
qed

end
