(* ===== verification/Ipv6_Input.thy ===== *)
theory Ipv6_Input
  imports Icmp6 Udp6
begin

text \<open>
  The events of the 6LoWPAN library and the dispatch of received packets, the rest of
  \<^verbatim>\<open>components/iot/ipv6_stack/ipv6/ipv6.c\<close>: initialisation of the stack, interfaces that come and go,
  packets that arrive. The state is the one of all modules of the stack.
\<close>

section \<open>The application is told\<close>

definition notify :: "'w net_env \<Rightarrow> 'w net \<Rightarrow> nat \<Rightarrow> ipv6_event_t \<Rightarrow> fault + 'w net" where
  "notify E s iface event =
     (case m_event_handler (n_ipv6 s) of
        None \<Rightarrow> Inl NullDereference
      | Some handler \<Rightarrow> env_evt E handler iface event s)"

definition app_notify_interface_add :: "'w net_env \<Rightarrow> 'w net \<Rightarrow> nat \<Rightarrow> fault + 'w net" where
  "app_notify_interface_add E s iface = notify E s iface IPV6_EVT_INTERFACE_ADD"

definition app_notify_interface_delete :: "'w net_env \<Rightarrow> 'w net \<Rightarrow> nat \<Rightarrow> fault + 'w net" where
  "app_notify_interface_delete E s iface = notify E s iface IPV6_EVT_INTERFACE_DELETE"

definition app_notify_rx_data :: "'w net_env \<Rightarrow> 'w net \<Rightarrow> nat \<Rightarrow> u32 \<Rightarrow> fault + 'w net" where
  "app_notify_rx_data E s iface packet =
     c_bind (pb_get s packet) (\<lambda>b. notify E s iface (IPV6_EVT_INTERFACE_RX_DATA packet (pb_memory b)))"

section \<open>Dispatch\<close>

text \<open>Length and flow label are turned to the byte order of the host. The buffer is freed, with its memory, in any case.\<close>

definition ipv6_dispatch :: "'w net_env \<Rightarrow> 'w net \<Rightarrow> nat \<Rightarrow> ptr \<Rightarrow> u32 \<Rightarrow> fault + u32 \<times> 'w net" where
  "ipv6_dispatch E s iface p_iphdr packet =
     c_bind (load (net_heap s) p_iphdr 6) (\<lambda>next_header.
     if next_header = IPV6_NEXT_HEADER_ICMP6 then icmp6_input E s (Some iface) p_iphdr (Some packet)
     else if next_header = IPV6_NEXT_HEADER_UDP then udp_input E s (Some iface) p_iphdr (Some packet)
     else c_bind (app_notify_rx_data E s iface packet) (\<lambda>s1. Inr (NRF_SUCCESS, s1)))"

definition ipv6_input :: "'w net_env \<Rightarrow> 'w net \<Rightarrow> nat \<Rightarrow> u32 \<Rightarrow> fault + u32 \<times> 'w net" where
  "ipv6_input E s iface packet =
     c_bind (pb_get s packet) (\<lambda>b.
     c_bind (ptr_sub (pb_payload b) (unat IPV6_IP_HEADER_SIZE)) (\<lambda>p_iphdr.
     c_bind (swap_u16 (net_heap s) p_iphdr 4) (\<lambda>h.
     c_bind (swap_u16 h p_iphdr 2) (\<lambda>h.
     c_bind (ipv6_dispatch E (set_heap s h) iface p_iphdr packet) (\<lambda>(err_code, s1).
     c_bind (iot_pbuffer_free (n_pbuf s1) (Some packet) True) (\<lambda>(_, pb).
     Inr (err_code, s1\<lparr>n_pbuf := pb\<rparr>)))))))"

section \<open>Events of the 6LoWPAN library\<close>

text \<open>The parameters of a received packet are part of its event, with the result of the decompression.\<close>

datatype ble_6lowpan_event_t =
    BLE_6LO_EVT_ERROR u32
  | BLE_6LO_EVT_INTERFACE_ADD
  | BLE_6LO_EVT_INTERFACE_DELETE
  | BLE_6LO_EVT_INTERFACE_DATA_RX u32 ptr u16

definition DEST_ADDR_OFFSET :: nat where [c_consts]: "DEST_ADDR_OFFSET = 24"

definition evt_interface_add :: "'w net_env \<Rightarrow> 'w net \<Rightarrow> nat \<Rightarrow> fault + 'w net" where
  "evt_interface_add E s iface =
     c_bind (interface_add (n_ipv6 s) iface) (\<lambda>(err_code, _, ip).
     if err_code = NRF_SUCCESS then
       app_notify_interface_add E
         (s\<lparr>n_ipv6 := ip\<lparr>m_interfaces_count := m_interfaces_count ip + 1\<rparr>,
            n_ctx := snd (iot_context_manager_table_alloc (n_ctx s) (Some iface))\<rparr>) iface
     else Inr (s\<lparr>n_ipv6 := ip\<rparr>))"

text \<open>The number of the interface was read before the application is told.\<close>

definition evt_interface_delete :: "'w net_env \<Rightarrow> 'w net \<Rightarrow> nat \<Rightarrow> fault + 'w net" where
  "evt_interface_delete E s iface =
     (let interface_id = unat (interface_get_by_6lo (n_ipv6 s) iface)
      in if interface_id < IPV6_MAX_INTERFACE then
           c_bind (app_notify_interface_delete E s iface) (\<lambda>s1.
           let s2 = s1\<lparr>n_ctx := snd (iot_context_manager_table_free (n_ctx s1) (Some iface)),
                       n_ipv6 := (n_ipv6 s1)\<lparr>m_interfaces_count := m_interfaces_count (n_ipv6 s1) - 1\<rparr>\<rparr>
           in c_bind (interface_delete (n_ipv6 s2) interface_id) (\<lambda>ip. Inr (s2\<lparr>n_ipv6 := ip\<rparr>)))
         else Inr s)"

text \<open>
  \<open>addr_check\<close> on the destination address of the packet, which is read where the interface has an
  address to compare it with.
\<close>

definition dest_check :: "'w net \<Rightarrow> nat \<Rightarrow> ptr \<Rightarrow> fault + u32" where
  "dest_check s interface_id p_packet =
     c_bind (arr_get (m_interfaces (n_ipv6 s)) interface_id) (\<lambda>it.
     if list_ex (\<lambda>a. a \<noteq> IPV6_INVALID_ADDR_INDEX) (addr_range it) then
       c_bind (load_bytes (net_heap s) (ptr_add p_packet DEST_ADDR_OFFSET) IPV6_ADDR_SIZE) (addr_check (n_ipv6 s) interface_id)
     else Inr NRF_ERROR_NOT_FOUND)"

definition raw_alloc_param :: "u16 \<Rightarrow> iot_pbuffer_alloc_param_t" where
  "raw_alloc_param packet_len =
     \<lparr>param_type = RAW_PACKET_TYPE, param_flags = PBUFFER_FLAG_NO_MEM_ALLOCATION, param_length = ucast packet_len\<rparr>"

text \<open>The first part of the result is \<open>rx_failure\<close>.\<close>

definition evt_data_rx :: "'w net_env \<Rightarrow> 'w net \<Rightarrow> nat \<Rightarrow> u32 \<Rightarrow> ptr \<Rightarrow> u16 \<Rightarrow> fault + bool \<times> 'w net" where
  "evt_data_rx E s iface event_result p_packet packet_len =
     (let interface_id = unat (interface_get_by_6lo (n_ipv6 s) iface)
      in if interface_id < IPV6_MAX_INTERFACE then
           if event_result = NRF_ERROR_NOT_FOUND then Inr (True, s)
           else
             c_bind (dest_check s interface_id p_packet) (\<lambda>err_code.
             if err_code \<noteq> NRF_SUCCESS then Inr (True, s)
             else
               case iot_pbuffer_allocate (n_pbuf s) (Some (raw_alloc_param packet_len)) (Some None) of
                 (err_code, pp, pb) \<Rightarrow>
                   if err_code = NRF_SUCCESS then
                     let packet = the (the pp);
                         s1 = pb_set (s\<lparr>n_pbuf := pb\<rparr>) packet (\<lambda>b. b\<lparr>pb_memory := p_packet,
                                pb_payload := ptr_add p_packet (unat IPV6_IP_HEADER_SIZE),
                                pb_length := pb_length b - IPV6_IP_HEADER_SIZE\<rparr>)
                     in c_bind (ipv6_input E s1 iface packet) (\<lambda>(_, s2). Inr (False, s2))
                   else Inr (True, s\<lparr>n_pbuf := pb\<rparr>))
         else Inr (True, s))"

definition net_mem_free :: "'w net \<Rightarrow> ptr \<Rightarrow> 'w net" where
  "net_mem_free s p = s\<lparr>n_pbuf := (n_pbuf s)\<lparr>pb_mm := snd (nrf51_sdk_mem_free (pb_mm (n_pbuf s)) p)\<rparr>\<rparr>"

definition ble_6lowpan_evt_handler :: "'w net_env \<Rightarrow> 'w net \<Rightarrow> nat \<Rightarrow> ble_6lowpan_event_t \<Rightarrow> fault + 'w net" where
  "ble_6lowpan_evt_handler E s iface event =
     (case event of
        BLE_6LO_EVT_ERROR _ \<Rightarrow> Inr s
      | BLE_6LO_EVT_INTERFACE_ADD \<Rightarrow> evt_interface_add E s iface
      | BLE_6LO_EVT_INTERFACE_DELETE \<Rightarrow> evt_interface_delete E s iface
      | BLE_6LO_EVT_INTERFACE_DATA_RX event_result p_packet packet_len \<Rightarrow>
          c_bind (evt_data_rx E s iface event_result p_packet packet_len) (\<lambda>(rx_failure, s1).
          Inr (if rx_failure then net_mem_free s1 p_packet else s1)))"

section \<open>Initialisation\<close>

record ipv6_init_t =
  p_eui64 :: "u8 list option"
  init_event_handler :: "nat option"

fun init_interfaces :: "ipv6_state \<Rightarrow> nat list \<Rightarrow> fault + ipv6_state" where
  "init_interfaces s [] = Inr s"
| "init_interfaces s (i # is) = c_bind (interface_reset s i) (\<lambda>s1. init_interfaces s1 is)"

fun init_addresses :: "ipv6_state \<Rightarrow> nat list \<Rightarrow> fault + ipv6_state" where
  "init_addresses s [] = Inr s"
| "init_addresses s (i # is) = c_bind (addr_free s i False) (\<lambda>s1. init_addresses s1 is)"

definition ipv6_init :: "'w net_env \<Rightarrow> 'w net \<Rightarrow> ipv6_init_t option \<Rightarrow> fault + u32 \<times> 'w net" where
  "ipv6_init E s p_init =
     (case p_init of
        None \<Rightarrow> Inr (NRF_ERROR_NULL OR IOT_IPV6_ERR_BASE, s)
      | Some init \<Rightarrow>
        (case p_eui64 init of
           None \<Rightarrow> Inr (NRF_ERROR_NULL OR IOT_IPV6_ERR_BASE, s)
         | Some eui64 \<Rightarrow>
           if init_event_handler init = None then Inr (NRF_ERROR_NULL OR IOT_IPV6_ERR_BASE, s)
           else
             let pb = (n_pbuf s)\<lparr>pb_mm := snd (nrf51_sdk_mem_init (pb_mm (n_pbuf s)))\<rparr>;
                 s1 = s\<lparr>n_pbuf := snd (iot_pbuffer_init pb)\<rparr>;
                 s2 = snd (icmp6_init (snd (udp_init s1)));
                 s3 = s2\<lparr>n_ctx := snd (iot_context_manager_init (n_ctx s2))\<rparr>;
                 ip = (n_ipv6 s3)\<lparr>m_event_handler := init_event_handler init, m_interfaces_count := 0\<rparr>
             in c_bind (init_interfaces ip [0..<IPV6_MAX_INTERFACE]) (\<lambda>ip.
                c_bind (init_addresses ip [0..<IPV6_MAX_ADDRESS_COUNT]) (\<lambda>ip.
                case env_6lo_init E eui64 (n_world s3) of
                  (err_code, w) \<Rightarrow> Inr (err_code, s3\<lparr>n_ipv6 := ip, n_world := w\<rparr>)))))"

section \<open>Which packets are for the device\<close>

definition accepts_address :: "ipv6_state \<Rightarrow> u8 list \<Rightarrow> bool" where
  "accepts_address s a \<longleftrightarrow> dom (addr_map s) \<noteq> {} \<and>
     (addr_map s a \<noteq> None \<or> IPV6_ADDRESS_IS_MLDV2_MCAST a \<or> IPV6_ADDRESS_IS_ALL_NODE a)"

lemma addr_check_loop_iff:
  "\<forall>i \<in> set is. i < 3 \<Longrightarrow> length t = 3 \<Longrightarrow>
   addr_check_loop t (map (range_entry t) is) a =
     Inr (if \<exists>i \<in> set is. addr_key (t ! i) \<noteq> None \<and>
            (addr_key (t ! i) = Some a \<or> IPV6_ADDRESS_IS_MLDV2_MCAST a \<or> IPV6_ADDRESS_IS_ALL_NODE a)
          then NRF_SUCCESS else NRF_ERROR_NOT_FOUND)"
proof (induction "is")
  case (Cons i "is")
  then have i: "i < 3" by simp
  show ?case
  proof (cases "addr_key (t ! i)")
    case None
    then show ?thesis using Cons i by (simp add: range_entry_invalid)
  next
    case (Some b)
    then have "range_entry t i \<noteq> IPV6_INVALID_ADDR_INDEX" "unat (range_entry t i) = i" "conf_addr (t ! i) = b"
      using i by (simp_all add: range_entry_invalid unat_range_entry addr_key_Some)
    then show ?thesis using Cons i Some by simp
  qed
qed simp

lemma addr_map_index: "addr_inv s \<Longrightarrow> addr_map s a \<noteq> None \<longleftrightarrow> (\<exists>i < 3. addr_key (m_address_table s ! i) = Some a)"
  using addr_inv_len(1) [of s] by (simp add: addr_map_def table_map_None)

lemma dest_check_accepts:
  assumes "addr_inv (n_ipv6 s)" "load_bytes (net_heap s) (ptr_add p 24) 16 = Inr a"
  shows "dest_check s 0 p = Inr (if accepts_address (n_ipv6 s) a then NRF_SUCCESS else NRF_ERROR_NOT_FOUND)"
proof -
  let ?ip = "n_ipv6 s"
  let ?t = "m_address_table ?ip"
  have rng: "addr_range (m_interfaces ?ip ! 0) = map (range_entry ?t) [0..<3]" and len: "length (m_interfaces ?ip) = 1" "length ?t = 3"
    using assms(1) by (simp_all add: addr_inv_def c_consts)
  have any: "(\<exists>i \<in> set [0..<3]. addr_key (?t ! i) \<noteq> None) \<longleftrightarrow> dom (addr_map ?ip) \<noteq> {}"
  proof -
    have "dom (addr_map ?ip) \<noteq> {} \<longleftrightarrow> (\<exists>a. \<exists>i < 3. addr_key (?t ! i) = Some a)"
      using addr_map_index [OF assms(1)] by blast
    then show ?thesis by auto
  qed
  have ex: "list_ex (\<lambda>a. a \<noteq> IPV6_INVALID_ADDR_INDEX) (map (range_entry ?t) [0..<3]) \<longleftrightarrow> dom (addr_map ?ip) \<noteq> {}"
    unfolding any [symmetric] by (auto simp: list_ex_iff range_entry_invalid)
  have "addr_check_loop ?t (map (range_entry ?t) [0..<3]) a = Inr (if accepts_address ?ip a then NRF_SUCCESS else NRF_ERROR_NOT_FOUND)"
  proof (cases "IPV6_ADDRESS_IS_MLDV2_MCAST a \<or> IPV6_ADDRESS_IS_ALL_NODE a")
    case True
    then have "(\<exists>i \<in> set [0..<3]. addr_key (?t ! i) \<noteq> None \<and>
        (addr_key (?t ! i) = Some a \<or> IPV6_ADDRESS_IS_MLDV2_MCAST a \<or> IPV6_ADDRESS_IS_ALL_NODE a)) \<longleftrightarrow> accepts_address ?ip a"
      unfolding accepts_address_def any [symmetric] by blast
    then show ?thesis using addr_check_loop_iff [of "[0..<3]" ?t a] len(2) by simp
  next
    case False
    have "addr_map ?ip a \<noteq> None \<longleftrightarrow> (\<exists>i \<in> set [0..<3]. addr_key (?t ! i) = Some a)"
      using addr_map_index [OF assms(1), of a] by auto
    then have "(\<exists>i \<in> set [0..<3]. addr_key (?t ! i) \<noteq> None \<and>
        (addr_key (?t ! i) = Some a \<or> IPV6_ADDRESS_IS_MLDV2_MCAST a \<or> IPV6_ADDRESS_IS_ALL_NODE a)) \<longleftrightarrow> accepts_address ?ip a"
      using False by (auto simp: accepts_address_def)
    then show ?thesis using addr_check_loop_iff [of "[0..<3]" ?t a] len(2) by simp
  qed
  then show ?thesis
    using assms(2) ex len rng by (auto simp: dest_check_def addr_check_def accepts_address_def c_consts)
qed

section \<open>A packet received\<close>

text \<open>The descriptor of a received packet.\<close>

definition rx_buffer :: "pbuffer_t \<Rightarrow> nat \<Rightarrow> nat \<Rightarrow> pbuffer_t" where
  "rx_buffer b blk n = b\<lparr>allocated_length := of_nat n, pb_type := RAW_PACKET_TYPE, pb_memory := Ptr blk 0,
     pb_payload := Ptr blk 40, pb_length := of_nat n - 40\<rparr>"

lemma raw_allocate:
  assumes "pb_initialized pb" "find_first (\<lambda>b. allocated_length b = 0) (m_pbuffer pb) = Some i" "0 < n" "n < 65536"
  shows "iot_pbuffer_allocate pb (Some (raw_alloc_param (of_nat n))) (Some None) =
    (NRF_SUCCESS, Some (Some (pb_ptr i)),
     pbuf_upd pb i (\<lambda>b. b\<lparr>allocated_length := of_nat n, pb_length := of_nat n, pb_type := RAW_PACKET_TYPE\<rparr>))"
proof -
  have u: "(ucast (of_nat n :: u16) :: u32) = of_nat n"
    using assms(4) by (simp add: word_unat_eq_iff unat_of_nat_u16 unat_of_nat_u32)
  have nz: "(of_nat n :: u32) \<noteq> 0" using assms(3,4) by (simp add: word_unat_eq_iff unat_of_nat_u32)
  have "alloc_param_error (raw_alloc_param (of_nat n)) = None"
    using nz by (simp add: alloc_param_error_def raw_alloc_param_def u c_consts)
  moreover have "i < length (m_pbuffer pb)" using pbufs.free_slot [OF assms(2)] by simp
  ultimately show ?thesis
    using assms(1,2)
    by (simp add: iot_pbuffer_allocate_def pbuffer_allocate_def raw_alloc_param_def u type_offset_get_def pbuf_upd_def pb_ptr_def
        Let_def c_consts)
qed

text \<open>Whether the stack can take a packet: the interface is up, the packet is for the device, a descriptor is free.\<close>

definition takes :: "'w net \<Rightarrow> nat \<Rightarrow> nat \<Rightarrow> u8 list \<Rightarrow> bool" where
  "takes s iface i dst \<longleftrightarrow> addr_inv (n_ipv6 s) \<and> attached (n_ipv6 s) iface \<and> accepts_address (n_ipv6 s) dst \<and>
     pb_initialized (n_pbuf s) \<and> length (m_pbuffer (n_pbuf s)) = IOT_PBUFFER_MAX_COUNT \<and>
     find_first (\<lambda>b. allocated_length b = 0) (m_pbuffer (n_pbuf s)) = Some i"

definition with_rx :: "'w net \<Rightarrow> nat \<Rightarrow> nat \<Rightarrow> nat \<Rightarrow> 'w net" where
  "with_rx s i blk n = s\<lparr>n_pbuf := pbuf_upd (n_pbuf s) i (\<lambda>b. rx_buffer b blk n)\<rparr>"

lemma takes_index: "takes s iface i dst \<Longrightarrow> i < IOT_PBUFFER_MAX_COUNT"
  using pbufs.free_slot [of "m_pbuffer (n_pbuf s)" i] by (auto simp: takes_def)

lemma data_rx_input:
  assumes "takes s iface i dst" "load_bytes (net_heap s) (Ptr blk 24) 16 = Inr dst" "0 < n" "n < 65536" "r \<noteq> NRF_ERROR_NOT_FOUND"
  shows "ble_6lowpan_evt_handler E s iface (BLE_6LO_EVT_INTERFACE_DATA_RX r (Ptr blk 0) (of_nat n)) =
    c_bind (ipv6_input E (with_rx s i blk n) iface (pb_ptr i)) (\<lambda>(_, s2). Inr s2)"
proof -
  have t: "addr_inv (n_ipv6 s)" "attached (n_ipv6 s) iface" "accepts_address (n_ipv6 s) dst" "pb_initialized (n_pbuf s)"
    "length (m_pbuffer (n_pbuf s)) = IOT_PBUFFER_MAX_COUNT"
    "find_first (\<lambda>b. allocated_length b = 0) (m_pbuffer (n_pbuf s)) = Some i"
    using assms(1) by (simp_all add: takes_def)
  have i: "i < IOT_PBUFFER_MAX_COUNT" by (rule takes_index [OF assms(1)])
  have "dest_check s 0 (Ptr blk 0) = Inr NRF_SUCCESS"
    using dest_check_accepts [OF t(1), of "Ptr blk 0" dst] assms(2) t(3) by simp
  moreover have "unat (interface_get_by_6lo (n_ipv6 s) iface) = 0" using t(2) by (simp add: interface_get_by_6lo_def attached_def)
  moreover have "pb_set (s\<lparr>n_pbuf := pbuf_upd (n_pbuf s) i (\<lambda>b. b\<lparr>allocated_length := of_nat n, pb_length := of_nat n, pb_type := RAW_PACKET_TYPE\<rparr>)\<rparr>)
      (pb_ptr i) (\<lambda>b. b\<lparr>pb_memory := Ptr blk 0, pb_payload := Ptr blk 40, pb_length := pb_length b - 40\<rparr>) = with_rx s i blk n"
    using i t(5) by (simp add: pb_set_def pbuf_upd_def with_rx_def rx_buffer_def)
  ultimately show ?thesis
    using assms(5) raw_allocate [OF t(4,6) assms(3,4)]
    by (simp add: ble_6lowpan_evt_handler_def evt_data_rx_def c_bind_assoc case_prod_unfold Let_def c_consts)
qed

text \<open>The packet is dropped, and its block returned, where its destination is not an address of the device.\<close>

lemma data_rx_foreign:
  assumes "addr_inv (n_ipv6 s)" "attached (n_ipv6 s) iface" "\<not> accepts_address (n_ipv6 s) dst"
    and "load_bytes (net_heap s) (Ptr blk 24) 16 = Inr dst"
  shows "ble_6lowpan_evt_handler E s iface (BLE_6LO_EVT_INTERFACE_DATA_RX r (Ptr blk 0) n) = Inr (net_mem_free s (Ptr blk 0))"
proof -
  have "dest_check s 0 (Ptr blk 0) = Inr NRF_ERROR_NOT_FOUND"
    using dest_check_accepts [OF assms(1), of "Ptr blk 0" dst] assms(3,4) by simp
  moreover have "unat (interface_get_by_6lo (n_ipv6 s) iface) = 0" using assms(2) by (simp add: interface_get_by_6lo_def attached_def)
  ultimately show ?thesis
    by (auto simp: ble_6lowpan_evt_handler_def evt_data_rx_def Let_def c_consts)
qed

section \<open>A datagram from sender to receiver\<close>

lemma udp_result_own_checksum:
  assumes "length src = 16" "length dst = 16" "length payload + 8 < 65536"
  shows "udp_result src dst sport dport (udp_checksum src dst sport dport payload) payload = NRF_SUCCESS"
proof -
  define t where "t = udp_total src dst sport dport payload"
  have c: "unat (udp_checksum src dst sport dport payload) = (if oc_norm t = 65535 then 65535 else 65535 - oc_norm t)"
    using udp_checksum_total [OF assms, of sport dport] by (simp add: t_def Let_def)
  have "oc_norm (t + unat (udp_checksum src dst sport dport payload)) =
      oc_norm (oc_norm t + unat (udp_checksum src dst sport dport payload))" by (simp only: oc_norm_idem)
  moreover have "oc_norm (65535 + 65535) = 65535" by (simp add: oc_norm_def)
  ultimately have "oc_norm (t + unat (udp_checksum src dst sport dport payload)) = 65535"
    using c oc_norm_le [of t] oc_norm_small [of 65535] by (auto split: if_splits)
  then show ?thesis by (simp add: udp_result_def t_def)
qed

text \<open>
  What the application finds when its callback runs: the payload behind the pointer of the buffer, the
  ports in the byte order of the host, and the source address.
\<close>

definition app_sees :: "'w net \<Rightarrow> nat \<Rightarrow> nat \<Rightarrow> u8 list \<Rightarrow> u16 \<Rightarrow> u16 \<Rightarrow> u8 list \<Rightarrow> bool" where
  "app_sees s i blk src sport dport payload \<longleftrightarrow>
     load_bytes (net_heap s) (Ptr blk 48) (length payload) = Inr payload \<and>
     load_u16 (net_heap s) (Ptr blk 40) 0 = Inr sport \<and> load_u16 (net_heap s) (Ptr blk 40) 2 = Inr dport \<and> load_addr (net_heap s) (Ptr blk 0) 8 = Inr src \<and>
     (\<exists>b. pb_get s (pb_ptr i) = Inr b \<and> pb_memory b = Ptr blk 0 \<and> pb_payload b = Ptr blk 48 \<and> unat (pb_length b) = length payload)"

definition free_rx :: "'w net \<Rightarrow> nat \<Rightarrow> fault + 'w net" where
  "free_rx s i = c_bind (iot_pbuffer_free (n_pbuf s) (Some (pb_ptr i)) True) (\<lambda>(_, pb). Inr (s\<lparr>n_pbuf := pb\<rparr>))"

lemma delivered_app_sees:
  assumes "length src = 16" "length dst = 16" "length payload + 48 < 65536" "i < IOT_PBUFFER_MAX_COUNT"
    and "length (m_pbuffer (n_pbuf s)) = IOT_PBUFFER_MAX_COUNT" "pb_memory (m_pbuffer (n_pbuf s) ! i) = Ptr blk 0"
  shows "app_sees (delivered s i blk [] src dst sport dport c payload post) i blk src sport dport payload"
proof -
  let ?cs = "app_fields src dst sport dport (length payload + 8) c" and ?d = "delivered s i blk [] src dst sport dport c payload post"
  have lay: "layout ?cs" using assms(1,2) by (simp add: has_widths_def udp_widths_def app_fields_def)
  have H: "net_heap ?d = hput (net_heap s) blk [] ?cs (payload @ post)"
    by (simp add: delivered_def pb_set_def set_heap_def pbuf_upd_def)
  have "load_u16 (net_heap ?d) (Ptr blk 40) 0 = Inr sport"
    unfolding H by (subst udp_load_u16 [OF lay, of 40 0 "[]" 8]) (simp_all add: app_fields_def)
  moreover have "load_u16 (net_heap ?d) (Ptr blk 40) 2 = Inr dport"
    unfolding H by (subst udp_load_u16 [OF lay, of 40 2 "[]" 9]) (simp_all add: app_fields_def)
  moreover have "load_addr (net_heap ?d) (Ptr blk 0) 8 = Inr src"
    unfolding H load_addr_def using udp_load [OF lay, of 8 "[]" 6 16 "net_heap s" blk "payload @ post"] by (simp add: app_fields_def)
  moreover have "length (concat ?cs) = 48" using widths_concat [OF lay] by simp
  then have "load_bytes (net_heap ?d) (Ptr blk 48) (length payload) = Inr payload"
    unfolding H by (simp add: hput_def load_bytes.simps arr_read_def)
  moreover have "unat (of_nat (length payload) :: u32) = length payload" by (rule unat_of_nat_u32) (use assms(3) in simp)
  moreover have "pb_get ?d (pb_ptr i) = Inr ((m_pbuffer (n_pbuf s) ! i)\<lparr>pb_payload := Ptr blk 48, pb_length := of_nat (length payload)\<rparr>)"
    using assms(4,5) by (subst pb_get_ptr) (simp_all add: delivered_def pb_set_def set_heap_def pbuf_upd_def)
  ultimately show ?thesis using assms(6) by (simp add: app_sees_def)
qed

lemma udp_datagram_received:
  assumes t: "takes s iface i dst" and mem: "net_heap s blk = udp_datagram src dst sport dport payload @ post"
    and len: "length src = 16" "length dst = 16" "payload \<noteq> []" "length payload + 48 < 65536"
    and k: "find_first (\<lambda>k. socket_accepts k (HTONS dport) (HTONS sport) src dst) (m_socket s) = Some k"
    and cb: "rx_cb (m_socket s ! k) = Some cb"
  shows "\<exists>s1. ble_6lowpan_evt_handler E s iface
      (BLE_6LO_EVT_INTERFACE_DATA_RX NRF_SUCCESS (Ptr blk 0) (of_nat (length payload + 48))) =
    c_bind (env_rx E cb \<lparr>socket_id = of_nat k, sock_app_data = skt_app_data (m_socket s ! k)\<rparr>
        (Ptr blk 0) (Ptr blk 40) NRF_SUCCESS (pb_ptr i) s1) (\<lambda>(_, s2). free_rx s2 i) \<and>
    app_sees s1 i blk src sport dport payload \<and> n_ipv6 s1 = n_ipv6 s \<and> m_socket s1 = m_socket s \<and> n_world s1 = n_world s"
proof -
  let ?c = "udp_checksum src dst sport dport payload" and ?l = "length payload + 8" and ?n = "length payload + 48"
  let ?cs = "udp_fields src dst sport dport ?l ?c" and ?s = "with_rx s i blk ?n"
  have i: "i < IOT_PBUFFER_MAX_COUNT" "length (m_pbuffer (n_pbuf s)) = IOT_PBUFFER_MAX_COUNT"
    using takes_index [OF t] t by (simp_all add: takes_def)
  have lay: "layout ?cs" by (rule layout_udp_fields [OF len(1,2)])
  have H: "net_heap s = hput (net_heap s) blk [] ?cs (payload @ post)"
    using mem by (auto simp: hput_def udp_datagram_def)
  have w: "net_heap ?s = net_heap s" "m_socket ?s = m_socket s" "n_ipv6 ?s = n_ipv6 s" "n_world ?s = n_world s"
    "length (m_pbuffer (n_pbuf ?s)) = IOT_PBUFFER_MAX_COUNT"
    "m_pbuffer (n_pbuf ?s) ! i = rx_buffer (m_pbuffer (n_pbuf s) ! i) blk ?n"
    using i by (simp_all add: with_rx_def pbuf_upd_def)
  have "load_bytes (net_heap s) (Ptr blk 24) 16 = Inr dst"
    using udp_load [OF lay, of 24 "[]" 7 16 "net_heap s" blk "payload @ post"] H by (simp add: udp_fields_def del: of_nat_add)
  from data_rx_input [OF t this, of ?n NRF_SUCCESS E] len(4)
  have ev: "ble_6lowpan_evt_handler E s iface (BLE_6LO_EVT_INTERFACE_DATA_RX NRF_SUCCESS (Ptr blk 0) (of_nat ?n)) =
      c_bind (ipv6_input E ?s iface (pb_ptr i)) (\<lambda>(_, s2). Inr s2)" by (simp add: c_consts del: of_nat_add)
  let ?h = "hput (net_heap s) blk [] (host_fields ?cs (of_nat ?l)) (payload @ post)"
  have sw1: "swap_u16 (net_heap s) (Ptr blk 0) 4 = Inr ?h"
    using swap_u16_field [OF lay, of 0 4 "[]" 3 "of_nat ?l" "net_heap s" blk "payload @ post"] H
    by (simp add: udp_fields_def host_fields_def del: of_nat_add)
  have lay1: "layout (host_fields ?cs (of_nat ?l))" by (rule layout_host_fields [OF lay])
  have "(host_fields ?cs (of_nat ?l))[2 := le16 0] = host_fields ?cs (of_nat ?l)"
    by (simp add: udp_fields_def host_fields_def del: of_nat_add)
  then have sw2: "swap_u16 ?h (Ptr blk 0) 2 = Inr ?h"
    using swap_u16_field [OF lay1, of 0 2 "[]" 2 0 "net_heap s" blk "payload @ post"]
    by (simp add: udp_fields_def host_fields_def net16_def u16_hi_def u16_lo_def del: of_nat_add)
  have nh: "load ?h (Ptr blk 0) 6 = Inr 17"
    using load_field [OF lay1, of 0 6 "[]" 4 17 "net_heap s" blk "payload @ post"]
    by (simp add: udp_fields_def host_fields_def del: of_nat_add load.simps)
  let ?s1 = "set_heap ?s ?h" and ?sock = "\<lparr>socket_id = of_nat k, sock_app_data = skt_app_data (m_socket s ! k)\<rparr>"
  have s1: "net_heap ?s1 = ?h" "m_socket ?s1 = m_socket s" "n_ipv6 ?s1 = n_ipv6 s" "n_world ?s1 = n_world s"
    "length (m_pbuffer (n_pbuf ?s1)) = IOT_PBUFFER_MAX_COUNT"
    "m_pbuffer (n_pbuf ?s1) ! i = rx_buffer (m_pbuffer (n_pbuf s) ! i) blk ?n"
    using w by (simp_all add: set_heap_def)
  have "unat (of_nat ?n :: u32) = ?n" by (rule unat_of_nat_u32) (use len(4) in simp)
  moreover have "(of_nat ?n - 40 :: u32) = of_nat ?l" by simp
  moreover have "unat (of_nat ?l :: u32) = ?l" by (rule unat_of_nat_u32) (use len(4) in simp)
  ultimately have "arrived ?s1 i blk [] ?cs payload post"
    using i len(3,4) s1 by (simp add: arrived_def rx_buffer_def hput_def del: of_nat_add)
  from udp_input_delivers [OF this len(1,2), of k cb E iface] k cb s1(2) udp_result_own_checksum [OF len(1,2)] len(4)
  have ui: "udp_input E ?s1 (Some iface) (Ptr blk 0) (Some (pb_ptr i)) =
      c_bind (env_rx E cb ?sock (Ptr blk 0) (Ptr blk 40) NRF_SUCCESS (pb_ptr i)
        (delivered ?s1 i blk [] src dst sport dport ?c payload post)) (\<lambda>(_, s2). Inr (NRF_SUCCESS, s2))"
    by simp
  have "ipv6_input E ?s iface (pb_ptr i) =
      c_bind (env_rx E cb ?sock (Ptr blk 0) (Ptr blk 40) NRF_SUCCESS (pb_ptr i)
        (delivered ?s1 i blk [] src dst sport dport ?c payload post)) (\<lambda>(_, s2).
      c_bind (iot_pbuffer_free (n_pbuf s2) (Some (pb_ptr i)) True) (\<lambda>(_, pb). Inr (NRF_SUCCESS, s2\<lparr>n_pbuf := pb\<rparr>)))"
    using pb_get_ptr [OF w(5) i(1)] w sw1 sw2 nh ui s1(1)
    by (simp add: ipv6_input_def ipv6_dispatch_def rx_buffer_def c_bind_assoc case_prod_unfold c_consts del: of_nat_add load.simps)
  then have "ble_6lowpan_evt_handler E s iface (BLE_6LO_EVT_INTERFACE_DATA_RX NRF_SUCCESS (Ptr blk 0) (of_nat ?n)) =
    c_bind (env_rx E cb ?sock (Ptr blk 0) (Ptr blk 40) NRF_SUCCESS (pb_ptr i)
      (delivered ?s1 i blk [] src dst sport dport ?c payload post)) (\<lambda>(_, s2). free_rx s2 i)"
    unfolding ev by (simp add: c_bind_assoc case_prod_unfold free_rx_def del: of_nat_add)
  moreover have "app_sees (delivered ?s1 i blk [] src dst sport dport ?c payload post) i blk src sport dport payload"
    by (rule delivered_app_sees [OF len(1,2,4) i(1) s1(5)]) (simp add: s1(6) rx_buffer_def del: of_nat_add)
  ultimately show ?thesis
    using s1 by (intro exI [of _ "delivered ?s1 i blk [] src dst sport dport ?c payload post"])
      (simp add: delivered_def pb_set_def set_heap_def del: of_nat_add)
qed

text \<open>C36: A datagram crosses the link: what \<open>udp6_socket_sendto\<close> gives to the 6LoWPAN library is a packet that, when the
  library of the receiver reports it in a block of memory, passes the address check, the checksum and the
  search for the socket, and reaches the callback of the socket bound to the port, with the result success,
  the payload, the source address and the source port of the sender. After the callback the receiver frees
  the buffer and the block; the sender frees its descriptor.\<close>

theorem udp_datagram_crosses_the_link:
  assumes sender: "packet_at s i blk pre payload post" "m_event_handler (n_ipv6 s) \<noteq> None" "udp_initialized s"
      "unat (socket_id sock) < UDP6_MAX_SOCKET_COUNT" "sends_from (n_ipv6 s) (m_socket s ! unat (socket_id sock)) dst iface src"
      "local_port (m_socket s ! unat (socket_id sock)) = HTONS sport"
    and args: "length dst = 16" "dport \<noteq> 0" "payload \<noteq> []"
    and receiver: "takes r iface' j dst"
      "find_first (\<lambda>k. socket_accepts k (HTONS dport) (HTONS sport) src dst) (m_socket r) = Some k"
      "rx_cb (m_socket r ! k) = Some cb"
  shows "\<exists>bytes s' r1. udp6_socket_sendto E s (Some sock) (Some dst) dport (Some (pb_ptr i)) =
      Inr (fst (env_6lo_send E iface bytes (of_nat (length bytes)) (n_world s)), s') \<and>
    n_world s' = snd (env_6lo_send E iface bytes (of_nat (length bytes)) (n_world s)) \<and>
    allocated_length (m_pbuffer (n_pbuf s') ! i) = 0 \<and>
    ble_6lowpan_evt_handler F (set_heap r ((net_heap r)(blk' := bytes @ post'))) iface'
      (BLE_6LO_EVT_INTERFACE_DATA_RX NRF_SUCCESS (Ptr blk' 0) (of_nat (length bytes))) =
    c_bind (env_rx F cb \<lparr>socket_id = of_nat k, sock_app_data = skt_app_data (m_socket r ! k)\<rparr>
      (Ptr blk' 0) (Ptr blk' 40) NRF_SUCCESS (pb_ptr j) r1) (\<lambda>(_, r2). free_rx r2 j) \<and>
    app_sees r1 j blk' src sport dport payload"
proof -
  let ?skt = "m_socket s ! unat (socket_id sock)" and ?bytes = "udp_datagram src dst sport dport payload"
  let ?r = "set_heap r ((net_heap r)(blk' := ?bytes @ post'))"
  have i: "i < IOT_PBUFFER_MAX_COUNT" "length (m_pbuffer (n_pbuf s)) = IOT_PBUFFER_MAX_COUNT"
    and b: "pb_payload (m_pbuffer (n_pbuf s) ! i) \<noteq> NULL" "unat (pb_length (m_pbuffer (n_pbuf s) ! i)) = length payload"
    and small: "length payload + 48 < 65536"
    using sender(1) by (simp_all add: packet_at_def)
  have src: "length src = 16" using sender(5) by (simp add: sends_from_def)
  have len: "length ?bytes = length payload + 48" using src args(1) by (simp add: udp_datagram_def udp_fields_def)
  obtain e w where ew: "env_6lo_send E iface ?bytes (of_nat (length payload + 48)) (n_world s) = (e, w)" by force
  have "pb_length (m_pbuffer (n_pbuf s) ! i) \<noteq> 0" using b(2) args(3) by auto
  then have "udp6_socket_sendto E s (Some sock) (Some dst) dport (Some (pb_ptr i)) =
      udp6_transmit E s ?skt dst (HTONS dport) (pb_ptr i)"
    using pb_get_ptr [OF i(2,1)] b(1) sender(3,4) args(2) by (simp add: udp6_socket_sendto_def)
  also have "\<dots> = Inr (e, given_away s i ((net_heap s)(blk := pre @ ?bytes @ post)) w)"
    by (rule udp6_transmit_sends [OF sender(1,2,5) args(1) sender(6) ew])
  finally have send: "udp6_socket_sendto E s (Some sock) (Some dst) dport (Some (pb_ptr i)) =
      Inr (e, given_away s i ((net_heap s)(blk := pre @ ?bytes @ post)) w)" .
  have "takes ?r iface' j dst" "m_socket ?r = m_socket r" "net_heap ?r blk' = ?bytes @ post'"
    using receiver(1) by (simp_all add: takes_def set_heap_def)
  from udp_datagram_received [OF this(1,3) src args(1,3) small, unfolded this(2), OF receiver(2,3), of F] obtain r1 where
    "ble_6lowpan_evt_handler F ?r iface' (BLE_6LO_EVT_INTERFACE_DATA_RX NRF_SUCCESS (Ptr blk' 0) (of_nat (length payload + 48))) =
      c_bind (env_rx F cb \<lparr>socket_id = of_nat k, sock_app_data = skt_app_data (m_socket r ! k)\<rparr>
        (Ptr blk' 0) (Ptr blk' 40) NRF_SUCCESS (pb_ptr j) r1) (\<lambda>(_, r2). free_rx r2 j)"
    "app_sees r1 j blk' src sport dport payload"
    by blast
  moreover have "allocated_length (m_pbuffer (n_pbuf (given_away s i h w)) ! i) = 0" for h
    using i by (simp add: given_away_def pbuf_upd_def pbuffer_init_def)
  ultimately show ?thesis
    using send ew len by (intro exI [of _ ?bytes] exI [of _ "given_away s i ((net_heap s)(blk := pre @ ?bytes @ post)) w"] exI [of _ r1])
      (simp add: given_away_def del: of_nat_add)
qed

text \<open>Two devices with the addresses of the nodes 1 and 2 and a socket at the CoAP port.\<close>

definition home_state :: "u8 \<Rightarrow> ipv6_state" where
  "home_state n = link_state\<lparr>
     m_address_table := (m_address_table link_state)[0 := \<lparr>conf_addr = node_addr n, conf_state = IPV6_ADDR_STATE_PREFERRED\<rparr>],
     m_interfaces := [\<lparr>if_object = Some 0, addr_range = [0, 0xFF, 0xFF]\<rparr>]\<rparr>"

definition home_net :: "u8 \<Rightarrow> u8 list \<Rightarrow> pbuffer_t \<Rightarrow> u8 list list net" where
  "home_net n bytes b = (sample_net (sample_rx bytes b))\<lparr>n_ipv6 := home_state n,
     m_socket := (m_socket (sample_net (sample_rx bytes b)))[0 := \<lparr>local_port = HTONS 5683, remote_port = 0,
       local_addr = replicate 16 0, remote_addr = replicate 16 0, rx_cb = Some 1, skt_app_data = 0\<rparr>]\<rparr>"

lemma home_state_inv:
  "addr_inv (home_state n)" "attached (home_state n) 0" "addr_map (home_state n) (node_addr n) = Some IPV6_ADDR_STATE_PREFERRED"
  "ipv6_address_find_best_match (home_state n) (Some None) (Some r0) (Some dst) = Inr (NRF_SUCCESS, Some (Some 0), Some (node_addr n))"
proof -
  have t: "m_address_table (home_state n) = [\<lparr>conf_addr = node_addr n, conf_state = IPV6_ADDR_STATE_PREFERRED\<rparr>,
      \<lparr>conf_addr = replicate 16 0, conf_state = IPV6_ADDR_STATE_UNUSED\<rparr>, \<lparr>conf_addr = replicate 16 0, conf_state = IPV6_ADDR_STATE_UNUSED\<rparr>]"
    by (simp add: home_state_def link_state_def numeral_3_eq_3)
  have "[0..<3] = [0, 1, 2 :: nat]" by (simp add: upt_rec)
  then show "addr_inv (home_state n)"
    unfolding addr_inv_def t keys_unique_def
    by (simp add: home_state_def range_entry_def addr_key_def c_consts less_Suc_eq numeral_3_eq_3)
  show "attached (home_state n) 0" by (simp add: attached_def home_state_def link_state_def)
  show "addr_map (home_state n) (node_addr n) = Some IPV6_ADDR_STATE_PREFERRED"
    by (simp add: addr_map_def table_map_def t addr_key_def)
  have "find_first (\<lambda>it. if_object it \<noteq> None) [\<lparr>if_object = Some (0 :: nat), addr_range = [0, 0xFF, 0xFF]\<rparr>] = Some 0"
    by (simp add: find_first_Some)
  then show "ipv6_address_find_best_match (home_state n) (Some None) (Some r0) (Some dst) = Inr (NRF_SUCCESS, Some (Some 0), Some (node_addr n))"
    unfolding ipv6_address_find_best_match_def interface_find_def t
    by (simp add: home_state_def link_state_def c_consts arr_get_def Let_def)
qed

definition idle_pbuffer :: pbuffer_t where
  "idle_pbuffer = \<lparr>pb_type = 0, pb_memory = NULL, pb_payload = NULL, pb_length = 0, allocated_length = 0\<rparr>"

definition tx_pbuffer :: "nat \<Rightarrow> pbuffer_t" where
  "tx_pbuffer n = \<lparr>pb_type = UDP6_PACKET_TYPE, pb_memory = Ptr 0 0, pb_payload = Ptr 0 48, pb_length = of_nat n, allocated_length = 128\<rparr>"

lemma home_net_simps [simp]:
  "n_ipv6 (home_net n bytes b) = home_state n" "n_pbuf (home_net n bytes b) = sample_rx bytes b" "udp_initialized (home_net n bytes b)"
  "m_event_handler (home_state n) \<noteq> None" "n_world (home_net n bytes b) = []"
  "m_socket (home_net n bytes b) ! 0 = \<lparr>local_port = HTONS 5683, remote_port = 0, local_addr = replicate 16 0,
     remote_addr = replicate 16 0, rx_cb = Some 1, skt_app_data = 0\<rparr>" "length (m_socket (home_net n bytes b)) = 3"
  by (simp_all add: home_net_def sample_net_def home_state_def link_state_def)

lemma home_net_takes:
  assumes "length bytes = 128"
  shows "takes (home_net n bytes idle_pbuffer) 0 0 (node_addr n)"
proof -
  have "addr_map (home_state n) (node_addr n) \<noteq> None" by (simp add: home_state_inv(3))
  moreover from this have "dom (addr_map (home_state n)) \<noteq> {}" by blast
  ultimately have "accepts_address (home_state n) (node_addr n)" by (simp add: accepts_address_def)
  moreover have "find_first (\<lambda>b. allocated_length b = 0) (m_pbuffer (sample_rx bytes idle_pbuffer)) = Some 0"
    using sample_rx_pool(5,6) [OF assms, where b = idle_pbuffer] by (simp add: find_first_Some c_consts) (simp add: idle_pbuffer_def)
  ultimately show ?thesis
    using home_state_inv(1,2) sample_rx_pool [OF assms, where b = idle_pbuffer] by (simp add: takes_def)
qed

lemma home_net_packet:
  assumes "length payload \<le> 80"
  shows "packet_at (home_net n (replicate 48 0 @ payload @ replicate (80 - length payload) 0) (tx_pbuffer (length payload))) 0 0 []
    payload (replicate (80 - length payload) 0)"
proof -
  let ?bytes = "replicate 48 0 @ payload @ replicate (80 - length payload) 0 :: u8 list"
  have "length ?bytes = 128" using assms by simp
  note p = sample_rx_pool [OF this, where b = "tx_pbuffer (length payload)"]
  have "unat (of_nat (length payload) :: u32) = length payload" by (rule unat_of_nat_u32) (use assms in simp)
  then show ?thesis
    using p(4-7) assms by (auto simp: packet_at_def tx_pbuffer_def c_consts intro!: exI [of _ "replicate 48 0"])
qed

text \<open>A packet from node 1 to node 2.\<close>

theorem udp_datagram_crosses_the_link_witness:
  "\<exists>s' r1. udp6_socket_sendto sample_env (home_net 1 (replicate 48 0 @ [1, 2, 3] @ replicate 77 0) (tx_pbuffer 3))
      (Some \<lparr>socket_id = 0, sock_app_data = 0\<rparr>) (Some (node_addr 2)) 5683 (Some (pb_ptr 0)) = Inr (NRF_SUCCESS, s') \<and>
    ble_6lowpan_evt_handler sample_env
      (set_heap (home_net 2 (replicate 128 0) idle_pbuffer) ((net_heap (home_net 2 (replicate 128 0) idle_pbuffer))(0 := hd (n_world s') @ [])))
      0 (BLE_6LO_EVT_INTERFACE_DATA_RX NRF_SUCCESS (Ptr 0 0) (of_nat (length (hd (n_world s'))))) = free_rx r1 0 \<and>
    app_sees r1 0 0 (node_addr 1) 5683 5683 [1, 2, 3]"
proof -
  let ?s = "home_net 1 (replicate 48 0 @ [1, 2, 3] @ replicate 77 0) (tx_pbuffer 3)" and ?r = "home_net 2 (replicate 128 0) idle_pbuffer"
  let ?sock = "\<lparr>socket_id = 0, sock_app_data = 0\<rparr> :: udp6_socket_t"
  have p: "packet_at ?s 0 0 [] [1, 2, 3] (replicate 77 0)" using home_net_packet [of "[1, 2, 3]" 1] by (simp add: eval_nat_numeral)
  have any: "IPV6_ADDR_ANY = replicate 16 0" by (rule IPV6_ADDR_ANY_def)
  have src: "sends_from (n_ipv6 ?s) (m_socket ?s ! unat (socket_id ?sock)) (node_addr 2) 0 (node_addr 1)"
    using home_state_inv(4) by (simp add: sends_from_def any) (simp add: node_addr_def)
  have t: "takes ?r 0 0 (node_addr 2)" by (rule home_net_takes) simp
  have k: "find_first (\<lambda>k. socket_accepts k (HTONS 5683) (HTONS 5683) (node_addr 1) (node_addr 2)) (m_socket ?r) = Some 0"
    by (simp add: find_first_Some socket_accepts_def any)
  have len: "length (node_addr 2) = 16" by (simp add: node_addr_def)
  have "m_event_handler (n_ipv6 ?s) \<noteq> None" "udp_initialized ?s" "unat (socket_id ?sock) < UDP6_MAX_SOCKET_COUNT"
    "local_port (m_socket ?s ! unat (socket_id ?sock)) = HTONS 5683" by (simp_all add: c_consts del: HTONS_bytes)
  from udp_datagram_crosses_the_link [OF p this(1-3) src this(4) len _ _ t k, of 1 sample_env sample_env 0 "[]"]
  show ?thesis by (auto simp: sample_env_def)
qed

text \<open>A packet for another address is dropped: the block of the packet is returned to the memory manager and
  nothing else changes. Only the addresses in the table, and for a device with an address the groups of all
  nodes and of MLDv2 routers, are taken.\<close>

theorem ipv6_foreign_packet_dropped:
  assumes "addr_inv (n_ipv6 s)" "attached (n_ipv6 s) iface" "\<not> accepts_address (n_ipv6 s) dst"
    and "load_bytes (net_heap s) (Ptr blk 24) 16 = Inr dst"
    and "pool_inv (pb_mm (n_pbuf s))" "Ptr blk 0 \<in> mm_live (pb_mm (n_pbuf s))"
  shows "\<exists>mm. ble_6lowpan_evt_handler E s iface (BLE_6LO_EVT_INTERFACE_DATA_RX r (Ptr blk 0) n) =
      Inr (s\<lparr>n_pbuf := (n_pbuf s)\<lparr>pb_mm := mm\<rparr>\<rparr>) \<and>
    mm_live mm = mm_live (pb_mm (n_pbuf s)) - {Ptr blk 0} \<and> pool_inv mm"
proof -
  obtain e mm where f: "nrf51_sdk_mem_free (pb_mm (n_pbuf s)) (Ptr blk 0) = (e, mm)" by force
  moreover have "e = NRF_SUCCESS" using mem_free_live_succeeds [OF assms(5,6)] f by simp
  ultimately show ?thesis
    using data_rx_foreign [OF assms(1-4), of E r n] mem_free_live [OF assms(5)] mem_free_inv [OF assms(5)]
    by (intro exI [of _ mm]) (simp add: net_mem_free_def)
qed

theorem ipv6_foreign_packet_dropped_witness:
  "\<exists>mm. ble_6lowpan_evt_handler sample_env (home_net 2 (replicate 128 0) idle_pbuffer) 0
      (BLE_6LO_EVT_INTERFACE_DATA_RX NRF_SUCCESS (Ptr 0 0) 60) =
      Inr ((home_net 2 (replicate 128 0) idle_pbuffer)\<lparr>n_pbuf := (sample_rx (replicate 128 0) idle_pbuffer)\<lparr>pb_mm := mm\<rparr>\<rparr>)"
proof -
  let ?s = "home_net 2 (replicate 128 0) idle_pbuffer"
  have "length (replicate 128 0 :: u8 list) = 128" by simp
  note p = sample_rx_pool [OF this, where b = idle_pbuffer]
  have "hd (node_addr 2) \<noteq> hd (replicate 16 0)" by (simp add: node_addr_def)
  then have ne: "node_addr 2 \<noteq> replicate 16 0" by metis
  have "addr_map (home_state 2) (replicate 16 0) = None"
    by (simp add: addr_map_def table_map_def home_state_def link_state_def addr_key_def numeral_3_eq_3 ne)
  moreover have "hd (replicate 16 0 :: u8 list) \<noteq> hd ([0xFF, 0x02] @ xs)" for xs by simp
  then have "replicate 16 0 \<noteq> [0xFF, 0x02 :: u8] @ xs" for xs by metis
  ultimately have "\<not> accepts_address (n_ipv6 ?s) (replicate 16 0)"
    unfolding accepts_address_def IPV6_ADDRESS_IS_MLDV2_MCAST_def IPV6_ADDRESS_IS_ALL_NODE_def by simp
  moreover have "load_bytes (net_heap ?s) (Ptr 0 24) 16 = Inr (replicate 16 0)"
    using p(7) by (simp add: load_bytes.simps arr_read_def)
  ultimately show ?thesis
    using ipv6_foreign_packet_dropped [of ?s 0 "replicate 16 0" 0 sample_env NRF_SUCCESS 60] home_state_inv(1,2) p(1,3) by auto
qed

end
