(* ===== verification/Ipv6_Interface.thy ===== *)
theory Ipv6_Interface
  imports Ipv6_Input
begin

text \<open>
  The life of an interface: initialisation of the stack, the events that add and delete the interface,
  and all that happens in between. The tables of \<^verbatim>\<open>ipv6.c\<close> stay consistent whatever packets arrive.
\<close>

section \<open>The two states of the link\<close>

definition ip_down :: "ipv6_state \<Rightarrow> bool" where
  "ip_down s \<longleftrightarrow> addr_inv s \<and> addr_map s = (\<lambda>_. None) \<and> m_interfaces_count s = 0 \<and>
     if_object (m_interfaces s ! 0) = None \<and> m_event_handler s \<noteq> None"

definition ip_up :: "ipv6_state \<Rightarrow> nat \<Rightarrow> bool" where
  "ip_up s iface \<longleftrightarrow> addr_inv s \<and> attached s iface \<and> m_interfaces_count s = 1 \<and>
     if_object (m_interfaces s ! 0) = Some iface \<and> m_event_handler s \<noteq> None"

lemma addr_inv_cong:
  "addr_inv s \<Longrightarrow> m_address_table t = m_address_table s \<Longrightarrow> length (m_interfaces t) = length (m_interfaces s) \<Longrightarrow>
   addr_range (m_interfaces t ! 0) = addr_range (m_interfaces s ! 0) \<Longrightarrow> addr_inv t"
  by (simp add: addr_inv_def)

lemma interface_add_up:
  assumes "ip_down s"
  shows "\<exists>s'. interface_add s iface = Inr (NRF_SUCCESS, Some 0, s') \<and> ip_up (s'\<lparr>m_interfaces_count := m_interfaces_count s' + 1\<rparr>) iface \<and>
    addr_map s' = [IPV6_CREATE_LINK_LOCAL_FROM_EUI64 (local_eui64 (if_objects s iface)) \<mapsto> IPV6_ADDR_STATE_PREFERRED]"
proof -
  have s: "addr_inv s" "addr_map s = (\<lambda>_. None)" "m_interfaces_count s = 0" "if_object (m_interfaces s ! 0) = None"
    "m_event_handler s \<noteq> None" using assms by (simp_all add: ip_down_def)
  have len: "length (m_interfaces s) = 1" by (rule addr_inv_len [OF s(1)])
  have first: "find_first (\<lambda>it. if_object it = None) (m_interfaces s) = Some 0" using len s(4) by (simp add: find_first_Some)
  let ?a = "IPV6_CREATE_LINK_LOCAL_FROM_EUI64 (local_eui64 (if_objects s iface))"
  let ?c = "\<lparr>conf_addr = ?a, conf_state = IPV6_ADDR_STATE_PREFERRED\<rparr>"
  let ?s1 = "s\<lparr>m_interfaces := (m_interfaces s)[0 := (m_interfaces s ! 0)\<lparr>if_object := Some iface\<rparr>],
               if_objects := (if_objects s)(iface := (if_objects s iface)\<lparr>p_upper_stack := 0\<rparr>)\<rparr>"
  have inv1: "addr_inv ?s1" by (rule addr_inv_cong [OF s(1)]) (use len in simp_all)
  have att1: "attached ?s1 iface" by (simp add: attached_def)
  have m1: "addr_map ?s1 = (\<lambda>_. None)" using s(2) by (auto simp: addr_map_def fun_eq_iff)
  have "conf_state ?c \<noteq> IPV6_ADDR_STATE_UNUSED" by simp
  from addr_set_updates [OF inv1 att1 this] m1 obtain t where
    t: "addr_set ?s1 iface ?c = Inr (NRF_SUCCESS, t)" "addr_inv t" "if_objects t = if_objects ?s1" "m_event_handler t = m_event_handler s"
      "m_interfaces_count t = 0" "map if_object (m_interfaces t) = map if_object (m_interfaces ?s1)"
      "addr_map t = [?a \<mapsto> IPV6_ADDR_STATE_PREFERRED]"
    using s(3) by (auto simp: c_consts)
  have "map if_object (m_interfaces t) ! 0 = Some iface" unfolding t(6) using len by simp
  then have "if_object (m_interfaces t ! 0) = Some iface" using addr_inv_len(2) [OF t(2)] by simp
  moreover have "addr_inv (t\<lparr>m_interfaces_count := 1\<rparr>)" by (rule addr_inv_cong [OF t(2)]) simp_all
  moreover have "attached t iface" using t(3) by (simp add: attached_def)
  ultimately have "ip_up (t\<lparr>m_interfaces_count := 1\<rparr>) iface" using t(4) s(5) by (simp add: ip_up_def attached_def)
  then show ?thesis
    using first t(1,5,7) by (intro exI [of _ t]) (simp add: interface_add_def Let_def)
qed

text \<open>What the operations on the tables leave alone.\<close>

definition same_frame :: "ipv6_state \<Rightarrow> ipv6_state \<Rightarrow> bool" where
  "same_frame s s' \<longleftrightarrow> m_interfaces_count s' = m_interfaces_count s \<and> m_event_handler s' = m_event_handler s \<and>
     if_objects s' = if_objects s \<and> map if_object (m_interfaces s') = map if_object (m_interfaces s)"

lemma same_frame_refl [simp]: "same_frame s s"
  by (simp add: same_frame_def)

lemma same_frame_trans: "same_frame s t \<Longrightarrow> same_frame t u \<Longrightarrow> same_frame s u"
  by (simp add: same_frame_def)

lemma addr_free_frame: "addr_free s i b = Inr s' \<Longrightarrow> same_frame s s'"
  by (auto simp: addr_free_def same_frame_def c_bind_eq_Inr split: if_splits)

lemma range_upd_frame: "same_frame s (range_upd s n i a)"
  by (cases "n < length (m_interfaces s)") (simp_all add: range_upd_def same_frame_def map_update list_update_same_conv list_update_beyond)

lemma interface_reset_loop_frame: "interface_reset_loop s n is = Inr s' \<Longrightarrow> same_frame s s'"
proof (induction "is" arbitrary: s)
  case (Cons i "is")
  from Cons.prems show ?case
    by (auto simp: c_bind_eq_Inr split: if_splits
        intro: Cons.IH same_frame_trans [OF range_upd_frame same_frame_trans [OF addr_free_frame Cons.IH]])
qed simp

lemma address_remove_loop_frame: "address_remove_loop s n a is = Inr (e, s') \<Longrightarrow> same_frame s s'"
proof (induction "is" arbitrary: s)
  case (Cons i "is")
  from Cons.prems show ?case
    by (auto simp: c_bind_eq_Inr split: if_splits intro: Cons.IH same_frame_trans [OF range_upd_frame addr_free_frame])
qed simp

lemma interface_delete_down:
  assumes "ip_up s iface"
  shows "\<exists>s'. interface_delete (s\<lparr>m_interfaces_count := m_interfaces_count s - 1\<rparr>) 0 = Inr s' \<and> ip_down s'"
proof -
  let ?s = "s\<lparr>m_interfaces_count := 0\<rparr>"
  have s: "addr_inv s" "m_interfaces_count s = 1" "m_event_handler s \<noteq> None" using assms by (simp_all add: ip_up_def)
  have "addr_inv ?s" by (rule addr_inv_cong [OF s(1)]) simp_all
  from interface_delete_clears [OF this] obtain t where
    t: "interface_delete ?s 0 = Inr t" "addr_inv t" "addr_map t = (\<lambda>_. None)" "if_object (m_interfaces t ! 0) = None"
    by auto
  moreover from t(1) have "m_interfaces_count t = 0" "m_event_handler t = m_event_handler s"
    by (auto simp: interface_delete_def interface_reset_def c_bind_eq_Inr same_frame_def dest!: interface_reset_loop_frame)
  ultimately show ?thesis using s by (intro exI [of _ t]) (simp add: ip_down_def)
qed

section \<open>What happens while the interface is up\<close>

text \<open>
  \<open>n_ipv6\<close> is changed by the operations on addresses only; sending leaves it alone.
\<close>

lemma net_frames [simp]:
  "n_ipv6 (pb_set s p f) = n_ipv6 s" "n_ipv6 (set_heap s h) = n_ipv6 s" "n_ipv6 (net_mem_free s q) = n_ipv6 s"
  by (simp_all add: pb_set_def set_heap_def net_mem_free_def)

lemma ipv6_send_frame: "ipv6_send E s i p = Inr (e, s') \<Longrightarrow> n_ipv6 s' = n_ipv6 s"
  by (auto simp: ipv6_send_def c_bind_eq_Inr Let_def case_prod_unfold split: if_splits option.splits)

lemma icmp_transmit_frame: "icmp_transmit E s h i p = Inr (e, s') \<Longrightarrow> n_ipv6 s' = n_ipv6 s"
  by (auto simp: icmp_transmit_def c_bind_eq_Inr Let_def dest!: ipv6_send_frame)

lemma echo_reply_frame: "echo_reply_send E s i p q = Inr s' \<Longrightarrow> n_ipv6 s' = n_ipv6 s"
  by (auto simp: echo_reply_send_def c_bind_eq_Inr Let_def case_prod_unfold split: if_splits dest!: icmp_transmit_frame)

lemma address_set_up:
  assumes "ip_up s iface" "ipv6_address_set s (Some iface) (Some c) = Inr (e, s')" "conf_state c \<noteq> IPV6_ADDR_STATE_UNUSED"
  shows "ip_up s' iface"
proof -
  have s: "addr_inv s" "attached s iface" "m_interfaces_count s = 1" "if_object (m_interfaces s ! 0) = Some iface" "m_event_handler s \<noteq> None"
    using assms(1) by (simp_all add: ip_up_def)
  have set: "addr_set s iface c = Inr (e, s')" using assms(2) s(5) by (simp add: ipv6_address_set_def)
  from addr_set_updates [OF s(1,2) assms(3)] set have
    t: "addr_inv s'" "if_objects s' = if_objects s" "m_event_handler s' = m_event_handler s"
      "m_interfaces_count s' = m_interfaces_count s" "map if_object (m_interfaces s') = map if_object (m_interfaces s)" by auto
  then have "map if_object (m_interfaces s') ! 0 = map if_object (m_interfaces s) ! 0" by simp
  then have "if_object (m_interfaces s' ! 0) = Some iface"
    using addr_inv_len(2) [OF s(1)] addr_inv_len(2) [OF t(1)] s(4) by simp
  then show ?thesis using t s by (simp add: ip_up_def attached_def)
qed

lemma address_remove_up:
  assumes "ip_up s iface" "ipv6_address_remove s (Some iface) (Some a) = Inr (e, s')"
  shows "ip_up s' iface"
proof -
  have s: "addr_inv s" "attached s iface" "m_interfaces_count s = 1" "if_object (m_interfaces s ! 0) = Some iface" "m_event_handler s \<noteq> None"
    using assms(1) by (simp_all add: ip_up_def)
  have loop: "address_remove_loop s 0 a [0..<IPV6_MAX_ADDRESS_PER_INTERFACE] = Inr (e, s')"
    using assms(2) s(2,5) by (simp add: ipv6_address_remove_def attached_def)
  from addr_remove_deletes [OF s(1), of a] loop have t: "addr_inv s'" by auto
  from address_remove_loop_frame [OF loop] have f: "m_interfaces_count s' = 1" "m_event_handler s' = m_event_handler s"
    "if_objects s' = if_objects s" "map if_object (m_interfaces s') = map if_object (m_interfaces s)"
    using s(3) by (simp_all add: same_frame_def)
  then have "map if_object (m_interfaces s') ! 0 = map if_object (m_interfaces s) ! 0" by simp
  then have "if_object (m_interfaces s' ! 0) = Some iface"
    using addr_inv_len(2) [OF s(1)] addr_inv_len(2) [OF t] s(4) by simp
  then show ?thesis using t f s by (simp add: ip_up_def attached_def)
qed

lemma ra_pio_up: "ra_pio s iface p = Inr (e, s') \<Longrightarrow> ip_up (n_ipv6 s) iface \<Longrightarrow> ip_up (n_ipv6 s') iface"
  by (auto simp: ra_pio_def c_bind_eq_Inr Let_def split: if_splits
      elim: address_remove_up address_set_up [where c = "\<lparr>conf_addr = a, conf_state = IPV6_ADDR_STATE_PREFERRED\<rparr>" for a, simplified])

lemma ra_6co_frame: "ra_6co s iface p = Inr s' \<Longrightarrow> n_ipv6 s' = n_ipv6 s"
  by (auto simp: ra_6co_def c_bind_eq_Inr Let_def)

lemma ra_option_loop_up:
  "ra_option_loop n s iface p len off = Inr (e, s') \<Longrightarrow> ip_up (n_ipv6 s) iface \<Longrightarrow> ip_up (n_ipv6 s') iface"
proof (induction n arbitrary: s off)
  case (Suc n)
  from Suc.prems show ?case
    by (auto simp: c_bind_eq_Inr Let_def split: if_splits option.splits
        dest: Suc.IH ra_pio_up ra_6co_frame) (metis Suc.IH ra_pio_up ra_6co_frame)+
qed simp

lemma ndisc_input_up: "ndisc_input s iface h t p = Inr (e, s') \<Longrightarrow> ip_up (n_ipv6 s) iface \<Longrightarrow> ip_up (n_ipv6 s') iface"
  by (auto simp: ndisc_input_def ra_input_def c_bind_eq_Inr split: if_split_asm dest!: ra_option_loop_up)

text \<open>A result that satisfies a predicate where there is one, computed rule by rule.\<close>

definition leaves :: "('a \<Rightarrow> bool) \<Rightarrow> fault + 'a \<Rightarrow> bool" where
  "leaves P m \<longleftrightarrow> (\<forall>x. m = Inr x \<longrightarrow> P x)"

lemma leaves_intros:
  "P x \<Longrightarrow> leaves P (Inr x)"
  "(\<And>y. m = Inr y \<Longrightarrow> leaves P (k y)) \<Longrightarrow> leaves P (c_bind m k)"
  "leaves P m1 \<Longrightarrow> leaves P m2 \<Longrightarrow> leaves P (if b then m1 else m2)"
  by (auto simp: leaves_def c_bind_eq_Inr)

lemma icmp_process_up:
  assumes "icmp_process s iface h i p = Inr (e, s')" "ip_up (n_ipv6 s) iface"
  shows "ip_up (n_ipv6 s') iface"
proof -
  have "leaves (\<lambda>(e, s'). ip_up (n_ipv6 s') iface) (icmp_process s iface h i p)"
    unfolding icmp_process_def Let_def
    by (intro leaves_intros) (use assms(2) in \<open>simp_all add: leaves_def ndisc_input_up\<close>)
  then show ?thesis using assms(1) by (simp add: leaves_def)
qed

lemma icmp6_input_up:
  "icmp6_input E s (Some iface) h (Some p) = Inr (e, s') \<Longrightarrow> ip_up (n_ipv6 s) iface \<Longrightarrow> ip_up (n_ipv6 s') iface"
  by (auto simp: icmp6_input_def c_bind_eq_Inr Let_def split: if_splits dest!: icmp_process_up echo_reply_frame)

text \<open>
  The contract of the application: its callbacks return, and use the operations on addresses only to
  change the tables, so that the interface stays up.
\<close>

definition app_keeps :: "'w net_env \<Rightarrow> nat \<Rightarrow> bool" where
  "app_keeps E iface \<longleftrightarrow>
     (\<forall>cb sock h u r p s. ip_up (n_ipv6 s) iface \<longrightarrow> (\<exists>e s'. env_rx E cb sock h u r p s = Inr (e, s') \<and> ip_up (n_ipv6 s') iface)) \<and>
     (\<forall>cb ev s. ip_up (n_ipv6 s) iface \<longrightarrow> (\<exists>s'. env_evt E cb iface ev s = Inr s' \<and> ip_up (n_ipv6 s') iface))"

lemma app_rx: "app_keeps E iface \<Longrightarrow> env_rx E cb sock h u r p s = Inr (e, s') \<Longrightarrow> ip_up (n_ipv6 s) iface \<Longrightarrow> ip_up (n_ipv6 s') iface"
proof -
  assume a: "app_keeps E iface" "env_rx E cb sock h u r p s = Inr (e, s')" "ip_up (n_ipv6 s) iface"
  then obtain e2 s2 where "env_rx E cb sock h u r p s = Inr (e2, s2)" "ip_up (n_ipv6 s2) iface"
    unfolding app_keeps_def by meson
  then show ?thesis using a(2) by simp
qed

lemma app_evt: "app_keeps E iface \<Longrightarrow> env_evt E cb iface ev s = Inr s' \<Longrightarrow> ip_up (n_ipv6 s) iface \<Longrightarrow> ip_up (n_ipv6 s') iface"
proof -
  assume a: "app_keeps E iface" "env_evt E cb iface ev s = Inr s'" "ip_up (n_ipv6 s) iface"
  then obtain s2 where "env_evt E cb iface ev s = Inr s2" "ip_up (n_ipv6 s2) iface"
    unfolding app_keeps_def by meson
  then show ?thesis using a(2) by simp
qed

lemma app_evt_returns:
  assumes "app_keeps E iface" "ip_up (n_ipv6 s) iface"
  obtains s' where "notify E s iface ev = Inr s'" "ip_up (n_ipv6 s') iface"
proof -
  obtain cb where cb: "m_event_handler (n_ipv6 s) = Some cb" using assms(2) by (auto simp: ip_up_def)
  obtain s' where "env_evt E cb iface ev s = Inr s'" "ip_up (n_ipv6 s') iface"
    using assms unfolding app_keeps_def by meson
  then show thesis using that cb by (simp add: notify_def)
qed

lemma notify_up: "app_keeps E iface \<Longrightarrow> notify E s iface ev = Inr s' \<Longrightarrow> ip_up (n_ipv6 s) iface \<Longrightarrow> ip_up (n_ipv6 s') iface"
  by (auto simp: notify_def split: option.splits dest: app_evt)

lemma udp_input_up:
  assumes "app_keeps E iface" "udp_input E s (Some iface) h (Some p) = Inr (e, s')" "ip_up (n_ipv6 s) iface"
  shows "ip_up (n_ipv6 s') iface"
  using assms(2,3)
  by (auto simp: udp_input_def c_bind_eq_Inr Let_def split: if_splits option.splits dest!: app_rx [OF assms(1)])

lemma ipv6_dispatch_up:
  assumes "app_keeps E iface" "ipv6_dispatch E s iface h p = Inr (e, s')" "ip_up (n_ipv6 s) iface"
  shows "ip_up (n_ipv6 s') iface"
  using assms(2,3)
  by (auto simp: ipv6_dispatch_def app_notify_rx_data_def c_bind_eq_Inr split: if_splits
      dest!: icmp6_input_up udp_input_up [OF assms(1)] notify_up [OF assms(1)])

lemma ipv6_input_up:
  assumes "app_keeps E iface" "ipv6_input E s iface p = Inr (e, s')" "ip_up (n_ipv6 s) iface"
  shows "ip_up (n_ipv6 s') iface"
  using assms(2,3) by (auto simp: ipv6_input_def c_bind_eq_Inr dest!: ipv6_dispatch_up [OF assms(1)])

lemma data_rx_up:
  assumes "app_keeps E iface" "ble_6lowpan_evt_handler E s iface (BLE_6LO_EVT_INTERFACE_DATA_RX r p n) = Inr s'"
    and "ip_up (n_ipv6 s) iface"
  shows "ip_up (n_ipv6 s') iface"
  using assms(2,3)
  by (auto simp: ble_6lowpan_evt_handler_def evt_data_rx_def c_bind_eq_Inr case_prod_unfold Let_def split: if_splits
      dest!: ipv6_input_up [OF assms(1)])

section \<open>The interface comes and goes\<close>

lemma interface_add_event:
  assumes "app_keeps E iface" "ip_down (n_ipv6 s)"
  shows "\<exists>s'. ble_6lowpan_evt_handler E s iface BLE_6LO_EVT_INTERFACE_ADD = Inr s' \<and> ip_up (n_ipv6 s') iface"
proof -
  from interface_add_up [OF assms(2), of iface] obtain t where
    t: "interface_add (n_ipv6 s) iface = Inr (NRF_SUCCESS, Some 0, t)" "ip_up (t\<lparr>m_interfaces_count := m_interfaces_count t + 1\<rparr>) iface"
    by blast
  let ?s = "s\<lparr>n_ipv6 := t\<lparr>m_interfaces_count := m_interfaces_count t + 1\<rparr>,
              n_ctx := snd (iot_context_manager_table_alloc (n_ctx s) (Some iface))\<rparr>"
  have "ip_up (n_ipv6 ?s) iface" using t(2) by simp
  from app_evt_returns [OF assms(1) this, of IPV6_EVT_INTERFACE_ADD] obtain s' where
    "notify E ?s iface IPV6_EVT_INTERFACE_ADD = Inr s'" "ip_up (n_ipv6 s') iface" by blast
  then show ?thesis
    using t(1) by (simp add: ble_6lowpan_evt_handler_def evt_interface_add_def app_notify_interface_add_def)
qed

lemma interface_delete_event:
  assumes "app_keeps E iface" "ip_up (n_ipv6 s) iface"
  shows "\<exists>s'. ble_6lowpan_evt_handler E s iface BLE_6LO_EVT_INTERFACE_DELETE = Inr s' \<and> ip_down (n_ipv6 s')"
proof -
  obtain s1 where s1: "notify E s iface IPV6_EVT_INTERFACE_DELETE = Inr s1" "ip_up (n_ipv6 s1) iface"
    by (rule app_evt_returns [OF assms])
  from interface_delete_down [OF s1(2)] obtain t where
    t: "interface_delete ((n_ipv6 s1)\<lparr>m_interfaces_count := m_interfaces_count (n_ipv6 s1) - 1\<rparr>) 0 = Inr t" "ip_down t" by blast
  have "unat (interface_get_by_6lo (n_ipv6 s) iface) = 0"
    using assms(2) by (simp add: interface_get_by_6lo_def ip_up_def attached_def)
  then show ?thesis
    using s1(1) t
    by (simp add: ble_6lowpan_evt_handler_def evt_interface_delete_def app_notify_interface_delete_def Let_def c_consts)
qed

section \<open>Initialisation\<close>

text \<open>The tables have the sizes of their declarations.\<close>

definition static_tables :: "'w net \<Rightarrow> bool" where
  "static_tables s \<longleftrightarrow> length (m_address_table (n_ipv6 s)) = IPV6_MAX_ADDRESS_COUNT \<and>
     length (m_interfaces (n_ipv6 s)) = IPV6_MAX_INTERFACE \<and>
     length (addr_range (m_interfaces (n_ipv6 s) ! 0)) = IPV6_MAX_ADDRESS_PER_INTERFACE \<and>
     length (m_pbuffer (n_pbuf s)) = IOT_PBUFFER_MAX_COUNT \<and> pool_heap (net_heap s) \<and>
     length (m_socket s) = UDP6_MAX_SOCKET_COUNT"

lemma interface_reset_loop_any:
  assumes "length (m_address_table s) = 3" "length (m_interfaces s) = 1" "length (addr_range (m_interfaces s ! 0)) = 3"
    and "\<forall>i \<in> set is. i < 3"
  shows "\<exists>s'. interface_reset_loop s 0 is = Inr s' \<and> length (m_address_table s') = 3 \<and> length (m_interfaces s') = 1 \<and>
    length (addr_range (m_interfaces s' ! 0)) = 3 \<and>
    (\<forall>k < 3. addr_range (m_interfaces s' ! 0) ! k = (if k \<in> set is then 0xFF else addr_range (m_interfaces s ! 0) ! k))"
  using assms
proof (induction "is" arbitrary: s)
  case (Cons i "is")
  let ?s1 = "range_upd s 0 i IPV6_INVALID_ADDR_INDEX"
  have i: "i < 3" and "is": "\<forall>i \<in> set is. i < 3" using Cons.prems(4) by simp_all
  have s1: "length (m_address_table ?s1) = 3" "length (m_interfaces ?s1) = 1" "length (addr_range (m_interfaces ?s1 ! 0)) = 3"
    "k < 3 \<Longrightarrow> addr_range (m_interfaces ?s1 ! 0) ! k = (if k = i then 0xFF else addr_range (m_interfaces s ! 0) ! k)" for k
    using Cons.prems(1-3) by (simp_all add: range_upd_def nth_list_update c_consts)
  obtain t where t: "addr_free ?s1 i True = Inr t" "m_interfaces t = m_interfaces ?s1" "length (m_address_table t) = 3"
    using i s1(1) by (cases "list_ex (\<lambda>it. list_ex (\<lambda>a. unat a = i) (addr_range it)) (m_interfaces ?s1)")
      (simp_all add: addr_free_def)
  show ?case
  proof (cases "addr_range (m_interfaces s ! 0) ! i = IPV6_INVALID_ADDR_INDEX")
    case True
    then show ?thesis using Cons.IH [OF Cons.prems(1-3) "is"] i Cons.prems(3) by (auto simp: arr_get_def c_consts)
  next
    case False
    then show ?thesis using Cons.IH [of t] t s1 "is" i Cons.prems(3) by (auto simp: arr_get_def)
  qed
qed auto

lemma init_addresses_all:
  assumes "length (m_address_table s) = 3"
  shows "init_addresses s [0..<IPV6_MAX_ADDRESS_COUNT] = Inr (s\<lparr>m_address_table := map addr_clear (m_address_table s)\<rparr>)"
proof -
  obtain a b c where t: "m_address_table s = [a, b, c]" using assms by (auto simp: numeral_3_eq_3 length_Suc_conv)
  have "[0..<IPV6_MAX_ADDRESS_COUNT] = [0, 1, 2]" by (simp add: c_consts upt_rec)
  then show ?thesis by (simp add: addr_free_def t arr_upd_def)
qed

lemma mem_init_live: "nrf51_sdk_mem_init mm = (e, mm') \<Longrightarrow> mm_live mm' = {}"
  using mem_init_inv [of mm e mm'] mem_init_pool_nth [of mm e mm'] by (auto simp: mm_live_iff pool_inv_def)

text \<open>What the application can rely on after \<open>ipv6_init\<close>.\<close>

definition stack_ready :: "'w net \<Rightarrow> nat \<Rightarrow> bool" where
  "stack_ready s h \<longleftrightarrow> ip_down (n_ipv6 s) \<and> m_event_handler (n_ipv6 s) = Some h \<and> pbuf_inv (n_pbuf s) \<and>
     (\<forall>b \<in> set (m_pbuffer (n_pbuf s)). allocated_length b = 0) \<and> mm_live (pb_mm (n_pbuf s)) = {} \<and>
     udp_initialized s \<and> icmp_initialized s \<and> cm_initialization_state (n_ctx s) \<and>
     length (m_socket s) = UDP6_MAX_SOCKET_COUNT \<and> (\<forall>k \<in> set (m_socket s). socket_init k = k)"

lemma ipv6_init_ready:
  assumes "static_tables s" "env_6lo_init E eui64 (n_world s) = (e, w)"
  shows "\<exists>s'. ipv6_init E s (Some \<lparr>p_eui64 = Some eui64, init_event_handler = Some h\<rparr>) = Inr (e, s') \<and>
    stack_ready s' h \<and> n_world s' = w"
proof -
  have st: "length (m_address_table (n_ipv6 s)) = 3" "length (m_interfaces (n_ipv6 s)) = 1"
    "length (addr_range (m_interfaces (n_ipv6 s) ! 0)) = 3" "length (m_pbuffer (n_pbuf s)) = IOT_PBUFFER_MAX_COUNT" "pool_heap (net_heap s)"
    "length (m_socket s) = UDP6_MAX_SOCKET_COUNT"
    using assms(1) by (simp_all add: static_tables_def c_consts)
  define mm where "mm = snd (nrf51_sdk_mem_init (pb_mm (n_pbuf s)))"
  have "nrf51_sdk_mem_init (pb_mm (n_pbuf s)) = (fst (nrf51_sdk_mem_init (pb_mm (n_pbuf s))), mm)" by (simp add: mm_def)
  then have mm: "pool_inv mm" "mm_live mm = {}" using mem_init_inv mem_init_live by blast+
  let ?pb = "(n_pbuf s)\<lparr>pb_mm := mm, m_pbuffer := map pbuffer_init (m_pbuffer (n_pbuf s)), pb_initialized := True\<rparr>"
  have "allocated_length (pbuffer_init b) = 0" for b by (simp add: pbuffer_init_def)
  then have pb: "pbuf_inv ?pb" "\<forall>b \<in> set (m_pbuffer ?pb). allocated_length b = 0"
    using mm(1) st(4,5) by (simp_all add: pbuf_inv_def)
  let ?ip = "(n_ipv6 s)\<lparr>m_event_handler := Some h, m_interfaces_count := 0\<rparr>"
  let ?ip1 = "?ip\<lparr>m_interfaces := (m_interfaces ?ip)[0 := (m_interfaces ?ip ! 0)\<lparr>if_object := None\<rparr>]\<rparr>"
  have "\<forall>i \<in> set [0..<IPV6_MAX_ADDRESS_PER_INTERFACE]. i < 3" by (simp add: c_consts)
  then obtain t where t: "interface_reset_loop ?ip1 0 [0..<IPV6_MAX_ADDRESS_PER_INTERFACE] = Inr t"
    "length (m_address_table t) = 3" "length (m_interfaces t) = 1" "length (addr_range (m_interfaces t ! 0)) = 3"
    "\<forall>k < 3. addr_range (m_interfaces t ! 0) ! k = 0xFF"
    using interface_reset_loop_any [of ?ip1 "[0..<IPV6_MAX_ADDRESS_PER_INTERFACE]"] st(1-3) by (auto simp: c_consts)
  have f: "m_interfaces_count t = 0" "m_event_handler t = Some h" "map if_object (m_interfaces t) = [None]"
    using interface_reset_loop_frame [OF t(1)] st(2) by (auto simp: same_frame_def map_update length_Suc_conv)
  let ?t = "t\<lparr>m_address_table := map addr_clear (m_address_table t)\<rparr>"
  have k: "addr_key (m_address_table ?t ! i) = None" if "i < 3" for i
    using that t(2) by (simp add: addr_key_def addr_clear_def)
  have "addr_range (m_interfaces t ! 0) = map (range_entry (m_address_table ?t)) [0..<3]"
    using t(4,5) k by (intro nth_equalityI) (simp_all add: range_entry_def c_consts del: ipv6_state.simps)
  then have "addr_inv ?t" using t(2,3) k by (simp add: addr_inv_def keys_unique_def c_consts)
  moreover have "addr_map ?t = (\<lambda>_. None)" using k t(2) by (auto simp: addr_map_def table_map_None fun_eq_iff)
  moreover have "map if_object (m_interfaces t) ! 0 = None" using f(3) by simp
  then have "if_object (m_interfaces t ! 0) = None" using t(3) by simp
  ultimately have down: "ip_down ?t" using f by (simp add: ip_down_def)
  let ?s' = "s\<lparr>n_pbuf := ?pb, m_socket := map socket_init (m_socket s), udp_initialized := True, icmp_handler := None,
    icmp_initialized := True, n_ctx := snd (iot_context_manager_init (n_ctx s)), n_ipv6 := ?t, n_world := w\<rparr>"
  have "init_interfaces ?ip [0..<IPV6_MAX_INTERFACE] = Inr t"
    using t(1) st(2) by (simp add: c_consts interface_reset_def)
  then have "ipv6_init E s (Some \<lparr>p_eui64 = Some eui64, init_event_handler = Some h\<rparr>) = Inr (e, ?s')"
    using assms(2) init_addresses_all [OF t(2)]
    by (simp add: ipv6_init_def iot_pbuffer_init_def udp_init_def icmp6_init_def mm_def Let_def)
  moreover have "stack_ready ?s' h"
    using down pb mm(2) f(2) st(6) by (auto simp: stack_ready_def socket_init_def iot_context_manager_init_def)
  ultimately show ?thesis by (intro exI [of _ ?s']) simp
qed


lemma sample_static: "static_tables (sample_net sample_pbuf)"
  using sample_pbuf_inv by (simp add: static_tables_def sample_net_def link_state_def pbuf_inv_def c_consts)


section \<open>All runs\<close>

text \<open>
  The runs of the stack: initialisation, then events of the 6LoWPAN library, which adds an interface
  where there is none and deletes and uses the one there is, and operations of the application on the
  addresses. The second component is the interface that is up.
\<close>

inductive stack_run :: "'w net_env \<Rightarrow> 'w net \<Rightarrow> nat option \<Rightarrow> bool" for E where
  boot: "static_tables s \<Longrightarrow> ipv6_init E s (Some \<lparr>p_eui64 = Some eui64, init_event_handler = Some h\<rparr>) = Inr (e, s') \<Longrightarrow>
    stack_run E s' None"
| added: "stack_run E s None \<Longrightarrow> ble_6lowpan_evt_handler E s iface BLE_6LO_EVT_INTERFACE_ADD = Inr s' \<Longrightarrow>
    stack_run E s' (Some iface)"
| deleted: "stack_run E s (Some iface) \<Longrightarrow> ble_6lowpan_evt_handler E s iface BLE_6LO_EVT_INTERFACE_DELETE = Inr s' \<Longrightarrow>
    stack_run E s' None"
| received: "stack_run E s (Some iface) \<Longrightarrow>
    ble_6lowpan_evt_handler E s iface (BLE_6LO_EVT_INTERFACE_DATA_RX r p n) = Inr s' \<Longrightarrow> stack_run E s' (Some iface)"
| address_set: "stack_run E s (Some iface) \<Longrightarrow> conf_state c \<noteq> IPV6_ADDR_STATE_UNUSED \<Longrightarrow>
    ipv6_address_set (n_ipv6 s) (Some iface) (Some c) = Inr (e, ip) \<Longrightarrow> stack_run E (s\<lparr>n_ipv6 := ip\<rparr>) (Some iface)"
| address_removed: "stack_run E s (Some iface) \<Longrightarrow>
    ipv6_address_remove (n_ipv6 s) (Some iface) (Some a) = Inr (e, ip) \<Longrightarrow> stack_run E (s\<lparr>n_ipv6 := ip\<rparr>) (Some iface)"

inductive_cases stack_run_down [elim]: "stack_run E s None"
inductive_cases stack_run_up [elim]: "stack_run E s (Some iface)"

definition link_ok :: "'w net \<Rightarrow> nat option \<Rightarrow> bool" where
  "link_ok s link = (case link of None \<Rightarrow> ip_down (n_ipv6 s) | Some iface \<Rightarrow> ip_up (n_ipv6 s) iface)"

lemma stack_run_link_ok:
  assumes "\<And>iface. app_keeps E iface" "stack_run E s link"
  shows "link_ok s link"
  using assms(2)
proof induction
  case (boot s eui64 h e s')
  obtain e2 w where "env_6lo_init E eui64 (n_world s) = (e2, w)" by force
  from ipv6_init_ready [OF boot(1) this, of h] boot(2) show ?case by (auto simp: stack_ready_def link_ok_def)
next
  case (added s iface s')
  then have "ip_down (n_ipv6 s)" by (simp add: link_ok_def)
  from interface_add_event [OF assms(1) this, of iface] added(2) show ?case by (auto simp: link_ok_def)
next
  case (deleted s iface s')
  then have "ip_up (n_ipv6 s) iface" by (simp add: link_ok_def)
  from interface_delete_event [OF assms(1) this] deleted(2) show ?case by (auto simp: link_ok_def)
next
  case (received s iface r p n s')
  then show ?case using data_rx_up [OF assms(1) received(2)] by (simp add: link_ok_def)
next
  case (address_set s iface c e ip)
  then show ?case using address_set_up [of "n_ipv6 s" iface c e ip] by (simp add: link_ok_def)
next
  case (address_removed s iface a e ip)
  then show ?case using address_remove_up [of "n_ipv6 s" iface a e ip] by (simp add: link_ok_def)
qed

text \<open>C23: On every run of the stack, whatever packets arrive and in whatever order the events and the operations of
  the application come, the tables are consistent with the link: with the interface up, exactly it is in the
  table, it is counted, and ranges and addresses match; with the link down there is no interface and no
  address left. The next event that adds or deletes the interface is handled without a fault. The
  application's part of the contract is \<open>app_keeps\<close>.\<close>

theorem ipv6_stack_stays_consistent:
  assumes "\<And>iface. app_keeps E iface" "stack_run E s link"
  shows "link_ok s link \<and>
    (case link of
       None \<Rightarrow> \<forall>iface. \<exists>s'. ble_6lowpan_evt_handler E s iface BLE_6LO_EVT_INTERFACE_ADD = Inr s' \<and> link_ok s' (Some iface)
     | Some iface \<Rightarrow> \<exists>s'. ble_6lowpan_evt_handler E s iface BLE_6LO_EVT_INTERFACE_DELETE = Inr s' \<and> link_ok s' None)"
proof -
  have ok: "link_ok s link" by (rule stack_run_link_ok [OF assms])
  show ?thesis
  proof (cases link)
    case None
    then show ?thesis using ok interface_add_event [OF assms(1), of s] by (auto simp: link_ok_def)
  next
    case (Some iface)
    then show ?thesis using ok interface_delete_event [OF assms(1), of s iface] by (auto simp: link_ok_def)
  qed
qed

lemma sample_app_keeps: "app_keeps sample_env iface"
  by (simp add: app_keeps_def sample_env_def)

theorem ipv6_stack_stays_consistent_witness:
  "\<exists>s. stack_run sample_env s (Some 5) \<and> link_ok s (Some 5) \<and>
     (\<exists>s'. ble_6lowpan_evt_handler sample_env s 5 BLE_6LO_EVT_INTERFACE_DELETE = Inr s' \<and> link_ok s' None)"
proof -
  obtain s where s: "ipv6_init sample_env (sample_net sample_pbuf) (Some \<lparr>p_eui64 = Some (replicate 8 0), init_event_handler = Some 7\<rparr>) =
      Inr (NRF_SUCCESS, s)" "ip_down (n_ipv6 s)"
    using ipv6_init_ready [OF sample_static, of sample_env "replicate 8 0" NRF_SUCCESS "[]" 7]
    by (auto simp: sample_env_def sample_net_def stack_ready_def)
  obtain t where t: "ble_6lowpan_evt_handler sample_env s 5 BLE_6LO_EVT_INTERFACE_ADD = Inr t"
    using interface_add_event [OF sample_app_keeps s(2), of 5] by blast
  have "stack_run sample_env t (Some 5)" by (rule stack_run.added [OF stack_run.boot [OF sample_static s(1)] t])
  then show ?thesis using ipv6_stack_stays_consistent [OF sample_app_keeps, of t "Some 5"] by auto
qed

end
