(* ===== verification/Coap_Transport.thy ===== *)
theory Coap_Transport
  imports Coap_Message Ipv6_Interface
begin

text \<open>
  The transport of CoAP on the Nordic stack, \<^verbatim>\<open>components/iot/coap/coap_transport_ipv6.c\<close>: the table that
  maps CoAP ports to UDP sockets, the callback of the sockets, and sending. What is called above,
  \<open>coap_transport_read\<close>, is the argument \<open>read\<close> of the definitions: it gets the port, the remote, the result
  of the lower layers, and the address and length of the datagram.
\<close>

section \<open>State\<close>

record udp_port_t =
  port_socket_id :: u32
  udp_port_number :: u16

text \<open>The static table of the file beside the state of the stack.\<close>

record 'w transport =
  t_net :: "'w net"
  m_port_table :: "udp_port_t list"

type_synonym 'w read_fun = "coap_port_t \<Rightarrow> coap_remote_t \<Rightarrow> u32 \<Rightarrow> ptr \<Rightarrow> u16 \<Rightarrow> 'w net \<Rightarrow> fault + u32 \<times> 'w net"

abbreviation coap_err :: "u32 \<Rightarrow> u32" where "coap_err e \<equiv> e OR IOT_COAP_ERR_BASE"

section \<open>Receiving\<close>

text \<open>The loop over the table, which does not stop at the first port that matches.\<close>

fun port_data_loop ::
  "'w read_fun \<Rightarrow> udp_port_t list \<Rightarrow> udp6_socket_t \<Rightarrow> ptr \<Rightarrow> ptr \<Rightarrow> u32 \<Rightarrow> u32 \<Rightarrow> u32 \<Rightarrow> 'w net \<Rightarrow> fault + u32 \<times> 'w net" where
  "port_data_loop read [] sock p_ip_header p_udp_header process_result p_rx_packet retval s = Inr (retval, s)"
| "port_data_loop read (e # es) sock p_ip_header p_udp_header process_result p_rx_packet retval s =
     (if port_socket_id e = socket_id sock then
        c_bind (load_u16 (net_heap s) p_udp_header 2) (\<lambda>destport.
        c_bind (load_addr (net_heap s) p_ip_header 8) (\<lambda>srcaddr.
        c_bind (load_u16 (net_heap s) p_udp_header 0) (\<lambda>srcport.
        c_bind (pb_get s p_rx_packet) (\<lambda>b.
        c_bind (read \<lparr>port_number = destport\<rparr> \<lparr>coap_remote_t.remote_addr = srcaddr, remote_port_number = srcport\<rparr>
                  process_result (pb_payload b) (ucast (pb_length b)) s) (\<lambda>(retval, s1).
        port_data_loop read es sock p_ip_header p_udp_header process_result p_rx_packet retval s1)))))
      else port_data_loop read es sock p_ip_header p_udp_header process_result p_rx_packet retval s)"

definition port_data_callback ::
  "'w read_fun \<Rightarrow> udp_port_t list \<Rightarrow> udp6_socket_t \<Rightarrow> ptr \<Rightarrow> ptr \<Rightarrow> u32 \<Rightarrow> u32 \<Rightarrow> 'w net \<Rightarrow> fault + u32 \<times> 'w net" where
  "port_data_callback read table p_socket p_ip_header p_udp_header process_result p_rx_packet s =
     port_data_loop read table p_socket p_ip_header p_udp_header process_result p_rx_packet NRF_ERROR_NOT_FOUND s"

text \<open>The number of this function among the callbacks.\<close>

definition PORT_DATA_CALLBACK :: nat where "PORT_DATA_CALLBACK = 1"

section \<open>Creating the ports\<close>

text \<open>\<open>junk\<close> is the content of the local socket variable before it is written.\<close>

definition port_create :: "udp6_socket_t \<Rightarrow> 'w transport \<Rightarrow> nat \<Rightarrow> coap_port_t \<Rightarrow> fault + u32 \<times> 'w transport" where
  "port_create junk t index p_port =
     (case udp6_socket_allocate (t_net t) (Some junk) of (err_code, so) \<Rightarrow>
      let sock = the so
      in if err_code \<noteq> NRF_SUCCESS then Inr (err_code, t)
         else
           case udp6_socket_bind (t_net t) (Some sock) (Some IPV6_ADDR_ANY) (port_number p_port) of (err_code, s1) \<Rightarrow>
           if err_code \<noteq> NRF_SUCCESS then Inr (err_code, t\<lparr>t_net := snd (udp6_socket_free s1 (Some sock))\<rparr>)
           else
             case udp6_socket_recv s1 (Some sock) (Some PORT_DATA_CALLBACK) of (err_code, s2) \<Rightarrow>
             if err_code \<noteq> NRF_SUCCESS then Inr (err_code, t\<lparr>t_net := snd (udp6_socket_free s2 (Some sock))\<rparr>)
             else
               c_bind (arr_upd (m_port_table t) index
                        (\<lambda>e. e\<lparr>port_socket_id := socket_id sock, udp_port_number := port_number p_port\<rparr>)) (\<lambda>table.
               Inr (err_code, t\<lparr>m_port_table := table,
                 t_net := snd (udp6_socket_app_data_set s2 (Some (sock\<lparr>sock_app_data := index\<rparr>)))\<rparr>)))"

record coap_transport_init_t =
  port_count :: u16
  p_port_table :: "coap_port_t list option"

text \<open>The number of ports is not compared with the size of the table.\<close>

fun transport_init_loop ::
  "udp6_socket_t \<Rightarrow> coap_port_t list \<Rightarrow> 'w transport \<Rightarrow> u32 \<Rightarrow> nat list \<Rightarrow> fault + u32 \<times> 'w transport" where
  "transport_init_loop junk ports t err_code [] = Inr (err_code, t)"
| "transport_init_loop junk ports t err_code (index # is) =
     c_bind (arr_get ports index) (\<lambda>p.
     c_bind (port_create junk t index p) (\<lambda>(err_code, t1).
     if err_code \<noteq> NRF_SUCCESS then Inr (err_code, t1) else transport_init_loop junk ports t1 err_code is))"

definition coap_transport_init ::
  "udp6_socket_t \<Rightarrow> 'w transport \<Rightarrow> coap_transport_init_t option \<Rightarrow> fault + u32 \<times> 'w transport" where
  "coap_transport_init junk t p_param =
     (case p_param of
        None \<Rightarrow> Inr (coap_err NRF_ERROR_NULL, t)
      | Some param \<Rightarrow>
        (case p_port_table param of
           None \<Rightarrow> Inr (coap_err NRF_ERROR_NULL, t)
         | Some ports \<Rightarrow> transport_init_loop junk ports t NRF_ERROR_NO_MEM [0..<unat (port_count param)]))"

section \<open>Sending\<close>

definition udp_alloc_param :: "u16 \<Rightarrow> iot_pbuffer_alloc_param_t" where
  "udp_alloc_param datalen = \<lparr>param_type = UDP6_PACKET_TYPE, param_flags = PBUFFER_FLAG_DEFAULT, param_length = ucast datalen\<rparr>"

text \<open>A send that failed is followed by freeing the buffer, whose descriptor \<open>ipv6_send\<close> may have released already.\<close>

definition coap_transport_write ::
  "'w net_env \<Rightarrow> nat \<Rightarrow> 'w transport \<Rightarrow> coap_port_t option \<Rightarrow> coap_remote_t option \<Rightarrow> ptr \<Rightarrow> u16 \<Rightarrow> fault + u32 \<times> 'w transport" where
  "coap_transport_write E app_data t p_port p_remote data datalen =
     (case p_port of
        None \<Rightarrow> Inr (coap_err NRF_ERROR_NULL, t)
      | Some prt \<Rightarrow>
        (case p_remote of
           None \<Rightarrow> Inr (coap_err NRF_ERROR_NULL, t)
         | Some rem \<Rightarrow>
           if data = NULL then Inr (coap_err NRF_ERROR_NULL, t)
           else
             (case find_first (\<lambda>e. udp_port_number e = port_number prt) (m_port_table t) of
                None \<Rightarrow> Inr (NRF_ERROR_NOT_FOUND, t)
              | Some index \<Rightarrow>
                (case iot_pbuffer_allocate (n_pbuf (t_net t)) (Some (udp_alloc_param datalen)) (Some None) of
                   (err_code, pp, pb) \<Rightarrow>
                     let s1 = (t_net t)\<lparr>n_pbuf := pb\<rparr>
                     in if err_code \<noteq> NRF_SUCCESS then Inr (err_code, t\<lparr>t_net := s1\<rparr>)
                        else
                          let packet = the (the pp);
                              sock = \<lparr>socket_id = port_socket_id (m_port_table t ! index), sock_app_data = app_data\<rparr>
                          in c_bind (pb_get s1 packet) (\<lambda>b.
                             c_bind (load_bytes (net_heap s1) data (unat datalen)) (\<lambda>bytes.
                             c_bind (store_bytes (net_heap s1) (pb_payload b) bytes) (\<lambda>h.
                             c_bind (udp6_socket_sendto E (set_heap s1 h) (Some sock) (Some (coap_remote_t.remote_addr rem))
                                       (remote_port_number rem) (Some packet)) (\<lambda>(err_code, s2).
                             c_bind (if err_code \<noteq> NRF_SUCCESS
                                     then c_bind (iot_pbuffer_free (n_pbuf s2) (Some packet) True) (\<lambda>(_, pb). Inr (s2\<lparr>n_pbuf := pb\<rparr>))
                                     else Inr s2) (\<lambda>s3.
                             Inr (err_code, t\<lparr>t_net := s3\<rparr>))))))))))"

section \<open>A message on its way out\<close>

text \<open>The socket behind a CoAP port can send to an address, and there is a buffer for the message.\<close>

definition can_write :: "'w transport \<Rightarrow> u16 \<Rightarrow> nat \<Rightarrow> u8 list \<Rightarrow> u8 list \<Rightarrow> nat \<Rightarrow> bool" where
  "can_write t prt iface src dst n \<longleftrightarrow>
     (\<exists>index. find_first (\<lambda>e. udp_port_number e = prt) (m_port_table t) = Some index \<and>
        unat (port_socket_id (m_port_table t ! index)) < UDP6_MAX_SOCKET_COUNT \<and>
        local_port (m_socket (t_net t) ! unat (port_socket_id (m_port_table t ! index))) = HTONS prt \<and>
        sends_from (n_ipv6 (t_net t)) (m_socket (t_net t) ! unat (port_socket_id (m_port_table t ! index))) dst iface src) \<and>
     m_event_handler (n_ipv6 (t_net t)) \<noteq> None \<and> udp_initialized (t_net t) \<and>
     pool_inv (pb_mm (n_pbuf (t_net t))) \<and> pool_heap (net_heap (t_net t)) \<and> pb_initialized (n_pbuf (t_net t)) \<and>
     length (m_pbuffer (n_pbuf (t_net t))) = IOT_PBUFFER_MAX_COUNT \<and> pbuf_room (n_pbuf (t_net t)) (n + 48)"

text \<open>What the stack has done with a message: its block belongs to the 6LoWPAN library, all else is as before.\<close>

definition handed_over :: "'w net \<Rightarrow> 'w net \<Rightarrow> bool" where
  "handed_over s s' \<longleftrightarrow> n_ipv6 s' = n_ipv6 s \<and> m_socket s' = m_socket s \<and>
     (\<exists>blk. Ptr blk 0 \<notin> mm_live (pb_mm (n_pbuf s)) \<and> mm_live (pb_mm (n_pbuf s')) = insert (Ptr blk 0) (mm_live (pb_mm (n_pbuf s))) \<and>
        (\<forall>b. b \<noteq> blk \<longrightarrow> net_heap s' b = net_heap s b)) \<and>
     pool_inv (pb_mm (n_pbuf s')) \<and>
     map allocated_length (m_pbuffer (n_pbuf s')) = map allocated_length (m_pbuffer (n_pbuf s))"

lemma free_given_away:
  assumes "pb_initialized (n_pbuf s)" "pool_inv (pb_mm (n_pbuf s))" "length (m_pbuffer (n_pbuf s)) = IOT_PBUFFER_MAX_COUNT"
    and "i < IOT_PBUFFER_MAX_COUNT"
  shows "\<exists>e. iot_pbuffer_free (n_pbuf (given_away s i h w)) (Some (pb_ptr i)) True = Inr (e, n_pbuf (given_away s i h w))"
proof -
  have "nrf51_sdk_mem_free (pb_mm (n_pbuf s)) NULL = (NRF_ERROR_NULL OR MEMORY_MANAGER_ERR_BASE, pb_mm (n_pbuf s))"
    using assms(2) by (simp add: nrf51_sdk_mem_free_def pool_inv_def)
  then show ?thesis
    using assms(1,3,4)
    by (simp add: iot_pbuffer_free_def given_away_def pbuf_upd_def pbuffer_init_eq) (simp add: pbuffer_init_def)
qed

lemma coap_transport_write_hands_over:
  assumes cw: "can_write t prt iface src dst (length bytes)" and dst: "length dst = 16" "dport \<noteq> 0"
    and dat: "load_bytes (net_heap (t_net t)) data (length bytes) = Inr bytes" "data \<noteq> NULL" "bytes \<noteq> []" "length bytes + 48 < 65536"
    and send: "env_6lo_send E iface (udp_datagram src dst prt dport bytes) (of_nat (length bytes + 48)) (n_world (t_net t)) = (e, w)"
  shows "\<exists>t'. coap_transport_write E ad t (Some \<lparr>port_number = prt\<rparr>)
      (Some \<lparr>coap_remote_t.remote_addr = dst, remote_port_number = dport\<rparr>) data (of_nat (length bytes)) = Inr (e, t') \<and>
    n_world (t_net t') = w \<and> m_port_table t' = m_port_table t \<and> handed_over (t_net t) (t_net t')"
proof -
  let ?s = "t_net t" and ?n = "length bytes"
  let ?param = "udp_alloc_param (of_nat ?n)"
  from cw obtain index where index: "find_first (\<lambda>e. udp_port_number e = prt) (m_port_table t) = Some index"
      "unat (port_socket_id (m_port_table t ! index)) < UDP6_MAX_SOCKET_COUNT"
      "local_port (m_socket ?s ! unat (port_socket_id (m_port_table t ! index))) = HTONS prt"
      "sends_from (n_ipv6 ?s) (m_socket ?s ! unat (port_socket_id (m_port_table t ! index))) dst iface src"
    and st: "m_event_handler (n_ipv6 ?s) \<noteq> None" "udp_initialized ?s" "pool_inv (pb_mm (n_pbuf ?s))" "pool_heap (net_heap ?s)"
      "pb_initialized (n_pbuf ?s)" "length (m_pbuffer (n_pbuf ?s)) = IOT_PBUFFER_MAX_COUNT" "pbuf_room (n_pbuf ?s) (?n + 48)"
    by (auto simp: can_write_def)
  define skt where "skt = m_socket ?s ! unat (port_socket_id (m_port_table t ! index))"
  have n2: "unat (of_nat ?n :: u16) = ?n" by (rule unat_of_nat_u16) (use dat(4) in simp)
  then have n4: "unat (ucast (of_nat ?n :: u16) :: u32) = ?n" by simp
  have size: "request_size ?param = ?n + 48"
    using n4 by (simp add: request_size_def udp_alloc_param_def type_offset_get_def c_consts)
  have "unat (ucast (of_nat ?n :: u16) :: u32) \<noteq> 0" unfolding n4 using dat(3) by simp
  then have "(ucast (of_nat ?n :: u16) :: u32) \<noteq> 0" by (metis unat_0)
  then have ok_param: "alloc_param_error ?param = None" "param_flags ?param = PBUFFER_FLAG_DEFAULT"
    by (simp_all add: alloc_param_error_def udp_alloc_param_def c_consts)
  have small: "request_size ?param < 4294967296" using dat(4) unfolding size by simp
  show ?thesis
  proof (cases rule: iot_pbuffer_alloc_cases [OF st(5,3) ok_param small, of None, case_names fail ok])
    case (fail e)
    then show ?thesis using st(7) unfolding size by blast
  next
    case (ok i j mm')
    let ?bo = "block_offset j" and ?B = "alloc_buffer (m_pbuffer (n_pbuf ?s) ! i) ?param j"
    define pb where "pb = (n_pbuf ?s)\<lparr>pb_mm := mm', m_pbuffer := (m_pbuffer (n_pbuf ?s))[i := ?B]\<rparr>"
    define s1 where "s1 = ?s\<lparr>n_pbuf := pb\<rparr>"
    have i: "i < IOT_PBUFFER_MAX_COUNT" using ok(1) st(6) by simp
    have alloc: "iot_pbuffer_allocate (n_pbuf ?s) (Some ?param) (Some None) = (NRF_SUCCESS, Some (Some (pb_ptr i)), pb)"
      using ok(8) by (simp only: pb_def pb_ptr_def)
    have s1: "net_heap s1 = net_heap ?s" "length (m_pbuffer (n_pbuf s1)) = IOT_PBUFFER_MAX_COUNT" "m_pbuffer (n_pbuf s1) ! i = ?B"
      "n_ipv6 s1 = n_ipv6 ?s" "m_socket s1 = m_socket ?s" "udp_initialized s1" "n_world s1 = n_world ?s" "pb_initialized (n_pbuf s1)"
      using st ok(1) by (simp_all add: s1_def pb_def)
    have B: "pb_payload ?B = Ptr ?bo 48" "unat (pb_length ?B) = ?n"
      using n4 by (simp_all add: alloc_buffer_def udp_alloc_param_def type_offset_get_def c_consts)
    have len: "length (net_heap ?s ?bo) = block_bytes j" "?n + 48 \<le> block_bytes j"
      using st(4) ok(3,4) by (simp_all add: pool_heap_def size add.commute)
    let ?old = "take 48 (net_heap ?s ?bo)" and ?post = "drop (?n + 48) (net_heap ?s ?bo)"
    let ?h = "(net_heap ?s)(?bo := ?old @ bytes @ ?post)"
    have store: "store_bytes (net_heap s1) (Ptr ?bo 48) bytes = Inr ?h"
      using len by (simp add: s1(1) arr_write_eq add.commute)
    let ?s2 = "set_heap s1 ?h"
    have s2: "length (m_pbuffer (n_pbuf ?s2)) = IOT_PBUFFER_MAX_COUNT" "m_pbuffer (n_pbuf ?s2) ! i = ?B"
      "n_ipv6 ?s2 = n_ipv6 ?s" "m_socket ?s2 = m_socket ?s" "udp_initialized ?s2" "n_world ?s2 = n_world ?s" "pb_initialized (n_pbuf ?s2)"
      "net_heap ?s2 = ?h" "pb_mm (n_pbuf ?s2) = mm'" "m_pbuffer (n_pbuf ?s2) = (m_pbuffer (n_pbuf ?s))[i := ?B]"
      using s1 by (simp_all add: set_heap_def) (simp_all add: s1_def pb_def)
    have pkt: "packet_at ?s2 i ?bo [] bytes ?post"
      using i s2(1,2,7,8) B len dat(4) by (auto simp: packet_at_def intro!: exI [of _ ?old])
    let ?g = "given_away ?s2 i ((net_heap ?s2)(?bo := [] @ udp_datagram src dst prt dport bytes @ ?post)) w"
    have tx: "udp6_transmit E ?s2 skt dst (HTONS dport) (pb_ptr i) = Inr (e, ?g)"
      by (rule udp6_transmit_sends [OF pkt _ _ dst(1)])
        (use st(1) index(3,4) send s2(3,6) in \<open>simp_all add: skt_def del: of_nat_add\<close>)
    have nz: "pb_length ?B \<noteq> 0" using B(2) dat(3) by auto
    have sendto: "udp6_socket_sendto E ?s2 (Some \<lparr>socket_id = port_socket_id (m_port_table t ! index), sock_app_data = ad\<rparr>)
        (Some dst) dport (Some (pb_ptr i)) = Inr (e, ?g)"
      using pb_get_ptr [OF s2(1) i] s2(2,4,5) B(1) nz index(2) dst(2) tx
      by (simp add: udp6_socket_sendto_def skt_def)
    have "pool_inv (pb_mm (n_pbuf ?s2))" using s2(9) ok(6) by simp
    from free_given_away [OF s2(7) this s2(1) i] obtain e2 where
      free: "iot_pbuffer_free (n_pbuf ?g) (Some (pb_ptr i)) True = Inr (e2, n_pbuf ?g)" by blast
    have heap: "pb_heap pb = net_heap ?s" by (simp add: pb_def)
    have self: "?g\<lparr>n_pbuf := n_pbuf ?g\<rparr> = ?g" by simp
    have "coap_transport_write E ad t (Some \<lparr>port_number = prt\<rparr>)
      (Some \<lparr>coap_remote_t.remote_addr = dst, remote_port_number = dport\<rparr>) data (of_nat ?n) = Inr (e, t\<lparr>t_net := ?g\<rparr>)"
      using dat(1,2) n2 index(1) alloc pb_get_ptr [OF s1(2) i] s1(1,3) B(1) store sendto free heap self
      by (simp add: coap_transport_write_def s1_def [symmetric] Let_def del: store_bytes.simps)
    moreover have "map allocated_length (m_pbuffer (n_pbuf ?g)) = map allocated_length (m_pbuffer (n_pbuf ?s))"
      using ok(1,2) s2(10) i
      by (simp add: given_away_def pbuf_upd_def set_heap_def map_update pbuffer_init_def list_update_same_conv)
    moreover have "\<exists>blk. Ptr blk 0 \<notin> mm_live (pb_mm (n_pbuf ?s)) \<and>
        mm_live (pb_mm (n_pbuf ?g)) = insert (Ptr blk 0) (mm_live (pb_mm (n_pbuf ?s))) \<and>
        (\<forall>b. b \<noteq> blk \<longrightarrow> net_heap ?g b = net_heap ?s b)"
      using ok(5,7) s2(9) by (intro exI [of _ ?bo]) (simp add: given_away_def pbuf_upd_def set_heap_def)
    moreover have "n_ipv6 ?g = n_ipv6 ?s" "m_socket ?g = m_socket ?s" "n_world ?g = w" "pool_inv (pb_mm (n_pbuf ?g))"
      using s2 ok(6) by (simp_all add: given_away_def pbuf_upd_def)
    ultimately show ?thesis by (intro exI [of _ "t\<lparr>t_net := ?g\<rparr>"]) (simp add: handed_over_def)
  qed
qed


text \<open>What \<open>coap_transport_write\<close> does with a message of a CoAP port it knows: the message is copied into a buffer of
  its own, and exactly the datagram with the address of the interface, the two ports and a valid checksum
  is given to the 6LoWPAN library, whose result is returned. The block of the buffer then belongs to the
  library, also when it reports a failure; no other block of memory, no table and no socket changes.\<close>

theorem coap_transport_write_sends:
  assumes "can_write t prt iface src dst (length bytes)" "length dst = 16" "dport \<noteq> 0"
    and "load_bytes (net_heap (t_net t)) data (length bytes) = Inr bytes" "data \<noteq> NULL" "bytes \<noteq> []" "length bytes + 48 < 65536"
    and "env_6lo_send E iface (udp_datagram src dst prt dport bytes) (of_nat (length bytes + 48)) (n_world (t_net t)) = (e, w)"
  shows "\<exists>t'. coap_transport_write E ad t (Some \<lparr>port_number = prt\<rparr>)
      (Some \<lparr>coap_remote_t.remote_addr = dst, remote_port_number = dport\<rparr>) data (of_nat (length bytes)) = Inr (e, t') \<and>
    n_world (t_net t') = w \<and> m_port_table t' = m_port_table t \<and> handed_over (t_net t) (t_net t')"
  by (rule coap_transport_write_hands_over [OF assms])

section \<open>A port that is served\<close>

text \<open>The socket 0 listens at the port, whatever the addresses, and its datagrams go to the CoAP module.\<close>

definition serves :: "'w transport \<Rightarrow> u16 \<Rightarrow> bool" where
  "serves t p \<longleftrightarrow> m_port_table t = [\<lparr>port_socket_id = 0, udp_port_number = p\<rparr>] \<and>
     (\<exists>k ks. m_socket (t_net t) = k # ks \<and> local_port k = HTONS p \<and> remote_port k = 0 \<and> local_addr k = IPV6_ADDR_ANY \<and>
        remote_addr k = IPV6_ADDR_ANY \<and> rx_cb k = Some PORT_DATA_CALLBACK)"

lemma serves_find:
  "serves t p \<Longrightarrow> find_first (\<lambda>k. socket_accepts k (HTONS p) sport src dst) (m_socket (t_net t)) = Some 0"
  by (auto simp: serves_def find_first_Some socket_accepts_def)

lemma HTONS_eq_0 [simp]: "HTONS p = 0 \<longleftrightarrow> p = 0"
proof -
  have z: "HTONS 0 = 0" by (simp add: HTONS_def)
  then have "HTONS p = 0 \<Longrightarrow> p = 0" using HTONS_HTONS(1) [of p] by simp
  then show ?thesis using z by auto
qed

lemma coap_transport_init_serves:
  assumes "udp_initialized (t_net t)" "length (m_socket (t_net t)) = UDP6_MAX_SOCKET_COUNT"
    and "\<forall>k \<in> set (m_socket (t_net t)). socket_init k = k" "length (m_port_table t) = COAP_PORT_COUNT" "p \<noteq> 0"
  shows "\<exists>t'. coap_transport_init junk t (Some \<lparr>port_count = 1, p_port_table = Some [\<lparr>port_number = p\<rparr>]\<rparr>) = Inr (NRF_SUCCESS, t') \<and>
    serves t' p \<and> tl (m_socket (t_net t')) = tl (m_socket (t_net t)) \<and>
    t_net t' = (t_net t)\<lparr>m_socket := m_socket (t_net t')\<rparr>"
proof -
  obtain a b c where k: "m_socket (t_net t) = [a, b, c]"
    using assms(2) by (auto simp: c_consts numeral_3_eq_3 length_Suc_conv)
  obtain e where e: "m_port_table t = [e]" using assms(4) by (auto simp: c_consts length_Suc_conv)
  have "socket_init a = a" "socket_init b = b" "socket_init c = c" using assms(3) k by simp_all
  then have a: "local_port a = 0" "remote_port a = 0" "local_addr a = IPV6_ADDR_ANY" "remote_addr a = IPV6_ADDR_ANY"
    and bc: "local_port b = 0" "local_port c = 0"
    by (auto simp: socket_init_def c_consts IPV6_ADDR_ANY_def dest: arg_cong [of _ _ local_port] arg_cong [of _ _ remote_port]
        arg_cong [of _ _ local_addr] arg_cong [of _ _ remote_addr])
  have nz: "HTONS p \<noteq> 0" using assms(5) by simp
  have "find_first (\<lambda>k. local_port k = UDP_PORT_FREE) [a, b, c] = Some 0"
    using a(1) by (simp add: find_first_Some c_consts)
  then have "socket_find (t_net t) UDP_PORT_FREE = 0" by (simp add: socket_find_def k)
  then show ?thesis
    using assms(1,5) nz a bc k e
    by (simp add: coap_transport_init_def port_create_def udp6_socket_allocate_def udp6_socket_bind_def udp6_socket_recv_def
        udp6_socket_app_data_set_def skt_upd_def arr_get_def arr_upd_def c_consts serves_def del: HTONS_bytes)
qed


text \<open>After \<open>ipv6_init\<close>, \<open>coap_transport_init\<close> with one port opens it: the first socket is bound to the port at any address,
  its callback is that of the transport, the table of the transport maps the port to the socket, and the
  other sockets and the rest of the stack are as they were.\<close>

theorem coap_transport_init_opens_port:
  assumes "stack_ready (t_net t) h" "length (m_port_table t) = COAP_PORT_COUNT" "p \<noteq> 0"
  shows "\<exists>t'. coap_transport_init junk t (Some \<lparr>port_count = 1, p_port_table = Some [\<lparr>port_number = p\<rparr>]\<rparr>) = Inr (NRF_SUCCESS, t') \<and>
    serves t' p \<and> tl (m_socket (t_net t')) = tl (m_socket (t_net t)) \<and>
    t_net t' = (t_net t)\<lparr>m_socket := m_socket (t_net t')\<rparr>"
  by (rule coap_transport_init_serves) (use assms in \<open>simp_all add: stack_ready_def\<close>)

definition no_port :: udp_port_t where
  "no_port = \<lparr>port_socket_id = 0, udp_port_number = 0\<rparr>"

theorem coap_transport_init_opens_port_witness:
  "\<exists>s t. ipv6_init sample_env (sample_net sample_pbuf) (Some \<lparr>p_eui64 = Some (replicate 8 0), init_event_handler = Some 7\<rparr>) =
     Inr (NRF_SUCCESS, s) \<and>
   coap_transport_init \<lparr>socket_id = 0, sock_app_data = 0\<rparr> \<lparr>t_net = s, m_port_table = [no_port]\<rparr>
     (Some \<lparr>port_count = 1, p_port_table = Some [\<lparr>port_number = 5683\<rparr>]\<rparr>) = Inr (NRF_SUCCESS, t) \<and> serves t 5683"
proof -
  obtain s where s: "ipv6_init sample_env (sample_net sample_pbuf) (Some \<lparr>p_eui64 = Some (replicate 8 0), init_event_handler = Some 7\<rparr>) =
      Inr (NRF_SUCCESS, s)" "stack_ready s 7"
    using ipv6_init_ready [OF sample_static, of sample_env "replicate 8 0" NRF_SUCCESS "[]" 7]
    by (auto simp: sample_env_def sample_net_def)
  let ?t = "\<lparr>t_net = s, m_port_table = [no_port]\<rparr>"
  have "stack_ready (t_net ?t) 7" "length (m_port_table ?t) = COAP_PORT_COUNT" using s(2) by (simp_all add: c_consts)
  moreover have "(5683 :: u16) \<noteq> 0" by simp
  ultimately show ?thesis
    using s(1) coap_transport_init_opens_port [of ?t 7 5683 "\<lparr>socket_id = 0, sock_app_data = 0\<rparr>"] by blast
qed

section \<open>From one CoAP module to the other\<close>

lemma port_data_loop_skips:
  "\<forall>e \<in> set es. port_socket_id e \<noteq> socket_id sock \<Longrightarrow> port_data_loop read es sock h u res p retval s = Inr (retval, s)"
  by (induction es) auto

lemma serves_callback:
  assumes "serves t dport" "app_sees s j blk src sport dport bytes" "socket_id sock = 0"
  shows "port_data_callback read (m_port_table t) sock (Ptr blk 0) (Ptr blk 40) NRF_SUCCESS (pb_ptr j) s =
    read \<lparr>port_number = dport\<rparr> \<lparr>coap_remote_t.remote_addr = src, remote_port_number = sport\<rparr> NRF_SUCCESS
      (Ptr blk 48) (of_nat (length bytes)) s"
proof -
  from assms(2) obtain b where b: "load_u16 (net_heap s) (Ptr blk 40) 0 = Inr sport" "load_u16 (net_heap s) (Ptr blk 40) 2 = Inr dport"
    "load_addr (net_heap s) (Ptr blk 0) 8 = Inr src" "pb_get s (pb_ptr j) = Inr b" "pb_payload b = Ptr blk 48"
    "unat (pb_length b) = length bytes" by (auto simp: app_sees_def)
  have "(ucast (pb_length b) :: u16) = of_nat (length bytes)"
    unfolding b(6) [symmetric] by simp
  then show ?thesis
    using assms(1,3) b(1-5)
    by (simp add: port_data_callback_def serves_def) (cases "read \<lparr>port_number = dport\<rparr>
      \<lparr>coap_remote_t.remote_addr = src, remote_port_number = sport\<rparr> NRF_SUCCESS (Ptr blk 48) (of_nat (length bytes)) s", auto)
qed

text \<open>C13: A CoAP message crosses the link: the packet that \<open>coap_transport_write\<close> of the sender gives to the 6LoWPAN library
  leads, when the library of a receiver that serves the remote port reports it, to one call of
  \<open>coap_transport_read\<close> with that port, with the address and port of the sender as the remote, with the result
  success, and with a pointer to the bytes that were written; then the receive buffer is freed.\<close>

theorem coap_message_crosses_the_link:
  assumes sender: "can_write t prt iface src dst (length bytes)"
      "load_bytes (net_heap (t_net t)) data (length bytes) = Inr bytes" "data \<noteq> NULL" "bytes \<noteq> []" "length bytes + 48 < 65536"
    and dest: "length dst = 16" "dport \<noteq> 0"
    and receiver: "takes (t_net r) iface' j dst" "serves r dport"
      "env_rx F PORT_DATA_CALLBACK = port_data_callback read (m_port_table r)"
  shows "\<exists>pkt t' r1. coap_transport_write E ad t (Some \<lparr>port_number = prt\<rparr>)
      (Some \<lparr>coap_remote_t.remote_addr = dst, remote_port_number = dport\<rparr>) data (of_nat (length bytes)) =
      Inr (fst (env_6lo_send E iface pkt (of_nat (length pkt)) (n_world (t_net t))), t') \<and>
    n_world (t_net t') = snd (env_6lo_send E iface pkt (of_nat (length pkt)) (n_world (t_net t))) \<and>
    ble_6lowpan_evt_handler F (set_heap (t_net r) ((net_heap (t_net r))(blk := pkt @ post))) iface'
      (BLE_6LO_EVT_INTERFACE_DATA_RX NRF_SUCCESS (Ptr blk 0) (of_nat (length pkt))) =
    c_bind (read \<lparr>port_number = dport\<rparr> \<lparr>coap_remote_t.remote_addr = src, remote_port_number = prt\<rparr> NRF_SUCCESS
      (Ptr blk 48) (of_nat (length bytes)) r1) (\<lambda>(_, r2). free_rx r2 j) \<and>
    load_bytes (net_heap r1) (Ptr blk 48) (length bytes) = Inr bytes"
proof -
  let ?pkt = "udp_datagram src dst prt dport bytes"
  let ?r = "set_heap (t_net r) ((net_heap (t_net r))(blk := ?pkt @ post))"
  have src: "length src = 16" using sender(1) by (auto simp: can_write_def sends_from_def)
  have len: "length ?pkt = length bytes + 48" using src dest(1) by (simp add: udp_datagram_def udp_fields_def)
  obtain e w where ew: "env_6lo_send E iface ?pkt (of_nat (length bytes + 48)) (n_world (t_net t)) = (e, w)" by force
  from coap_transport_write_hands_over [OF sender(1) dest sender(2-5) ew, of ad] obtain t' where
    wr: "coap_transport_write E ad t (Some \<lparr>port_number = prt\<rparr>)
      (Some \<lparr>coap_remote_t.remote_addr = dst, remote_port_number = dport\<rparr>) data (of_nat (length bytes)) = Inr (e, t')"
      "n_world (t_net t') = w" by blast
  have r: "takes ?r iface' j dst" "m_socket ?r = m_socket (t_net r)" "net_heap ?r blk = ?pkt @ post"
    using receiver(1) by (simp_all add: takes_def set_heap_def)
  have cb: "rx_cb (m_socket (t_net r) ! 0) = Some PORT_DATA_CALLBACK" using receiver(2) by (auto simp: serves_def)
  from udp_datagram_received [OF r(1,3) src dest(1) sender(4,5), unfolded r(2), OF serves_find [OF receiver(2)] cb, of F] obtain r1 where
    r1: "ble_6lowpan_evt_handler F ?r iface' (BLE_6LO_EVT_INTERFACE_DATA_RX NRF_SUCCESS (Ptr blk 0) (of_nat (length bytes + 48))) =
      c_bind (env_rx F PORT_DATA_CALLBACK \<lparr>socket_id = of_nat 0, sock_app_data = skt_app_data (m_socket (t_net r) ! 0)\<rparr>
        (Ptr blk 0) (Ptr blk 40) NRF_SUCCESS (pb_ptr j) r1) (\<lambda>(_, r2). free_rx r2 j)"
    "app_sees r1 j blk src prt dport bytes"
    by blast
  have "load_bytes (net_heap r1) (Ptr blk 48) (length bytes) = Inr bytes" using r1(2) by (simp add: app_sees_def)
  then show ?thesis
    using wr ew r1(1) serves_callback [OF receiver(2) r1(2)] len
    by (intro exI [of _ ?pkt] exI [of _ t'] exI [of _ r1]) (simp add: receiver(3) del: of_nat_add)
qed


definition home_transport :: "u8 \<Rightarrow> u8 list \<Rightarrow> u8 list list transport" where
  "home_transport n bytes = \<lparr>t_net = home_net n (bytes @ replicate (128 - length bytes) 0) idle_pbuffer,
     m_port_table = [\<lparr>port_socket_id = 0, udp_port_number = 5683\<rparr>]\<rparr>"

lemma home_transport_simps:
  "serves (home_transport n bytes) 5683"
  "length bytes \<le> 128 \<Longrightarrow> can_write (home_transport n bytes) 5683 0 (node_addr n) dst (length bytes)"
  "length bytes \<le> 128 \<Longrightarrow> load_bytes (net_heap (t_net (home_transport n bytes))) (Ptr 0 0) (length bytes) = Inr bytes"
proof -
  have any: "IPV6_ADDR_ANY = replicate 16 0" by (rule IPV6_ADDR_ANY_def)
  have "m_socket (home_net n bs b) = m_socket (home_net n bs b) ! 0 # tl (m_socket (home_net n bs b))" for bs b
    by (cases "m_socket (home_net n bs b)") (use home_net_simps(7) [of n bs b] in auto)
  then show "serves (home_transport n bytes) 5683"
    unfolding serves_def
    by (metis (no_types, lifting) any PORT_DATA_CALLBACK_def home_net_simps(6) home_transport_def transport.select_convs socket_t.select_convs)
  assume len: "length bytes \<le> 128"
  then have "length (bytes @ replicate (128 - length bytes) (0 :: u8)) = 128" by simp
  note p = sample_rx_pool [OF this, where b = idle_pbuffer]
  show "can_write (home_transport n bytes) 5683 0 (node_addr n) dst (length bytes)"
    using p(1,2,4,5) p(8) [of "length bytes + 48"] len home_state_inv(4) [of n _ dst]
    by (simp add: can_write_def home_transport_def find_first_Some sends_from_def any c_consts del: HTONS_bytes) (simp add: node_addr_def)
  show "load_bytes (net_heap (t_net (home_transport n bytes))) (Ptr 0 0) (length bytes) = Inr bytes"
    using p(7) by (simp add: home_transport_def load_bytes.simps arr_read_def)
qed

theorem coap_transport_write_sends_witness:
  "\<exists>t'. coap_transport_write sample_env 0 (home_transport 1 [0x40, 1, 0, 7]) (Some \<lparr>port_number = 5683\<rparr>)
      (Some \<lparr>coap_remote_t.remote_addr = node_addr 2, remote_port_number = 5683\<rparr>) (Ptr 0 0) 4 = Inr (NRF_SUCCESS, t') \<and>
    n_world (t_net t') = [udp_datagram (node_addr 1) (node_addr 2) 5683 5683 [0x40, 1, 0, 7]]"
proof -
  let ?m = "[0x40, 1, 0, 7] :: u8 list"
  have "length ?m \<le> 128" by simp
  note h = home_transport_simps(2,3) [OF this]
  have send: "env_6lo_send sample_env 0 (udp_datagram (node_addr 1) (node_addr 2) 5683 5683 ?m) (of_nat (length ?m + 48))
      (n_world (t_net (home_transport 1 ?m))) = (NRF_SUCCESS, [udp_datagram (node_addr 1) (node_addr 2) 5683 5683 ?m])"
    by (simp add: sample_env_def home_transport_def)
  have "length (node_addr 2) = 16" "(5683 :: u16) \<noteq> 0" "(Ptr 0 0) \<noteq> NULL" "?m \<noteq> []" "length ?m + 48 < 65536"
    by (simp_all add: node_addr_def)
  from coap_transport_write_sends [OF h(1) this(1,2) h(2) this(3-5) send, of 0] show ?thesis by auto
qed

text \<open>The receiver's callback hands the message to a CoAP module that only returns success.\<close>

theorem coap_message_crosses_the_link_witness:
  "\<exists>pkt t' r1. coap_transport_write sample_env 0 (home_transport 1 [0x40, 1, 0, 7]) (Some \<lparr>port_number = 5683\<rparr>)
      (Some \<lparr>coap_remote_t.remote_addr = node_addr 2, remote_port_number = 5683\<rparr>) (Ptr 0 0) 4 = Inr (NRF_SUCCESS, t') \<and>
    n_world (t_net t') = [pkt] \<and>
    ble_6lowpan_evt_handler (sample_env\<lparr>env_rx := \<lambda>_. port_data_callback (\<lambda>_ _ _ _ _ s. Inr (NRF_SUCCESS, s))
        (m_port_table (home_transport 2 []))\<rparr>)
      (set_heap (t_net (home_transport 2 [])) ((net_heap (t_net (home_transport 2 [])))(0 := pkt @ []))) 0
      (BLE_6LO_EVT_INTERFACE_DATA_RX NRF_SUCCESS (Ptr 0 0) (of_nat (length pkt))) = free_rx r1 0 \<and>
    load_bytes (net_heap r1) (Ptr 0 48) (length [0x40, 1, 0, 7 :: u8]) = Inr [0x40, 1, 0, 7]"
proof -
  let ?m = "[0x40, 1, 0, 7] :: u8 list" and ?read = "\<lambda>_ _ _ _ _ s. Inr (NRF_SUCCESS, s)" and ?r = "home_transport 2 []"
  let ?F = "sample_env\<lparr>env_rx := \<lambda>_. port_data_callback ?read (m_port_table ?r)\<rparr>"
  have "length ?m \<le> 128" by simp
  note h = home_transport_simps(2,3) [OF this, where n = 1]
  have t: "takes (t_net ?r) 0 0 (node_addr 2)" using home_net_takes [of "replicate 128 0" 2] by (simp add: home_transport_def)
  have F: "env_rx ?F PORT_DATA_CALLBACK = port_data_callback ?read (m_port_table ?r)" by simp
  have "length (node_addr 2) = 16" "(5683 :: u16) \<noteq> 0" "(Ptr 0 0) \<noteq> NULL" "?m \<noteq> []" "length ?m + 48 < 65536"
    by (simp_all add: node_addr_def)
  from coap_message_crosses_the_link [OF h(1,2) this(3-5,1,2) t home_transport_simps(1) F, where E = sample_env and ad = 0 and blk = 0 and post = "[]"]
  show ?thesis by (auto simp: sample_env_def home_transport_def)
qed

end
