(* ===== verification/Coap_Codec.thy ===== *)
theory Coap_Codec
  imports Coap_Message
begin

text \<open>
  What the message codec promises. \<open>pdu\<close> is a CoAP message as RFC 7252 describes it, with absolute
  option numbers, and \<open>pdu_bytes\<close> its serialisation, written over natural numbers and independent of
  the code. The encoder of \<open>Coap_Message\<close> writes exactly \<open>pdu_bytes\<close> of the message it is given, and
  the decoder reads a message back from them.
\<close>

section \<open>The wire format\<close>

definition rfc_nibble :: "nat \<Rightarrow> nat" where
  "rfc_nibble n = (if n < 13 then n else if n < 269 then 13 else 14)"

definition rfc_ext :: "nat \<Rightarrow> u8 list" where
  "rfc_ext n =
     (if n < 13 then []
      else if n < 269 then [of_nat (n - 13)]
      else [of_nat ((n - 269) div 256), of_nat ((n - 269) mod 256)])"

definition rfc_option :: "nat \<Rightarrow> u8 list \<Rightarrow> u8 list" where
  "rfc_option delta bs =
     of_nat (16 * rfc_nibble delta + rfc_nibble (length bs)) # rfc_ext delta @ rfc_ext (length bs) @ bs"

fun rfc_options :: "nat \<Rightarrow> (nat \<times> u8 list) list \<Rightarrow> u8 list" where
  "rfc_options prev [] = []"
| "rfc_options prev ((num, bs) # os) = rfc_option (num - prev) bs @ rfc_options num os"

record pdu =
  pdu_version :: nat
  pdu_type :: nat
  pdu_code :: u8
  pdu_id :: u16
  pdu_token :: "u8 list"
  pdu_options :: "(nat \<times> u8 list) list"
  pdu_payload :: "u8 list"

definition rfc_header :: "pdu \<Rightarrow> u8 list" where
  "rfc_header p =
     [of_nat (64 * pdu_version p + 16 * pdu_type p + length (pdu_token p)), pdu_code p,
      of_nat (unat (pdu_id p) div 256), of_nat (unat (pdu_id p) mod 256)]"

definition rfc_payload :: "u8 list \<Rightarrow> u8 list" where
  "rfc_payload bs = (if bs = [] then [] else 0xFF # bs)"

definition pdu_bytes :: "pdu \<Rightarrow> u8 list" where
  "pdu_bytes p = rfc_header p @ pdu_token p @ rfc_options 0 (pdu_options p) @ rfc_payload (pdu_payload p)"

text \<open>
  The messages the module can carry: at most 8 options, in ascending order of their numbers, which
  stay below 256 because \<open>options_delta\<close> is a \<open>uint8_t\<close>.
\<close>

fun ascending_from :: "nat \<Rightarrow> (nat \<times> u8 list) list \<Rightarrow> bool" where
  "ascending_from prev [] \<longleftrightarrow> True"
| "ascending_from prev ((num, bs) # os) \<longleftrightarrow> prev \<le> num \<and> num < 256 \<and> ascending_from num os"

definition pdu_wf :: "pdu \<Rightarrow> bool" where
  "pdu_wf p \<longleftrightarrow> pdu_version p < 4 \<and> pdu_type p < 4 \<and> length (pdu_token p) \<le> 8 \<and>
     length (pdu_options p) \<le> COAP_MAX_NUMBER_OF_OPTIONS \<and> ascending_from 0 (pdu_options p) \<and>
     length (pdu_bytes p) < 65536"

section \<open>Bytes and words\<close>

lemma rfc_nibble_le: "rfc_nibble n \<le> 14"
  by (simp add: rfc_nibble_def)

lemma nibbles_u8: "unat (of_nat (16 * rfc_nibble a + rfc_nibble b) :: u8) = 16 * rfc_nibble a + rfc_nibble b"
  using rfc_nibble_le [of a] rfc_nibble_le [of b] by (intro unat_of_nat_u8) linarith

lemma drop_bit_high_nibble: "drop_bit 4 (x AND 0xF0) = drop_bit 4 (x :: u8)"
proof (rule bit_word_eqI)
  fix n assume n: "n < LENGTH(8)"
  have m: "(0xF0 :: u8) = push_bit 4 (mask 4)" by (simp add: mask_eq_exp_minus_1)
  show "bit (drop_bit 4 (x AND 0xF0)) n = bit (drop_bit 4 x) n"
    unfolding m by (auto simp: bit_simps dest: bit_imp_le_length)
qed

lemma and_low_nibble: "x AND 0x0F = take_bit 4 (x :: u8)"
  by (simp add: take_bit_eq_mask mask_eq_exp_minus_1)

lemma unat_drop_bit_u8: "unat (drop_bit n (x :: u8)) = unat x div 2 ^ n"
  unfolding unat_drop_bit_eq by (rule drop_bit_eq_div)

lemma unat_take_bit_u8: "unat (take_bit n (x :: u8)) = unat x mod 2 ^ n"
  unfolding unsigned_take_bit_eq by (rule take_bit_eq_mod)

lemma u16_eq_of_nat: "unat x = n \<Longrightarrow> (x :: u16) = of_nat n"
  by auto

lemma ucast_u8_u16: "(ucast (x :: u8) :: u16) = of_nat (unat x)"
  by simp

lemma nibble_high:
  assumes "unat (x :: u8) = 16 * a + b" "b < 16"
  shows "(ucast (drop_bit 4 (x AND 0xF0)) :: u16) = of_nat a"
proof (rule u16_eq_of_nat)
  show "unat (ucast (drop_bit 4 (x AND 0xF0)) :: u16) = a"
    unfolding drop_bit_high_nibble unat_ucast_u8_u16 unat_drop_bit_u8 assms(1) using assms(2) by simp
qed

lemma nibble_low:
  assumes "unat (x :: u8) = 16 * a + b" "b < 16"
  shows "(ucast (x AND 0x0F) :: u16) = of_nat b"
proof (rule u16_eq_of_nat)
  show "unat (ucast (x AND 0x0F) :: u16) = b"
    unfolding and_low_nibble unat_ucast_u8_u16 unat_take_bit_u8 assms(1) using assms(2) by simp
qed

lemma ext_byte_1: "unat (x :: u8) = n - 13 \<Longrightarrow> 13 \<le> n \<Longrightarrow> 13 + (ucast x :: u16) = of_nat n"
  unfolding ucast_u8_u16 by (simp add: of_nat_diff del: of_nat_unat)

lemma u16_of_bytes_nat:
  "push_bit 8 (ucast (x :: u8)) + ucast (y :: u8) = (of_nat (256 * unat x + unat y) :: u16)"
  by (simp add: push_bit_eq_mult)

lemma byte_div_u8: "n < 65536 \<Longrightarrow> unat (of_nat (n div 256) :: u8) = n div 256"
  by (rule unat_of_nat_u8) linarith

lemma byte_mod_u8: "unat (of_nat (n mod 256) :: u8) = n mod 256"
  by (rule unat_of_nat_u8) simp

lemma ext_byte_2:
  "unat (x :: u8) = (n - 269) div 256 \<Longrightarrow> unat (y :: u8) = (n - 269) mod 256 \<Longrightarrow> 269 \<le> n \<Longrightarrow>
   269 + push_bit 8 (ucast x) + ucast y = (of_nat n :: u16)"
proof -
  assume a: "unat x = (n - 269) div 256" "unat y = (n - 269) mod 256" "269 \<le> n"
  have "269 + (push_bit 8 (ucast x) + ucast y) = (of_nat (269 + (256 * unat x + unat y)) :: u16)"
    unfolding u16_of_bytes_nat by simp
  also have "269 + (256 * unat x + unat y) = n" using a by simp
  finally show ?thesis by (simp only: add.assoc)
qed

lemma u16_hi_nat: "u16_hi x = of_nat (unat x div 256)"
  and u16_lo_nat: "u16_lo x = of_nat (unat x mod 256)"
proof -
  have "u16_of_bytes (of_nat (unat x div 256)) (of_nat (unat x mod 256)) = x"
    unfolding u16_of_bytes_def u16_of_bytes_nat byte_div_u8 [OF unat_u16_less] byte_mod_u8 by simp
  then show "u16_hi x = of_nat (unat x div 256)" "u16_lo x = of_nat (unat x mod 256)"
    by (metis u16_hi_of_bytes u16_lo_of_bytes)+
qed

section \<open>Reading options\<close>

text \<open>The bytes \<open>bs\<close> lie at offset \<open>k\<close> of the memory object \<open>b\<close>.\<close>

definition bytes_at :: "heap \<Rightarrow> nat \<Rightarrow> nat \<Rightarrow> u8 list \<Rightarrow> bool" where
  "bytes_at h b k bs \<longleftrightarrow> k + length bs \<le> length (h b) \<and> take (length bs) (drop k (h b)) = bs"

lemma bytes_at_nth: "bytes_at h b k bs \<Longrightarrow> i < length bs \<Longrightarrow> h b ! (k + i) = bs ! i"
  unfolding bytes_at_def by (metis add_leD1 nth_drop nth_take)

lemma bytes_at_load [simp]: "bytes_at h b k bs \<Longrightarrow> i < length bs \<Longrightarrow> load h (Ptr b k) i = Inr (bs ! i)"
  using bytes_at_nth [of h b k bs i] by (simp add: bytes_at_def)

declare load.simps(2) [simp del] load_bytes.simps(2) [simp del]

lemma bytes_at_load_bytes [simp]:
  "bytes_at h b k bs \<Longrightarrow> n = length bs \<Longrightarrow> load_bytes h (Ptr b k) n = Inr bs"
  by (simp add: bytes_at_def arr_read_def load_bytes.simps)

lemma bytes_at_append:
  "bytes_at h b k (xs @ ys) \<longleftrightarrow> bytes_at h b k xs \<and> bytes_at h b (k + length xs) ys"
proof -
  have "k + length xs + length ys \<le> length (h b) \<Longrightarrow>
    take (length xs + length ys) (drop k (h b)) = xs @ ys \<longleftrightarrow>
    take (length xs) (drop k (h b)) = xs \<and> take (length ys) (drop (k + length xs) (h b)) = ys"
    by (subst take_add, subst append_eq_append_conv) (auto simp: add.commute)
  then show ?thesis by (auto simp: bytes_at_def add.assoc)
qed

lemma bytes_at_Cons:
  "bytes_at h b k (x # xs) \<longleftrightarrow> bytes_at h b k [x] \<and> bytes_at h b (Suc k) xs"
  using bytes_at_append [of h b k "[x]" xs] by simp

lemma length_rfc_ext: "length (rfc_ext n) \<le> 2"
  by (simp add: rfc_ext_def)

lemma u16_small_ne: "n < 13 \<Longrightarrow> (of_nat n :: u16) \<noteq> 13" "n < 13 \<Longrightarrow> (of_nat n :: u16) \<noteq> 14"
  using unat_of_nat_u16 [of n] by auto

text \<open>The two case distinctions of \<open>decode_option\<close> on a nibble read the number back.\<close>

lemma length_parse:
  assumes "bytes_at h b (k + i) (rfc_ext n)" "n < 65536"
  shows "(if (of_nat (rfc_nibble n) :: u16) = 13 then
            c_bind (load h (Ptr b k) i) (\<lambda>b1. Inr (13 + ucast b1, i + 1))
          else if (of_nat (rfc_nibble n) :: u16) = 14 then
            c_bind (load h (Ptr b k) i) (\<lambda>b1. c_bind (load h (Ptr b k) (i + 1)) (\<lambda>b2.
              Inr (269 + push_bit 8 (ucast b1) + ucast b2, i + 2)))
          else Inr (of_nat (rfc_nibble n), i))
         = Inr (of_nat n :: u16, i + length (rfc_ext n))"
proof -
  have ld: "load h (Ptr b k) (i + j) = Inr (rfc_ext n ! j)" if "j < length (rfc_ext n)" for j
    using bytes_at_nth [OF assms(1) that] assms(1) that by (simp add: bytes_at_def add.assoc load.simps)
  consider "n < 13" | "13 \<le> n" "n < 269" | "269 \<le> n" by linarith
  then show ?thesis
  proof cases
    case 1
    then show ?thesis by (simp add: rfc_nibble_def rfc_ext_def u16_small_ne)
  next
    case 2
    have "13 + (ucast (of_nat (n - 13) :: u8) :: u16) = of_nat n"
      using 2 by (intro ext_byte_1 unat_of_nat_u8) auto
    then show ?thesis using 2 ld [of 0]
      by (simp add: rfc_nibble_def rfc_ext_def del: of_nat_diff)
  next
    case 3
    have "269 + push_bit 8 (ucast (of_nat ((n - 269) div 256) :: u8))
            + ucast (of_nat ((n - 269) mod 256) :: u8) = (of_nat n :: u16)"
      using 3 assms(2) by (intro ext_byte_2 byte_div_u8 byte_mod_u8) auto
    then show ?thesis using 3 ld [of 0] ld [of 1]
      by (simp add: rfc_nibble_def rfc_ext_def del: of_nat_diff)
  qed
qed

lemma delta_parse:
  assumes "bytes_at h b (k + 1) (rfc_ext d)" "d < 65536"
  shows "(if (of_nat (rfc_nibble d) :: u16) = 13 then
            c_bind (load h (Ptr b k) 1) (\<lambda>b1. Inr (acc + (13 + ucast b1), 2))
          else if (of_nat (rfc_nibble d) :: u16) = 14 then
            c_bind (load h (Ptr b k) 1) (\<lambda>b1. c_bind (load h (Ptr b k) 2) (\<lambda>b2.
              Inr (acc + 269 + push_bit 8 (ucast b1) + ucast b2, 3)))
          else Inr (acc + of_nat (rfc_nibble d), 1))
         = Inr (acc + of_nat d :: u16, 1 + length (rfc_ext d))" (is "?lhs = _")
proof -
  have "?lhs = c_bind
      (if (of_nat (rfc_nibble d) :: u16) = 13 then
         c_bind (load h (Ptr b k) 1) (\<lambda>b1. Inr (13 + ucast b1, 1 + 1))
       else if (of_nat (rfc_nibble d) :: u16) = 14 then
         c_bind (load h (Ptr b k) 1) (\<lambda>b1. c_bind (load h (Ptr b k) (1 + 1)) (\<lambda>b2.
           Inr (269 + push_bit 8 (ucast b1) + ucast b2, 1 + 2)))
       else Inr (of_nat (rfc_nibble d), 1)) (\<lambda>(x, i). Inr (acc + x, i))"
    by (simp add: c_bind_assoc add.assoc numeral_2_eq_2 numeral_3_eq_3)
  then show ?thesis unfolding length_parse [OF assms] by simp
qed

lemma ucast_of_nat_u16_u8: "ucast (of_nat n :: u16) = (of_nat n :: u8)"
  by (rule bit_word_eqI) (auto simp: bit_simps)

lemma length_rfc_option:
  "length (rfc_option d bs) = 1 + length (rfc_ext d) + length (rfc_ext (length bs)) + length bs"
  by (simp add: rfc_option_def)

lemma decode_option_rfc:
  assumes at: "bytes_at h b k (rfc_option d bs)"
    and small: "length (rfc_option d bs) < 65536" "unat (options_delta m) + d < 65536"
    and room: "unat (options_count m) < COAP_MAX_NUMBER_OF_OPTIONS" "length (options m) = COAP_MAX_NUMBER_OF_OPTIONS"
  shows "decode_option h (Ptr b k) m = Inr (NRF_SUCCESS,
     m\<lparr>options := (options m)[unat (options_count m) :=
          \<lparr>opt_number = of_nat (unat (options_delta m) + d), opt_length = of_nat (length bs),
           opt_data = Ptr b (k + (length (rfc_option d bs) - length bs))\<rparr>],
       options_delta := of_nat (unat (options_delta m) + d)\<rparr>,
     of_nat (length (rfc_option d bs)))"
proof -
  let ?hd = "16 * rfc_nibble d + rfc_nibble (length bs)"
  have l: "length bs < 65536" "d < 65536" using small by (simp_all add: length_rfc_option)
  have at0: "bytes_at h b k [of_nat ?hd]" and at1: "bytes_at h b (k + 1) (rfc_ext d)"
    and at2: "bytes_at h b (k + (1 + length (rfc_ext d))) (rfc_ext (length bs))"
    using at by (simp_all add: rfc_option_def bytes_at_Cons [of h b k _ "_ @ _"] bytes_at_append add.assoc)
  have b0: "load h (Ptr b k) 0 = Inr (of_nat ?hd)" using bytes_at_load [OF at0, of 0] by simp
  have hi: "(ucast (drop_bit 4 ((of_nat ?hd :: u8) AND 0xF0)) :: u16) = of_nat (rfc_nibble d)"
    using nibbles_u8 rfc_nibble_le [of "length bs"] by (intro nibble_high) auto
  have lo: "(ucast ((of_nat ?hd :: u8) AND 0x0F) :: u16) = of_nat (rfc_nibble (length bs))"
    using nibbles_u8 rfc_nibble_le [of "length bs"] by (intro nibble_low) auto
  have upd: "option_upd m' (unat (options_count m)) f = Inr (m'\<lparr>options := (options m')[unat (options_count m) := f (options m' ! unat (options_count m))]\<rparr>)"
    if "length (options m') = COAP_MAX_NUMBER_OF_OPTIONS" for m' f
    using that room by (simp add: option_upd_def)
  have len: "length (rfc_option d bs) - length bs = Suc (length (rfc_ext d) + length (rfc_ext (length bs)))"
    "(of_nat (length (rfc_option d bs)) :: u16) = 1 + (of_nat (length (rfc_ext d)) + of_nat (length (rfc_ext (length bs)))) + of_nat (length bs)"
    by (simp_all add: length_rfc_option)
  have acc: "ucast (ucast (options_delta m) + of_nat d :: u16) = options_delta m + of_nat d"
    using ucast_of_nat_u16_u8 [of "unat (options_delta m) + d"] by simp
  have opt: "op\<lparr>opt_number := x, opt_length := y, opt_data := z\<rparr> = \<lparr>opt_number = x, opt_length = y, opt_data = z\<rparr>"
    for op x y z by (cases op) simp
  show ?thesis
    unfolding decode_option_def Let_def b0 c_bind_Inr hi lo delta_parse [OF at1 l(2)] prod.case
    unfolding upd [OF room(2)] c_bind_Inr length_parse [OF at2 l(1)] prod.case
    using room by (simp add: upd len acc opt)
qed

section \<open>Reading the option list\<close>

text \<open>The elements of the option array the decoder fills in; \<open>k\<close> is the offset of the first option.\<close>

fun decoded_options :: "nat \<Rightarrow> nat \<Rightarrow> nat \<Rightarrow> (nat \<times> u8 list) list \<Rightarrow> coap_option_t list" where
  "decoded_options b k prev [] = []"
| "decoded_options b k prev ((num, bs) # os) =
     (let n = length (rfc_option (num - prev) bs)
      in \<lparr>opt_number = of_nat num, opt_length = of_nat (length bs), opt_data = Ptr b (k + (n - length bs))\<rparr>
         # decoded_options b (k + n) num os)"

lemma length_decoded_options [simp]: "length (decoded_options b k prev os) = length os"
  by (induction b k prev os rule: decoded_options.induct) (simp_all add: Let_def)

lemma load_shift: "load h (Ptr b r) i = load h (Ptr b (r + i)) 0"
  by (simp add: load.simps)

lemma rfc_option_not_marker: "hd (rfc_option d bs) \<noteq> COAP_PAYLOAD_MARKER"
proof
  assume "hd (rfc_option d bs) = COAP_PAYLOAD_MARKER"
  then have "unat (of_nat (16 * rfc_nibble d + rfc_nibble (length bs)) :: u8) = 255"
    by (simp add: rfc_option_def COAP_PAYLOAD_MARKER_def)
  then show False using nibbles_u8 [of d "length bs"] rfc_nibble_le [of d] rfc_nibble_le [of "length bs"] by simp
qed

lemma take_Suc_update: "c < length xs \<Longrightarrow> take (Suc c) (xs[c := v]) = take c xs @ [v]"
  by (simp add: take_Suc_conv_app_nth)

lemma rfc_payload_hd: "pl \<noteq> [] \<Longrightarrow> hd (rfc_payload pl) = COAP_PAYLOAD_MARKER \<and> rfc_payload pl = hd (rfc_payload pl) # pl"
  by (simp add: rfc_payload_def COAP_PAYLOAD_MARKER_def)

lemma decode_options_end:
  assumes "bytes_at h b (r + unat bi) (rfc_payload pl)" "unat bi + length (rfc_payload pl) = unat ml"
  shows "decode_options h (Ptr b r) ml bi m = Inr (NRF_SUCCESS, bi, m)"
proof (cases "pl = []")
  case True
  then show ?thesis using assms(2)
    by (subst decode_options.simps) (simp add: rfc_payload_def word_less_nat_alt)
next
  case False
  then have "load h (Ptr b r) (unat bi) = Inr COAP_PAYLOAD_MARKER"
    using bytes_at_load [OF assms(1), of 0] rfc_payload_hd [OF False]
    by (subst load_shift) (metis hd_conv_nth length_greater_0_conv list.discI)
  then show ?thesis using assms(2) False
    by (subst decode_options.simps) (simp add: rfc_payload_def word_less_nat_alt)
qed

lemma decode_options_rfc:
  assumes "bytes_at h b (r + unat bi) (rfc_options prev os @ rfc_payload pl)"
    and "unat bi + length (rfc_options prev os @ rfc_payload pl) = unat ml"
    and "ascending_from prev os" "unat (options_delta m) = prev"
    and "unat (options_count m) + length os \<le> COAP_MAX_NUMBER_OF_OPTIONS"
    and "length (options m) = COAP_MAX_NUMBER_OF_OPTIONS"
  shows "\<exists>d. decode_options h (Ptr b r) ml bi m =
    Inr (NRF_SUCCESS, of_nat (unat bi + length (rfc_options prev os)),
         m\<lparr>options := take (unat (options_count m)) (options m)
              @ decoded_options b (r + unat bi) prev os
              @ drop (unat (options_count m) + length os) (options m),
           options_count := of_nat (unat (options_count m) + length os), options_delta := d\<rparr>)"
  using assms
proof (induction prev os arbitrary: bi m rule: rfc_options.induct)
  case (1 prev)
  then have "decode_options h (Ptr b r) ml bi m = Inr (NRF_SUCCESS, bi, m)"
    by (intro decode_options_end) simp_all
  then show ?case by (auto intro!: exI [of _ "options_delta m"])
next
  case (2 prev num bs os)
  let ?o = "rfc_option (num - prev) bs"
  let ?i = "unat (options_count m)"
  define x where "x = \<lparr>opt_number = of_nat num, opt_length = of_nat (length bs),
    opt_data = Ptr b (r + unat bi + (length ?o - length bs))\<rparr>"
  define m1 where "m1 = m\<lparr>options := (options m)[?i := x], options_delta := of_nat num\<rparr>"
  have at: "bytes_at h b (r + unat bi) ?o"
    "bytes_at h b (r + (unat bi + length ?o)) (rfc_options num os @ rfc_payload pl)"
    using "2.prems"(1) by (simp_all add: bytes_at_append add.assoc)
  have num: "unat (options_delta m) + (num - prev) = num" "num < 256" and asc: "ascending_from num os"
    using "2.prems"(3,4) by auto
  have o0: "length ?o > 0" by (simp add: rfc_option_def)
  have lt: "unat bi + length ?o + length (rfc_options num os @ rfc_payload pl) = unat ml"
    using "2.prems"(2) by simp
  have small: "length ?o < 65536" using lt unat_u16_less [of ml] by linarith
  have b0: "load h (Ptr b r) (unat bi) = Inr (hd ?o)"
    using bytes_at_load [OF at(1), of 0] o0 by (subst load_shift) (simp add: hd_conv_nth)
  have dec: "decode_option h (ptr_add (Ptr b r) (unat bi)) m = Inr (NRF_SUCCESS, m1, of_nat (length ?o))"
    using decode_option_rfc [OF at(1) small, of m] num "2.prems"(5,6)
    by (simp add: m1_def x_def)
  have bi': "unat (bi + of_nat (length ?o)) = unat bi + length ?o"
    using lt unat_u16_less [of ml] small by (subst unat_add_u16) (simp_all add: unat_of_nat_u16)
  have cnt: "unat (options_count m + 1) = Suc ?i"
    using unat_add_u8 [of "options_count m" 1] "2.prems"(5) by (simp add: c_consts)
  define m2 where "m2 = m1\<lparr>options_count := options_count m1 + 1\<rparr>"
  have bi_lt: "unat bi < unat ml" using lt o0 by linarith
  have step: "decode_options h (Ptr b r) ml bi m = decode_options h (Ptr b r) ml (bi + of_nat (length ?o)) m2"
    using b0 dec bi_lt rfc_option_not_marker [of "num - prev" bs]
    by (subst decode_options.simps) (simp add: word_less_nat_alt m2_def)
  obtain d where "decode_options h (Ptr b r) ml (bi + of_nat (length ?o)) m2 =
    Inr (NRF_SUCCESS, of_nat (unat (bi + of_nat (length ?o)) + length (rfc_options num os)),
         m2\<lparr>options := take (unat (options_count m2)) (options m2)
              @ decoded_options b (r + unat (bi + of_nat (length ?o))) num os
              @ drop (unat (options_count m2) + length os) (options m2),
           options_count := of_nat (unat (options_count m2) + length os), options_delta := d\<rparr>)"
    using "2.IH" [of "bi + of_nat (length ?o)" m2] at(2) lt asc num "2.prems"(5,6)
    by (auto simp: bi' m2_def m1_def cnt unat_of_nat_u8)
  then show ?case
    using "2.prems"(5,6) unfolding step bi'
    by (intro exI [of _ d]) (simp add: m2_def m1_def cnt take_Suc_update Let_def x_def add.assoc)
qed

section \<open>Reading a message\<close>

text \<open>The PDU a decoded message stands for: its options carry absolute numbers.\<close>

definition bytes_of :: "heap \<Rightarrow> ptr \<Rightarrow> nat \<Rightarrow> u8 list" where
  "bytes_of h p n = (case load_bytes h p n of Inl _ \<Rightarrow> [] | Inr bs \<Rightarrow> bs)"

definition received_pdu :: "heap \<Rightarrow> coap_message_t \<Rightarrow> pdu" where
  "received_pdu h m =
     \<lparr>pdu_version = unat (hdr_version (header m)), pdu_type = unat (hdr_type (header m)),
      pdu_code = hdr_code (header m), pdu_id = hdr_id (header m),
      pdu_token = take (unat (hdr_token_len (header m))) (token m),
      pdu_options = map (\<lambda>op. (unat (opt_number op), bytes_of h (opt_data op) (unat (opt_length op))))
                      (take (unat (options_count m)) (options m)),
      pdu_payload = bytes_of h (p_payload m) (unat (payload_len m))\<rparr>"

lemma decode_token_rfc:
  assumes "bytes_at h b (r + unat bi) tk" "unat bi + length tk \<le> unat ml"
    and "n = i + length tk" "n \<le> length tok"
  shows "decode_token h (Ptr b r) ml n bi i tok = Inr (bi + of_nat (length tk), take i tok @ tk @ drop n tok)"
  using assms
proof (induction tk arbitrary: bi i tok)
  case Nil
  then show ?case by (subst decode_token.simps) simp
next
  case (Cons x tk)
  have at: "bytes_at h b (r + unat bi) [x]" "bytes_at h b (Suc (r + unat bi)) tk"
    using Cons.prems(1) bytes_at_Cons [of h b "r + unat bi" x tk] by auto
  have ld: "load h (Ptr b r) (unat bi) = Inr x"
    using bytes_at_load [OF at(1), of 0] by (subst load_shift) simp
  have bi: "unat (bi + 1) = Suc (unat bi)"
    using Cons.prems(2) unat_u16_less [of ml] by (subst unat_add_u16) simp_all
  have "decode_token h (Ptr b r) ml n bi i tok = decode_token h (Ptr b r) ml n (bi + 1) (Suc i) (tok[i := x])"
    using ld Cons.prems by (subst decode_token.simps) (simp add: word_less_nat_alt)
  also have "\<dots> = Inr (bi + 1 + of_nat (length tk), take (Suc i) (tok[i := x]) @ tk @ drop n (tok[i := x]))"
    using Cons.IH [of "bi + 1" "Suc i" "tok[i := x]"] Cons.prems at(2) by (simp add: bi)
  finally show ?case using Cons.prems(3,4) by (simp add: take_Suc_update ac_simps)
qed

lemma header_byte:
  assumes "v < 4" "t < 4" "l < 16"
  defines "x \<equiv> of_nat (64 * v + 16 * t + l) :: u8"
  shows "unat (drop_bit 6 x) = v" "unat (drop_bit 4 x AND 0x03) = t" "unat (x AND 0x0F) = l"
proof -
  have x: "unat x = 64 * v + 16 * t + l"
    unfolding x_def using assms by (intro unat_of_nat_u8) linarith
  have m3: "(0x03 :: u8) = mask 2" by (simp add: mask_eq_exp_minus_1)
  show "unat (drop_bit 6 x) = v" using assms unfolding unat_drop_bit_u8 x by simp
  have split: "64 * v + 16 * t + l = l + 16 * (4 * v + t)" by simp
  have "(64 * v + 16 * t + l) div 16 = 4 * v + t"
    unfolding split using assms(3) by simp
  then have "unat (drop_bit 4 x) = 4 * v + t"
    unfolding unat_drop_bit_u8 x by simp
  then have "unat (take_bit 2 (drop_bit 4 x)) = t"
    unfolding unat_take_bit_u8 using assms by simp
  then show "unat (drop_bit 4 x AND 0x03) = t"
    unfolding m3 by (simp add: take_bit_eq_mask)
  have "(64 * v + 16 * t + l) mod 16 = l"
    unfolding split mod_mult_self2 using assms(3) by simp
  then show "unat (x AND 0x0F) = l"
    unfolding and_low_nibble unat_take_bit_u8 x by simp
qed

lemma decoded_options_view:
  assumes "bytes_at h b k (rfc_options prev os)" "ascending_from prev os" "length (rfc_options prev os) < 65536"
  shows "map (\<lambda>op. (unat (opt_number op), bytes_of h (opt_data op) (unat (opt_length op))))
           (decoded_options b k prev os) = os"
  using assms
proof (induction prev os arbitrary: k rule: rfc_options.induct)
  case (1 prev)
  then show ?case by simp
next
  case (2 prev num bs os)
  let ?o = "rfc_option (num - prev) bs"
  have at: "bytes_at h b k ?o" "bytes_at h b (k + length ?o) (rfc_options num os)"
    using 2 by (simp_all add: bytes_at_append)
  have o: "?o = take (length ?o - length bs) ?o @ bs" by (simp add: rfc_option_def)
  have len: "length bs < 65536" "length bs \<le> length ?o" using 2 by (simp_all add: length_rfc_option)
  have "bytes_at h b (k + (length ?o - length bs)) bs"
    using at(1) bytes_at_append [of h b k "take (length ?o - length bs) ?o" bs] o by simp
  then have "bytes_of h (Ptr b (k + (length ?o - length bs))) (length bs) = bs"
    by (simp add: bytes_of_def del: load_bytes.simps)
  then show ?case
    using 2 at(2) len by (simp add: Let_def unat_of_nat_u16 del: load_bytes.simps)
qed

text \<open>A message as the decoder leaves it behind for the PDU \<open>p\<close> from the address \<open>a\<close>.\<close>

definition decoded :: "heap \<Rightarrow> coap_remote_t \<Rightarrow> pdu \<Rightarrow> coap_message_t \<Rightarrow> bool" where
  "decoded h a p m \<longleftrightarrow> received_pdu h m = p \<and> remote m = a \<and> length (token m) = 8 \<and>
     length (options m) = COAP_MAX_NUMBER_OF_OPTIONS \<and> unat (options_count m) = length (pdu_options p) \<and>
     unat (hdr_token_len (header m)) = length (pdu_token p)"

lemma coap_message_decode_rfc:
  assumes at: "bytes_at h b r (pdu_bytes p)" and ml: "unat ml = length (pdu_bytes p)" and wf: "pdu_wf p"
    and m: "length (options m) = COAP_MAX_NUMBER_OF_OPTIONS" "length (token m) = 8" "payload_len m = 0"
  shows "\<exists>m'. coap_message_decode h (Some m) (Ptr b r) ml (Some address) = Inr (NRF_SUCCESS, Some m') \<and>
    decoded h address p m'"
proof -
  let ?hd = "64 * pdu_version p + 16 * pdu_type p + length (pdu_token p)"
  let ?n = "length (pdu_token p)" and ?os = "pdu_options p" and ?pl = "pdu_payload p"
  define k where "k = 4 + ?n"
  define e where "e = k + length (rfc_options 0 ?os)"
  note w = wf [unfolded pdu_wf_def]
  have hlen: "length (rfc_header p) = 4" by (simp add: rfc_header_def)
  have ath: "bytes_at h b r (rfc_header p)" and att: "bytes_at h b (r + 4) (pdu_token p)"
    and ato: "bytes_at h b (r + k) (rfc_options 0 ?os @ rfc_payload ?pl)"
    using at by (simp_all add: pdu_bytes_def bytes_at_append hlen add.assoc k_def)
  have total: "k + length (rfc_options 0 ?os @ rfc_payload ?pl) = unat ml"
    by (simp add: ml pdu_bytes_def hlen k_def)
  have ld: "load h (Ptr b r) i = Inr (rfc_header p ! i)" if "i < 4" for i
    using bytes_at_load [OF ath] that hlen by simp
  note hb = header_byte [of "pdu_version p" "pdu_type p" "?n"]
  have hb: "unat (drop_bit 6 (of_nat ?hd :: u8)) = pdu_version p"
    "unat (drop_bit 4 (of_nat ?hd :: u8) AND 0x03) = pdu_type p" "unat ((of_nat ?hd :: u8) AND 0x0F) = ?n"
    using w by (intro hb; linarith)+
  have mid: "u16_of_bytes (rfc_header p ! 2) (rfc_header p ! 3) = pdu_id p"
    by (simp add: rfc_header_def u16_hi_nat [symmetric] u16_lo_nat [symmetric])
  define b0 where "b0 = (of_nat ?hd :: u8)"
  note hb = hb [folded b0_def]
  define hdr where "hdr = \<lparr>hdr_version = drop_bit 6 b0, hdr_type = drop_bit 4 (b0) AND 0x03,
    hdr_token_len = b0 AND 0x0F, hdr_code = pdu_code p, hdr_id = pdu_id p\<rparr>"
  have u4: "unat (4 :: u16) = 4" by simp
  have n8: "?n \<le> 8" using w by blast
  have tk: "decode_token h (Ptr b r) ml ?n 4 0 (token m)
      = Inr (of_nat k, pdu_token p @ drop ?n (token m))"
    using decode_token_rfc [of h b r 4 "pdu_token p" ml ?n 0 "token m"] att total n8 m(2)
    by (simp add: u4 k_def)
  define m1 where "m1 = m\<lparr>remote := address, header := hdr, token := pdu_token p @ drop ?n (token m),
    options_count := 0, options_delta := 0\<rparr>"
  have uk: "unat (of_nat k :: u16) = k" using n8 k_def by (intro unat_of_nat_u16) linarith
  obtain d where os: "decode_options h (Ptr b r) ml (of_nat k) m1 =
      Inr (NRF_SUCCESS, of_nat e,
        m1\<lparr>options := decoded_options b (r + k) 0 ?os @ drop (length ?os) (options m),
           options_count := of_nat (length ?os), options_delta := d\<rparr>)"
    using decode_options_rfc [of h b r "of_nat k" 0 ?os ?pl ml m1] ato total w m(1)
    unfolding uk e_def by (auto simp: m1_def)
  define m2 where "m2 = m1\<lparr>options := decoded_options b (r + k) 0 ?os @ drop (length ?os) (options m),
           options_count := of_nat (length ?os), options_delta := d\<rparr>"
  have e_ml: "e + length (rfc_payload ?pl) = unat ml" using total by (simp add: e_def)
  have ue: "unat (of_nat e :: u16) = e"
    using e_ml unat_u16_less [of ml] by (intro unat_of_nat_u16) linarith
  have os_small: "length (rfc_options 0 ?os) < 65536"
    using e_ml unat_u16_less [of ml] unfolding e_def by linarith
  have dec: "coap_message_decode h (Some m) (Ptr b r) ml (Some address) =
      (if of_nat e < ml then
         c_bind (load h (Ptr b r) e) (\<lambda>c. if c = COAP_PAYLOAD_MARKER then
           Inr (NRF_SUCCESS, Some (m2\<lparr>payload_len := ml - (of_nat e + 1),
                                     p_payload := ptr_add (Ptr b r) (unat (of_nat e + 1 :: u16))\<rparr>))
           else Inr (COAP_MESSAGE_INVALID_CONTENT, Some m2))
       else Inr (NRF_SUCCESS, Some m2))"
  proof -
    have "\<not> ml < 4" using total by (simp add: word_less_nat_alt k_def)
    moreover have "rfc_header p ! 0 = b0" "rfc_header p ! 1 = pdu_code p" by (simp_all add: rfc_header_def b0_def)
    ultimately show ?thesis
      using ld [of 0] ld [of 1] ld [of 2] ld [of 3] tk os hb(3) mid ue
      by (simp add: coap_message_decode_def Let_def hdr_def m1_def m2_def cong: if_cong)
  qed
  have view: "map (\<lambda>op. (unat (opt_number op), bytes_of h (opt_data op) (unat (opt_length op))))
      (decoded_options b (r + k) 0 ?os) = ?os"
    using ato w os_small by (intro decoded_options_view) (simp_all add: bytes_at_append)
  have cnt: "unat (of_nat (length ?os) :: u8) = length ?os"
    using w by (intro unat_of_nat_u8) (simp add: c_consts)
  have dl: "length (decoded_options b (r + k) 0 ?os @ drop (length ?os) (options m)) = COAP_MAX_NUMBER_OF_OPTIONS"
    using w m(1) by simp
  have pdu: "decoded h address p (m2\<lparr>payload_len := x, p_payload := y\<rparr>)" if "bytes_of h y (unat x) = ?pl" for x y
    using that view hb dl n8 m(2)
    by (simp add: decoded_def received_pdu_def m2_def m1_def hdr_def cnt)
  have pdu0: "decoded h address p m2" if "?pl = []"
  proof -
    have "bytes_of h (p_payload m2) (unat (payload_len m2)) = ?pl"
      using that m(3) by (cases "p_payload m2") (simp_all add: bytes_of_def m2_def m1_def load_bytes.simps arr_read_def)
    then show ?thesis using pdu [of "p_payload m2" "payload_len m2"] by simp
  qed
  show ?thesis
  proof (cases "?pl = []")
    case True
    then show ?thesis using dec pdu0 e_ml ue by (simp add: word_less_nat_alt rfc_payload_def)
  next
    case False
    have pl: "rfc_payload ?pl = COAP_PAYLOAD_MARKER # ?pl"
      using False by (simp add: rfc_payload_def COAP_PAYLOAD_MARKER_def)
    have at_pl: "bytes_at h b (r + e) [COAP_PAYLOAD_MARKER]" "bytes_at h b (r + (e + 1)) ?pl"
      using ato bytes_at_Cons [of h b "r + e" COAP_PAYLOAD_MARKER ?pl]
      by (simp_all add: bytes_at_append e_def add.assoc pl)
    have marker: "load h (Ptr b r) e = Inr COAP_PAYLOAD_MARKER"
      using bytes_at_load [OF at_pl(1), of 0] by (subst load_shift) simp
    have less: "(of_nat e :: u16) < ml" using e_ml ue by (simp add: word_less_nat_alt pl)
    have u1: "unat (of_nat e + 1 :: u16) = e + 1"
      using e_ml ue unat_u16_less [of ml] pl by (subst unat_add_u16) simp_all
    have len: "unat (ml - (of_nat e + 1)) = length ?pl"
      using e_ml u1 pl by (subst unat_sub) (simp_all add: word_le_nat_alt)
    have "bytes_of h (ptr_add (Ptr b r) (unat (of_nat e + 1 :: u16))) (unat (ml - (of_nat e + 1))) = ?pl"
      using at_pl(2) by (simp add: u1 len bytes_of_def)
    then show ?thesis
      unfolding dec using less marker by (simp add: pdu)
  qed
qed

section \<open>Writing options\<close>

lemma opt_nibble_rfc: "opt_nibble x = of_nat (rfc_nibble (unat x))"
  by (simp add: opt_nibble_def rfc_nibble_def word_le_nat_alt)

lemma opt_ext_size_rfc: "opt_ext_size x = length (rfc_ext (unat x))"
  by (simp add: opt_ext_size_def rfc_ext_def word_le_nat_alt)

lemma unat_sub_u16: "unat b \<le> unat (a :: u16) \<Longrightarrow> unat (a - b) = unat a - unat b"
  by (simp add: unat_sub word_le_nat_alt)

lemma opt_ext_bytes_rfc: "opt_ext_bytes x = rfc_ext (unat x)"
proof -
  consider "unat x < 13" | "13 \<le> unat x" "unat x < 269" | "269 \<le> unat x" by linarith
  then show ?thesis
  proof cases
    case 1
    then show ?thesis by (simp add: opt_ext_bytes_def opt_ext_size_rfc rfc_ext_def)
  next
    case 2
    have "unat (x - 13) = unat x - 13" using 2 unat_sub_u16 [of 13 x] by simp
    moreover have "(ucast (x - 13) :: u8) = of_nat (unat (x - 13))" by simp
    ultimately have "ucast (x - 13) = (of_nat (unat x - 13) :: u8)" by simp
    then show ?thesis using 2
      by (simp add: opt_ext_bytes_def opt_ext_size_rfc opt_ext_def rfc_ext_def word_le_nat_alt del: of_nat_diff)
  next
    case 3
    have "unat (x - 269) = unat x - 269" using 3 unat_sub_u16 [of 269 x] by simp
    then show ?thesis using 3
      by (simp add: opt_ext_bytes_def opt_ext_size_rfc opt_ext_def rfc_ext_def word_le_nat_alt u16_hi_nat u16_lo_nat
          del: of_nat_diff)
  qed
qed

lemma take_bit_4_of_nat: "a < 16 \<Longrightarrow> take_bit 4 (of_nat a :: u8) = of_nat a"
  by (rule word_unat_eq_iff [THEN iffD2]) (simp add: unat_take_bit_u8 unat_of_nat_u8)

lemma or_low_nibble: "push_bit 4 (x :: u8) OR take_bit 4 y = push_bit 4 x + take_bit 4 y"
  by (rule disjunctive_add_eq_or [symmetric]) (rule bit_word_eqI, auto simp: bit_simps)

lemma option_header_byte:
  "push_bit 4 ((ucast (opt_nibble x) :: u8) AND 0x0F) OR ucast (opt_nibble y AND 0x0F)
   = of_nat (16 * rfc_nibble (unat x) + rfc_nibble (unat y))"
proof -
  let ?a = "rfc_nibble (unat x)" and ?b = "rfc_nibble (unat y)"
  have ab: "?a < 16" "?b < 16" using rfc_nibble_le [of "unat x"] rfc_nibble_le [of "unat y"] by linarith+
  have x: "(ucast (opt_nibble x) :: u8) AND 0x0F = of_nat ?a"
    unfolding opt_nibble_rfc ucast_of_nat_u16_u8 and_low_nibble take_bit_4_of_nat [OF ab(1)] ..
  have y: "(ucast (opt_nibble y AND 0x0F) :: u8) = take_bit 4 (of_nat ?b)"
    unfolding opt_nibble_rfc and_low_nibble [symmetric] ucast_of_nat_u16_u8 [symmetric]
    by (rule bit_word_eqI) (auto simp: bit_simps)
  show ?thesis
    unfolding x y unfolding or_low_nibble unfolding take_bit_4_of_nat [OF ab(2)] by (simp add: push_bit_eq_mult)
qed

text \<open>The store with the first bytes of the memory object \<open>b\<close> replaced by \<open>pre\<close>.\<close>

definition filled :: "heap \<Rightarrow> nat \<Rightarrow> u8 list \<Rightarrow> heap" where
  "filled h b pre = h(b := pre @ drop (length pre) (h b))"

definition outside :: "nat \<Rightarrow> ptr \<Rightarrow> bool" where
  "outside b p = (case p of NULL \<Rightarrow> True | Ptr c _ \<Rightarrow> c \<noteq> b)"

lemma store_filled:
  "length pre + length vs \<le> length (h b) \<Longrightarrow>
   store_bytes (filled h b pre) (Ptr b (length pre)) vs = Inr (filled h b (pre @ vs))"
  using arr_write_prefix [of pre vs "h b"] by (simp add: filled_def)

lemma load_filled: "outside b p \<Longrightarrow> load_bytes (filled h b pre) p n = load_bytes h p n"
  by (cases p) (auto simp: outside_def filled_def load_bytes.simps)

lemma bytes_at_filled: "length pre \<le> length (h b) \<Longrightarrow> bytes_at (filled h b pre) b 0 pre"
  by (simp add: bytes_at_def filled_def)

lemma encode_option_rfc:
  assumes "load_bytes h (opt_data op) (length bs) = Inr bs" "unat (opt_length op) = length bs"
    and "outside b (opt_data op)"
    and "length pre + length (rfc_option (unat (opt_number op)) bs) \<le> length (h b)"
  shows "encode_option (filled h b pre) (Ptr b (length pre)) op =
    Inr (NRF_SUCCESS, filled h b (pre @ rfc_option (unat (opt_number op)) bs),
         of_nat (length (rfc_option (unat (opt_number op)) bs)))"
proof -
  let ?hdr = "of_nat (16 * rfc_nibble (unat (opt_number op)) + rfc_nibble (length bs))
    # rfc_ext (unat (opt_number op)) @ rfc_ext (length bs)"
  have len: "opt_length op = of_nat (length bs)" using assms(2) by (rule u16_eq_of_nat)
  have o: "rfc_option (unat (opt_number op)) bs = ?hdr @ bs" by (simp add: rfc_option_def)
  have s1: "store_bytes (filled h b pre) (Ptr b (length pre)) ?hdr = Inr (filled h b (pre @ ?hdr))"
    using assms(4) by (intro store_filled) (simp add: o)
  have s2: "store_bytes (filled h b (pre @ ?hdr)) (Ptr b (length (pre @ ?hdr))) bs = Inr (filled h b ((pre @ ?hdr) @ bs))"
    using assms(4) by (intro store_filled) (simp add: o)
  have s2': "store_bytes (filled h b (pre @ ?hdr)) (ptr_add (Ptr b (length pre)) (length ?hdr)) bs
      = Inr (filled h b (pre @ ?hdr @ bs))"
    using s2 by simp
  have l: "load_bytes (filled h b (pre @ ?hdr)) (opt_data op) (length bs) = Inr bs"
    using assms(1,3) by (simp add: load_filled)
  show ?thesis
    unfolding encode_option_def Let_def option_header_byte opt_ext_bytes_rfc assms(2)
    unfolding s1 c_bind_Inr l s2' o
    by (simp add: len)
qed

lemma encode_option_size:
  assumes "unat (opt_length op) = length bs"
  shows "encode_option h NULL op = Inr (NRF_SUCCESS, h, of_nat (length (rfc_option (unat (opt_number op)) bs)))"
proof -
  have len: "opt_length op = of_nat (length bs)" using assms by (rule u16_eq_of_nat)
  show ?thesis
    unfolding encode_option_def Let_def opt_ext_size_rfc assms
    by (simp add: length_rfc_option len)
qed

section \<open>Messages that stand for a PDU\<close>

text \<open>
  An outgoing message keeps option numbers relative to the previous option. \<open>options_repr h prev ops os\<close>:
  the options \<open>ops\<close>, with their values in the store \<open>h\<close>, are \<open>os\<close> after option number \<open>prev\<close>.
\<close>

fun options_repr :: "heap \<Rightarrow> nat \<Rightarrow> coap_option_t list \<Rightarrow> (nat \<times> u8 list) list \<Rightarrow> bool" where
  "options_repr h prev [] [] \<longleftrightarrow> True"
| "options_repr h prev (op # ops) ((num, bs) # os) \<longleftrightarrow>
     prev \<le> num \<and> num < 256 \<and> unat (opt_number op) = num - prev \<and> unat (opt_length op) = length bs \<and>
     load_bytes h (opt_data op) (length bs) = Inr bs \<and> options_repr h num ops os"
| "options_repr h prev _ _ \<longleftrightarrow> False"

definition used_options :: "coap_message_t \<Rightarrow> coap_option_t list" where
  "used_options m = take (unat (options_count m)) (options m)"

definition message_repr :: "heap \<Rightarrow> coap_message_t \<Rightarrow> pdu \<Rightarrow> bool" where
  "message_repr h m p \<longleftrightarrow>
     unat (hdr_version (header m)) = pdu_version p \<and> unat (hdr_type (header m)) = pdu_type p \<and>
     hdr_code (header m) = pdu_code p \<and> hdr_id (header m) = pdu_id p \<and>
     unat (hdr_token_len (header m)) = length (pdu_token p) \<and> length (token m) = 8 \<and>
     take (length (pdu_token p)) (token m) = pdu_token p \<and>
     length (options m) = COAP_MAX_NUMBER_OF_OPTIONS \<and>
     unat (options_count m) = length (pdu_options p) \<and>
     options_repr h 0 (used_options m) (pdu_options p) \<and>
     unat (options_len m) = length (rfc_options 0 (pdu_options p)) \<and>
     unat (payload_len m) = length (pdu_payload p) \<and>
     load_bytes h (p_payload m) (length (pdu_payload p)) = Inr (pdu_payload p)"

lemma options_repr_length: "options_repr h prev ops os \<Longrightarrow> length ops = length os"
  by (induction h prev ops os rule: options_repr.induct) auto

lemma options_repr_ascending: "options_repr h prev ops os \<Longrightarrow> ascending_from prev os"
  by (induction h prev ops os rule: options_repr.induct) auto

lemma upt_step: "[i..<i + Suc n] = i # [Suc i..<Suc i + n]" "[i..<Suc (i + n)] = i # [Suc i..<Suc (i + n)]"
  by (simp_all add: upt_conv_Cons del: upt_Suc)

lemma encode_options_rfc:
  assumes "options_repr h prev ops os" "\<forall>op \<in> set ops. outside b (opt_data op)"
    and "length pre + length (rfc_options prev os) \<le> length (h b)"
    and "length pre + length (rfc_options prev os) < 65536"
    and "i + length ops \<le> length all" "take (length ops) (drop i all) = ops"
  shows "encode_options (filled h b pre) (Ptr b 0) all (of_nat (length pre)) [i..<i + length ops] =
    Inr (filled h b (pre @ rfc_options prev os), of_nat (length (pre @ rfc_options prev os)))"
  using assms
proof (induction h prev ops os arbitrary: pre i rule: options_repr.induct)
  case (1 h prev)
  then show ?case by simp
next
  case (2 h prev op ops num bs os)
  let ?o = "rfc_option (num - prev) bs"
  have op: "all ! i = op" "take (length ops) (drop (Suc i) all) = ops"
  proof -
    have "drop i all = all ! i # drop (Suc i) all"
      using "2.prems"(5) by (simp add: Cons_nth_drop_Suc)
    then show "all ! i = op" "take (length ops) (drop (Suc i) all) = ops"
      using "2.prems"(6) by simp_all
  qed
  have u: "unat (of_nat (length pre) :: u16) = length pre"
    using "2.prems"(4) by (intro unat_of_nat_u16) linarith
  have "encode_option (filled h b pre) (Ptr b (length pre)) op
      = Inr (NRF_SUCCESS, filled h b (pre @ ?o), of_nat (length ?o))"
    using "2.prems" encode_option_rfc [of h op bs b pre] by simp
  moreover have "encode_options (filled h b (pre @ ?o)) (Ptr b 0) all (of_nat (length (pre @ ?o))) [Suc i..<Suc i + length ops]
      = Inr (filled h b ((pre @ ?o) @ rfc_options num os), of_nat (length ((pre @ ?o) @ rfc_options num os)))"
    using "2.prems" op by (intro "2.IH") simp_all
  ultimately show ?case
    using "2.prems"(5) op(1) u by (simp add: upt_step del: upt_Suc)
qed simp_all

lemma encode_token_rfc:
  assumes "length pre + n \<le> length (h b)" "length pre + n < 65536" "i + n \<le> length tok"
  shows "encode_token (filled h b pre) (Ptr b 0) tok (of_nat (length pre)) [i..<i + n] =
    Inr (filled h b (pre @ take n (drop i tok)), of_nat (length pre + n))"
  using assms
proof (induction n arbitrary: pre i)
  case 0
  then show ?case by simp
next
  case (Suc n)
  have u: "unat (of_nat (length pre) :: u16) = length pre"
    using Suc.prems(2) by (intro unat_of_nat_u16) linarith
  have st: "store_bytes (filled h b pre) (Ptr b (length pre)) [tok ! i] = Inr (filled h b (pre @ [tok ! i]))"
    using Suc.prems by (intro store_filled) simp
  have tk: "take (Suc n) (drop i tok) = tok ! i # take n (drop (Suc i) tok)"
    using Suc.prems(3) Cons_nth_drop_Suc [of i tok] by (metis add_Suc_right le_imp_less_Suc less_add_Suc1 order_less_le_trans take_Suc_Cons)
  have "encode_token (filled h b (pre @ [tok ! i])) (Ptr b 0) tok (of_nat (length (pre @ [tok ! i]))) [Suc i..<Suc i + n] =
    Inr (filled h b ((pre @ [tok ! i]) @ take n (drop (Suc i) tok)), of_nat (length (pre @ [tok ! i]) + n))"
    using Suc.prems by (intro Suc.IH) simp_all
  then show ?case
    using Suc.prems(3) u st tk by (simp add: upt_step add.commute del: store_bytes.simps upt_Suc)
qed

section \<open>Writing a message\<close>

lemma take_bit_u8_small: "unat (x :: u8) < 2 ^ n \<Longrightarrow> take_bit n x = x"
  by (rule word_unat_eq_iff [THEN iffD2]) (simp add: unat_take_bit_u8)

lemma encode_header_rfc:
  assumes "message_repr h m p" "pdu_wf p"
  shows "encode_header_bytes (header m) = rfc_header p"
proof -
  let ?v = "hdr_version (header m)" and ?t = "hdr_type (header m)" and ?l = "hdr_token_len (header m)"
  have u: "unat ?v = pdu_version p" "unat ?t = pdu_type p" "unat ?l = length (pdu_token p)"
    and lt: "unat ?v < 2 ^ 2" "unat ?t < 2 ^ 2" "unat ?l < 2 ^ 4"
    using assms by (auto simp: message_repr_def pdu_wf_def)
  have m: "(0x3 :: u8) = mask 2" by (simp add: mask_eq_exp_minus_1)
  have and3: "?v AND 0x3 = take_bit 2 ?v" "?t AND 0x3 = take_bit 2 ?t"
    unfolding m by (simp_all add: take_bit_eq_mask)
  have or1: "push_bit 6 (take_bit 2 ?v) OR push_bit 4 (take_bit 2 ?t) = push_bit 6 (take_bit 2 ?v) + push_bit 4 (take_bit 2 ?t)"
    by (rule disjunctive_add_eq_or [symmetric]) (rule bit_word_eqI, auto simp: bit_simps)
  have "(push_bit 6 (?v AND 0x3) OR push_bit 4 (?t AND 0x3)) OR (?l AND 0x0F)
      = push_bit 4 (push_bit 2 (take_bit 2 ?v) + take_bit 2 ?t) OR take_bit 4 ?l"
    unfolding and_low_nibble and3 or1 by (simp add: push_bit_eq_mult mult.commute)
  also have "\<dots> = push_bit 4 (push_bit 2 ?v + ?t) + ?l"
    unfolding or_low_nibble
    unfolding take_bit_u8_small [OF lt(1)] take_bit_u8_small [OF lt(2)] take_bit_u8_small [OF lt(3)] ..
  also have "\<dots> = of_nat (64 * unat ?v + 16 * unat ?t + unat ?l)"
    by (simp add: push_bit_eq_mult)
  finally show ?thesis
    using assms(1) u unfolding encode_header_bytes_def rfc_header_def u16_hi_nat u16_lo_nat
    by (simp add: message_repr_def)
qed

lemma total_packet_size_rfc:
  assumes "message_repr h m p"
  shows "total_packet_size m = of_nat (length (pdu_bytes p))"
proof -
  have e: "ucast (hdr_token_len (header m)) = (of_nat (length (pdu_token p)) :: u16)"
    "options_len m = of_nat (length (rfc_options 0 (pdu_options p)))"
    "payload_len m = of_nat (length (pdu_payload p))"
    using assms by (auto simp: message_repr_def intro!: u16_eq_of_nat)
  have z: "payload_len m > 0 \<longleftrightarrow> pdu_payload p \<noteq> []"
    using assms by (auto simp: message_repr_def word_less_nat_alt)
  show ?thesis
    unfolding total_packet_size_def z unfolding e
    by (simp add: pdu_bytes_def rfc_header_def rfc_payload_def)
qed

lemma filled_Nil: "filled h b [] = h"
  by (simp add: filled_def)

lemma coap_message_encode_rfc:
  assumes r: "message_repr h m p" and wf: "pdu_wf p"
    and sep: "\<forall>op \<in> set (used_options m). outside b (opt_data op)" "outside b (p_payload m)"
    and len: "length (pdu_bytes p) \<le> unat len" "unat len \<le> length (h b)"
  shows "coap_message_encode h (Some m) (Ptr b 0) (Some len) =
    Inr (NRF_SUCCESS, filled h b (pdu_bytes p), Some (of_nat (length (pdu_bytes p))))"
proof -
  note rr = r [unfolded message_repr_def]
  let ?tk = "pdu_token p" and ?os = "pdu_options p" and ?pl = "pdu_payload p"
  let ?hd = "rfc_header p" and ?op = "rfc_options 0 (pdu_options p)"
  have small: "length (pdu_bytes p) < 65536" using wf by (simp add: pdu_wf_def)
  have hd4: "length ?hd = 4" by (simp add: rfc_header_def)
  have sz: "4 + length ?tk + length ?op + length (rfc_payload ?pl) = length (pdu_bytes p)"
    by (simp add: pdu_bytes_def hd4)
  have total: "unat (total_packet_size m) = length (pdu_bytes p)"
    using total_packet_size_rfc [OF r] small by (simp add: unat_of_nat_u16)
  have guards: "\<not> hdr_token_len (header m) > 8" "len \<noteq> 0" "\<not> len < total_packet_size m"
    using rr wf len(1) sz total by (auto simp: word_less_nat_alt pdu_wf_def)
  have pz: "payload_len m > 0 \<longleftrightarrow> ?pl \<noteq> []" using rr by (auto simp: word_less_nat_alt)
  have pn: "p_payload m \<noteq> NULL" if "?pl \<noteq> []" using rr that by auto
  have s1: "store_bytes h (Ptr b 0) (encode_header_bytes (header m)) = Inr (filled h b ?hd)"
    using store_filled [of "[]" ?hd h b] len sz hd4
    by (simp add: encode_header_rfc [OF r wf] filled_Nil del: store_bytes.simps)
  have s2: "encode_token (filled h b ?hd) (Ptr b 0) (token m) 4 [0..<unat (hdr_token_len (header m))]
      = Inr (filled h b (?hd @ ?tk), of_nat (length (?hd @ ?tk)))"
    using encode_token_rfc [of ?hd "length ?tk" h b 0 "token m"] len sz hd4 small rr wf
    by (simp add: pdu_wf_def)
  have cnt: "unat (options_count m) = length ?os" and or: "options_repr h 0 (used_options m) ?os"
    and lo: "length (options m) = COAP_MAX_NUMBER_OF_OPTIONS" "length ?os \<le> COAP_MAX_NUMBER_OF_OPTIONS"
    using rr wf by (simp_all add: pdu_wf_def)
  have used: "length (used_options m) = length ?os" using or by (rule options_repr_length)
  have "encode_options (filled h b (?hd @ ?tk)) (Ptr b 0) (options m) (of_nat (length (?hd @ ?tk)))
        [0..<0 + length (used_options m)]
      = Inr (filled h b ((?hd @ ?tk) @ ?op), of_nat (length ((?hd @ ?tk) @ ?op)))"
    using or sep(1) len sz hd4 small lo used
    by (intro encode_options_rfc) (simp_all add: used_options_def cnt)
  then have s3: "encode_options (filled h b (?hd @ ?tk)) (Ptr b 0) (options m) (of_nat (length (?hd @ ?tk)))
        [0..<unat (options_count m)]
      = Inr (filled h b (?hd @ ?tk @ ?op), of_nat (length (?hd @ ?tk @ ?op)))"
    by (simp add: used cnt)
  show ?thesis
  proof (cases "?pl = []")
    case True
    then show ?thesis
      using guards pz s1 s2 s3
      by (simp add: coap_message_encode_def pdu_bytes_def rfc_payload_def total_packet_size_rfc [OF r]
          del: store_bytes.simps)
  next
    case False
    let ?pre = "?hd @ ?tk @ ?op"
    have room: "Suc (length ?pre + length ?pl) \<le> length (h b)" "Suc (length ?pre + length ?pl) < 65536"
      using len sz hd4 small False by (simp_all add: rfc_payload_def)
    define n where "n = length ?pre"
    have un: "unat (of_nat n :: u16) = n" using room(2) n_def by (intro unat_of_nat_u16) linarith
    have un1: "unat (of_nat n + 1 :: u16) = n + 1"
      using room(2) un n_def by (subst unat_add_u16) simp_all
    have p0: "ptr_add (Ptr b 0) (unat (of_nat n :: u16)) = Ptr b (length ?pre)"
      unfolding un by (simp add: n_def)
    have p1: "ptr_add (Ptr b 0) (unat (of_nat n + 1 :: u16)) = Ptr b (length (?pre @ [0xFF]))"
      unfolding un1 by (simp add: n_def)
    have s4: "store_bytes (filled h b ?pre) (ptr_add (Ptr b 0) (unat (of_nat n :: u16))) [0xFF]
        = Inr (filled h b (?pre @ [0xFF]))"
      using store_filled [of ?pre "[0xFF]" h b] room(1) unfolding p0 by (simp del: store_bytes.simps)
    have s5: "load_bytes (filled h b (?pre @ [0xFF])) (p_payload m) (unat (payload_len m)) = Inr ?pl"
      using rr load_filled [OF sep(2)] by simp
    have s6: "store_bytes (filled h b (?pre @ [0xFF])) (ptr_add (Ptr b 0) (unat (of_nat n + 1 :: u16))) ?pl
        = Inr (filled h b (pdu_bytes p))"
      using store_filled [of "?pre @ [0xFF]" ?pl h b] room(1) False
      unfolding p1 by (simp add: pdu_bytes_def rfc_payload_def del: store_bytes.simps)
    have bi: "of_nat (length (?hd @ ?tk @ ?op)) = (of_nat n :: u16)" by (simp only: n_def)
    show ?thesis
      unfolding coap_message_encode_def option.case
      using guards pz False pn s1 s2 s3 s4 s5 s6 bi
      by (simp add: total_packet_size_rfc [OF r] del: store_bytes.simps length_append ptr_add.simps of_nat_add)
  qed
qed

section \<open>What the codec promises\<close>


text \<open>A POST request on path \<open>led\<close> with one payload byte, its strings in the memory object 20.\<close>

definition sample_message :: coap_message_t where
  "sample_message = coap_message_zero
     \<lparr>header := \<lparr>hdr_version = 1, hdr_type = 0, hdr_token_len = 2, hdr_code = 2, hdr_id = 0x1234\<rparr>,
      token := [0xAB, 0xCD, 0, 0, 0, 0, 0, 0],
      options_count := 1,
      options := (options coap_message_zero)[0 := \<lparr>opt_number = 11, opt_length = 3, opt_data = Ptr 20 0\<rparr>],
      options_len := 4, options_offset := 3, options_delta := 11,
      p_payload := Ptr 20 3, payload_len := 1, p_data := Ptr 20 0, data_len := 16\<rparr>"

definition sample_heap :: heap where
  "sample_heap = (\<lambda>_. [])(20 := [108, 101, 100, 49, 0, 0, 0, 0], 30 := replicate 64 0)"

definition sample_pdu :: pdu where
  "sample_pdu = \<lparr>pdu_version = 1, pdu_type = 0, pdu_code = 2, pdu_id = 0x1234, pdu_token = [0xAB, 0xCD],
     pdu_options = [(11, [108, 101, 100])], pdu_payload = [49]\<rparr>"

lemma sample_facts:
  "message_repr sample_heap sample_message sample_pdu" "pdu_wf sample_pdu"
  "used_options sample_message = [\<lparr>opt_number = 11, opt_length = 3, opt_data = Ptr 20 0\<rparr>]"
  "p_payload sample_message = Ptr 20 3" "length (pdu_bytes sample_pdu) = 12" "length (sample_heap 30) = 64"
  by (simp_all add: sample_message_def sample_heap_def sample_pdu_def message_repr_def pdu_wf_def used_options_def
      coap_message_zero_def load_bytes.simps arr_read_def pdu_bytes_def rfc_header_def rfc_option_def rfc_ext_def
      rfc_payload_def c_consts take_Suc_update)


text \<open>C1: A message that stands for a well-formed PDU survives the wire: what the encoder writes into a
  buffer, the decoder accepts, and the decoded message stands for the same PDU and carries the
  address the datagram came from.\<close>

theorem coap_message_roundtrip:
  assumes "message_repr h m p" "pdu_wf p"
    and "\<forall>op \<in> set (used_options m). outside b (opt_data op)" "outside b (p_payload m)"
    and "length (pdu_bytes p) \<le> unat len" "unat len \<le> length (h b)"
    and "length (options m0) = COAP_MAX_NUMBER_OF_OPTIONS" "length (token m0) = 8" "payload_len m0 = 0"
  shows "\<exists>h' n m'. coap_message_encode h (Some m) (Ptr b 0) (Some len) = Inr (NRF_SUCCESS, h', Some n) \<and>
    coap_message_decode h' (Some m0) (Ptr b 0) n (Some address) = Inr (NRF_SUCCESS, Some m') \<and>
    received_pdu h' m' = p \<and> remote m' = address"
proof -
  let ?h' = "filled h b (pdu_bytes p)" and ?n = "of_nat (length (pdu_bytes p)) :: u16"
  have "bytes_at ?h' b 0 (pdu_bytes p)" using assms(5,6) by (intro bytes_at_filled) linarith
  moreover have "unat ?n = length (pdu_bytes p)"
    using assms(2) by (intro unat_of_nat_u16) (simp add: pdu_wf_def)
  ultimately show ?thesis
    using coap_message_encode_rfc [OF assms(1-6)] coap_message_decode_rfc [of ?h' b 0 p ?n m0 address] assms(2,7-9)
    by (auto simp: decoded_def)
qed

theorem coap_message_roundtrip_witness:
  "\<exists>h' n m'. coap_message_encode sample_heap (Some sample_message) (Ptr 30 0) (Some 64) = Inr (NRF_SUCCESS, h', Some n) \<and>
    coap_message_decode h' (Some coap_message_zero) (Ptr 30 0) n
      (Some \<lparr>remote_addr = replicate 16 1, remote_port_number = 5683\<rparr>) = Inr (NRF_SUCCESS, Some m') \<and>
    received_pdu h' m' = sample_pdu \<and> remote m' = \<lparr>remote_addr = replicate 16 1, remote_port_number = 5683\<rparr>"
  by (rule coap_message_roundtrip [OF sample_facts(1,2)])
    (simp_all add: sample_facts outside_def coap_message_zero_def)

section \<open>Malformed input\<close>

lemma decode_token_overflow:
  assumes "unat bi + (length tok - i) < unat ml" "i \<le> length tok" "length tok < n"
    and "unat ml \<le> length (h b)"
  shows "decode_token h (Ptr b 0) ml n bi i tok = Inl OutOfBoundsWrite"
  using assms
proof (induction "length tok - i" arbitrary: i bi tok)
  case 0
  then have "i = length tok" by simp
  then show ?case using 0
    by (subst decode_token.simps) (simp add: word_less_nat_alt load.simps arr_set_def)
next
  case (Suc k)
  have i: "i < length tok" using Suc.hyps(2) by simp
  have lt: "unat bi < unat ml" using Suc.prems(1) by linarith
  have bi: "unat (bi + 1) = Suc (unat bi)"
    using Suc.prems(1) unat_u16_less [of ml] by (subst unat_add_u16) simp_all
  have "decode_token h (Ptr b 0) ml n bi i tok = decode_token h (Ptr b 0) ml n (bi + 1) (Suc i) (tok[i := h b ! unat bi])"
    using Suc.prems i lt by (subst decode_token.simps) (simp add: word_less_nat_alt load.simps)
  also have "\<dots> = Inl OutOfBoundsWrite"
    using Suc.prems Suc.hyps(2) i by (intro Suc.hyps(1)) (simp_all add: bi)
  finally show ?case .
qed

text \<open>The decoder does not check the token length of a received datagram: every datagram of 13 bytes
  or more whose token length nibble is 9 to 15 makes it write past the 8-byte token array.\<close>

theorem decode_long_token_overflows:
  assumes "13 \<le> unat ml" "unat ml \<le> length (h b)" "8 < unat ((h b ! 0) AND 0x0F)" "length (token m) = 8"
  shows "coap_message_decode h (Some m) (Ptr b 0) ml (Some address) = Inl OutOfBoundsWrite"
proof -
  have "decode_token h (Ptr b 0) ml (unat ((h b ! 0) AND 0x0F)) 4 0 (token m) = Inl OutOfBoundsWrite"
    using assms by (intro decode_token_overflow) simp_all
  moreover have "h b \<noteq> []" using assms(1,2) by auto
  ultimately show ?thesis using assms(1,2)
    by (simp add: coap_message_decode_def word_less_nat_alt load.simps Let_def)
qed

theorem decode_long_token_overflows_witness:
  "coap_message_decode ((\<lambda>_. [])(5 := 0x4F # replicate 12 0)) (Some coap_message_zero) (Ptr 5 0) 13
     (Some \<lparr>remote_addr = replicate 16 0, remote_port_number = 5683\<rparr>) = Inl OutOfBoundsWrite"
  by (rule decode_long_token_overflows) (simp_all add: coap_message_zero_def)

end
