(* ===== verification/Coap_Builder.thy ===== *)
theory Coap_Builder
  imports Coap_Codec
begin

text \<open>
  Building a message with the functions of \<^verbatim>\<open>coap_message.c\<close> that add options and payload. The abstract
  state is the PDU of \<open>Coap_Codec\<close>: adding an option appends it to the option list of the PDU, setting
  the payload replaces its payload. \<open>building\<close> is the invariant of a message under construction whose
  option values are laid out one after the other in its data buffer.
\<close>

section \<open>The invariant of a message under construction\<close>

fun last_num :: "nat \<Rightarrow> (nat \<times> u8 list) list \<Rightarrow> nat" where
  "last_num prev [] = prev"
| "last_num prev ((num, bs) # os) = last_num num os"

text \<open>The value of an option lies outside of the object \<open>b\<close> or below the offset \<open>lim\<close> in it.\<close>

definition value_below :: "nat \<Rightarrow> nat \<Rightarrow> coap_option_t \<Rightarrow> bool" where
  "value_below b lim op \<longleftrightarrow> opt_length op = 0 \<or>
     (case opt_data op of NULL \<Rightarrow> True | Ptr c j \<Rightarrow> c \<noteq> b \<or> j + unat (opt_length op) \<le> lim)"

definition building :: "heap \<Rightarrow> coap_message_t \<Rightarrow> nat \<Rightarrow> nat \<Rightarrow> pdu \<Rightarrow> bool" where
  "building h m b k p \<longleftrightarrow>
     message_repr h m p \<and> pdu_payload p = [] \<and> p_data m = Ptr b k \<and>
     k + unat (data_len m) \<le> length (h b) \<and> unat (options_offset m) \<le> unat (data_len m) \<and>
     unat (options_delta m) = last_num 0 (pdu_options p) \<and>
     (\<forall>op \<in> set (used_options m). value_below b (k + unat (options_offset m)) op)"

definition agrees_below :: "nat \<Rightarrow> nat \<Rightarrow> heap \<Rightarrow> heap \<Rightarrow> bool" where
  "agrees_below b lim h h' \<longleftrightarrow>
     (\<forall>c. c \<noteq> b \<longrightarrow> h' c = h c) \<and> length (h' b) = length (h b) \<and> take lim (h' b) = take lim (h b)"

lemma agrees_below_refl [simp]: "agrees_below b lim h h"
  by (simp add: agrees_below_def)

lemma agrees_below_load:
  assumes "agrees_below b lim h h'" "value_below b lim op" "n = unat (opt_length op)"
  shows "load_bytes h' (opt_data op) n = load_bytes h (opt_data op) n"
proof (cases "opt_data op")
  case NULL
  then show ?thesis by simp
next
  case (Ptr c j)
  show ?thesis
  proof (cases "c = b \<and> n \<noteq> 0")
    case True
    then have j: "j + n \<le> lim" using assms(2,3) Ptr by (auto simp: value_below_def)
    have "take n (drop j (h' b)) = take n (drop j (take lim (h' b)))" using j by (simp add: drop_take min_def)
    also have "\<dots> = take n (drop j (h b))" using assms(1) j by (simp add: agrees_below_def drop_take min_def)
    finally show ?thesis using True assms(1) Ptr by (simp add: load_bytes.simps arr_read_def agrees_below_def)
  next
    case False
    then show ?thesis using assms(1) Ptr by (auto simp: load_bytes.simps arr_read_def agrees_below_def)
  qed
qed

lemma options_repr_agrees:
  assumes "options_repr h prev ops os" "agrees_below b lim h h'" "\<forall>op \<in> set ops. value_below b lim op"
  shows "options_repr h' prev ops os"
  using assms
  by (induction h prev ops os rule: options_repr.induct) (auto simp: agrees_below_load)

lemma rfc_options_append:
  "rfc_options prev (os @ [(num, bs)]) = rfc_options prev os @ rfc_option (num - last_num prev os) bs"
  by (induction prev os rule: last_num.induct) simp_all

lemma last_num_append: "last_num prev (os @ [(num, bs)]) = num"
  by (induction prev os rule: last_num.induct) simp_all

lemma options_repr_append:
  assumes "options_repr h prev ops os" "last_num prev os \<le> num" "num < 256"
    and "unat (opt_number op) = num - last_num prev os" "unat (opt_length op) = length bs"
    and "load_bytes h (opt_data op) (length bs) = Inr bs"
  shows "options_repr h prev (ops @ [op]) (os @ [(num, bs)])"
  using assms by (induction h prev ops os rule: options_repr.induct) auto

lemma last_num_le: "ascending_from prev os \<Longrightarrow> prev \<le> last_num prev os"
  by (induction prev os rule: last_num.induct) auto

lemma load_none [simp]: "load_bytes h p 0 = Inr []"
  by (cases p) (simp_all add: load_bytes.simps arr_read_def)

lemma value_below_mono: "value_below b lim op \<Longrightarrow> lim \<le> lim' \<Longrightarrow> value_below b lim' op"
  by (auto simp: value_below_def split: ptr.splits)

section \<open>Adding an option\<close>

lemma opt_append_building:
  assumes bld: "building h m b k p" and ag: "agrees_below b (k + unat (options_offset m)) h h1"
    and cnt: "length (pdu_options p) < COAP_MAX_NUMBER_OF_OPTIONS"
    and num: "last_num 0 (pdu_options p) \<le> num" "num < 256"
    and room: "unat (options_offset m) + length bs \<le> unat (data_len m)"
    and size: "length (rfc_options 0 (pdu_options p @ [(num, bs)])) < 65536"
    and val: "bs = [] \<or> q = Some (Ptr b (k + unat (options_offset m))) \<and>
      load_bytes h1 (Ptr b (k + unat (options_offset m))) (length bs) = Inr bs"
  shows "\<exists>m'. opt_append h1 m q (of_nat num) (of_nat (length bs)) = Inr (NRF_SUCCESS, h1, m') \<and>
    building h1 m' b k (p\<lparr>pdu_options := pdu_options p @ [(num, bs)]\<rparr>)"
proof -
  let ?i = "unat (options_count m)" and ?lim = "k + unat (options_offset m)"
  note bld' = bld [unfolded building_def message_repr_def]
  define op where "op = (case q of None \<Rightarrow> options m ! ?i | Some d \<Rightarrow> (options m ! ?i)\<lparr>opt_data := d\<rparr>)
      \<lparr>opt_number := of_nat num - ucast (options_delta m), opt_length := of_nat (length bs)\<rparr>"
  have i: "?i < length (options m)" "?i < COAP_MAX_NUMBER_OF_OPTIONS" using bld' cnt by auto
  have lbs: "length bs < 65536" using room unat_u16_less [of "data_len m"] by linarith
  have ulen: "unat (opt_length op) = length bs" using lbs by (simp add: op_def unat_of_nat_u16)
  have unum: "unat (opt_number op) = num - last_num 0 (pdu_options p)"
  proof -
    have "unat (of_nat num :: u16) = num" using num by (intro unat_of_nat_u16) linarith
    moreover have "unat (ucast (options_delta m) :: u16) = last_num 0 (pdu_options p)" using bld' by simp
    ultimately show ?thesis using num by (simp add: op_def unat_sub_u16)
  qed
  have ldop: "load_bytes h1 (opt_data op) (length bs) = Inr bs" using val by (auto simp: op_def)
  have belowop: "value_below b (k + (unat (options_offset m) + length bs)) op"
    using val ulen by (auto simp: value_below_def op_def unat_of_nat_u16)
  let ?m' = "m\<lparr>options := (options m)[?i := op], options_delta := of_nat num,
    options_len := options_len m + of_nat (length (rfc_option (unat (opt_number op)) bs)),
    options_count := options_count m + 1, options_offset := options_offset m + of_nat (length bs)\<rparr>"
  have "opt_append h1 m q (of_nat num) (of_nat (length bs)) = Inr (NRF_SUCCESS, h1, ?m')"
    using i encode_option_size [OF ulen, of h1]
    by (simp add: opt_append_def option_upd_def Let_def op_def [symmetric] ucast_of_nat_u16_u8)
  moreover have "building h1 ?m' b k (p\<lparr>pdu_options := pdu_options p @ [(num, bs)]\<rparr>)"
  proof -
    have c1: "unat (options_count m + 1) = Suc ?i"
      using unat_add_u8 [of "options_count m" 1] i by (simp add: c_consts)
    have off: "unat (options_offset m + of_nat (length bs)) = unat (options_offset m) + length bs"
      using room unat_u16_less [of "data_len m"] lbs by (subst unat_add_u16) (simp_all add: unat_of_nat_u16)
    have used: "used_options ?m' = used_options m @ [op]"
      using i by (simp add: used_options_def c1 take_Suc_update)
    have below: "\<forall>op \<in> set (used_options m). value_below b ?lim op" using bld' by blast
    have "options_repr h 0 (used_options m) (pdu_options p)" using bld' by blast
    then have "options_repr h1 0 (used_options m) (pdu_options p)" using ag below by (rule options_repr_agrees)
    then have repr: "options_repr h1 0 (used_options ?m') (pdu_options p @ [(num, bs)])"
      unfolding used using num unum ulen ldop by (rule options_repr_append)
    have "length (rfc_options 0 (pdu_options p @ [(num, bs)]))
        = length (rfc_options 0 (pdu_options p)) + length (rfc_option (unat (opt_number op)) bs)"
      by (simp add: rfc_options_append unum)
    then have sz: "unat (options_len m + of_nat (length (rfc_option (unat (opt_number op)) bs)))
        = length (rfc_options 0 (pdu_options p @ [(num, bs)]))"
      using bld' size by (subst unat_add_u16) (simp_all add: unat_of_nat_u16)
    have ln: "last_num 0 (pdu_options p @ [(num, bs)]) = num"
      by (rule last_num_append)
    have below': "\<forall>op \<in> set (used_options ?m'). value_below b (k + (unat (options_offset m) + length bs)) op"
      unfolding used using below belowop by (auto intro: value_below_mono)
    have len: "length (h1 b) = length (h b)" using ag by (simp add: agrees_below_def)
    show ?thesis
      unfolding building_def message_repr_def
      using bld' repr sz ln below' c1 off len room num by (simp add: unat_of_nat_u8)
  qed
  ultimately show ?thesis by blast
qed

section \<open>The operations on the abstract message\<close>

text \<open>The number is acceptable as the next option and the serialised options stay below 64 KB.\<close>

definition next_option_ok :: "pdu \<Rightarrow> nat \<Rightarrow> u8 list \<Rightarrow> bool" where
  "next_option_ok p num bs \<longleftrightarrow> last_num 0 (pdu_options p) \<le> num \<and> num < 256 \<and>
     length (rfc_options 0 (pdu_options p @ [(num, bs)])) < 65536"

definition add_option :: "nat \<Rightarrow> u8 list \<Rightarrow> pdu \<Rightarrow> pdu" where
  "add_option num bs p = p\<lparr>pdu_options := pdu_options p @ [(num, bs)]\<rparr>"

definition uint_value :: "u32 \<Rightarrow> u8 list" where
  "uint_value d = (if d = 0 then [] else uint_bytes d)"

lemma building_facts:
  assumes "building h m b k p"
  shows "unat (options_count m) = length (pdu_options p)" "p_data m = Ptr b k"
    and "k + unat (data_len m) \<le> length (h b)" "unat (options_offset m) \<le> unat (data_len m)"
    and "unat (data_len m - options_offset m) = unat (data_len m) - unat (options_offset m)"
proof -
  show f: "unat (options_count m) = length (pdu_options p)" "p_data m = Ptr b k"
    "k + unat (data_len m) \<le> length (h b)" "unat (options_offset m) \<le> unat (data_len m)"
    using assms by (simp_all add: building_def message_repr_def)
  show "unat (data_len m - options_offset m) = unat (data_len m) - unat (options_offset m)"
    using f(4) by (rule unat_sub_u16)
qed

lemma opt_append_adds:
  assumes bld: "building h m b k p" and ok: "next_option_ok p num bs"
    and cnt: "length (pdu_options p) \<noteq> COAP_MAX_NUMBER_OF_OPTIONS" "length (pdu_options p) \<le> COAP_MAX_NUMBER_OF_OPTIONS"
    and ag: "agrees_below b (k + unat (options_offset m)) h h1"
    and room: "unat (options_offset m) + length bs \<le> unat (data_len m)"
    and val: "bs = [] \<or> q = Some (Ptr b (k + unat (options_offset m))) \<and>
      load_bytes h1 (Ptr b (k + unat (options_offset m))) (length bs) = Inr bs"
  shows "\<exists>m'. opt_append h1 m q (of_nat num) (of_nat (length bs)) = Inr (NRF_SUCCESS, h1, m') \<and>
    building h1 m' b k (add_option num bs p)"
  using opt_append_building [OF bld ag _ _ _ room _ val] ok cnt
  by (simp add: next_option_ok_def add_option_def)

lemma building_count:
  assumes "building h m b k p"
  shows "length (pdu_options p) \<le> COAP_MAX_NUMBER_OF_OPTIONS"
proof -
  have "options_repr h 0 (used_options m) (pdu_options p)" and l: "length (options m) = COAP_MAX_NUMBER_OF_OPTIONS"
    using assms unfolding building_def message_repr_def by blast+
  then have "length (used_options m) = length (pdu_options p)" by (intro options_repr_length)
  then show ?thesis using l by (simp add: used_options_def)
qed

text \<open>Writing a value at the end of the option area keeps everything below it.\<close>

lemma store_at_offset:
  assumes "lim + length vs \<le> length (h b)"
  shows "\<exists>h1. store_bytes h (Ptr b lim) vs = Inr h1 \<and> agrees_below b lim h h1 \<and>
    load_bytes h1 (Ptr b lim) (length vs) = Inr vs"
proof -
  let ?h1 = "h(b := take lim (h b) @ vs @ drop (lim + length vs) (h b))"
  have "store_bytes h (Ptr b lim) vs = Inr ?h1" using assms by (simp add: arr_write_eq)
  moreover have "agrees_below b lim h ?h1" using assms by (simp add: agrees_below_def)
  moreover have "load_bytes ?h1 (Ptr b lim) (length vs) = Inr vs"
    using assms by (simp add: load_bytes.simps arr_read_def)
  ultimately show ?thesis by blast
qed

text \<open>Adding an integer option to a message under construction: with the option array full it returns NO_MEM,
  with too little room in the data buffer DATA_SIZE, and in both cases changes nothing; otherwise it
  succeeds and the message stands for the PDU with the option appended, its value encoded in 0, 1, 2
  or 4 bytes (no bytes for zero), and no other memory object changes.\<close>

theorem coap_message_opt_uint_add_appends:
  assumes "building h m b k p" and "next_option_ok p num (uint_value d)"
  shows "if length (pdu_options p) = COAP_MAX_NUMBER_OF_OPTIONS
    then coap_message_opt_uint_add h m (of_nat num) d = Inr (NRF_ERROR_NO_MEM OR IOT_COAP_ERR_BASE, h, m)
    else if unat (data_len m) - unat (options_offset m) < length (uint_value d)
    then coap_message_opt_uint_add h m (of_nat num) d = Inr (NRF_ERROR_DATA_SIZE OR IOT_COAP_ERR_BASE, h, m)
    else \<exists>h' m'. coap_message_opt_uint_add h m (of_nat num) d = Inr (NRF_SUCCESS, h', m') \<and>
           building h' m' b k (add_option num (uint_value d) p) \<and> agrees_below b (k + unat (options_offset m)) h h'"
proof -
  note f = building_facts [OF assms(1)] and c = building_count [OF assms(1)]
  let ?lim = "k + unat (options_offset m)"
  have none: "coap_message_opt_uint_add h m (of_nat num) d = Inr (NRF_ERROR_NO_MEM OR IOT_COAP_ERR_BASE, h, m)"
    if "length (pdu_options p) = COAP_MAX_NUMBER_OF_OPTIONS"
    using that f(1) by (simp add: coap_message_opt_uint_add_def)
  have small: "coap_message_opt_uint_add h m (of_nat num) d = Inr (NRF_ERROR_DATA_SIZE OR IOT_COAP_ERR_BASE, h, m)"
    if "length (pdu_options p) \<noteq> COAP_MAX_NUMBER_OF_OPTIONS"
      "unat (data_len m) - unat (options_offset m) < length (uint_value d)"
    using that f c
    by (simp add: coap_message_opt_uint_add_def uint_value_def Let_def coap_opt_uint_encode_eq split: if_splits)
  have good: "\<exists>h' m'. coap_message_opt_uint_add h m (of_nat num) d = Inr (NRF_SUCCESS, h', m') \<and>
      building h' m' b k (add_option num (uint_value d) p) \<and> agrees_below b ?lim h h'"
    if ne: "length (pdu_options p) \<noteq> COAP_MAX_NUMBER_OF_OPTIONS"
      and room: "\<not> unat (data_len m) - unat (options_offset m) < length (uint_value d)"
  proof (cases "d = 0")
    case True
    then obtain m' where "opt_append h m (Some (Ptr b ?lim)) (of_nat num) (of_nat (length [])) = Inr (NRF_SUCCESS, h, m')"
        "building h m' b k (add_option num [] p)"
      using opt_append_adds [OF assms(1) _ ne c agrees_below_refl, of num "[]" "Some (Ptr b ?lim)"] assms(2) f(4)
      by (auto simp: uint_value_def)
    then show ?thesis using True ne c f
      by (simp add: coap_message_opt_uint_add_def uint_value_def)
  next
    case False
    then have v: "uint_value d = uint_bytes d" by (simp add: uint_value_def)
    have r: "unat (options_offset m) + length (uint_bytes d) \<le> unat (data_len m)" using room f(4) v by simp
    obtain h1 where h1: "store_bytes h (Ptr b ?lim) (uint_bytes d) = Inr h1" "agrees_below b ?lim h h1"
        "load_bytes h1 (Ptr b ?lim) (length (uint_bytes d)) = Inr (uint_bytes d)"
      using store_at_offset [of ?lim "uint_bytes d" h b] r f(3) by auto
    then obtain m' where m': "opt_append h1 m (Some (Ptr b ?lim)) (of_nat num) (of_nat (length (uint_bytes d)))
          = Inr (NRF_SUCCESS, h1, m')" "building h1 m' b k (add_option num (uint_bytes d) p)"
      using opt_append_adds [OF assms(1) _ ne c h1(2) r, of num "Some (Ptr b ?lim)"] assms(2) v by auto
    have "coap_opt_uint_encode h (Ptr b ?lim) (Some (data_len m - options_offset m)) d
        = Inr (NRF_SUCCESS, h1, Some (of_nat (length (uint_bytes d))))"
      using h1(1) room v f(5) by (simp add: coap_opt_uint_encode_eq del: store_bytes.simps)
    then show ?thesis using False ne c f m' h1(2) v
      by (auto simp: coap_message_opt_uint_add_def Let_def)
  qed
  show ?thesis using none small good by simp
qed

lemma opaque_guard: "uint (a :: u16) - uint b < uint c \<longleftrightarrow> unat a < unat b + unat (c :: u16)"
  unfolding uint_nat [of a] uint_nat [of b] uint_nat [of c] by linarith

text \<open>Adding an opaque option refuses a full option array and a value that does not fit into the rest of
  the data buffer, without a change; otherwise the value is copied to the end of the option area and
  the message stands for the PDU with the option appended.\<close>

theorem coap_message_opt_opaque_add_appends:
  assumes "building h m b k p" and "next_option_ok p num bs"
    and "load_bytes h src (unat len) = Inr bs"
  shows "if length (pdu_options p) = COAP_MAX_NUMBER_OF_OPTIONS
    then coap_message_opt_opaque_add h m (of_nat num) src len = Inr (NRF_ERROR_NO_MEM OR IOT_COAP_ERR_BASE, h, m)
    else if unat (data_len m) - unat (options_offset m) < length bs
    then coap_message_opt_opaque_add h m (of_nat num) src len = Inr (NRF_ERROR_DATA_SIZE OR IOT_COAP_ERR_BASE, h, m)
    else \<exists>h' m'. coap_message_opt_opaque_add h m (of_nat num) src len = Inr (NRF_SUCCESS, h', m') \<and>
           building h' m' b k (add_option num bs p) \<and> agrees_below b (k + unat (options_offset m)) h h'"
proof -
  note f = building_facts [OF assms(1)] and c = building_count [OF assms(1)]
  let ?lim = "k + unat (options_offset m)"
  have lb: "unat len = length bs" using load_bytes_Inr_length [OF assms(3)] by simp
  then have len: "len = of_nat (length bs)" by (rule u16_eq_of_nat)
  have good: "\<exists>h' m'. coap_message_opt_opaque_add h m (of_nat num) src len = Inr (NRF_SUCCESS, h', m') \<and>
      building h' m' b k (add_option num bs p) \<and> agrees_below b ?lim h h'"
    if ne: "length (pdu_options p) \<noteq> COAP_MAX_NUMBER_OF_OPTIONS"
      and room: "\<not> unat (data_len m) - unat (options_offset m) < length bs"
  proof -
    have r: "unat (options_offset m) + length bs \<le> unat (data_len m)" using room f(4) by simp
    obtain h1 where h1: "store_bytes h (Ptr b ?lim) bs = Inr h1" "agrees_below b ?lim h h1"
        "load_bytes h1 (Ptr b ?lim) (length bs) = Inr bs"
      using store_at_offset [of ?lim bs h b] r f(3) by auto
    then obtain m' where m': "opt_append h1 m (Some (Ptr b ?lim)) (of_nat num) len = Inr (NRF_SUCCESS, h1, m')"
        "building h1 m' b k (add_option num bs p)"
      using opt_append_adds [OF assms(1,2) ne c h1(2) r, of "Some (Ptr b ?lim)"] len by auto
    have guard: "\<not> uint (data_len m) - uint (options_offset m) < uint len"
      unfolding opaque_guard lb using r by simp
    show ?thesis using ne c f m' h1(1,2) assms(3) guard
      by (simp add: coap_message_opt_opaque_add_def Let_def del: store_bytes.simps)
  qed
  moreover have "uint (data_len m) - uint (options_offset m) < uint len"
    if "unat (data_len m) - unat (options_offset m) < length bs"
    unfolding opaque_guard lb using that f(4) by simp
  ultimately show ?thesis using f(1) c
    by (simp add: coap_message_opt_opaque_add_def)
qed

text \<open>Adding a string option copies the string behind the last option without looking at the room left in
  the data buffer: it succeeds where the string fits, and writes out of bounds where it passes the end
  of the memory object.\<close>

theorem coap_message_opt_str_add_appends:
  assumes "building h m b k p" and "next_option_ok p num bs"
    and "load_bytes h src (unat len) = Inr bs" and "src \<noteq> NULL"
    and "length (pdu_options p) < COAP_MAX_NUMBER_OF_OPTIONS"
  shows "(unat (options_offset m) + length bs \<le> unat (data_len m) \<longrightarrow>
      (\<exists>h' m'. coap_message_opt_str_add h m (of_nat num) src len = Inr (NRF_SUCCESS, h', m') \<and>
         building h' m' b k (add_option num bs p) \<and> agrees_below b (k + unat (options_offset m)) h h')) \<and>
    (bs \<noteq> [] \<and> length (h b) < k + unat (options_offset m) + length bs \<longrightarrow>
      coap_message_opt_str_add h m (of_nat num) src len = Inl OutOfBoundsWrite)"
proof -
  note f = building_facts [OF assms(1)] and c = building_count [OF assms(1)]
  let ?lim = "k + unat (options_offset m)"
  have lb: "unat len = length bs" using load_bytes_Inr_length [OF assms(3)] by simp
  then have len: "len = of_nat (length bs)" by (rule u16_eq_of_nat)
  have ne: "length (pdu_options p) \<noteq> COAP_MAX_NUMBER_OF_OPTIONS" using assms(5) by simp
  have good: "\<exists>h' m'. coap_message_opt_str_add h m (of_nat num) src len = Inr (NRF_SUCCESS, h', m') \<and>
         building h' m' b k (add_option num bs p) \<and> agrees_below b ?lim h h'"
    if r: "unat (options_offset m) + length bs \<le> unat (data_len m)"
  proof -
    obtain h1 where h1: "store_bytes h (Ptr b ?lim) bs = Inr h1" "agrees_below b ?lim h h1"
        "load_bytes h1 (Ptr b ?lim) (length bs) = Inr bs"
      using store_at_offset [of ?lim bs h b] r f(3) by auto
    then obtain m' where m': "opt_append h1 m (Some (Ptr b ?lim)) (of_nat num) len = Inr (NRF_SUCCESS, h1, m')"
        "building h1 m' b k (add_option num bs p)"
      using opt_append_adds [OF assms(1,2) ne c h1(2) r, of "Some (Ptr b ?lim)"] len by auto
    show ?thesis using assms(3-5) f m' h1(1,2)
      by (simp add: coap_message_opt_str_add_def coap_opt_string_encode_def Let_def del: store_bytes.simps)
  qed
  have bad: "coap_message_opt_str_add h m (of_nat num) src len = Inl OutOfBoundsWrite"
    if "bs \<noteq> []" "length (h b) < ?lim + length bs"
    using that assms(3-5) f
    by (simp add: coap_message_opt_str_add_def coap_opt_string_encode_def Let_def arr_write_def)
  show ?thesis using good bad by simp
qed

text \<open>Setting the payload of a message under construction copies it behind the options and makes the message
  stand for the PDU with that payload; like the string option it does not check the room and writes
  out of bounds where the payload passes the end of the memory object.\<close>

theorem coap_message_payload_set_sets:
  assumes "building h m b k p" and "load_bytes h src (unat len) = Inr bs"
  shows "(k + unat (options_offset m) + length bs \<le> length (h b) \<longrightarrow>
      (\<exists>h' m'. coap_message_payload_set h m src len = Inr (NRF_SUCCESS, h', m') \<and>
         message_repr h' m' (p\<lparr>pdu_payload := bs\<rparr>) \<and> agrees_below b (k + unat (options_offset m)) h h')) \<and>
    (bs \<noteq> [] \<and> length (h b) < k + unat (options_offset m) + length bs \<longrightarrow>
      coap_message_payload_set h m src len = Inl OutOfBoundsWrite)"
proof -
  note f = building_facts [OF assms(1)]
  let ?lim = "k + unat (options_offset m)"
  have lb: "unat len = length bs" using load_bytes_Inr_length [OF assms(2)] by simp
  have good: "\<exists>h' m'. coap_message_payload_set h m src len = Inr (NRF_SUCCESS, h', m') \<and>
         message_repr h' m' (p\<lparr>pdu_payload := bs\<rparr>) \<and> agrees_below b ?lim h h'"
    if r: "?lim + length bs \<le> length (h b)"
  proof -
    obtain h1 where h1: "store_bytes h (Ptr b ?lim) bs = Inr h1" "agrees_below b ?lim h h1"
        "load_bytes h1 (Ptr b ?lim) (length bs) = Inr bs"
      using store_at_offset [of ?lim bs h b] r by auto
    let ?m' = "m\<lparr>p_payload := Ptr b ?lim, payload_len := len\<rparr>"
    have r0: "options_repr h 0 (used_options m) (pdu_options p)" and
      below: "\<forall>op \<in> set (used_options m). value_below b ?lim op"
      using assms(1) unfolding building_def message_repr_def by blast+
    have "options_repr h1 0 (used_options m) (pdu_options p)" using r0 h1(2) below by (rule options_repr_agrees)
    moreover have "used_options ?m' = used_options m" by (simp add: used_options_def)
    ultimately have "message_repr h1 ?m' (p\<lparr>pdu_payload := bs\<rparr>)"
      using assms(1) h1(3) lb unfolding building_def message_repr_def by simp
    moreover have "coap_message_payload_set h m src len = Inr (NRF_SUCCESS, h1, ?m')"
      using assms(2) f(2) h1(1) by (simp add: coap_message_payload_set_def Let_def del: store_bytes.simps)
    ultimately show ?thesis using h1(2) by blast
  qed
  have bad: "coap_message_payload_set h m src len = Inl OutOfBoundsWrite"
    if "bs \<noteq> []" "length (h b) < ?lim + length bs"
    using that assms(2) f by (simp add: coap_message_payload_set_def Let_def arr_write_def)
  show ?thesis using good bad by simp
qed

section \<open>A message under construction\<close>

text \<open>An empty message with a data buffer of 16 bytes in the object 20, and source data in the object 21.\<close>

definition blank_message :: coap_message_t where
  "blank_message = coap_message_zero\<lparr>p_data := Ptr 20 0, data_len := 16\<rparr>"

definition blank_heap :: heap where
  "blank_heap = (\<lambda>_. [])(20 := replicate 16 0, 21 := [108, 101, 100] @ replicate 29 7)"

definition blank_pdu :: pdu where
  "blank_pdu = \<lparr>pdu_version = 0, pdu_type = 0, pdu_code = 0, pdu_id = 0, pdu_token = [],
     pdu_options = [], pdu_payload = []\<rparr>"

lemma blank_building: "building blank_heap blank_message 20 0 blank_pdu"
  by (simp add: building_def message_repr_def blank_heap_def blank_message_def blank_pdu_def coap_message_zero_def
      used_options_def c_consts)

lemma blank_next:
  "next_option_ok blank_pdu 12 (uint_value 50)" "next_option_ok blank_pdu 11 [108, 101, 100]"
  by (simp_all add: next_option_ok_def blank_pdu_def uint_value_def uint_bytes_def rfc_option_def rfc_ext_def)

lemma blank_source:
  "load_bytes blank_heap (Ptr 21 0) (unat (3 :: u16)) = Inr [108, 101, 100]"
  by (simp add: blank_heap_def load_bytes.simps arr_read_def)

lemma blank_room: "unat (options_offset blank_message) = 0" "unat (data_len blank_message) = 16"
    "length (pdu_options blank_pdu) = 0" "length (blank_heap 20) = 16"
  by (simp_all add: blank_message_def blank_pdu_def coap_message_zero_def blank_heap_def)

theorem coap_message_opt_uint_add_appends_witness:
  "\<exists>h' m'. coap_message_opt_uint_add blank_heap blank_message (of_nat 12) 50 = Inr (NRF_SUCCESS, h', m') \<and>
     building h' m' 20 0 (add_option 12 (uint_value 50) blank_pdu)"
  using coap_message_opt_uint_add_appends [OF blank_building blank_next(1)]
  by (auto simp: blank_room uint_value_def uint_bytes_def c_consts split: if_splits)

theorem coap_message_opt_opaque_add_appends_witness:
  "\<exists>h' m'. coap_message_opt_opaque_add blank_heap blank_message (of_nat 11) (Ptr 21 0) 3 = Inr (NRF_SUCCESS, h', m') \<and>
     building h' m' 20 0 (add_option 11 [108, 101, 100] blank_pdu)"
  using coap_message_opt_opaque_add_appends [OF blank_building blank_next(2) blank_source]
  by (auto simp: blank_room c_consts split: if_splits)

theorem coap_message_opt_str_add_appends_witness:
  "\<exists>h' m'. coap_message_opt_str_add blank_heap blank_message (of_nat 11) (Ptr 21 0) 3 = Inr (NRF_SUCCESS, h', m') \<and>
     building h' m' 20 0 (add_option 11 [108, 101, 100] blank_pdu)"
  using coap_message_opt_str_add_appends [OF blank_building blank_next(2) blank_source]
  by (auto simp: blank_room c_consts)

theorem coap_message_payload_set_sets_witness:
  "\<exists>h' m'. coap_message_payload_set blank_heap blank_message (Ptr 21 0) 3 = Inr (NRF_SUCCESS, h', m') \<and>
     message_repr h' m' (blank_pdu\<lparr>pdu_payload := [108, 101, 100]\<rparr>)"
  using coap_message_payload_set_sets [OF blank_building blank_source]
  by (auto simp: blank_room)

section \<open>Content negotiation\<close>

lemma bit_to_content_format_inverse:
  assumes "bit_to_content_format x b = (NRF_SUCCESS, ct)"
  shows "content_format_to_bit ct = b"
  using assms unfolding bit_to_content_format_def
  by (simp split: if_splits) (simp_all add: content_format_to_bit_def c_consts)

text \<open>A successful content negotiation returns a format the resource supports and the request accepts (plain
  text, when the request has no Accept option), the one with the lowest mask bit; without a common
  format the code shifts 1 by 32 places, which C leaves undefined, instead of reporting NOT_FOUND.\<close>

theorem coap_message_ct_match_select_lowest:
  assumes "coap_message_accept_mask_get h p_message (Some 0) = Inr (e, Some amask)"
    and "coap_message_ct_match_select h x p_message support = r"
    and "common = support AND (if amask = 0 then COAP_CT_MASK_PLAIN_TEXT else amask)"
  shows "case r of
      Inr (err, ct) \<Rightarrow> common \<noteq> 0 \<and> (err = NRF_SUCCESS \<longrightarrow>
        (\<exists>i < 32. content_format_to_bit ct = push_bit i 1 \<and> bit common i \<and> (\<forall>j < i. \<not> bit common j)))
    | Inl f \<Rightarrow> common = 0 \<and> f = ShiftTooLarge"
proof -
  have sel: "r = (case find_first (\<lambda>i. drop_bit i common AND 0x1 = 1) [0..<32] of
      Some i \<Rightarrow> Inr (bit_to_content_format x (push_bit i 1)) | None \<Rightarrow> Inl ShiftTooLarge)"
    using assms(2) unfolding coap_message_ct_match_select_def assms(1) c_bind_Inr Let_def prod.case option.sel assms(3)
    by (rule sym)
  show ?thesis
proof (cases "find_first (\<lambda>i. drop_bit i common AND 0x1 = 1) [0..<32]")
  case None
  then have "\<forall>i < 32. \<not> bit common i"
    by (auto simp: find_first_None bit_iff_and_drop_bit_eq_1)
  then have "common = 0" by (intro bit_word_eqI) simp
  moreover have "r = Inl ShiftTooLarge"
    using sel None by simp
  ultimately show ?thesis by simp
next
  case (Some i)
  then have i: "i < 32" "bit common i" "\<forall>j < i. \<not> bit common j"
    unfolding find_first_Some by (auto simp: bit_iff_and_drop_bit_eq_1)
  have r: "r = Inr (bit_to_content_format x (push_bit i 1))"
    using sel Some by simp
  have "common \<noteq> 0" using i(2) by auto
  then show ?thesis
    using i unfolding r by (auto split: prod.splits dest!: bit_to_content_format_inverse)
qed
qed

theorem coap_message_ct_match_select_lowest_witness:
  "case coap_message_ct_match_select (\<lambda>_. []) 0 (Some coap_message_zero) 0x41 of
      Inr (err, ct) \<Rightarrow> (0x41 :: u32) AND 1 \<noteq> 0 | Inl f \<Rightarrow> False"
  using coap_message_ct_match_select_lowest [where h = "\<lambda>_. []" and p_message = "Some coap_message_zero"
      and amask = 0 and x = 0 and support = 65, OF _ refl refl]
  by (simp add: coap_message_accept_mask_get_def coap_message_zero_def COAP_CT_MASK_PLAIN_TEXT_def
      split: sum.splits prod.splits)

end
