(* ===== verification/Coap_Queue.thy ===== *)
theory Coap_Queue
  imports Coap_Message Slot_Table
begin

text \<open>
  The queue of messages that wait for an acknowledgement or a response,
  \<^verbatim>\<open>components/iot/coap/coap_queue.c\<close>. A pointer to an item is its index in \<open>m_queue\<close>; \<open>None\<close> is NULL
  or a pointer to something else.
\<close>

section \<open>State and operations\<close>

record coap_queue_item_t =
  q_arg :: "nat option"
  handle :: u32
  mid :: u16
  q_token_len :: u8
  q_token :: "u8 list"
  retrans_count :: u8
  timeout :: u16
  timeout_val :: u16
  q_port :: coap_port_t
  p_buffer :: ptr
  buffer_len :: u32
  q_remote :: coap_remote_t
  callback :: "nat option"

record coap_queue =
  m_queue :: "coap_queue_item_t list"
  m_message_queue_count :: u8

definition queue_item_zero :: coap_queue_item_t where
  "queue_item_zero =
     \<lparr>q_arg = None, handle = 0, mid = 0, q_token_len = 0, q_token = replicate 8 0, retrans_count = 0,
      timeout = 0, timeout_val = 0, q_port = \<lparr>port_number = 0\<rparr>, p_buffer = NULL, buffer_len = 0,
      q_remote = \<lparr>remote_addr = replicate 16 0, remote_port_number = 0\<rparr>, callback = None\<rparr>"

definition coap_queue_init :: "coap_queue \<Rightarrow> u32 \<times> coap_queue" where
  "coap_queue_init q =
     (NRF_SUCCESS, q\<lparr>m_queue := map (\<lambda>i. queue_item_zero\<lparr>handle := of_nat i\<rparr>) [0..<COAP_MESSAGE_QUEUE_SIZE],
                     m_message_queue_count := 0\<rparr>)"

definition coap_queue_add :: "coap_queue \<Rightarrow> coap_queue_item_t option \<Rightarrow> u32 \<times> coap_queue" where
  "coap_queue_add q p_item =
     (case p_item of
        None \<Rightarrow> (NRF_ERROR_NULL OR IOT_COAP_ERR_BASE, q)
      | Some item \<Rightarrow>
        if unat (m_message_queue_count q) \<ge> COAP_MESSAGE_QUEUE_SIZE
        then (NRF_ERROR_NO_MEM OR IOT_COAP_ERR_BASE, q)
        else case find_first (\<lambda>it. p_buffer it = NULL) (m_queue q) of
          Some i \<Rightarrow> (NRF_SUCCESS, q\<lparr>m_queue := (m_queue q)[i := item],
                                   m_message_queue_count := m_message_queue_count q + 1\<rparr>)
        | None \<Rightarrow> (NRF_ERROR_DATA_SIZE OR IOT_COAP_ERR_BASE, q))"

definition coap_queue_remove :: "coap_queue \<Rightarrow> nat option \<Rightarrow> u32 \<times> coap_queue" where
  "coap_queue_remove q p_item =
     (case p_item of
        Some i \<Rightarrow>
          if i < length (m_queue q)
          then (NRF_SUCCESS, q\<lparr>m_queue := (m_queue q)[i := queue_item_zero],
                               m_message_queue_count := m_message_queue_count q - 1\<rparr>)
          else (NRF_ERROR_NOT_FOUND OR IOT_COAP_ERR_BASE, q)
      | None \<Rightarrow> (NRF_ERROR_NOT_FOUND OR IOT_COAP_ERR_BASE, q))"

text \<open>\<open>memcmp\<close> on two byte arrays, and the search with it.\<close>

definition mem_eq :: "u8 list \<Rightarrow> u8 list \<Rightarrow> nat \<Rightarrow> fault + bool" where
  "mem_eq a b n = c_bind (arr_read a 0 n) (\<lambda>xs. c_bind (arr_read b 0 n) (\<lambda>ys. Inr (xs = ys)))"

fun item_by_token_loop :: "coap_queue_item_t list \<Rightarrow> u8 list \<Rightarrow> u8 \<Rightarrow> nat \<Rightarrow> fault + u32 \<times> nat option" where
  "item_by_token_loop [] p_token token_len i = Inr (NRF_ERROR_NOT_FOUND OR IOT_COAP_ERR_BASE, None)"
| "item_by_token_loop (it # its) p_token token_len i =
     (if q_token_len it = token_len \<and> 0 \<noteq> q_token_len it
      then c_bind (mem_eq (q_token it) p_token (unat (q_token_len it))) (\<lambda>eq.
           if eq then Inr (NRF_SUCCESS, Some i) else item_by_token_loop its p_token token_len (Suc i))
      else item_by_token_loop its p_token token_len (Suc i))"

definition coap_queue_item_by_token_get :: "coap_queue \<Rightarrow> u8 list \<Rightarrow> u8 \<Rightarrow> fault + u32 \<times> nat option" where
  "coap_queue_item_by_token_get q p_token token_len = item_by_token_loop (m_queue q) p_token token_len 0"

definition coap_queue_item_by_mid_get :: "coap_queue \<Rightarrow> u16 \<Rightarrow> u32 \<times> nat option" where
  "coap_queue_item_by_mid_get q message_id =
     (case find_first (\<lambda>it. mid it = message_id) (m_queue q) of
        Some i \<Rightarrow> (NRF_SUCCESS, Some i)
      | None \<Rightarrow> (NRF_ERROR_NOT_FOUND OR IOT_COAP_ERR_BASE, None))"

definition coap_queue_item_next_get :: "coap_queue \<Rightarrow> nat option \<Rightarrow> u32 \<times> nat option" where
  "coap_queue_item_next_get q p_item =
     (case (case p_item of
              None \<Rightarrow> find_first (\<lambda>it. p_buffer it \<noteq> NULL) (m_queue q)
            | Some index_to_previous \<Rightarrow> find_next (\<lambda>it. p_buffer it \<noteq> NULL) (index_to_previous + 1) (m_queue q)) of
        Some i \<Rightarrow> (NRF_SUCCESS, Some i)
      | None \<Rightarrow> (NRF_ERROR_NOT_FOUND OR IOT_COAP_ERR_BASE, None))"

section \<open>The invariant\<close>

abbreviation item_used :: "coap_queue_item_t \<Rightarrow> bool" where
  "item_used it \<equiv> p_buffer it \<noteq> NULL"

text \<open>A free slot is blank apart from its handle; a used one has a token of at most 8 bytes.\<close>

definition slot_ok :: "coap_queue_item_t \<Rightarrow> bool" where
  "slot_ok it \<longleftrightarrow> length (q_token it) = 8 \<and> unat (q_token_len it) \<le> 8 \<and>
     (p_buffer it = NULL \<longrightarrow> mid it = 0 \<and> q_token_len it = 0 \<and> callback it = None)"

definition queue_inv :: "coap_queue \<Rightarrow> bool" where
  "queue_inv q \<longleftrightarrow> length (m_queue q) = COAP_MESSAGE_QUEUE_SIZE \<and>
     unat (m_message_queue_count q) = count_if item_used (m_queue q) \<and> (\<forall>it \<in> set (m_queue q). slot_ok it)"

text \<open>The abstract state: the bag of pending messages.\<close>

definition pending :: "coap_queue \<Rightarrow> coap_queue_item_t multiset" where
  "pending q = table_items item_used (m_queue q)"

interpretation qt: slot_table "\<lambda>it. p_buffer it = NULL" "\<lambda>_. queue_item_zero"
  by unfold_locales (simp add: queue_item_zero_def)

lemma queue_init_inv: "queue_inv (snd (coap_queue_init q))"
  by (auto simp: coap_queue_init_def queue_inv_def count_if_def queue_item_zero_def comp_def slot_ok_def)

lemma queue_count_le: "queue_inv q \<Longrightarrow> unat (m_message_queue_count q) \<le> COAP_MESSAGE_QUEUE_SIZE"
  using count_if_le [of item_used "m_queue q"] by (simp add: queue_inv_def)

lemma queue_add_cases:
  assumes "queue_inv q"
  obtains (full) "unat (m_message_queue_count q) = COAP_MESSAGE_QUEUE_SIZE"
      "coap_queue_add q (Some item) = (NRF_ERROR_NO_MEM OR IOT_COAP_ERR_BASE, q)"
    | (added) i where "find_first (\<lambda>it. p_buffer it = NULL) (m_queue q) = Some i"
      "unat (m_message_queue_count q) < COAP_MESSAGE_QUEUE_SIZE"
      "coap_queue_add q (Some item) = (NRF_SUCCESS, q\<lparr>m_queue := (m_queue q)[i := item],
         m_message_queue_count := m_message_queue_count q + 1\<rparr>)"
proof (cases "find_first (\<lambda>it. p_buffer it = NULL) (m_queue q)")
  case None
  then have "unat (m_message_queue_count q) = COAP_MESSAGE_QUEUE_SIZE"
    using assms by (simp add: qt.no_free_slot queue_inv_def)
  then show thesis by (intro full) (simp_all add: coap_queue_add_def)
next
  case (Some i)
  then have "unat (m_message_queue_count q) < COAP_MESSAGE_QUEUE_SIZE"
    using assms qt.add_room [OF Some] by (simp add: queue_inv_def)
  then show thesis using Some by (intro added) (simp_all add: coap_queue_add_def)
qed

lemma queue_add_inv:
  assumes "queue_inv q" "item_used item" "slot_ok item"
  shows "queue_inv (snd (coap_queue_add q (Some item)))"
  using assms(1)
proof (cases rule: queue_add_cases [where item = item])
  case (added i)
  have "unat (m_message_queue_count q + 1) = Suc (unat (m_message_queue_count q))"
    using added(2) unat_add_u8 [of "m_message_queue_count q" 1] by (simp add: c_consts)
  then show ?thesis using added qt.add_count [OF added(1) assms(2)] assms(1,3)
    by (auto simp: queue_inv_def dest!: subsetD [OF set_update_subset_insert])
qed (use assms in simp)

lemma queue_remove_inv:
  assumes "queue_inv q" "i < length (m_queue q)" "item_used (m_queue q ! i)"
  shows "queue_inv (snd (coap_queue_remove q (Some i)))"
proof -
  have c: "Suc (count_if item_used ((m_queue q)[i := queue_item_zero])) = unat (m_message_queue_count q)"
    using qt.clear_count [OF assms(2,3)] assms(1) by (simp add: queue_inv_def)
  have "(1 :: u8) \<le> m_message_queue_count q" using c by (simp add: word_le_nat_alt)
  then have "unat (m_message_queue_count q - 1) = unat (m_message_queue_count q) - 1"
    by (simp add: unat_sub)
  then show ?thesis using c assms(1,2)
    by (auto simp: coap_queue_remove_def queue_inv_def queue_item_zero_def slot_ok_def
        dest!: subsetD [OF set_update_subset_insert])
qed

lemma pending_size: "queue_inv q \<Longrightarrow> size (pending q) = unat (m_message_queue_count q)"
  by (simp add: pending_def table_items_size queue_inv_def)

lemma queue_remove_pending:
  assumes "queue_inv q" "i < length (m_queue q)" "item_used (m_queue q ! i)"
  shows "pending (snd (coap_queue_remove q (Some i))) = pending q - {#m_queue q ! i#}"
  using qt.clear_items [OF assms(2,3)] assms(2) by (simp add: coap_queue_remove_def pending_def)

section \<open>Properties\<close>

text \<open>C3: The queue implements a bag of at most 8 pending messages: adding a message with a buffer succeeds
  exactly when fewer than 8 are pending, and then adds it to the bag; a full queue is reported as NO_MEM
  and left alone; removing a pending item takes it out of the bag; the invariant, that the counter is
  the number of used slots, is kept by all of them.\<close>

theorem coap_queue_implements_bag:
  assumes "queue_inv q" "p_buffer item \<noteq> NULL" "slot_ok item"
    and "i < length (m_queue q)" "p_buffer (m_queue q ! i) \<noteq> NULL"
  shows "(case coap_queue_add q (Some item) of (e, q') \<Rightarrow> queue_inv q' \<and>
      (if size (pending q) < COAP_MESSAGE_QUEUE_SIZE
       then e = NRF_SUCCESS \<and> pending q' = add_mset item (pending q)
       else e = NRF_ERROR_NO_MEM OR IOT_COAP_ERR_BASE \<and> q' = q)) \<and>
    (case coap_queue_remove q (Some i) of (e, q') \<Rightarrow> queue_inv q' \<and>
       e = NRF_SUCCESS \<and> pending q' = pending q - {#m_queue q ! i#} \<and> m_queue q ! i \<in># pending q) \<and>
    queue_inv (snd (coap_queue_init q)) \<and> pending (snd (coap_queue_init q)) = {#}"
proof (intro conjI)
  show "case coap_queue_add q (Some item) of (e, q') \<Rightarrow> queue_inv q' \<and>
      (if size (pending q) < COAP_MESSAGE_QUEUE_SIZE
       then e = NRF_SUCCESS \<and> pending q' = add_mset item (pending q)
       else e = NRF_ERROR_NO_MEM OR IOT_COAP_ERR_BASE \<and> q' = q)"
    using assms(1)
  proof (cases rule: queue_add_cases [where item = item])
    case full
    then show ?thesis using assms(1) by (simp add: pending_size)
  next
    case (added k)
    then show ?thesis
      using queue_add_inv [OF assms(1-3)] qt.add_items [OF added(1) assms(2)] pending_size [OF assms(1)]
      by (simp add: pending_def)
  qed
  show "case coap_queue_remove q (Some i) of (e, q') \<Rightarrow> queue_inv q' \<and>
       e = NRF_SUCCESS \<and> pending q' = pending q - {#m_queue q ! i#} \<and> m_queue q ! i \<in># pending q"
    using queue_remove_inv [OF assms(1,4,5)] queue_remove_pending [OF assms(1,4,5)] assms(4,5)
      table_items_member [OF assms(4), of item_used]
    by (auto simp: coap_queue_remove_def pending_def)
  show "queue_inv (snd (coap_queue_init q))" by (rule queue_init_inv)
  show "pending (snd (coap_queue_init q)) = {#}"
    by (auto simp: coap_queue_init_def pending_def table_items_def queue_item_zero_def)
qed

text \<open>A queue with one pending message.\<close>

definition sample_item :: coap_queue_item_t where
  "sample_item = queue_item_zero\<lparr>mid := 7, q_token_len := 2, q_token := [1, 2, 0, 0, 0, 0, 0, 0],
     p_buffer := Ptr 128 0, buffer_len := 128, timeout := 2, timeout_val := 2\<rparr>"

definition sample_queue :: coap_queue where
  "sample_queue = snd (coap_queue_add (snd (coap_queue_init \<lparr>m_queue = [], m_message_queue_count = 0\<rparr>)) (Some sample_item))"

lemma sample_queue_eq: "sample_queue =
  \<lparr>m_queue = sample_item # map (\<lambda>i. queue_item_zero\<lparr>handle := of_nat i\<rparr>) [1, 2, 3, 4, 5, 6, 7],
   m_message_queue_count = 1\<rparr>"
  by (simp add: sample_queue_def coap_queue_init_def coap_queue_add_def find_first_def c_consts upt_rec
      queue_item_zero_def)

lemma sample_queue_inv: "queue_inv sample_queue"
  by (simp add: sample_queue_eq queue_inv_def count_if_def sample_item_def queue_item_zero_def slot_ok_def c_consts)

lemma sample_item_used: "item_used sample_item" "slot_ok sample_item"
  by (simp_all add: sample_item_def slot_ok_def)

theorem coap_queue_implements_bag_witness:
  "case coap_queue_remove sample_queue (Some 0) of (e, q') \<Rightarrow> queue_inv q' \<and> e = NRF_SUCCESS"
  using coap_queue_implements_bag [OF sample_queue_inv sample_item_used, of 0] sample_item_used
  by (auto simp: sample_queue_eq split: prod.splits)

text \<open>The indices visited by \<open>for (next_get(&p, NULL); p != NULL; next_get(&p, p))\<close>.\<close>

fun visit_queue :: "coap_queue \<Rightarrow> nat option \<Rightarrow> nat \<Rightarrow> nat list" where
  "visit_queue q p 0 = []"
| "visit_queue q p (Suc fuel) =
     (case coap_queue_item_next_get q p of
        (e, Some i) \<Rightarrow> i # visit_queue q (Some i) fuel
      | (e, None) \<Rightarrow> [])"

lemma visit_queue_eq:
  "visit_queue q p fuel = visit_from item_used (m_queue q) (case p of None \<Rightarrow> 0 | Some i \<Rightarrow> Suc i) fuel"
proof (induction fuel arbitrary: p)
  case (Suc fuel)
  show ?case
    by (auto simp: coap_queue_item_next_get_def Suc.IH find_first_def find_next_def split: option.splits)
qed simp

text \<open>Iterating with \<open>coap_queue_item_next_get\<close>, from NULL and then from the item returned, visits every
  pending message exactly once, in table order, and ends after at most 8 calls.\<close>

theorem coap_queue_iteration_complete:
  assumes "queue_inv q"
  shows "visit_queue q None (COAP_MESSAGE_QUEUE_SIZE + n)
    = filter (\<lambda>i. p_buffer (m_queue q ! i) \<noteq> NULL) [0..<COAP_MESSAGE_QUEUE_SIZE]"
proof -
  have l: "length (m_queue q) = COAP_MESSAGE_QUEUE_SIZE" using assms by (simp add: queue_inv_def)
  then show ?thesis
    using qt.visit_all [of "m_queue q" 0 "COAP_MESSAGE_QUEUE_SIZE + n"] by (simp add: visit_queue_eq)
qed

theorem coap_queue_iteration_complete_witness:
  "visit_queue sample_queue None (COAP_MESSAGE_QUEUE_SIZE + 0) = [0]"
  using coap_queue_iteration_complete [OF sample_queue_inv, of 0]
  by (simp add: sample_queue_eq sample_item_def queue_item_zero_def c_consts upt_rec)

section \<open>Lookup\<close>

lemma item_by_mid_Some:
  "coap_queue_item_by_mid_get q x = (e, Some i) \<Longrightarrow> i < length (m_queue q) \<and> mid (m_queue q ! i) = x"
  by (auto simp: coap_queue_item_by_mid_get_def find_first_Some split: option.splits)

lemma mem_eq_tokens:
  "length a = 8 \<Longrightarrow> length b = 8 \<Longrightarrow> n \<le> 8 \<Longrightarrow> mem_eq a b n = Inr (take n a = take n b)"
  by (simp add: mem_eq_def arr_read_eq)

lemma item_by_token_loop_eq:
  assumes "\<forall>it \<in> set its. length (q_token it) = 8 \<and> unat (q_token_len it) \<le> 8" "length tok = 8"
  shows "item_by_token_loop its tok n i =
    (case find_from (\<lambda>it. q_token_len it = n \<and> n \<noteq> 0 \<and> take (unat n) (q_token it) = take (unat n) tok) i its of
       Some j \<Rightarrow> Inr (NRF_SUCCESS, Some j) | None \<Rightarrow> Inr (NRF_ERROR_NOT_FOUND OR IOT_COAP_ERR_BASE, None))"
  using assms
  by (induction its arbitrary: i) (auto simp: mem_eq_tokens)

text \<open>Looking up a pending message by a non-empty token of at most 8 bytes, or by a message id other than 0,
  finds the first pending message with that token or id, never a free slot, and fails with NOT_FOUND
  exactly when there is none; neither lookup reads out of bounds, whatever the token length.\<close>

theorem coap_queue_lookup_pending:
  assumes "queue_inv q" "length tok = 8" "x \<noteq> 0"
  shows "coap_queue_item_by_token_get q tok n =
      (case find_first (\<lambda>it. p_buffer it \<noteq> NULL \<and> q_token_len it = n \<and> n \<noteq> 0 \<and>
                 take (unat n) (q_token it) = take (unat n) tok) (m_queue q) of
         Some j \<Rightarrow> Inr (NRF_SUCCESS, Some j) | None \<Rightarrow> Inr (NRF_ERROR_NOT_FOUND OR IOT_COAP_ERR_BASE, None)) \<and>
    coap_queue_item_by_mid_get q x =
      (case find_first (\<lambda>it. p_buffer it \<noteq> NULL \<and> mid it = x) (m_queue q) of
         Some j \<Rightarrow> (NRF_SUCCESS, Some j) | None \<Rightarrow> (NRF_ERROR_NOT_FOUND OR IOT_COAP_ERR_BASE, None))"
proof
  have ok: "\<forall>it \<in> set (m_queue q). slot_ok it" using assms(1) by (simp add: queue_inv_def)
  have c: "find_from P i its = find_from Q i its" if "\<forall>it \<in> set its. P it = Q it" for P Q :: "coap_queue_item_t \<Rightarrow> bool" and i its
    using that by (induction its arbitrary: i) auto
  show "coap_queue_item_by_token_get q tok n =
      (case find_first (\<lambda>it. p_buffer it \<noteq> NULL \<and> q_token_len it = n \<and> n \<noteq> 0 \<and>
                 take (unat n) (q_token it) = take (unat n) tok) (m_queue q) of
         Some j \<Rightarrow> Inr (NRF_SUCCESS, Some j) | None \<Rightarrow> Inr (NRF_ERROR_NOT_FOUND OR IOT_COAP_ERR_BASE, None))"
    unfolding coap_queue_item_by_token_get_def find_first_def
    using ok by (subst item_by_token_loop_eq [OF _ assms(2)])
      (auto simp: slot_ok_def intro!: c arg_cong [where f = "case_option _ _"])
  show "coap_queue_item_by_mid_get q x =
      (case find_first (\<lambda>it. p_buffer it \<noteq> NULL \<and> mid it = x) (m_queue q) of
         Some j \<Rightarrow> (NRF_SUCCESS, Some j) | None \<Rightarrow> (NRF_ERROR_NOT_FOUND OR IOT_COAP_ERR_BASE, None))"
    unfolding coap_queue_item_by_mid_get_def find_first_def
    using ok assms(3) by (subst c [of _ "\<lambda>it. p_buffer it \<noteq> NULL \<and> mid it = x"]) (auto simp: slot_ok_def)
qed

theorem coap_queue_lookup_pending_witness:
  "coap_queue_item_by_token_get sample_queue [1, 2, 9, 9, 9, 9, 9, 9] 2 = Inr (NRF_SUCCESS, Some 0) \<and>
   coap_queue_item_by_mid_get sample_queue 7 = (NRF_SUCCESS, Some 0)"
  using coap_queue_lookup_pending [OF sample_queue_inv, of "[1, 2, 9, 9, 9, 9, 9, 9]" 7 2]
  by (simp add: sample_queue_eq sample_item_def queue_item_zero_def find_first_def)

text \<open>The lookup by message id does not look at whether a slot is in use: with fewer than 8 messages pending,
  none of them with id 0, it returns a free slot for the id 0, and removing that slot, as the handler of
  acknowledgements does, decrements the counter below the number of pending messages; on an empty queue
  the counter wraps to 255 and from then on no message can be queued.\<close>

theorem coap_queue_id_zero_breaks_counter:
  assumes "queue_inv q" "size (pending q) < COAP_MESSAGE_QUEUE_SIZE" "\<forall>it \<in># pending q. mid it \<noteq> 0"
  shows "\<exists>i q'. coap_queue_item_by_mid_get q 0 = (NRF_SUCCESS, Some i) \<and> p_buffer (m_queue q ! i) = NULL \<and>
    coap_queue_remove q (Some i) = (NRF_SUCCESS, q') \<and> pending q' = pending q \<and>
    m_message_queue_count q' = m_message_queue_count q - 1 \<and>
    (pending q = {#} \<longrightarrow> (\<forall>item. coap_queue_add q' (Some item) = (NRF_ERROR_NO_MEM OR IOT_COAP_ERR_BASE, q')))"
proof -
  have len: "length (m_queue q) = COAP_MESSAGE_QUEUE_SIZE" and ok: "\<forall>it \<in> set (m_queue q). slot_ok it"
    using assms(1) by (simp_all add: queue_inv_def)
  obtain k where k: "find_first (\<lambda>it. p_buffer it = NULL) (m_queue q) = Some k"
    using assms(1,2) qt.no_free_slot [of "m_queue q"] pending_size [OF assms(1)] len
    by (cases "find_first (\<lambda>it. p_buffer it = NULL) (m_queue q)") (auto simp: queue_inv_def)
  then have k': "k < length (m_queue q)" "mid (m_queue q ! k) = 0"
    using ok by (auto simp: find_first_Some slot_ok_def)
  then obtain i where i: "find_first (\<lambda>it. mid it = 0) (m_queue q) = Some i"
    by (cases "find_first (\<lambda>it. mid it = 0) (m_queue q)") (auto simp: find_first_None)
  then have i': "i < length (m_queue q)" "mid (m_queue q ! i) = 0" by (auto simp: find_first_Some)
  have free: "p_buffer (m_queue q ! i) = NULL"
    using assms(3) i' table_items_member [OF i'(1), of item_used] by (auto simp: pending_def)
  let ?q' = "snd (coap_queue_remove q (Some i))"
  have rem: "coap_queue_remove q (Some i) = (NRF_SUCCESS, ?q')" using i'(1) by (simp add: coap_queue_remove_def)
  have p: "pending ?q' = pending q"
    using table_items_update [OF i'(1), of item_used queue_item_zero] free i'(1)
    by (simp add: pending_def coap_queue_remove_def queue_item_zero_def)
  have c: "m_message_queue_count ?q' = m_message_queue_count q - 1"
    using i'(1) by (simp add: coap_queue_remove_def)
  have "m_message_queue_count ?q' = 255" if "pending q = {#}"
  proof -
    have "unat (m_message_queue_count q) = 0" using that pending_size [OF assms(1)] by simp
    then have "m_message_queue_count q = 0" by (simp add: word_unat_eq_iff)
    then show ?thesis using c by simp
  qed
  then have "pending q = {#} \<longrightarrow> (\<forall>item. coap_queue_add ?q' (Some item) = (NRF_ERROR_NO_MEM OR IOT_COAP_ERR_BASE, ?q'))"
    by (simp add: coap_queue_add_def c_consts)
  then show ?thesis using i rem p c free by (auto simp: coap_queue_item_by_mid_get_def)
qed

theorem coap_queue_id_zero_breaks_counter_witness:
  "\<exists>i q'. coap_queue_item_by_mid_get (snd (coap_queue_init \<lparr>m_queue = [], m_message_queue_count = 0\<rparr>)) 0 = (NRF_SUCCESS, Some i) \<and>
     coap_queue_remove (snd (coap_queue_init \<lparr>m_queue = [], m_message_queue_count = 0\<rparr>)) (Some i) = (NRF_SUCCESS, q') \<and>
     (\<forall>item. coap_queue_add q' (Some item) = (NRF_ERROR_NO_MEM OR IOT_COAP_ERR_BASE, q'))"
proof -
  have "pending (snd (coap_queue_init \<lparr>m_queue = [], m_message_queue_count = 0\<rparr>)) = {#}"
    by (auto simp: coap_queue_init_def pending_def table_items_def queue_item_zero_def)
  then show ?thesis
    using coap_queue_id_zero_breaks_counter [OF queue_init_inv, of "\<lparr>m_queue = [], m_message_queue_count = 0\<rparr>"]
    by (auto simp: c_consts)
qed

end
