(* ===== verification/Coap_Resource.thy ===== *)
theory Coap_Resource
  imports Coap_Codec
begin

text \<open>
  The tree of resources a server offers, \<^verbatim>\<open>components/iot/coap/coap_resource.c\<close>: registration, the search
  for the resource a request names, and the link-format description of the tree. A resource is a
  structure at an address; the tree is threaded through the pointers \<open>p_front\<close>, \<open>p_tail\<close> and
  \<open>p_sibling\<close>, which are addresses (\<open>None\<close> is NULL). The recursions over these pointers carry fuel.
\<close>

section \<open>State\<close>

definition COAP_RESOURCE_MAX_AGE_INIFINITE :: u32 where [c_consts]: "COAP_RESOURCE_MAX_AGE_INIFINITE = 0xFFFFFFFF"
definition COAP_PERM_GET :: u16 where [c_consts]: "COAP_PERM_GET = 0x0001"
definition COAP_PERM_POST :: u16 where [c_consts]: "COAP_PERM_POST = 0x0002"
definition COAP_PERM_PUT :: u16 where [c_consts]: "COAP_PERM_PUT = 0x0004"
definition COAP_PERM_DELETE :: u16 where [c_consts]: "COAP_PERM_DELETE = 0x0008"
definition COAP_PERM_OBSERVE :: u16 where [c_consts]: "COAP_PERM_OBSERVE = 0x0100"

record coap_resource_t =
  child_count :: u8
  permission :: u16
  p_sibling :: "nat option"
  p_front :: "nat option"
  p_tail :: "nat option"
  res_callback :: "nat option"
  ct_support_mask :: u32
  max_age :: u32
  expire_time :: u32
  res_name :: "u8 list"

type_synonym res_store = "nat \<Rightarrow> coap_resource_t"

record coap_resources =
  res_at :: res_store
  mp_root_resource :: "nat option"
  m_scratch_buffer :: "u8 list"

definition SCRATCH_SIZE :: nat where
  [c_consts]: "SCRATCH_SIZE = (COAP_RESOURCE_MAX_NAME_LEN + 1) * COAP_RESOURCE_MAX_DEPTH + 6"

text \<open>A static resource structure before it is created: all bytes are zero.\<close>

definition coap_resource_zero :: coap_resource_t where
  "coap_resource_zero =
     \<lparr>child_count = 0, permission = 0, p_sibling = None, p_front = None, p_tail = None, res_callback = None,
      ct_support_mask = 0, max_age = 0, expire_time = 0, res_name = replicate 20 0\<rparr>"

section \<open>Operations\<close>

text \<open>\<open>strlen\<close> of a character array.\<close>

definition c_strlen :: "u8 list \<Rightarrow> fault + nat" where
  "c_strlen s = (case find_first (\<lambda>c. c = 0) s of Some n \<Rightarrow> Inr n | None \<Rightarrow> Inl OutOfBoundsRead)"

definition coap_resource_init :: "coap_resources \<Rightarrow> u32 \<times> coap_resources" where
  "coap_resource_init rs = (NRF_SUCCESS, rs\<lparr>mp_root_resource := None\<rparr>)"

definition coap_resource_create ::
  "coap_resources \<Rightarrow> nat option \<Rightarrow> u8 list option \<Rightarrow> fault + u32 \<times> coap_resources" where
  "coap_resource_create rs p_resource name =
     (case p_resource of
        None \<Rightarrow> Inr (NRF_ERROR_NULL OR IOT_COAP_ERR_BASE, rs)
      | Some a \<Rightarrow>
        (case name of
           None \<Rightarrow> Inr (NRF_ERROR_NULL OR IOT_COAP_ERR_BASE, rs)
         | Some s \<Rightarrow>
           c_bind (c_strlen s) (\<lambda>len.
           if len > COAP_RESOURCE_MAX_NAME_LEN then Inr (NRF_ERROR_DATA_SIZE OR IOT_COAP_ERR_BASE, rs)
           else
             c_bind (arr_write (res_name (res_at rs a)) 0 (take len s)) (\<lambda>nm.
             Inr (NRF_SUCCESS,
                  rs\<lparr>res_at := (res_at rs)(a := (res_at rs a)\<lparr>res_name := nm,
                                                max_age := COAP_RESOURCE_MAX_AGE_INIFINITE\<rparr>),
                     mp_root_resource := (if mp_root_resource rs = None then Some a
                                          else mp_root_resource rs)\<rparr>)))))"

definition coap_resource_child_add ::
  "coap_resources \<Rightarrow> nat option \<Rightarrow> nat option \<Rightarrow> fault + u32 \<times> coap_resources" where
  "coap_resource_child_add rs p_parent p_child =
     (case p_parent of
        None \<Rightarrow> Inr (NRF_ERROR_NULL OR IOT_COAP_ERR_BASE, rs)
      | Some parent \<Rightarrow>
        (case p_child of
           None \<Rightarrow> Inr (NRF_ERROR_NULL OR IOT_COAP_ERR_BASE, rs)
         | Some child \<Rightarrow>
           c_bind
             (if child_count (res_at rs parent) = 0 then
                Inr ((res_at rs)(parent := (res_at rs parent)\<lparr>p_front := Some child, p_tail := Some child\<rparr>))
              else
                (case p_tail (res_at rs parent) of
                   None \<Rightarrow> Inl NullDereference
                 | Some p_last_sibling \<Rightarrow>
                   let s1 = (res_at rs)(p_last_sibling := (res_at rs p_last_sibling)\<lparr>p_sibling := Some child\<rparr>)
                   in Inr (s1(parent := (s1 parent)\<lparr>p_tail := Some child\<rparr>))))
             (\<lambda>s2. Inr (NRF_SUCCESS,
                        rs\<lparr>res_at := s2(parent := (s2 parent)\<lparr>child_count := child_count (s2 parent) + 1\<rparr>)\<rparr>))))"

text \<open>
  \<open>generate_path\<close> uses \<open>parent_path\<close> only to recognise the root (\<open>parent_null\<close>). What it changes are the
  scratch buffer, the output string and the cell behind \<open>length\<close>.
\<close>

record gen_state =
  scratch :: "u8 list"
  out :: "u8 list"
  out_length :: u16

text \<open>The end of \<open>generate_path\<close>: the path in the scratch buffer becomes an entry of the output.\<close>

definition generate_entry :: "coap_resource_t \<Rightarrow> u16 \<Rightarrow> gen_state \<Rightarrow> fault + u32 \<times> gen_state" where
  "generate_entry r pos g =
     c_bind (arr_set (scratch g) (unat pos) 62) (\<lambda>sc.
     c_bind
       (if permission r AND COAP_PERM_OBSERVE > 0
        then c_bind (arr_write sc (unat (pos + 1)) [59, 111, 98, 115]) (\<lambda>sc. Inr (sc, pos + 1 + 4))
        else Inr (sc, pos + 1)) (\<lambda>(sc, pos2).
     c_bind (arr_set sc (unat pos2) 44) (\<lambda>sc.
     if pos2 + 1 \<le> out_length g then
       c_bind (c_strlen (out g)) (\<lambda>n.
       c_bind (arr_read sc 0 (unat (pos2 + 1))) (\<lambda>bs.
       c_bind (arr_write (out g) n bs) (\<lambda>out'.
       Inr (NRF_SUCCESS, g\<lparr>scratch := sc, out := out', out_length := out_length g - (pos2 + 1)\<rparr>))))
     else Inr (NRF_ERROR_DATA_SIZE OR IOT_COAP_ERR_BASE, g\<lparr>scratch := sc\<rparr>))))"

fun generate_path :: "nat \<Rightarrow> res_store \<Rightarrow> u16 \<Rightarrow> nat \<Rightarrow> bool \<Rightarrow> gen_state \<Rightarrow> fault + u32 \<times> gen_state"
  and generate_children :: "nat \<Rightarrow> res_store \<Rightarrow> u16 \<Rightarrow> nat \<Rightarrow> gen_state \<Rightarrow> fault + u32 \<times> gen_state" where
  "generate_path 0 s buffer_pos p parent_null g = Inl Diverges"
| "generate_path (Suc fuel) s buffer_pos p parent_null g =
     (if parent_null then
        c_bind (arr_set (scratch g) (unat buffer_pos) 60) (\<lambda>sc.
        case p_front (s p) of
          None \<Rightarrow> Inr (NRF_SUCCESS, g\<lparr>scratch := sc\<rparr>)
        | Some c \<Rightarrow> generate_children fuel s (buffer_pos + 1) c (g\<lparr>scratch := sc\<rparr>))
      else
        c_bind (c_strlen (res_name (s p))) (\<lambda>sz.
        c_bind (arr_set (scratch g) (unat buffer_pos) 47) (\<lambda>sc.
        c_bind (arr_write sc (unat (buffer_pos + 1)) (take sz (res_name (s p)))) (\<lambda>sc.
        let pos = buffer_pos + 1 + of_nat sz
        in c_bind
             (case p_front (s p) of
                None \<Rightarrow> Inr (NRF_SUCCESS, g\<lparr>scratch := sc\<rparr>)
              | Some c \<Rightarrow> generate_children fuel s pos c (g\<lparr>scratch := sc\<rparr>)) (\<lambda>(err_code, g1).
           if err_code \<noteq> NRF_SUCCESS then Inr (err_code, g1)
           else generate_entry (s p) pos g1)))))"
| "generate_children 0 s buffer_pos p g = Inl Diverges"
| "generate_children (Suc fuel) s buffer_pos p g =
     c_bind (generate_path fuel s buffer_pos p False g) (\<lambda>(err_code, g1).
     if err_code \<noteq> NRF_SUCCESS then Inr (err_code, g1)
     else case p_sibling (s p) of
       None \<Rightarrow> Inr (err_code, g1)
     | Some q \<Rightarrow> generate_children fuel s buffer_pos q g1)"

text \<open>The result is the error code, the string buffer, the cell behind \<open>length\<close> and the state.\<close>

definition coap_resource_well_known_generate ::
  "nat \<Rightarrow> coap_resources \<Rightarrow> u8 list option \<Rightarrow> u16 option \<Rightarrow> fault + u32 \<times> u8 list option \<times> u16 option \<times> coap_resources" where
  "coap_resource_well_known_generate fuel rs str len =
     (case str of
        None \<Rightarrow> Inr (NRF_ERROR_NULL OR IOT_COAP_ERR_BASE, str, len, rs)
      | Some str0 \<Rightarrow>
        (case len of
           None \<Rightarrow> Inr (NRF_ERROR_NULL OR IOT_COAP_ERR_BASE, str, len, rs)
         | Some len0 \<Rightarrow>
           (case mp_root_resource rs of
              None \<Rightarrow> Inr (NRF_ERROR_INVALID_STATE OR IOT_COAP_ERR_BASE, str, len, rs)
            | Some root \<Rightarrow>
              c_bind (arr_write str0 0 (replicate (unat len0) 0)) (\<lambda>str1.
              c_bind (generate_path fuel (res_at rs) 0 root True
                        \<lparr>scratch = m_scratch_buffer rs, out = str1, out_length = len0\<rparr>) (\<lambda>(err_code, g).
              c_bind (c_strlen (out g)) (\<lambda>n.
              c_bind (if n = 0 then Inl OutOfBoundsWrite else arr_set (out g) (n - 1) 0) (\<lambda>str2.
              Inr (err_code, Some str2, Some (out_length g), rs\<lparr>m_scratch_buffer := scratch g\<rparr>))))))))"

text \<open>\<open>strncmp(name, p_path, size) == 0\<close> for a string in an array and one in the byte store.\<close>

fun strncmp_eq :: "heap \<Rightarrow> u8 list \<Rightarrow> ptr \<Rightarrow> nat \<Rightarrow> nat \<Rightarrow> fault + bool" where
  "strncmp_eq h name p i 0 = Inr True"
| "strncmp_eq h name p i (Suc n) =
     c_bind (arr_get name i) (\<lambda>a.
     c_bind (load h p i) (\<lambda>b.
     if a \<noteq> b then Inr False else if a = 0 then Inr True else strncmp_eq h name p (Suc i) n))"

fun child_resolve_loop :: "nat \<Rightarrow> heap \<Rightarrow> res_store \<Rightarrow> nat \<Rightarrow> ptr \<Rightarrow> fault + nat option" where
  "child_resolve_loop 0 h s sibling p_path = Inl Diverges"
| "child_resolve_loop (Suc fuel) h s sibling p_path =
     c_bind (c_strlen (res_name (s sibling))) (\<lambda>sz.
     c_bind (strncmp_eq h (res_name (s sibling)) p_path 0 sz) (\<lambda>eq.
     if eq then Inr (Some sibling)
     else case p_sibling (s sibling) of
       None \<Rightarrow> Inr None
     | Some q \<Rightarrow> child_resolve_loop fuel h s q p_path))"

definition coap_resource_child_resolve :: "nat \<Rightarrow> heap \<Rightarrow> res_store \<Rightarrow> nat \<Rightarrow> ptr \<Rightarrow> fault + nat option" where
  "coap_resource_child_resolve fuel h s p_parent p_path =
     (case p_front (s p_parent) of
        None \<Rightarrow> Inr None
      | Some c \<Rightarrow> child_resolve_loop fuel h s c p_path)"

fun resource_get_loop :: "nat \<Rightarrow> heap \<Rightarrow> res_store \<Rightarrow> nat \<Rightarrow> ptr list \<Rightarrow> nat list \<Rightarrow> fault + nat option" where
  "resource_get_loop fuel h s cur uris [] = Inr (Some cur)"
| "resource_get_loop fuel h s cur uris (i # is) =
     c_bind (arr_get uris i) (\<lambda>p_path.
     c_bind (coap_resource_child_resolve fuel h s cur p_path) (\<lambda>r.
     case r of None \<Rightarrow> Inr None | Some c \<Rightarrow> resource_get_loop fuel h s c uris is))"

definition coap_resource_get ::
  "nat \<Rightarrow> heap \<Rightarrow> coap_resources \<Rightarrow> ptr list \<Rightarrow> u8 \<Rightarrow> fault + u32 \<times> nat option" where
  "coap_resource_get fuel h rs pp_uri_pointers num_of_uris =
     (case mp_root_resource rs of
        None \<Rightarrow> Inr (NRF_ERROR_INVALID_STATE OR IOT_COAP_ERR_BASE, None)
      | Some root \<Rightarrow>
        c_bind (resource_get_loop fuel h (res_at rs) root pp_uri_pointers [0..<unat num_of_uris]) (\<lambda>r.
        case r of
          Some p \<Rightarrow> Inr (NRF_SUCCESS, Some p)
        | None \<Rightarrow> Inr (NRF_ERROR_NOT_FOUND OR IOT_COAP_ERR_BASE, None)))"

definition coap_resource_root_get :: "coap_resources \<Rightarrow> nat option option \<Rightarrow> u32 \<times> nat option option" where
  "coap_resource_root_get rs pp_resource =
     (case pp_resource of
        None \<Rightarrow> (NRF_ERROR_NULL OR IOT_COAP_ERR_BASE, None)
      | Some p \<Rightarrow>
        (case mp_root_resource rs of
           None \<Rightarrow> (NRF_ERROR_NOT_FOUND OR IOT_COAP_ERR_BASE, Some p)
         | Some root \<Rightarrow> (NRF_SUCCESS, Some (Some root))))"

declare generate_path.simps [simp del] generate_children.simps [simp del]

section \<open>Resource trees\<close>

text \<open>The tree the pointers of a store are meant to form, the fuel its traversal takes and its addresses.\<close>

datatype rtree = RTree (rt_addr: nat) (rt_children: "rtree list")

fun linked :: "res_store \<Rightarrow> rtree list \<Rightarrow> bool" where
  "linked s [] \<longleftrightarrow> True"
| "linked s [c] \<longleftrightarrow> p_sibling (s (rt_addr c)) = None"
| "linked s (c # d # cs) \<longleftrightarrow> p_sibling (s (rt_addr c)) = Some (rt_addr d) \<and> linked s (d # cs)"

fun tree_at :: "res_store \<Rightarrow> rtree \<Rightarrow> bool" where
  "tree_at s (RTree a cs) \<longleftrightarrow>
     p_front (s a) = (case cs of [] \<Rightarrow> None | c # _ \<Rightarrow> Some (rt_addr c)) \<and> linked s cs \<and>
     (\<forall>c \<in> set cs. tree_at s c)"

fun nodes :: "rtree \<Rightarrow> nat list" where
  "nodes (RTree a cs) = a # concat (map nodes cs)"

fun rfuel :: "rtree \<Rightarrow> nat" where
  "rfuel (RTree a cs) = Suc (sum_list (map (\<lambda>c. Suc (rfuel c)) cs))"

definition cname :: "coap_resource_t \<Rightarrow> u8 list" where
  "cname r = takeWhile (\<lambda>c. c \<noteq> 0) (res_name r)"

definition named :: "coap_resource_t \<Rightarrow> bool" where
  "named r \<longleftrightarrow> 0 \<in> set (res_name r)"

lemma rfuel_nodes: "Suc (rfuel t) = 2 * length (nodes t)"
proof (induction t rule: nodes.induct)
  case (1 a cs)
  have "sum_list (map (\<lambda>c. Suc (rfuel c)) cs) = 2 * length (concat (map nodes cs))"
    using 1 by (induction cs) auto
  then show ?case by simp
qed

lemma c_strlen_takeWhile:
  assumes "0 \<in> set xs"
  shows "c_strlen xs = Inr (length (takeWhile (\<lambda>c. c \<noteq> 0) xs))"
proof -
  let ?n = "length (takeWhile (\<lambda>c. c \<noteq> 0) xs)"
  have n: "?n < length xs" using assms by (induction xs) auto
  have nz: "xs ! j \<noteq> 0" if "j < ?n" for j
    using set_takeWhileD [OF nth_mem [OF that]] takeWhile_nth [OF that] by simp
  have "xs ! ?n = 0" using nth_length_takeWhile [OF n] by simp
  then have "find_first (\<lambda>c. c = 0) xs = Some ?n"
    using n nz unfolding find_first_Some by blast
  then show ?thesis by (simp add: c_strlen_def)
qed

lemma cname_strlen: "named r \<Longrightarrow> c_strlen (res_name r) = Inr (length (cname r))"
  by (simp add: named_def cname_def c_strlen_takeWhile)

lemma cname_take: "take (length (cname r)) (res_name r) = cname r"
  by (simp add: cname_def takeWhile_eq_take [symmetric])

lemma cname_nonzero: "0 \<notin> set (cname r)"
  by (auto simp: cname_def dest: set_takeWhileD)

lemma strlen_padded: "0 \<notin> set w \<Longrightarrow> 0 < z \<Longrightarrow> c_strlen (w @ replicate z 0) = Inr (length w)"
  by (subst c_strlen_takeWhile) (auto simp: takeWhile_append gr0_conv_Suc)

section \<open>The description of a tree\<close>

text \<open>The entries of the link-format document, children before their parent, and how much of them fits.\<close>

definition obs_attr :: "coap_resource_t \<Rightarrow> u8 list" where
  "obs_attr r = (if permission r AND COAP_PERM_OBSERVE > 0 then [59, 111, 98, 115] else [])"

fun link_entries :: "res_store \<Rightarrow> u8 list \<Rightarrow> rtree \<Rightarrow> u8 list list" where
  "link_entries s pre (RTree a cs) =
     concat (map (link_entries s (pre @ [47] @ cname (s a))) cs)
     @ [pre @ [47] @ cname (s a) @ [62] @ obs_attr (s a) @ [44]]"

fun emit :: "u8 list list \<Rightarrow> u8 list \<times> nat \<Rightarrow> bool \<times> u8 list \<times> nat" where
  "emit [] (w, l) = (True, w, l)"
| "emit (e # es) (w, l) = (if length e \<le> l then emit es (w @ e, l - length e) else (False, w, l))"

lemma emit_append:
  "emit (es @ fs) st = (case emit es st of (ok, st') \<Rightarrow> if ok then emit fs st' else (False, st'))"
  by (induction es st rule: emit.induct) (auto split: prod.splits)

definition gen_ok :: "u8 list \<Rightarrow> u8 list \<Rightarrow> nat \<Rightarrow> gen_state \<Rightarrow> bool" where
  "gen_ok pre w n g \<longleftrightarrow>
     length (scratch g) = SCRATCH_SIZE \<and> length pre \<le> SCRATCH_SIZE \<and> take (length pre) (scratch g) = pre \<and> 0 \<notin> set pre \<and>
     out g = w @ replicate (n - length w) 0 \<and> 0 \<notin> set w \<and> length w + unat (out_length g) \<le> n"

text \<open>Writing bytes behind a prefix of an array extends the prefix.\<close>

lemma prefix_write:
  assumes "take (length pre) xs = pre" "length pre + length vs \<le> length xs" "i = length pre"
  shows "\<exists>ys. arr_write xs i vs = Inr ys \<and> length ys = length xs \<and> take (length (pre @ vs)) ys = pre @ vs"
proof (cases "vs = []")
  case True
  then show ?thesis using assms by (simp add: arr_write_def)
next
  case False
  have "take (length pre + length vs) (take i xs @ vs @ drop (i + length vs) xs) = pre @ vs"
    using assms by simp
  then show ?thesis using assms False by (simp add: arr_write_eq)
qed

lemma prefix_set:
  assumes "take (length pre) xs = pre" "length pre < length xs" "i = length pre"
  shows "\<exists>ys. arr_set xs i v = Inr ys \<and> length ys = length xs \<and> take (length (pre @ [v])) ys = pre @ [v]"
  using assms by (simp add: take_Suc_update)

lemma take_prefix: "take (length (pre @ vs)) xs = pre @ vs \<Longrightarrow> take (length pre) xs = pre"
  by (metis append_eq_conv_conj append_take_drop_id append_assoc length_append take_add)

lemma u16_pos: "unat (p :: u16) = length pre \<Longrightarrow> length pre + k < 65536 \<Longrightarrow> unat (p + of_nat k) = length pre + k"
  by (subst unat_add_u16) (simp_all add: unat_of_nat_u16)

text \<open>The result \<open>r\<close> of a call in the state \<open>g\<close>: the entries that fit have been appended to the output.\<close>

definition emits :: "u8 list list \<Rightarrow> u8 list \<Rightarrow> u8 list \<Rightarrow> nat \<Rightarrow> gen_state \<Rightarrow> (fault + u32 \<times> gen_state) \<Rightarrow> bool" where
  "emits es pre w n g r \<longleftrightarrow>
     (case emit es (w, unat (out_length g)) of (ok, w', l) \<Rightarrow>
        \<exists>g'. r = Inr (if ok then NRF_SUCCESS else NRF_ERROR_DATA_SIZE OR IOT_COAP_ERR_BASE, g') \<and>
             gen_ok pre w' n g' \<and> unat (out_length g') = l)"

lemma generate_entry_emits:
  assumes g: "gen_ok path w n g" and pos: "unat pos = length path"
    and fits: "length (path @ [62] @ obs_attr r @ [44]) \<le> SCRATCH_SIZE"
    and pre: "path = pre @ suf"
  shows "emits [path @ [62] @ obs_attr r @ [44]] pre w n g (generate_entry r pos g)"
  unfolding emits_def
proof -
  let ?e = "path @ [62] @ obs_attr r @ [44]"
  have S: "SCRATCH_SIZE = 106" by (simp add: c_consts)
  note g' = g [unfolded gen_ok_def]
  obtain sc1 where sc1: "arr_set (scratch g) (unat pos) 62 = Inr sc1" "length sc1 = SCRATCH_SIZE"
      "take (length (path @ [62])) sc1 = path @ [62]"
    using prefix_set [of path "scratch g" "unat pos" 62] g' fits pos by auto
  have p1: "unat (pos + 1) = length (path @ [62])"
    using u16_pos [OF pos, of 1] fits S by simp
  obtain sc2 pos2 where sc2: "(if permission r AND COAP_PERM_OBSERVE > 0
        then c_bind (arr_write sc1 (unat (pos + 1)) [59, 111, 98, 115]) (\<lambda>sc. Inr (sc, pos + 1 + 4))
        else Inr (sc1, pos + 1)) = Inr (sc2, pos2)" "length sc2 = SCRATCH_SIZE"
      "take (length (path @ [62] @ obs_attr r)) sc2 = path @ [62] @ obs_attr r"
      "unat pos2 = length (path @ [62] @ obs_attr r)"
  proof (cases "permission r AND COAP_PERM_OBSERVE > 0")
    case True
    then have o: "obs_attr r = [59, 111, 98, 115]" by (simp add: obs_attr_def)
    obtain ys where ys: "arr_write sc1 (unat (pos + 1)) [59, 111, 98, 115] = Inr ys" "length ys = SCRATCH_SIZE"
      "take (length ((path @ [62]) @ [59, 111, 98, 115])) ys = (path @ [62]) @ [59, 111, 98, 115]"
      using prefix_write [OF sc1(3), of "[59, 111, 98, 115]" "unat (pos + 1)"] sc1(2) fits p1 o by auto
    have "unat (pos + 1 + 4) = length (path @ [62] @ obs_attr r)"
      using u16_pos [OF p1, of 4] fits S o by simp
    then show thesis using True ys o by (intro that [of ys "pos + 1 + 4"]) simp_all
  next
    case False
    then have "obs_attr r = []" by (simp add: obs_attr_def)
    then show thesis using False sc1 p1 by (intro that [of sc1 "pos + 1"]) simp_all
  qed
  obtain sc3 where sc3: "arr_set sc2 (unat pos2) 44 = Inr sc3" "length sc3 = SCRATCH_SIZE"
      "take (length ((path @ [62] @ obs_attr r) @ [44])) sc3 = (path @ [62] @ obs_attr r) @ [44]"
    using prefix_set [OF sc2(3), of "unat pos2" 44] sc2(2,4) fits by auto
  have p3: "unat (pos2 + 1) = length ?e"
    using u16_pos [OF sc2(4), of 1] fits S by simp
  have "path @ suf' = pre @ suf @ suf'" for suf' using pre by simp
  then have tk: "take (length pre) sc3 = pre"
    using sc3(3) take_prefix [of pre _ sc3] pre by (metis append_assoc)
  have nz: "0 \<notin> set ?e" using g' by (auto simp: obs_attr_def)
  have pre0: "length pre \<le> SCRATCH_SIZE" "0 \<notin> set pre" using g' pre by auto
  have rd: "arr_read sc3 0 (unat (pos2 + 1)) = Inr ?e"
    using sc3(2,3) fits by (simp add: p3 arr_read_eq)
  show "case emit [path @ [62] @ obs_attr r @ [44]] (w, unat (out_length g)) of (ok, w', l) \<Rightarrow>
        \<exists>g'. generate_entry r pos g = Inr (if ok then NRF_SUCCESS else NRF_ERROR_DATA_SIZE OR IOT_COAP_ERR_BASE, g') \<and>
             gen_ok pre w' n g' \<and> unat (out_length g') = l"
  proof (cases "length ?e \<le> unat (out_length g)")
    case True
    let ?z = "n - length w"
    have z: "length ?e \<le> ?z" using True g' by linarith
    have sl: "c_strlen (out g) = Inr (length w)"
      using g' z strlen_padded [of w ?z] by simp
    have wr: "arr_write (out g) (length w) ?e = Inr (w @ ?e @ replicate (n - length (w @ ?e)) 0)"
      using g' z by (subst arr_write_eq) auto
    have ol: "unat (out_length g - (pos2 + 1)) = unat (out_length g) - length ?e"
      using True p3 by (subst unat_sub_u16) simp_all
    have "generate_entry r pos g = Inr (NRF_SUCCESS,
        g\<lparr>scratch := sc3, out := w @ ?e @ replicate (n - length (w @ ?e)) 0, out_length := out_length g - (pos2 + 1)\<rparr>)"
      unfolding generate_entry_def sc1(1) c_bind_Inr sc2(1) prod.case sc3(1) sl rd wr
      using True p3 by (simp add: word_le_nat_alt)
    moreover have "length (w @ ?e) + (unat (out_length g) - length ?e) \<le> n"
      using True g' unfolding length_append by linarith
    ultimately show ?thesis using True sc3(2) tk nz pre0 g' ol z
      by (simp add: gen_ok_def del: length_append)
  next
    case False
    have "generate_entry r pos g = Inr (NRF_ERROR_DATA_SIZE OR IOT_COAP_ERR_BASE, g\<lparr>scratch := sc3\<rparr>)"
      unfolding generate_entry_def sc1(1) c_bind_Inr sc2(1) prod.case sc3(1)
      using False p3 by (simp add: word_le_nat_alt)
    then show ?thesis using False sc3(2) tk pre0 g' by (simp add: gen_ok_def)
  qed
qed

lemma emits_seq:
  assumes "emits es pre w n g (Inr (e, g1))"
    and "\<And>w'. e = NRF_SUCCESS \<Longrightarrow> gen_ok pre w' n g1 \<Longrightarrow> emits fs pre' w' n g1 (k g1)"
    and "\<And>w'. gen_ok pre w' n g1 \<Longrightarrow> gen_ok pre' w' n g1"
  shows "emits (es @ fs) pre' w n g (if e \<noteq> NRF_SUCCESS then Inr (e, g1) else k g1)"
proof -
  obtain ok w' l where em: "emit es (w, unat (out_length g)) = (ok, w', l)" by (metis prod_cases3)
  have r: "e = (if ok then NRF_SUCCESS else NRF_ERROR_DATA_SIZE OR IOT_COAP_ERR_BASE)" "gen_ok pre w' n g1"
      "unat (out_length g1) = l"
    using assms(1) em by (auto simp: emits_def)
  show ?thesis
  proof (cases ok)
    case True
    then show ?thesis using assms(2) [of w'] r em by (simp add: emits_def emit_append)
  next
    case False
    then show ?thesis using assms(3) r em by (simp add: emits_def emit_append)
  qed
qed

definition tree_emits :: "res_store \<Rightarrow> rtree \<Rightarrow> bool" where
  "tree_emits s t \<longleftrightarrow> (\<forall>fuel pre w n g pos. rfuel t \<le> fuel \<longrightarrow> gen_ok pre w n g \<longrightarrow> unat pos = length pre \<longrightarrow>
     (\<forall>e \<in> set (link_entries s pre t). length e \<le> SCRATCH_SIZE) \<longrightarrow>
     emits (link_entries s pre t) pre w n g (generate_path fuel s pos (rt_addr t) False g))"

lemma generate_children_emits:
  assumes "cs \<noteq> []" "\<forall>c \<in> set cs. tree_emits s c" "linked s cs" "sum_list (map (\<lambda>c. Suc (rfuel c)) cs) \<le> fuel"
    and "gen_ok pre w n g" "unat pos = length pre"
    and "\<forall>e \<in> set (concat (map (link_entries s pre) cs)). length e \<le> SCRATCH_SIZE"
  shows "emits (concat (map (link_entries s pre) cs)) pre w n g (generate_children fuel s pos (rt_addr (hd cs)) g)"
  using assms
proof (induction cs arbitrary: fuel w g rule: list_nonempty_induct)
  case (single c)
  then obtain f where f: "fuel = Suc f" "rfuel c \<le> f" by (cases fuel) auto
  have em: "emits (link_entries s pre c) pre w n g (generate_path f s pos (rt_addr c) False g)"
    using single f(2) by (auto simp: tree_emits_def)
  then obtain e g1 where r: "generate_path f s pos (rt_addr c) False g = Inr (e, g1)"
    by (auto simp: emits_def split: prod.splits)
  have "generate_children fuel s pos (rt_addr c) g = Inr (e, g1)"
    using single r f(1) by (simp add: generate_children.simps)
  then show ?case using em r by simp
next
  case (cons c cs)
  then obtain f where f: "fuel = Suc f" "rfuel c \<le> f" "sum_list (map (\<lambda>c. Suc (rfuel c)) cs) \<le> f"
    by (cases fuel) auto
  obtain d ds where cs: "cs = d # ds" using cons.hyps by (cases cs) auto
  have em: "emits (link_entries s pre c) pre w n g (generate_path f s pos (rt_addr c) False g)"
    using cons.prems f(2) by (auto simp: tree_emits_def)
  then obtain e g1 where r: "generate_path f s pos (rt_addr c) False g = Inr (e, g1)"
    by (auto simp: emits_def split: prod.splits)
  have "emits (link_entries s pre c @ concat (map (link_entries s pre) cs)) pre w n g
      (if e \<noteq> NRF_SUCCESS then Inr (e, g1) else generate_children f s pos (rt_addr (hd cs)) g1)"
  proof (rule emits_seq)
    show "emits (link_entries s pre c) pre w n g (Inr (e, g1))" using em r by simp
    show "emits (concat (map (link_entries s pre) cs)) pre w' n g1 (generate_children f s pos (rt_addr (hd cs)) g1)"
      if "gen_ok pre w' n g1" for w'
      using cons.IH [of f w' g1] cons.prems f(3) that cs by simp
  qed
  moreover have "generate_children fuel s pos (rt_addr c) g
      = (if e \<noteq> NRF_SUCCESS then Inr (e, g1) else generate_children f s pos (rt_addr (hd cs)) g1)"
    using cons.prems(2) r f(1) cs by (simp add: generate_children.simps)
  ultimately show ?case by simp
qed

lemma emits_Nil: "gen_ok pre w n g \<Longrightarrow> emits [] pre w n g (Inr (NRF_SUCCESS, g))"
  by (simp add: emits_def)

lemma gen_ok_prefix: "gen_ok (pre @ suf) w n g \<Longrightarrow> gen_ok pre w n g"
  using take_prefix [of pre suf "scratch g"] by (auto simp: gen_ok_def)

lemma extend_path:
  assumes "gen_ok pre w n g" "unat (pos :: u16) = length pre" "named r" "length (pre @ [47] @ cname r) < SCRATCH_SIZE"
  shows "\<exists>sc1 sc2. arr_set (scratch g) (unat pos) 47 = Inr sc1 \<and>
    arr_write sc1 (unat (pos + 1)) (take (length (cname r)) (res_name r)) = Inr sc2 \<and>
    gen_ok (pre @ [47] @ cname r) w n (g\<lparr>scratch := sc2\<rparr>) \<and>
    unat (pos + 1 + of_nat (length (cname r))) = length (pre @ [47] @ cname r)"
proof -
  have S: "SCRATCH_SIZE = 106" by (simp add: c_consts)
  note g' = assms(1) [unfolded gen_ok_def]
  obtain sc1 where sc1: "arr_set (scratch g) (unat pos) 47 = Inr sc1" "length sc1 = SCRATCH_SIZE"
      "take (length (pre @ [47])) sc1 = pre @ [47]"
    using prefix_set [of pre "scratch g" "unat pos" 47] g' assms(2,4) by auto
  have p1: "unat (pos + 1) = length (pre @ [47])"
    using u16_pos [OF assms(2), of 1] assms(4) S by simp
  have p2: "unat (pos + 1 + of_nat (length (cname r))) = length (pre @ [47] @ cname r)"
    using u16_pos [OF p1, of "length (cname r)"] assms(4) S by simp
  obtain sc2 where "arr_write sc1 (unat (pos + 1)) (cname r) = Inr sc2" "length sc2 = SCRATCH_SIZE"
      "take (length ((pre @ [47]) @ cname r)) sc2 = (pre @ [47]) @ cname r"
    using prefix_write [OF sc1(3) _ p1, of "cname r"] sc1(2) assms(4) by auto
  then show ?thesis
    using sc1(1) p2 g' assms(4) cname_nonzero [of r] by (auto simp: gen_ok_def cname_take)
qed

lemma generate_path_emits:
  assumes "tree_at s t" "\<forall>a \<in> set (nodes t). named (s a)"
  shows "tree_emits s t"
  using assms
proof (induction t)
  case (RTree a cs)
  have kids: "\<forall>c \<in> set cs. tree_emits s c" and link: "linked s cs"
    and front: "p_front (s a) = (case cs of [] \<Rightarrow> None | c # _ \<Rightarrow> Some (rt_addr c))"
    and nm: "named (s a)"
    using RTree by auto
  show ?case
    unfolding tree_emits_def
  proof (intro allI impI)
    fix fuel pre w n g and pos :: u16
    assume fuel: "rfuel (RTree a cs) \<le> fuel" and g: "gen_ok pre w n g" and pos: "unat pos = length pre"
      and fits: "\<forall>e \<in> set (link_entries s pre (RTree a cs)). length e \<le> SCRATCH_SIZE"
    let ?path = "pre @ [47] @ cname (s a)"
    let ?e = "?path @ [62] @ obs_attr (s a) @ [44]"
    let ?kids = "concat (map (link_entries s ?path) cs)"
    obtain f where f: "fuel = Suc f" "sum_list (map (\<lambda>c. Suc (rfuel c)) cs) \<le> f"
      using fuel by (cases fuel) auto
    have e: "length ?e \<le> SCRATCH_SIZE" and fk: "\<forall>e \<in> set ?kids. length e \<le> SCRATCH_SIZE" using fits by auto
    obtain sc1 sc2 where sc: "arr_set (scratch g) (unat pos) 47 = Inr sc1"
      "arr_write sc1 (unat (pos + 1)) (take (length (cname (s a))) (res_name (s a))) = Inr sc2"
      "gen_ok ?path w n (g\<lparr>scratch := sc2\<rparr>)"
      "unat (pos + 1 + of_nat (length (cname (s a)))) = length ?path"
      using extend_path [OF g pos nm] e by auto
    let ?pos = "pos + 1 + of_nat (length (cname (s a))) :: u16" and ?g = "g\<lparr>scratch := sc2\<rparr>"
    let ?kid = "case p_front (s a) of None \<Rightarrow> Inr (NRF_SUCCESS, ?g) | Some c \<Rightarrow> generate_children f s ?pos c ?g"
    have em: "emits ?kids ?path w n ?g ?kid"
    proof (cases cs)
      case Nil
      then show ?thesis using front emits_Nil [OF sc(3)] by simp
    next
      case (Cons c cs')
      then have "emits ?kids ?path w n ?g (generate_children f s ?pos (rt_addr (hd cs)) ?g)"
        using kids link f(2) sc(3,4) fk by (intro generate_children_emits) auto
      then show ?thesis using front Cons by simp
    qed
    then obtain e1 g1 where k: "?kid = Inr (e1, g1)" by (auto simp: emits_def split: prod.splits)
    have "emits (?kids @ [?e]) pre w n ?g
        (if e1 \<noteq> NRF_SUCCESS then Inr (e1, g1) else generate_entry (s a) ?pos g1)"
    proof (rule emits_seq)
      show "emits ?kids ?path w n ?g (Inr (e1, g1))" using em k by simp
      show "emits [?e] pre w' n g1 (generate_entry (s a) ?pos g1)" if "gen_ok ?path w' n g1" for w'
        using that sc(4) e by (intro generate_entry_emits) auto
      show "gen_ok pre w' n g1" if "gen_ok ?path w' n g1" for w' using that by (rule gen_ok_prefix)
    qed
    moreover have "generate_path fuel s pos (rt_addr (RTree a cs)) False g
        = (if e1 \<noteq> NRF_SUCCESS then Inr (e1, g1) else generate_entry (s a) ?pos g1)"
      using k unfolding f(1) generate_path.simps by (simp add: cname_strlen [OF nm] sc Let_def)
    ultimately show "emits (link_entries s pre (RTree a cs)) pre w n g (generate_path fuel s pos (rt_addr (RTree a cs)) False g)"
      by (simp add: emits_def)
  qed
qed

section \<open>What the description promises\<close>

text \<open>The entries of a server: those of the children of the root, with the prefix \<open><\<close>.\<close>

definition server_entries :: "res_store \<Rightarrow> rtree \<Rightarrow> u8 list list" where
  "server_entries s t = concat (map (link_entries s [60]) (rt_children t))"

lemma emit_length: "emit es (w, l) = (ok, w', l') \<Longrightarrow> length w' + l' = length w + l"
  by (induction es "(w, l)" arbitrary: w l rule: emit.induct) (auto split: if_splits)

lemma emit_fits:
  "emit es (w, l) = (ok, w', l') \<Longrightarrow> ok = (length (concat es) \<le> l) \<and> (ok \<longrightarrow> w' = w @ concat es)"
  by (induction es "(w, l)" arbitrary: w l rule: emit.induct) (auto split: if_splits)

lemma zeros_written: "length str = n \<Longrightarrow> arr_write str 0 (replicate n 0) = Inr (replicate n 0)"
  by (cases "n = 0") (auto simp: arr_write_def)

lemma generate_root_emits:
  assumes "tree_at s t" "\<forall>a \<in> set (nodes t). named (s a)" "2 * length (nodes t) \<le> fuel"
    and "\<forall>e \<in> set (server_entries s t). length e \<le> SCRATCH_SIZE" "length sc0 = SCRATCH_SIZE"
  shows "emits (server_entries s t) [60] [] (unat len) \<lparr>scratch = sc0, out = replicate (unat len) 0, out_length = len\<rparr>
    (generate_path fuel s 0 (rt_addr t) True \<lparr>scratch = sc0, out = replicate (unat len) 0, out_length = len\<rparr>)"
proof -
  obtain a cs where t: "t = RTree a cs" by (cases t)
  obtain f where f: "fuel = Suc f" "sum_list (map (\<lambda>c. Suc (rfuel c)) cs) \<le> f"
    using assms(3) rfuel_nodes [of t] t by (cases fuel) auto
  have S: "SCRATCH_SIZE = 106" by (simp add: c_consts)
  obtain sc where sc: "arr_set sc0 0 60 = Inr sc" "length sc = SCRATCH_SIZE" "take (length ([] @ [60])) sc = [] @ [60]"
    using prefix_set [of "[]" sc0 0 60] assms(5) S by auto
  let ?start = "\<lparr>scratch = sc0, out = replicate (unat len) 0, out_length = len\<rparr>"
  let ?g = "?start\<lparr>scratch := sc\<rparr>"
  have g: "gen_ok [60] [] (unat len) ?g" using sc S by (simp add: gen_ok_def)
  let ?kid = "case p_front (s a) of None \<Rightarrow> Inr (NRF_SUCCESS, ?g) | Some c \<Rightarrow> generate_children f s 1 c ?g"
  have "emits (concat (map (link_entries s [60]) cs)) [60] [] (unat len) ?g ?kid"
  proof (cases cs)
    case Nil
    then show ?thesis using assms(1) t emits_Nil [OF g] by simp
  next
    case (Cons c cs')
    then have "emits (concat (map (link_entries s [60]) cs)) [60] [] (unat len) ?g
        (generate_children f s 1 (rt_addr (hd cs)) ?g)"
      using assms(1,2,4) t f(2) g
      by (intro generate_children_emits) (auto simp: server_entries_def intro!: generate_path_emits)
    then show ?thesis using assms(1) t Cons by simp
  qed
  moreover have "generate_path fuel s 0 (rt_addr t) True ?start = ?kid"
    unfolding f(1) generate_path.simps by (simp add: t sc(1) cong: option.case_cong)
  ultimately show ?thesis by (simp add: emits_def server_entries_def t)
qed


section \<open>Building a tree\<close>

lemma rt_addr_nodes: "rt_addr t \<in> set (nodes t)"
  by (cases t) simp

lemma linked_cong:
  "\<forall>c \<in> set cs. p_sibling (s' (rt_addr c)) = p_sibling (s (rt_addr c)) \<Longrightarrow> linked s' cs = linked s cs"
  by (induction s cs rule: linked.induct) simp_all

text \<open>Whether a tree is represented depends on the fronts of its nodes and the siblings below its root.\<close>

lemma tree_at_cong:
  assumes "\<forall>x \<in> set (nodes t). p_front (s' x) = p_front (s x)"
    and "\<forall>x \<in> set (tl (nodes t)). p_sibling (s' x) = p_sibling (s x)"
  shows "tree_at s' t = tree_at s t"
  using assms
proof (induction t)
  case (RTree a cs)
  have sub: "set (nodes c) \<subseteq> set (concat (map nodes cs))" if "c \<in> set cs" for c using that by auto
  have "tree_at s' c = tree_at s c" if c: "c \<in> set cs" for c
  proof (rule RTree.IH [OF c])
    show "\<forall>x \<in> set (nodes c). p_front (s' x) = p_front (s x)" using RTree.prems(1) c by auto
    show "\<forall>x \<in> set (tl (nodes c)). p_sibling (s' x) = p_sibling (s x)"
      using RTree.prems(2) sub [OF c] list.set_sel(2) [of "nodes c"] by (cases c) auto
  qed
  moreover have "linked s' cs = linked s cs"
    using RTree.prems(2) rt_addr_nodes by (intro linked_cong) auto
  ultimately show ?case using RTree.prems(1) by simp
qed

lemma linked_snoc:
  "linked s (cs @ [c]) \<longleftrightarrow> p_sibling (s (rt_addr c)) = None \<and>
     (cs \<noteq> [] \<longrightarrow> p_sibling (s (rt_addr (last cs))) = Some (rt_addr c)) \<and>
     (\<forall>i. Suc i < length cs \<longrightarrow> p_sibling (s (rt_addr (cs ! i))) = Some (rt_addr (cs ! Suc i)))"
proof (induction s cs rule: linked.induct)
  case (3 s c' d cs)
  have "(\<forall>i. Suc i < length (c' # d # cs) \<longrightarrow> p_sibling (s (rt_addr ((c' # d # cs) ! i))) = Some (rt_addr ((c' # d # cs) ! Suc i)))
    \<longleftrightarrow> p_sibling (s (rt_addr c')) = Some (rt_addr d) \<and>
      (\<forall>i. Suc i < length (d # cs) \<longrightarrow> p_sibling (s (rt_addr ((d # cs) ! i))) = Some (rt_addr ((d # cs) ! Suc i)))"
    by (auto simp: nth_Cons split: nat.splits)
  then show ?case using 3 by auto
qed auto

lemma linked_nth: "linked s cs \<Longrightarrow> Suc i < length cs \<Longrightarrow> p_sibling (s (rt_addr (cs ! i))) = Some (rt_addr (cs ! Suc i))"
proof (induction s cs arbitrary: i rule: linked.induct)
  case (3 s c d cs)
  then show ?case by (cases i) auto
qed auto

lemma distinct_concat_nth:
  "distinct (concat (map f xs)) \<Longrightarrow> i < j \<Longrightarrow> j < length xs \<Longrightarrow> set (f (xs ! i)) \<inter> set (f (xs ! j)) = {}"
proof (induction xs arbitrary: i j)
  case (Cons x xs)
  then show ?case by (cases i; cases j) (auto dest!: nth_mem)
qed simp

lemma distinct_concat_nth_ne:
  "distinct (concat (map f xs)) \<Longrightarrow> i \<noteq> j \<Longrightarrow> i < length xs \<Longrightarrow> j < length xs \<Longrightarrow> set (f (xs ! i)) \<inter> set (f (xs ! j)) = {}"
  using distinct_concat_nth [of f xs i j] distinct_concat_nth [of f xs j i] by (cases "i < j") auto

text \<open>The bookkeeping of a parent: the counter and the tail pointer agree with its children.\<close>

definition parent_ok :: "res_store \<Rightarrow> rtree \<Rightarrow> bool" where
  "parent_ok s t \<longleftrightarrow> tree_at s t \<and> distinct (nodes t) \<and>
     unat (child_count (s (rt_addr t))) = length (rt_children t) \<and>
     (rt_children t \<noteq> [] \<longrightarrow> p_tail (s (rt_addr t)) = Some (rt_addr (last (rt_children t))))"

text \<open>Adding a resource that is in no tree yet to a parent with fewer than 255 children appends it, with the
  subtree below it, to the children of the parent: the pointers represent the extended tree and the
  parent's counter and tail pointer stay in step with it. No other resource changes, except that the
  former last child points to its new sibling.\<close>

theorem coap_resource_child_add_appends:
  assumes "parent_ok (res_at rs) (RTree a cs)" "length cs < 255"
    and "tree_at (res_at rs) c" "p_sibling (res_at rs (rt_addr c)) = None"
    and "distinct (nodes (RTree a (cs @ [c])))"
  shows "\<exists>rs'. coap_resource_child_add rs (Some a) (Some (rt_addr c)) = Inr (NRF_SUCCESS, rs') \<and>
    parent_ok (res_at rs') (RTree a (cs @ [c])) \<and> mp_root_resource rs' = mp_root_resource rs \<and>
    (\<forall>x. x \<noteq> a \<longrightarrow> (cs = [] \<or> x \<noteq> rt_addr (last cs)) \<longrightarrow> res_at rs' x = res_at rs x)"
proof -
  let ?s = "res_at rs" and ?c = "rt_addr c"
  note ok = assms(1) [unfolded parent_ok_def]
  have cnt: "unat (child_count (?s a)) = length cs" using ok by simp
  then have cnt0: "child_count (?s a) = 0 \<longleftrightarrow> cs = []" by (auto simp: word_unat_eq_iff)
  have cnt1: "unat (child_count (?s a) + 1) = Suc (length cs)"
    using unat_add_u8 [of "child_count (?s a)" 1] cnt assms(2) by simp
  have disj: "a \<notin> set (concat (map nodes (cs @ [c])))" "distinct (concat (map nodes (cs @ [c])))"
    using assms(5) by simp_all
  have sub: "tree_at ?s d" if "d \<in> set (cs @ [c])" for d using that ok assms(3) by auto
  define s' where "s' = (if cs = [] then
      ?s(a := (?s a)\<lparr>p_front := Some ?c, p_tail := Some ?c, child_count := child_count (?s a) + 1\<rparr>)
    else ?s(rt_addr (last cs) := (?s (rt_addr (last cs)))\<lparr>p_sibling := Some ?c\<rparr>,
            a := (?s a)\<lparr>p_tail := Some ?c, child_count := child_count (?s a) + 1\<rparr>))"
  have la: "rt_addr (last cs) \<noteq> a" if "cs \<noteq> []"
    using disj(1) that rt_addr_nodes [of "last cs"] last_in_set [OF that] by auto
  have run: "coap_resource_child_add rs (Some a) (Some ?c) = Inr (NRF_SUCCESS, rs\<lparr>res_at := s'\<rparr>)"
  proof (cases "cs = []")
    case True
    then show ?thesis using ok by (simp add: coap_resource_child_add_def cnt0 s'_def)
  next
    case False
    then show ?thesis using ok la [OF False] la [OF False, symmetric]
      by (simp add: coap_resource_child_add_def cnt0 s'_def Let_def)
  qed
  have last_idx: "cs \<noteq> [] \<Longrightarrow> last cs = (cs @ [c]) ! (length cs - 1)"
    by (simp add: last_conv_nth nth_append)
  have "tree_at s' (RTree a (cs @ [c]))"
  proof -
    have front: "p_front (s' a) = (case cs @ [c] of [] \<Rightarrow> None | d # _ \<Rightarrow> Some (rt_addr d))"
      using ok la by (cases cs) (auto simp: s'_def)
    have kids: "tree_at s' d" if d: "d \<in> set (cs @ [c])" for d
    proof -
      have "\<forall>x \<in> set (nodes d). p_front (s' x) = p_front (?s x)"
        using d disj(1) by (auto simp: s'_def)
      moreover have "\<forall>x \<in> set (tl (nodes d)). p_sibling (s' x) = p_sibling (?s x)"
      proof (cases "cs = []")
        case True
        then show ?thesis by (auto simp: s'_def)
      next
        case False
        obtain i where i: "i < length (cs @ [c])" "d = (cs @ [c]) ! i" using d by (metis in_set_conv_nth)
        have "rt_addr (last cs) \<notin> set (tl (nodes d))"
        proof (cases "i = length cs - 1")
          case True
          have "distinct (nodes d)" using disj(2) d by (auto simp: distinct_concat_iff)
          then have "rt_addr d \<notin> set (tl (nodes d))" by (cases d) auto
          moreover have "last cs = d" using True i(2) last_idx [OF False] by simp
          ultimately show ?thesis by simp
        next
          case d2: False
          have "set (nodes d) \<inter> set (nodes (last cs)) = {}"
            using distinct_concat_nth_ne [OF disj(2) d2] i last_idx [OF False] by simp
          then show ?thesis using rt_addr_nodes [of "last cs"] by (cases d) auto
        qed
        then show ?thesis using False by (auto simp: s'_def)
      qed
      ultimately show ?thesis using tree_at_cong [of d s' ?s] sub [OF d] by simp
    qed
    have "linked s' (cs @ [c])"
      unfolding linked_snoc
    proof (intro conjI impI allI)
      have "?c \<noteq> a" using disj(1) rt_addr_nodes [of c] by auto
      moreover have "?c \<noteq> rt_addr (last cs)" if ne: "cs \<noteq> []"
      proof -
        have "length cs \<noteq> length cs - 1" using ne by (cases cs) auto
        then have "set (nodes c) \<inter> set (nodes (last cs)) = {}"
          using distinct_concat_nth_ne [OF disj(2), of "length cs" "length cs - 1"] last_idx [OF ne] by simp
        then show ?thesis using rt_addr_nodes [of c] rt_addr_nodes [of "last cs"] by auto
      qed
      ultimately show "p_sibling (s' ?c) = None" using assms(4) by (auto simp: s'_def)
    next
      assume "cs \<noteq> []"
      then show "p_sibling (s' (rt_addr (last cs))) = Some ?c" using la by (simp add: s'_def)
    next
      fix i assume i: "Suc i < length cs"
      then have ne: "cs \<noteq> []" by auto
      have "i \<noteq> length cs - 1" using i by linarith
      then have "set (nodes (cs ! i)) \<inter> set (nodes (last cs)) = {}"
        using distinct_concat_nth_ne [OF disj(2), of i "length cs - 1"] i last_idx [OF ne] by (simp add: nth_append)
      then have "rt_addr (cs ! i) \<noteq> rt_addr (last cs)"
        using rt_addr_nodes [of "cs ! i"] rt_addr_nodes [of "last cs"] by auto
      moreover have "rt_addr (cs ! i) \<noteq> a" using disj(1) i rt_addr_nodes [of "cs ! i"] by auto
      ultimately have "p_sibling (s' (rt_addr (cs ! i))) = p_sibling (?s (rt_addr (cs ! i)))"
        by (simp add: s'_def)
      then show "p_sibling (s' (rt_addr (cs ! i))) = Some (rt_addr (cs ! Suc i))"
        using linked_nth [of ?s cs i] ok i by simp
    qed
    then show ?thesis using front kids by simp
  qed
  moreover have "child_count (s' a) = child_count (?s a) + 1" "p_tail (s' a) = Some ?c"
    by (simp_all add: s'_def)
  ultimately have "parent_ok s' (RTree a (cs @ [c]))"
    using assms(5) cnt1 by (simp add: parent_ok_def)
  moreover have "\<forall>x. x \<noteq> a \<longrightarrow> (cs = [] \<or> x \<noteq> rt_addr (last cs)) \<longrightarrow> s' x = ?s x"
    by (auto simp: s'_def)
  ultimately show ?thesis using run by auto
qed

section \<open>Finding a resource\<close>

lemma named_nth: "named r \<Longrightarrow> i < length (cname r) \<Longrightarrow> i < length (res_name r) \<and> res_name r ! i = cname r ! i \<and> cname r ! i \<noteq> 0"
proof -
  assume i: "i < length (cname r)"
  have "cname r ! i \<noteq> 0" using cname_nonzero [of r] nth_mem [OF i] by metis
  moreover have "length (cname r) \<le> length (res_name r)" by (simp add: cname_def length_takeWhile_le)
  ultimately show ?thesis using i by (auto simp: cname_def takeWhile_nth)
qed

lemma strncmp_eq_bytes:
  assumes "bytes_at h b k bs" "named r" "i + n = length (cname r)" "length (cname r) \<le> length bs"
  shows "strncmp_eq h (res_name r) (Ptr b k) i n = Inr (take n (drop i bs) = drop i (cname r))"
  using assms(3)
proof (induction n arbitrary: i)
  case 0
  then show ?case by simp
next
  case (Suc n)
  have i: "i < length (cname r)" using Suc.prems by simp
  note nm = named_nth [OF assms(2) i]
  have ld: "load h (Ptr b k) i = Inr (bs ! i)" using assms(1,4) i by simp
  have d: "take (Suc n) (drop i bs) = bs ! i # take n (drop (Suc i) bs)"
    using i assms(4) by (simp add: Cons_nth_drop_Suc [symmetric])
  have c: "drop i (cname r) = cname r ! i # drop (Suc i) (cname r)" using i by (simp add: Cons_nth_drop_Suc)
  show ?case using Suc.IH [of "Suc i"] Suc.prems nm ld unfolding d c by auto
qed

text \<open>The child a path segment selects: the first one whose name is a prefix of the bytes at the segment.\<close>

definition child_for :: "res_store \<Rightarrow> rtree list \<Rightarrow> u8 list \<Rightarrow> rtree option" where
  "child_for s cs bs = find (\<lambda>c. take (length (cname (s (rt_addr c)))) bs = cname (s (rt_addr c))) cs"

fun walk :: "res_store \<Rightarrow> rtree \<Rightarrow> u8 list list \<Rightarrow> rtree option" where
  "walk s t [] = Some t"
| "walk s t (bs # bss) =
     (case child_for s (rt_children t) bs of None \<Rightarrow> None | Some c \<Rightarrow> walk s c bss)"

lemma child_resolve_loop_find:
  assumes "cs \<noteq> []" "linked s cs" "\<forall>c \<in> set cs. named (s (rt_addr c)) \<and> length (cname (s (rt_addr c))) \<le> length bs"
    and "bytes_at h b k bs" "length cs \<le> fuel"
  shows "child_resolve_loop fuel h s (rt_addr (hd cs)) (Ptr b k) = Inr (map_option rt_addr (child_for s cs bs))"
  using assms
proof (induction cs arbitrary: fuel rule: list_nonempty_induct)
  case (single c)
  then obtain f where f: "fuel = Suc f" by (cases fuel) auto
  show ?case using single strncmp_eq_bytes [OF single.prems(3), of "s (rt_addr c)" 0 "length (cname (s (rt_addr c)))"]
    by (simp add: f cname_strlen child_for_def)
next
  case (cons c cs)
  then obtain f where f: "fuel = Suc f" by (cases fuel) auto
  obtain d ds where cs: "cs = d # ds" using cons.hyps by (cases cs) auto
  show ?case using cons strncmp_eq_bytes [OF cons.prems(3), of "s (rt_addr c)" 0 "length (cname (s (rt_addr c)))"]
    by (simp add: f cname_strlen child_for_def cs)
qed

lemma child_for_member: "child_for s cs bs = Some c \<Longrightarrow> c \<in> set cs"
  by (auto simp: child_for_def find_Some_iff)

lemma length_children_nodes: "length (rt_children t) < length (nodes t)"
proof (cases t)
  case (RTree a cs)
  have "length cs \<le> length (concat (map nodes cs))"
  proof (induction cs)
    case (Cons c cs)
    then show ?case using rt_addr_nodes [of c] by (cases "nodes c") auto
  qed simp
  then show ?thesis by (simp add: RTree)
qed

lemma nodes_child: "c \<in> set (rt_children t) \<Longrightarrow> set (nodes c) \<subseteq> set (nodes t) \<and> length (nodes c) \<le> length (nodes t)"
proof (cases t)
  case (RTree a cs)
  assume "c \<in> set (rt_children t)"
  then have c: "c \<in> set cs" by (simp add: RTree)
  then have "length (nodes c) \<le> length (concat (map nodes cs))"
    by (induction cs) auto
  then show ?thesis using c by (auto simp: RTree)
qed

lemma resource_get_loop_walk:
  assumes "tree_at s t" "\<forall>a \<in> set (nodes t). named (s a)" "length (nodes t) \<le> fuel"
    and "j + length bss \<le> length uris"
    and "\<forall>i < length bss. \<exists>b k. uris ! (j + i) = Ptr b k \<and> bytes_at h b k (bss ! i) \<and>
      (\<forall>a \<in> set (nodes t). length (cname (s a)) \<le> length (bss ! i))"
  shows "resource_get_loop fuel h s (rt_addr t) uris [j..<j + length bss] = Inr (map_option rt_addr (walk s t bss))"
  using assms
proof (induction bss arbitrary: t j)
  case Nil
  then show ?case by simp
next
  case (Cons bs bss)
  obtain b k where u: "uris ! j = Ptr b k" "bytes_at h b k bs" "\<forall>a \<in> set (nodes t). length (cname (s a)) \<le> length bs"
    using Cons.prems(5) by fastforce
  have res: "coap_resource_child_resolve fuel h s (rt_addr t) (Ptr b k)
      = Inr (map_option rt_addr (child_for s (rt_children t) bs))"
  proof (cases "rt_children t")
    case Nil
    then show ?thesis using Cons.prems(1) by (cases t) (simp add: coap_resource_child_resolve_def child_for_def)
  next
    case (Cons c cs)
    have "child_resolve_loop fuel h s (rt_addr (hd (c # cs))) (Ptr b k) = Inr (map_option rt_addr (child_for s (c # cs) bs))"
    proof (rule child_resolve_loop_find)
      show "linked s (c # cs)" using Cons.prems(1) Cons by (cases t) simp
      show "\<forall>x \<in> set (c # cs). named (s (rt_addr x)) \<and> length (cname (s (rt_addr x))) \<le> length bs"
        using Cons nodes_child [of _ t] rt_addr_nodes u(3) Cons.prems(2) by (metis subsetD)
      show "length (c # cs) \<le> fuel" using length_children_nodes [of t] Cons Cons.prems(3) by simp
    qed (use u in auto)
    then show ?thesis using Cons.prems(1) Cons by (cases t) (simp add: coap_resource_child_resolve_def)
  qed
  have upt: "[j..<j + length (bs # bss)] = j # [Suc j..<Suc j + length bss]" by (simp add: upt_conv_Cons del: upt_Suc)
  show ?case
  proof (cases "child_for s (rt_children t) bs")
    case None
    then show ?thesis using res u(1) Cons.prems(4) unfolding upt by simp
  next
    case (Some c)
    then have c: "c \<in> set (rt_children t)" by (rule child_for_member)
    have "tree_at s c" using Cons.prems(1) c by (cases t) simp
    moreover have "\<forall>i < length bss. \<exists>b k. uris ! (Suc j + i) = Ptr b k \<and> bytes_at h b k (bss ! i) \<and>
      (\<forall>a \<in> set (nodes c). length (cname (s a)) \<le> length (bss ! i))"
      using Cons.prems(5) nodes_child [OF c] by fastforce
    ultimately have "resource_get_loop fuel h s (rt_addr c) uris [Suc j..<Suc j + length bss]
        = Inr (map_option rt_addr (walk s c bss))"
      using Cons.prems(2-4) nodes_child [OF c] by (intro Cons.IH) auto
    then show ?thesis using res u(1) Some Cons.prems(4) unfolding upt by simp
  qed
qed

text \<open>C27: The search for a resource ends, reads only bytes of the datagram and follows the path segments from the root:
  at each level it takes the first child, in the order of registration, whose name is a prefix of the
  bytes at the segment, whatever the length of the segment; it reports NOT_FOUND when a level has no such
  child. The bytes at a segment are those of the datagram from its first byte on, at least as many as the
  longest name.\<close>

theorem coap_resource_get_walks:
  assumes "mp_root_resource rs = Some (rt_addr t)" "tree_at (res_at rs) t"
    and "\<forall>a \<in> set (nodes t). named (res_at rs a)" "length (nodes t) \<le> fuel"
    and "unat n = length bss" "length bss \<le> length uris"
    and "\<forall>i < length bss. \<exists>b k. uris ! i = Ptr b k \<and> bytes_at h b k (bss ! i) \<and>
      (\<forall>a \<in> set (nodes t). length (cname (res_at rs a)) \<le> length (bss ! i))"
  shows "coap_resource_get fuel h rs uris n =
    (case walk (res_at rs) t bss of
       None \<Rightarrow> Inr (NRF_ERROR_NOT_FOUND OR IOT_COAP_ERR_BASE, None)
     | Some r \<Rightarrow> Inr (NRF_SUCCESS, Some (rt_addr r)))"
  using resource_get_loop_walk [OF assms(2-4), of 0 bss uris h] assms(1,5-7)
  by (simp add: coap_resource_get_def split: option.splits)

text \<open>A server with the resource \<open>status\<close>, observable, below its root.\<close>

definition sample_store :: res_store where
  "sample_store = (\<lambda>_. coap_resource_zero)
     (10 := coap_resource_zero\<lparr>child_count := 1, p_front := Some 11, p_tail := Some 11, res_name := 47 # replicate 19 0\<rparr>,
      11 := coap_resource_zero\<lparr>permission := 0x0101, res_name := [115, 116, 97, 116, 117, 115] @ replicate 14 0\<rparr>)"

definition sample_resources :: coap_resources where
  "sample_resources = \<lparr>res_at = sample_store, mp_root_resource = Some 10, m_scratch_buffer = replicate 106 0\<rparr>"

abbreviation sample_tree :: rtree where
  "sample_tree \<equiv> RTree 10 [RTree 11 []]"

lemma sample_store_facts:
  "tree_at sample_store sample_tree" "\<forall>a \<in> set (nodes sample_tree). named (sample_store a)"
  "cname (sample_store 11) = [115, 116, 97, 116, 117, 115]" "cname (sample_store 10) = [47]"
  "permission (sample_store 11) = 0x0101" "p_front (sample_store 10) = Some 11"
  "p_front (sample_store 11) = None" "p_sibling (sample_store 11) = None"
  by (simp_all add: sample_store_def coap_resource_zero_def named_def cname_def)

theorem coap_resource_get_walks_witness:
  "coap_resource_get 2 ((\<lambda>_. [])(9 := [115, 116, 97, 116, 117, 115, 33])) sample_resources
     [Ptr 9 0, NULL, NULL, NULL, NULL] 1 = Inr (NRF_SUCCESS, Some 11)"
  using coap_resource_get_walks [of sample_resources sample_tree 2 1 "[[115, 116, 97, 116, 117, 115, 33]]"
      "[Ptr 9 0, NULL, NULL, NULL, NULL]" "(\<lambda>_. [])(9 := [115, 116, 97, 116, 117, 115, 33])"]
  by (simp add: sample_resources_def sample_store_facts child_for_def bytes_at_def)

theorem coap_resource_child_add_appends_witness:
  "\<exists>rs'. coap_resource_child_add sample_resources (Some 10) (Some 12) = Inr (NRF_SUCCESS, rs') \<and>
     parent_ok (res_at rs') (RTree 10 [RTree 11 [], RTree 12 []])"
  using coap_resource_child_add_appends [of sample_resources 10 "[RTree 11 []]" "RTree 12 []"]
  by (auto simp: parent_ok_def sample_resources_def sample_store_def coap_resource_zero_def)


end
