(* ===== verification/Coap_Observe.thy ===== *)
theory Coap_Observe
  imports Coap_Queue Coap_Resource Keyed_Table
begin

text \<open>
  The observe extension, \<^verbatim>\<open>components/iot/coap/coap_observe.c\<close>: the table of remote observers of the
  server's resources and the table of remote resources the client observes. A pointer to a table
  element is its index, a pointer to a resource its address; \<open>None\<close> is NULL. The client part is
  compiled out for the switch device (\<open>COAP_ENABLE_OBSERVE_CLIENT\<close> is 0); it is modelled for a table of
  any size.
\<close>

section \<open>Server: state and operations\<close>

record coap_observer_t =
  ob_remote :: coap_remote_t
  ob_token :: "u8 list"
  ob_token_len :: u8
  ob_ct :: u32
  p_resource_of_interest :: "nat option"

type_synonym observer_table = "coap_observer_t list"

definition coap_observer_zero :: coap_observer_t where
  "coap_observer_zero =
     \<lparr>ob_remote = \<lparr>remote_addr = replicate 16 0, remote_port_number = 0\<rparr>, ob_token = replicate 8 0,
      ob_token_len = 0, ob_ct = 0, p_resource_of_interest = None\<rparr>"

definition observe_server_init :: "observer_table \<Rightarrow> observer_table" where
  "observe_server_init obs = map (\<lambda>_. coap_observer_zero) obs"

text \<open>The result is the error code and the cell behind \<open>p_handle\<close>.\<close>

definition internal_coap_observe_server_search ::
  "observer_table \<Rightarrow> u32 option \<Rightarrow> coap_remote_t option \<Rightarrow> nat option \<Rightarrow> u32 \<times> u32 option" where
  "internal_coap_observe_server_search obs p_handle p_observer_addr p_resource =
     (if p_handle = None then (NRF_ERROR_NULL OR IOT_COAP_ERR_BASE, p_handle)
      else case p_observer_addr of
        None \<Rightarrow> (NRF_ERROR_NULL OR IOT_COAP_ERR_BASE, p_handle)
      | Some addr \<Rightarrow>
        if p_resource = None then (NRF_ERROR_NULL OR IOT_COAP_ERR_BASE, p_handle)
        else case find_first (\<lambda>ob. p_resource_of_interest ob = p_resource \<and>
                    remote_port_number (ob_remote ob) = remote_port_number addr \<and>
                    remote_addr addr = remote_addr (ob_remote ob)) obs of
          Some i \<Rightarrow> (NRF_SUCCESS, Some (of_nat i))
        | None \<Rightarrow> (NRF_ERROR_NOT_FOUND OR IOT_COAP_ERR_BASE, p_handle))"

definition internal_coap_observe_server_register ::
  "observer_table \<Rightarrow> u32 option \<Rightarrow> coap_observer_t option \<Rightarrow> fault + u32 \<times> u32 option \<times> observer_table" where
  "internal_coap_observe_server_register obs p_handle p_observer =
     (if p_handle = None then Inr (NRF_ERROR_NULL OR IOT_COAP_ERR_BASE, p_handle, obs)
      else case p_observer of
        None \<Rightarrow> Inr (NRF_ERROR_NULL OR IOT_COAP_ERR_BASE, p_handle, obs)
      | Some ob \<Rightarrow>
        if p_resource_of_interest ob = None then Inr (NRF_ERROR_NULL OR IOT_COAP_ERR_BASE, p_handle, obs)
        else
          (case internal_coap_observe_server_search obs (Some 0) (Some (ob_remote ob)) (p_resource_of_interest ob) of
             (err_code, hnd) \<Rightarrow>
               if err_code = NRF_SUCCESS
               then c_bind (arr_set obs (unat (the hnd)) ob) (\<lambda>obs'. Inr (NRF_SUCCESS, hnd, obs'))
               else case find_first (\<lambda>o'. p_resource_of_interest o' = None) obs of
                 Some i \<Rightarrow> Inr (NRF_SUCCESS, Some (of_nat i), obs[i := ob])
               | None \<Rightarrow> Inr (NRF_ERROR_NO_MEM OR IOT_COAP_ERR_BASE, p_handle, obs)))"

definition internal_coap_observe_server_unregister :: "observer_table \<Rightarrow> u32 \<Rightarrow> u32 \<times> observer_table" where
  "internal_coap_observe_server_unregister obs hnd =
     (if unat hnd \<ge> length obs then (NRF_ERROR_NOT_FOUND OR IOT_COAP_ERR_BASE, obs)
      else if p_resource_of_interest (obs ! unat hnd) = None
      then (NRF_ERROR_NOT_FOUND OR IOT_COAP_ERR_BASE, obs)
      else (NRF_SUCCESS, obs[unat hnd := (obs ! unat hnd)\<lparr>p_resource_of_interest := None\<rparr>]))"

text \<open>
  The result is the error code and the cell behind \<open>pp_observer\<close>. The index of the previous observer is
  cut to 8 bits by the code.
\<close>

definition internal_coap_observe_server_next_get ::
  "observer_table \<Rightarrow> nat option option \<Rightarrow> nat option \<Rightarrow> nat option \<Rightarrow> u32 \<times> nat option option" where
  "internal_coap_observe_server_next_get obs pp_observer p_observer p_resource =
     (if p_resource = None then (NRF_ERROR_NULL OR IOT_COAP_ERR_BASE, pp_observer)
      else if pp_observer = None then (NRF_ERROR_NULL OR IOT_COAP_ERR_BASE, pp_observer)
      else case (case p_observer of
                   None \<Rightarrow> find_first (\<lambda>ob. p_resource_of_interest ob = p_resource) obs
                 | Some i \<Rightarrow> find_next (\<lambda>ob. p_resource_of_interest ob = p_resource) (i mod 256 + 1) obs) of
        Some i \<Rightarrow> (NRF_SUCCESS, Some (Some i))
      | None \<Rightarrow> (NRF_ERROR_NOT_FOUND OR IOT_COAP_ERR_BASE, Some None))"

definition internal_coap_observe_server_get ::
  "observer_table \<Rightarrow> u32 \<Rightarrow> nat option option \<Rightarrow> u32 \<times> nat option option" where
  "internal_coap_observe_server_get obs hnd pp_observer =
     (if pp_observer = None then (NRF_ERROR_NULL OR IOT_COAP_ERR_BASE, pp_observer)
      else if unat hnd \<ge> length obs then (NRF_ERROR_NOT_FOUND OR IOT_COAP_ERR_BASE, pp_observer)
      else if p_resource_of_interest (obs ! unat hnd) = None
      then (NRF_ERROR_NOT_FOUND OR IOT_COAP_ERR_BASE, pp_observer)
      else (NRF_SUCCESS, Some (Some (unat hnd))))"

section \<open>Client: state and operations\<close>

record coap_observable_t =
  oa_remote :: coap_remote_t
  oa_token :: "u8 list"
  oa_token_len :: u8
  oa_response_callback :: "nat option"
  oa_max_age :: u32

type_synonym observable_table = "coap_observable_t list"

definition coap_observable_zero :: coap_observable_t where
  "coap_observable_zero =
     \<lparr>oa_remote = \<lparr>remote_addr = replicate 16 0, remote_port_number = 0\<rparr>, oa_token = replicate 8 0,
      oa_token_len = 0, oa_response_callback = None, oa_max_age = 0\<rparr>"

definition observe_client_init :: "observable_table \<Rightarrow> observable_table" where
  "observe_client_init obs = map (\<lambda>_. coap_observable_zero) obs"

definition internal_coap_observe_client_register ::
  "observable_table \<Rightarrow> u32 option \<Rightarrow> coap_observable_t option \<Rightarrow> u32 \<times> u32 option \<times> observable_table" where
  "internal_coap_observe_client_register obs p_handle p_observable =
     (if p_handle = None then (NRF_ERROR_NULL OR IOT_COAP_ERR_BASE, p_handle, obs)
      else case p_observable of
        None \<Rightarrow> (NRF_ERROR_NULL OR IOT_COAP_ERR_BASE, p_handle, obs)
      | Some oa \<Rightarrow>
        if oa_response_callback oa = None then (NRF_ERROR_NULL OR IOT_COAP_ERR_BASE, p_handle, obs)
        else case find_first (\<lambda>o'. oa_response_callback o' = None) obs of
          Some i \<Rightarrow> (NRF_SUCCESS, Some (of_nat i), obs[i := oa])
        | None \<Rightarrow> (NRF_ERROR_NO_MEM OR IOT_COAP_ERR_BASE, p_handle, obs))"

definition internal_coap_observe_client_unregister :: "observable_table \<Rightarrow> u32 \<Rightarrow> u32 \<times> observable_table" where
  "internal_coap_observe_client_unregister obs hnd =
     (if unat hnd \<ge> length obs then (NRF_ERROR_NOT_FOUND OR IOT_COAP_ERR_BASE, obs)
      else if oa_response_callback (obs ! unat hnd) = None
      then (NRF_ERROR_NOT_FOUND OR IOT_COAP_ERR_BASE, obs)
      else (NRF_SUCCESS, obs[unat hnd := (obs ! unat hnd)\<lparr>oa_response_callback := None\<rparr>]))"

fun client_search_loop :: "observable_table \<Rightarrow> u8 list \<Rightarrow> nat \<Rightarrow> fault + nat option" where
  "client_search_loop [] p_token i = Inr None"
| "client_search_loop (oa # oas) p_token i =
     (if oa_response_callback oa \<noteq> None \<and> 0 \<noteq> oa_token_len oa
      then c_bind (mem_eq (oa_token oa) p_token (unat (oa_token_len oa))) (\<lambda>eq.
           if eq then Inr (Some i) else client_search_loop oas p_token (Suc i))
      else client_search_loop oas p_token (Suc i))"

text \<open>The parameter \<open>token_len\<close> of the search is not used by the code.\<close>

definition internal_coap_observe_client_search ::
  "observable_table \<Rightarrow> u32 option \<Rightarrow> u8 list option \<Rightarrow> u16 \<Rightarrow> fault + u32 \<times> u32 option" where
  "internal_coap_observe_client_search obs p_handle p_token token_len =
     (if p_handle = None then Inr (NRF_ERROR_NULL OR IOT_COAP_ERR_BASE, p_handle)
      else case p_token of
        None \<Rightarrow> Inr (NRF_ERROR_NULL OR IOT_COAP_ERR_BASE, p_handle)
      | Some tok \<Rightarrow>
        c_bind (client_search_loop obs tok 0) (\<lambda>r.
        case r of
          Some i \<Rightarrow> Inr (NRF_SUCCESS, Some (of_nat i))
        | None \<Rightarrow> Inr (NRF_ERROR_NOT_FOUND OR IOT_COAP_ERR_BASE, p_handle)))"

definition internal_coap_observe_client_get ::
  "observable_table \<Rightarrow> u32 \<Rightarrow> nat option option \<Rightarrow> u32 \<times> nat option option" where
  "internal_coap_observe_client_get obs hnd pp_observable =
     (if pp_observable = None then (NRF_ERROR_NULL OR IOT_COAP_ERR_BASE, pp_observable)
      else if unat hnd \<ge> length obs then (NRF_ERROR_NOT_FOUND OR IOT_COAP_ERR_BASE, pp_observable)
      else if oa_response_callback (obs ! unat hnd) = None
      then (NRF_ERROR_NOT_FOUND OR IOT_COAP_ERR_BASE, pp_observable)
      else (NRF_SUCCESS, Some (Some (unat hnd))))"

text \<open>The result is the error code, the cell behind \<open>pp_observable\<close> and the cell behind \<open>p_handle\<close>.\<close>

definition internal_coap_observe_client_next_get ::
  "observable_table \<Rightarrow> nat option option \<Rightarrow> u32 \<Rightarrow> nat option \<Rightarrow> u32 \<times> nat option option \<times> u32" where
  "internal_coap_observe_client_next_get obs pp_observable hnd p_observable =
     (if pp_observable = None then (NRF_ERROR_NULL OR IOT_COAP_ERR_BASE, pp_observable, hnd)
      else case (case p_observable of
                   None \<Rightarrow> find_first (\<lambda>oa. oa_response_callback oa \<noteq> None) obs
                 | Some i \<Rightarrow> find_next (\<lambda>oa. oa_response_callback oa \<noteq> None) (i mod 256 + 1) obs) of
        Some i \<Rightarrow> (NRF_SUCCESS, Some (Some i), of_nat i)
      | None \<Rightarrow> (NRF_ERROR_NOT_FOUND OR IOT_COAP_ERR_BASE, Some None, hnd))"

text \<open>The first option with a number, as the loops of the client search for it.\<close>

fun option_search :: "coap_option_t list \<Rightarrow> u16 \<Rightarrow> nat list \<Rightarrow> fault + coap_option_t option" where
  "option_search os num [] = Inr None"
| "option_search os num (i # is) =
     c_bind (arr_get os i) (\<lambda>op. if opt_number op = num then Inr (Some op) else option_search os num is)"

definition observe_opt_present :: "coap_message_t \<Rightarrow> fault + u32" where
  "observe_opt_present m =
     c_bind (option_search (options m) COAP_OPT_OBSERVE [0..<unat (options_count m)]) (\<lambda>r.
     Inr (if r = None then NRF_ERROR_NOT_FOUND else NRF_SUCCESS))"

text \<open>\<open>junk\<close> is the content of the uninitialised variable \<open>max_age\<close>.\<close>

definition set_max_age :: "heap \<Rightarrow> u32 \<Rightarrow> coap_observable_t \<Rightarrow> coap_message_t \<Rightarrow> fault + coap_observable_t" where
  "set_max_age h junk oa m =
     c_bind (option_search (options m) COAP_OPT_MAX_AGE [0..<unat (options_count m)]) (\<lambda>r.
     case r of
       None \<Rightarrow> Inr (oa\<lparr>oa_max_age := 60\<rparr>)
     | Some op \<Rightarrow>
       c_bind (coap_opt_uint_decode h (Some junk) (opt_length op) (opt_data op)) (\<lambda>(err_code, v).
       Inr ((oa\<lparr>oa_max_age := err_code\<rparr>)\<lparr>oa_max_age := the v\<rparr>)))"

definition COAP_CODE_GET :: u8 where [c_consts]: "COAP_CODE_GET = 1"
definition COAP_CODE_205_CONTENT :: u8 where [c_consts]: "COAP_CODE_205_CONTENT = 69"

definition coap_observe_client_send_handle ::
  "heap \<Rightarrow> observable_table \<Rightarrow> coap_message_t \<Rightarrow> fault + observable_table" where
  "coap_observe_client_send_handle h obs m =
     (if hdr_code (header m) = COAP_CODE_GET then
        c_bind (observe_opt_present m) (\<lambda>present.
        c_bind
          (if present = NRF_SUCCESS then
             c_bind (option_search (options m) COAP_OPT_OBSERVE [0..<unat (options_count m)]) (\<lambda>r.
             case r of
               None \<Rightarrow> Inr (NRF_SUCCESS, 0)
             | Some op \<Rightarrow>
               c_bind (coap_opt_uint_decode h (Some 0) (opt_length op) (opt_data op)) (\<lambda>(err_code, v).
               Inr (err_code, the v)))
           else Inr (NRF_SUCCESS, 0)) (\<lambda>(err_code, observe_option).
        if err_code \<noteq> NRF_SUCCESS then Inr obs
        else if observe_option = 1 then
          c_bind (internal_coap_observe_client_search obs (Some 0) (Some (token m)) (ucast (hdr_token_len (header m))))
            (\<lambda>(err_code, hnd).
          if err_code = NRF_SUCCESS
          then Inr (snd (internal_coap_observe_client_unregister obs (the hnd)))
          else Inr obs)
        else Inr obs))
      else Inr obs)"

text \<open>
  The handling of a response. The result is the table and the call of the application that follows,
  if any: the callback, its status and the message. \<open>junk\<close> and \<open>uninit\<close> are the contents of the
  uninitialised local variables.
\<close>

definition coap_observe_client_response_handle ::
  "heap \<Rightarrow> u32 \<Rightarrow> coap_observable_t \<Rightarrow> observable_table \<Rightarrow> coap_message_t \<Rightarrow> coap_queue_item_t option \<Rightarrow>
   fault + observable_table \<times> (nat \<times> u32 \<times> coap_message_t) option" where
  "coap_observe_client_response_handle h junk uninit obs m p_item =
     c_bind (observe_opt_present m) (\<lambda>present.
     c_bind (internal_coap_observe_client_search obs (Some 0) (Some (token m)) (ucast (hdr_token_len (header m))))
       (\<lambda>(err_code, hnd).
     if present = NRF_SUCCESS then
       (case p_item of
          None \<Rightarrow>
            if err_code = NRF_SUCCESS then
              (case internal_coap_observe_client_get obs (the hnd) (Some None) of
                 (err_code, p_observable) \<Rightarrow>
                   if err_code = NRF_SUCCESS then
                     (let i = the (the p_observable)
                      in c_bind (set_max_age h junk (obs ! i) m) (\<lambda>oa.
                         Inr (obs[i := oa], map_option (\<lambda>cb. (cb, NRF_SUCCESS, m)) (oa_response_callback oa))))
                   else Inr (obs, None))
            else Inr (obs, None)
        | Some item \<Rightarrow>
            if err_code = NRF_ERROR_NOT_FOUND OR IOT_COAP_ERR_BASE then
              if hdr_code (header m) = COAP_CODE_205_CONTENT then
                c_bind (arr_read (token m) 0 (unat (hdr_token_len (header m)))) (\<lambda>tok.
                c_bind (arr_write (oa_token uninit) 0 tok) (\<lambda>tok'.
                c_bind (set_max_age h junk
                          \<lparr>oa_remote = remote m, oa_token = tok', oa_token_len = hdr_token_len (header m),
                           oa_response_callback = callback item, oa_max_age = oa_max_age uninit\<rparr> m) (\<lambda>oa.
                Inr (snd (snd (internal_coap_observe_client_register obs (Some 0) (Some oa))), None))))
              else Inr (obs, None)
            else Inr (obs, None))
     else if err_code = NRF_SUCCESS
     then Inr (snd (internal_coap_observe_client_unregister obs (the hnd)), None)
     else Inr (obs, None)))"

definition internal_coap_observe_init :: "observer_table \<Rightarrow> observable_table \<Rightarrow> observer_table \<times> observable_table" where
  "internal_coap_observe_init obs oas = (observe_server_init obs, observe_client_init oas)"

section \<open>The observer table as a map\<close>

interpretation observers: slot_table "\<lambda>ob. p_resource_of_interest ob = None" "\<lambda>ob. ob\<lparr>p_resource_of_interest := None\<rparr>"
  by unfold_locales simp

interpretation observables: slot_table "\<lambda>oa. oa_response_callback oa = None" "\<lambda>oa. oa\<lparr>oa_response_callback := None\<rparr>"
  by unfold_locales simp

text \<open>
  The abstract state of the server part: who (a remote) observes what (a resource). The invariant of
  the table is that no such pair occurs twice.
\<close>

definition key_of :: "coap_observer_t \<Rightarrow> (nat \<times> coap_remote_t) option" where
  "key_of ob = map_option (\<lambda>r. (r, ob_remote ob)) (p_resource_of_interest ob)"

definition subscriptions :: "observer_table \<Rightarrow> nat \<times> coap_remote_t \<Rightarrow> coap_observer_t option" where
  "subscriptions obs = table_map key_of obs"

definition obs_inv :: "observer_table \<Rightarrow> bool" where
  "obs_inv obs \<longleftrightarrow> length obs = COAP_OBSERVE_MAX_NUM_OBSERVERS \<and> keys_unique key_of obs"

lemma key_of_None: "key_of ob = None \<longleftrightarrow> p_resource_of_interest ob = None"
  by (simp add: key_of_def)

lemma key_of_Some: "key_of ob = Some (r, a) \<longleftrightarrow> p_resource_of_interest ob = Some r \<and> ob_remote ob = a"
  by (auto simp: key_of_def)

lemma server_search_eq:
  "internal_coap_observe_server_search obs (Some h) (Some a) (Some r) =
     (case find_first (\<lambda>ob. key_of ob = Some (r, a)) obs of
        Some i \<Rightarrow> (NRF_SUCCESS, Some (of_nat i))
      | None \<Rightarrow> (NRF_ERROR_NOT_FOUND OR IOT_COAP_ERR_BASE, Some h))"
proof -
  have "(p_resource_of_interest ob = Some r \<and> remote_port_number (ob_remote ob) = remote_port_number a \<and>
         remote_addr a = remote_addr (ob_remote ob)) = (key_of ob = Some (r, a))" for ob
    by (auto simp: key_of_Some intro: coap_remote_t.equality)
  then show ?thesis by (simp add: internal_coap_observe_server_search_def)
qed

lemma obs_handle:
  "obs_inv obs \<Longrightarrow> i < length obs \<Longrightarrow> unat (of_nat i :: u32) = i"
  by (simp add: obs_inv_def c_consts unat_of_nat_u32)

lemma server_register_found:
  assumes "obs_inv obs" "p_resource_of_interest ob = Some r" "i < length obs" "key_of (obs ! i) = Some (r, ob_remote ob)"
  shows "internal_coap_observe_server_register obs (Some h0) (Some ob) = Inr (NRF_SUCCESS, Some (of_nat i), obs[i := ob])"
  using assms find_key_Some [of key_of obs "(r, ob_remote ob)" i] obs_handle [OF assms(1,3)]
  by (simp add: internal_coap_observe_server_register_def server_search_eq obs_inv_def)

lemma server_register_new:
  assumes "p_resource_of_interest ob = Some r" "subscriptions obs (r, ob_remote ob) = None"
  shows "internal_coap_observe_server_register obs (Some h0) (Some ob) =
    (case find_first (\<lambda>o'. p_resource_of_interest o' = None) obs of
       Some i \<Rightarrow> Inr (NRF_SUCCESS, Some (of_nat i), obs[i := ob])
     | None \<Rightarrow> Inr (NRF_ERROR_NO_MEM OR IOT_COAP_ERR_BASE, Some h0, obs))"
  using assms find_key_None [of key_of "(r, ob_remote ob)" obs]
  by (simp add: internal_coap_observe_server_register_def server_search_eq subscriptions_def)

text \<open>C28: Registration at the server is the update of a finite map from pairs (resource, remote) to
  observers: an existing pair is overwritten, a new pair is added as long as fewer than 4 pairs are
  registered and refused with NO_MEM and no change otherwise; the handle returned denotes the element
  that holds the observer.\<close>

theorem coap_observe_server_register_updates:
  assumes "obs_inv obs" "p_resource_of_interest ob = Some r"
  shows "\<exists>e h obs'. internal_coap_observe_server_register obs (Some h0) (Some ob) = Inr (e, Some h, obs') \<and>
    (if subscriptions obs (r, ob_remote ob) = None \<and>
        card (dom (subscriptions obs)) = COAP_OBSERVE_MAX_NUM_OBSERVERS
     then e = NRF_ERROR_NO_MEM OR IOT_COAP_ERR_BASE \<and> obs' = obs
     else e = NRF_SUCCESS \<and> obs_inv obs' \<and> subscriptions obs' = (subscriptions obs)((r, ob_remote ob) \<mapsto> ob) \<and>
          unat h < length obs' \<and> obs' ! unat h = ob)"
proof -
  let ?k = "(r, ob_remote ob)"
  have k: "key_of ob = Some ?k" using assms(2) by (simp add: key_of_def)
  have len: "length obs = COAP_OBSERVE_MAX_NUM_OBSERVERS" and u: "keys_unique key_of obs"
    using assms(1) by (simp_all add: obs_inv_def)
  have upd: "obs_inv (obs[i := ob]) \<and> subscriptions (obs[i := ob]) = (subscriptions obs)(?k \<mapsto> ob) \<and>
      unat (of_nat i :: u32) < length (obs[i := ob]) \<and> obs[i := ob] ! unat (of_nat i :: u32) = ob"
    if "i < length obs" "key_of (obs ! i) = Some ?k \<or> key_of (obs ! i) = None \<and> subscriptions obs ?k = None" for i
    using table_map_insert [OF u that(1) k] that obs_handle [OF assms(1) that(1)] len
    by (simp add: obs_inv_def subscriptions_def)
  show ?thesis
  proof (cases "subscriptions obs ?k")
    case (Some ob')
    then obtain i where i: "i < length obs" "key_of (obs ! i) = Some ?k"
      unfolding subscriptions_def by (rule table_map_cases)
    then show ?thesis using upd [OF i(1)] server_register_found [OF assms i] Some by simp
  next
    case None
    have full: "find_first (\<lambda>o'. p_resource_of_interest o' = None) obs = None \<longleftrightarrow>
        card (dom (subscriptions obs)) = COAP_OBSERVE_MAX_NUM_OBSERVERS"
      using observers.no_free_slot [of obs] table_map_card [OF u] len by (simp add: subscriptions_def key_of_None)
    show ?thesis
    proof (cases "find_first (\<lambda>o'. p_resource_of_interest o' = None) obs")
      case N: None
      then show ?thesis using server_register_new [OF assms(2) None, of h0] None full by simp
    next
      case (Some i)
      note f = observers.free_slot [OF Some]
      then show ?thesis
        using upd [OF f(1)] server_register_new [OF assms(2) None, of h0] None full Some by (simp add: key_of_None)
    qed
  qed
qed

text \<open>Searching for a pair (resource, remote) and unregistering the handle found deletes the pair from the
  map; the search fails exactly when the pair is not registered.\<close>

theorem coap_observe_server_unregister_deletes:
  assumes "obs_inv obs"
  shows "case subscriptions obs (r, a) of
      None \<Rightarrow> internal_coap_observe_server_search obs (Some h0) (Some a) (Some r)
          = (NRF_ERROR_NOT_FOUND OR IOT_COAP_ERR_BASE, Some h0)
    | Some ob \<Rightarrow> \<exists>h obs'. internal_coap_observe_server_search obs (Some h0) (Some a) (Some r) = (NRF_SUCCESS, Some h) \<and>
        internal_coap_observe_server_get obs h (Some p) = (NRF_SUCCESS, Some (Some (unat h))) \<and> obs ! unat h = ob \<and>
        internal_coap_observe_server_unregister obs h = (NRF_SUCCESS, obs') \<and>
        obs_inv obs' \<and> subscriptions obs' = (subscriptions obs)((r, a) := None)"
proof (cases "subscriptions obs (r, a)")
  case None
  then show ?thesis using find_key_None [of key_of "(r, a)" obs] by (simp add: server_search_eq subscriptions_def)
next
  case (Some ob)
  then obtain i where i: "i < length obs" "key_of (obs ! i) = Some (r, a)" "ob = obs ! i"
    unfolding subscriptions_def by (rule table_map_cases)
  have u: "keys_unique key_of obs" using assms by (simp add: obs_inv_def)
  let ?v = "(obs ! i)\<lparr>p_resource_of_interest := None\<rparr>"
  have "key_of ?v = None" by (simp add: key_of_def)
  then have "obs_inv (obs[i := ?v]) \<and> subscriptions (obs[i := ?v]) = (subscriptions obs)((r, a) := None)"
    using table_map_delete [OF u i(1,2)] assms by (simp add: obs_inv_def subscriptions_def)
  then show ?thesis
    using Some i find_key_Some [OF u, of "(r, a)" i] obs_handle [OF assms i(1)]
    by (auto simp: server_search_eq internal_coap_observe_server_get_def
        internal_coap_observe_server_unregister_def key_of_Some)
qed

section \<open>Notification loop\<close>

text \<open>The elements visited by a notification loop: \<open>next_get\<close> from NULL, then from the observer returned.\<close>

fun visit_observers :: "observer_table \<Rightarrow> nat \<Rightarrow> nat option \<Rightarrow> nat \<Rightarrow> nat list" where
  "visit_observers obs r p 0 = []"
| "visit_observers obs r p (Suc fuel) =
     (case internal_coap_observe_server_next_get obs (Some None) p (Some r) of
        (e, Some (Some i)) \<Rightarrow> i # visit_observers obs r (Some i) fuel
      | _ \<Rightarrow> [])"

interpretation observers_of: slot_table "\<lambda>ob. p_resource_of_interest ob \<noteq> Some r" "\<lambda>ob. ob\<lparr>p_resource_of_interest := None\<rparr>"
  for r
  by unfold_locales simp

lemma visit_observers_eq:
  assumes "length obs \<le> 256" "\<And>i. p = Some i \<Longrightarrow> i < length obs"
  shows "visit_observers obs r p fuel
    = visit_from (\<lambda>ob. p_resource_of_interest ob = Some r) obs (case p of None \<Rightarrow> 0 | Some i \<Rightarrow> Suc i) fuel"
  using assms(2)
proof (induction fuel arbitrary: p)
  case (Suc fuel)
  have m: "i mod 256 = i" if "p = Some i" for i using Suc.prems [OF that] assms(1) by simp
  have l: "j < length obs" if "find_next (\<lambda>ob. p_resource_of_interest ob = Some r) k obs = Some j" for j k
    using that by (simp add: find_next_Some)
  have z: "find_first P obs = find_next P 0 obs" for P :: "coap_observer_t \<Rightarrow> bool"
    by (simp add: find_first_def find_next_def)
  have ih: "visit_observers obs r (Some j) fuel = visit_from (\<lambda>ob. p_resource_of_interest ob = Some r) obs (Suc j) fuel"
    if "j < length obs" for j
    using Suc.IH [of "Some j"] that by simp
  show ?case
    by (cases p) (auto simp: internal_coap_observe_server_next_get_def ih z m dest: l split: option.splits)
qed simp

text \<open>A notification loop over the observers of a resource visits exactly the elements registered for
  that resource, each once and in table order, and ends after at most 4 calls.\<close>

theorem coap_observe_server_iteration_complete:
  assumes "obs_inv obs"
  shows "visit_observers obs r None (COAP_OBSERVE_MAX_NUM_OBSERVERS + n)
    = filter (\<lambda>i. p_resource_of_interest (obs ! i) = Some r) [0..<COAP_OBSERVE_MAX_NUM_OBSERVERS]"
proof -
  have l: "length obs = COAP_OBSERVE_MAX_NUM_OBSERVERS" using assms by (simp add: obs_inv_def)
  then show ?thesis
    using observers_of.visit_all [of obs 0 "COAP_OBSERVE_MAX_NUM_OBSERVERS + n" r]
    by (subst visit_observers_eq) (simp_all add: c_consts)
qed

section \<open>Examples\<close>

definition sample_observer :: coap_observer_t where
  "sample_observer =
     \<lparr>ob_remote = \<lparr>remote_addr = replicate 16 1, remote_port_number = 5683\<rparr>, ob_token = [1, 2, 0, 0, 0, 0, 0, 0],
      ob_token_len = 2, ob_ct = 0, p_resource_of_interest = Some 10\<rparr>"

definition sample_observers :: observer_table where
  "sample_observers = [sample_observer, coap_observer_zero, coap_observer_zero, coap_observer_zero]"

lemma sample_observers_inv: "obs_inv sample_observers"
  by (simp add: obs_inv_def keys_unique_def sample_observers_def c_consts numeral_nat less_Suc_eq all_conj_distrib
      key_of_def sample_observer_def coap_observer_zero_def)

lemma sample_subscriptions: "subscriptions sample_observers (10, ob_remote sample_observer) = Some sample_observer"
  by (simp add: subscriptions_def table_map_def sample_observers_def key_of_def sample_observer_def)

theorem coap_observe_server_register_updates_witness:
  "\<exists>e h obs'. internal_coap_observe_server_register sample_observers (Some 0)
       (Some (sample_observer\<lparr>ob_ct := 7\<rparr>)) = Inr (e, Some h, obs') \<and> e = NRF_SUCCESS \<and>
     subscriptions obs' (10, ob_remote sample_observer) = Some (sample_observer\<lparr>ob_ct := 7\<rparr>)"
  using coap_observe_server_register_updates [OF sample_observers_inv, of "sample_observer\<lparr>ob_ct := 7\<rparr>" 10 0]
    sample_subscriptions
  by (auto simp: sample_observer_def)

theorem coap_observe_server_unregister_deletes_witness:
  "\<exists>h obs'. internal_coap_observe_server_search sample_observers (Some 0) (Some (ob_remote sample_observer)) (Some 10)
       = (NRF_SUCCESS, Some h) \<and>
     internal_coap_observe_server_unregister sample_observers h = (NRF_SUCCESS, obs') \<and>
     subscriptions obs' (10, ob_remote sample_observer) = None"
  using coap_observe_server_unregister_deletes [OF sample_observers_inv, of 0 "ob_remote sample_observer" 10 None]
    sample_subscriptions
  by auto

theorem coap_observe_server_iteration_complete_witness:
  "visit_observers sample_observers 10 None (COAP_OBSERVE_MAX_NUM_OBSERVERS + 0) = [0]"
  using coap_observe_server_iteration_complete [OF sample_observers_inv, of 10 0]
  by (simp add: sample_observers_def sample_observer_def coap_observer_zero_def c_consts upt_rec)

end
