(* ===== verification/Coap_Core.thy ===== *)
theory Coap_Core
  imports Mem_Manager Coap_Builder Coap_Observe
begin

text \<open>
  The core of the CoAP module, \<^verbatim>\<open>components/iot/coap/coap.c\<close>, in the configuration of the switch
  device (\<open>COAP_AUTOMODE\<close> undefined, the observe client compiled out): sending with the message queue,
  the dispatch of received datagrams, creation and deletion of messages, and the retransmission tick.

  The transport and the callbacks of the application are parameters: a \<open>coap_env\<close> says what they do.
  A callback is a function pointer of the application, known by a number; it may call back into the
  module, so it transforms the whole state. Message structures are values; the pool block that holds
  such a structure is known by its address. A message buffer is a block of the byte store.
\<close>

section \<open>State and environment\<close>

definition COAP_CODE_EMPTY_MESSAGE :: u8 where [c_consts]: "COAP_CODE_EMPTY_MESSAGE = 0"
definition COAP_CODE_404_NOT_FOUND :: u8 where [c_consts]: "COAP_CODE_404_NOT_FOUND = 132"
definition COAP_CODE_405_METHOD_NOT_ALLOWED :: u8 where [c_consts]: "COAP_CODE_405_METHOD_NOT_ALLOWED = 133"

text \<open>\<open>sizeof(coap_message_t)\<close> on the 32-bit target.\<close>

definition SIZEOF_COAP_MESSAGE :: u32 where [c_consts]: "SIZEOF_COAP_MESSAGE = 128"

record 'w coap_state =
  c_mm :: mem_manager
  c_heap :: heap
  c_queue :: coap_queue
  c_resources :: coap_resources
  c_observers :: observer_table
  m_token_seed :: u32
  m_message_id_counter :: u32
  m_error_callback :: "nat option"
  m_coap_empty_message :: coap_message_t
  world :: 'w

text \<open>
  \<open>env_write\<close> is \<open>coap_transport_write\<close>: it gets the port, the remote and the bytes of the buffer.
  \<open>env_response\<close>, \<open>env_method\<close> and \<open>env_error\<close> are the calls of the response, resource and error
  callbacks. \<open>env_junk\<close> is the content of the uninitialised queue item on the stack.
\<close>

record 'w coap_env =
  env_transport_init :: "coap_port_t list \<Rightarrow> 'w \<Rightarrow> u32 \<times> 'w"
  env_write :: "coap_port_t \<Rightarrow> coap_remote_t \<Rightarrow> u8 list \<Rightarrow> 'w \<Rightarrow> u32 \<times> 'w"
  env_response :: "nat \<Rightarrow> u32 \<Rightarrow> nat option \<Rightarrow> coap_message_t option \<Rightarrow> 'w coap_state \<Rightarrow> fault + 'w coap_state"
  env_method :: "nat \<Rightarrow> nat \<Rightarrow> coap_message_t \<Rightarrow> 'w coap_state \<Rightarrow> fault + 'w coap_state"
  env_error :: "nat \<Rightarrow> u32 \<Rightarrow> coap_message_t option \<Rightarrow> 'w coap_state \<Rightarrow> fault + 'w coap_state"
  env_junk :: coap_queue_item_t

definition m_coap_port :: "coap_port_t list" where
  "m_coap_port = [\<lparr>port_number = COAP_SERVER_PORT\<rparr>]"

definition coap_empty_message :: coap_message_t where
  "coap_empty_message =
     coap_message_zero\<lparr>header := \<lparr>hdr_version = 1, hdr_type = COAP_TYPE_ACK, hdr_token_len = 0,
                                 hdr_code = COAP_CODE_EMPTY_MESSAGE, hdr_id = 0\<rparr>,
                       port := \<lparr>port_number = COAP_SERVER_PORT\<rparr>\<rparr>"

section \<open>Message classes\<close>

definition is_ping :: "coap_message_t \<Rightarrow> bool" where
  "is_ping m \<longleftrightarrow> hdr_code (header m) = COAP_CODE_EMPTY_MESSAGE \<and> hdr_type (header m) = COAP_TYPE_CON"

definition is_ack :: "coap_message_t \<Rightarrow> bool" where
  "is_ack m \<longleftrightarrow> hdr_code (header m) = COAP_CODE_EMPTY_MESSAGE \<and> hdr_type (header m) = COAP_TYPE_ACK"

definition is_reset :: "coap_message_t \<Rightarrow> bool" where
  "is_reset m \<longleftrightarrow> hdr_type (header m) = COAP_TYPE_RST"

definition is_con_response :: "coap_message_t \<Rightarrow> bool" where
  "is_con_response m \<longleftrightarrow> hdr_code (header m) = COAP_CODE_205_CONTENT \<and> hdr_type (header m) = COAP_TYPE_CON"

definition is_request :: "u8 \<Rightarrow> bool" where
  "is_request message_code \<longleftrightarrow> message_code \<ge> 1 \<and> message_code < 32"

definition is_response :: "u8 \<Rightarrow> bool" where
  "is_response message_code \<longleftrightarrow> message_code \<ge> 64 \<and> message_code < 192"

definition app_error_notify ::
  "'w coap_env \<Rightarrow> u32 \<Rightarrow> coap_message_t option \<Rightarrow> 'w coap_state \<Rightarrow> fault + 'w coap_state" where
  "app_error_notify E err_code p_message s =
     (case m_error_callback s of None \<Rightarrow> Inr s | Some cb \<Rightarrow> env_error E cb err_code p_message s)"

section \<open>Initialisation\<close>

definition coap_init :: "'w coap_env \<Rightarrow> 'w coap_state \<Rightarrow> u32 \<Rightarrow> u32 \<times> 'w coap_state" where
  "coap_init E s token_rand_seed =
     (let s1 = s\<lparr>c_observers := fst (internal_coap_observe_init (c_observers s) []),
                 m_error_callback := None, m_token_seed := token_rand_seed, m_message_id_counter := 1\<rparr>
      in case env_transport_init E m_coap_port (world s1) of (err_code, w) \<Rightarrow>
         let s2 = s1\<lparr>world := w\<rparr>
         in if err_code \<noteq> NRF_SUCCESS then (err_code, s2)
            else case coap_queue_init (c_queue s2) of (err_code, q) \<Rightarrow>
              let s3 = s2\<lparr>c_queue := q\<rparr>
              in if err_code \<noteq> NRF_SUCCESS then (err_code, s3)
                 else case coap_resource_init (c_resources s3) of (err_code, rs) \<Rightarrow>
                   (err_code, s3\<lparr>c_resources := rs\<rparr>))"

definition coap_error_handler_register :: "'w coap_state \<Rightarrow> nat option \<Rightarrow> u32 \<times> 'w coap_state" where
  "coap_error_handler_register s error_callback = (NRF_SUCCESS, s\<lparr>m_error_callback := error_callback\<rparr>)"

section \<open>Blocks of the memory manager\<close>

text \<open>
  \<open>nrf51_sdk_mem_alloc\<close> of a block, called with the address of a pointer and of a size: the error code,
  the pointer, the size of the block and the state. On an error the pointer is not written; the code
  does not use it then.
\<close>

definition block_alloc :: "'w coap_state \<Rightarrow> u32 \<Rightarrow> u32 \<times> ptr \<times> u32 \<times> 'w coap_state" where
  "block_alloc s sz =
     (case nrf51_sdk_mem_alloc (c_mm s) (Some NULL) (Some sz) of
        (err_code, pp, psz, mm) \<Rightarrow> (err_code, the pp, the psz, s\<lparr>c_mm := mm\<rparr>))"

definition block_free :: "'w coap_state \<Rightarrow> ptr \<Rightarrow> 'w coap_state" where
  "block_free s p = s\<lparr>c_mm := snd (nrf51_sdk_mem_free (c_mm s) p)\<rparr>"

definition block_clear :: "'w coap_state \<Rightarrow> ptr \<Rightarrow> nat \<Rightarrow> fault + 'w coap_state" where
  "block_clear s p n = c_bind (store_bytes (c_heap s) p (replicate n 0)) (\<lambda>h. Inr (s\<lparr>c_heap := h\<rparr>))"

section \<open>Sending\<close>

text \<open>The item that \<open>internal_coap_message_send\<close> queues; \<open>handle\<close> and the rest of the token array keep the
  content \<open>junk\<close> of the stack.\<close>

definition send_queue_item :: "coap_queue_item_t \<Rightarrow> coap_message_t \<Rightarrow> ptr \<Rightarrow> u16 \<Rightarrow> fault + coap_queue_item_t" where
  "send_queue_item junk m buf blen =
     (let tv = COAP_ACK_TIMEOUT * COAP_ACK_RANDOM_FACTOR;
          con = (hdr_type (header m) = COAP_TYPE_CON)
      in c_bind (arr_read (token m) 0 (unat (hdr_token_len (header m)))) (\<lambda>tok.
         c_bind (arr_write (q_token junk) 0 tok) (\<lambda>tok'.
         Inr (junk\<lparr>q_arg := p_arg m, mid := hdr_id (header m), callback := response_callback m,
                   p_buffer := buf, buffer_len := ucast blen, timeout_val := tv,
                   timeout := (if con then tv else COAP_MAX_TRANSMISSION_SPAN),
                   retrans_count := (if con then 0 else COAP_MAX_RETRANSMIT_COUNT),
                   q_port := port m, q_token_len := hdr_token_len (header m),
                   q_remote := remote m, q_token := tok'\<rparr>))))"

text \<open>The result is the error code, the cell behind \<open>p_handle\<close> and the state.\<close>

definition internal_coap_message_send ::
  "'w coap_env \<Rightarrow> 'w coap_state \<Rightarrow> u32 option \<Rightarrow> coap_message_t option \<Rightarrow> fault + u32 \<times> u32 option \<times> 'w coap_state" where
  "internal_coap_message_send E s p_handle p_message =
     (case p_message of
        None \<Rightarrow> Inr (NRF_ERROR_NULL OR IOT_COAP_ERR_BASE, p_handle, s)
      | Some m \<Rightarrow>
        c_bind (coap_message_encode (c_heap s) (Some m) NULL (Some 0)) (\<lambda>(err_code, h0, expected_length).
        if err_code \<noteq> NRF_SUCCESS then Inr (err_code, p_handle, s)
        else case block_alloc s (ucast (the expected_length)) of (err_code, buf, request_length, s1) \<Rightarrow>
        if err_code \<noteq> NRF_SUCCESS then Inr (err_code, p_handle, s1)
        else
        c_bind (block_clear s1 buf (unat request_length)) (\<lambda>s2.
        c_bind (coap_message_encode (c_heap s2) (Some m) buf (Some (ucast request_length)))
          (\<lambda>(err_code, h, buffer_length).
        if err_code \<noteq> NRF_SUCCESS then Inr (err_code, p_handle, block_free (s2\<lparr>c_heap := h\<rparr>) buf)
        else
        c_bind (load_bytes h buf (unat (the buffer_length))) (\<lambda>datagram.
        case env_write E (port m) (remote m) datagram (world s2) of (err_code, w) \<Rightarrow>
        let s3 = s2\<lparr>c_heap := h, world := w\<rparr>
        in if err_code = NRF_SUCCESS then
             if is_request (hdr_code (header m)) \<or> is_con_response m then
               c_bind (send_queue_item (env_junk E) m buf (the buffer_length)) (\<lambda>item.
               case coap_queue_add (c_queue s3) (Some item) of (err_code, q) \<Rightarrow>
               if err_code \<noteq> NRF_SUCCESS then Inr (err_code, p_handle, s3\<lparr>c_queue := q\<rparr>)
               else if p_handle = None then Inl NullDereference
               else Inr (err_code, Some (handle item), s3\<lparr>c_queue := q\<rparr>))
             else if p_handle = None then Inl NullDereference
             else Inr (err_code, Some (of_nat COAP_MESSAGE_QUEUE_SIZE), block_free s3 buf)
           else Inr (err_code, p_handle, s3))))))"

definition coap_message_send ::
  "'w coap_env \<Rightarrow> 'w coap_state \<Rightarrow> u32 option \<Rightarrow> coap_message_t option \<Rightarrow> fault + u32 \<times> u32 option \<times> 'w coap_state" where
  "coap_message_send E s p_handle p_message = internal_coap_message_send E s p_handle p_message"

definition coap_message_abort :: "'w coap_state \<Rightarrow> u32 \<Rightarrow> u32 \<times> 'w coap_state" where
  "coap_message_abort s hnd = (NRF_ERROR_NOT_SUPPORTED, s)"

section \<open>Creating and deleting messages\<close>

text \<open>The result is the error code, the new message with the address of its block, and the state.\<close>

definition create_response ::
  "'w coap_state \<Rightarrow> coap_message_t \<Rightarrow> u16 \<Rightarrow> fault + u32 \<times> (ptr \<times> coap_message_t) option \<times> 'w coap_state" where
  "create_response s p_request data_size =
     (case block_alloc s SIZEOF_COAP_MESSAGE of (err_code, pm, sz, s1) \<Rightarrow>
      if err_code \<noteq> NRF_SUCCESS then Inr (err_code, None, s1)
      else
      c_bind
        (if data_size > 0 then
           case block_alloc s1 (ucast data_size) of (err_code, pd, sz, s2) \<Rightarrow>
           if err_code \<noteq> NRF_SUCCESS then Inr (err_code, coap_message_zero, s2)
           else c_bind (block_clear s2 pd (unat sz)) (\<lambda>s3.
                Inr (NRF_SUCCESS, coap_message_zero\<lparr>p_data := pd, data_len := ucast sz\<rparr>, s3))
         else Inr (NRF_SUCCESS, coap_message_zero, s1)) (\<lambda>(err_code, m0, s4).
      if err_code \<noteq> NRF_SUCCESS then Inr (err_code, Some (pm, m0), s4)
      else
      let req = header p_request
      in c_bind (arr_read (token p_request) 0 (unat (hdr_token_len req))) (\<lambda>tok.
         c_bind (arr_write (replicate 8 0) 0 tok) (\<lambda>tok'.
         let config = coap_message_conf_zero
               \<lparr>conf_token_len := hdr_token_len req, conf_id := hdr_id req,
                conf_code := COAP_CODE_404_NOT_FOUND, conf_port := \<lparr>port_number = COAP_SERVER_PORT\<rparr>,
                conf_token := tok',
                conf_type := (if hdr_type req = COAP_TYPE_CON then COAP_TYPE_ACK else hdr_type req)\<rparr>
         in case coap_message_create (Some m0) (Some config) of (err_code, m1) \<Rightarrow>
            if err_code \<noteq> NRF_SUCCESS then Inr (err_code, Some (pm, the m1), s4)
            else Inr (NRF_SUCCESS, Some (pm, snd (coap_message_remote_addr_set (the m1) (remote p_request))), s4)))))"

text \<open>
  The result is the error code, the new message, the configuration, which the function completes, and
  the state.
\<close>

definition coap_message_new ::
  "'w coap_state \<Rightarrow> coap_message_conf_t \<Rightarrow>
   fault + u32 \<times> (ptr \<times> coap_message_t) option \<times> coap_message_conf_t \<times> 'w coap_state" where
  "coap_message_new s p_config =
     (case block_alloc s SIZEOF_COAP_MESSAGE of (err_code, pm, sz, s1) \<Rightarrow>
      if err_code \<noteq> NRF_SUCCESS then Inr (err_code, None, p_config, s1)
      else case block_alloc s1 (ucast COAP_MESSAGE_DATA_MAX_SIZE) of (err_code, pd, sz, s2) \<Rightarrow>
      if err_code \<noteq> NRF_SUCCESS then Inr (err_code, Some (pm, coap_message_zero), p_config, block_free s2 pm)
      else
      c_bind (block_clear s2 pd (unat sz)) (\<lambda>s3.
      let c1 = p_config\<lparr>conf_port :=
                 \<lparr>port_number = (if is_request (conf_code p_config) then COAP_CLIENT_PORT else COAP_SERVER_PORT)\<rparr>\<rparr>;
          fresh = (conf_id c1 = 0);
          c2 = (if fresh then c1\<lparr>conf_id := ucast (m_message_id_counter s3)\<rparr> else c1);
          s4 = (if fresh then s3\<lparr>m_message_id_counter := m_message_id_counter s3 + 1\<rparr> else s3)
      in case coap_message_create (Some (coap_message_zero\<lparr>p_data := pd, data_len := ucast sz\<rparr>)) (Some c2) of
           (err_code, m) \<Rightarrow> Inr (err_code, Some (pm, the m), c2, s4)))"

definition coap_message_delete :: "'w coap_state \<Rightarrow> ptr \<times> coap_message_t \<Rightarrow> u32 \<times> 'w coap_state" where
  "coap_message_delete s p_message =
     (case p_message of (pm, m) \<Rightarrow> (NRF_SUCCESS, block_free (block_free s (p_data m)) pm))"

section \<open>Receiving\<close>

text \<open>The macros \<open>COAP_MESSAGE_ACK_SET\<close> and \<open>COAP_MESSAGE_RST_SET\<close> on the static empty message.\<close>

definition empty_message_set :: "u8 \<Rightarrow> coap_remote_t \<Rightarrow> u16 \<Rightarrow> coap_message_t \<Rightarrow> coap_message_t" where
  "empty_message_set type r x m = m\<lparr>remote := r, header := (header m)\<lparr>hdr_id := x, hdr_type := type\<rparr>\<rparr>"

text \<open>
  The branches of \<open>coap_transport_read\<close> for a datagram that was decoded: \<open>pm\<close> is the block of the
  message and \<open>m\<close> its content.
\<close>

definition read_ping ::
  "'w coap_env \<Rightarrow> 'w coap_state \<Rightarrow> ptr \<Rightarrow> coap_message_t \<Rightarrow> fault + u32 \<times> 'w coap_state" where
  "read_ping E s pm m =
     (let e = empty_message_set COAP_TYPE_RST (remote m) (hdr_id (header m)) (m_coap_empty_message s);
          s1 = s\<lparr>m_coap_empty_message := e\<rparr>
      in c_bind (internal_coap_message_send E s1 (Some 0) (Some e)) (\<lambda>(err_code, hnd, s2).
         Inr (err_code, block_free s2 pm)))"

definition read_ack_or_reset ::
  "'w coap_env \<Rightarrow> 'w coap_state \<Rightarrow> ptr \<Rightarrow> coap_message_t \<Rightarrow> fault + u32 \<times> 'w coap_state" where
  "read_ack_or_reset E s pm m =
     (case coap_queue_item_by_mid_get (c_queue s) (hdr_id (header m)) of (err_code, p_item) \<Rightarrow>
      c_bind
        (if err_code = NRF_SUCCESS then
           let i = the p_item
           in c_bind (arr_get (m_queue (c_queue s)) i) (\<lambda>item.
              c_bind
                (case callback item of
                   None \<Rightarrow> Inr s
                 | Some cb \<Rightarrow>
                   c_bind (arr_read (q_token item) 0 (unat (q_token_len item))) (\<lambda>tok.
                   c_bind (arr_write (token m) 0 tok) (\<lambda>tok'.
                   let m1 = m\<lparr>token := tok', header := (header m)\<lparr>hdr_token_len := take_bit 4 (q_token_len item)\<rparr>\<rparr>
                   in env_response E cb (if is_ack m1 then NRF_SUCCESS else COAP_TRANSMISSION_RESET_BY_PEER)
                        (q_arg item) (Some m1) s))) (\<lambda>s1.
              c_bind (arr_get (m_queue (c_queue s1)) i) (\<lambda>item1.
              let s2 = block_free s1 (p_buffer item1)
              in case coap_queue_remove (c_queue s2) (Some i) of (err_code, q) \<Rightarrow>
                 Inr (err_code, s2\<lparr>c_queue := q\<rparr>))))
         else Inr (err_code, s)) (\<lambda>(err_code, s3).
      Inr (err_code, block_free s3 pm)))"

definition read_response ::
  "'w coap_env \<Rightarrow> 'w coap_state \<Rightarrow> coap_port_t \<Rightarrow> ptr \<Rightarrow> coap_message_t \<Rightarrow> fault + u32 \<times> 'w coap_state" where
  "read_response E s p_port pm m =
     c_bind
       (if hdr_type (header m) = COAP_TYPE_CON then
          let e = empty_message_set COAP_TYPE_ACK (remote m) (hdr_id (header m)) (m_coap_empty_message s);
              s1 = s\<lparr>m_coap_empty_message := e\<rparr>
          in c_bind (internal_coap_message_send E s1 (Some 0)
                       (Some (e\<lparr>port := \<lparr>port_number = port_number p_port\<rparr>\<rparr>))) (\<lambda>(err_code, hnd, s2).
             Inr s2)
        else Inr s) (\<lambda>s3.
     c_bind (coap_queue_item_by_token_get (c_queue s3) (token m) (hdr_token_len (header m))) (\<lambda>(err_code, p_item).
     if err_code \<noteq> NRF_SUCCESS then Inr (err_code, block_free s3 pm)
     else
     let i = the p_item
     in c_bind (arr_get (m_queue (c_queue s3)) i) (\<lambda>item.
        c_bind
          (case callback item of
             None \<Rightarrow> Inr s3
           | Some cb \<Rightarrow> env_response E cb NRF_SUCCESS (q_arg item) (Some m) s3) (\<lambda>s4.
        c_bind (arr_get (m_queue (c_queue s4)) i) (\<lambda>item1.
        let s5 = block_free s4 (p_buffer item1)
        in case coap_queue_remove (c_queue s5) (Some i) of (err_code, q) \<Rightarrow>
           Inr (err_code, block_free (s5\<lparr>c_queue := q\<rparr>) pm))))))"

text \<open>The Uri-Path options of a request; \<open>uris\<close> is the array \<open>uri_pointers[COAP_RESOURCE_MAX_DEPTH]\<close>.\<close>

fun uri_path_loop :: "coap_option_t list \<Rightarrow> nat list \<Rightarrow> ptr list \<Rightarrow> u8 \<Rightarrow> fault + ptr list \<times> u8" where
  "uri_path_loop os [] uris uri_path_count = Inr (uris, uri_path_count)"
| "uri_path_loop os (i # is) uris uri_path_count =
     c_bind (arr_get os i) (\<lambda>op.
     if opt_number op = COAP_OPT_URI_PATH
     then c_bind (arr_set uris (unat uri_path_count) (opt_data op)) (\<lambda>uris'.
          uri_path_loop os is uris' (uri_path_count + 1))
     else uri_path_loop os is uris uri_path_count)"

text \<open>The error reply to a request: the three identical blocks that differ in the response code.\<close>

definition request_error_reply ::
  "'w coap_env \<Rightarrow> 'w coap_state \<Rightarrow> ptr \<Rightarrow> coap_message_t \<Rightarrow> u8 \<Rightarrow> fault + u32 \<times> 'w coap_state" where
  "request_error_reply E s pm m code =
     c_bind (create_response s m COAP_MESSAGE_DATA_MAX_SIZE) (\<lambda>(err_code, p_response, s1).
     if err_code \<noteq> NRF_SUCCESS then
       c_bind (app_error_notify E err_code (Some m) s1) (\<lambda>s2. Inr (err_code, s2))
     else
     case the p_response of (pr, r) \<Rightarrow>
     let r1 = r\<lparr>header := (header r)\<lparr>hdr_code := code\<rparr>\<rparr>
     in c_bind (internal_coap_message_send E s1 (Some 0) (Some r1)) (\<lambda>(err_code, hnd, s2).
        Inr (err_code, block_free (block_free (block_free s2 (p_data r1)) pr) pm)))"

definition method_permitted :: "u16 \<Rightarrow> u8 \<Rightarrow> bool" where
  "method_permitted perm code \<longleftrightarrow> (ucast perm :: u32) AND push_bit (unat (code - 1)) 1 > 0"

definition read_request ::
  "'w coap_env \<Rightarrow> nat \<Rightarrow> 'w coap_state \<Rightarrow> ptr \<Rightarrow> coap_message_t \<Rightarrow> fault + u32 \<times> 'w coap_state" where
  "read_request E fuel s pm m =
     c_bind (uri_path_loop (options m) [0..<unat (options_count m)] (replicate COAP_RESOURCE_MAX_DEPTH NULL) 0)
       (\<lambda>(uris, uri_path_count).
     c_bind (coap_resource_get fuel (c_heap s) (c_resources s) uris uri_path_count) (\<lambda>(err_code, found_resource).
     case found_resource of
       None \<Rightarrow> request_error_reply E s pm m COAP_CODE_404_NOT_FOUND
     | Some r \<Rightarrow>
       (case res_callback (res_at (c_resources s) r) of
          None \<Rightarrow> request_error_reply E s pm m COAP_CODE_405_METHOD_NOT_ALLOWED
        | Some cb \<Rightarrow>
          if method_permitted (permission (res_at (c_resources s) r)) (hdr_code (header m))
          then c_bind (env_method E cb r m s) (\<lambda>s1. Inr (err_code, block_free s1 pm))
          else request_error_reply E s pm m COAP_CODE_405_METHOD_NOT_ALLOWED)))"

definition read_dispatch ::
  "'w coap_env \<Rightarrow> nat \<Rightarrow> 'w coap_state \<Rightarrow> coap_port_t \<Rightarrow> u32 \<Rightarrow> ptr \<Rightarrow> coap_message_t \<Rightarrow>
   fault + u32 \<times> 'w coap_state" where
  "read_dispatch E fuel s p_port result pm m =
     (if result = UDP_TRUNCATED_PACKET
      then c_bind (app_error_notify E result (Some m) s) (\<lambda>s1. Inr (NRF_SUCCESS, block_free s1 pm))
      else if is_ping m then read_ping E s pm m
      else if is_ack m \<or> is_reset m then read_ack_or_reset E s pm m
      else if is_response (hdr_code (header m)) then read_response E s p_port pm m
      else if is_request (hdr_code (header m)) then read_request E fuel s pm m
      else Inr (NRF_SUCCESS, block_free s pm))"

text \<open>
  \<open>p_data\<close> points to the received datagram, an object of the byte store outside the pools. \<open>fuel\<close> bounds
  the walk through the resource tree.
\<close>

definition coap_transport_read ::
  "'w coap_env \<Rightarrow> nat \<Rightarrow> 'w coap_state \<Rightarrow> coap_port_t \<Rightarrow> coap_remote_t \<Rightarrow> u32 \<Rightarrow> ptr \<Rightarrow> u16 \<Rightarrow>
   fault + u32 \<times> 'w coap_state" where
  "coap_transport_read E fuel s p_port p_remote result datagram datalen =
     (if \<not> (result = NRF_SUCCESS \<or> result = UDP_TRUNCATED_PACKET) then Inr (NRF_SUCCESS, s)
      else case block_alloc s SIZEOF_COAP_MESSAGE of (err_code, pm, sz, s1) \<Rightarrow>
      if err_code \<noteq> NRF_SUCCESS then Inr (err_code, s1)
      else
      c_bind (coap_message_decode (c_heap s1) (Some coap_message_zero) datagram datalen (Some p_remote))
        (\<lambda>(err_code, m).
      if err_code \<noteq> NRF_SUCCESS
      then c_bind (app_error_notify E err_code m s1) (\<lambda>s2. Inr (err_code, block_free s2 pm))
      else read_dispatch E fuel s1 p_port result pm (the m)))"

section \<open>Retransmission\<close>

definition queue_upd :: "'w coap_state \<Rightarrow> nat \<Rightarrow> (coap_queue_item_t \<Rightarrow> coap_queue_item_t) \<Rightarrow> 'w coap_state" where
  "queue_upd s i f =
     s\<lparr>c_queue := (c_queue s)\<lparr>m_queue := (m_queue (c_queue s))[i := f (m_queue (c_queue s) ! i)]\<rparr>\<rparr>"

text \<open>The next retransmission of the item at index \<open>i\<close>.\<close>

definition tick_retransmit :: "'w coap_env \<Rightarrow> 'w coap_state \<Rightarrow> nat \<Rightarrow> coap_queue_item_t \<Rightarrow> fault + 'w coap_state" where
  "tick_retransmit E s i item =
     (let s1 = queue_upd s i (\<lambda>it. it\<lparr>timeout := timeout_val it * 2, timeout_val := timeout_val it * 2,
                                      retrans_count := retrans_count it + 1\<rparr>)
      in c_bind (load_bytes (c_heap s1) (p_buffer item) (unat (buffer_len item))) (\<lambda>datagram.
         case env_write E (q_port item) (q_remote item) datagram (world s1) of (err_code, w) \<Rightarrow>
         let s2 = s1\<lparr>world := w\<rparr>
         in if err_code \<noteq> NRF_SUCCESS then app_error_notify E err_code None s2 else Inr s2))"

text \<open>One turn of the loop of \<open>coap_time_tick\<close>. The callback is not tested for NULL.\<close>

definition tick_item :: "'w coap_env \<Rightarrow> 'w coap_state \<Rightarrow> nat \<Rightarrow> fault + 'w coap_state" where
  "tick_item E s i =
     c_bind (arr_get (m_queue (c_queue s)) i) (\<lambda>item.
     if timeout item = 0 then
       c_bind (if retrans_count item < COAP_MAX_RETRANSMIT_COUNT then tick_retransmit E s i item else Inr s) (\<lambda>s1.
       c_bind (arr_get (m_queue (c_queue s1)) i) (\<lambda>item1.
       if timeout item1 > COAP_MAX_TRANSMISSION_SPAN \<or> retrans_count item1 \<ge> COAP_MAX_RETRANSMIT_COUNT then
         (case callback item1 of
            None \<Rightarrow> Inl NullDereference
          | Some cb \<Rightarrow>
            c_bind (env_response E cb COAP_TRANSMISSION_TIMEOUT (q_arg item1) None s1) (\<lambda>s2.
            c_bind (arr_get (m_queue (c_queue s2)) i) (\<lambda>item2.
            let s3 = block_free s2 (p_buffer item2)
            in Inr (s3\<lparr>c_queue := snd (coap_queue_remove (c_queue s3) (Some i))\<rparr>))))
       else Inr s1))
     else Inr (queue_upd s i (\<lambda>it. it\<lparr>timeout := timeout it - 1\<rparr>)))"

text \<open>The loop ends after at most one turn for each element of the queue; \<open>fuel\<close> bounds the turns.\<close>

fun tick_loop :: "nat \<Rightarrow> 'w coap_env \<Rightarrow> 'w coap_state \<Rightarrow> nat option \<Rightarrow> fault + 'w coap_state" where
  "tick_loop 0 E s p_item = Inl Diverges"
| "tick_loop (Suc fuel) E s p_item =
     (case coap_queue_item_next_get (c_queue s) p_item of (err_code, p_next) \<Rightarrow>
      if err_code = NRF_SUCCESS
      then c_bind (tick_item E s (the p_next)) (\<lambda>s1. tick_loop fuel E s1 p_next)
      else Inr s)"

definition coap_time_tick :: "'w coap_env \<Rightarrow> 'w coap_state \<Rightarrow> fault + u32 \<times> 'w coap_state" where
  "coap_time_tick E s = c_bind (tick_loop (Suc COAP_MESSAGE_QUEUE_SIZE) E s None) (\<lambda>s1. Inr (NRF_SUCCESS, s1))"

end
