(* ===== verification/Switch_App.thy ===== *)
theory Switch_App
  imports Coap_Core
begin

text \<open>
  The application of the switch device, \<^verbatim>\<open>examples/iot/coap/ipv6/client_server_observe/main.c\<close> with the texts
  of \<^verbatim>\<open>semantics.h\<close>, in the configuration \<open>FUNCTIONALITY\<close> = 1: the resources it serves, the notifications of
  observers, the registration at a resource directory, the buttons and the periodic tick. The LEDs are
  those of the board PCA10028.

  The static variables of the application are the world of the CoAP module's state, beside the outside
  world of the transport. Static and local strings are objects of the byte store, outside the pools.
  \<open>APP_ERROR_CHECK\<close> of an error does not return.
\<close>

section \<open>State\<close>

datatype display_state_t = LEDS_INACTIVE | LEDS_BLE_ADVERTISING | LEDS_IPV6_IF_DOWN | LEDS_IPV6_IF_UP

record 'w switch =
  gpio_out :: u32
  m_display_state :: display_state_t
  mp_interface :: "nat option"
  m_global_token_count :: u16
  m_observer_sequence_num :: u32
  m_observer_sequence_num_statedesc :: u32
  m_person_sensed :: u8
  m_pir_timer :: u8
  msg_count :: u32
  msg_count_2 :: u32
  sw_outside :: 'w

type_synonym 'w app_state = "'w switch coap_state"
type_synonym 'w app_env = "'w switch coap_env"

text \<open>Contents of local variables that are not initialised: an observer, a configuration, and the stack behind an array.\<close>

record stack_junk =
  junk_observer :: coap_observer_t
  junk_conf :: coap_message_conf_t
  junk_stack :: "u8 list"
  junk_ct :: u32

definition app_upd :: "'w app_state \<Rightarrow> ('w switch \<Rightarrow> 'w switch) \<Rightarrow> 'w app_state" where
  "app_upd s f = s\<lparr>world := f (world s)\<rparr>"

text \<open>The addresses of the resource structures, and the numbers of the callbacks.\<close>

definition R_ROOT :: nat where "R_ROOT = 0"
definition R_WELL_KNOWN :: nat where "R_WELL_KNOWN = 1"
definition R_CORE :: nat where "R_CORE = 2"
definition R_LED3 :: nat where "R_LED3 = 3"
definition R_SEMANTICS_SWITCH :: nat where "R_SEMANTICS_SWITCH = 4"
definition R_SEMANTIC_STS :: nat where "R_SEMANTIC_STS = 5"

lemmas app_resources = R_ROOT_def R_WELL_KNOWN_def R_CORE_def R_LED3_def R_SEMANTICS_SWITCH_def R_SEMANTIC_STS_def

definition CB_WELL_KNOWN_CORE :: nat where "CB_WELL_KNOWN_CORE = 1"
definition CB_LED3 :: nat where "CB_LED3 = 2"
definition CB_SEMANTICS :: nat where "CB_SEMANTICS = 3"
definition CB_OBSERVER_CON :: nat where "CB_OBSERVER_CON = 4"
definition CB_RESPONSE :: nat where "CB_RESPONSE = 5"
definition CB_ERROR :: nat where "CB_ERROR = 6"

lemmas app_callbacks = CB_WELL_KNOWN_CORE_def CB_LED3_def CB_SEMANTICS_def CB_OBSERVER_CON_def CB_RESPONSE_def CB_ERROR_def

text \<open>The objects of the byte store that hold the strings.\<close>

definition STATIC_OBJECTS :: nat where "STATIC_OBJECTS = 65536"
definition OBJ_WELL_KNOWN_CORE :: nat where "OBJ_WELL_KNOWN_CORE = STATIC_OBJECTS"
definition OBJ_LED3_TRUE :: nat where "OBJ_LED3_TRUE = STATIC_OBJECTS + 1"
definition OBJ_LED3_FALSE :: nat where "OBJ_LED3_FALSE = STATIC_OBJECTS + 2"
definition OBJ_LED3_PLAIN :: nat where "OBJ_LED3_PLAIN = STATIC_OBJECTS + 3"
definition OBJ_SEMANTICS :: nat where "OBJ_SEMANTICS = STATIC_OBJECTS + 4"
definition OBJ_STATUS_ON :: nat where "OBJ_STATUS_ON = STATIC_OBJECTS + 5"
definition OBJ_STATUS_OFF :: nat where "OBJ_STATUS_OFF = STATIC_OBJECTS + 6"
definition OBJ_RESPONSE_PART :: nat where "OBJ_RESPONSE_PART = STATIC_OBJECTS + 7"
definition OBJ_URI_RD :: nat where "OBJ_URI_RD = STATIC_OBJECTS + 8"
definition OBJ_URI_EP :: nat where "OBJ_URI_EP = STATIC_OBJECTS + 9"
definition OBJ_RD_PAYLOAD :: nat where "OBJ_RD_PAYLOAD = STATIC_OBJECTS + 10"

lemmas app_objects = OBJ_WELL_KNOWN_CORE_def OBJ_LED3_TRUE_def OBJ_LED3_FALSE_def OBJ_LED3_PLAIN_def OBJ_SEMANTICS_def
  OBJ_STATUS_ON_def OBJ_STATUS_OFF_def OBJ_RESPONSE_PART_def OBJ_URI_RD_def OBJ_URI_EP_def OBJ_RD_PAYLOAD_def

section \<open>Texts\<close>

definition c_chars :: "string \<Rightarrow> u8 list" where "c_chars t = map of_char t"

definition c_string :: "string \<Rightarrow> u8 list" where "c_string t = c_chars t @ [0]"

definition text_lines :: "string list \<Rightarrow> string" where
  "text_lines ls = concat (map (\<lambda>l. l @ [CHR 0x0A]) ls)"

definition indent :: "nat \<Rightarrow> string \<Rightarrow> string" where
  "indent n l = replicate n (CHR 0x09) @ l"

definition SEMANTICS_SWITCH :: string where
  "SEMANTICS_SWITCH = text_lines
    [''# Switch'',
     ''# Standard namespaces '',
     ''@prefix local: <local#>.'',
     ''@prefix : <ex#>.'',
     ''@prefix ex: <http://example.org/#>.'',
     ''@prefix http: <http://www.w3.org/2011/http#>.'',
     ''@prefix st: <http://purl.org/restdesc/states#>.'',
     ''@prefix log: <http://www.w3.org/2000/10/swap/log#>.'',
     ''@prefix owl: <http://www.w3.org/2002/07/owl#>.'',
     ''local:switch a :switch.'',
     ''local:devicelocation a :question;'',
     '' :text (\"Where is the switch located?\");'',
     indent 1 '':replyType :location.'',
     ''{'',
     indent 1 ''local:devicelocation :hasAnswer ?a'',
     ''} => {'',
     indent 1 ''local:switch :locatedAt  ?a.'',
     ''}.'',
     ''{'',
     indent 1 ''local:switch :locatedAt  ?a.'',
     ''} => {'',
     indent 1 ''local:devicelocation :hasAnswer ?a'',
     ''}.'',
     ''{'',
     indent 1 ''?state a st:State;'',
     indent 1 ''log:includes {local:switch :power :off}.'',
     indent 1 ''?url a local:url.'',
     indent 1 ''local:switch :locatedAt ?location.'',
     ''}'',
     ''=>'',
     ''{'',
     indent 1 ''_:request http:methodName \"PUT\";'',
     indent 1 ''http:requestURI (?url \"/status\");'',
     indent 1 ''http:reqBody \"1\".'',
     indent 1 ''[ a st:StateChange;'',
     indent 1 ''st:replaced { local:switch :power :on.  };'',
     indent 1 ''st:parent ?state ].'',
     ''}.'',
     ''{'',
     indent 1 ''?state a st:State;'',
     indent 1 ''log:includes {local:switch :power :on}.'',
     indent 1 ''?url a local:url.'',
     indent 1 ''local:switch :locatedAt ?location.'',
     ''}'',
     ''=>'',
     ''{'',
     indent 1 ''_:request http:methodName \"PUT\";'',
     indent 1 ''http:requestURI (?url \"/status\");'',
     indent 1 ''http:reqBody \"0\".'',
     indent 1 ''[ a st:StateChange;'',
     indent 1 ''st:replaced { local:switch :power :off. };'',
     indent 1 ''st:parent ?state ].'',
     ''}.'',
     ''{'',
     indent 1 ''local:switch :locatedAt ?location.'',
     indent 1 ''?state a st:State;'',
     indent 3 ''log:notIncludes {local:switch :power ?xx.}.'',
     indent 1 ''local:state :power ?powerstate.'',
     ''}=>{'',
     indent 1 ''[ a st:StateChange;'',
     indent 2 ''st:replaced {local:switch :power ?powerstate. };'',
     indent 2 ''st:parent ?state ].'',
     ''}.'',
     ''{'',
     indent 1 ''local:switch :locatedAt  ?a.'',
     ''} => {'',
     indent 1 ''?a :hasAction :switch.''] @ ''}.''"

definition SEMANTICS_SWITCH_STATUS_ON :: string where
  "SEMANTICS_SWITCH_STATUS_ON = text_lines
    [''# Switch (State)'',
     ''@prefix local: <local#>.'',
     ''@prefix : <ex#>.'',
     ''local:state :power :on.'']"

definition SEMANTICS_SWITCH_STATUS_OFF :: string where
  "SEMANTICS_SWITCH_STATUS_OFF = text_lines
    [''# Switch (State)'',
     ''@prefix local: <local#>.'',
     ''@prefix : <ex#>.'',
     ''local:state :power :off.'']"

definition led3_true :: string where "led3_true = ''{\"led3\": True}''"
definition led3_false :: string where "led3_false = ''{\"led3\": False}''"
definition rd_payload :: string where
  "rd_payload = ''</status>;obs;rt=\"switch\",</statedesc>;obs;rt=\"semantics\",</restdesc>;rt=\"semantics\"''"

text \<open>The static strings are in place; the buffer of the core listing has its 100 bytes.\<close>

definition statics_ok :: "heap \<Rightarrow> bool" where
  "statics_ok h \<longleftrightarrow> length (h OBJ_WELL_KNOWN_CORE) = 100 \<and> h OBJ_LED3_TRUE = c_string led3_true \<and>
     h OBJ_LED3_FALSE = c_string led3_false \<and> length (h OBJ_LED3_PLAIN) = 2 \<and>
     h OBJ_SEMANTICS = c_string SEMANTICS_SWITCH \<and> h OBJ_STATUS_ON = c_string SEMANTICS_SWITCH_STATUS_ON \<and>
     h OBJ_STATUS_OFF = c_string SEMANTICS_SWITCH_STATUS_OFF"

text \<open>\<open>strlen\<close> of a string in the byte store, and \<open>strcmp(..) == 0\<close> of two arrays.\<close>

definition heap_strlen :: "heap \<Rightarrow> ptr \<Rightarrow> fault + nat" where
  "heap_strlen h p =
     (case p of NULL \<Rightarrow> Inl NullDereference
      | Ptr b i \<Rightarrow> if i \<le> length (h b) then c_strlen (drop i (h b)) else Inl OutOfBoundsRead)"

fun c_streq :: "u8 list \<Rightarrow> u8 list \<Rightarrow> fault + bool" where
  "c_streq (a # as) (b # bs) = (if a \<noteq> b then Inr False else if a = 0 then Inr True else c_streq as bs)"
| "c_streq _ _ = Inl OutOfBoundsRead"

section \<open>LEDs\<close>

text \<open>The macros of \<^verbatim>\<open>boards.h\<close> on the output register; an LED is lit where its pin is low.\<close>

definition LED_ONE :: u32 where [c_consts]: "LED_ONE = 0x00200000"
definition LED_TWO :: u32 where [c_consts]: "LED_TWO = 0x00400000"
definition LED_THREE :: u32 where [c_consts]: "LED_THREE = 0x00800000"
definition LEDS_MASK :: u32 where [c_consts]: "LEDS_MASK = 0x01E00000"
definition LEDS_INV_MASK :: u32 where [c_consts]: "LEDS_INV_MASK = 0x01E00000"

definition LEDS_OFF :: "u32 \<Rightarrow> u32 \<Rightarrow> u32" where
  "LEDS_OFF leds gpio = (gpio OR (leds AND (LEDS_MASK AND LEDS_INV_MASK))) AND NOT (leds AND (LEDS_MASK AND NOT LEDS_INV_MASK))"

definition LEDS_ON :: "u32 \<Rightarrow> u32 \<Rightarrow> u32" where
  "LEDS_ON leds gpio = (gpio AND NOT (leds AND (LEDS_MASK AND LEDS_INV_MASK))) OR (leds AND (LEDS_MASK AND NOT LEDS_INV_MASK))"

definition LED_IS_ON :: "u32 \<Rightarrow> u32 \<Rightarrow> bool" where
  "LED_IS_ON leds gpio \<longleftrightarrow> leds AND (gpio XOR LEDS_INV_MASK) \<noteq> 0"

definition LEDS_INVERT :: "u32 \<Rightarrow> u32 \<Rightarrow> u32" where
  "LEDS_INVERT leds gpio = (gpio OR (leds AND NOT gpio)) AND NOT (leds AND gpio)"

definition led_upd :: "'w app_state \<Rightarrow> (u32 \<Rightarrow> u32) \<Rightarrow> 'w app_state" where
  "led_upd s f = app_upd s (\<lambda>a. a\<lparr>gpio_out := f (gpio_out a)\<rparr>)"

definition led3_is_on :: "'w app_state \<Rightarrow> bool" where
  "led3_is_on s = LED_IS_ON LED_THREE (gpio_out (world s))"

definition blink_timeout_handler :: "'w app_state \<Rightarrow> 'w app_state" where
  "blink_timeout_handler s =
     (case m_display_state (world s) of
        LEDS_INACTIVE \<Rightarrow> led_upd s (LEDS_OFF (LED_ONE OR LED_TWO))
      | LEDS_BLE_ADVERTISING \<Rightarrow> led_upd (led_upd s (LEDS_INVERT LED_ONE)) (LEDS_OFF LED_TWO)
      | LEDS_IPV6_IF_DOWN \<Rightarrow> led_upd (led_upd s (LEDS_ON LED_ONE)) (LEDS_INVERT LED_TWO)
      | LEDS_IPV6_IF_UP \<Rightarrow> led_upd (led_upd s (LEDS_OFF LED_ONE)) (LEDS_ON LED_TWO))"

section \<open>Messages of the application\<close>

definition APP_ERROR_CHECK :: "u32 \<Rightarrow> fault + unit" where
  "APP_ERROR_CHECK err_code = (if err_code = NRF_SUCCESS then Inr () else Inl (AppError err_code))"

definition opt_uint :: "'w app_state \<Rightarrow> coap_message_t \<Rightarrow> u16 \<Rightarrow> u32 \<Rightarrow> fault + coap_message_t \<times> 'w app_state" where
  "opt_uint s r num v =
     c_bind (coap_message_opt_uint_add (c_heap s) r num v) (\<lambda>(err_code, h, r').
     c_bind (APP_ERROR_CHECK err_code) (\<lambda>_. Inr (r', s\<lparr>c_heap := h\<rparr>)))"

definition payload_string :: "'w app_state \<Rightarrow> coap_message_t \<Rightarrow> ptr \<Rightarrow> fault + coap_message_t \<times> 'w app_state" where
  "payload_string s r str =
     c_bind (heap_strlen (c_heap s) str) (\<lambda>n.
     c_bind (coap_message_payload_set (c_heap s) r str (of_nat n)) (\<lambda>(err_code, h, r').
     c_bind (APP_ERROR_CHECK err_code) (\<lambda>_. Inr (r', s\<lparr>c_heap := h\<rparr>))))"

text \<open>The beginning and the end that the three resource callbacks share.\<close>

definition response_config :: "coap_message_t \<Rightarrow> u8 \<Rightarrow> fault + coap_message_conf_t" where
  "response_config p_request code =
     (let req = header p_request
      in c_bind (arr_read (token p_request) 0 (unat (hdr_token_len req))) (\<lambda>tok.
         c_bind (arr_write (replicate 8 0) 0 tok) (\<lambda>tok'.
         Inr (coap_message_conf_zero
               \<lparr>conf_type := (if hdr_type req = COAP_TYPE_NON then COAP_TYPE_NON
                              else if hdr_type req = COAP_TYPE_CON then COAP_TYPE_ACK else 0),
                conf_code := code, conf_id := hdr_id req, conf_token := tok', conf_token_len := hdr_token_len req\<rparr>))))"

definition response_new ::
  "'w app_state \<Rightarrow> coap_message_t \<Rightarrow> u8 \<Rightarrow> fault + (ptr \<times> coap_message_t) \<times> 'w app_state" where
  "response_new s p_request code =
     c_bind (response_config p_request code) (\<lambda>conf.
     c_bind (coap_message_new s conf) (\<lambda>(err_code, p_response, _, s1).
     c_bind (APP_ERROR_CHECK err_code) (\<lambda>_.
     case the p_response of (pr, r) \<Rightarrow>
     case coap_message_remote_addr_set r (remote p_request) of (err_code, r1) \<Rightarrow>
     c_bind (APP_ERROR_CHECK err_code) (\<lambda>_. Inr ((pr, r1), s1)))))"

definition response_send :: "'w app_env \<Rightarrow> 'w app_state \<Rightarrow> ptr \<times> coap_message_t \<Rightarrow> fault + 'w app_state" where
  "response_send E s p_response =
     c_bind (coap_message_send E s (Some 0) (Some (snd p_response))) (\<lambda>(err_code, _, s1).
     c_bind (APP_ERROR_CHECK err_code) (\<lambda>_.
     case coap_message_delete s1 p_response of (err_code, s2) \<Rightarrow>
     c_bind (APP_ERROR_CHECK err_code) (\<lambda>_. Inr s2)))"

definition set_code :: "coap_message_t \<Rightarrow> u8 \<Rightarrow> coap_message_t" where
  "set_code r code = r\<lparr>header := (header r)\<lparr>hdr_code := code\<rparr>\<rparr>"

section \<open>Notifications\<close>

definition COAP_CODE_POST :: u8 where [c_consts]: "COAP_CODE_POST = 2"
definition COAP_CODE_PUT :: u8 where [c_consts]: "COAP_CODE_PUT = 3"
definition COAP_CODE_DELETE :: u8 where [c_consts]: "COAP_CODE_DELETE = 4"
definition COAP_CODE_204_CHANGED :: u8 where [c_consts]: "COAP_CODE_204_CHANGED = 68"
definition COAP_CODE_400_BAD_REQUEST :: u8 where [c_consts]: "COAP_CODE_400_BAD_REQUEST = 128"
definition COAP_CODE_415_UNSUPPORTED_CONTENT_FORMAT :: u8 where [c_consts]: "COAP_CODE_415_UNSUPPORTED_CONTENT_FORMAT = 143"
definition COAP_OPT_URI_QUERY :: u16 where [c_consts]: "COAP_OPT_URI_QUERY = 15"
definition COAP_OPT_BLOCK2 :: u16 where [c_consts]: "COAP_OPT_BLOCK2 = 23"
definition COMMAND_OFF :: u8 where [c_consts]: "COMMAND_OFF = 0x30"
definition COMMAND_ON :: u8 where [c_consts]: "COMMAND_ON = 0x31"
definition COMMAND_TOGGLE :: u8 where [c_consts]: "COMMAND_TOGGLE = 0x32"

definition led_value_get :: "'w app_state \<Rightarrow> u32 \<Rightarrow> ptr \<times> 'w app_state" where
  "led_value_get s content_type =
     (if content_type = COAP_CT_APP_JSON
      then (Ptr (if led3_is_on s then OBJ_LED3_TRUE else OBJ_LED3_FALSE) 0, s)
      else (Ptr OBJ_LED3_PLAIN 0,
            s\<lparr>c_heap := (c_heap s)(OBJ_LED3_PLAIN := c_string (if led3_is_on s then ''1'' else ''0''))\<rparr>))"

text \<open>
  The answer to a confirmable notification. An observer that resets it or does not answer is removed;
  \<open>arg\<close> is the pointer to its entry when the notification was sent.
\<close>

definition observer_con_message_callback :: "'w app_state \<Rightarrow> u32 \<Rightarrow> nat option \<Rightarrow> fault + 'w app_state" where
  "observer_con_message_callback s status arg =
     (if status = COAP_TRANSMISSION_RESET_BY_PEER \<or> status = COAP_TRANSMISSION_TIMEOUT then
        case arg of
          None \<Rightarrow> Inl NullDereference
        | Some i \<Rightarrow>
          c_bind (arr_get (c_observers s) i) (\<lambda>ob.
          case internal_coap_observe_server_search (c_observers s) (Some 0) (Some (ob_remote ob)) (p_resource_of_interest ob) of
            (err_code, hnd) \<Rightarrow>
              c_bind (APP_ERROR_CHECK err_code) (\<lambda>_.
              case internal_coap_observe_server_unregister (c_observers s) (the hnd) of (err_code, obs) \<Rightarrow>
              c_bind (APP_ERROR_CHECK err_code) (\<lambda>_. Inr (s\<lparr>c_observers := obs\<rparr>))))
      else Inr s)"

text \<open>
  The two functions that notify the observers of a resource differ in the resource, the counter and
  the text. \<open>led3\<close> tells which it is.
\<close>

definition notified_resource :: "bool \<Rightarrow> nat" where
  "notified_resource led3 = (if led3 then R_LED3 else R_SEMANTIC_STS)"

definition sequence_next :: "bool \<Rightarrow> 'w app_state \<Rightarrow> u32 \<times> 'w app_state" where
  "sequence_next led3 s =
     (if led3
      then (m_observer_sequence_num (world s),
            app_upd s (\<lambda>a. a\<lparr>m_observer_sequence_num := m_observer_sequence_num a + 1\<rparr>))
      else (m_observer_sequence_num_statedesc (world s),
            app_upd s (\<lambda>a. a\<lparr>m_observer_sequence_num_statedesc := m_observer_sequence_num_statedesc a + 1\<rparr>)))"

definition status_text :: "'w app_state \<Rightarrow> ptr" where
  "status_text s = Ptr (if led3_is_on s then OBJ_STATUS_ON else OBJ_STATUS_OFF) 0"

definition notification_text :: "bool \<Rightarrow> 'w app_state \<Rightarrow> u32 \<Rightarrow> ptr \<times> 'w app_state" where
  "notification_text led3 s ct = (if led3 then led_value_get s ct else (status_text s, s))"

definition notification_config :: "coap_observer_t \<Rightarrow> u8 \<Rightarrow> fault + coap_message_conf_t" where
  "notification_config ob type =
     c_bind (arr_read (ob_token ob) 0 (unat (ob_token_len ob))) (\<lambda>tok.
     c_bind (arr_write (replicate 8 0) 0 tok) (\<lambda>tok'.
     Inr (coap_message_conf_zero
           \<lparr>conf_type := type, conf_code := COAP_CODE_205_CONTENT, conf_response_callback := Some CB_OBSERVER_CON,
            conf_token := tok', conf_token_len := ob_token_len ob, conf_port := \<lparr>port_number = COAP_SERVER_PORT\<rparr>\<rparr>)))"

text \<open>One turn of the loop, for the observer at index \<open>i\<close>.\<close>

definition notify_observer :: "'w app_env \<Rightarrow> bool \<Rightarrow> u8 \<Rightarrow> 'w app_state \<Rightarrow> nat \<Rightarrow> fault + 'w app_state" where
  "notify_observer E led3 type s i =
     c_bind (arr_get (c_observers s) i) (\<lambda>ob.
     c_bind (notification_config ob type) (\<lambda>conf.
     c_bind (coap_message_new s conf) (\<lambda>(err_code, p_response, _, s1).
     c_bind (APP_ERROR_CHECK err_code) (\<lambda>_.
     case the p_response of (pr, r0) \<Rightarrow>
     let r = r0\<lparr>p_arg := Some i\<rparr>
     in case coap_message_remote_addr_set r (ob_remote ob) of (err_code, r1) \<Rightarrow>
        c_bind (APP_ERROR_CHECK err_code) (\<lambda>_.
        case sequence_next led3 s1 of (n, s2) \<Rightarrow>
        c_bind (opt_uint s2 r1 COAP_OPT_OBSERVE n) (\<lambda>(r2, s3).
        c_bind (opt_uint s3 r2 COAP_OPT_MAX_AGE (expire_time (res_at (c_resources s3) (notified_resource led3)))) (\<lambda>(r3, s4).
        case notification_text led3 s4 (ob_ct ob) of (str, s5) \<Rightarrow>
        c_bind (payload_string s5 r3 str) (\<lambda>(r4, s6).
        response_send E s6 (pr, r4)))))))))"

text \<open>The loop ends after at most one turn for each element of the table; \<open>fuel\<close> bounds the turns.\<close>

fun notify_loop :: "nat \<Rightarrow> 'w app_env \<Rightarrow> bool \<Rightarrow> u8 \<Rightarrow> 'w app_state \<Rightarrow> nat option \<Rightarrow> fault + 'w app_state" where
  "notify_loop 0 E led3 type s p_observer = Inl Diverges"
| "notify_loop (Suc fuel) E led3 type s p_observer =
     (case internal_coap_observe_server_next_get (c_observers s) (Some p_observer) p_observer (Some (notified_resource led3)) of
        (err_code, pp) \<Rightarrow>
          if err_code = NRF_SUCCESS
          then c_bind (notify_observer E led3 type s (the (the pp))) (\<lambda>s1. notify_loop fuel E led3 type s1 (the pp))
          else Inr s)"

definition notify_all_semantic_sts_subscribers :: "'w app_env \<Rightarrow> 'w app_state \<Rightarrow> u8 \<Rightarrow> fault + 'w app_state" where
  "notify_all_semantic_sts_subscribers E s type = notify_loop (Suc (length (c_observers s))) E False type s None"

definition notify_all_led3_subscribers :: "'w app_env \<Rightarrow> 'w app_state \<Rightarrow> u8 \<Rightarrow> fault + 'w app_state" where
  "notify_all_led3_subscribers E s type = notify_loop (Suc (length (c_observers s))) E True type s None"

definition notify_both :: "'w app_env \<Rightarrow> 'w app_state \<Rightarrow> fault + 'w app_state" where
  "notify_both E s =
     c_bind (notify_all_led3_subscribers E s COAP_TYPE_NON) (\<lambda>s1. notify_all_semantic_sts_subscribers E s1 COAP_TYPE_NON)"

section \<open>Observing a resource\<close>

definition observe_value :: "'w app_state \<Rightarrow> coap_message_t \<Rightarrow> fault + u32" where
  "observe_value s p_request =
     c_bind (option_search (options p_request) COAP_OPT_OBSERVE [0..<unat (options_count p_request)]) (\<lambda>r.
     case r of
       None \<Rightarrow> Inr 0
     | Some op \<Rightarrow>
       c_bind (coap_opt_uint_decode (c_heap s) (Some 0) (opt_length op) (opt_data op)) (\<lambda>(err_code, v).
       c_bind (APP_ERROR_CHECK err_code) (\<lambda>_. Inr (the v))))"

definition new_observer :: "stack_junk \<Rightarrow> nat \<Rightarrow> coap_message_t \<Rightarrow> u32 \<Rightarrow> fault + coap_observer_t" where
  "new_observer J r p_request ct =
     c_bind (arr_read (token p_request) 0 (unat (hdr_token_len (header p_request)))) (\<lambda>tok.
     c_bind (arr_write (ob_token (junk_observer J)) 0 tok) (\<lambda>tok'.
     Inr \<lparr>ob_remote = remote p_request, ob_token = tok', ob_token_len = hdr_token_len (header p_request), ob_ct = ct,
          p_resource_of_interest = Some r\<rparr>))"

text \<open>A registration that fails is not an error: the request is answered as one without the option.\<close>

definition handle_observe ::
  "stack_junk \<Rightarrow> bool \<Rightarrow> 'w app_state \<Rightarrow> nat \<Rightarrow> coap_message_t \<Rightarrow> u32 \<Rightarrow> coap_message_t \<Rightarrow> fault + coap_message_t \<times> 'w app_state" where
  "handle_observe J led3 s r p_request ct p_response =
     c_bind (observe_value s p_request) (\<lambda>observe_option.
     if observe_option = 0 then
       c_bind (new_observer J r p_request ct) (\<lambda>observer.
       c_bind (internal_coap_observe_server_register (c_observers s) (Some 0) (Some observer)) (\<lambda>(err_code, hnd, obs).
       let s1 = s\<lparr>c_observers := obs\<rparr>
       in if err_code = NRF_SUCCESS then
            case sequence_next led3 s1 of (n, s2) \<Rightarrow>
            c_bind (opt_uint s2 p_response COAP_OPT_OBSERVE n) (\<lambda>(r1, s3).
            opt_uint s3 r1 COAP_OPT_MAX_AGE (expire_time (res_at (c_resources s3) r)))
          else Inr (p_response, s1)))
     else
       case internal_coap_observe_server_search (c_observers s) (Some 0) (Some (remote p_request)) (Some r) of (err_code, hnd) \<Rightarrow>
       if err_code = NRF_SUCCESS then
         case internal_coap_observe_server_unregister (c_observers s) (the hnd) of (err_code, obs) \<Rightarrow>
         c_bind (APP_ERROR_CHECK err_code) (\<lambda>_. Inr (p_response, s\<lparr>c_observers := obs\<rparr>))
       else Inr (p_response, s))"

text \<open>The beginning of a GET request, up to the payload: \<open>None\<close> where no content format fits.\<close>

definition get_request ::
  "stack_junk \<Rightarrow> bool \<Rightarrow> 'w app_state \<Rightarrow> nat \<Rightarrow> coap_message_t \<Rightarrow> coap_message_t \<Rightarrow>
   fault + u32 option \<times> coap_message_t \<times> 'w app_state" where
  "get_request J led3 s r p_request p_response =
     (let r1 = set_code p_response COAP_CODE_205_CONTENT
      in c_bind (coap_message_ct_match_select (c_heap s) (junk_ct J) (Some p_request) (ct_support_mask (res_at (c_resources s) r)))
           (\<lambda>(err_code, ct_to_use).
         if err_code \<noteq> NRF_SUCCESS then
           let r2 = set_code r1 COAP_CODE_415_UNSUPPORTED_CONTENT_FORMAT
           in Inr (None, r2\<lparr>header := (header r2)\<lparr>hdr_type := COAP_TYPE_RST\<rparr>\<rparr>, s)
         else
           c_bind (coap_message_opt_present (Some p_request) COAP_OPT_OBSERVE) (\<lambda>present.
           c_bind (if present = NRF_SUCCESS then handle_observe J led3 s r p_request ct_to_use r1 else Inr (r1, s)) (\<lambda>(r2, s1).
           Inr (Some ct_to_use, r2, s1)))))"

section \<open>The LED resource\<close>

definition led3_request ::
  "stack_junk \<Rightarrow> 'w app_state \<Rightarrow> nat \<Rightarrow> coap_message_t \<Rightarrow> coap_message_t \<Rightarrow> fault + coap_message_t \<times> 'w app_state" where
  "led3_request J s r p_request p_response =
     (if hdr_code (header p_request) = COAP_CODE_GET then
        c_bind (get_request J True s r p_request p_response) (\<lambda>(ct, r1, s1).
        case ct of
          None \<Rightarrow> Inr (r1, s1)
        | Some ct_to_use \<Rightarrow> (case led_value_get s1 ct_to_use of (str, s2) \<Rightarrow> payload_string s2 r1 str))
      else if hdr_code (header p_request) = COAP_CODE_PUT then
        let r1 = set_code p_response COAP_CODE_204_CHANGED
        in c_bind (load (c_heap s) (p_payload p_request) 0) (\<lambda>command.
           Inr (if command = COMMAND_ON then (r1, led_upd s (LEDS_ON LED_THREE))
                else if command = COMMAND_OFF then (r1, led_upd s (LEDS_OFF LED_THREE))
                else if command = COMMAND_TOGGLE then (r1, led_upd s (LEDS_INVERT LED_THREE))
                else (set_code r1 COAP_CODE_400_BAD_REQUEST, s)))
      else Inr (set_code p_response COAP_CODE_405_METHOD_NOT_ALLOWED, s))"

definition led3_callback :: "'w app_env \<Rightarrow> stack_junk \<Rightarrow> 'w app_state \<Rightarrow> nat \<Rightarrow> coap_message_t \<Rightarrow> fault + 'w app_state" where
  "led3_callback E J s r p_request =
     c_bind (response_new s p_request COAP_CODE_405_METHOD_NOT_ALLOWED) (\<lambda>((pr, p_response), s1).
     c_bind (led3_request J s1 r p_request p_response) (\<lambda>(r1, s2).
     c_bind (response_send E s2 (pr, r1)) (\<lambda>s3.
     if hdr_code (header p_request) = COAP_CODE_PUT then notify_both E s3 else Inr s3)))"

section \<open>Block-wise transfer\<close>

function log_loop :: "u16 \<Rightarrow> u16 \<Rightarrow> u16" where
  "log_loop v result =
     (let v1 = drop_bit 1 v; r1 = result + 1 in if v1 \<noteq> 0 then log_loop v1 r1 else r1)"
  by pat_completeness auto
termination
proof (relation "measure (\<lambda>(v, _). unat v)", goal_cases)
  case (2 v result v1 r1)
  then have "unat v1 = unat v div 2" using unat_drop_bit_eq [of 1 v] by (simp add: drop_bit_eq_div)
  moreover have "unat v1 \<noteq> 0" using 2 by (simp add: unat_eq_0)
  ultimately have "unat v1 < unat v" by linarith
  then show ?case by simp
qed simp

declare log_loop.simps [simp del]

definition coap_log_2 :: "u16 \<Rightarrow> u16" where
  "coap_log_2 v = (let result = log_loop v 0 in if result \<noteq> 0 then result - 1 else result)"

definition coap_szx_to_size :: "u8 \<Rightarrow> nat" where
  "coap_szx_to_size szx = fold (\<lambda>_ size. size * 2) [0..<unat szx] 16"

fun be_value :: "u32 \<Rightarrow> u8 list \<Rightarrow> u32" where
  "be_value block2 [] = block2"
| "be_value block2 (b # bs) = be_value (push_bit 8 block2 OR ucast b) bs"

text \<open>The number and the size of the block that is asked for.\<close>

definition block2_request :: "heap \<Rightarrow> coap_message_t \<Rightarrow> fault + u32 \<times> nat" where
  "block2_request h p_request =
     c_bind (option_search (options p_request) COAP_OPT_BLOCK2 [0..<unat (options_count p_request)]) (\<lambda>r.
     case r of
       None \<Rightarrow> Inr (0, 64)
     | Some op \<Rightarrow>
       c_bind (load_bytes h (opt_data op) (unat (opt_length op))) (\<lambda>bs.
       let block2 = be_value 0 bs; size = coap_szx_to_size (ucast (block2 AND 0x07))
       in Inr (drop_bit 4 block2, if size > 64 then 64 else size)))"

fun c_strncpy :: "u8 list \<Rightarrow> nat \<Rightarrow> fault + u8 list" where
  "c_strncpy s 0 = Inr []"
| "c_strncpy [] (Suc n) = Inl OutOfBoundsRead"
| "c_strncpy (b # bs) (Suc n) = (if b = 0 then Inr (replicate (Suc n) 0) else c_bind (c_strncpy bs n) (\<lambda>r. Inr (b # r)))"

definition heap_strncpy :: "heap \<Rightarrow> ptr \<Rightarrow> nat \<Rightarrow> fault + u8 list" where
  "heap_strncpy h p n =
     (case p of NULL \<Rightarrow> Inl NullDereference
      | Ptr b i \<Rightarrow> if i \<le> length (h b) then c_strncpy (drop i (h b)) n else Inl OutOfBoundsRead)"

text \<open>
  The block of a text is copied to an array of the size of the block, behind which lies the rest of the
  stack. The array has no terminating zero where the block fills it.
\<close>

definition block2_reply ::
  "stack_junk \<Rightarrow> 'w app_state \<Rightarrow> coap_message_t \<Rightarrow> coap_message_t \<Rightarrow> ptr \<Rightarrow> fault + coap_message_t \<times> 'w app_state" where
  "block2_reply J s p_request p_response payload_str =
     c_bind (block2_request (c_heap s) p_request) (\<lambda>(num, size).
     let offset = num * of_nat size
     in c_bind (heap_strlen (c_heap s) payload_str) (\<lambda>payload_len.
        let more = (if offset + of_nat size < (of_nat payload_len :: u32) then 1 else 0) :: u32
        in c_bind (heap_strncpy (c_heap s) (ptr_add payload_str (unat offset)) size) (\<lambda>part.
           let s1 = s\<lparr>c_heap := (c_heap s)(OBJ_RESPONSE_PART := part @ junk_stack J)\<rparr>;
               block2 = push_bit 4 num OR push_bit 3 more OR (ucast (coap_log_2 (of_nat (size div 16))) AND 0x07)
           in c_bind (opt_uint s1 p_response COAP_OPT_BLOCK2 block2) (\<lambda>(r1, s2).
              payload_string s2 r1 (Ptr OBJ_RESPONSE_PART 0)))))"

definition restdesc_name :: string where "restdesc_name = ''restdesc''"

definition semantics_request ::
  "stack_junk \<Rightarrow> 'w app_state \<Rightarrow> nat \<Rightarrow> coap_message_t \<Rightarrow> coap_message_t \<Rightarrow> fault + coap_message_t \<times> 'w app_state" where
  "semantics_request J s r p_request p_response =
     (if hdr_code (header p_request) = COAP_CODE_GET then
        c_bind (get_request J False s r p_request p_response) (\<lambda>(ct, r1, s1).
        case ct of
          None \<Rightarrow> Inr (r1, s1)
        | Some ct_to_use \<Rightarrow>
          c_bind (c_streq (res_name (res_at (c_resources s1) r)) (c_string restdesc_name)) (\<lambda>eq.
          block2_reply J s1 p_request r1 (if eq then Ptr OBJ_SEMANTICS 0 else status_text s1)))
      else Inr (set_code p_response COAP_CODE_405_METHOD_NOT_ALLOWED, s))"

definition semantics_callback :: "'w app_env \<Rightarrow> stack_junk \<Rightarrow> 'w app_state \<Rightarrow> nat \<Rightarrow> coap_message_t \<Rightarrow> fault + 'w app_state" where
  "semantics_callback E J s r p_request =
     c_bind (response_new s p_request COAP_CODE_405_METHOD_NOT_ALLOWED) (\<lambda>((pr, p_response), s1).
     c_bind (semantics_request J s1 r p_request p_response) (\<lambda>(r1, s2).
     response_send E s2 (pr, r1)))"

section \<open>The core listing\<close>

definition well_known_core_callback :: "'w app_env \<Rightarrow> 'w app_state \<Rightarrow> coap_message_t \<Rightarrow> fault + 'w app_state" where
  "well_known_core_callback E s p_request =
     c_bind (response_new s p_request COAP_CODE_205_CONTENT) (\<lambda>((pr, p_response), s1).
     c_bind (opt_uint s1 (p_response\<lparr>remote := remote p_request\<rparr>) COAP_OPT_CONTENT_FORMAT COAP_CT_APP_LINK_FORMAT) (\<lambda>(r1, s2).
     c_bind (payload_string s2 r1 (Ptr OBJ_WELL_KNOWN_CORE 0)) (\<lambda>(r2, s3).
     response_send E s3 (pr, r2))))"

section \<open>The callbacks as the environment of the CoAP module\<close>

definition coap_response_handler :: "u32 \<Rightarrow> coap_message_t option \<Rightarrow> 'w app_state \<Rightarrow> fault + 'w app_state" where
  "coap_response_handler status p_response s =
     (if status = NRF_SUCCESS \<and> p_response = None then Inl NullDereference else Inr s)"

definition coap_error_handler :: "u32 \<Rightarrow> coap_message_t option \<Rightarrow> 'w app_state \<Rightarrow> fault + 'w app_state" where
  "coap_error_handler error_code p_message s = Inr s"

text \<open>\<open>E\<close> contributes the transport and the contents of the stack.\<close>

definition switch_env :: "'w app_env \<Rightarrow> stack_junk \<Rightarrow> 'w app_env" where
  "switch_env E J = E\<lparr>
     env_method := (\<lambda>cb r m s.
       if cb = CB_WELL_KNOWN_CORE then well_known_core_callback E s m
       else if cb = CB_LED3 then led3_callback E J s r m
       else if cb = CB_SEMANTICS then semantics_callback E J s r m
       else env_method E cb r m s),
     env_response := (\<lambda>cb status arg m s.
       if cb = CB_OBSERVER_CON then observer_con_message_callback s status arg
       else if cb = CB_RESPONSE then coap_response_handler status m s
       else env_response E cb status arg m s),
     env_error := (\<lambda>cb e m s. if cb = CB_ERROR then coap_error_handler e m s else env_error E cb e m s)\<rparr>"

section \<open>Resources\<close>

definition create_checked :: "coap_resources \<Rightarrow> nat \<Rightarrow> string \<Rightarrow> fault + coap_resources" where
  "create_checked rs r name =
     c_bind (coap_resource_create rs (Some r) (Some (c_string name))) (\<lambda>(err_code, rs1).
     c_bind (APP_ERROR_CHECK err_code) (\<lambda>_. Inr rs1))"

definition child_checked :: "coap_resources \<Rightarrow> nat \<Rightarrow> nat \<Rightarrow> fault + coap_resources" where
  "child_checked rs parent child =
     c_bind (coap_resource_child_add rs (Some parent) (Some child)) (\<lambda>(err_code, rs1).
     c_bind (APP_ERROR_CHECK err_code) (\<lambda>_. Inr rs1))"

definition res_upd :: "coap_resources \<Rightarrow> nat \<Rightarrow> (coap_resource_t \<Rightarrow> coap_resource_t) \<Rightarrow> coap_resources" where
  "res_upd rs r f = rs\<lparr>res_at := (res_at rs)(r := f (res_at rs r))\<rparr>"

definition resource_tree :: "coap_resources \<Rightarrow> fault + coap_resources" where
  "resource_tree rs =
     c_bind (create_checked rs R_ROOT ''/'') (\<lambda>rs.
     c_bind (create_checked rs R_WELL_KNOWN ''.well-known'') (\<lambda>rs.
     c_bind (child_checked rs R_ROOT R_WELL_KNOWN) (\<lambda>rs.
     c_bind (create_checked rs R_CORE ''core'') (\<lambda>rs.
     let rs = res_upd rs R_CORE (\<lambda>r. r\<lparr>permission := COAP_PERM_GET, res_callback := Some CB_WELL_KNOWN_CORE\<rparr>)
     in c_bind (child_checked rs R_WELL_KNOWN R_CORE) (\<lambda>rs.
     c_bind (create_checked rs R_LED3 ''status'') (\<lambda>rs.
     let rs = res_upd rs R_LED3 (\<lambda>r. r\<lparr>permission := COAP_PERM_GET OR COAP_PERM_PUT OR COAP_PERM_OBSERVE,
                res_callback := Some CB_LED3, ct_support_mask := COAP_CT_MASK_APP_JSON OR COAP_CT_MASK_PLAIN_TEXT, max_age := 15\<rparr>)
     in c_bind (child_checked rs R_ROOT R_LED3) (\<lambda>rs.
     c_bind (create_checked rs R_SEMANTICS_SWITCH restdesc_name) (\<lambda>rs.
     let rs = res_upd rs R_SEMANTICS_SWITCH (\<lambda>r. r\<lparr>permission := COAP_PERM_GET,
                res_callback := Some CB_SEMANTICS, ct_support_mask := COAP_CT_MASK_PLAIN_TEXT\<rparr>)
     in c_bind (child_checked rs R_ROOT R_SEMANTICS_SWITCH) (\<lambda>rs.
     c_bind (create_checked rs R_SEMANTIC_STS ''statedesc'') (\<lambda>rs.
     let rs = res_upd rs R_SEMANTIC_STS (\<lambda>r. r\<lparr>permission := COAP_PERM_GET OR COAP_PERM_OBSERVE,
                res_callback := Some CB_SEMANTICS, ct_support_mask := COAP_CT_MASK_PLAIN_TEXT, max_age := 15\<rparr>)
     in child_checked rs R_ROOT R_SEMANTIC_STS))))))))))"

definition coap_endpoints_init :: "nat \<Rightarrow> 'w app_state \<Rightarrow> fault + 'w app_state" where
  "coap_endpoints_init fuel s =
     c_bind (resource_tree (c_resources s)) (\<lambda>rs.
     c_bind (coap_resource_well_known_generate fuel rs (Some (c_heap s OBJ_WELL_KNOWN_CORE)) (Some 100)) (\<lambda>(err_code, str, _, rs1).
     c_bind (APP_ERROR_CHECK err_code) (\<lambda>_.
     Inr (s\<lparr>c_resources := rs1, c_heap := (c_heap s)(OBJ_WELL_KNOWN_CORE := the str)\<rparr>))))"

text \<open>The part of \<open>main\<close> that sets up the CoAP module.\<close>

definition coap_setup :: "'w app_env \<Rightarrow> nat \<Rightarrow> 'w app_state \<Rightarrow> fault + 'w app_state" where
  "coap_setup E fuel s =
     (case coap_init E s 17 of (err_code, s1) \<Rightarrow>
      c_bind (APP_ERROR_CHECK err_code) (\<lambda>_.
      case coap_error_handler_register s1 (Some CB_ERROR) of (err_code, s2) \<Rightarrow>
      c_bind (APP_ERROR_CHECK err_code) (\<lambda>_. coap_endpoints_init fuel s2)))"

section \<open>The resource directory\<close>

datatype RD_MESSAGE_KIND = REGISTER | DELETE

text \<open>The address of the server, from \<open>SERVER_IPV6_ADDRESS\<close>.\<close>

definition rd_server :: coap_remote_t where
  "rd_server = \<lparr>coap_remote_t.remote_addr = [0x20, 0x01, 0x04, 0x70, 0xCA, 0xFE, 0, 0, 0, 0, 0, 0, 0x38, 0xB2, 0xCF, 0x50],
     remote_port_number = 5683\<rparr>"

definition rd_config :: "stack_junk \<Rightarrow> RD_MESSAGE_KIND \<Rightarrow> u16 \<Rightarrow> fault + coap_message_conf_t" where
  "rd_config J kind v =
     c_bind (arr_write (conf_token (junk_conf J)) 0 [u16_lo v, u16_hi v]) (\<lambda>tok.
     Inr ((junk_conf J)\<lparr>conf_type := COAP_TYPE_CON,
            conf_code := (case kind of REGISTER \<Rightarrow> COAP_CODE_POST | DELETE \<Rightarrow> COAP_CODE_DELETE),
            conf_id := 0, conf_token := tok, conf_token_len := 2, conf_response_callback := Some CB_RESPONSE\<rparr>))"

definition opt_str :: "'w app_state \<Rightarrow> coap_message_t \<Rightarrow> u16 \<Rightarrow> ptr \<Rightarrow> fault + coap_message_t \<times> 'w app_state" where
  "opt_str s r num str =
     c_bind (heap_strlen (c_heap s) str) (\<lambda>n.
     c_bind (coap_message_opt_str_add (c_heap s) r num str (of_nat n)) (\<lambda>(err_code, h, r').
     c_bind (APP_ERROR_CHECK err_code) (\<lambda>_. Inr (r', s\<lparr>c_heap := h\<rparr>))))"

definition rd_payload_set :: "'w app_state \<Rightarrow> coap_message_t \<Rightarrow> fault + coap_message_t \<times> 'w app_state" where
  "rd_payload_set s r =
     c_bind (coap_message_payload_set (c_heap s) r (Ptr OBJ_RD_PAYLOAD 0) (of_nat (length rd_payload))) (\<lambda>(err_code, h, r').
     c_bind (APP_ERROR_CHECK err_code) (\<lambda>_. Inr (r', s\<lparr>c_heap := h\<rparr>)))"

text \<open>The local strings of \<open>send_rd_message\<close>. A message that cannot be sent is skipped.\<close>

definition rd_locals :: "heap \<Rightarrow> heap" where
  "rd_locals h = h(OBJ_URI_RD := c_string ''rd'', OBJ_URI_EP := c_string ''ep=SWITCH1'', OBJ_RD_PAYLOAD := c_string rd_payload)"

definition send_rd_message :: "'w app_env \<Rightarrow> stack_junk \<Rightarrow> 'w app_state \<Rightarrow> RD_MESSAGE_KIND \<Rightarrow> fault + 'w app_state" where
  "send_rd_message E J s kind =
     (if mp_interface (world s) = None then Inr s
      else
        let count = m_global_token_count (world s)
        in c_bind (rd_config J kind (HTONS count)) (\<lambda>conf.
           let s0 = (app_upd s (\<lambda>a. a\<lparr>m_global_token_count := count + 1\<rparr>))\<lparr>c_heap := rd_locals (c_heap s)\<rparr>
           in c_bind (coap_message_new s0 conf) (\<lambda>(err_code, p_request, _, s1).
              c_bind (APP_ERROR_CHECK err_code) (\<lambda>_.
              case the p_request of (pr, r0) \<Rightarrow>
              case coap_message_remote_addr_set r0 rd_server of (err_code, r) \<Rightarrow>
              c_bind (APP_ERROR_CHECK err_code) (\<lambda>_.
              c_bind (opt_str s1 r COAP_OPT_URI_PATH (Ptr OBJ_URI_RD 0)) (\<lambda>(r1, s2).
              c_bind (case kind of
                        REGISTER \<Rightarrow>
                          c_bind (opt_str s2 r1 COAP_OPT_URI_QUERY (Ptr OBJ_URI_EP 0)) (\<lambda>(r2, s3). rd_payload_set s3 r2)
                      | DELETE \<Rightarrow> opt_str s2 r1 COAP_OPT_URI_PATH (Ptr OBJ_URI_EP 3)) (\<lambda>(r3, s4).
              c_bind (coap_message_send E s4 (Some 0) (Some r3)) (\<lambda>(_, _, s5).
              case coap_message_delete s5 (pr, r3) of (err_code, s6) \<Rightarrow>
              c_bind (APP_ERROR_CHECK err_code) (\<lambda>_. Inr s6)))))))))"

section \<open>Buttons and ticks\<close>

definition APP_BUTTON_PUSH :: u8 where [c_consts]: "APP_BUTTON_PUSH = 1"
definition BUTTON_ONE :: u8 where [c_consts]: "BUTTON_ONE = 17"
definition BUTTON_TWO :: u8 where [c_consts]: "BUTTON_TWO = 18"
definition BUTTON_FOUR :: u8 where [c_consts]: "BUTTON_FOUR = 20"

definition button_event_handler :: "'w app_env \<Rightarrow> stack_junk \<Rightarrow> 'w app_state \<Rightarrow> u8 \<Rightarrow> u8 \<Rightarrow> fault + 'w app_state" where
  "button_event_handler E J s pin_no button_action =
     (if button_action = APP_BUTTON_PUSH then
        if pin_no = BUTTON_ONE then send_rd_message E J s DELETE
        else if pin_no = BUTTON_TWO then send_rd_message E J s REGISTER
        else if pin_no = BUTTON_FOUR then notify_both E (led_upd s (LEDS_INVERT LED_THREE))
        else Inr s
      else Inr s)"

text \<open>The hold time of the motion sensor, which is never started where \<open>FUNCTIONALITY\<close> is 1.\<close>

definition pir_tick :: "'w app_env \<Rightarrow> 'w app_state \<Rightarrow> fault + 'w app_state" where
  "pir_tick E s =
     (if m_person_sensed (world s) = 1 then
        if m_pir_timer (world s) > 0 then Inr (app_upd s (\<lambda>a. a\<lparr>m_pir_timer := m_pir_timer a - 1\<rparr>))
        else notify_both E (app_upd (led_upd s (LEDS_OFF LED_THREE)) (\<lambda>a. a\<lparr>m_person_sensed := 0\<rparr>))
      else Inr s)"

definition OBSERVE_NOTIFY_DELTA_MAX_AGE :: u32 where [c_consts]: "OBSERVE_NOTIFY_DELTA_MAX_AGE = 2"

text \<open>Every fourth of the periodic notifications is confirmable.\<close>

definition periodic_type :: "u32 \<Rightarrow> u8" where
  "periodic_type n = (if n mod 4 = 0 then COAP_TYPE_CON else COAP_TYPE_NON)"

definition expire_set :: "'w app_state \<Rightarrow> nat \<Rightarrow> u32 \<Rightarrow> 'w app_state" where
  "expire_set s r t = s\<lparr>c_resources := res_upd (c_resources s) r (\<lambda>x. x\<lparr>expire_time := t\<rparr>)\<rparr>"

definition led3_tick :: "'w app_env \<Rightarrow> 'w app_state \<Rightarrow> fault + 'w app_state" where
  "led3_tick E s =
     (let r = res_at (c_resources s) R_LED3
      in if expire_time r \<le> OBSERVE_NOTIFY_DELTA_MAX_AGE then
           c_bind (notify_all_led3_subscribers E (expire_set s R_LED3 (max_age r)) (periodic_type (msg_count (world s)))) (\<lambda>s1.
           Inr (app_upd s1 (\<lambda>a. a\<lparr>msg_count := msg_count a + 1\<rparr>)))
         else Inr (expire_set s R_LED3 (expire_time r - 1)))"

definition semantic_sts_tick :: "'w app_env \<Rightarrow> 'w app_state \<Rightarrow> fault + 'w app_state" where
  "semantic_sts_tick E s =
     (let r = res_at (c_resources s) R_SEMANTIC_STS
      in if expire_time r \<le> OBSERVE_NOTIFY_DELTA_MAX_AGE then
           c_bind (notify_all_semantic_sts_subscribers E (expire_set s R_SEMANTIC_STS (max_age r))
                     (periodic_type (msg_count_2 (world s)))) (\<lambda>s1.
           Inr (app_upd s1 (\<lambda>a. a\<lparr>msg_count_2 := msg_count_2 a + 1\<rparr>)))
         else Inr (expire_set s R_SEMANTIC_STS (expire_time r - 1)))"

definition app_coap_time_tick :: "'w app_env \<Rightarrow> stack_junk \<Rightarrow> 'w app_state \<Rightarrow> fault + 'w app_state" where
  "app_coap_time_tick E J s =
     c_bind (coap_time_tick (switch_env E J) s) (\<lambda>(_, s1).
     c_bind (pir_tick E s1) (\<lambda>s2. c_bind (led3_tick E s2) (semantic_sts_tick E)))"

end
