(* ===== verification/Coap_Exchange.thy ===== *)
theory Coap_Exchange
  imports Coap_Core Coap_Codec
begin

text \<open>
  Sending a message, \<open>internal_coap_message_send\<close> of \<^verbatim>\<open>coap.c\<close>: the invariant of the module's state
  (memory pools, byte store, queue and the buffers of the pending messages), what a call does to it
  on every branch, and the relation between the states before and after a call on which the code
  relies when it calls back into the application.
\<close>

section \<open>Blocks\<close>

text \<open>The memory manager with the block at index \<open>i\<close> marked free or used.\<close>

definition mem_mark :: "mem_manager \<Rightarrow> nat \<Rightarrow> bool \<Rightarrow> mem_manager" where
  "mem_mark mm i f = mm\<lparr>m_mem_pool := (m_mem_pool mm)[i := (m_mem_pool mm ! i)\<lparr>is_free := f\<rparr>]\<rparr>"

abbreviation block_ptr :: "nat \<Rightarrow> ptr" where
  "block_ptr i \<equiv> Ptr (block_offset i) 0"

lemma mem_mark_inv: "pool_inv mm \<Longrightarrow> pool_inv (mem_mark mm i f)"
  unfolding mem_mark_def by (rule pool_inv_set_free)

lemma live_block_iff:
  "pool_inv mm \<Longrightarrow> i < TOTAL_BLOCK_COUNT \<Longrightarrow> block_ptr i \<in> mm_live mm \<longleftrightarrow> \<not> is_free (m_mem_pool mm ! i)"
  by (auto simp: mm_live_iff pool_inv_def block_offset_inj)

lemma mem_mark_live:
  assumes "pool_inv mm" "i < TOTAL_BLOCK_COUNT"
  shows "mm_live (mem_mark mm i f) = (if f then mm_live mm - {block_ptr i} else insert (block_ptr i) (mm_live mm))"
proof (rule set_eqI)
  fix q
  have len: "length (m_mem_pool mm) = TOTAL_BLOCK_COUNT" and
    p: "\<And>j. j < TOTAL_BLOCK_COUNT \<Longrightarrow> p_block (m_mem_pool mm ! j) = block_ptr j"
    using assms(1) by (auto simp: pool_inv_def)
  show "q \<in> mm_live (mem_mark mm i f) \<longleftrightarrow>
      q \<in> (if f then mm_live mm - {block_ptr i} else insert (block_ptr i) (mm_live mm))"
    using assms(2) len p block_offset_inj
    by (auto simp: mm_live_iff mem_mark_def nth_list_update split: if_splits)
qed

lemma mem_mark_undo: "is_free (m_mem_pool mm ! i) = f \<Longrightarrow> mem_mark (mem_mark mm i g) i f = mm"
  by (cases "i < length (m_mem_pool mm)") (simp_all add: mem_mark_def list_update_same_conv list_update_beyond)

lemma mem_free_block:
  assumes "pool_inv mm" "i < TOTAL_BLOCK_COUNT"
  shows "nrf51_sdk_mem_free mm (block_ptr i) = (NRF_SUCCESS, mem_mark mm i True)"
proof -
  obtain e mm' where f: "nrf51_sdk_mem_free mm (block_ptr i) = (e, mm')" by force
  with assms(1) show ?thesis
  proof (cases rule: mem_free_cases)
    case (ok j)
    then show ?thesis using assms(2) f by (simp add: block_offset_inj mem_mark_def)
  qed (use assms(2) in auto)
qed

lemma block_free_block:
  "pool_inv (c_mm s) \<Longrightarrow> i < TOTAL_BLOCK_COUNT \<Longrightarrow> block_free s (block_ptr i) = s\<lparr>c_mm := mem_mark (c_mm s) i True\<rparr>"
  by (simp add: block_free_def mem_free_block)

lemma block_free_null: "pool_inv (c_mm s) \<Longrightarrow> block_free s NULL = s"
  by (cases s) (simp add: block_free_def nrf51_sdk_mem_free_def)

text \<open>The outcomes of an allocation, decided by whether a block has room.\<close>

lemma block_alloc_cases:
  assumes "pool_inv (c_mm s)"
  obtains (ok) i where "room_for (c_mm s) (unat n)" "i < TOTAL_BLOCK_COUNT" "is_free (m_mem_pool (c_mm s) ! i)"
      "unat n \<le> block_bytes i"
      "block_alloc s n = (NRF_SUCCESS, block_ptr i, of_nat (block_bytes i), s\<lparr>c_mm := mem_mark (c_mm s) i False\<rparr>)"
  | (fail) e where "\<not> room_for (c_mm s) (unat n)" "e \<noteq> NRF_SUCCESS" "block_alloc s n = (e, NULL, n, s)"
  using assms
proof (cases rule: mem_alloc_outcome [where q = NULL and n = n])
  case (ok i)
  show thesis
    using ok that(1) [of i] mem_alloc_room [OF assms, of NULL n] by (simp add: block_alloc_def mem_mark_def)
next
  case (fail e)
  have "s\<lparr>c_mm := c_mm s\<rparr> = s" by simp
  then show thesis
    using fail that(2) [of e] mem_alloc_room [OF assms, of NULL n] by (simp add: block_alloc_def)
qed

section \<open>The state of the module\<close>

text \<open>The buffer of a pending message is a live block that holds the datagram.\<close>

definition buffer_ok :: "mem_manager \<Rightarrow> coap_queue_item_t \<Rightarrow> bool" where
  "buffer_ok mm it \<longleftrightarrow> (\<exists>j < TOTAL_BLOCK_COUNT. p_buffer it = block_ptr j \<and> \<not> is_free (m_mem_pool mm ! j) \<and>
     unat (buffer_len it) \<le> block_bytes j)"

definition buffers_distinct :: "coap_queue_item_t list \<Rightarrow> bool" where
  "buffers_distinct its \<longleftrightarrow> (\<forall>i < length its. \<forall>j < length its.
     item_used (its ! i) \<longrightarrow> p_buffer (its ! i) = p_buffer (its ! j) \<longrightarrow> i = j)"

definition buffers_ok :: "mem_manager \<Rightarrow> coap_queue_item_t list \<Rightarrow> bool" where
  "buffers_ok mm its \<longleftrightarrow> (\<forall>it \<in> set its. item_used it \<longrightarrow> buffer_ok mm it) \<and> buffers_distinct its"

definition core_inv :: "'w coap_state \<Rightarrow> bool" where
  "core_inv s \<longleftrightarrow> pool_inv (c_mm s) \<and> pool_heap (c_heap s) \<and> queue_inv (c_queue s) \<and>
     buffers_ok (c_mm s) (m_queue (c_queue s))"

lemma core_invD:
  assumes "core_inv s"
  shows "pool_inv (c_mm s)" "pool_heap (c_heap s)" "queue_inv (c_queue s)"
    "buffers_ok (c_mm s) (m_queue (c_queue s))" "length (m_queue (c_queue s)) = COAP_MESSAGE_QUEUE_SIZE"
  using assms by (simp_all add: core_inv_def queue_inv_def)

lemma core_inv_world [simp]:
  "core_inv (s\<lparr>world := w\<rparr>) = core_inv s" "core_inv (s\<lparr>m_coap_empty_message := e\<rparr>) = core_inv s"
  "core_inv (s\<lparr>m_message_id_counter := c\<rparr>) = core_inv s"
  by (simp_all add: core_inv_def)

lemma pool_heap_upd: "pool_heap h \<Longrightarrow> length xs = length (h b) \<Longrightarrow> pool_heap (h(b := xs))"
  by (auto simp: pool_heap_def)

text \<open>Allocating a block, or freeing one that is not the buffer of a pending message.\<close>

lemma core_inv_alloc:
  assumes "core_inv s" "i < TOTAL_BLOCK_COUNT"
  shows "core_inv (s\<lparr>c_mm := mem_mark (c_mm s) i False\<rparr>)"
proof -
  have "buffer_ok (mem_mark mm i False) it" if "buffer_ok mm it" "pool_inv mm" for mm it
    using that assms(2) by (fastforce simp: buffer_ok_def mem_mark_def nth_list_update pool_inv_def)
  then show ?thesis using assms by (simp add: core_inv_def mem_mark_inv buffers_ok_def)
qed

definition not_buffer :: "nat \<Rightarrow> 'w coap_state \<Rightarrow> bool" where
  "not_buffer i s \<longleftrightarrow> (\<forall>it \<in> set (m_queue (c_queue s)). p_buffer it \<noteq> block_ptr i)"

lemma core_inv_free:
  assumes "core_inv s" "i < TOTAL_BLOCK_COUNT" "not_buffer i s"
  shows "core_inv (s\<lparr>c_mm := mem_mark (c_mm s) i True\<rparr>)"
proof -
  have "buffer_ok (mem_mark mm i True) it" if "buffer_ok mm it" "pool_inv mm" "p_buffer it \<noteq> block_ptr i" for mm it
    using that assms(2) by (auto simp: buffer_ok_def mem_mark_def nth_list_update pool_inv_def)
  then show ?thesis using assms by (simp add: core_inv_def mem_mark_inv buffers_ok_def not_buffer_def)
qed

lemma core_inv_free_block_not_buffer:
  assumes "core_inv s" "i < TOTAL_BLOCK_COUNT" "is_free (m_mem_pool (c_mm s) ! i)"
  shows "not_buffer i s"
  unfolding not_buffer_def
proof
  fix it assume "it \<in> set (m_queue (c_queue s))"
  then have "item_used it \<longrightarrow> buffer_ok (c_mm s) it"
    using assms(1) by (auto simp: core_inv_def buffers_ok_def)
  then show "p_buffer it \<noteq> block_ptr i"
    using assms(2,3) by (auto simp: buffer_ok_def block_offset_inj)
qed

text \<open>Writing into a block keeps the sizes of the objects of the store.\<close>

lemma core_inv_heap: "core_inv s \<Longrightarrow> pool_heap h \<Longrightarrow> core_inv (s\<lparr>c_heap := h\<rparr>)"
  by (simp add: core_inv_def)

lemma buffers_distinct_update:
  assumes "buffers_distinct its" "\<And>it. it \<in> set its \<Longrightarrow> item_used item \<Longrightarrow> p_buffer it \<noteq> p_buffer item"
  shows "buffers_distinct (its[i := item])"
  unfolding buffers_distinct_def
proof (intro allI impI)
  fix k l
  assume kl: "k < length (its[i := item])" "l < length (its[i := item])" "item_used (its[i := item] ! k)"
    "p_buffer (its[i := item] ! k) = p_buffer (its[i := item] ! l)"
  then have "item_used (its[i := item] ! l)" by simp
  then show "k = l"
    using kl assms(1) assms(2) [of "its ! k"] assms(2) [of "its ! l"]
    by (cases "k = i"; cases "l = i") (auto simp: buffers_distinct_def)
qed

text \<open>Queueing a message whose buffer is a live block of its own.\<close>

lemma core_inv_queue_add:
  assumes "core_inv s" "j < TOTAL_BLOCK_COUNT" "not_buffer j s" "\<not> is_free (m_mem_pool (c_mm s) ! j)"
    and "p_buffer item = block_ptr j" "unat (buffer_len item) \<le> block_bytes j" "slot_ok item"
  shows "core_inv (s\<lparr>c_queue := snd (coap_queue_add (c_queue s) (Some item))\<rparr>)"
  using core_invD(3) [OF assms(1)]
proof (cases rule: queue_add_cases [where item = item])
  case full
  then show ?thesis using assms(1) by simp
next
  case (added i)
  have "queue_inv (snd (coap_queue_add (c_queue s) (Some item)))"
    using assms by (intro queue_add_inv) (simp_all add: core_inv_def)
  moreover have "buffers_ok (c_mm s) ((m_queue (c_queue s))[i := item])"
  proof -
    have "buffer_ok (c_mm s) item" using assms(2,4-6) by (auto simp: buffer_ok_def)
    moreover have "buffers_distinct ((m_queue (c_queue s))[i := item])"
      using assms(1,3,5) by (intro buffers_distinct_update) (auto simp: core_inv_def buffers_ok_def not_buffer_def)
    ultimately show ?thesis
      using assms(1) by (auto simp: buffers_ok_def core_inv_def dest!: subsetD [OF set_update_subset_insert])
  qed
  ultimately show ?thesis using assms(1) added(3) by (simp add: core_inv_def)
qed

text \<open>Taking a pending message out of the queue and freeing its buffer.\<close>

lemma core_inv_expire:
  assumes "core_inv s" "i < length (m_queue (c_queue s))" "item_used (m_queue (c_queue s) ! i)"
  shows "core_inv (block_free s (p_buffer (m_queue (c_queue s) ! i))
    \<lparr>c_queue := snd (coap_queue_remove (c_queue s) (Some i))\<rparr>)" (is "core_inv ?s'")
proof -
  let ?q = "m_queue (c_queue s)" and ?q' = "(m_queue (c_queue s))[i := queue_item_zero]"
  obtain j where j: "j < TOTAL_BLOCK_COUNT" "p_buffer (?q ! i) = block_ptr j"
    using assms by (auto simp: core_inv_def buffers_ok_def buffer_ok_def)
  have qi: "queue_inv (snd (coap_queue_remove (c_queue s) (Some i)))"
    using assms by (intro queue_remove_inv) (simp_all add: core_inv_def)
  have q': "m_queue (snd (coap_queue_remove (c_queue s) (Some i))) = ?q'"
    using assms(2) by (simp add: coap_queue_remove_def)
  let ?t = "s\<lparr>c_queue := snd (coap_queue_remove (c_queue s) (Some i))\<rparr>"
  have bd: "buffers_distinct ?q'"
    using assms(1) by (intro buffers_distinct_update) (simp_all add: core_inv_def buffers_ok_def queue_item_zero_def)
  have "buffers_ok (c_mm s) ?q'"
    using assms(1) bd by (auto simp: buffers_ok_def core_inv_def queue_item_zero_def dest!: subsetD [OF set_update_subset_insert])
  then have t: "core_inv ?t" using assms(1) qi q' by (simp add: core_inv_def)
  have "p_buffer (?q' ! k) \<noteq> block_ptr j" if "k < length ?q'" for k
    using that assms j(2) unfolding core_inv_def buffers_ok_def buffers_distinct_def
    by (auto simp: nth_list_update queue_item_zero_def)
  then have "not_buffer j ?t" using q' by (auto simp: not_buffer_def in_set_conv_nth)
  from core_inv_free [OF t j(1) this] show ?thesis
    using assms(1) j by (simp add: block_free_block core_inv_def)
qed

section \<open>Sending\<close>

text \<open>The values of an outgoing message, its option values and its payload, lie outside the free blocks.\<close>

definition detached :: "mem_manager \<Rightarrow> coap_message_t \<Rightarrow> bool" where
  "detached mm m \<longleftrightarrow> (\<forall>i < TOTAL_BLOCK_COUNT. is_free (m_mem_pool mm ! i) \<longrightarrow>
     outside (block_offset i) (p_payload m) \<and> (\<forall>op \<in> set (used_options m). outside (block_offset i) (opt_data op)))"

text \<open>A message that stands for the PDU \<open>p\<close> and can be sent in the state \<open>s\<close>.\<close>

definition sendable :: "'w coap_state \<Rightarrow> coap_message_t \<Rightarrow> pdu \<Rightarrow> bool" where
  "sendable s m p \<longleftrightarrow> message_repr (c_heap s) m p \<and> pdu_wf p \<and> detached (c_mm s) m"

text \<open>The module waits for an answer to requests and to confirmable 2.05 responses.\<close>

definition expects_answer :: "coap_message_t \<Rightarrow> bool" where
  "expects_answer m \<longleftrightarrow> is_request (hdr_code (header m)) \<or> is_con_response m"

definition queued_item :: "coap_queue_item_t \<Rightarrow> coap_message_t \<Rightarrow> ptr \<Rightarrow> nat \<Rightarrow> coap_queue_item_t" where
  "queued_item junk m buf n = junk\<lparr>q_arg := p_arg m, mid := hdr_id (header m), callback := response_callback m,
     p_buffer := buf, buffer_len := of_nat n, timeout_val := 2,
     timeout := (if hdr_type (header m) = COAP_TYPE_CON then 2 else 10),
     retrans_count := (if hdr_type (header m) = COAP_TYPE_CON then 0 else 1),
     q_port := port m, q_token_len := hdr_token_len (header m), q_remote := remote m,
     q_token := take (unat (hdr_token_len (header m))) (token m) @ drop (unat (hdr_token_len (header m))) (q_token junk)\<rparr>"

lemma load_bytes_outside: "outside b q \<Longrightarrow> load_bytes (h(b := xs)) q n = load_bytes h q n"
  by (cases q) (auto simp: outside_def load_bytes.simps)

lemma options_repr_outside:
  "\<forall>op \<in> set ops. outside b (opt_data op) \<Longrightarrow> options_repr (h(b := xs)) prev ops os = options_repr h prev ops os"
  by (induction h prev ops os rule: options_repr.induct) (simp_all add: load_bytes_outside)

lemma message_repr_outside:
  "\<forall>op \<in> set (used_options m). outside b (opt_data op) \<Longrightarrow> outside b (p_payload m) \<Longrightarrow>
   message_repr (h(b := xs)) m p = message_repr h m p"
  by (simp add: message_repr_def load_bytes_outside options_repr_outside)

lemma send_queue_item_eq:
  assumes "message_repr h m p" "pdu_wf p" "length (q_token junk) = 8" "n < 65536"
  shows "send_queue_item junk m buf (of_nat n) = Inr (queued_item junk m buf n)"
proof -
  have k: "unat (hdr_token_len (header m)) \<le> 8" "length (token m) = 8"
    using assms(1,2) by (auto simp: message_repr_def pdu_wf_def)
  have u: "ucast (of_nat n :: u16) = (of_nat n :: u32)"
    using assms(4) by (intro word_unat_eq_iff [THEN iffD2]) (simp add: unat_of_nat_u16 unat_of_nat_u32)
  show ?thesis
    using k assms(3) by (auto simp: send_queue_item_def queued_item_def arr_read_eq arr_write_eq u c_consts Let_def)
qed

lemma queued_item_ok:
  assumes "message_repr h m p" "pdu_wf p" "length (q_token junk) = 8" "buf \<noteq> NULL"
  shows "slot_ok (queued_item junk m buf n)"
proof -
  have k: "unat (hdr_token_len (header m)) \<le> 8" "length (token m) = 8"
    using assms(1,2) by (auto simp: message_repr_def pdu_wf_def)
  then show ?thesis using assms(3,4) by (simp add: slot_ok_def queued_item_def)
qed

text \<open>The store after the message was serialised into the cleared block \<open>i\<close>.\<close>

definition serialised :: "heap \<Rightarrow> nat \<Rightarrow> u8 list \<Rightarrow> heap" where
  "serialised h i bs = h(block_offset i := bs @ replicate (block_bytes i - length bs) 0)"

lemma serialised_pool_heap: "pool_heap h \<Longrightarrow> i < TOTAL_BLOCK_COUNT \<Longrightarrow> length bs \<le> block_bytes i \<Longrightarrow> pool_heap (serialised h i bs)"
  unfolding serialised_def by (rule pool_heap_upd) (simp_all add: pool_heap_def)

lemma load_serialised: "load_bytes (serialised h i bs) (block_ptr i) (length bs) = Inr bs"
  by (simp add: serialised_def load_bytes.simps arr_read_def)

text \<open>What the rest of \<open>internal_coap_message_send\<close> does once the datagram is in block \<open>i\<close>.\<close>

definition send_outcome ::
  "'w coap_env \<Rightarrow> 'w coap_state \<Rightarrow> u32 \<Rightarrow> coap_message_t \<Rightarrow> u8 list \<Rightarrow> nat \<Rightarrow> u32 \<times> u32 \<times> 'w coap_state" where
  "send_outcome E s hnd m bs i =
     (case env_write E (port m) (remote m) bs (world s) of (err_code, w) \<Rightarrow>
      let s1 = s\<lparr>c_heap := serialised (c_heap s) i bs, world := w\<rparr>;
          s2 = s\<lparr>c_mm := mem_mark (c_mm s) i False, c_heap := serialised (c_heap s) i bs, world := w\<rparr>;
          item = queued_item (env_junk E) m (block_ptr i) (length bs)
      in if err_code \<noteq> NRF_SUCCESS then (err_code, hnd, s2)
         else if \<not> expects_answer m then (NRF_SUCCESS, of_nat COAP_MESSAGE_QUEUE_SIZE, s1)
         else case coap_queue_add (c_queue s) (Some item) of (err_code, q) \<Rightarrow>
              (err_code, if err_code = NRF_SUCCESS then handle item else hnd, s2\<lparr>c_queue := q\<rparr>))"

lemma encode_dry_run:
  assumes "message_repr h m p" "pdu_wf p"
  shows "coap_message_encode h (Some m) NULL (Some 0) = Inr (NRF_SUCCESS, h, Some (of_nat (length (pdu_bytes p))))"
proof -
  have "\<not> hdr_token_len (header m) > 8"
    using assms by (auto simp: message_repr_def pdu_wf_def word_less_nat_alt)
  then show ?thesis by (simp add: coap_message_encode_def total_packet_size_rfc [OF assms(1)])
qed

lemma internal_send_cases:
  assumes inv: "core_inv s" and m: "sendable s m p" and junk: "length (q_token (env_junk E)) = 8"
  obtains (sent) i where "room_for (c_mm s) (length (pdu_bytes p))" "i < TOTAL_BLOCK_COUNT"
      "is_free (m_mem_pool (c_mm s) ! i)" "length (pdu_bytes p) \<le> block_bytes i"
      "internal_coap_message_send E s (Some hnd) (Some m) =
         (case send_outcome E s hnd m (pdu_bytes p) i of (err_code, hnd', s') \<Rightarrow> Inr (err_code, Some hnd', s'))"
  | (no_room) e where "\<not> room_for (c_mm s) (length (pdu_bytes p))" "e \<noteq> NRF_SUCCESS"
      "internal_coap_message_send E s (Some hnd) (Some m) = Inr (e, Some hnd, s)"
proof -
  let ?bs = "pdu_bytes p"
  have r: "message_repr (c_heap s) m p" "pdu_wf p" using m by (simp_all add: sendable_def)
  have small: "length ?bs < 65536" using r(2) by (simp add: pdu_wf_def)
  have un: "unat (ucast (of_nat (length ?bs) :: u16) :: u32) = length ?bs"
    using small by (simp add: unat_of_nat_u16)
  note dry = encode_dry_run [OF r]
  from inv have "pool_inv (c_mm s)" by (simp add: core_inv_def)
  then show thesis
  proof (cases rule: block_alloc_cases [where n = "ucast (of_nat (length ?bs) :: u16)"])
    case (fail e)
    have full: "\<not> room_for (c_mm s) (length ?bs)" using fail(1) unfolding un .
    show thesis
      by (rule no_room [OF full fail(2)]) (simp add: internal_coap_message_send_def dry fail(2,3))
  next
    case (ok i)
    let ?b = "block_offset i" and ?n = "block_bytes i"
    let ?h = "(c_heap s)(?b := replicate ?n 0)"
    have n: "length (c_heap s ?b) = ?n" "?n < 65536"
      using inv ok(2) by (auto simp: core_inv_def pool_heap_def block_bytes_eq)
    have un': "unat (ucast (of_nat ?n :: u32) :: u16) = ?n" "unat (of_nat ?n :: u32) = ?n"
      using n(2) by (simp_all add: unsigned_ucast_eq unat_of_nat_u32 block_bytes_u32 take_bit_nat_def)
    have bs: "length ?bs \<le> ?n" using ok(4) unfolding un .
    have out: "\<forall>op \<in> set (used_options m). outside ?b (opt_data op)" "outside ?b (p_payload m)"
      using m ok(2,3) by (simp_all add: sendable_def detached_def)
    have clear: "block_clear (s\<lparr>c_mm := mem_mark (c_mm s) i False\<rparr>) (block_ptr i) ?n
        = Inr (s\<lparr>c_mm := mem_mark (c_mm s) i False, c_heap := ?h\<rparr>)"
      using n by (simp add: block_clear_def arr_write_eq)
    have "message_repr ?h m p" using r(1) message_repr_outside [OF out] by simp
    then have enc: "coap_message_encode ?h (Some m) (block_ptr i) (Some (ucast (of_nat ?n :: u32)))
        = Inr (NRF_SUCCESS, serialised (c_heap s) i ?bs, Some (of_nat (length ?bs)))"
      using coap_message_encode_rfc [of ?h m p ?b "ucast (of_nat ?n :: u32)"] r(2) out bs
      by (simp add: un' filled_def serialised_def)
    have ld: "load_bytes (serialised (c_heap s) i ?bs) (block_ptr i) (unat (of_nat (length ?bs) :: u16)) = Inr ?bs"
      unfolding unat_of_nat_u16 [OF small [simplified]] by (rule load_serialised)
    have item: "send_queue_item (env_junk E) m (block_ptr i) (of_nat (length ?bs))
        = Inr (queued_item (env_junk E) m (block_ptr i) (length ?bs))"
      using send_queue_item_eq [OF r junk small] .
    have free: "block_free (s\<lparr>c_mm := mem_mark (c_mm s) i False, c_heap := h, world := w\<rparr>) (block_ptr i)
        = s\<lparr>c_heap := h, world := w\<rparr>" for h w
      using inv ok(2,3) by (cases s) (simp add: block_free_block mem_mark_inv core_inv_def mem_mark_undo)
    have room: "room_for (c_mm s) (length ?bs)" using ok(1) unfolding un .
    show thesis
    proof (rule sent [OF room ok(2,3) bs])
      show "internal_coap_message_send E s (Some hnd) (Some m) =
         (case send_outcome E s hnd m ?bs i of (err_code, hnd', s') \<Rightarrow> Inr (err_code, Some hnd', s'))"
        unfolding internal_coap_message_send_def option.case dry c_bind_Inr prod.case option.sel ok(5)
        by (simp add: un' clear enc ld item free send_outcome_def expects_answer_def Let_def
            del: load_bytes.simps store_bytes.simps split: prod.splits)
    qed
  qed
qed

section \<open>How a call may change the state\<close>

text \<open>The datagram of a pending message.\<close>

definition datagram_of :: "'w coap_state \<Rightarrow> coap_queue_item_t \<Rightarrow> fault + u8 list" where
  "datagram_of s it = load_bytes (c_heap s) (p_buffer it) (unat (buffer_len it))"

text \<open>
  \<open>grows s s'\<close>: the invariant holds afterwards, no live block was freed, every pending message stays where
  it is with its datagram, and the buffers of new pending messages were not live before.
\<close>

definition grows :: "'w coap_state \<Rightarrow> 'w coap_state \<Rightarrow> bool" where
  "grows s s' \<longleftrightarrow> core_inv s' \<and> mm_live (c_mm s) \<subseteq> mm_live (c_mm s') \<and>
     (\<forall>i < COAP_MESSAGE_QUEUE_SIZE.
        (item_used (m_queue (c_queue s) ! i) \<longrightarrow> m_queue (c_queue s') ! i = m_queue (c_queue s) ! i \<and>
           datagram_of s' (m_queue (c_queue s) ! i) = datagram_of s (m_queue (c_queue s) ! i)) \<and>
        (\<not> item_used (m_queue (c_queue s) ! i) \<longrightarrow> p_buffer (m_queue (c_queue s') ! i) \<notin> mm_live (c_mm s)))"

lemma null_not_live: "pool_inv mm \<Longrightarrow> NULL \<notin> mm_live mm"
  by (auto simp: mm_live_iff pool_inv_def)

lemma grows_refl: "core_inv s \<Longrightarrow> grows s s"
  by (auto simp: grows_def core_inv_def null_not_live)

lemma grows_inv: "grows s s' \<Longrightarrow> core_inv s'"
  by (simp add: grows_def)

lemma pending_buffer_live:
  assumes "core_inv s" "i < COAP_MESSAGE_QUEUE_SIZE" "item_used (m_queue (c_queue s) ! i)"
  obtains j where "j < TOTAL_BLOCK_COUNT" "p_buffer (m_queue (c_queue s) ! i) = block_ptr j"
    "\<not> is_free (m_mem_pool (c_mm s) ! j)" "unat (buffer_len (m_queue (c_queue s) ! i)) \<le> block_bytes j"
  using assms core_invD(5) [OF assms(1)] by (auto simp: core_inv_def buffers_ok_def buffer_ok_def)

lemma grows_trans:
  assumes "grows s t" "grows t u"
  shows "grows s u"
  unfolding grows_def
proof (intro conjI allI impI)
  show "core_inv u" using assms(2) by (rule grows_inv)
  show "mm_live (c_mm s) \<subseteq> mm_live (c_mm u)" using assms by (auto simp: grows_def)
  fix i assume i: "i < COAP_MESSAGE_QUEUE_SIZE"
  note st = assms(1) [unfolded grows_def, THEN conjunct2, THEN conjunct2, rule_format, OF i]
  note tu = assms(2) [unfolded grows_def, THEN conjunct2, THEN conjunct2, rule_format, OF i]
  {
    assume "item_used (m_queue (c_queue s) ! i)"
    then show "m_queue (c_queue u) ! i = m_queue (c_queue s) ! i"
      "datagram_of u (m_queue (c_queue s) ! i) = datagram_of s (m_queue (c_queue s) ! i)"
      using st tu by simp_all
  }
  assume "\<not> item_used (m_queue (c_queue s) ! i)"
  then show "p_buffer (m_queue (c_queue u) ! i) \<notin> mm_live (c_mm s)"
    using st tu assms(1) by (cases "item_used (m_queue (c_queue t) ! i)") (auto simp: grows_def)
qed

lemma datagram_serialised:
  assumes "core_inv s" "i < COAP_MESSAGE_QUEUE_SIZE" "item_used (m_queue (c_queue s) ! i)"
    and "is_free (m_mem_pool (c_mm s) ! j)" "j < TOTAL_BLOCK_COUNT"
  shows "load_bytes (serialised (c_heap s) j bs) (p_buffer (m_queue (c_queue s) ! i)) n
    = load_bytes (c_heap s) (p_buffer (m_queue (c_queue s) ! i)) n"
proof -
  have "outside (block_offset j) (p_buffer (m_queue (c_queue s) ! i))"
    using assms by (auto elim!: pending_buffer_live simp: outside_def block_offset_inj)
  then show ?thesis by (simp add: serialised_def load_bytes_outside)
qed

lemma send_outcome_grows:
  assumes "core_inv s" "sendable s m p" "length (q_token (env_junk E)) = 8"
    and "i < TOTAL_BLOCK_COUNT" "is_free (m_mem_pool (c_mm s) ! i)" "length (pdu_bytes p) \<le> block_bytes i"
    and "send_outcome E s hnd m (pdu_bytes p) i = (e, h, s')"
  shows "grows s s'"
proof -
  let ?bs = "pdu_bytes p" and ?h = "serialised (c_heap s) i (pdu_bytes p)" and ?mm = "mem_mark (c_mm s) i False"
  define item where "item = queued_item (env_junk E) m (block_ptr i) (length ?bs)"
  have r: "message_repr (c_heap s) m p" "pdu_wf p" using assms(2) by (simp_all add: sendable_def)
  have pi: "pool_inv (c_mm s)" "pool_heap ?h" and len: "length (m_queue (c_queue s)) = COAP_MESSAGE_QUEUE_SIZE"
    using assms(1,4,6) by (simp_all add: core_inv_def serialised_pool_heap queue_inv_def)
  have live: "mm_live ?mm = insert (block_ptr i) (mm_live (c_mm s))" "block_ptr i \<notin> mm_live (c_mm s)"
    using pi(1) assms(4,5) by (simp_all add: mem_mark_live live_block_iff)
  obtain w_err w where w: "env_write E (port m) (remote m) ?bs (world s) = (w_err, w)" by force
  let ?s1 = "s\<lparr>c_heap := ?h, world := w\<rparr>" and ?s2 = "s\<lparr>c_mm := ?mm, c_heap := ?h, world := w\<rparr>"
  have s1: "core_inv ?s1" using assms(1) pi(2) by (simp add: core_inv_def)
  have s2: "core_inv ?s2" using core_inv_alloc [OF assms(1,4)] pi(2) by (simp add: core_inv_def)
  have same: "datagram_of t (m_queue (c_queue s) ! k) = datagram_of s (m_queue (c_queue s) ! k)"
    if "c_heap t = ?h" "k < COAP_MESSAGE_QUEUE_SIZE" "item_used (m_queue (c_queue s) ! k)" for t :: "'a coap_state" and k
    using datagram_serialised [OF assms(1) that(2,3) assms(5,4)] that(1) by (simp add: datagram_of_def)
  have ub: "unat (buffer_len item) \<le> block_bytes i"
    using r(2) assms(6) by (simp add: item_def queued_item_def pdu_wf_def unat_of_nat_u32)
  have nb: "not_buffer i ?s2"
    using core_inv_free_block_not_buffer [OF assms(1,4,5)] by (simp add: not_buffer_def)
  have free: "\<not> is_free (m_mem_pool ?mm ! i)" using pi(1) assms(4) by (simp add: mem_mark_def pool_inv_def)
  have q: "core_inv (?s2\<lparr>c_queue := snd (coap_queue_add (c_queue ?s2) (Some item))\<rparr>)"
    using core_inv_queue_add [OF s2 assms(4) nb, of item] free ub queued_item_ok [OF r assms(3), of "block_ptr i" "length ?bs"]
    by (simp add: item_def queued_item_def)
  have buf: "p_buffer item = block_ptr i" by (simp add: item_def queued_item_def)
  show ?thesis
  proof (cases "w_err = NRF_SUCCESS \<and> expects_answer m")
    case False
    then have "s' = ?s1 \<or> s' = ?s2" using assms(7) w by (auto simp: send_outcome_def Let_def split: if_splits)
    then show ?thesis using s1 s2 same live pi(1)
      by (auto simp: grows_def null_not_live)
  next
    case True
    then have s': "s' = ?s2\<lparr>c_queue := snd (coap_queue_add (c_queue s) (Some item))\<rparr>"
      using assms(7) w by (auto simp: send_outcome_def Let_def item_def split: prod.splits)
    have inv: "core_inv s'" using q s' by simp
    have le: "mm_live (c_mm s) \<subseteq> mm_live (c_mm s')" using live by (auto simp: s')
    from core_invD(3) [OF assms(1)] show ?thesis
    proof (cases rule: queue_add_cases [where item = item])
      case full
      then show ?thesis using inv le same [of s'] pi(1) by (simp add: s' grows_def null_not_live)
    next
      case (added k)
      then have k: "k < length (m_queue (c_queue s))" "p_buffer (m_queue (c_queue s) ! k) = NULL"
        by (simp_all add: find_first_Some)
      have "(item_used (m_queue (c_queue s) ! j) \<longrightarrow> m_queue (c_queue s') ! j = m_queue (c_queue s) ! j \<and>
           datagram_of s' (m_queue (c_queue s) ! j) = datagram_of s (m_queue (c_queue s) ! j)) \<and>
        (\<not> item_used (m_queue (c_queue s) ! j) \<longrightarrow> p_buffer (m_queue (c_queue s') ! j) \<notin> mm_live (c_mm s))"
        if "j < COAP_MESSAGE_QUEUE_SIZE" for j
        using added(3) k same [of s' j] that live(2) pi(1) buf len
        by (auto simp: s' nth_list_update null_not_live)
      then show ?thesis using inv le by (simp add: grows_def)
    qed
  qed
qed

lemma internal_send_grows:
  assumes "core_inv s" "sendable s m p" "length (q_token (env_junk E)) = 8"
  obtains e h s' where "internal_coap_message_send E s (Some hnd) (Some m) = Inr (e, Some h, s')" "grows s s'"
  using assms
proof (cases rule: internal_send_cases [where hnd = hnd])
  case (sent i)
  obtain e h s' where o: "send_outcome E s hnd m (pdu_bytes p) i = (e, h, s')" by (metis prod_cases3)
  show thesis using that [of e h s'] sent(5) send_outcome_grows [OF assms sent(2-4) o] o by simp
next
  case (no_room e)
  then show thesis using that [of e hnd s] grows_refl [OF assms(1)] by simp
qed

section \<open>A concrete device\<close>

text \<open>An environment that records what reaches it: datagrams written, and calls of the application.\<close>

datatype wire_event =
    Sent coap_port_t coap_remote_t "u8 list"
  | Response_Call nat u32 "nat option" "coap_message_t option"
  | Method_Call nat nat coap_message_t
  | Error_Call nat u32

definition trace_env :: "wire_event list coap_env" where
  "trace_env =
     \<lparr>env_transport_init = (\<lambda>ports w. (NRF_SUCCESS, w)),
      env_write = (\<lambda>prt rmt bs w. (NRF_SUCCESS, w @ [Sent prt rmt bs])),
      env_response = (\<lambda>cb st arg m s. Inr (s\<lparr>world := world s @ [Response_Call cb st arg m]\<rparr>)),
      env_method = (\<lambda>cb r m s. Inr (s\<lparr>world := world s @ [Method_Call cb r m]\<rparr>)),
      env_error = (\<lambda>cb e m s. Inr (s\<lparr>world := world s @ [Error_Call cb e]\<rparr>)),
      env_junk = queue_item_zero\<rparr>"

text \<open>The store after start-up: the blocks of the pools, and the object 5000 with \<open>bs\<close>.\<close>

definition boot_heap :: "u8 list \<Rightarrow> heap" where
  "boot_heap bs a =
     (if a < 1024 \<and> a mod 128 = 0 then replicate 128 0
      else if 1024 \<le> a \<and> a < 2048 \<and> a mod 256 = 0 then replicate 256 0
      else if a = 2048 then replicate 1024 0
      else if a = 5000 then bs else [])"

definition boot_state :: "u8 list \<Rightarrow> wire_event list coap_state" where
  "boot_state bs =
     \<lparr>c_mm = snd (nrf51_sdk_mem_init \<lparr>m_mem_pool = [], m_module_initialized = False\<rparr>),
      c_heap = boot_heap bs,
      c_queue = snd (coap_queue_init \<lparr>m_queue = [], m_message_queue_count = 0\<rparr>),
      c_resources = \<lparr>res_at = (\<lambda>_. coap_resource_zero), mp_root_resource = None, m_scratch_buffer = replicate SCRATCH_SIZE 0\<rparr>,
      c_observers = observe_server_init (replicate COAP_OBSERVE_MAX_NUM_OBSERVERS coap_observer_zero),
      m_token_seed = 0, m_message_id_counter = 1, m_error_callback = None,
      m_coap_empty_message = coap_empty_message, world = []\<rparr>"

lemma boot_pool:
  assumes "i < TOTAL_BLOCK_COUNT"
  shows "m_mem_pool (c_mm (boot_state bs)) ! i
    = \<lparr>p_block = block_ptr i, is_free = True, block_cat = block_category i\<rparr>"
proof -
  obtain e mm where "nrf51_sdk_mem_init \<lparr>m_mem_pool = [], m_module_initialized = False\<rparr> = (e, mm)" by force
  then show ?thesis using mem_init_pool_nth assms by (simp add: boot_state_def)
qed

lemma boot_inv: "core_inv (boot_state bs)"
proof -
  have "pool_inv (c_mm (boot_state bs))"
    unfolding boot_state_def using mem_init_inv [OF prod.collapse [symmetric]] by simp
  moreover have "pool_heap (boot_heap bs)"
    by (auto simp: pool_heap_def boot_heap_def block_offset_def block_bytes_eq c_consts)
  moreover have "buffers_ok (c_mm (boot_state bs)) (m_queue (c_queue (boot_state bs)))"
    by (auto simp: boot_state_def buffers_ok_def buffers_distinct_def coap_queue_init_def queue_item_zero_def)
  ultimately show ?thesis using queue_init_inv by (simp add: core_inv_def boot_state_def)
qed

lemma boot_room: "n \<noteq> 0 \<Longrightarrow> n \<le> 1024 \<Longrightarrow> room_for (c_mm (boot_state bs)) n"
  unfolding room_for_def by (auto simp: boot_pool c_consts block_bytes_eq intro!: exI [of _ 12])

lemma boot_pending: "pending (c_queue (boot_state bs)) = {#}"
  by (auto simp: boot_state_def coap_queue_init_def pending_def table_items_def queue_item_zero_def)

text \<open>A confirmable GET request on path \<open>led\<close> with the token AB CD, its path in the object 5000.\<close>

definition get_led :: coap_message_t where
  "get_led = coap_message_zero
     \<lparr>header := \<lparr>hdr_version = 1, hdr_type = 0, hdr_token_len = 2, hdr_code = 1, hdr_id = 0x1234\<rparr>,
      token := [0xAB, 0xCD, 0, 0, 0, 0, 0, 0], response_callback := Some 70,
      options_count := 1,
      options := (options coap_message_zero)[0 := \<lparr>opt_number = 11, opt_length = 3, opt_data = Ptr 5000 0\<rparr>],
      options_len := 4, options_offset := 3, options_delta := 11, p_data := Ptr 5000 0, data_len := 16\<rparr>"

definition get_led_pdu :: pdu where
  "get_led_pdu = \<lparr>pdu_version = 1, pdu_type = 0, pdu_code = 1, pdu_id = 0x1234, pdu_token = [0xAB, 0xCD],
     pdu_options = [(11, [108, 101, 100])], pdu_payload = []\<rparr>"

lemma get_led_bytes: "pdu_bytes get_led_pdu = [0x42, 1, 0x12, 0x34, 0xAB, 0xCD, 0xB3, 108, 101, 100]"
  by (simp add: get_led_pdu_def pdu_bytes_def rfc_header_def rfc_option_def rfc_nibble_def rfc_ext_def rfc_payload_def)

lemma get_led_sendable: "sendable (boot_state [108, 101, 100]) get_led get_led_pdu"
proof -
  have "message_repr (boot_heap [108, 101, 100]) get_led get_led_pdu"
    by (simp add: get_led_def get_led_pdu_def message_repr_def used_options_def boot_heap_def
        coap_message_zero_def load_bytes.simps arr_read_def rfc_option_def rfc_ext_def c_consts take_Suc_update)
  moreover have "pdu_wf get_led_pdu"
    using get_led_bytes by (simp add: pdu_wf_def) (simp add: get_led_pdu_def c_consts)
  moreover have "detached mm get_led" for mm
    by (auto simp: detached_def get_led_def outside_def used_options_def coap_message_zero_def take_Suc_update
        block_offset_def c_consts)
  ultimately show ?thesis by (simp add: sendable_def boot_state_def)
qed

section \<open>Properties\<close>

text \<open>C4: Sending a message that stands for the PDU \<open>p\<close>: when no free block can hold its serialisation the call fails
  and changes nothing. Otherwise the transport is handed exactly the RFC 7252 bytes of \<open>p\<close>. When the
  transport refuses, its error is returned and the block stays allocated. A message that expects no answer
  leaves the pools and the queue as they were and the handle is 8. A message that does is kept in the
  queue, with its bytes, token, remote and callback, a confirmable one with a timeout of 2 ticks and its
  retransmission to come; when 8 messages are pending already the call reports NO_MEM, although the
  datagram is on the air, and the block stays allocated.\<close>

theorem coap_message_send_transmits:
  assumes "core_inv s" "sendable s m p" "length (q_token (env_junk E)) = 8"
    and "env_write E (port m) (remote m) (pdu_bytes p) (world s) = (w_err, w)"
  shows "\<exists>e h s'. coap_message_send E s (Some hnd) (Some m) = Inr (e, Some h, s') \<and>
    (if \<not> room_for (c_mm s) (length (pdu_bytes p)) then e \<noteq> NRF_SUCCESS \<and> s' = s
     else world s' = w \<and>
       (if w_err \<noteq> NRF_SUCCESS then
          e = w_err \<and> c_queue s' = c_queue s \<and> mm_live (c_mm s) \<subset> mm_live (c_mm s')
        else if \<not> expects_answer m then
          e = NRF_SUCCESS \<and> h = 8 \<and> c_queue s' = c_queue s \<and> c_mm s' = c_mm s
        else if size (pending (c_queue s)) = COAP_MESSAGE_QUEUE_SIZE then
          e = NRF_ERROR_NO_MEM OR IOT_COAP_ERR_BASE \<and> c_queue s' = c_queue s \<and>
          mm_live (c_mm s) \<subset> mm_live (c_mm s')
        else e = NRF_SUCCESS \<and>
          (\<exists>item. pending (c_queue s') = add_mset item (pending (c_queue s)) \<and>
             mm_live (c_mm s') = insert (p_buffer item) (mm_live (c_mm s)) \<and> p_buffer item \<notin> mm_live (c_mm s) \<and>
             datagram_of s' item = Inr (pdu_bytes p) \<and> mid item = hdr_id (header m) \<and>
             take (unat (q_token_len item)) (q_token item) = pdu_token p \<and> q_remote item = remote m \<and>
             q_port item = port m \<and> callback item = response_callback m \<and> q_arg item = p_arg m \<and>
             (timeout item, retrans_count item) =
               (if hdr_type (header m) = COAP_TYPE_CON then (COAP_ACK_TIMEOUT, 0)
                else (COAP_MAX_TRANSMISSION_SPAN, COAP_MAX_RETRANSMIT_COUNT)))))"
  using assms(1-3)
proof (cases rule: internal_send_cases [where hnd = hnd])
  case (no_room e)
  then show ?thesis by (simp add: coap_message_send_def)
next
  case (sent i)
  define item where "item = queued_item (env_junk E) m (block_ptr i) (length (pdu_bytes p))"
  have r: "message_repr (c_heap s) m p" "pdu_wf p" using assms(2) by (simp_all add: sendable_def)
  have live: "block_ptr i \<notin> mm_live (c_mm s)"
    "mm_live (mem_mark (c_mm s) i False) = insert (block_ptr i) (mm_live (c_mm s))"
    using assms(1) sent(2,3) by (simp_all add: live_block_iff mem_mark_live core_inv_def)
  have tk: "unat (hdr_token_len (header m)) = length (pdu_token p)" "take (length (pdu_token p)) (token m) = pdu_token p"
    using r by (auto simp: message_repr_def pdu_wf_def)
  have fields: "p_buffer item = block_ptr i" "item_used item" "mid item = hdr_id (header m)" "q_remote item = remote m"
    "take (unat (q_token_len item)) (q_token item) = pdu_token p" "q_port item = port m"
    "callback item = response_callback m" "q_arg item = p_arg m"
    "(timeout item, retrans_count item) = (if hdr_type (header m) = COAP_TYPE_CON then (COAP_ACK_TIMEOUT, 0)
                else (COAP_MAX_TRANSMISSION_SPAN, COAP_MAX_RETRANSMIT_COUNT))"
    "unat (buffer_len item) = length (pdu_bytes p)"
    using tk r(2) by (simp_all add: item_def queued_item_def c_consts pdu_wf_def unat_of_nat_u32)
  have dg: "c_heap t = serialised (c_heap s) i (pdu_bytes p) \<Longrightarrow> datagram_of t item = Inr (pdu_bytes p)" for t :: "'a coap_state"
    unfolding datagram_of_def fields(1,10) by (simp only: load_serialised)
  note outcome = sent(5) [unfolded send_outcome_def assms(4) prod.case Let_def]
  show ?thesis
  proof (cases "w_err = NRF_SUCCESS \<and> expects_answer m")
    case False
    then show ?thesis using outcome sent(1) live by (auto simp: coap_message_send_def c_consts)
  next
    case True
    from core_invD(3) [OF assms(1)] show ?thesis
    proof (cases rule: queue_add_cases [where item = item])
      case full
      then show ?thesis
        using outcome sent(1) live True core_invD(3) [OF assms(1)] by (auto simp: coap_message_send_def pending_size item_def)
    next
      case (added k)
      let ?q = "c_queue s\<lparr>m_queue := (m_queue (c_queue s))[k := item],
         m_message_queue_count := m_message_queue_count (c_queue s) + 1\<rparr>"
      let ?s' = "s\<lparr>c_mm := mem_mark (c_mm s) i False, c_heap := serialised (c_heap s) i (pdu_bytes p), world := w,
        c_queue := ?q\<rparr>"
      have res: "internal_coap_message_send E s (Some hnd) (Some m) = Inr (NRF_SUCCESS, Some (handle item), ?s')"
        using outcome True added(3) by (simp add: item_def [symmetric])
      have "pending ?q = add_mset item (pending (c_queue s))"
        using qt.add_items [OF added(1) fields(2)] by (simp add: pending_def)
      moreover have "size (pending (c_queue s)) \<noteq> COAP_MESSAGE_QUEUE_SIZE"
        using added(2) pending_size [OF core_invD(3) [OF assms(1)]] by simp
      ultimately show ?thesis
        using res sent(1) True live fields dg [of ?s']
        by (intro exI [of _ NRF_SUCCESS] exI [of _ "handle item"] exI [of _ ?s'])
          (auto simp: coap_message_send_def intro!: exI [of _ item])
    qed
  qed
qed

theorem coap_message_send_transmits_witness:
  "\<exists>h s'. coap_message_send trace_env (boot_state [108, 101, 100]) (Some 0) (Some get_led) = Inr (NRF_SUCCESS, Some h, s') \<and>
     world s' = [Sent (port get_led) (remote get_led) [0x42, 1, 0x12, 0x34, 0xAB, 0xCD, 0xB3, 108, 101, 100]] \<and>
     (\<exists>item. pending (c_queue s') = {#item#} \<and> mid item = 0x1234 \<and> callback item = Some 70 \<and> timeout item = 2)"
proof -
  have w: "env_write trace_env (port get_led) (remote get_led) (pdu_bytes get_led_pdu) (world (boot_state [108, 101, 100]))
      = (NRF_SUCCESS, [Sent (port get_led) (remote get_led) (pdu_bytes get_led_pdu)])"
    by (simp add: trace_env_def boot_state_def)
  have j: "length (q_token (env_junk trace_env)) = 8" by (simp add: trace_env_def queue_item_zero_def)
  have l: "length (pdu_bytes get_led_pdu) = 10" by (simp add: get_led_bytes)
  have e: "expects_answer get_led" "room_for (c_mm (boot_state [108, 101, 100])) 10"
    "size (pending (c_queue (boot_state [108, 101, 100]))) \<noteq> COAP_MESSAGE_QUEUE_SIZE"
    using boot_room [of 10] by (simp_all add: expects_answer_def is_request_def get_led_def boot_pending c_consts)
  have f: "hdr_type (header get_led) = 0" "hdr_id (header get_led) = 0x1234" "response_callback get_led = Some 70"
    by (simp_all add: get_led_def)
  obtain e h s' where s': "coap_message_send trace_env (boot_state [108, 101, 100]) (Some 0) (Some get_led) = Inr (e, Some h, s')"
    "world s' = [Sent (port get_led) (remote get_led) (pdu_bytes get_led_pdu)]" "e = NRF_SUCCESS"
    and i: "\<exists>item. pending (c_queue s') = add_mset item {#} \<and> mid item = 0x1234 \<and> callback item = Some 70 \<and>
      timeout item = COAP_ACK_TIMEOUT"
    using coap_message_send_transmits [OF boot_inv get_led_sendable j w, of 0]
    unfolding l boot_pending f using e(1,2) by (auto simp: c_consts)
  have "\<exists>item. pending (c_queue s') = {#item#} \<and> mid item = 0x1234 \<and> callback item = Some 70 \<and> timeout item = 2"
    using i by (simp add: c_consts)
  then show ?thesis using s' by (auto simp: get_led_bytes)
qed

text \<open>Whatever the transport answers and wherever the call ends, sending keeps the invariant of the
  module's state: the pools and the queue stay consistent, every pending message keeps its place, its
  buffer and the bytes in it, no live block is freed, and a new pending message has a buffer that no
  one else uses.\<close>

theorem coap_message_send_invariant:
  assumes "core_inv s" "sendable s m p" "length (q_token (env_junk E)) = 8"
  shows "case coap_message_send E s (Some hnd) (Some m) of Inl f \<Rightarrow> False | Inr (e, h, s') \<Rightarrow> grows s s'"
  using assms by (rule internal_send_grows [where hnd = hnd]) (simp add: coap_message_send_def)

theorem coap_message_send_invariant_witness:
  "case coap_message_send trace_env (boot_state [108, 101, 100]) (Some 0) (Some get_led) of
     Inl f \<Rightarrow> False | Inr (e, h, s') \<Rightarrow> grows (boot_state [108, 101, 100]) s'"
  by (rule coap_message_send_invariant [OF boot_inv get_led_sendable]) (simp add: trace_env_def queue_item_zero_def)

end
