(* ===== verification/Coap_Retransmit.thy ===== *)
theory Coap_Retransmit
  imports Coap_Exchange
begin

text \<open>
  The retransmission tick, \<open>coap_time_tick\<close> of \<^verbatim>\<open>coap.c\<close>: the loop over the pending messages is the scan of
  the table by index, it ends and keeps the invariant for every application that respects it, and with
  callbacks that do not call back into the module it follows a fixed schedule for each slot.
\<close>

section \<open>The application\<close>

text \<open>Every pending message has a callback to report its fate to.\<close>

definition answerable :: "'w coap_state \<Rightarrow> bool" where
  "answerable s \<longleftrightarrow> (\<forall>it \<in> set (m_queue (c_queue s)). item_used it \<longrightarrow> callback it \<noteq> None)"

text \<open>
  What the module needs of the application: its callbacks return, and as a call of the module does, they
  let the state grow: they free no block that was live and take no message out of the queue. The static
  empty message is private to the module.
\<close>

definition app_step :: "'w coap_state \<Rightarrow> fault + 'w coap_state \<Rightarrow> bool" where
  "app_step s r \<longleftrightarrow> (\<exists>s'. r = Inr s' \<and> grows s s' \<and> (answerable s \<longrightarrow> answerable s') \<and>
     m_coap_empty_message s' = m_coap_empty_message s)"

definition app_ok :: "'w coap_env \<Rightarrow> bool" where
  "app_ok E \<longleftrightarrow> length (q_token (env_junk E)) = 8 \<and>
     (\<forall>cb st arg m s. core_inv s \<longrightarrow> app_step s (env_response E cb st arg m s)) \<and>
     (\<forall>cb r m s. core_inv s \<longrightarrow> app_step s (env_method E cb r m s)) \<and>
     (\<forall>cb e m s. core_inv s \<longrightarrow> app_step s (env_error E cb e m s))"

lemma app_step_refl: "core_inv s \<Longrightarrow> app_step s (Inr s)"
  by (simp add: app_step_def grows_refl)

lemma grows_world: "core_inv s \<Longrightarrow> grows s (s\<lparr>world := w\<rparr>)"
  using grows_refl [of s] by (simp add: grows_def datagram_of_def core_inv_def)

lemma trace_app_ok: "app_ok trace_env"
  by (auto simp: app_ok_def trace_env_def queue_item_zero_def app_step_def grows_world answerable_def)

lemma error_notify_ok: "app_ok E \<Longrightarrow> core_inv s \<Longrightarrow> app_step s (app_error_notify E e m s)"
  by (auto simp: app_error_notify_def app_ok_def app_step_refl split: option.splits)

section \<open>One slot\<close>

text \<open>Updating the timers of a pending message keeps the invariant.\<close>

definition retimed :: "coap_queue_item_t \<Rightarrow> coap_queue_item_t \<Rightarrow> bool" where
  "retimed it it' \<longleftrightarrow> (\<exists>t v r. it' = it\<lparr>timeout := t, timeout_val := v, retrans_count := r\<rparr>)"

lemma count_if_same: "i < length xs \<Longrightarrow> P v = P (xs ! i) \<Longrightarrow> count_if P (xs[i := v]) = count_if P xs"
  using count_if_update [of i xs P v] by (cases "P v") auto

lemma buffers_distinct_cong:
  assumes "map p_buffer xs = map p_buffer ys"
  shows "buffers_distinct xs = buffers_distinct ys"
proof -
  have "length xs = length ys" "\<And>i. i < length xs \<Longrightarrow> p_buffer (xs ! i) = p_buffer (ys ! i)"
    using assms by (metis length_map, metis assms length_map nth_map)
  then show ?thesis unfolding buffers_distinct_def by metis
qed

lemma queue_upd_inv:
  assumes "core_inv s" "i < COAP_MESSAGE_QUEUE_SIZE" "retimed (m_queue (c_queue s) ! i) (f (m_queue (c_queue s) ! i))"
  shows "core_inv (queue_upd s i f)"
proof -
  let ?q = "m_queue (c_queue s)"
  let ?it = "?q ! i"
  obtain t v r where f: "f ?it = ?it\<lparr>timeout := t, timeout_val := v, retrans_count := r\<rparr>"
    using assms(3) by (auto simp: retimed_def)
  have i: "i < length ?q" using assms(1,2) core_invD(5) by metis
  have ok: "slot_ok ?it" "item_used ?it \<longrightarrow> buffer_ok (c_mm s) ?it"
    using assms(1) i by (auto simp: core_inv_def queue_inv_def buffers_ok_def)
  have "slot_ok (f ?it)" "item_used (f ?it) \<longrightarrow> buffer_ok (c_mm s) (f ?it)"
    using ok by (auto simp: f slot_ok_def buffer_ok_def)
  moreover have "buffers_distinct (?q[i := f ?it])"
  proof -
    have "map p_buffer (?q[i := f ?it]) = map p_buffer ?q"
      using i by (simp add: map_update f list_update_same_conv)
    then show ?thesis
      using assms(1) buffers_distinct_cong [of "?q[i := f ?it]" ?q] by (simp add: core_inv_def buffers_ok_def)
  qed
  moreover have "count_if item_used (?q[i := f ?it]) = count_if item_used ?q"
    using i by (intro count_if_same) (simp_all add: f)
  ultimately show ?thesis
    using assms(1) by (auto simp: queue_upd_def core_inv_def queue_inv_def buffers_ok_def
        dest!: subsetD [OF set_update_subset_insert])
qed

lemma queue_upd_answerable:
  assumes "answerable s" "i < length (m_queue (c_queue s))" "retimed (m_queue (c_queue s) ! i) (f (m_queue (c_queue s) ! i))"
  shows "answerable (queue_upd s i f)"
  using assms nth_mem [OF assms(2)]
  by (auto simp: answerable_def queue_upd_def retimed_def dest!: subsetD [OF set_update_subset_insert])

lemma pending_datagram:
  assumes "core_inv s" "i < COAP_MESSAGE_QUEUE_SIZE" "item_used (m_queue (c_queue s) ! i)"
  obtains bs where "datagram_of s (m_queue (c_queue s) ! i) = Inr bs"
proof -
  obtain j where j: "j < TOTAL_BLOCK_COUNT" "p_buffer (m_queue (c_queue s) ! i) = block_ptr j"
    "unat (buffer_len (m_queue (c_queue s) ! i)) \<le> block_bytes j"
    using assms by (rule pending_buffer_live)
  then have "unat (buffer_len (m_queue (c_queue s) ! i)) \<le> length (c_heap s (block_offset j))"
    using assms(1) by (simp add: core_inv_def pool_heap_def)
  then show thesis using that j by (simp add: datagram_of_def arr_read_eq)
qed

lemma nth_queue_upd:
  "i < length (m_queue (c_queue s)) \<Longrightarrow> m_queue (c_queue (queue_upd s i f)) ! i = f (m_queue (c_queue s) ! i)"
  by (simp add: queue_upd_def)

definition retransmitted :: "coap_queue_item_t \<Rightarrow> coap_queue_item_t" where
  "retransmitted it = it\<lparr>timeout := timeout_val it * 2, timeout_val := timeout_val it * 2, retrans_count := retrans_count it + 1\<rparr>"

definition keeps_others :: "nat \<Rightarrow> 'w coap_state \<Rightarrow> 'w coap_state \<Rightarrow> bool" where
  "keeps_others i s s' \<longleftrightarrow> m_coap_empty_message s' = m_coap_empty_message s \<and> (\<forall>k < COAP_MESSAGE_QUEUE_SIZE. k \<noteq> i \<longrightarrow> item_used (m_queue (c_queue s) ! k) \<longrightarrow>
     m_queue (c_queue s') ! k = m_queue (c_queue s) ! k)"

lemma keeps_others_trans: "keeps_others i s t \<Longrightarrow> keeps_others i t u \<Longrightarrow> keeps_others i s u"
  by (simp add: keeps_others_def)

lemma keeps_others_grows:
  "grows s t \<Longrightarrow> m_coap_empty_message t = m_coap_empty_message s \<Longrightarrow> keeps_others i s t"
  by (simp add: keeps_others_def grows_def)

lemma keeps_others_upd [simp]: "keeps_others i s (queue_upd s i f)"
  by (simp add: keeps_others_def queue_upd_def)

lemma tick_retransmit_ok:
  assumes "app_ok E" "core_inv s" "i < COAP_MESSAGE_QUEUE_SIZE" "item_used (m_queue (c_queue s) ! i)"
  obtains s' where "tick_retransmit E s i (m_queue (c_queue s) ! i) = Inr s'" "core_inv s'" "answerable s \<Longrightarrow> answerable s'"
    "m_queue (c_queue s') ! i = retransmitted (m_queue (c_queue s) ! i)" "keeps_others i s s'"
proof -
  let ?it = "m_queue (c_queue s) ! i"
  define s1 where "s1 = queue_upd s i retransmitted"
  have i: "i < length (m_queue (c_queue s))" using assms(2,3) core_invD(5) by metis
  have rt: "retimed ?it (retransmitted ?it)" by (auto simp: retimed_def retransmitted_def)
  have s1: "core_inv s1" "answerable s \<Longrightarrow> answerable s1" "m_queue (c_queue s1) ! i = retransmitted ?it"
    using assms(2,3) i rt queue_upd_inv queue_upd_answerable by (simp_all add: s1_def nth_queue_upd)
  obtain bs where bs: "datagram_of s ?it = Inr bs" using assms(2-4) by (rule pending_datagram)
  obtain e w where w: "env_write E (q_port ?it) (q_remote ?it) bs (world s1) = (e, w)" by force
  have heap: "c_heap s1 = c_heap s" by (simp add: s1_def queue_upd_def)
  have upd: "queue_upd s i (\<lambda>it. it\<lparr>timeout := timeout_val it * 2, timeout_val := timeout_val it * 2,
                                      retrans_count := retrans_count it + 1\<rparr>) = s1"
    by (simp add: s1_def retransmitted_def [abs_def])
  have eq: "tick_retransmit E s i ?it
      = (if e \<noteq> NRF_SUCCESS then app_error_notify E e None (s1\<lparr>world := w\<rparr>) else Inr (s1\<lparr>world := w\<rparr>))"
    unfolding tick_retransmit_def upd Let_def using bs by (simp add: datagram_of_def heap w)
  have step: "app_step (s1\<lparr>world := w\<rparr>)
      (if e \<noteq> NRF_SUCCESS then app_error_notify E e None (s1\<lparr>world := w\<rparr>) else Inr (s1\<lparr>world := w\<rparr>))"
    using s1(1) assms(1) by (simp add: app_step_refl error_notify_ok)
  then obtain s' where s': "tick_retransmit E s i ?it = Inr s'" "grows (s1\<lparr>world := w\<rparr>) s'"
    "answerable (s1\<lparr>world := w\<rparr>) \<longrightarrow> answerable s'" "m_coap_empty_message s' = m_coap_empty_message (s1\<lparr>world := w\<rparr>)"
    unfolding eq app_step_def by blast
  have "item_used (retransmitted ?it)" using assms(4) by (simp add: retransmitted_def)
  then have "m_queue (c_queue s') ! i = retransmitted ?it"
    using s'(2) s1(3) assms(3) by (simp add: grows_def)
  moreover have "answerable s \<Longrightarrow> answerable s'" using s'(3) s1(2) by (simp add: answerable_def)
  moreover have "keeps_others i s s'"
    using keeps_others_grows [OF s'(2,4), of i] keeps_others_upd [of i s retransmitted]
    by (simp add: keeps_others_def s1_def)
  ultimately show thesis using that s'(1) grows_inv [OF s'(2)] by blast
qed

text \<open>A slot that is due: the retransmission, where one is left, is followed by the timeout in the same turn.\<close>

definition expire :: "'w coap_state \<Rightarrow> nat \<Rightarrow> 'w coap_state" where
  "expire s i = block_free s (p_buffer (m_queue (c_queue s) ! i))
     \<lparr>c_queue := snd (coap_queue_remove (c_queue s) (Some i))\<rparr>"

lemma block_free_queue [simp]: "c_queue (block_free s p) = c_queue s" "world (block_free s p) = world s"
  "c_heap (block_free s p) = c_heap s"
  by (simp_all add: block_free_def)

lemma expire_answerable: "answerable s \<Longrightarrow> answerable (expire s i)"
  by (auto simp: answerable_def expire_def coap_queue_remove_def queue_item_zero_def
      dest!: subsetD [OF set_update_subset_insert])

lemma retransmitted_last: "retrans_count it < COAP_MAX_RETRANSMIT_COUNT \<Longrightarrow>
  retrans_count (retransmitted it) \<ge> COAP_MAX_RETRANSMIT_COUNT"
proof -
  assume "retrans_count it < COAP_MAX_RETRANSMIT_COUNT"
  then have "unat (retrans_count it) = 0" by (simp add: c_consts word_less_nat_alt)
  then have "retrans_count it = 0" by (simp add: word_unat_eq_iff)
  then show ?thesis by (simp add: retransmitted_def c_consts)
qed

definition last_item :: "coap_queue_item_t \<Rightarrow> coap_queue_item_t" where
  "last_item it = (if retrans_count it < COAP_MAX_RETRANSMIT_COUNT then retransmitted it else it)"

lemma last_item_fields [simp]: "p_buffer (last_item it) = p_buffer it" "callback (last_item it) = callback it"
  "q_arg (last_item it) = q_arg it" "retrans_count (last_item it) \<ge> COAP_MAX_RETRANSMIT_COUNT"
  using retransmitted_last [of it] by (auto simp: last_item_def retransmitted_def)

definition retransmit_first :: "'w coap_env \<Rightarrow> 'w coap_state \<Rightarrow> nat \<Rightarrow> fault + 'w coap_state" where
  "retransmit_first E s i =
     (let it = m_queue (c_queue s) ! i
      in if retrans_count it < COAP_MAX_RETRANSMIT_COUNT then tick_retransmit E s i it else Inr s)"

lemma retransmit_first_ok:
  assumes "app_ok E" "core_inv s" "i < COAP_MESSAGE_QUEUE_SIZE" "item_used (m_queue (c_queue s) ! i)"
  obtains s' where "retransmit_first E s i = Inr s'" "core_inv s'" "answerable s \<Longrightarrow> answerable s'"
    "m_queue (c_queue s') ! i = last_item (m_queue (c_queue s) ! i)" "keeps_others i s s'"
proof (cases "retrans_count (m_queue (c_queue s) ! i) < COAP_MAX_RETRANSMIT_COUNT")
  case True
  from assms obtain s' where "tick_retransmit E s i (m_queue (c_queue s) ! i) = Inr s'" "core_inv s'"
    "answerable s \<Longrightarrow> answerable s'" "m_queue (c_queue s') ! i = retransmitted (m_queue (c_queue s) ! i)"
    "keeps_others i s s'" by (rule tick_retransmit_ok) blast
  then show thesis using that True by (simp add: retransmit_first_def Let_def last_item_def)
next
  case False
  then show thesis using that [of s] assms(2)
    by (simp add: retransmit_first_def Let_def last_item_def keeps_others_def)
qed

lemma tick_item_waiting:
  assumes "core_inv s" "i < COAP_MESSAGE_QUEUE_SIZE" "timeout (m_queue (c_queue s) ! i) \<noteq> 0"
  shows "tick_item E s i = Inr (queue_upd s i (\<lambda>it. it\<lparr>timeout := timeout it - 1\<rparr>))"
  using assms core_invD(5) [OF assms(1)] by (simp add: tick_item_def)

text \<open>The turn for a slot that is due, with the states in between made explicit.\<close>

lemma tick_item_due:
  assumes "core_inv s" "i < COAP_MESSAGE_QUEUE_SIZE" "timeout (m_queue (c_queue s) ! i) = 0"
    and "retransmit_first E s i = Inr s1" "core_inv s1" "m_queue (c_queue s1) ! i = last_item (m_queue (c_queue s) ! i)"
  shows "tick_item E s i = (case callback (m_queue (c_queue s) ! i) of
      None \<Rightarrow> Inl NullDereference
    | Some cb \<Rightarrow> c_bind (env_response E cb COAP_TRANSMISSION_TIMEOUT (q_arg (m_queue (c_queue s) ! i)) None s1)
        (\<lambda>s2. c_bind (arr_get (m_queue (c_queue s2)) i) (\<lambda>_. Inr (expire s2 i))))"
proof -
  have "length (m_queue (c_queue s1)) = COAP_MESSAGE_QUEUE_SIZE" "length (m_queue (c_queue s)) = COAP_MESSAGE_QUEUE_SIZE"
    using assms(1,5) core_invD(5) by blast+
  then show ?thesis
    using assms(2,3,4,6)
    by (simp add: tick_item_def retransmit_first_def Let_def expire_def)
      (auto simp: arr_get_def expire_def split: option.split if_splits intro!: c_bind_cong)
qed

lemma tick_item_ok:
  assumes "app_ok E" "core_inv s" "i < COAP_MESSAGE_QUEUE_SIZE" "item_used (m_queue (c_queue s) ! i)"
  obtains (ok) s' where "tick_item E s i = Inr s'" "core_inv s'" "answerable s \<Longrightarrow> answerable s'" "keeps_others i s s'"
  | (null) "tick_item E s i = Inl NullDereference" "timeout (m_queue (c_queue s) ! i) = 0"
      "callback (m_queue (c_queue s) ! i) = None"
proof (cases "timeout (m_queue (c_queue s) ! i) = 0")
  case False
  let ?dec = "\<lambda>it :: coap_queue_item_t. it\<lparr>timeout := timeout it - 1\<rparr>"
  have rt: "retimed (m_queue (c_queue s) ! i) (?dec (m_queue (c_queue s) ! i))"
    unfolding retimed_def by (rule exI [of _ "timeout (m_queue (c_queue s) ! i) - 1"],
      rule exI [of _ "timeout_val (m_queue (c_queue s) ! i)"], rule exI [of _ "retrans_count (m_queue (c_queue s) ! i)"]) simp
  show thesis
    using ok [OF tick_item_waiting [OF assms(2,3) False]] queue_upd_inv [OF assms(2,3), of ?dec] rt
      queue_upd_answerable [of s i ?dec] core_invD(5) [OF assms(2)] assms(3) by simp
next
  case True
  let ?it = "m_queue (c_queue s) ! i"
  from assms obtain s1 where s1: "retransmit_first E s i = Inr s1" "core_inv s1" "answerable s \<Longrightarrow> answerable s1"
    "m_queue (c_queue s1) ! i = last_item ?it" "keeps_others i s s1" by (rule retransmit_first_ok) blast
  note due = tick_item_due [OF assms(2,3) True s1(1,2,4)]
  show thesis
  proof (cases "callback ?it")
    case None
    then show thesis using null due True by simp
  next
    case (Some cb)
    have "app_step s1 (env_response E cb COAP_TRANSMISSION_TIMEOUT (q_arg ?it) None s1)"
      using assms(1) s1(2) by (simp add: app_ok_def)
    then obtain s2 where s2: "env_response E cb COAP_TRANSMISSION_TIMEOUT (q_arg ?it) None s1 = Inr s2" "grows s1 s2"
      "answerable s1 \<longrightarrow> answerable s2" "m_coap_empty_message s2 = m_coap_empty_message s1"
      by (auto simp: app_step_def)
    have inv2: "core_inv s2" using s2(2) by (rule grows_inv)
    have it2: "item_used (m_queue (c_queue s2) ! i)"
      using s2(2) s1(4) assms(3,4) by (simp add: grows_def)
    have "tick_item E s i = Inr (expire s2 i)"
      using due Some s2(1) assms(3) core_invD(5) [OF inv2] by simp
    moreover have "core_inv (expire s2 i)"
      using core_inv_expire [OF inv2 _ it2] assms(3) core_invD(5) [OF inv2] by (simp add: expire_def)
    moreover have "keeps_others i s2 (expire s2 i)"
      by (simp add: keeps_others_def expire_def coap_queue_remove_def block_free_def)
    then have "keeps_others i s (expire s2 i)"
      using s1(5) keeps_others_grows [OF s2(2,4)] keeps_others_trans by blast
    ultimately show thesis using ok s1(3) s2(3) expire_answerable by blast
  qed
qed

section \<open>The loop is a scan of the table\<close>

fun tick_scan :: "'w coap_env \<Rightarrow> nat list \<Rightarrow> 'w coap_state \<Rightarrow> fault + 'w coap_state" where
  "tick_scan E [] s = Inr s"
| "tick_scan E (i # is) s =
     c_bind (if item_used (m_queue (c_queue s) ! i) then tick_item E s i else Inr s) (tick_scan E is)"

lemma tick_scan_unused:
  assumes "\<forall>j \<in> set is. \<not> item_used (m_queue (c_queue s) ! j)"
  shows "tick_scan E (is @ js) s = tick_scan E js s"
  using assms by (induction "is") simp_all

definition loop_start :: "nat option \<Rightarrow> nat" where
  "loop_start p = (case p of None \<Rightarrow> 0 | Some i \<Rightarrow> Suc i)"

lemma next_get_eq: "coap_queue_item_next_get q p =
  (case find_next item_used (loop_start p) (m_queue q) of
     Some i \<Rightarrow> (NRF_SUCCESS, Some i) | None \<Rightarrow> (NRF_ERROR_NOT_FOUND OR IOT_COAP_ERR_BASE, None))"
  by (auto simp: coap_queue_item_next_get_def loop_start_def find_first_def find_next_def split: option.split)

text \<open>The walk with \<open>coap_queue_item_next_get\<close> visits the used slots in order, also when the turns change the
  queue, and 9 rounds are enough.\<close>

lemma tick_loop_scan:
  assumes P: "\<And>s. P s \<Longrightarrow> length (m_queue (c_queue s)) = COAP_MESSAGE_QUEUE_SIZE"
    and step: "\<And>s i s'. P s \<Longrightarrow> i < COAP_MESSAGE_QUEUE_SIZE \<Longrightarrow> item_used (m_queue (c_queue s) ! i) \<Longrightarrow>
      tick_item E s i = Inr s' \<Longrightarrow> P s'"
    and "P s" "COAP_MESSAGE_QUEUE_SIZE - loop_start p < fuel" "loop_start p \<le> COAP_MESSAGE_QUEUE_SIZE"
  shows "tick_loop fuel E s p = tick_scan E [loop_start p..<COAP_MESSAGE_QUEUE_SIZE] s"
  using assms(3-5)
proof (induction fuel arbitrary: s p)
  case (Suc fuel)
  have len: "length (m_queue (c_queue s)) = COAP_MESSAGE_QUEUE_SIZE" using P Suc.prems(1) .
  show ?case
  proof (cases "find_next item_used (loop_start p) (m_queue (c_queue s))")
    case None
    then have "\<forall>j \<in> set [loop_start p..<COAP_MESSAGE_QUEUE_SIZE]. \<not> item_used (m_queue (c_queue s) ! j)"
      using len by (simp add: find_next_None)
    then have "tick_scan E ([loop_start p..<COAP_MESSAGE_QUEUE_SIZE] @ []) s = tick_scan E [] s"
      by (rule tick_scan_unused)
    then show ?thesis using None by (simp add: next_get_eq)
  next
    case (Some i)
    then have i: "loop_start p \<le> i" "i < COAP_MESSAGE_QUEUE_SIZE" "item_used (m_queue (c_queue s) ! i)"
      "\<And>j. loop_start p \<le> j \<Longrightarrow> j < i \<Longrightarrow> \<not> item_used (m_queue (c_queue s) ! j)"
      using len by (auto simp: find_next_Some)
    have "[loop_start p..<COAP_MESSAGE_QUEUE_SIZE] = [loop_start p..<i] @ i # [Suc i..<COAP_MESSAGE_QUEUE_SIZE]"
      using i(1,2) by (metis le_add_diff_inverse less_imp_le_nat upt_add_eq_append upt_conv_Cons)
    moreover have "\<forall>j \<in> set [loop_start p..<i]. \<not> item_used (m_queue (c_queue s) ! j)" using i(4) by simp
    ultimately have scan: "tick_scan E [loop_start p..<COAP_MESSAGE_QUEUE_SIZE] s
        = c_bind (tick_item E s i) (tick_scan E [Suc i..<COAP_MESSAGE_QUEUE_SIZE])"
      using i(3) by (simp only: tick_scan_unused) simp
    have loop: "tick_loop (Suc fuel) E s p = c_bind (tick_item E s i) (\<lambda>s1. tick_loop fuel E s1 (Some i))"
      using Some by (simp add: next_get_eq)
    have "tick_loop fuel E s' (Some i) = tick_scan E [loop_start (Some i)..<COAP_MESSAGE_QUEUE_SIZE] s'"
      if "tick_item E s i = Inr s'" for s'
      using Suc.prems(2) i(1,2) step [OF Suc.prems(1) i(2,3) that]
      by (intro Suc.IH) (simp_all add: loop_start_def)
    then show ?thesis unfolding loop scan by (intro c_bind_cong) (simp_all add: loop_start_def)
  qed
qed simp

lemma coap_time_tick_scan:
  assumes "\<And>s. P s \<Longrightarrow> length (m_queue (c_queue s)) = COAP_MESSAGE_QUEUE_SIZE"
    and "\<And>s i s'. P s \<Longrightarrow> i < COAP_MESSAGE_QUEUE_SIZE \<Longrightarrow> item_used (m_queue (c_queue s) ! i) \<Longrightarrow>
      tick_item E s i = Inr s' \<Longrightarrow> P s'" and "P s"
  shows "coap_time_tick E s = c_bind (tick_scan E [0..<COAP_MESSAGE_QUEUE_SIZE] s) (\<lambda>s1. Inr (NRF_SUCCESS, s1))"
proof -
  have "tick_loop (Suc COAP_MESSAGE_QUEUE_SIZE) E s None = tick_scan E [loop_start None..<COAP_MESSAGE_QUEUE_SIZE] s"
    using assms by (rule tick_loop_scan) (simp_all add: loop_start_def)
  then show ?thesis by (simp add: coap_time_tick_def loop_start_def)
qed

lemma coap_time_tick_app:
  assumes "app_ok E" "core_inv s"
  shows "coap_time_tick E s = c_bind (tick_scan E [0..<COAP_MESSAGE_QUEUE_SIZE] s) (\<lambda>s1. Inr (NRF_SUCCESS, s1))"
proof (rule coap_time_tick_scan [where P = core_inv])
  show "core_inv s'" if "core_inv t" "i < COAP_MESSAGE_QUEUE_SIZE" "item_used (m_queue (c_queue t) ! i)"
    "tick_item E t i = Inr s'" for t i s'
    using assms(1) that(1-3) by (rule tick_item_ok) (use that(4) in simp_all)
qed (use assms core_invD(5) in auto)

lemma tick_scan_ok:
  assumes "app_ok E" "core_inv s" "answerable s" "\<forall>i \<in> set is. i < COAP_MESSAGE_QUEUE_SIZE"
  shows "\<exists>s'. tick_scan E is s = Inr s' \<and> core_inv s' \<and> answerable s' \<and> m_coap_empty_message s' = m_coap_empty_message s"
  using assms(2-4)
proof (induction "is" arbitrary: s)
  case (Cons i "is")
  have ind: "core_inv t \<Longrightarrow> answerable t \<Longrightarrow> \<exists>s'. tick_scan E is t = Inr s' \<and> core_inv s' \<and> answerable s' \<and>
      m_coap_empty_message s' = m_coap_empty_message t" for t
    using Cons.IH Cons.prems(3) by simp
  show ?case
  proof (cases "item_used (m_queue (c_queue s) ! i)")
    case True
    have i: "i < COAP_MESSAGE_QUEUE_SIZE" using Cons.prems(3) by simp
    from assms(1) Cons.prems(1) i True show ?thesis
    proof (cases rule: tick_item_ok)
      case (ok s')
      then show ?thesis using ind [of s'] Cons.prems(2) True by (simp add: keeps_others_def)
    next
      case null
      then show ?thesis
        using Cons.prems(2) True i core_invD(5) [OF Cons.prems(1)] nth_mem [of i "m_queue (c_queue s)"]
        by (auto simp: answerable_def)
    qed
  qed (use ind Cons.prems in simp)
qed simp

section \<open>The schedule\<close>

text \<open>
  An environment whose transport accepts every datagram and whose response callbacks do not call back
  into the module: \<open>resp\<close> is what they do to the world.
\<close>

definition quiet_env :: "'w coap_env \<Rightarrow> (nat \<Rightarrow> u32 \<Rightarrow> nat option \<Rightarrow> coap_message_t option \<Rightarrow> 'w \<Rightarrow> 'w) \<Rightarrow> bool" where
  "quiet_env E resp \<longleftrightarrow> (\<forall>prt rmt bs w. fst (env_write E prt rmt bs w) = NRF_SUCCESS) \<and>
     (\<forall>cb st arg m s. env_response E cb st arg m s = Inr (s\<lparr>world := resp cb st arg m (world s)\<rparr>))"

definition due :: "coap_queue_item_t \<Rightarrow> bool" where
  "due it \<longleftrightarrow> item_used it \<and> timeout it = 0"

text \<open>What a tick does to a slot, and to the world on its behalf.\<close>

definition tick_slot :: "coap_queue_item_t \<Rightarrow> coap_queue_item_t" where
  "tick_slot it = (if \<not> item_used it then it else if timeout it = 0 then queue_item_zero
                   else it\<lparr>timeout := timeout it - 1\<rparr>)"

definition tick_world ::
  "'w coap_env \<Rightarrow> (nat \<Rightarrow> u32 \<Rightarrow> nat option \<Rightarrow> coap_message_t option \<Rightarrow> 'w \<Rightarrow> 'w) \<Rightarrow> heap \<Rightarrow> coap_queue_item_t \<Rightarrow> 'w \<Rightarrow> 'w" where
  "tick_world E resp h it w =
     (if due it then
        resp (the (callback it)) COAP_TRANSMISSION_TIMEOUT (q_arg it) None
          (if retrans_count it < COAP_MAX_RETRANSMIT_COUNT then
             (case load_bytes h (p_buffer it) (unat (buffer_len it)) of
                Inr bs \<Rightarrow> snd (env_write E (q_port it) (q_remote it) bs w) | Inl _ \<Rightarrow> w)
           else w)
      else w)"

lemma expire_live:
  assumes "core_inv s" "i < COAP_MESSAGE_QUEUE_SIZE" "item_used (m_queue (c_queue s) ! i)"
  shows "mm_live (c_mm (expire s i)) = mm_live (c_mm s) - {p_buffer (m_queue (c_queue s) ! i)}"
proof -
  obtain j where "j < TOTAL_BLOCK_COUNT" "p_buffer (m_queue (c_queue s) ! i) = block_ptr j"
    using assms by (rule pending_buffer_live)
  then show ?thesis
    using assms(1) by (simp add: expire_def block_free_block mem_mark_live core_inv_def)
qed

lemma retransmit_first_quiet:
  assumes "quiet_env E resp" "core_inv s" "i < COAP_MESSAGE_QUEUE_SIZE" "item_used (m_queue (c_queue s) ! i)"
  defines "it \<equiv> m_queue (c_queue s) ! i"
  shows "retransmit_first E s i = Inr
    (if retrans_count it < COAP_MAX_RETRANSMIT_COUNT
     then (queue_upd s i retransmitted)\<lparr>world := (case load_bytes (c_heap s) (p_buffer it) (unat (buffer_len it)) of
                Inr bs \<Rightarrow> snd (env_write E (q_port it) (q_remote it) bs (world s)) | Inl _ \<Rightarrow> world s)\<rparr>
     else s)"
proof -
  obtain bs where bs: "datagram_of s it = Inr bs" using assms(2-4) unfolding it_def by (rule pending_datagram)
  obtain w where w: "env_write E (q_port it) (q_remote it) bs (world s) = (NRF_SUCCESS, w)"
    using assms(1) by (metis quiet_env_def prod.collapse)
  have upd: "queue_upd s i (\<lambda>it. it\<lparr>timeout := timeout_val it * 2, timeout_val := timeout_val it * 2,
                                      retrans_count := retrans_count it + 1\<rparr>) = queue_upd s i retransmitted"
    by (simp add: retransmitted_def [abs_def])
  have "c_heap (queue_upd s i f) = c_heap s" "world (queue_upd s i f) = world s" for f
    by (simp_all add: queue_upd_def)
  then show ?thesis
    using bs w by (simp add: retransmit_first_def tick_retransmit_def upd Let_def datagram_of_def it_def [symmetric])
qed

lemma tick_item_quiet:
  assumes "quiet_env E resp" "core_inv s" "answerable s" "i < COAP_MESSAGE_QUEUE_SIZE"
  defines "it \<equiv> m_queue (c_queue s) ! i"
  obtains s' where "(if item_used it then tick_item E s i else Inr s) = Inr s'" "core_inv s'" "answerable s'"
    "m_queue (c_queue s') = (m_queue (c_queue s))[i := tick_slot it]" "c_heap s' = c_heap s"
    "world s' = tick_world E resp (c_heap s) it (world s)"
    "mm_live (c_mm s') = mm_live (c_mm s) - (if due it then {p_buffer it} else {})"
proof (cases "item_used it")
  case False
  then show thesis using that [of s] assms(2,3) by (simp add: tick_slot_def tick_world_def due_def it_def)
next
  case used: True
  have len: "length (m_queue (c_queue s)) = COAP_MESSAGE_QUEUE_SIZE" using core_invD(5) [OF assms(2)] .
  show thesis
  proof (cases "timeout it = 0")
    case False
    let ?dec = "\<lambda>it :: coap_queue_item_t. it\<lparr>timeout := timeout it - 1\<rparr>"
    have rt: "retimed it (?dec it)"
      unfolding retimed_def by (rule exI [of _ "timeout it - 1"], rule exI [of _ "timeout_val it"],
        rule exI [of _ "retrans_count it"]) simp
    show thesis
      using that [of "queue_upd s i ?dec"] tick_item_waiting [OF assms(2,4)] False used rt assms(2-4) len
        queue_upd_inv [OF assms(2,4), of ?dec] queue_upd_answerable [of s i ?dec]
      by (simp add: it_def [symmetric] tick_slot_def tick_world_def due_def)
        (simp add: queue_upd_def it_def)
  next
    case True
    define s1 where "s1 = (if retrans_count it < COAP_MAX_RETRANSMIT_COUNT
     then (queue_upd s i retransmitted)\<lparr>world := (case load_bytes (c_heap s) (p_buffer it) (unat (buffer_len it)) of
                Inr bs \<Rightarrow> snd (env_write E (q_port it) (q_remote it) bs (world s)) | Inl _ \<Rightarrow> world s)\<rparr>
     else s)"
    have rf: "retransmit_first E s i = Inr s1"
      using retransmit_first_quiet [OF assms(1,2,4)] used unfolding s1_def it_def by simp
    have rt: "retimed it (retransmitted it)" by (auto simp: retimed_def retransmitted_def)
    have s1: "core_inv s1" "answerable s1" "m_queue (c_queue s1) ! i = last_item it" "c_mm s1 = c_mm s"
      "c_heap s1 = c_heap s" "m_queue (c_queue s1) = (m_queue (c_queue s))[i := last_item it]"
      using assms(2-4) rt len queue_upd_inv [OF assms(2,4), of retransmitted] queue_upd_answerable [of s i retransmitted]
      by (simp_all add: s1_def it_def last_item_def nth_queue_upd queue_upd_def answerable_def)
    obtain cb where cb: "callback it = Some cb"
      using assms(3,4) used len nth_mem [of i "m_queue (c_queue s)"] by (auto simp: answerable_def it_def)
    define s2 where "s2 = s1\<lparr>world := resp cb COAP_TRANSMISSION_TIMEOUT (q_arg it) None (world s1)\<rparr>"
    have inv2: "core_inv s2" and ans2: "answerable s2" and it2: "m_queue (c_queue s2) ! i = last_item it"
      using s1 by (simp_all add: s2_def answerable_def)
    have used2: "item_used (m_queue (c_queue s2) ! i)" using used it2 by simp
    have item: "tick_item E s i = Inr (expire s2 i)"
      using tick_item_due [OF assms(2,4) True [unfolded it_def] rf s1(1)] s1(3) cb assms(1,4) core_invD(5) [OF inv2]
      by (simp add: it_def [symmetric] quiet_env_def s2_def)
    show thesis
    proof (rule that [of "expire s2 i"])
      show "(if item_used it then tick_item E s i else Inr s) = Inr (expire s2 i)" using item used by simp
      show "core_inv (expire s2 i)"
        using core_inv_expire [OF inv2 _ used2] assms(4) core_invD(5) [OF inv2] by (simp add: expire_def)
      show "answerable (expire s2 i)" using ans2 by (rule expire_answerable)
      show "m_queue (c_queue (expire s2 i)) = (m_queue (c_queue s))[i := tick_slot it]"
        using used True assms(4) len s1(6) by (simp add: expire_def coap_queue_remove_def tick_slot_def s2_def)
      show "c_heap (expire s2 i) = c_heap s" using s1(5) by (simp add: expire_def s2_def)
      show "world (expire s2 i) = tick_world E resp (c_heap s) it (world s)"
        using used True cb by (simp add: expire_def s2_def tick_world_def due_def s1_def)
      show "mm_live (c_mm (expire s2 i)) = mm_live (c_mm s) - (if due it then {p_buffer it} else {})"
        using expire_live [OF inv2 assms(4) used2] it2 used True s1(4) by (simp add: due_def s2_def)
    qed
  qed
qed

definition due_buffers :: "coap_queue_item_t list \<Rightarrow> ptr set" where
  "due_buffers its = p_buffer ` {it \<in> set its. due it}"

lemma tick_scan_quiet:
  assumes "quiet_env E resp" "core_inv s" "answerable s" "k \<le> COAP_MESSAGE_QUEUE_SIZE"
  shows "\<exists>s'. tick_scan E [k..<COAP_MESSAGE_QUEUE_SIZE] s = Inr s' \<and> core_inv s' \<and> answerable s' \<and>
    m_queue (c_queue s') = take k (m_queue (c_queue s)) @ map tick_slot (drop k (m_queue (c_queue s))) \<and>
    c_heap s' = c_heap s \<and> world s' = fold (tick_world E resp (c_heap s)) (drop k (m_queue (c_queue s))) (world s) \<and>
    mm_live (c_mm s') = mm_live (c_mm s) - due_buffers (drop k (m_queue (c_queue s)))"
  using assms(2-4)
proof (induction "COAP_MESSAGE_QUEUE_SIZE - k" arbitrary: k s)
  case 0
  then show ?case using core_invD(5) [OF "0.prems"(1)] by (intro exI [of _ s]) (simp add: due_buffers_def)
next
  case (Suc n)
  let ?it = "m_queue (c_queue s) ! k"
  have k: "k < COAP_MESSAGE_QUEUE_SIZE" using Suc.hyps(2) by simp
  have len: "length (m_queue (c_queue s)) = COAP_MESSAGE_QUEUE_SIZE" using core_invD(5) [OF Suc.prems(1)] .
  obtain s1 where s1: "(if item_used ?it then tick_item E s k else Inr s) = Inr s1" "core_inv s1" "answerable s1"
    "m_queue (c_queue s1) = (m_queue (c_queue s))[k := tick_slot ?it]" "c_heap s1 = c_heap s"
    "world s1 = tick_world E resp (c_heap s) ?it (world s)"
    "mm_live (c_mm s1) = mm_live (c_mm s) - (if due ?it then {p_buffer ?it} else {})"
    using tick_item_quiet [OF assms(1) Suc.prems(1,2) k] by blast
  obtain s' where s': "tick_scan E [Suc k..<COAP_MESSAGE_QUEUE_SIZE] s1 = Inr s'" "core_inv s'" "answerable s'"
    "m_queue (c_queue s') = take (Suc k) (m_queue (c_queue s1)) @ map tick_slot (drop (Suc k) (m_queue (c_queue s1)))"
    "c_heap s' = c_heap s1" "world s' = fold (tick_world E resp (c_heap s1)) (drop (Suc k) (m_queue (c_queue s1))) (world s1)"
    "mm_live (c_mm s') = mm_live (c_mm s1) - due_buffers (drop (Suc k) (m_queue (c_queue s1)))"
  proof -
    have "n = COAP_MESSAGE_QUEUE_SIZE - Suc k" using Suc.hyps(2) by simp
    from Suc.hyps(1) [OF this s1(2,3)] k that show thesis by auto
  qed
  have d: "drop k (m_queue (c_queue s)) = ?it # drop (Suc k) (m_queue (c_queue s))"
    using k len by (simp add: Cons_nth_drop_Suc)
  have d1: "drop (Suc k) (m_queue (c_queue s1)) = drop (Suc k) (m_queue (c_queue s))"
    "take (Suc k) (m_queue (c_queue s1)) = take k (m_queue (c_queue s)) @ [tick_slot ?it]"
    using k len by (simp_all add: s1(4) take_Suc_update)
  have "[k..<COAP_MESSAGE_QUEUE_SIZE] = k # [Suc k..<COAP_MESSAGE_QUEUE_SIZE]" using k by (rule upt_conv_Cons)
  then have "tick_scan E [k..<COAP_MESSAGE_QUEUE_SIZE] s = Inr s'"
    using s1(1) s'(1) by simp
  then show ?case
    using s' d1 s1(5-7) unfolding d by (intro exI [of _ s']) (auto simp: due_buffers_def)
qed

lemma coap_time_tick_quiet:
  assumes "quiet_env E resp" "core_inv s" "answerable s"
  shows "coap_time_tick E s = c_bind (tick_scan E [0..<COAP_MESSAGE_QUEUE_SIZE] s) (\<lambda>s1. Inr (NRF_SUCCESS, s1))"
proof (rule coap_time_tick_scan [where P = "\<lambda>s. core_inv s \<and> answerable s"])
  show "core_inv s' \<and> answerable s'" if "core_inv t \<and> answerable t" "i < COAP_MESSAGE_QUEUE_SIZE"
    "item_used (m_queue (c_queue t) ! i)" "tick_item E t i = Inr s'" for t i s'
    using tick_item_quiet [OF assms(1) conjunct1 [OF that(1)] conjunct2 [OF that(1)] that(2)] that(3,4)
    by (metis sum.inject(2))
qed (use assms core_invD(5) in auto)

section \<open>Sequences of ticks\<close>

fun coap_ticks :: "nat \<Rightarrow> 'w coap_env \<Rightarrow> 'w coap_state \<Rightarrow> fault + 'w coap_state" where
  "coap_ticks 0 E s = Inr s"
| "coap_ticks (Suc n) E s = c_bind (coap_time_tick E s) (\<lambda>(e, s1). coap_ticks n E s1)"

definition trace_resp ::
  "nat \<Rightarrow> u32 \<Rightarrow> nat option \<Rightarrow> coap_message_t option \<Rightarrow> wire_event list \<Rightarrow> wire_event list" where
  "trace_resp cb st arg m w = w @ [Response_Call cb st arg m]"

lemma trace_quiet: "quiet_env trace_env trace_resp"
  by (simp add: quiet_env_def trace_env_def trace_resp_def)

definition timeout_call :: "coap_queue_item_t \<Rightarrow> wire_event" where
  "timeout_call it = Response_Call (the (callback it)) COAP_TRANSMISSION_TIMEOUT (q_arg it) None"

lemma tick_world_trace: "\<exists>ys. tick_world trace_env trace_resp h it w = w @ ys \<and> (due it \<longrightarrow> timeout_call it \<in> set ys)"
  by (auto simp: tick_world_def trace_resp_def trace_env_def timeout_call_def split: sum.split)

lemma fold_tick_world_trace:
  "\<exists>ys. fold (tick_world trace_env trace_resp h) its w = w @ ys \<and> (\<forall>it \<in> set its. due it \<longrightarrow> timeout_call it \<in> set ys)"
proof (induction its arbitrary: w)
  case (Cons it its)
  obtain ys where ys: "tick_world trace_env trace_resp h it w = w @ ys" "due it \<longrightarrow> timeout_call it \<in> set ys"
    using tick_world_trace by blast
  obtain zs where "fold (tick_world trace_env trace_resp h) its (w @ ys) = (w @ ys) @ zs"
    "\<forall>it \<in> set its. due it \<longrightarrow> timeout_call it \<in> set zs" using Cons.IH by blast
  then show ?case using ys by (intro exI [of _ "ys @ zs"]) auto
qed simp

lemma pending_items: "it \<in># pending q \<longleftrightarrow> it \<in> set (m_queue q) \<and> item_used it"
  by (simp add: pending_def table_items_def)

lemma pending_empty: "pending q = {#} \<longleftrightarrow> (\<forall>it \<in> set (m_queue q). \<not> item_used it)"
  using pending_items [of _ q] by (metis multiset_nonemptyE empty_iff set_mset_empty)

lemma tick_slot_older:
  assumes "item_used it" "\<not> due it" "unat (timeout it) \<le> Suc n"
  shows "item_used (tick_slot it)" "timeout_call (tick_slot it) = timeout_call it" "p_buffer (tick_slot it) = p_buffer it"
    "unat (timeout (tick_slot it)) \<le> n"
proof -
  have nz: "timeout it \<noteq> 0" using assms(1,2) by (simp add: due_def)
  then have "unat (timeout it - 1) = unat (timeout it) - 1" by (rule unat_minus_one)
  then show "item_used (tick_slot it)" "timeout_call (tick_slot it) = timeout_call it" "p_buffer (tick_slot it) = p_buffer it"
    "unat (timeout (tick_slot it)) \<le> n"
    using assms nz by (simp_all add: tick_slot_def timeout_call_def)
qed

lemma tick_slot_used: "p_buffer (tick_slot it) = NULL \<longleftrightarrow> p_buffer it = NULL \<or> due it"
  by (simp add: tick_slot_def due_def queue_item_zero_def)

section \<open>Properties\<close>

text \<open>A tick ends, whatever transport and application do, provided the callbacks return and respect the
  module: it returns NRF_SUCCESS in a state that satisfies the invariant again. Nothing else can happen
  when every pending message has a callback.\<close>

theorem coap_time_tick_returns:
  assumes "app_ok E" "core_inv s" "answerable s"
  shows "\<exists>s'. coap_time_tick E s = Inr (NRF_SUCCESS, s') \<and> core_inv s' \<and> answerable s'"
  using tick_scan_ok [OF assms, of "[0..<COAP_MESSAGE_QUEUE_SIZE]"] coap_time_tick_app [OF assms(1,2)] by auto

text \<open>C5: With a transport that accepts every datagram and callbacks that do not call back into the module, a tick
  is the pointwise update of the slots: a pending message whose timeout is 0 leaves the queue, every
  other one is one tick older. For each message that is due, in the order of the slots, the datagram is sent
  again if no retransmission was made, and the callback is told of the timeout in the same tick, before
  any answer to the retransmission can arrive; its buffer, and no other block, is freed.\<close>

theorem coap_time_tick_schedule:
  assumes "quiet_env E resp" "core_inv s" "answerable s"
  shows "\<exists>s'. coap_time_tick E s = Inr (NRF_SUCCESS, s') \<and>
    m_queue (c_queue s') = map tick_slot (m_queue (c_queue s)) \<and>
    world s' = fold (tick_world E resp (c_heap s)) (m_queue (c_queue s)) (world s) \<and>
    mm_live (c_mm s') = mm_live (c_mm s) - due_buffers (m_queue (c_queue s))"
  using tick_scan_quiet [OF assms, of 0] coap_time_tick_quiet [OF assms] by auto

text \<open>C6: A tick calls the callback of a message that is due without a test for NULL: when some pending message
  that is due was sent without a response callback, the tick dereferences NULL, whatever happens to the
  other messages.\<close>

theorem coap_time_tick_null_callback:
  assumes "app_ok E" "core_inv s" "i < COAP_MESSAGE_QUEUE_SIZE"
    and "due (m_queue (c_queue s) ! i)" "callback (m_queue (c_queue s) ! i) = None"
  shows "coap_time_tick E s = Inl NullDereference"
proof -
  have "tick_scan E is s = Inl NullDereference"
    if "i \<in> set is" "\<forall>j \<in> set is. j < COAP_MESSAGE_QUEUE_SIZE" for "is"
    using assms(2-5) that
  proof (induction "is" arbitrary: s)
    case (Cons j js)
    have j: "j < COAP_MESSAGE_QUEUE_SIZE" using Cons.prems(6) by simp
    show ?case
    proof (cases "item_used (m_queue (c_queue s) ! j)")
      case True
      from assms(1) Cons.prems(1) j True show ?thesis
      proof (cases rule: tick_item_ok)
        case null
        then show ?thesis using True by simp
      next
        case (ok s')
        have "j \<noteq> i"
        proof
          assume "j = i"
          then have "timeout (m_queue (c_queue s) ! j) = 0" using Cons.prems(3) by (simp add: due_def)
          then obtain s1 where "retransmit_first E s j = Inr s1" "core_inv s1"
            "m_queue (c_queue s1) ! j = last_item (m_queue (c_queue s) ! j)"
            using retransmit_first_ok [OF assms(1) Cons.prems(1) j True] by metis
          then show False
            using tick_item_due [OF Cons.prems(1) j, of E s1] ok(1) Cons.prems(3,4) \<open>j = i\<close> by (simp add: due_def)
        qed
        then have "m_queue (c_queue s') ! i = m_queue (c_queue s) ! i"
          using ok(4) Cons.prems(2,3) by (simp add: keeps_others_def due_def)
        then show ?thesis
          using Cons.IH [of s'] ok(1,2) Cons.prems \<open>j \<noteq> i\<close> True by simp
      qed
    next
      case False
      then show ?thesis using Cons by (auto simp: due_def)
    qed
  qed simp
  then show ?thesis using coap_time_tick_app [OF assms(1,2)] assms(3) by simp
qed


section \<open>Examples\<close>

text \<open>The device with one message in the queue: a datagram in the first small block.\<close>

definition waiting_item :: "u16 \<Rightarrow> u8 \<Rightarrow> nat option \<Rightarrow> coap_queue_item_t" where
  "waiting_item t r cb = queue_item_zero\<lparr>p_buffer := block_ptr 0, buffer_len := 4, timeout := t, timeout_val := 2,
     retrans_count := r, callback := cb, mid := 7\<rparr>"

definition waiting_state :: "coap_queue_item_t \<Rightarrow> wire_event list coap_state" where
  "waiting_state item = (boot_state [])\<lparr>c_mm := mem_mark (c_mm (boot_state [])) 0 False,
     c_queue := snd (coap_queue_add (c_queue (boot_state [])) (Some item))\<rparr>"

lemma waiting_queue: "item_used item \<Longrightarrow> c_queue (waiting_state item) =
  \<lparr>m_queue = item # map (\<lambda>i. queue_item_zero\<lparr>handle := of_nat i\<rparr>) [1, 2, 3, 4, 5, 6, 7], m_message_queue_count = 1\<rparr>"
  by (simp add: waiting_state_def boot_state_def coap_queue_init_def coap_queue_add_def find_first_def c_consts upt_rec
      queue_item_zero_def)

lemma waiting_inv: "core_inv (waiting_state (waiting_item t r cb))"
proof -
  let ?s = "(boot_state [])\<lparr>c_mm := mem_mark (c_mm (boot_state [])) 0 False\<rparr>"
  have free: "is_free (m_mem_pool (c_mm (boot_state [])) ! 0)" by (simp add: boot_pool c_consts)
  have "core_inv ?s" by (rule core_inv_alloc [OF boot_inv]) (simp add: c_consts)
  moreover have "not_buffer 0 ?s"
    using core_inv_free_block_not_buffer [OF boot_inv _ free] by (simp add: not_buffer_def c_consts)
  moreover have "\<not> is_free (m_mem_pool (c_mm ?s) ! 0)"
    using core_invD(1) [OF boot_inv, of "[]"] by (simp add: mem_mark_def pool_inv_def c_consts)
  ultimately have "core_inv (?s\<lparr>c_queue := snd (coap_queue_add (c_queue ?s) (Some (waiting_item t r cb)))\<rparr>)"
    by (intro core_inv_queue_add [where j = 0])
      (simp_all add: c_consts waiting_item_def slot_ok_def queue_item_zero_def block_bytes_eq)
  then show ?thesis by (simp add: waiting_state_def)
qed

lemma waiting_used [simp]: "p_buffer (waiting_item t r cb) = block_ptr 0" "callback (waiting_item t r cb) = cb"
  "timeout (waiting_item t r cb) = t" "retrans_count (waiting_item t r cb) = r"
  by (simp_all add: waiting_item_def)

lemma waiting_answerable: "answerable (waiting_state (waiting_item t r (Some cb)))"
  by (simp add: answerable_def waiting_queue) (simp add: queue_item_zero_def)

lemma waiting_pending: "pending (c_queue (waiting_state (waiting_item t r cb))) = {#waiting_item t r cb#}"
  by (simp add: waiting_queue pending_def table_items_def) (simp add: queue_item_zero_def)

theorem coap_time_tick_returns_witness:
  "\<exists>s'. coap_time_tick trace_env (waiting_state (waiting_item 0 0 (Some 70))) = Inr (NRF_SUCCESS, s') \<and> core_inv s' \<and> answerable s'"
  by (rule coap_time_tick_returns [OF trace_app_ok waiting_inv waiting_answerable])

theorem coap_time_tick_schedule_witness:
  "\<exists>s'. coap_time_tick trace_env (waiting_state (waiting_item 0 0 (Some 70))) = Inr (NRF_SUCCESS, s') \<and>
     world s' = [Sent \<lparr>port_number = 0\<rparr> \<lparr>remote_addr = replicate 16 0, remote_port_number = 0\<rparr> (replicate 4 0),
                 Response_Call 70 COAP_TRANSMISSION_TIMEOUT None None]"
proof -
  have h: "c_heap (waiting_state item) = boot_heap []" "world (waiting_state item) = []" for item
    by (simp_all add: waiting_state_def boot_state_def)
  have idle: "tick_world E resp h (queue_item_zero\<lparr>handle := x\<rparr>) v = v"
    for E :: "wire_event list coap_env" and resp h x and v :: "wire_event list"
    by (simp add: tick_world_def due_def queue_item_zero_def)
  have w: "fold (tick_world trace_env trace_resp (boot_heap [])) (m_queue (c_queue (waiting_state (waiting_item 0 0 (Some 70))))) []
      = [Sent \<lparr>port_number = 0\<rparr> \<lparr>remote_addr = replicate 16 0, remote_port_number = 0\<rparr> (replicate 4 0),
         Response_Call 70 COAP_TRANSMISSION_TIMEOUT None None]"
    by (simp add: waiting_queue idle)
      (simp add: tick_world_def due_def waiting_item_def queue_item_zero_def trace_env_def trace_resp_def load_bytes.simps
        arr_read_def boot_heap_def block_offset_def c_consts)
  show ?thesis
    using coap_time_tick_schedule [OF trace_quiet waiting_inv waiting_answerable, of 0 0 70] w by (auto simp: h)
qed

theorem coap_time_tick_null_callback_witness:
  "coap_time_tick trace_env (waiting_state (waiting_item 0 1 None)) = Inl NullDereference"
  by (rule coap_time_tick_null_callback [OF trace_app_ok waiting_inv, of 0]) (simp_all add: waiting_queue due_def c_consts)


end
