(* ===== verification/Coap_Receive.thy ===== *)
theory Coap_Receive
  imports Coap_Retransmit
begin

text \<open>
  Receiving, \<open>coap_transport_read\<close> of \<^verbatim>\<open>coap.c\<close>: the reply to a ping, the end of an exchange by an
  acknowledgement, a reset or a response, the dispatch of requests and the error replies. The last
  section joins sending, receiving and the tick in one step relation and shows the invariant of every
  reachable state.
\<close>

section \<open>The decoded message\<close>

text \<open>A datagram at an address that holds the serialisation of a PDU.\<close>

definition datagram_at :: "heap \<Rightarrow> nat \<Rightarrow> nat \<Rightarrow> u16 \<Rightarrow> pdu \<Rightarrow> bool" where
  "datagram_at h b k len p \<longleftrightarrow> bytes_at h b k (pdu_bytes p) \<and> unat len = length (pdu_bytes p) \<and> pdu_wf p"

lemma decode_datagram:
  assumes "datagram_at h b k len p"
  obtains m where "coap_message_decode h (Some coap_message_zero) (Ptr b k) len (Some a) = Inr (NRF_SUCCESS, Some m)"
    "decoded h a p m"
proof -
  have z: "length (options coap_message_zero) = COAP_MAX_NUMBER_OF_OPTIONS" "length (token coap_message_zero) = 8"
    "payload_len coap_message_zero = 0"
    by (simp_all add: coap_message_zero_def)
  show thesis
    using coap_message_decode_rfc [of h b k p len coap_message_zero a] assms z that by (auto simp: datagram_at_def)
qed

lemma decoded_header:
  assumes "decoded h a p m" "pdu_wf p"
  shows "unat (hdr_type (header m)) = pdu_type p" "hdr_code (header m) = pdu_code p" "hdr_id (header m) = pdu_id p"
    "unat (hdr_token_len (header m)) \<le> 8" "unat (options_count m) \<le> COAP_MAX_NUMBER_OF_OPTIONS"
    "remote m = a" "length (token m) = 8" "length (options m) = COAP_MAX_NUMBER_OF_OPTIONS"
  using assms by (auto simp: decoded_def received_pdu_def pdu_wf_def)

lemma decoded_token: "decoded h a p m \<Longrightarrow> take (unat (hdr_token_len (header m))) (token m) = pdu_token p"
  by (drule decoded_def [THEN iffD1], drule conjunct1, erule subst) (simp add: received_pdu_def)

section \<open>Blocks the module holds during a call\<close>

definition held :: "nat \<Rightarrow> 'w coap_state \<Rightarrow> bool" where
  "held i s \<longleftrightarrow> i < TOTAL_BLOCK_COUNT \<and> not_buffer i s \<and> block_ptr i \<in> mm_live (c_mm s)"

lemma held_grows:
  assumes "held i s" "grows s t" "core_inv s"
  shows "held i t"
proof -
  have "p_buffer (m_queue (c_queue t) ! k) \<noteq> block_ptr i" if k: "k < COAP_MESSAGE_QUEUE_SIZE" for k
  proof (cases "item_used (m_queue (c_queue s) ! k)")
    case True
    then show ?thesis
      using assms k core_invD(5) [OF assms(3)] by (simp add: grows_def held_def not_buffer_def)
  next
    case False
    then have "p_buffer (m_queue (c_queue t) ! k) \<notin> mm_live (c_mm s)" using assms(2) k by (simp add: grows_def)
    then show ?thesis using assms(1) by (auto simp: held_def)
  qed
  then have "not_buffer i t"
    using core_invD(5) [OF grows_inv [OF assms(2)]] by (auto simp: not_buffer_def in_set_conv_nth)
  then show ?thesis using assms(1,2) by (auto simp: held_def grows_def)
qed

lemma held_alloc:
  assumes "core_inv s" "i < TOTAL_BLOCK_COUNT" "is_free (m_mem_pool (c_mm s) ! i)"
  shows "held i (s\<lparr>c_mm := mem_mark (c_mm s) i False\<rparr>)"
  using assms core_inv_free_block_not_buffer [OF assms] core_invD(1) [OF assms(1)]
  by (simp add: held_def mem_mark_live not_buffer_def)

lemma held_other_alloc:
  "held j s \<Longrightarrow> core_inv s \<Longrightarrow> i < TOTAL_BLOCK_COUNT \<Longrightarrow> held j (s\<lparr>c_mm := mem_mark (c_mm s) i False\<rparr>)"
  using core_invD(1) [of s] by (simp add: held_def mem_mark_live not_buffer_def)

lemma core_inv_free_held: "core_inv s \<Longrightarrow> held i s \<Longrightarrow> core_inv (block_free s (block_ptr i))"
  using core_inv_free [of s i] core_invD(1) [of s] by (simp add: held_def block_free_block)

lemma held_other_free:
  "core_inv s \<Longrightarrow> held j s \<Longrightarrow> i < TOTAL_BLOCK_COUNT \<Longrightarrow> i \<noteq> j \<Longrightarrow> held j (block_free s (block_ptr i))"
  using core_invD(1) [of s] by (simp add: held_def block_free_block mem_mark_live not_buffer_def block_offset_inj)

lemma held_ne_free: "core_inv s \<Longrightarrow> held j s \<Longrightarrow> is_free (m_mem_pool (c_mm s) ! i) \<Longrightarrow> i \<noteq> j"
  using core_invD(1) [of s] by (auto simp: held_def live_block_iff)

lemma held_expire:
  assumes "core_inv s" "held j s" "i < COAP_MESSAGE_QUEUE_SIZE" "item_used (m_queue (c_queue s) ! i)"
  shows "held j (expire s i)"
proof -
  have "i < length (m_queue (c_queue s))" using assms(3) core_invD(5) [OF assms(1)] by simp
  then have "p_buffer (m_queue (c_queue s) ! i) \<noteq> block_ptr j"
    using assms(2) by (simp add: held_def not_buffer_def)
  moreover have "not_buffer j (expire s i)"
    using assms(2) by (auto simp: held_def not_buffer_def expire_def coap_queue_remove_def queue_item_zero_def
        dest!: subsetD [OF set_update_subset_insert])
  ultimately show ?thesis
    using assms by (simp add: held_def expire_live)
qed

lemma core_inv_expire_item:
  "core_inv s \<Longrightarrow> i < COAP_MESSAGE_QUEUE_SIZE \<Longrightarrow> item_used (m_queue (c_queue s) ! i) \<Longrightarrow> core_inv (expire s i)"
  using core_inv_expire [of s i] core_invD(5) [of s] by (simp add: expire_def)

section \<open>Empty messages\<close>

text \<open>The static message the module answers pings and confirmable responses with.\<close>

definition template_ok :: "coap_message_t \<Rightarrow> bool" where
  "template_ok e \<longleftrightarrow> (\<exists>ty r x. e = empty_message_set ty r x coap_empty_message)"

definition empty_pdu :: "u8 \<Rightarrow> u16 \<Rightarrow> pdu" where
  "empty_pdu ty x = \<lparr>pdu_version = 1, pdu_type = unat ty, pdu_code = COAP_CODE_EMPTY_MESSAGE, pdu_id = x, pdu_token = [],
     pdu_options = [], pdu_payload = []\<rparr>"

lemma empty_pdu_bytes: "pdu_bytes (empty_pdu ty x) = [of_nat (64 + 16 * unat ty), 0, u16_hi x, u16_lo x]"
  by (simp add: empty_pdu_def pdu_bytes_def rfc_header_def rfc_payload_def u16_hi_nat u16_lo_nat COAP_CODE_EMPTY_MESSAGE_def)

lemma sendable_port: "sendable s (m\<lparr>port := q\<rparr>) p = sendable s m p"
  by (simp add: sendable_def message_repr_def detached_def used_options_def)

lemma template_set:
  "template_ok e \<Longrightarrow> empty_message_set ty r x e = empty_message_set ty r x coap_empty_message"
  by (auto simp: template_ok_def empty_message_set_def)

lemma template_set_ok: "template_ok e \<Longrightarrow> template_ok (empty_message_set ty r x e)"
  using template_set unfolding template_ok_def by blast

lemma empty_sendable:
  assumes "template_ok e" "unat ty < 4"
  shows "sendable s (empty_message_set ty r x e) (empty_pdu ty x)"
proof -
  have "message_repr (c_heap s) (empty_message_set ty r x coap_empty_message) (empty_pdu ty x)"
    by (simp add: message_repr_def empty_message_set_def coap_empty_message_def coap_message_zero_def empty_pdu_def
        used_options_def c_consts)
  moreover have "pdu_wf (empty_pdu ty x)"
    using assms(2) by (simp add: pdu_wf_def empty_pdu_bytes) (simp add: empty_pdu_def)
  moreover have "detached (c_mm s) (empty_message_set ty r x coap_empty_message)"
    by (simp add: detached_def empty_message_set_def coap_empty_message_def coap_message_zero_def used_options_def outside_def)
  ultimately show ?thesis unfolding template_set [OF assms(1)] sendable_def by blast
qed

lemma empty_no_answer: "template_ok e \<Longrightarrow> \<not> expects_answer (empty_message_set ty r x e)"
  by (auto simp: expects_answer_def template_ok_def empty_message_set_def coap_empty_message_def is_request_def
      is_con_response_def c_consts)

section \<open>Messages that expect no answer\<close>

lemma internal_send_silent:
  assumes "core_inv s" "sendable s m p" "length (q_token (env_junk E)) = 8" "\<not> expects_answer m"
  obtains (sent) w_err w h s' where "room_for (c_mm s) (length (pdu_bytes p))"
      "env_write E (port m) (remote m) (pdu_bytes p) (world s) = (w_err, w)"
      "internal_coap_message_send E s (Some hnd) (Some m) = Inr (w_err, Some h, s')" "grows s s'"
      "world s' = w" "c_queue s' = c_queue s" "m_coap_empty_message s' = m_coap_empty_message s"
      "c_resources s' = c_resources s" "w_err = NRF_SUCCESS \<Longrightarrow> c_mm s' = c_mm s"
  | (no_room) e where "\<not> room_for (c_mm s) (length (pdu_bytes p))" "e \<noteq> NRF_SUCCESS"
      "internal_coap_message_send E s (Some hnd) (Some m) = Inr (e, Some hnd, s)"
  using assms(1-3)
proof (cases rule: internal_send_cases [where hnd = hnd])
  case (no_room e)
  then show thesis using that(2) by blast
next
  case (sent i)
  obtain w_err w where w: "env_write E (port m) (remote m) (pdu_bytes p) (world s) = (w_err, w)" by force
  obtain e h s' where o: "send_outcome E s hnd m (pdu_bytes p) i = (e, h, s')" by (metis prod_cases3)
  have g: "grows s s'" using send_outcome_grows [OF assms(1-3) sent(2-4) o] .
  have "e = w_err" "world s' = w" "c_queue s' = c_queue s" "m_coap_empty_message s' = m_coap_empty_message s"
    "c_resources s' = c_resources s" "w_err = NRF_SUCCESS \<longrightarrow> c_mm s' = c_mm s"
    using o w assms(4) by (auto simp: send_outcome_def Let_def split: if_splits)
  then show thesis using that(1) [OF sent(1) w _ g, of h] sent(5) o by simp
qed

section \<open>The invariant of the device\<close>

definition device_inv :: "'w coap_state \<Rightarrow> bool" where
  "device_inv s \<longleftrightarrow> core_inv s \<and> answerable s \<and> template_ok (m_coap_empty_message s)"

text \<open>A call returns, in a state that satisfies the invariant.\<close>

definition returns_ok :: "fault + 'a \<times> 'w coap_state \<Rightarrow> bool" where
  "returns_ok r \<longleftrightarrow> (\<exists>e s'. r = Inr (e, s') \<and> device_inv s')"

lemma answerable_free [simp]: "answerable (block_free s p) = answerable s"
  by (simp add: answerable_def)

lemma template_free [simp]: "m_coap_empty_message (block_free s p) = m_coap_empty_message s"
  by (simp add: block_free_def)

lemma device_inv_free: "device_inv s \<Longrightarrow> held i s \<Longrightarrow> device_inv (block_free s (block_ptr i))"
  by (simp add: device_inv_def core_inv_free_held)

lemma device_inv_step: "device_inv s \<Longrightarrow> app_step s r \<Longrightarrow> \<exists>s'. r = Inr s' \<and> device_inv s' \<and> grows s s'"
  by (auto simp: app_step_def device_inv_def grows_inv)

lemma device_inv_expire:
  "device_inv s \<Longrightarrow> k < COAP_MESSAGE_QUEUE_SIZE \<Longrightarrow> item_used (m_queue (c_queue s) ! k) \<Longrightarrow> device_inv (expire s k)"
  by (simp add: device_inv_def core_inv_expire_item expire_answerable) (simp add: expire_def)

lemma silent_device_inv:
  assumes "device_inv s" "grows s s'" "c_queue s' = c_queue s" "m_coap_empty_message s' = m_coap_empty_message s"
  shows "device_inv s'"
  using assms by (simp add: device_inv_def grows_inv answerable_def)

lemma device_inv_template: "device_inv s \<Longrightarrow> template_ok e \<Longrightarrow> device_inv (s\<lparr>m_coap_empty_message := e\<rparr>)"
  by (simp add: device_inv_def answerable_def)

lemma held_template [simp]: "held i (s\<lparr>m_coap_empty_message := e\<rparr>) = held i s"
  by (simp add: held_def not_buffer_def)

text \<open>Answering with an empty message.\<close>

lemma empty_reply_ok:
  assumes "app_ok E" "device_inv s" "held i s" "unat ty < 4"
    and e_def: "e = empty_message_set ty r x (m_coap_empty_message s)"
  obtains err h s' where
    "internal_coap_message_send E (s\<lparr>m_coap_empty_message := e\<rparr>) (Some hnd) (Some (e\<lparr>port := q\<rparr>)) = Inr (err, Some h, s')"
    "device_inv s'" "held i s'" "c_queue s' = c_queue s" "c_resources s' = c_resources s"
proof -
  let ?s = "s\<lparr>m_coap_empty_message := e\<rparr>"
  have e: "template_ok e" using assms(2) by (simp add: e_def device_inv_def template_set_ok)
  have d: "device_inv ?s" "held i ?s" using assms(2,3) e by (simp_all add: device_inv_template)
  have c: "core_inv ?s" using d(1) by (simp add: device_inv_def)
  have snd: "sendable ?s (e\<lparr>port := q\<rparr>) (empty_pdu ty x)"
    using empty_sendable [of "m_coap_empty_message s" ty ?s r x] assms(2,4) unfolding sendable_port
    by (simp add: e_def device_inv_def)
  have j: "length (q_token (env_junk E)) = 8" using assms(1) by (simp add: app_ok_def)
  have na: "\<not> expects_answer (e\<lparr>port := q\<rparr>)"
    using empty_no_answer [of "m_coap_empty_message s" ty r x] assms(2)
    by (simp add: e_def device_inv_def expects_answer_def is_con_response_def)
  from c snd j na show thesis
  proof (cases rule: internal_send_silent [where hnd = hnd])
    case (sent w_err w h s')
    then show thesis using that silent_device_inv [OF d(1)] held_grows [OF d(2) _ c] by simp
  next
    case (no_room e')
    then show thesis using that d by simp
  qed
qed

lemma read_ping_ok:
  assumes "app_ok E" "device_inv s" "held i s"
  shows "returns_ok (read_ping E s (block_ptr i) m)"
proof -
  let ?e = "empty_message_set COAP_TYPE_RST (remote m) (hdr_id (header m)) (m_coap_empty_message s)"
  obtain err h s' where "internal_coap_message_send E (s\<lparr>m_coap_empty_message := ?e\<rparr>) (Some 0) (Some (?e\<lparr>port := port ?e\<rparr>)) = Inr (err, Some h, s')"
    "device_inv s'" "held i s'"
    by (rule empty_reply_ok [where hnd = 0 and ty = COAP_TYPE_RST and q = "port ?e", OF assms _ refl])
      (simp add: c_consts, blast)
  then show ?thesis using device_inv_free by (auto simp: returns_ok_def read_ping_def Let_def)
qed

section \<open>The end of an exchange\<close>

text \<open>The message the callback gets for an acknowledgement or a reset: with the token of the pending message.\<close>

definition with_token :: "coap_queue_item_t \<Rightarrow> coap_message_t \<Rightarrow> coap_message_t" where
  "with_token item m =
     m\<lparr>token := take (unat (q_token_len item)) (q_token item) @ drop (unat (q_token_len item)) (token m),
       header := (header m)\<lparr>hdr_token_len := take_bit 4 (q_token_len item)\<rparr>\<rparr>"

definition ack_status :: "coap_message_t \<Rightarrow> u32" where
  "ack_status m = (if is_ack m then NRF_SUCCESS else COAP_TRANSMISSION_RESET_BY_PEER)"

definition notify :: "'w coap_env \<Rightarrow> coap_queue_item_t \<Rightarrow> u32 \<Rightarrow> coap_message_t \<Rightarrow> 'w coap_state \<Rightarrow> fault + 'w coap_state" where
  "notify E item st m s = (case callback item of None \<Rightarrow> Inr s | Some cb \<Rightarrow> env_response E cb st (q_arg item) (Some m) s)"

lemma notify_step: "app_ok E \<Longrightarrow> core_inv s \<Longrightarrow> app_step s (notify E item st m s)"
  by (auto simp: notify_def app_ok_def app_step_refl split: option.split)

lemma queue_item_ok:
  assumes "core_inv s" "k < COAP_MESSAGE_QUEUE_SIZE"
  shows "slot_ok (m_queue (c_queue s) ! k)"
  using assms core_invD(5) [OF assms(1)] by (simp add: core_inv_def queue_inv_def)

lemma read_ack_found:
  assumes "core_inv s" "coap_queue_item_by_mid_get (c_queue s) (hdr_id (header m)) = (NRF_SUCCESS, Some k)"
    and "k < COAP_MESSAGE_QUEUE_SIZE" "item_used (m_queue (c_queue s) ! k)" "length (token m) = 8"
    and "notify E (m_queue (c_queue s) ! k) (ack_status m) (with_token (m_queue (c_queue s) ! k) m) s = Inr s1" "grows s s1"
  shows "read_ack_or_reset E s pm m = Inr (NRF_SUCCESS, block_free (expire s1 k) pm)"
proof -
  let ?it = "m_queue (c_queue s) ! k"
  have len: "length (m_queue (c_queue s)) = COAP_MESSAGE_QUEUE_SIZE" "length (m_queue (c_queue s1)) = COAP_MESSAGE_QUEUE_SIZE"
    using core_invD(5) [OF assms(1)] core_invD(5) [OF grows_inv [OF assms(7)]] .
  have ok: "length (q_token ?it) = 8" "unat (q_token_len ?it) \<le> 8"
    using queue_item_ok [OF assms(1,3)] by (simp_all add: slot_ok_def)
  have rd: "arr_read (q_token ?it) 0 (unat (q_token_len ?it)) = Inr (take (unat (q_token_len ?it)) (q_token ?it))"
    using ok by (simp add: arr_read_eq)
  have wr: "arr_write (token m) 0 (take (unat (q_token_len ?it)) (q_token ?it))
      = Inr (take (unat (q_token_len ?it)) (q_token ?it) @ drop (unat (q_token_len ?it)) (token m))"
    using ok assms(5) by (simp add: arr_write_eq)
  have ack: "is_ack (with_token ?it m) = is_ack m" by (simp add: is_ack_def with_token_def)
  have cb: "(case callback ?it of
        None \<Rightarrow> Inr s
      | Some cb \<Rightarrow> c_bind (arr_read (q_token ?it) 0 (unat (q_token_len ?it))) (\<lambda>tok.
          c_bind (arr_write (token m) 0 tok) (\<lambda>tok'.
          let m1 = m\<lparr>token := tok', header := (header m)\<lparr>hdr_token_len := take_bit 4 (q_token_len ?it)\<rparr>\<rparr>
          in env_response E cb (if is_ack m1 then NRF_SUCCESS else COAP_TRANSMISSION_RESET_BY_PEER)
               (q_arg ?it) (Some m1) s))) = Inr s1"
    using assms(6) unfolding rd wr c_bind_Inr notify_def ack_status_def
    by (cases "callback ?it") (simp_all add: wr Let_def with_token_def is_ack_def)
  have it1: "m_queue (c_queue s1) ! k = ?it" using assms(3,4,7) by (simp add: grows_def)
  show ?thesis
    unfolding read_ack_or_reset_def assms(2) prod.case Let_def
    using len assms(3) by (simp add: cb [unfolded Let_def] it1 expire_def coap_queue_remove_def)
qed

lemma read_ack_missing:
  assumes "coap_queue_item_by_mid_get (c_queue s) (hdr_id (header m)) = (e, p)" "e \<noteq> NRF_SUCCESS"
  shows "read_ack_or_reset E s pm m = Inr (e, block_free s pm)"
  using assms by (simp add: read_ack_or_reset_def)

lemma mid_get_used:
  assumes "core_inv s" "x \<noteq> 0" "coap_queue_item_by_mid_get (c_queue s) x = (e, Some k)"
  shows "e = NRF_SUCCESS" "k < COAP_MESSAGE_QUEUE_SIZE" "item_used (m_queue (c_queue s) ! k)" "mid (m_queue (c_queue s) ! k) = x"
proof -
  show k: "k < COAP_MESSAGE_QUEUE_SIZE" and m: "mid (m_queue (c_queue s) ! k) = x"
    using item_by_mid_Some [OF assms(3)] core_invD(5) [OF assms(1)] by simp_all
  show "item_used (m_queue (c_queue s) ! k)"
    using queue_item_ok [OF assms(1) k] m assms(2) by (auto simp: slot_ok_def)
  show "e = NRF_SUCCESS" using assms(3) by (auto simp: coap_queue_item_by_mid_get_def split: option.splits)
qed

lemma read_ack_ok:
  assumes "app_ok E" "device_inv s" "held i s" "length (token m) = 8" "hdr_id (header m) \<noteq> 0"
  shows "returns_ok (read_ack_or_reset E s (block_ptr i) m)"
proof -
  have c: "core_inv s" using assms(2) by (simp add: device_inv_def)
  obtain e p where g: "coap_queue_item_by_mid_get (c_queue s) (hdr_id (header m)) = (e, p)" by force
  show ?thesis
  proof (cases p)
    case None
    then have "e \<noteq> NRF_SUCCESS" using g by (auto simp: coap_queue_item_by_mid_get_def split: option.splits)
    then show ?thesis using read_ack_missing [OF g] device_inv_free [OF assms(2,3)] by (simp add: returns_ok_def)
  next
    case (Some k)
    note k = mid_get_used [OF c assms(5) g [unfolded Some]]
    obtain s1 where s1: "notify E (m_queue (c_queue s) ! k) (ack_status m) (with_token (m_queue (c_queue s) ! k) m) s = Inr s1"
      "device_inv s1" "grows s s1"
      using device_inv_step [OF assms(2) notify_step [OF assms(1) c]] by blast
    have c1: "core_inv s1" and u1: "item_used (m_queue (c_queue s1) ! k)"
      using s1(2,3) k by (simp_all add: device_inv_def grows_def)
    have "held i (expire s1 k)" using held_expire [OF c1 held_grows [OF assms(3) s1(3) c] k(2) u1] .
    then have "device_inv (block_free (expire s1 k) (block_ptr i))"
      using device_inv_free device_inv_expire [OF s1(2) k(2) u1] by blast
    then show ?thesis
      using read_ack_found [OF c _ k(2,3) assms(4) s1(1,3)] g k(1) Some by (simp add: returns_ok_def)
  qed
qed

lemma token_get_cases:
  assumes "core_inv s" "length tok = 8"
  obtains (missing) e where "coap_queue_item_by_token_get (c_queue s) tok n = Inr (e, None)" "e \<noteq> NRF_SUCCESS"
  | (found) k where "coap_queue_item_by_token_get (c_queue s) tok n = Inr (NRF_SUCCESS, Some k)"
      "k < COAP_MESSAGE_QUEUE_SIZE" "item_used (m_queue (c_queue s) ! k)"
      "q_token_len (m_queue (c_queue s) ! k) = n" "take (unat n) (q_token (m_queue (c_queue s) ! k)) = take (unat n) tok"
proof -
  let ?P = "\<lambda>it. q_token_len it = n \<and> n \<noteq> 0 \<and> take (unat n) (q_token it) = take (unat n) tok"
  have ok: "\<forall>it \<in> set (m_queue (c_queue s)). length (q_token it) = 8 \<and> unat (q_token_len it) \<le> 8"
    using assms(1) by (auto simp: core_inv_def queue_inv_def slot_ok_def)
  have eq: "coap_queue_item_by_token_get (c_queue s) tok n =
    (case find_first ?P (m_queue (c_queue s)) of
       Some j \<Rightarrow> Inr (NRF_SUCCESS, Some j) | None \<Rightarrow> Inr (NRF_ERROR_NOT_FOUND OR IOT_COAP_ERR_BASE, None))"
    unfolding coap_queue_item_by_token_get_def find_first_def using ok assms(2) by (rule item_by_token_loop_eq)
  show thesis
  proof (cases "find_first ?P (m_queue (c_queue s))")
    case None
    then show thesis using missing eq by simp
  next
    case (Some k)
    then have k: "k < COAP_MESSAGE_QUEUE_SIZE" "?P (m_queue (c_queue s) ! k)"
      using core_invD(5) [OF assms(1)] by (simp_all add: find_first_Some)
    have "item_used (m_queue (c_queue s) ! k)"
      using queue_item_ok [OF assms(1) k(1)] k(2) by (auto simp: slot_ok_def)
    then show thesis using found [of k] eq Some k by simp
  qed
qed

text \<open>The response handling after the acknowledgement of a confirmable response.\<close>

definition deliver_response ::
  "'w coap_env \<Rightarrow> 'w coap_state \<Rightarrow> ptr \<Rightarrow> coap_message_t \<Rightarrow> fault + u32 \<times> 'w coap_state" where
  "deliver_response E s pm m =
     c_bind (coap_queue_item_by_token_get (c_queue s) (token m) (hdr_token_len (header m))) (\<lambda>(err_code, p_item).
     if err_code \<noteq> NRF_SUCCESS then Inr (err_code, block_free s pm)
     else c_bind (arr_get (m_queue (c_queue s)) (the p_item)) (\<lambda>item.
       c_bind (notify E item NRF_SUCCESS m s) (\<lambda>s1.
       c_bind (arr_get (m_queue (c_queue s1)) (the p_item)) (\<lambda>item1.
       case coap_queue_remove (c_queue s1) (Some (the p_item)) of (err_code, q) \<Rightarrow>
         Inr (err_code, block_free (block_free s1 (p_buffer item1)\<lparr>c_queue := q\<rparr>) pm)))))"

lemma read_response_unfold:
  "read_response E s p_port pm m =
     (let e = empty_message_set COAP_TYPE_ACK (remote m) (hdr_id (header m)) (m_coap_empty_message s)
      in if hdr_type (header m) = COAP_TYPE_CON
         then c_bind (internal_coap_message_send E (s\<lparr>m_coap_empty_message := e\<rparr>) (Some 0)
                (Some (e\<lparr>port := \<lparr>port_number = port_number p_port\<rparr>\<rparr>))) (\<lambda>(err_code, hnd, s2). deliver_response E s2 pm m)
         else deliver_response E s pm m)"
  by (simp add: read_response_def deliver_response_def notify_def Let_def c_bind_assoc)
    (auto simp: Let_def notify_def intro!: c_bind_cong)

lemma deliver_found:
  assumes "core_inv s" "coap_queue_item_by_token_get (c_queue s) (token m) (hdr_token_len (header m)) = Inr (NRF_SUCCESS, Some k)"
    and "k < COAP_MESSAGE_QUEUE_SIZE" "item_used (m_queue (c_queue s) ! k)"
    and "notify E (m_queue (c_queue s) ! k) NRF_SUCCESS m s = Inr s1" "grows s s1"
  shows "deliver_response E s pm m = Inr (NRF_SUCCESS, block_free (expire s1 k) pm)"
proof -
  have "length (m_queue (c_queue s)) = COAP_MESSAGE_QUEUE_SIZE" "length (m_queue (c_queue s1)) = COAP_MESSAGE_QUEUE_SIZE"
    using core_invD(5) [OF assms(1)] core_invD(5) [OF grows_inv [OF assms(6)]] .
  moreover have "m_queue (c_queue s1) ! k = m_queue (c_queue s) ! k" using assms(3,4,6) by (simp add: grows_def)
  ultimately show ?thesis
    using assms(2,3,5) by (simp add: deliver_response_def expire_def coap_queue_remove_def)
qed

lemma deliver_ok:
  assumes "app_ok E" "device_inv s" "held i s" "length (token m) = 8"
  shows "returns_ok (deliver_response E s (block_ptr i) m)"
proof -
  have c: "core_inv s" using assms(2) by (simp add: device_inv_def)
  from c assms(4) show ?thesis
  proof (cases rule: token_get_cases [where n = "hdr_token_len (header m)"])
    case (missing e)
    then show ?thesis using device_inv_free [OF assms(2,3)] by (simp add: deliver_response_def returns_ok_def)
  next
    case (found k)
    obtain s1 where s1: "notify E (m_queue (c_queue s) ! k) NRF_SUCCESS m s = Inr s1" "device_inv s1" "grows s s1"
      using device_inv_step [OF assms(2) notify_step [OF assms(1) c]] by blast
    have c1: "core_inv s1" and u1: "item_used (m_queue (c_queue s1) ! k)"
      using s1(2,3) found(2,3) by (simp_all add: device_inv_def grows_def)
    have "held i (expire s1 k)" using held_expire [OF c1 held_grows [OF assms(3) s1(3) c] found(2) u1] .
    then have "device_inv (block_free (expire s1 k) (block_ptr i))"
      using device_inv_free device_inv_expire [OF s1(2) found(2) u1] by blast
    then show ?thesis using deliver_found [OF c found(1-3) s1(1,3)] by (simp add: returns_ok_def)
  qed
qed

lemma read_response_ok:
  assumes "app_ok E" "device_inv s" "held i s" "length (token m) = 8"
  shows "returns_ok (read_response E s p_port (block_ptr i) m)"
proof (cases "hdr_type (header m) = COAP_TYPE_CON")
  case True
  let ?e = "empty_message_set COAP_TYPE_ACK (remote m) (hdr_id (header m)) (m_coap_empty_message s)"
  obtain err h s' where s': "internal_coap_message_send E (s\<lparr>m_coap_empty_message := ?e\<rparr>) (Some 0)
      (Some (?e\<lparr>port := \<lparr>port_number = port_number p_port\<rparr>\<rparr>)) = Inr (err, Some h, s')" "device_inv s'" "held i s'"
    by (rule empty_reply_ok [where hnd = 0 and ty = COAP_TYPE_ACK and q = "\<lparr>port_number = port_number p_port\<rparr>",
          OF assms(1-3) _ refl]) (simp add: c_consts, blast)
  then show ?thesis
    using deliver_ok [OF assms(1) s'(2,3) assms(4)] True by (simp add: read_response_unfold Let_def)
next
  case False
  then show ?thesis using deliver_ok [OF assms] by (simp add: read_response_unfold Let_def)
qed

section \<open>Requests\<close>

text \<open>The Uri-Path options of a request, and the result of the loop that collects them.\<close>

definition uri_path_ptrs :: "coap_message_t \<Rightarrow> ptr list" where
  "uri_path_ptrs m = map opt_data (filter (\<lambda>op. opt_number op = COAP_OPT_URI_PATH) (used_options m))"

lemma uri_path_loop_eq:
  assumes "i + length ops \<le> length all" "take (length ops) (drop i all) = ops" "unat n = length pre"
    and "length pre \<le> COAP_RESOURCE_MAX_DEPTH" "length uris = COAP_RESOURCE_MAX_DEPTH" "take (length pre) uris = pre"
  shows "uri_path_loop all [i..<i + length ops] uris n =
    (let ps = map opt_data (filter (\<lambda>op. opt_number op = COAP_OPT_URI_PATH) ops)
     in if length pre + length ps \<le> COAP_RESOURCE_MAX_DEPTH
        then Inr (pre @ ps @ drop (length pre + length ps) uris, n + of_nat (length ps)) else Inl OutOfBoundsWrite)"
  using assms
proof (induction ops arbitrary: i n pre uris)
  case Nil
  then show ?case using append_take_drop_id [of "length pre" uris] by simp
next
  case (Cons op ops)
  have d: "drop i all = all ! i # drop (Suc i) all" using Cons.prems(1) by (simp add: Cons_nth_drop_Suc)
  have op: "all ! i = op" "take (length ops) (drop (Suc i) all) = ops" using Cons.prems(2) unfolding d by simp_all
  have upt: "[i..<i + length (op # ops)] = i # [Suc i..<Suc i + length ops]" by (simp add: upt_conv_Cons del: upt_Suc)
  show ?case
  proof (cases "opt_number op = COAP_OPT_URI_PATH")
    case False
    then show ?thesis using Cons.IH [of "Suc i" n pre uris] Cons.prems op unfolding upt by simp
  next
    case True
    show ?thesis
    proof (cases "length pre < COAP_RESOURCE_MAX_DEPTH")
      case False
      then show ?thesis using Cons.prems op True unfolding upt by (simp add: arr_set_def Let_def)
    next
      case room: True
      let ?uris = "uris[length pre := opt_data op]"
      have n1: "unat (n + 1) = length (pre @ [opt_data op])"
        using Cons.prems(3) room by (subst unat_add_u8) (simp_all add: c_consts)
      have "uri_path_loop all [Suc i..<Suc i + length ops] ?uris (n + 1) =
        (let ps = map opt_data (filter (\<lambda>op. opt_number op = COAP_OPT_URI_PATH) ops)
         in if length (pre @ [opt_data op]) + length ps \<le> COAP_RESOURCE_MAX_DEPTH
            then Inr ((pre @ [opt_data op]) @ ps @ drop (length (pre @ [opt_data op]) + length ps) ?uris, n + 1 + of_nat (length ps))
            else Inl OutOfBoundsWrite)"
        using Cons.prems room op(2) n1 by (intro Cons.IH) (simp_all add: take_Suc_update)
      then show ?thesis
        using Cons.prems(1,3,5) op(1) True room unfolding upt by (simp add: Let_def ac_simps)
    qed
  qed
qed

lemma uri_path_loop_message:
  assumes "unat (options_count m) \<le> COAP_MAX_NUMBER_OF_OPTIONS" "length (options m) = COAP_MAX_NUMBER_OF_OPTIONS"
  shows "uri_path_loop (options m) [0..<unat (options_count m)] (replicate COAP_RESOURCE_MAX_DEPTH NULL) 0 =
    (if length (uri_path_ptrs m) \<le> COAP_RESOURCE_MAX_DEPTH
     then Inr (uri_path_ptrs m @ replicate (COAP_RESOURCE_MAX_DEPTH - length (uri_path_ptrs m)) NULL,
               of_nat (length (uri_path_ptrs m)))
     else Inl OutOfBoundsWrite)"
  using uri_path_loop_eq [of 0 "used_options m" "options m" 0 "[]" "replicate COAP_RESOURCE_MAX_DEPTH NULL"] assms
  by (simp add: used_options_def uri_path_ptrs_def Let_def)

text \<open>A step that leaves the queue and the static message alone.\<close>

definition silent :: "'w coap_state \<Rightarrow> 'w coap_state \<Rightarrow> bool" where
  "silent s s' \<longleftrightarrow> grows s s' \<and> c_queue s' = c_queue s \<and> m_coap_empty_message s' = m_coap_empty_message s \<and>
     c_resources s' = c_resources s"

lemma silent_trans: "silent s t \<Longrightarrow> silent t u \<Longrightarrow> silent s u"
  using grows_trans by (auto simp: silent_def)

lemma silent_inv: "device_inv s \<Longrightarrow> silent s t \<Longrightarrow> device_inv t"
  using silent_device_inv by (auto simp: silent_def)

lemma silent_held: "held i s \<Longrightarrow> silent s t \<Longrightarrow> device_inv s \<Longrightarrow> held i t"
  using held_grows by (auto simp: silent_def device_inv_def)

lemma silent_alloc:
  assumes "core_inv s" "i < TOTAL_BLOCK_COUNT"
  shows "silent s (s\<lparr>c_mm := mem_mark (c_mm s) i False\<rparr>)"
  using core_inv_alloc [OF assms] core_invD(1) [OF assms(1)] assms(2)
  by (auto simp: silent_def grows_def datagram_of_def mem_mark_live null_not_live)

lemma silent_fill:
  assumes "core_inv s" "held i s" "length xs = block_bytes i"
  shows "silent s (s\<lparr>c_heap := (c_heap s)(block_offset i := xs)\<rparr>)"
proof -
  have i: "i < TOTAL_BLOCK_COUNT" using assms(2) by (simp add: held_def)
  have "pool_heap ((c_heap s)(block_offset i := xs))"
    using assms i by (intro pool_heap_upd) (simp_all add: core_inv_def pool_heap_def)
  then have c: "core_inv (s\<lparr>c_heap := (c_heap s)(block_offset i := xs)\<rparr>)" using assms(1) by (simp add: core_inv_def)
  have "load_bytes ((c_heap s)(block_offset i := xs)) (p_buffer it) n = load_bytes (c_heap s) (p_buffer it) n"
    if "it \<in> set (m_queue (c_queue s))" "item_used it" for it n
  proof -
    have "buffer_ok (c_mm s) it" using assms(1) that by (simp add: core_inv_def buffers_ok_def)
    moreover have "p_buffer it \<noteq> block_ptr i" using assms(2) that by (simp add: held_def not_buffer_def)
    ultimately have "outside (block_offset i) (p_buffer it)" by (auto simp: buffer_ok_def outside_def)
    then show ?thesis by (rule load_bytes_outside)
  qed
  then show ?thesis
    using c core_invD(1,5) [OF assms(1)] by (auto simp: silent_def grows_def datagram_of_def null_not_live)
qed

definition response_to :: "coap_message_t \<Rightarrow> ptr \<Rightarrow> u16 \<Rightarrow> coap_message_t" where
  "response_to req pd n = coap_message_zero
     \<lparr>p_data := pd, data_len := n,
      header := \<lparr>hdr_version = 1,
                 hdr_type = take_bit 2 (if hdr_type (header req) = COAP_TYPE_CON then COAP_TYPE_ACK else hdr_type (header req)),
                 hdr_token_len = hdr_token_len (header req), hdr_code = COAP_CODE_404_NOT_FOUND, hdr_id = hdr_id (header req)\<rparr>,
      token := take (unat (hdr_token_len (header req))) (token req) @ replicate (8 - unat (hdr_token_len (header req))) 0,
      port := \<lparr>port_number = COAP_SERVER_PORT\<rparr>, remote := remote req\<rparr>"

definition reply_pdu :: "coap_message_t \<Rightarrow> u8 \<Rightarrow> pdu" where
  "reply_pdu req code =
     \<lparr>pdu_version = 1, pdu_type = (if hdr_type (header req) = COAP_TYPE_CON then 2 else unat (hdr_type (header req)) mod 4),
      pdu_code = code, pdu_id = hdr_id (header req),
      pdu_token = take (unat (hdr_token_len (header req))) (token req), pdu_options = [], pdu_payload = []\<rparr>"

lemma create_response_eq:
  assumes "length (token req) = 8" "unat (hdr_token_len (header req)) \<le> 8"
    and "block_alloc s SIZEOF_COAP_MESSAGE = (NRF_SUCCESS, pm, n, s1)"
    and "block_alloc s1 256 = (NRF_SUCCESS, pd, k, s2)" "block_clear s2 pd (unat k) = Inr s3"
  shows "create_response s req COAP_MESSAGE_DATA_MAX_SIZE = Inr (NRF_SUCCESS, Some (pm, response_to req pd (ucast k)), s3)"
proof -
  let ?n = "unat (hdr_token_len (header req))"
  have tl: "take_bit 4 (hdr_token_len (header req)) = hdr_token_len (header req)"
    using assms(2) by (intro take_bit_u8_small) simp
  have rd: "arr_read (token req) 0 ?n = Inr (take ?n (token req))" using assms(1,2) by (simp add: arr_read_eq)
  have wr: "arr_write (replicate 8 0) 0 (take ?n (token req)) = Inr (take ?n (token req) @ replicate (8 - ?n) 0)"
    using assms(1,2) by (simp add: arr_write_eq)
  have c: "(ucast COAP_MESSAGE_DATA_MAX_SIZE :: u32) = 256" "COAP_MESSAGE_DATA_MAX_SIZE > 0" by (simp_all add: c_consts)
  have v: "take_bit 2 COAP_VERSION = 1" "COAP_SERVER_PORT \<noteq> 0" by (simp_all add: c_consts take_bit_eq_mod)
  show ?thesis
    using assms(3-5) rd wr c v tl
    by (simp add: create_response_def Let_def coap_message_create_def coap_message_conf_zero_def
        coap_message_remote_addr_set_def response_to_def) (simp add: coap_message_zero_def)
qed

abbreviation error_reply_message :: "coap_message_t \<Rightarrow> ptr \<Rightarrow> u16 \<Rightarrow> u8 \<Rightarrow> coap_message_t" where
  "error_reply_message req pd n code \<equiv> response_to req pd n\<lparr>header := (header (response_to req pd n))\<lparr>hdr_code := code\<rparr>\<rparr>"

lemma error_reply_sendable:
  assumes "length (token req) = 8" "unat (hdr_token_len (header req)) \<le> 8"
  shows "sendable s (error_reply_message req pd n code) (reply_pdu req code)"
proof -
  let ?n = "unat (hdr_token_len (header req))" and ?ty = "hdr_type (header (response_to req pd n))"
  have ty: "unat ?ty = pdu_type (reply_pdu req code)"
    by (simp add: response_to_def reply_pdu_def unat_take_bit_u8 c_consts)
  have "message_repr (c_heap s) (error_reply_message req pd n code) (reply_pdu req code)"
    using assms ty
    by (simp add: message_repr_def) (simp add: response_to_def reply_pdu_def coap_message_zero_def used_options_def c_consts)
  moreover have "pdu_wf (reply_pdu req code)"
    using assms by (simp add: pdu_wf_def reply_pdu_def pdu_bytes_def rfc_header_def rfc_payload_def)
  moreover have "detached (c_mm s) (error_reply_message req pd n code)"
    by (simp add: detached_def response_to_def coap_message_zero_def used_options_def outside_def)
  ultimately show ?thesis by (simp add: sendable_def)
qed

lemma error_reply_silent:
  "code \<in> {COAP_CODE_404_NOT_FOUND, COAP_CODE_405_METHOD_NOT_ALLOWED} \<Longrightarrow> \<not> expects_answer (error_reply_message req pd n code)"
  by (auto simp: expects_answer_def is_request_def is_con_response_def c_consts)

lemma block_alloc_silent:
  assumes "device_inv s" "n \<noteq> 0"
  obtains (ok) i s' where "room_for (c_mm s) (unat n)" "i < TOTAL_BLOCK_COUNT" "is_free (m_mem_pool (c_mm s) ! i)"
      "s' = s\<lparr>c_mm := mem_mark (c_mm s) i False\<rparr>"
      "block_alloc s n = (NRF_SUCCESS, block_ptr i, of_nat (block_bytes i), s')" "silent s s'" "held i s'"
      "\<And>j. held j s \<Longrightarrow> j \<noteq> i" "unat n \<le> block_bytes i"
  | (fail) e where "\<not> room_for (c_mm s) (unat n)" "e \<noteq> NRF_SUCCESS" "block_alloc s n = (e, NULL, n, s)"
proof -
  have c: "core_inv s" "pool_inv (c_mm s)" using assms(1) core_invD(1) by (auto simp: device_inv_def)
  from c(2) show thesis
  proof (cases rule: block_alloc_cases [where n = n])
    case (ok i)
    then show thesis
      using that(1) [OF ok(1-3) refl ok(5)] silent_alloc [OF c(1) ok(2)] held_alloc [OF c(1) ok(2,3)]
        held_ne_free [OF c(1) _ ok(3)] ok(4) by blast
  next
    case (fail e)
    then show thesis using that(2) by blast
  qed
qed

lemma clear_silent:
  assumes "device_inv s" "held i s"
  shows "block_clear s (block_ptr i) (unat (of_nat (block_bytes i) :: u32))
      = Inr (s\<lparr>c_heap := (c_heap s)(block_offset i := replicate (block_bytes i) 0)\<rparr>)"
    "silent s (s\<lparr>c_heap := (c_heap s)(block_offset i := replicate (block_bytes i) 0)\<rparr>)"
proof -
  have c: "core_inv s" using assms(1) by (simp add: device_inv_def)
  show "silent s (s\<lparr>c_heap := (c_heap s)(block_offset i := replicate (block_bytes i) 0)\<rparr>)"
    using silent_fill [OF c assms(2)] by simp
  have "length (c_heap s (block_offset i)) = block_bytes i"
    using c assms(2) by (simp add: core_inv_def pool_heap_def held_def)
  then show "block_clear s (block_ptr i) (unat (of_nat (block_bytes i) :: u32))
      = Inr (s\<lparr>c_heap := (c_heap s)(block_offset i := replicate (block_bytes i) 0)\<rparr>)"
    unfolding block_bytes_u32 by (simp add: block_clear_def arr_write_eq)
qed

text \<open>At least \<open>k\<close> blocks of \<open>n\<close> bytes or more are free.\<close>

definition spare :: "mem_manager \<Rightarrow> nat \<Rightarrow> nat \<Rightarrow> bool" where
  "spare mm k n \<longleftrightarrow> k \<le> card {i. i < TOTAL_BLOCK_COUNT \<and> is_free (m_mem_pool mm ! i) \<and> n \<le> block_bytes i}"

lemma spare_mark:
  assumes "spare mm (Suc k) n"
  shows "spare (mem_mark mm i False) k n"
proof -
  let ?F = "\<lambda>mm. {i. i < TOTAL_BLOCK_COUNT \<and> is_free (m_mem_pool mm ! i) \<and> n \<le> block_bytes i}"
  have "?F mm - {i} \<subseteq> ?F (mem_mark mm i False)" by (auto simp: mem_mark_def)
  then have "card (?F mm - {i}) \<le> card (?F (mem_mark mm i False))" by (intro card_mono) auto
  moreover have "card (?F mm) \<le> Suc (card (?F mm - {i}))"
    by (cases "i \<in> ?F mm") (simp_all add: card_Diff_singleton_if)
  ultimately show ?thesis using assms by (simp add: spare_def)
qed

lemma spare_room:
  assumes "spare mm (Suc k) n" "n \<noteq> 0" "n \<le> MAX_MEM_SIZE"
  shows "room_for mm n"
proof -
  define F where "F = {i. i < TOTAL_BLOCK_COUNT \<and> is_free (m_mem_pool mm ! i) \<and> n \<le> block_bytes i}"
  have "Suc k \<le> card F" using assms(1) by (simp only: spare_def F_def)
  then have "F \<noteq> {}" by auto
  then obtain i where "i \<in> F" by blast
  then show ?thesis using assms(2,3) by (auto simp: room_for_def F_def)
qed

lemma spare_smaller:
  assumes "spare mm k n" "n' \<le> n"
  shows "spare mm k n'"
proof -
  have "card {i. i < TOTAL_BLOCK_COUNT \<and> is_free (m_mem_pool mm ! i) \<and> n \<le> block_bytes i}
      \<le> card {i. i < TOTAL_BLOCK_COUNT \<and> is_free (m_mem_pool mm ! i) \<and> n' \<le> block_bytes i}"
    using assms(2) by (intro card_mono) auto
  then show ?thesis using assms(1) by (simp add: spare_def)
qed

lemma create_response_outcome:
  assumes "device_inv s" "length (token req) = 8" "unat (hdr_token_len (header req)) \<le> 8"
  obtains (created) i j n s' where "create_response s req COAP_MESSAGE_DATA_MAX_SIZE
        = Inr (NRF_SUCCESS, Some (block_ptr i, response_to req (block_ptr j) n), s')"
      "silent s s'" "held i s'" "held j s'" "i \<noteq> j" "\<And>k. held k s \<Longrightarrow> k \<noteq> i \<and> k \<noteq> j"
      "c_mm s' = mem_mark (mem_mark (c_mm s) i False) j False" "world s' = world s"
      "is_free (m_mem_pool (c_mm s) ! i)" "is_free (m_mem_pool (mem_mark (c_mm s) i False) ! j)"
  | (failed) e r s' where "create_response s req COAP_MESSAGE_DATA_MAX_SIZE = Inr (e, r, s')" "e \<noteq> NRF_SUCCESS" "silent s s'"
      "\<not> spare (c_mm s) 2 256"
proof -
  have nz: "SIZEOF_COAP_MESSAGE \<noteq> 0" "unat SIZEOF_COAP_MESSAGE = 128" "(256 :: u32) \<noteq> 0" "unat (256 :: u32) = 256"
    by (simp_all add: c_consts)
  have c: "(ucast COAP_MESSAGE_DATA_MAX_SIZE :: u32) = 256" "COAP_MESSAGE_DATA_MAX_SIZE > 0" by (simp_all add: c_consts)
  have two: "(2 :: nat) = Suc 1" by simp
  have refl_s: "silent s s" using assms(1) grows_refl by (auto simp: silent_def device_inv_def)
  from assms(1) nz(1) show thesis
  proof (cases rule: block_alloc_silent)
    case (fail e)
    have "\<not> spare (c_mm s) 2 256"
      using fail(1) spare_room [of "c_mm s" 1 128] spare_smaller [of "c_mm s" 2 256 128]
      unfolding nz(2) two by (auto simp: MAX_MEM_SIZE_def MEMORY_MANAGER_LARGE_BLOCK_SIZE_def)
    then show thesis using failed [of e None s] fail(2,3) refl_s by (simp add: create_response_def)
  next
    case (ok i s1)
    have d1: "device_inv s1" using silent_inv [OF assms(1) ok(6)] .
    from d1 nz(3) show thesis
    proof (cases rule: block_alloc_silent)
      case (fail e)
      have "\<not> spare (c_mm s) 2 256"
        using fail(1) spare_room [of "c_mm s1" 0 256] spare_mark [of "c_mm s" 1 256 i] ok(4)
        unfolding nz(4) two by (auto simp: MAX_MEM_SIZE_def MEMORY_MANAGER_LARGE_BLOCK_SIZE_def)
      then show thesis
        using failed [of e "Some (block_ptr i, coap_message_zero)" s1] fail(2,3) ok(5,6) c by (simp add: create_response_def)
    next
      case ok2: (ok j s2)
      have d2: "device_inv s2" using silent_inv [OF d1 ok2(6)] .
      let ?s3 = "s2\<lparr>c_heap := (c_heap s2)(block_offset j := replicate (block_bytes j) 0)\<rparr>"
      note cl = clear_silent [OF d2 ok2(7)]
      have held: "held i ?s3" "held j ?s3"
        using silent_held [OF silent_held [OF ok(7) ok2(6) d1] cl(2) d2] silent_held [OF ok2(7) cl(2) d2] .
      have sil: "silent s ?s3" using silent_trans [OF ok(6) silent_trans [OF ok2(6) cl(2)]] .
      have ne: "i \<noteq> j" "\<And>k. held k s \<Longrightarrow> k \<noteq> i \<and> k \<noteq> j"
        using ok2(8) [OF ok(7)] ok(8) ok2(8) silent_held [OF _ ok(6) assms(1)] by auto
      show thesis
        using created [OF create_response_eq [OF assms(2,3) ok(5) ok2(5) cl(1)] sil held ne(1,2)] ok(3,4) ok2(3,4) by simp
    qed
  qed
qed

lemma free_three:
  assumes "device_inv s" "held j s" "held i s" "held k s" "i \<noteq> j" "k \<noteq> i \<and> k \<noteq> j"
  defines "t \<equiv> block_free (block_free (block_free s (block_ptr j)) (block_ptr i)) (block_ptr k)"
  shows "device_inv t" "c_mm t = mem_mark (mem_mark (mem_mark (c_mm s) j True) i True) k True"
proof -
  have lt: "i < TOTAL_BLOCK_COUNT" "j < TOTAL_BLOCK_COUNT" "k < TOTAL_BLOCK_COUNT" using assms(2-4) by (simp_all add: held_def)
  have d1: "device_inv (block_free s (block_ptr j))" using device_inv_free assms(1,2) .
  have h1: "held i (block_free s (block_ptr j))" "held k (block_free s (block_ptr j))"
    using assms lt held_other_free by (auto simp: device_inv_def)
  have d2: "device_inv (block_free (block_free s (block_ptr j)) (block_ptr i))" using device_inv_free d1 h1(1) .
  have h2: "held k (block_free (block_free s (block_ptr j)) (block_ptr i))"
    using d1 h1 lt assms(6) held_other_free by (auto simp: device_inv_def)
  show "device_inv t" unfolding t_def using device_inv_free d2 h2 .
  have "pool_inv (c_mm s)" using assms(1) by (simp add: device_inv_def core_inv_def)
  then show "c_mm t = mem_mark (mem_mark (mem_mark (c_mm s) j True) i True) k True"
    using lt by (simp add: t_def block_free_block mem_mark_inv)
qed

text \<open>The error reply: with room for it, the pools are as before and the request is freed.\<close>

definition error_reply_rest ::
  "'w coap_env \<Rightarrow> 'w coap_state \<Rightarrow> nat \<Rightarrow> nat \<Rightarrow> ptr \<Rightarrow> coap_message_t \<Rightarrow> fault + u32 \<times> 'w coap_state" where
  "error_reply_rest E s1 i j pm r1 =
     c_bind (internal_coap_message_send E s1 (Some 0) (Some r1)) (\<lambda>(err_code, hnd, s2).
        Inr (err_code, block_free (block_free (block_free s2 (block_ptr j)) (block_ptr i)) pm))"

lemma error_reply_created:
  assumes "create_response s m COAP_MESSAGE_DATA_MAX_SIZE = Inr (NRF_SUCCESS, Some (block_ptr i', response_to m (block_ptr j) n), s1)"
  shows "request_error_reply E s pm m code = error_reply_rest E s1 i' j pm (error_reply_message m (block_ptr j) n code)"
proof -
  have "p_data (error_reply_message m (block_ptr j) n code) = block_ptr j" by (simp add: response_to_def)
  then show ?thesis using assms by (simp add: request_error_reply_def error_reply_rest_def Let_def)
qed

lemma error_reply_rest_outcome:
  assumes "app_ok E" "device_inv s1" "held j s1" "held i' s1" "held i s1" "i' \<noteq> j" "i \<noteq> i' \<and> i \<noteq> j"
    and "sendable s1 r1 p" "\<not> expects_answer r1"
  shows "returns_ok (error_reply_rest E s1 i' j (block_ptr i) r1)"
    and "room_for (c_mm s1) (length (pdu_bytes p)) \<Longrightarrow>
      env_write E (port r1) (remote r1) (pdu_bytes p) (world s1) = (e, w) \<Longrightarrow>
      \<exists>s'. error_reply_rest E s1 i' j (block_ptr i) r1 = Inr (e, s') \<and> world s' = w \<and> c_queue s' = c_queue s1 \<and>
        (e = NRF_SUCCESS \<longrightarrow> c_mm s' = mem_mark (mem_mark (mem_mark (c_mm s1) j True) i' True) i True)"
proof -
  let ?free = "\<lambda>s2 :: 'a coap_state. block_free (block_free (block_free s2 (block_ptr j)) (block_ptr i')) (block_ptr i)"
  have c: "core_inv s1" using assms(2) by (simp add: device_inv_def)
  have j: "length (q_token (env_junk E)) = 8" using assms(1) by (simp add: app_ok_def)
  have fr: "device_inv (?free s2)" "c_mm (?free s2) = mem_mark (mem_mark (mem_mark (c_mm s2) j True) i' True) i True"
    if "silent s1 s2" for s2
    using free_three [of s2 j i' i] silent_inv [OF assms(2) that] silent_held [OF _ that assms(2)] assms(3-7) by auto
  have s11: "silent s1 s1" using c grows_refl by (simp add: silent_def)
  have "returns_ok (error_reply_rest E s1 i' j (block_ptr i) r1) \<and>
     (room_for (c_mm s1) (length (pdu_bytes p)) \<longrightarrow>
      env_write E (port r1) (remote r1) (pdu_bytes p) (world s1) = (e, w) \<longrightarrow>
      (\<exists>s'. error_reply_rest E s1 i' j (block_ptr i) r1 = Inr (e, s') \<and> world s' = w \<and> c_queue s' = c_queue s1 \<and>
        (e = NRF_SUCCESS \<longrightarrow> c_mm s' = mem_mark (mem_mark (mem_mark (c_mm s1) j True) i' True) i True)))"
    using c assms(8) j assms(9)
  proof (cases rule: internal_send_silent [where hnd = 0])
    case (sent w_err w' h s2)
    have "silent s1 s2" using sent by (simp add: silent_def)
    then show ?thesis using sent fr by (auto simp: error_reply_rest_def returns_ok_def)
  next
    case (no_room e')
    then show ?thesis using fr [OF s11] by (simp add: error_reply_rest_def returns_ok_def)
  qed
  then show "returns_ok (error_reply_rest E s1 i' j (block_ptr i) r1)"
    and "room_for (c_mm s1) (length (pdu_bytes p)) \<Longrightarrow>
      env_write E (port r1) (remote r1) (pdu_bytes p) (world s1) = (e, w) \<Longrightarrow>
      \<exists>s'. error_reply_rest E s1 i' j (block_ptr i) r1 = Inr (e, s') \<and> world s' = w \<and> c_queue s' = c_queue s1 \<and>
        (e = NRF_SUCCESS \<longrightarrow> c_mm s' = mem_mark (mem_mark (mem_mark (c_mm s1) j True) i' True) i True)"
    by blast+
qed

lemma request_error_reply_ok:
  assumes "app_ok E" "device_inv s" "held i s" "length (token m) = 8" "unat (hdr_token_len (header m)) \<le> 8"
    and "code \<in> {COAP_CODE_404_NOT_FOUND, COAP_CODE_405_METHOD_NOT_ALLOWED}"
  shows "returns_ok (request_error_reply E s (block_ptr i) m code)"
  using assms(2,4,5)
proof (cases rule: create_response_outcome)
  case (created i' j n s1)
  then show ?thesis
    using error_reply_rest_outcome(1) [OF assms(1) silent_inv [OF assms(2) created(2)] created(4,3)
        silent_held [OF assms(3) created(2) assms(2)] created(5) created(6) [OF assms(3)]
        error_reply_sendable [OF assms(4,5)] error_reply_silent [OF assms(6)]] error_reply_created [OF created(1)]
    by simp
next
  case (failed e r s1)
  have d: "device_inv s1" using silent_inv [OF assms(2) failed(3)] .
  then have "app_step s1 (app_error_notify E e (Some m) s1)"
    using assms(1) by (simp add: error_notify_ok device_inv_def)
  then obtain s2 where "app_error_notify E e (Some m) s1 = Inr s2" "device_inv s2"
    using device_inv_step [OF d] by blast
  then show ?thesis using failed by (simp add: request_error_reply_def returns_ok_def)
qed

lemma request_error_reply_sends:
  assumes "app_ok E" "device_inv s" "held i s" "length (token m) = 8" "unat (hdr_token_len (header m)) \<le> 8"
    and "code \<in> {COAP_CODE_404_NOT_FOUND, COAP_CODE_405_METHOD_NOT_ALLOWED}" "spare (c_mm s) 3 256"
    and "env_write E \<lparr>port_number = COAP_SERVER_PORT\<rparr> (remote m) (pdu_bytes (reply_pdu m code)) (world s) = (e, w)"
  shows "\<exists>s'. request_error_reply E s (block_ptr i) m code = Inr (e, s') \<and> world s' = w \<and> c_queue s' = c_queue s \<and>
        (e = NRF_SUCCESS \<longrightarrow> c_mm s' = mem_mark (c_mm s) i True)"
  using assms(2,4,5)
proof (cases rule: create_response_outcome)
  case (failed e r s1)
  then show ?thesis using assms(7) by (simp add: spare_def)
next
  case (created i' j n s1)
  let ?r1 = "error_reply_message m (block_ptr j) n code"
  have three: "(3 :: nat) = Suc (Suc (Suc 0))" by simp
  have sp: "spare (c_mm s1) (Suc 0) 256"
    using spare_mark [OF spare_mark [OF assms(7) [unfolded three], of i'], of j] created(7) by simp
  define n where "n = length (pdu_bytes (reply_pdu m code))"
  have len: "n \<noteq> 0" "n \<le> 256"
    using assms(4,5) by (simp_all add: n_def pdu_bytes_def reply_pdu_def rfc_header_def rfc_payload_def)
  have room: "room_for (c_mm s1) (length (pdu_bytes (reply_pdu m code)))"
    using spare_room [OF spare_smaller [OF sp len(2)] len(1)] len(2)
    by (simp add: n_def [symmetric] MAX_MEM_SIZE_def MEMORY_MANAGER_LARGE_BLOCK_SIZE_def)
  have w: "env_write E (port ?r1) (remote ?r1) (pdu_bytes (reply_pdu m code)) (world s1) = (e, w)"
    using assms(8) created(8) by (simp add: response_to_def)
  have undo: "mem_mark (mem_mark (c_mm s1) j True) i' True = c_mm s"
    using created(7,9,10) by (simp add: mem_mark_undo)
  show ?thesis
    using error_reply_rest_outcome(2) [OF assms(1) silent_inv [OF assms(2) created(2)] created(4,3)
        silent_held [OF assms(3) created(2) assms(2)] created(5) created(6) [OF assms(3)]
        error_reply_sendable [OF assms(4,5)] error_reply_silent [OF assms(6)] room w] created(2)
    unfolding error_reply_created [OF created(1)] undo by (simp add: silent_def)
qed

text \<open>A request whose path can be resolved: at most 5 Uri-Path options, and a walk of the resource tree that ends.\<close>

definition path_array :: "coap_message_t \<Rightarrow> ptr list" where
  "path_array m = uri_path_ptrs m @ replicate (COAP_RESOURCE_MAX_DEPTH - length (uri_path_ptrs m)) NULL"

definition routable :: "nat \<Rightarrow> 'w coap_state \<Rightarrow> coap_message_t \<Rightarrow> bool" where
  "routable fuel s m \<longleftrightarrow> length (uri_path_ptrs m) \<le> COAP_RESOURCE_MAX_DEPTH \<and>
     (\<exists>r. coap_resource_get fuel (c_heap s) (c_resources s) (path_array m) (of_nat (length (uri_path_ptrs m))) = Inr r)"

lemma read_request_eq:
  assumes "unat (options_count m) \<le> COAP_MAX_NUMBER_OF_OPTIONS" "length (options m) = COAP_MAX_NUMBER_OF_OPTIONS"
    and "length (uri_path_ptrs m) \<le> COAP_RESOURCE_MAX_DEPTH"
    and "coap_resource_get fuel (c_heap s) (c_resources s) (path_array m) (of_nat (length (uri_path_ptrs m))) = Inr (e, found)"
  shows "read_request E fuel s pm m =
    (case found of
       None \<Rightarrow> request_error_reply E s pm m COAP_CODE_404_NOT_FOUND
     | Some r \<Rightarrow>
       (case res_callback (res_at (c_resources s) r) of
          None \<Rightarrow> request_error_reply E s pm m COAP_CODE_405_METHOD_NOT_ALLOWED
        | Some cb \<Rightarrow>
          if method_permitted (permission (res_at (c_resources s) r)) (hdr_code (header m))
          then c_bind (env_method E cb r m s) (\<lambda>s1. Inr (e, block_free s1 pm))
          else request_error_reply E s pm m COAP_CODE_405_METHOD_NOT_ALLOWED))"
  using assms(3,4) unfolding read_request_def uri_path_loop_message [OF assms(1,2)]
  by (simp add: path_array_def)

lemma read_request_ok:
  assumes "app_ok E" "device_inv s" "held i s" "length (token m) = 8" "unat (hdr_token_len (header m)) \<le> 8"
    and "unat (options_count m) \<le> COAP_MAX_NUMBER_OF_OPTIONS" "length (options m) = COAP_MAX_NUMBER_OF_OPTIONS" "routable fuel s m"
  shows "returns_ok (read_request E fuel s (block_ptr i) m)"
proof -
  obtain e found where g: "coap_resource_get fuel (c_heap s) (c_resources s) (path_array m) (of_nat (length (uri_path_ptrs m))) = Inr (e, found)"
    and p: "length (uri_path_ptrs m) \<le> COAP_RESOURCE_MAX_DEPTH"
    using assms(8) by (auto simp: routable_def)
  note err = request_error_reply_ok [OF assms(1-5)]
  have call: "returns_ok (c_bind (env_method E cb r m s) (\<lambda>s1. Inr (e, block_free s1 (block_ptr i))))" for cb r
  proof -
    have c: "core_inv s" using assms(2) by (simp add: device_inv_def)
    then have "app_step s (env_method E cb r m s)" using assms(1) by (simp add: app_ok_def)
    then obtain s1 where s1: "env_method E cb r m s = Inr s1" "device_inv s1" "grows s s1"
      using device_inv_step [OF assms(2)] by blast
    have "device_inv (block_free s1 (block_ptr i))"
      using device_inv_free [OF s1(2) held_grows [OF assms(3) s1(3) c]] .
    then show ?thesis using s1(1) by (simp add: returns_ok_def)
  qed
  show ?thesis
    unfolding read_request_eq [OF assms(6,7) p g]
    using err call by (auto split: option.split)
qed

section \<open>A received datagram\<close>

text \<open>
  The datagrams the module handles without a fault: an acknowledgement or a reset has an id other than 0,
  and a request can be routed.
\<close>

definition admissible :: "nat \<Rightarrow> 'w coap_state \<Rightarrow> coap_message_t \<Rightarrow> bool" where
  "admissible fuel s m \<longleftrightarrow> (is_ack m \<or> is_reset m \<longrightarrow> hdr_id (header m) \<noteq> 0) \<and>
     (is_request (hdr_code (header m)) \<longrightarrow> routable fuel s m)"

lemma read_dispatch_ok:
  assumes "app_ok E" "device_inv s" "held i s" "decoded h a p m" "pdu_wf p" "admissible fuel s m"
  shows "returns_ok (read_dispatch E fuel s p_port result (block_ptr i) m)"
proof -
  note hd = decoded_header [OF assms(4,5)]
  have trunc: "returns_ok (c_bind (app_error_notify E result (Some m) s) (\<lambda>s1. Inr (NRF_SUCCESS, block_free s1 (block_ptr i))))"
  proof -
    have c: "core_inv s" using assms(2) by (simp add: device_inv_def)
    obtain s1 where s1: "app_error_notify E result (Some m) s = Inr s1" "device_inv s1" "grows s s1"
      using device_inv_step [OF assms(2) error_notify_ok [OF assms(1) c]] by blast
    have "device_inv (block_free s1 (block_ptr i))"
      using device_inv_free [OF s1(2) held_grows [OF assms(3) s1(3) c]] .
    then show ?thesis using s1(1) by (simp add: returns_ok_def)
  qed
  show ?thesis
    using trunc read_ping_ok [OF assms(1-3)] read_ack_ok [OF assms(1-3) hd(7)] read_response_ok [OF assms(1-3) hd(7)]
      read_request_ok [OF assms(1-3) hd(7,4,5,8)] device_inv_free [OF assms(2,3)] assms(6)
    by (auto simp: read_dispatch_def admissible_def returns_ok_def)
qed

text \<open>A datagram at an address is decoded into a message in a block of its own.\<close>

lemma transport_read_decoded:
  assumes "device_inv s" "datagram_at (c_heap s) b k len p" "result = NRF_SUCCESS \<or> result = UDP_TRUNCATED_PACKET"
  obtains (ok) i m s1 where "room_for (c_mm s) 128" "s1 = s\<lparr>c_mm := mem_mark (c_mm s) i False\<rparr>" "is_free (m_mem_pool (c_mm s) ! i)"
      "device_inv s1" "held i s1" "silent s s1" "decoded (c_heap s) a p m"
      "coap_transport_read E fuel s p_port a result (Ptr b k) len = read_dispatch E fuel s1 p_port result (block_ptr i) m"
  | (no_room) e where "\<not> room_for (c_mm s) 128" "e \<noteq> NRF_SUCCESS"
      "coap_transport_read E fuel s p_port a result (Ptr b k) len = Inr (e, s)"
proof -
  have nz: "SIZEOF_COAP_MESSAGE \<noteq> 0" "unat SIZEOF_COAP_MESSAGE = 128" by (simp_all add: c_consts)
  obtain m where m: "coap_message_decode (c_heap s) (Some coap_message_zero) (Ptr b k) len (Some a) = Inr (NRF_SUCCESS, Some m)"
    "decoded (c_heap s) a p m" using assms(2) by (rule decode_datagram)
  from assms(1) nz(1) show thesis
  proof (cases rule: block_alloc_silent)
    case (fail e)
    then show thesis using no_room [of e] assms(3) nz(2) by (simp add: coap_transport_read_def)
  next
    case alloc: (ok i s1)
    have "coap_transport_read E fuel s p_port a result (Ptr b k) len = read_dispatch E fuel s1 p_port result (block_ptr i) m"
      using alloc(4,5) m(1) assms(3) by (simp add: coap_transport_read_def)
    then show thesis
      using ok [of s1 i m] alloc(1,3,4,6,7) nz(2) silent_inv [OF assms(1) alloc(6)] m(2) by simp
  qed
qed

lemma transport_read_ok:
  assumes "app_ok E" "device_inv s" "datagram_at (c_heap s) b k len p"
    and "\<And>m. decoded (c_heap s) a p m \<Longrightarrow> admissible fuel s m"
  shows "returns_ok (coap_transport_read E fuel s p_port a result (Ptr b k) len)"
proof (cases "result = NRF_SUCCESS \<or> result = UDP_TRUNCATED_PACKET")
  case False
  then show ?thesis using assms(2) by (simp add: coap_transport_read_def returns_ok_def)
next
  case True
  from assms(2,3) True show ?thesis
  proof (cases rule: transport_read_decoded [where E = E and fuel = fuel and p_port = p_port and a = a])
    case (ok i m s1)
    have "admissible fuel s1 m" using assms(4) [OF ok(7)] by (simp add: ok(2) admissible_def routable_def)
    then show ?thesis
      using read_dispatch_ok [OF assms(1) ok(4,5,7)] assms(3) ok(8) by (simp add: datagram_at_def)
  next
    case (no_room e)
    then show ?thesis using assms(2) by (simp add: returns_ok_def)
  qed
qed

section \<open>The device as a state machine\<close>

lemma answerable_add:
  assumes "answerable s" "callback item \<noteq> None"
  shows "answerable (s\<lparr>c_queue := snd (coap_queue_add (c_queue s) (Some item))\<rparr>)"
  using assms
  by (auto simp: answerable_def coap_queue_add_def dest!: subsetD [OF set_update_subset_insert] split: option.split)

lemma send_outcome_queue:
  assumes "send_outcome E s hnd m bs i = (e, h, s')"
  shows "m_coap_empty_message s' = m_coap_empty_message s \<and> (c_queue s' = c_queue s \<or>
    expects_answer m \<and> c_queue s' = snd (coap_queue_add (c_queue s) (Some (queued_item (env_junk E) m (block_ptr i) (length bs)))))"
proof -
  let ?item = "queued_item (env_junk E) m (block_ptr i) (length bs)"
  obtain w_err w where w: "env_write E (port m) (remote m) bs (world s) = (w_err, w)" by force
  obtain e' q where q: "coap_queue_add (c_queue s) (Some ?item) = (e', q)" by force
  have s': "s' = snd (snd (send_outcome E s hnd m bs i))" using assms by simp
  show ?thesis unfolding s' send_outcome_def w prod.case Let_def q by simp
qed

lemma send_ok:
  assumes "app_ok E" "device_inv s" "sendable s m p" "expects_answer m \<longrightarrow> response_callback m \<noteq> None"
  shows "\<exists>e h s'. coap_message_send E s (Some hnd) (Some m) = Inr (e, Some h, s') \<and> device_inv s'"
proof -
  have c: "core_inv s" and j: "length (q_token (env_junk E)) = 8"
    using assms(1,2) by (simp_all add: device_inv_def app_ok_def)
  from c assms(3) j show ?thesis
  proof (cases rule: internal_send_cases [where hnd = hnd])
    case (no_room e)
    then show ?thesis using assms(2) by (simp add: coap_message_send_def)
  next
    case (sent i)
    obtain e h s' where o: "send_outcome E s hnd m (pdu_bytes p) i = (e, h, s')" by (metis prod_cases3)
    have g: "core_inv s'" using grows_inv [OF send_outcome_grows [OF c assms(3) j sent(2-4) o]] .
    define item where "item = queued_item (env_junk E) m (block_ptr i) (length (pdu_bytes p))"
    note q = send_outcome_queue [OF o, folded item_def]
    have cb: "callback item = response_callback m" by (simp add: item_def queued_item_def)
    have "answerable s'"
      using conjunct2 [OF q]
    proof
      assume "c_queue s' = c_queue s"
      then show ?thesis using assms(2) by (simp add: device_inv_def answerable_def)
    next
      assume "expects_answer m \<and> c_queue s' = snd (coap_queue_add (c_queue s) (Some item))"
      then show ?thesis
        using answerable_add [of s item] assms(2,4) cb by (simp add: device_inv_def answerable_def)
    qed
    then show ?thesis using sent(5) o g conjunct1 [OF q] assms(2) by (simp add: coap_message_send_def device_inv_def)
  qed
qed

text \<open>
  The calls that drive the module: the application sends a message, the timer ticks, the transport delivers
  a datagram. The stack below has put the datagram into memory of its own before.
\<close>

inductive exchange :: "'w coap_env \<Rightarrow> nat \<Rightarrow> 'w coap_state \<Rightarrow> 'w coap_state \<Rightarrow> bool" for E fuel where
  Send: "sendable s m p \<Longrightarrow> expects_answer m \<longrightarrow> response_callback m \<noteq> None \<Longrightarrow>
    coap_message_send E s (Some hnd) (Some m) = Inr (e, h, s') \<Longrightarrow> exchange E fuel s s'"
| Tick: "coap_time_tick E s = Inr (e, s') \<Longrightarrow> exchange E fuel s s'"
| Receive: "\<forall>i < TOTAL_BLOCK_COUNT. hp (block_offset i) = c_heap s (block_offset i) \<Longrightarrow> t = s\<lparr>c_heap := hp\<rparr> \<Longrightarrow>
    datagram_at hp b k len p \<Longrightarrow> \<forall>m. decoded hp a p m \<longrightarrow> admissible fuel t m \<Longrightarrow>
    coap_transport_read E fuel t p_port a result (Ptr b k) len = Inr (e, s') \<Longrightarrow> exchange E fuel s s'"

inductive_cases exchange_elim: "exchange E fuel s s'"

lemma device_inv_heap:
  assumes "device_inv s" "\<forall>i < TOTAL_BLOCK_COUNT. hp (block_offset i) = c_heap s (block_offset i)"
  shows "device_inv (s\<lparr>c_heap := hp\<rparr>)"
  using assms by (simp add: device_inv_def core_inv_def pool_heap_def answerable_def)

lemma tick_ok:
  assumes "app_ok E" "device_inv s"
  shows "\<exists>s'. coap_time_tick E s = Inr (NRF_SUCCESS, s') \<and> device_inv s'"
  using assms tick_scan_ok [OF assms(1), of s "[0..<COAP_MESSAGE_QUEUE_SIZE]"] coap_time_tick_app [OF assms(1), of s]
  by (auto simp: device_inv_def)

lemma exchange_inv: "exchange E fuel s s' \<Longrightarrow> app_ok E \<Longrightarrow> device_inv s \<Longrightarrow> device_inv s'"
proof (induction rule: exchange.induct)
  case (Send s m p hnd e h s')
  then show ?case using send_ok [OF Send(4,5,1,2), of hnd] by auto
next
  case (Tick s e s')
  then show ?case using tick_ok by fastforce
next
  case (Receive hp s t b k len p a p_port result e s')
  have "device_inv t" using device_inv_heap [OF Receive(7,1)] Receive(2) by simp
  moreover have "datagram_at (c_heap t) b k len p" "\<And>m. decoded (c_heap t) a p m \<Longrightarrow> admissible fuel t m"
    using Receive(2-4) by simp_all
  ultimately have "returns_ok (coap_transport_read E fuel t p_port a result (Ptr b k) len)"
    using Receive(6) by (intro transport_read_ok)
  then show ?case using Receive(5) by (simp add: returns_ok_def)
qed

lemma exchange_reachable_inv: "(exchange E fuel)\<^sup>*\<^sup>* s s' \<Longrightarrow> app_ok E \<Longrightarrow> device_inv s \<Longrightarrow> device_inv s'"
  by (induction rule: rtranclp_induct) (auto intro: exchange_inv)

section \<open>Properties\<close>

lemma code_classes:
  "is_request c \<Longrightarrow> \<not> is_response c" "is_request c \<Longrightarrow> c \<noteq> COAP_CODE_EMPTY_MESSAGE"
  by (auto simp: is_request_def is_response_def COAP_CODE_EMPTY_MESSAGE_def word_less_nat_alt word_le_nat_alt)

lemma u8_eq_nat: "unat (x :: u8) = n \<Longrightarrow> x = of_nat n"
  by (rule word_unat_eq_iff [THEN iffD2]) (use unat_u8_less [of x] in \<open>simp add: unat_of_nat_u8\<close>)


text \<open>C10: An acknowledgement or a reset with the id of a pending message ends its exchange: the first pending message
  with that id leaves the queue, its buffer is freed and nothing else, and its callback, if it has one,
  is told once, of success for an acknowledgement and of the reset otherwise, with a message that carries
  the id and the token of the pending one. After that no retransmission of the message can follow.\<close>

theorem coap_ack_ends_exchange:
  assumes "app_ok E" "quiet_env E resp" "device_inv s" "datagram_at (c_heap s) b k len p" "room_for (c_mm s) 128"
    and "pdu_type p = 2 \<and> pdu_code p = COAP_CODE_EMPTY_MESSAGE \<or> pdu_type p = 3" "pdu_id p \<noteq> 0"
    and "find_first (\<lambda>it. mid it = pdu_id p) (m_queue (c_queue s)) = Some j"
  defines "item \<equiv> m_queue (c_queue s) ! j"
  shows "\<exists>s'. coap_transport_read E fuel s p_port a NRF_SUCCESS (Ptr b k) len = Inr (NRF_SUCCESS, s') \<and>
    item \<in># pending (c_queue s) \<and> pending (c_queue s') = pending (c_queue s) - {#item#} \<and>
    mm_live (c_mm s') = mm_live (c_mm s) - {p_buffer item} \<and>
    (case callback item of
       None \<Rightarrow> world s' = world s
     | Some cb \<Rightarrow> \<exists>m. hdr_id (header m) = pdu_id p \<and>
         take (unat (q_token_len item)) (token m) = take (unat (q_token_len item)) (q_token item) \<and>
         world s' = resp cb (if pdu_type p = 2 then NRF_SUCCESS else COAP_TRANSMISSION_RESET_BY_PEER) (q_arg item) (Some m) (world s))"
proof -
  from assms(3,4) disjI1 [OF refl] show ?thesis
  proof (cases rule: transport_read_decoded [where E = E and fuel = fuel and p_port = p_port and a = a and result = NRF_SUCCESS])
    case (no_room e')
    then show ?thesis using assms(5) by simp
  next
    case (ok i m s1)
    have wf: "pdu_wf p" using assms(4) by (simp add: datagram_at_def)
    note hd = decoded_header [OF ok(7) wf]
    have kinds: "\<not> is_ping m" "is_ack m \<or> is_reset m" "is_ack m \<longleftrightarrow> pdu_type p = 2"
      using u8_eq_nat [OF hd(1)] hd(2) assms(6) by (auto simp: is_ping_def is_ack_def is_reset_def c_consts)
    have c1: "core_inv s1" and q1: "c_queue s1 = c_queue s" "world s1 = world s"
      using ok(2,4) by (simp_all add: device_inv_def)
    have get: "coap_queue_item_by_mid_get (c_queue s1) (hdr_id (header m)) = (NRF_SUCCESS, Some j)"
      using assms(8) hd(3) q1 by (simp add: coap_queue_item_by_mid_get_def)
    have hid: "hdr_id (header m) \<noteq> 0" using assms(7) hd(3) by simp
    note g = mid_get_used [OF c1 hid get]
    have it: "m_queue (c_queue s1) ! j = item" using q1 by (simp add: item_def)
    define s2 where "s2 = s1\<lparr>world := (case callback item of None \<Rightarrow> world s1 | Some cb \<Rightarrow>
      resp cb (ack_status m) (q_arg item) (Some (with_token item m)) (world s1))\<rparr>"
    have n: "notify E item (ack_status m) (with_token item m) s1 = Inr s2"
      using assms(2) by (simp add: notify_def s2_def quiet_env_def split: option.split)
    have g2: "grows s1 s2" unfolding s2_def by (rule grows_world [OF c1])
    have read: "coap_transport_read E fuel s p_port a NRF_SUCCESS (Ptr b k) len
        = Inr (NRF_SUCCESS, block_free (expire s2 j) (block_ptr i))"
      using ok(8) kinds read_ack_found [OF c1 get g(2,3) hd(7), of E s2 "block_ptr i"] n g2 it
      by (simp add: read_dispatch_def)
    have c2: "core_inv s2" and q2: "c_queue s2 = c_queue s" "c_mm s2 = c_mm s1"
      using grows_inv [OF g2] q1 by (simp_all add: s2_def)
    have len: "j < length (m_queue (c_queue s))" "item_used item" using g it q1 core_invD(5) [OF c1] by simp_all
    have qi: "queue_inv (c_queue s)" using c1 q1 by (simp add: core_inv_def)
    have used2: "item_used (m_queue (c_queue s2) ! j)" using len q2 by (simp add: item_def)
    have live: "mm_live (c_mm (block_free (expire s2 j) (block_ptr i))) = mm_live (c_mm s) - {p_buffer item}"
    proof -
      have ii: "i < TOTAL_BLOCK_COUNT" "pool_inv (c_mm s)" "block_ptr i \<notin> mm_live (c_mm s)"
        using ok(3,5) assms(3) by (simp_all add: held_def device_inv_def core_inv_def live_block_iff)
      have "pool_inv (c_mm (expire s2 j))" using core_inv_expire_item [OF c2 g(2) used2] by (simp add: core_inv_def)
      then have "mm_live (c_mm (block_free (expire s2 j) (block_ptr i))) = mm_live (c_mm (expire s2 j)) - {block_ptr i}"
        using ii(1) by (simp add: block_free_block mem_mark_live)
      also have "\<dots> = mm_live (c_mm s) - {p_buffer item}"
        using expire_live [OF c2 g(2) used2] ii q2 ok(2) by (auto simp: mem_mark_live item_def)
      finally show ?thesis .
    qed
    have pend: "pending (c_queue (expire s2 j)) = pending (c_queue s) - {#item#}" "item \<in># pending (c_queue s)"
      using queue_remove_pending [OF qi len(1)] len q2 table_items_member [OF len(1), of item_used]
      by (simp_all add: expire_def item_def pending_def)
    have tok: "take (unat (q_token_len item)) (token (with_token item m)) = take (unat (q_token_len item)) (q_token item)"
      "hdr_id (header (with_token item m)) = pdu_id p"
      using queue_item_ok [OF c1 g(2)] it hd(3) by (simp_all add: with_token_def slot_ok_def)
    have st: "ack_status m = (if pdu_type p = 2 then NRF_SUCCESS else COAP_TRANSMISSION_RESET_BY_PEER)"
      using kinds(3) by (simp add: ack_status_def)
    have world: "world (expire s2 j) = world s2" by (simp add: expire_def)
    have told: "case callback item of
       None \<Rightarrow> world s2 = world s
     | Some cb \<Rightarrow> \<exists>m. hdr_id (header m) = pdu_id p \<and>
         take (unat (q_token_len item)) (token m) = take (unat (q_token_len item)) (q_token item) \<and>
         world s2 = resp cb (if pdu_type p = 2 then NRF_SUCCESS else COAP_TRANSMISSION_RESET_BY_PEER) (q_arg item) (Some m) (world s)"
    proof (cases "callback item")
      case (Some cb)
      then show ?thesis using tok q1(2) unfolding s2_def st
        by (simp only: option.case) (rule exI [of _ "with_token item m"], simp)
    qed (simp add: s2_def q1)
    show ?thesis
      by (rule exI [of _ "block_free (expire s2 j) (block_ptr i)"]) (simp only: read live pend world told block_free_queue simp_thms)
  qed
qed

text \<open>C11: A request for a path no resource is registered under is answered with 4.04: the reply has the id and the token of
  the request, is an acknowledgement for a confirmable request and otherwise of the type of the request,
  and has neither options nor payload. When the transport takes it, all memory is returned.\<close>

theorem coap_unknown_path_not_found:
  assumes "app_ok E" "device_inv s" "datagram_at (c_heap s) b k len p" "is_request (pdu_code p)" "pdu_type p < 3"
    and "spare (c_mm s) 4 256"
    and "\<And>m. decoded (c_heap s) a p m \<Longrightarrow> length (uri_path_ptrs m) \<le> COAP_RESOURCE_MAX_DEPTH \<and>
      (\<exists>e. coap_resource_get fuel (c_heap s) (c_resources s) (path_array m) (of_nat (length (uri_path_ptrs m))) = Inr (e, None))"
    and "env_write E \<lparr>port_number = COAP_SERVER_PORT\<rparr> a
      (pdu_bytes \<lparr>pdu_version = 1, pdu_type = (if pdu_type p = 0 then 2 else pdu_type p), pdu_code = 132, pdu_id = pdu_id p,
                  pdu_token = pdu_token p, pdu_options = [], pdu_payload = []\<rparr>) (world s) = (e, w)"
  shows "\<exists>s'. coap_transport_read E fuel s p_port a NRF_SUCCESS (Ptr b k) len = Inr (e, s') \<and> world s' = w \<and>
    c_queue s' = c_queue s \<and> (e = NRF_SUCCESS \<longrightarrow> c_mm s' = c_mm s)"
proof -
  have four: "(4 :: nat) = Suc 3" by simp
  have sp: "spare (c_mm s) (Suc 3) 256" using assms(6) unfolding four .
  have room: "room_for (c_mm s) 128"
    using spare_room [OF spare_smaller [OF sp, of 128]] by (simp add: MAX_MEM_SIZE_def MEMORY_MANAGER_LARGE_BLOCK_SIZE_def)
  from assms(2,3) disjI1 [OF refl] show ?thesis
  proof (cases rule: transport_read_decoded [where E = E and fuel = fuel and p_port = p_port and a = a and result = NRF_SUCCESS])
    case (no_room e')
    then show ?thesis using room by simp
  next
    case (ok i m s1)
    have wf: "pdu_wf p" using assms(3) by (simp add: datagram_at_def)
    note hd = decoded_header [OF ok(7) wf]
    have "hdr_type (header m) \<noteq> 3" using hd(1) assms(5) by auto
    then have kinds: "\<not> is_ping m" "\<not> is_ack m" "\<not> is_reset m" "\<not> is_response (hdr_code (header m))" "is_request (hdr_code (header m))"
      using assms(4) hd(2) code_classes [OF assms(4)]
      by (simp_all add: is_ping_def is_ack_def is_reset_def COAP_TYPE_RST_def)
    obtain e0 where g: "length (uri_path_ptrs m) \<le> COAP_RESOURCE_MAX_DEPTH"
      "coap_resource_get fuel (c_heap s1) (c_resources s1) (path_array m) (of_nat (length (uri_path_ptrs m))) = Inr (e0, None)"
      using assms(7) [OF ok(7)] ok(2) by auto
    have con: "hdr_type (header m) = COAP_TYPE_CON \<longleftrightarrow> pdu_type p = 0"
      using hd(1) by (auto simp: COAP_TYPE_CON_def word_unat_eq_iff)
    have pdu: "reply_pdu m COAP_CODE_404_NOT_FOUND = \<lparr>pdu_version = 1, pdu_type = (if pdu_type p = 0 then 2 else pdu_type p),
        pdu_code = 132, pdu_id = pdu_id p, pdu_token = pdu_token p, pdu_options = [], pdu_payload = []\<rparr>"
      using hd(1,3) assms(5) con decoded_token [OF ok(7)]
      by (auto simp: reply_pdu_def COAP_CODE_404_NOT_FOUND_def)
    have w1: "env_write E \<lparr>port_number = COAP_SERVER_PORT\<rparr> (remote m) (pdu_bytes (reply_pdu m COAP_CODE_404_NOT_FOUND)) (world s1) = (e, w)"
      using assms(8) ok(2) hd(6) unfolding pdu by simp
    have "spare (c_mm s1) 3 256" using spare_mark [OF sp] ok(2) by simp
    from request_error_reply_sends [OF assms(1) ok(4,5) hd(7,4) _ this w1]
    obtain s' where s': "request_error_reply E s1 (block_ptr i) m COAP_CODE_404_NOT_FOUND = Inr (e, s')" "world s' = w"
      "c_queue s' = c_queue s1" "e = NRF_SUCCESS \<longrightarrow> c_mm s' = mem_mark (c_mm s1) i True" by auto
    have "coap_transport_read E fuel s p_port a NRF_SUCCESS (Ptr b k) len = Inr (e, s')"
      using ok(8) kinds read_request_eq [OF hd(5,8) g] s'(1) by (simp add: read_dispatch_def)
    then show ?thesis using s' ok(2,3) by (simp add: mem_mark_undo)
  qed
qed

text \<open>C12: The dispatch of a request collects its Uri-Path options in an array of 5 without a bound check: every request
  with 6 or more of them writes past the end of the array.\<close>

theorem coap_long_path_overflows:
  assumes "device_inv s" "datagram_at (c_heap s) b k len p" "is_request (pdu_code p)" "pdu_type p < 3" "room_for (c_mm s) 128"
    and "5 < length (filter (\<lambda>(num, bs). num = 11) (pdu_options p))"
  shows "coap_transport_read E fuel s p_port a NRF_SUCCESS (Ptr b k) len = Inl OutOfBoundsWrite"
proof -
  from assms(1,2) disjI1 [OF refl] show ?thesis
  proof (cases rule: transport_read_decoded [where E = E and fuel = fuel and p_port = p_port and a = a and result = NRF_SUCCESS])
    case (no_room e')
    then show ?thesis using assms(5) by simp
  next
    case (ok i m s1)
    have wf: "pdu_wf p" using assms(2) by (simp add: datagram_at_def)
    note hd = decoded_header [OF ok(7) wf]
    have "hdr_type (header m) \<noteq> 3" using hd(1) assms(4) by auto
    then have kinds: "\<not> is_ping m" "\<not> is_ack m" "\<not> is_reset m" "\<not> is_response (hdr_code (header m))" "is_request (hdr_code (header m))"
      using assms(3) hd(2) code_classes [OF assms(3)]
      by (simp_all add: is_ping_def is_ack_def is_reset_def COAP_TYPE_RST_def)
    have eq: "length (filter (\<lambda>(num, bs). num = 11) (map (\<lambda>op. (unat (opt_number op), f op)) ops))
        = length (filter (\<lambda>op. opt_number op = COAP_OPT_URI_PATH) ops)" for ops and f :: "coap_option_t \<Rightarrow> u8 list"
      by (induction ops) (auto simp: COAP_OPT_URI_PATH_def word_unat_eq_iff)
    have "pdu_options p = map (\<lambda>op. (unat (opt_number op), bytes_of (c_heap s) (opt_data op) (unat (opt_length op)))) (used_options m)"
      using ok(7) by (auto simp: decoded_def received_pdu_def used_options_def)
    then have "\<not> length (uri_path_ptrs m) \<le> COAP_RESOURCE_MAX_DEPTH"
      using assms(6) eq by (simp add: uri_path_ptrs_def COAP_RESOURCE_MAX_DEPTH_def)
    then show ?thesis
      using ok(8) kinds uri_path_loop_message [OF hd(5,8)] by (simp add: read_dispatch_def read_request_def)
  qed
qed


section \<open>Examples\<close>

lemma boot_device: "device_inv (boot_state bs)"
proof -
  have "coap_empty_message = empty_message_set COAP_TYPE_ACK (remote coap_empty_message) 0 coap_empty_message"
    by (simp add: empty_message_set_def coap_empty_message_def)
  then have "template_ok coap_empty_message" unfolding template_ok_def by blast
  moreover have "answerable (boot_state bs)"
    by (auto simp: answerable_def boot_state_def coap_queue_init_def queue_item_zero_def)
  ultimately show ?thesis using boot_inv by (simp add: device_inv_def) (simp add: boot_state_def)
qed


text \<open>Datagrams in the object 5000.\<close>

definition peer :: coap_remote_t where
  "peer = \<lparr>remote_addr = replicate 16 1, remote_port_number = 5683\<rparr>"

lemma boot_datagram:
  assumes "pdu_wf p" "pdu_bytes p = bs"
  shows "datagram_at (c_heap (boot_state bs)) 5000 0 (of_nat (length bs)) p"
proof -
  have "length bs < 65536" using assms by (simp add: pdu_wf_def)
  then show ?thesis
    using assms by (simp add: datagram_at_def bytes_at_def boot_state_def boot_heap_def unat_of_nat_u16)
qed

lemma boot_spare: "spare (c_mm (boot_state bs)) 4 256"
proof -
  have "{8, 9, 10, 11} \<subseteq> {i. i < TOTAL_BLOCK_COUNT \<and> is_free (m_mem_pool (c_mm (boot_state bs)) ! i) \<and> 256 \<le> block_bytes i}"
    by (auto simp: boot_pool block_bytes_eq c_consts)
  then have "card {8, 9, 10, 11 :: nat} \<le> card {i. i < TOTAL_BLOCK_COUNT \<and> is_free (m_mem_pool (c_mm (boot_state bs)) ! i) \<and> 256 \<le> block_bytes i}"
    by (intro card_mono) auto
  then show ?thesis by (simp add: spare_def)
qed

lemma spare_fewer: "spare mm k n \<Longrightarrow> k' \<le> k \<Longrightarrow> spare mm k' n"
  by (simp add: spare_def)

lemma empty_pdu_wf: "unat ty < 4 \<Longrightarrow> pdu_wf (empty_pdu ty x)"
  using empty_sendable [of coap_empty_message ty "boot_state []"] boot_device [of "[]"]
  by (simp add: sendable_def device_inv_def boot_state_def)


theorem coap_unknown_path_not_found_witness:
  "\<exists>s'. coap_transport_read trace_env 0 (boot_state (pdu_bytes get_led_pdu)) \<lparr>port_number = 5683\<rparr> peer NRF_SUCCESS (Ptr 5000 0) 10
      = Inr (NRF_SUCCESS, s') \<and>
    world s' = [Sent \<lparr>port_number = COAP_SERVER_PORT\<rparr> peer [0x62, 132, 0x12, 0x34, 0xAB, 0xCD]]"
proof -
  let ?s = "boot_state (pdu_bytes get_led_pdu)"
  have wf: "pdu_wf get_led_pdu" using get_led_sendable by (simp add: sendable_def)
  have d: "datagram_at (c_heap ?s) 5000 0 10 get_led_pdu"
    using boot_datagram [OF wf refl] by (simp add: get_led_bytes)
  let ?r = "\<lparr>pdu_version = 1, pdu_type = (if pdu_type get_led_pdu = 0 then 2 else pdu_type get_led_pdu), pdu_code = 132,
    pdu_id = pdu_id get_led_pdu, pdu_token = pdu_token get_led_pdu, pdu_options = [], pdu_payload = []\<rparr>"
  have w: "env_write trace_env \<lparr>port_number = COAP_SERVER_PORT\<rparr> peer (pdu_bytes ?r) (world ?s)
      = (NRF_SUCCESS, [Sent \<lparr>port_number = COAP_SERVER_PORT\<rparr> peer [0x62, 132, 0x12, 0x34, 0xAB, 0xCD]])"
    by (simp add: get_led_pdu_def trace_env_def boot_state_def pdu_bytes_def rfc_header_def rfc_payload_def)
  have path: "length (uri_path_ptrs m) \<le> COAP_RESOURCE_MAX_DEPTH \<and>
      (\<exists>e. coap_resource_get 0 (c_heap ?s) (c_resources ?s) (path_array m) (of_nat (length (uri_path_ptrs m))) = Inr (e, None))"
    if "decoded (c_heap ?s) peer get_led_pdu m" for m
  proof -
    have "unat (options_count m) = 1" using that by (simp add: decoded_def get_led_pdu_def)
    then have "length (used_options m) \<le> 1" by (simp add: used_options_def)
    then have "length (uri_path_ptrs m) \<le> 1"
      unfolding uri_path_ptrs_def length_map by (rule order_trans [OF length_filter_le])
    then show ?thesis by (simp add: coap_resource_get_def boot_state_def COAP_RESOURCE_MAX_DEPTH_def)
  qed
  show ?thesis
    using coap_unknown_path_not_found [OF trace_app_ok boot_device d _ _ boot_spare path w]
    by (auto simp: get_led_pdu_def is_request_def)
qed

text \<open>A GET request with 6 Uri-Path options \<open>a\<close>.\<close>

definition deep_pdu :: pdu where
  "deep_pdu = \<lparr>pdu_version = 1, pdu_type = 0, pdu_code = 1, pdu_id = 7, pdu_token = [],
     pdu_options = [(11, [97]), (11, [97]), (11, [97]), (11, [97]), (11, [97]), (11, [97])], pdu_payload = []\<rparr>"

theorem coap_long_path_overflows_witness:
  "coap_transport_read trace_env 0 (boot_state (pdu_bytes deep_pdu)) \<lparr>port_number = 5683\<rparr> peer NRF_SUCCESS (Ptr 5000 0) 16
     = Inl OutOfBoundsWrite"
proof -
  have len: "length (pdu_bytes deep_pdu) = 16"
    by (simp add: deep_pdu_def pdu_bytes_def rfc_header_def rfc_payload_def rfc_option_def rfc_ext_def)
  have wf: "pdu_wf deep_pdu"
    using len by (simp add: pdu_wf_def) (simp add: deep_pdu_def c_consts)
  have d: "datagram_at (c_heap (boot_state (pdu_bytes deep_pdu))) 5000 0 16 deep_pdu"
    using boot_datagram [OF wf refl] by (simp add: len)
  show ?thesis
    using coap_long_path_overflows [OF boot_device d _ _ boot_room] by (simp add: deep_pdu_def is_request_def)
qed

lemma waiting_device: "device_inv (waiting_state (waiting_item t r (Some cb))\<lparr>c_heap := boot_heap bs\<rparr>)"
proof (rule device_inv_heap)
  show "device_inv (waiting_state (waiting_item t r (Some cb)))"
    using waiting_inv waiting_answerable boot_device [of "[]"] by (simp add: device_inv_def) (simp add: waiting_state_def)
  show "\<forall>i < TOTAL_BLOCK_COUNT. boot_heap bs (block_offset i) = c_heap (waiting_state (waiting_item t r (Some cb))) (block_offset i)"
    by (auto simp: waiting_state_def boot_state_def boot_heap_def block_offset_def c_consts)
qed

theorem coap_ack_ends_exchange_witness:
  "\<exists>s' m. coap_transport_read trace_env 0 (waiting_state (waiting_item 2 0 (Some 70))\<lparr>c_heap := boot_heap [0x60, 0, 0, 7]\<rparr>)
       \<lparr>port_number = 5683\<rparr> peer NRF_SUCCESS (Ptr 5000 0) 4 = Inr (NRF_SUCCESS, s') \<and>
     pending (c_queue s') = {#} \<and> world s' = [Response_Call 70 NRF_SUCCESS None (Some m)]"
proof -
  let ?item = "waiting_item 2 0 (Some 70)"
  let ?s = "waiting_state ?item\<lparr>c_heap := boot_heap [0x60, 0, 0, 7]\<rparr>"
  have hi: "u16_hi 7 = 0" "u16_lo 7 = 7" by (simp_all add: u16_hi_def u16_lo_def)
  have b: "pdu_bytes (empty_pdu COAP_TYPE_ACK 7) = [0x60, 0, 0, 7]" by (simp add: empty_pdu_bytes hi c_consts)
  have d: "datagram_at (c_heap ?s) 5000 0 4 (empty_pdu COAP_TYPE_ACK 7)"
    using boot_datagram [OF empty_pdu_wf b] by (simp add: c_consts boot_state_def)
  have room: "room_for (c_mm ?s) 128"
  proof -
    have "spare (c_mm ?s) 3 256" using spare_mark [of "c_mm (boot_state [])" 3 256 0] boot_spare [of "[]"]
      by (simp add: waiting_state_def)
    then have "spare (c_mm ?s) (Suc 2) 128" using spare_smaller [of "c_mm ?s" 3 256 128] by simp
    then show ?thesis by (rule spare_room) (simp_all add: c_consts)
  qed
  have f: "find_first (\<lambda>it. mid it = pdu_id (empty_pdu COAP_TYPE_ACK 7)) (m_queue (c_queue ?s)) = Some 0"
    by (simp add: waiting_queue find_first_def empty_pdu_def waiting_item_def)
  have it: "m_queue (c_queue ?s) ! 0 = ?item" "pending (c_queue ?s) = {#?item#}" "q_arg ?item = None" "world ?s = []"
    using waiting_pending [of 2 0 "Some 70"]
    by (simp_all add: waiting_queue) (simp_all add: waiting_item_def queue_item_zero_def waiting_state_def boot_state_def)
  have ack: "pdu_type (empty_pdu COAP_TYPE_ACK 7) = 2 \<and> pdu_code (empty_pdu COAP_TYPE_ACK 7) = COAP_CODE_EMPTY_MESSAGE \<or>
      pdu_type (empty_pdu COAP_TYPE_ACK 7) = 3" "pdu_id (empty_pdu COAP_TYPE_ACK 7) \<noteq> 0" "pdu_type (empty_pdu COAP_TYPE_ACK 7) = 2"
    by (simp_all add: empty_pdu_def c_consts)
  obtain s' where s': "coap_transport_read trace_env 0 ?s \<lparr>port_number = 5683\<rparr> peer NRF_SUCCESS (Ptr 5000 0) 4 = Inr (NRF_SUCCESS, s')"
    "pending (c_queue s') = {#}" "\<exists>m. world s' = trace_resp 70 NRF_SUCCESS None (Some m) []"
    using coap_ack_ends_exchange [OF trace_app_ok trace_quiet waiting_device d room ack(1,2) f, of 0 "\<lparr>port_number = 5683\<rparr>" peer]
    unfolding it ack(3) waiting_used option.case by auto
  then show ?thesis by (auto simp: trace_resp_def)
qed

end
