(* ===== verification/Switch_Reply.thy ===== *)
theory Switch_Reply
  imports Switch_App Coap_Receive
begin

text \<open>
  What the switch answers. A callback of the application takes two blocks for a reply, adds options and
  a payload, sends it and returns the blocks. The predicate \<open>drafting\<close> holds while options are added,
  \<open>drafted\<close> when the message can be sent. The properties follow for the requests on the LED, for the
  notifications and for the block-wise texts.
\<close>

section \<open>States that differ outside the pools and the queue\<close>

lemma device_inv_unrelated [simp]:
  "device_inv (s\<lparr>world := w\<rparr>) = device_inv s"
  "device_inv (s\<lparr>c_observers := ob\<rparr>) = device_inv s"
  "device_inv (s\<lparr>c_resources := rs\<rparr>) = device_inv s"
  "device_inv (s\<lparr>m_message_id_counter := x\<rparr>) = device_inv s"
  by (simp_all add: device_inv_def core_inv_def answerable_def)

lemma held_unrelated [simp]:
  "held i (s\<lparr>world := w\<rparr>) = held i s"
  "held i (s\<lparr>c_observers := ob\<rparr>) = held i s"
  "held i (s\<lparr>c_resources := rs\<rparr>) = held i s"
  "held i (s\<lparr>m_message_id_counter := x\<rparr>) = held i s"
  "held i (s\<lparr>c_heap := h\<rparr>) = held i s"
  by (simp_all add: held_def not_buffer_def)

lemma device_inv_agrees:
  assumes "device_inv s" "held j s" "agrees_below (block_offset j) lim (c_heap s) h'"
  shows "device_inv (s\<lparr>c_heap := h'\<rparr>)"
proof -
  have j: "j < TOTAL_BLOCK_COUNT" using assms(2) by (simp add: held_def)
  have "h' = (c_heap s)(block_offset j := h' (block_offset j))" using assms(3) by (auto simp: agrees_below_def)
  moreover have "length (h' (block_offset j)) = block_bytes j"
    using assms j by (simp add: agrees_below_def device_inv_def core_inv_def pool_heap_def)
  ultimately show ?thesis
    using silent_inv [OF assms(1) silent_fill [of s j "h' (block_offset j)"]] assms(1,2) by (simp add: device_inv_def)
qed

section \<open>A new message\<close>

definition message_pdu :: "coap_message_conf_t \<Rightarrow> pdu" where
  "message_pdu c =
     \<lparr>pdu_version = 1, pdu_type = unat (conf_type c) mod 4, pdu_code = conf_code c, pdu_id = conf_id c,
      pdu_token = take (unat (conf_token_len c)) (conf_token c), pdu_options = [], pdu_payload = []\<rparr>"

definition new_message :: "coap_message_conf_t \<Rightarrow> ptr \<Rightarrow> u16 \<Rightarrow> coap_message_t" where
  "new_message c pd n = coap_message_zero
     \<lparr>p_data := pd, data_len := n,
      header := \<lparr>hdr_version = 1, hdr_type = take_bit 2 (conf_type c), hdr_token_len = conf_token_len c, hdr_code = conf_code c,
                 hdr_id = conf_id c\<rparr>,
      response_callback := conf_response_callback c, token := conf_token c, port := conf_port c\<rparr>"

text \<open>The configuration after \<open>coap_message_new\<close>: the local port, and a generated id where it was zero.\<close>

definition settled_conf :: "'w coap_state \<Rightarrow> coap_message_conf_t \<Rightarrow> coap_message_conf_t" where
  "settled_conf s c =
     (let c1 = c\<lparr>conf_port := \<lparr>port_number = (if is_request (conf_code c) then COAP_CLIENT_PORT else COAP_SERVER_PORT)\<rparr>\<rparr>
      in if conf_id c1 = 0 then c1\<lparr>conf_id := ucast (m_message_id_counter s)\<rparr> else c1)"

definition with_new_blocks :: "'w coap_state \<Rightarrow> nat \<Rightarrow> nat \<Rightarrow> bool \<Rightarrow> 'w coap_state" where
  "with_new_blocks s i j fresh =
     s\<lparr>c_mm := mem_mark (mem_mark (c_mm s) i False) j False,
       c_heap := (c_heap s)(block_offset j := replicate (block_bytes j) 0),
       m_message_id_counter := (if fresh then m_message_id_counter s + 1 else m_message_id_counter s)\<rparr>"

definition conf_ok :: "coap_message_conf_t \<Rightarrow> bool" where
  "conf_ok c \<longleftrightarrow> length (conf_token c) = 8 \<and> unat (conf_token_len c) \<le> 8"

text \<open>The values of the options lie in the data block.\<close>

definition own_options :: "nat \<Rightarrow> coap_message_t \<Rightarrow> bool" where
  "own_options j r \<longleftrightarrow> (\<forall>op \<in> set (used_options r). \<exists>k. opt_data op = Ptr (block_offset j) k)"

definition drafting :: "'w coap_state \<Rightarrow> nat \<Rightarrow> nat \<Rightarrow> coap_message_t \<Rightarrow> pdu \<Rightarrow> bool" where
  "drafting s i j r p \<longleftrightarrow> device_inv s \<and> held i s \<and> held j s \<and> i \<noteq> j \<and> building (c_heap s) r (block_offset j) 0 p \<and>
     256 \<le> unat (data_len r) \<and> unat (options_offset r) \<le> 4 * length (pdu_options p) \<and> own_options j r \<and> p_payload r = NULL"

lemma new_message_building:
  assumes "conf_ok c" "length (h (block_offset j)) = block_bytes j" "unat n = block_bytes j"
  shows "building h (new_message c (block_ptr j) n) (block_offset j) 0 (message_pdu c)"
  using assms by (simp add: building_def message_repr_def new_message_def message_pdu_def conf_ok_def coap_message_zero_def
      used_options_def c_consts unat_take_bit_u8)

lemma block_bytes_u16: "unat (ucast (of_nat (block_bytes j) :: u32) :: u16) = block_bytes j"
  by (simp add: block_bytes_eq c_consts)

lemma settled_simps [simp]:
  "conf_token (settled_conf s c) = conf_token c" "conf_token_len (settled_conf s c) = conf_token_len c"
  "conf_type (settled_conf s c) = conf_type c" "conf_code (settled_conf s c) = conf_code c"
  "conf_response_callback (settled_conf s c) = conf_response_callback c"
  "conf_port (settled_conf s c) = \<lparr>port_number = (if is_request (conf_code c) then COAP_CLIENT_PORT else COAP_SERVER_PORT)\<rparr>"
  "conf_id (settled_conf s c) = (if conf_id c = 0 then ucast (m_message_id_counter s) else conf_id c)"
  by (simp_all add: settled_conf_def Let_def)

lemma message_create_eq:
  assumes "conf_ok c"
  shows "coap_message_create (Some (coap_message_zero\<lparr>p_data := pd, data_len := n\<rparr>)) (Some (settled_conf s c))
    = (NRF_SUCCESS, Some (new_message (settled_conf s c) pd n))"
proof -
  have "take_bit 4 (conf_token_len c) = conf_token_len c"
    using assms by (intro take_bit_u8_small) (simp add: conf_ok_def)
  moreover have "take_bit 2 COAP_VERSION = 1" "COAP_SERVER_PORT \<noteq> 0" "COAP_CLIENT_PORT \<noteq> 0"
    by (simp_all add: c_consts take_bit_eq_mod)
  ultimately show ?thesis by (simp add: coap_message_create_def new_message_def) (simp add: coap_message_zero_def)
qed

lemma message_new_eq:
  assumes "conf_ok c" "block_alloc s SIZEOF_COAP_MESSAGE = (NRF_SUCCESS, block_ptr i, n, s\<lparr>c_mm := mem_mark (c_mm s) i False\<rparr>)"
    and "block_alloc (s\<lparr>c_mm := mem_mark (c_mm s) i False\<rparr>) 256
      = (NRF_SUCCESS, block_ptr j, k, s\<lparr>c_mm := mem_mark (mem_mark (c_mm s) i False) j False\<rparr>)"
    and "block_clear (s\<lparr>c_mm := mem_mark (mem_mark (c_mm s) i False) j False\<rparr>) (block_ptr j) (unat k)
      = Inr (s\<lparr>c_mm := mem_mark (mem_mark (c_mm s) i False) j False,
               c_heap := (c_heap s)(block_offset j := replicate (block_bytes j) 0)\<rparr>)"
  shows "coap_message_new s c = Inr (NRF_SUCCESS, Some (block_ptr i, new_message (settled_conf s c) (block_ptr j) (ucast k)),
    settled_conf s c, with_new_blocks s i j (conf_id c = 0))"
proof -
  have c: "(ucast COAP_MESSAGE_DATA_MAX_SIZE :: u32) = 256" by (simp add: c_consts)
  let ?c1 = "c\<lparr>conf_port := \<lparr>port_number = (if is_request (conf_code c) then COAP_CLIENT_PORT else COAP_SERVER_PORT)\<rparr>\<rparr>"
  have sc: "settled_conf s c = (if conf_id ?c1 = 0 then ?c1\<lparr>conf_id := ucast (m_message_id_counter s)\<rparr> else ?c1)"
    by (simp add: settled_conf_def Let_def)
  show ?thesis
    unfolding coap_message_new_def assms(2) prod.case c assms(3) simp_thms if_False assms(4) c_bind_Inr Let_def
    using message_create_eq [OF assms(1), where pd = "block_ptr j" and n = "ucast k" and s = s]
    by (simp add: sc with_new_blocks_def) (simp split: if_splits)
qed

lemma message_new_outcome:
  assumes "device_inv s" "conf_ok c"
  obtains (created) i j n where "coap_message_new s c = Inr (NRF_SUCCESS, Some (block_ptr i, new_message (settled_conf s c) (block_ptr j) n),
        settled_conf s c, with_new_blocks s i j (conf_id c = 0))"
      "drafting (with_new_blocks s i j (conf_id c = 0)) i j (new_message (settled_conf s c) (block_ptr j) n)
         (message_pdu (settled_conf s c))"
      "is_free (m_mem_pool (c_mm s) ! i)" "is_free (m_mem_pool (mem_mark (c_mm s) i False) ! j)"
      "\<And>k. held k s \<Longrightarrow> k \<noteq> i \<and> k \<noteq> j \<and> held k (with_new_blocks s i j (conf_id c = 0))"
  | (failed) e r c' s' where "coap_message_new s c = Inr (e, r, c', s')" "e \<noteq> NRF_SUCCESS" "\<not> spare (c_mm s) 2 256"
proof -
  have nz: "SIZEOF_COAP_MESSAGE \<noteq> 0" "unat SIZEOF_COAP_MESSAGE = 128" "(256 :: u32) \<noteq> 0" "unat (256 :: u32) = 256"
    by (simp_all add: c_consts)
  have c: "(ucast COAP_MESSAGE_DATA_MAX_SIZE :: u32) = 256" by (simp add: c_consts)
  have two: "(2 :: nat) = Suc 1" by simp
  from assms(1) nz(1) show thesis
  proof (cases rule: block_alloc_silent)
    case (fail e)
    have "\<not> spare (c_mm s) 2 256"
      using fail(1) spare_room [of "c_mm s" 1 128] spare_smaller [of "c_mm s" 2 256 128]
      unfolding nz(2) two by (auto simp: MAX_MEM_SIZE_def MEMORY_MANAGER_LARGE_BLOCK_SIZE_def)
    then show thesis using failed [of e None c s] fail(2,3) by (simp add: coap_message_new_def)
  next
    case (ok i s1)
    have d1: "device_inv s1" using silent_inv [OF assms(1) ok(6)] .
    from d1 nz(3) show thesis
    proof (cases rule: block_alloc_silent)
      case (fail e)
      have "\<not> spare (c_mm s) 2 256"
        using fail(1) spare_room [of "c_mm s1" 0 256] spare_mark [of "c_mm s" 1 256 i] ok(4)
        unfolding nz(4) two by (auto simp: MAX_MEM_SIZE_def MEMORY_MANAGER_LARGE_BLOCK_SIZE_def)
      then show thesis
        using failed [of e "Some (block_ptr i, coap_message_zero)" c "block_free s1 (block_ptr i)"] fail(2,3) ok(5) c
        by (simp add: coap_message_new_def)
    next
      case ok2: (ok j s2)
      have d2: "device_inv s2" using silent_inv [OF d1 ok2(6)] .
      let ?s3 = "s2\<lparr>c_heap := (c_heap s2)(block_offset j := replicate (block_bytes j) 0)\<rparr>"
      let ?n = "ucast (of_nat (block_bytes j) :: u32) :: u16"
      let ?t = "with_new_blocks s i j (conf_id c = 0)" and ?m = "new_message (settled_conf s c) (block_ptr j) ?n"
      note cl = clear_silent [OF d2 ok2(7)]
      have t: "?t = ?s3\<lparr>m_message_id_counter := m_message_id_counter ?t\<rparr>"
        using ok(4) ok2(4) by (simp add: with_new_blocks_def)
      have iff: "held k ?t = held k ?s3" "device_inv ?t = device_inv ?s3" for k by (subst t, simp)+
      have held: "held i ?t" "held j ?t" "device_inv ?t"
        using silent_held [OF silent_held [OF ok(7) ok2(6) d1] cl(2) d2] silent_held [OF ok2(7) cl(2) d2] silent_inv [OF d2 cl(2)]
        unfolding iff by blast+
      have others: "k \<noteq> i \<and> k \<noteq> j \<and> held k ?t" if "held k s" for k
        using silent_held [OF silent_held [OF silent_held [OF that ok(6) assms(1)] ok2(6) d1] cl(2) d2]
          ok(8) [OF that] ok2(8) [OF silent_held [OF that ok(6) assms(1)]] unfolding iff by blast
      have new: "coap_message_new s c = Inr (NRF_SUCCESS, Some (block_ptr i, ?m), settled_conf s c, ?t)"
        using ok(4,5) ok2(4,5) cl(1) by (intro message_new_eq [OF assms(2)]) simp_all
      have "conf_ok (settled_conf s c)" using assms(2) by (simp add: conf_ok_def)
      then have b: "building (c_heap ?t) ?m (block_offset j) 0 (message_pdu (settled_conf s c))"
        using block_bytes_u16 by (intro new_message_building) (simp_all add: with_new_blocks_def)
      have "data_len ?m = ?n" "options_offset ?m = 0" "own_options j ?m" "p_payload ?m = NULL"
        by (simp_all add: new_message_def coap_message_zero_def own_options_def used_options_def)
      then have "drafting ?t i j ?m (message_pdu (settled_conf s c))"
        using held b ok2(8) [OF ok(7)] ok2(9) block_bytes_u16 nz(4) by (simp add: drafting_def)
      then show thesis using created [OF new _ ok(3) _ others] ok(4) ok2(3) by simp
    qed
  qed
qed

section \<open>Adding options and the payload\<close>

text \<open>What adding an option keeps of a message.\<close>

definition same_envelope :: "coap_message_t \<Rightarrow> coap_message_t \<Rightarrow> bool" where
  "same_envelope m m' \<longleftrightarrow> port m' = port m \<and> remote m' = remote m \<and> p_arg m' = p_arg m \<and>
     response_callback m' = response_callback m \<and> header m' = header m \<and> token m' = token m \<and>
     p_data m' = p_data m \<and> data_len m' = data_len m \<and> p_payload m' = p_payload m"

lemma opt_append_envelope:
  assumes "opt_append h m q num len = Inr (e, h', m')"
  shows "same_envelope m m' \<and> options_offset m' = options_offset m + len"
  using assms by (auto simp: opt_append_def option_upd_def same_envelope_def Let_def c_bind_def split: sum.splits if_splits)

lemma opt_append_own:
  assumes "opt_append h m (Some (Ptr (block_offset j) k)) num len = Inr (e, h', m')" "own_options j m"
  shows "own_options j m'"
proof -
  let ?i = "unat (options_count m)"
  obtain op where op: "options m' = (options m)[?i := op]" "opt_data op = Ptr (block_offset j) k"
    "options_count m' = options_count m + 1"
    using assms(1) by (auto simp: opt_append_def option_upd_def arr_upd_def arr_get_def Let_def c_bind_def split: sum.splits if_splits)
  have "unat (options_count m + 1) \<le> Suc ?i"
    using unat_word_ariths(1) [of "options_count m" 1] mod_less_eq_dividend [of "?i + 1" "2 ^ 8"] by simp
  then have "set (used_options m') \<subseteq> set (take (Suc ?i) ((options m)[?i := op]))"
    using op(1,3) by (simp add: used_options_def set_take_subset_set_take)
  also have "\<dots> \<subseteq> insert op (set (used_options m))"
    by (cases "?i < length (options m)") (auto simp: used_options_def take_Suc_update list_update_beyond dest: in_set_takeD)
  finally show ?thesis using assms(2) op(2) by (auto simp: own_options_def)
qed

lemma uint_encode_length:
  assumes "coap_opt_uint_encode h p (Some n) d = Inr (NRF_SUCCESS, h', l)"
  shows "unat (the l) \<le> 4"
  using assms by (auto simp: coap_opt_uint_encode_def c_bind_def c_consts split: sum.splits if_splits)

lemma opt_uint_add_envelope:
  assumes "coap_message_opt_uint_add h m num d = Inr (NRF_SUCCESS, h', m')"
  shows "same_envelope m m' \<and> unat (options_offset m') \<le> unat (options_offset m) + 4 \<and>
    (p_data m = block_ptr j \<longrightarrow> own_options j m \<longrightarrow> own_options j m')"
proof -
  have add: "unat (options_offset m + l) \<le> unat (options_offset m) + 4" if "unat l \<le> 4" for l
    using that unat_word_ariths(1) [of "options_offset m" l] mod_less_eq_dividend [of "unat (options_offset m) + unat l" "2 ^ 16"]
    by simp
  show ?thesis
  proof (cases "d = 0")
    case True
    then have "opt_append h m (Some (ptr_add (p_data m) (unat (options_offset m)))) num 0 = Inr (NRF_SUCCESS, h', m')"
      using assms by (simp add: coap_message_opt_uint_add_def c_consts split: if_splits)
    then show ?thesis by (auto dest: opt_append_envelope opt_append_own)
  next
    case False
    then obtain h1 l where "coap_opt_uint_encode h (ptr_add (p_data m) (unat (options_offset m))) (Some (data_len m - options_offset m)) d
        = Inr (NRF_SUCCESS, h1, l)"
      and a: "opt_append h1 m (Some (ptr_add (p_data m) (unat (options_offset m)))) num (the l) = Inr (NRF_SUCCESS, h', m')"
      using assms by (auto simp: coap_message_opt_uint_add_def Let_def c_bind_def c_consts split: if_splits sum.splits)
    then have "unat (the l) \<le> 4" by (auto dest: uint_encode_length)
    then show ?thesis using opt_append_envelope [OF a] add a opt_append_own by auto
  qed
qed

lemma agrees_below_trans:
  "agrees_below b lim h h' \<Longrightarrow> agrees_below b lim' h' h'' \<Longrightarrow> agrees_below b 0 h h''"
  by (simp add: agrees_below_def)

text \<open>An option of an unsigned number.\<close>

lemma opt_uint_drafting:
  assumes "drafting s i j r p" "next_option_ok p num (uint_value v)" "length (pdu_options p) < 8"
  obtains h' r' where "opt_uint s r (of_nat num) v = Inr (r', s\<lparr>c_heap := h'\<rparr>)"
    "drafting (s\<lparr>c_heap := h'\<rparr>) i j r' (add_option num (uint_value v) p)"
    "agrees_below (block_offset j) 0 (c_heap s) h'" "same_envelope r r'"
proof -
  note d = assms(1) [unfolded drafting_def]
  have b: "building (c_heap s) r (block_offset j) 0 p" using d by blast
  have "length (uint_value v) \<le> 4" by (simp add: uint_value_def uint_bytes_def)
  then have room: "\<not> unat (data_len r) - unat (options_offset r) < length (uint_value v)"
    and cnt: "length (pdu_options p) \<noteq> COAP_MAX_NUMBER_OF_OPTIONS"
    using d assms(3) by (auto simp: COAP_MAX_NUMBER_OF_OPTIONS_def)
  obtain h' r' where h': "coap_message_opt_uint_add (c_heap s) r (of_nat num) v = Inr (NRF_SUCCESS, h', r')"
    "building h' r' (block_offset j) 0 (add_option num (uint_value v) p)"
    "agrees_below (block_offset j) (0 + unat (options_offset r)) (c_heap s) h'"
    using coap_message_opt_uint_add_appends [OF b assms(2)] cnt room by auto
  have pd: "p_data r = block_ptr j" using b by (simp add: building_def)
  note e = opt_uint_add_envelope [OF h'(1), of j, THEN conjunct1] opt_uint_add_envelope [OF h'(1), of j, THEN conjunct2]
  have "device_inv (s\<lparr>c_heap := h'\<rparr>)" using device_inv_agrees [OF _ _ h'(3)] d by blast
  then have "drafting (s\<lparr>c_heap := h'\<rparr>) i j r' (add_option num (uint_value v) p)"
    using d h'(2) e pd by (auto simp: drafting_def add_option_def same_envelope_def)
  moreover have "agrees_below (block_offset j) 0 (c_heap s) h'" using h'(3) by (simp add: agrees_below_def)
  ultimately show thesis using that h'(1) e by (simp add: opt_uint_def APP_ERROR_CHECK_def)
qed

text \<open>A string in the byte store.\<close>

definition text_at :: "heap \<Rightarrow> ptr \<Rightarrow> u8 list \<Rightarrow> bool" where
  "text_at h q bs \<longleftrightarrow> (\<exists>c k rest. q = Ptr c k \<and> k \<le> length (h c) \<and> drop k (h c) = bs @ 0 # rest \<and> 0 \<notin> set bs)"

lemma c_strlen_text: "0 \<notin> set bs \<Longrightarrow> c_strlen (bs @ 0 # rest) = Inr (length bs)"
proof -
  assume "0 \<notin> set bs"
  then have "find_first (\<lambda>c. c = 0) (bs @ 0 # rest) = Some (length bs)"
    unfolding find_first_Some by (auto simp: nth_append) (metis nth_mem)
  then show ?thesis by (simp add: c_strlen_def)
qed

lemma text_at_strlen: "text_at h q bs \<Longrightarrow> heap_strlen h q = Inr (length bs)"
  by (auto simp: text_at_def heap_strlen_def c_strlen_text)

lemma text_at_load: "text_at h q bs \<Longrightarrow> load_bytes h q (length bs) = Inr bs"
proof -
  assume "text_at h q bs"
  then obtain c k rest where t: "q = Ptr c k" "k \<le> length (h c)" "drop k (h c) = bs @ 0 # rest" by (auto simp: text_at_def)
  then have "length (h c) = k + length (bs @ 0 # rest)" by (metis le_add_diff_inverse length_drop)
  then show ?thesis using t by (simp add: arr_read_eq)
qed

text \<open>A message that can be sent.\<close>

definition drafted :: "'w coap_state \<Rightarrow> nat \<Rightarrow> nat \<Rightarrow> coap_message_t \<Rightarrow> pdu \<Rightarrow> bool" where
  "drafted s i j r p \<longleftrightarrow> device_inv s \<and> held i s \<and> held j s \<and> i \<noteq> j \<and> p_data r = block_ptr j \<and>
     message_repr (c_heap s) r p \<and> detached (c_mm s) r"

lemma own_detached:
  assumes "device_inv s" "held j s" "own_options j r" "p_payload r = NULL \<or> p_payload r = Ptr (block_offset j) k"
  shows "detached (c_mm s) r"
proof -
  have "outside (block_offset i) (Ptr (block_offset j) l)" if "i < TOTAL_BLOCK_COUNT" "is_free (m_mem_pool (c_mm s) ! i)" for i l
  proof -
    have "core_inv s" using assms(1) by (simp add: device_inv_def)
    then have "i \<noteq> j" using held_ne_free assms(2) that(2) by blast
    then show ?thesis using that(1) assms(2) by (simp add: outside_def held_def block_offset_inj)
  qed
  then show ?thesis using assms(3,4) by (auto simp: detached_def own_options_def outside_def)
qed

lemma drafting_drafted: "drafting s i j r p \<Longrightarrow> drafted s i j r p"
  using own_detached [of s j r] by (simp add: drafting_def drafted_def building_def)

text \<open>The payload.\<close>

lemma payload_string_drafts:
  assumes "drafting s i j r p" "text_at (c_heap s) q bs" "4 * length (pdu_options p) + length bs \<le> 256"
  obtains h' r' where "payload_string s r q = Inr (r', s\<lparr>c_heap := h'\<rparr>)"
    "drafted (s\<lparr>c_heap := h'\<rparr>) i j r' (p\<lparr>pdu_payload := bs\<rparr>)"
    "agrees_below (block_offset j) 0 (c_heap s) h'" "port r' = port r" "remote r' = remote r" "header r' = header r"
proof -
  note d = assms(1) [unfolded drafting_def]
  have b: "building (c_heap s) r (block_offset j) 0 p" using d by blast
  have dl: "unat (data_len r) \<le> length (c_heap s (block_offset j))" "p_data r = block_ptr j"
    using b by (simp_all add: building_def)
  have len: "unat (of_nat (length bs) :: u16) = length bs" using assms(3) by (intro unat_of_nat_u16) simp
  have ld: "load_bytes (c_heap s) q (unat (of_nat (length bs) :: u16)) = Inr bs" using text_at_load [OF assms(2)] len by simp
  have fits: "0 + unat (options_offset r) + length bs \<le> length (c_heap s (block_offset j))" using d dl(1) assms(3) by linarith
  obtain h' r' where h': "coap_message_payload_set (c_heap s) r q (of_nat (length bs)) = Inr (NRF_SUCCESS, h', r')"
    "message_repr h' r' (p\<lparr>pdu_payload := bs\<rparr>)" "agrees_below (block_offset j) (0 + unat (options_offset r)) (c_heap s) h'"
    using coap_message_payload_set_sets [OF b ld] fits by blast
  have r': "r' = r\<lparr>p_payload := Ptr (block_offset j) (unat (options_offset r)), payload_len := of_nat (length bs)\<rparr>"
    using h'(1) dl(2) by (auto simp: coap_message_payload_set_def Let_def c_bind_def split: sum.splits)
  have di: "device_inv (s\<lparr>c_heap := h'\<rparr>)" using device_inv_agrees [OF _ _ h'(3)] d by blast
  have "own_options j r'" using d by (simp add: own_options_def r' used_options_def)
  then have "detached (c_mm (s\<lparr>c_heap := h'\<rparr>)) r'" using d by (intro own_detached [OF di]) (simp_all add: r')
  then have "drafted (s\<lparr>c_heap := h'\<rparr>) i j r' (p\<lparr>pdu_payload := bs\<rparr>)"
    using d di h'(2) dl(2) by (simp add: drafted_def) (simp add: r')
  moreover have "payload_string s r q = Inr (r', s\<lparr>c_heap := h'\<rparr>)"
    using h'(1) text_at_strlen [OF assms(2)] by (simp add: payload_string_def APP_ERROR_CHECK_def)
  moreover have "agrees_below (block_offset j) 0 (c_heap s) h'" using h'(3) by (simp add: agrees_below_def)
  ultimately show thesis using that by (simp add: r')
qed

section \<open>Sending the reply\<close>

text \<open>The objects outside of the pools.\<close>

definition same_statics :: "heap \<Rightarrow> heap \<Rightarrow> bool" where
  "same_statics h h' \<longleftrightarrow> (\<forall>b \<ge> STATIC_OBJECTS. h' b = h b)"

lemma block_not_static: "i < TOTAL_BLOCK_COUNT \<Longrightarrow> block_offset i < STATIC_OBJECTS"
  by (auto simp: block_offset_def STATIC_OBJECTS_def c_consts)

lemma agrees_statics: "agrees_below (block_offset j) lim h h' \<Longrightarrow> j < TOTAL_BLOCK_COUNT \<Longrightarrow> same_statics h h'"
  using block_not_static [of j] by (auto simp: agrees_below_def same_statics_def)

lemma same_statics_trans: "same_statics h h' \<Longrightarrow> same_statics h' h'' \<Longrightarrow> same_statics h h''"
  by (simp add: same_statics_def)

lemma response_send_drafted:
  assumes "drafted s i j r p" "pdu_wf p" "\<not> expects_answer r" "length (q_token (env_junk E)) = 8"
    and "room_for (c_mm s) (length (pdu_bytes p))"
    and "env_write E (port r) (remote r) (pdu_bytes p) (world s) = (e, w)"
  shows "if e = NRF_SUCCESS
    then \<exists>h'. response_send E s (block_ptr i, r)
         = Inr (s\<lparr>c_mm := mem_mark (mem_mark (c_mm s) j True) i True, c_heap := h', world := w\<rparr>) \<and>
       device_inv (s\<lparr>c_mm := mem_mark (mem_mark (c_mm s) j True) i True, c_heap := h', world := w\<rparr>) \<and>
       same_statics (c_heap s) h'
    else response_send E s (block_ptr i, r) = Inl (AppError e)"
proof -
  note d = assms(1) [unfolded drafted_def]
  have c: "core_inv s" using d by (simp add: device_inv_def)
  have snd: "sendable s r p" using d assms(2) by (simp add: sendable_def)
  from c snd assms(4) show ?thesis
  proof (cases rule: internal_send_cases [where hnd = 0])
    case (no_room e')
    then show ?thesis using assms(5) by simp
  next
    case (sent k)
    let ?h = "serialised (c_heap s) k (pdu_bytes p)"
    show ?thesis
    proof (cases "e = NRF_SUCCESS")
      case False
      then show ?thesis
        using sent(5) assms(6) by (simp add: response_send_def coap_message_send_def send_outcome_def Let_def APP_ERROR_CHECK_def)
    next
      case True
      let ?s1 = "s\<lparr>c_heap := ?h, world := w\<rparr>"
      have o: "send_outcome E s 0 r (pdu_bytes p) k = (NRF_SUCCESS, of_nat COAP_MESSAGE_QUEUE_SIZE, ?s1)"
        using True assms(3,6) by (simp add: send_outcome_def Let_def)
      have "grows s ?s1" using send_outcome_grows [OF c snd assms(4) sent(2-4) o] .
      then have sil: "silent s ?s1" by (simp add: silent_def)
      have dh: "device_inv ?s1" "held i ?s1" "held j ?s1"
        using silent_inv [OF _ sil] silent_held [OF _ sil] d by blast+
      have lt: "i < TOTAL_BLOCK_COUNT" "j < TOTAL_BLOCK_COUNT" using d by (simp_all add: held_def)
      have di: "device_inv (block_free (block_free ?s1 (block_ptr j)) (block_ptr i))"
        using device_inv_free [OF device_inv_free [OF dh(1,3)]] held_other_free [OF _ dh(2) lt(2)] dh(1) d
        by (simp add: device_inv_def)
      have pool: "pool_inv (c_mm s)" using c by (simp add: core_inv_def)
      have fin: "block_free (block_free ?s1 (block_ptr j)) (block_ptr i)
          = s\<lparr>c_mm := mem_mark (mem_mark (c_mm s) j True) i True, c_heap := ?h, world := w\<rparr>"
        using lt pool by (simp add: block_free_block mem_mark_inv)
      have "response_send E s (block_ptr i, r) = Inr (block_free (block_free ?s1 (block_ptr j)) (block_ptr i))"
        using sent(5) o d by (simp add: response_send_def coap_message_send_def coap_message_delete_def APP_ERROR_CHECK_def)
      moreover have "same_statics (c_heap s) ?h"
        using block_not_static [OF sent(2)] by (auto simp: same_statics_def serialised_def)
      ultimately show ?thesis using True di unfolding fin by auto
    qed
  qed
qed

section \<open>The reply to a request\<close>

lemma used_options_unrelated [simp]:
  "used_options (r\<lparr>remote := a\<rparr>) = used_options r" "used_options (r\<lparr>p_arg := x\<rparr>) = used_options r"
  "used_options (r\<lparr>header := hdr\<rparr>) = used_options r"
  by (simp_all add: used_options_def)

lemma drafting_unrelated [simp]:
  "drafting s i j (r\<lparr>remote := a\<rparr>) p = drafting s i j r p" "drafting s i j (r\<lparr>p_arg := x\<rparr>) p = drafting s i j r p"
  "drafting (s\<lparr>world := w\<rparr>) i j r p = drafting s i j r p" "drafting (s\<lparr>c_observers := ob\<rparr>) i j r p = drafting s i j r p"
  by (simp_all add: drafting_def building_def message_repr_def own_options_def)

definition request_ok :: "coap_message_t \<Rightarrow> bool" where
  "request_ok req \<longleftrightarrow> length (token req) = 8 \<and> unat (hdr_token_len (header req)) \<le> 8"

text \<open>The id zero of a request is taken for a missing id: the reply gets a generated one.\<close>

definition answer_id :: "'w coap_state \<Rightarrow> coap_message_t \<Rightarrow> u16" where
  "answer_id s req = (if hdr_id (header req) = 0 then ucast (m_message_id_counter s) else hdr_id (header req))"

definition answer_pdu :: "'w coap_state \<Rightarrow> coap_message_t \<Rightarrow> u8 \<Rightarrow> (nat \<times> u8 list) list \<Rightarrow> u8 list \<Rightarrow> pdu" where
  "answer_pdu s req code os bs =
     \<lparr>pdu_version = 1,
      pdu_type = (if hdr_type (header req) = COAP_TYPE_NON then 1 else if hdr_type (header req) = COAP_TYPE_CON then 2 else 0),
      pdu_code = code, pdu_id = answer_id s req, pdu_token = take (unat (hdr_token_len (header req))) (token req),
      pdu_options = os, pdu_payload = bs\<rparr>"

lemma response_new_drafts:
  assumes "device_inv s" "request_ok req" "\<not> is_request code" "spare (c_mm s) 2 256"
  obtains i j r where "response_new s req code = Inr ((block_ptr i, r), with_new_blocks s i j (hdr_id (header req) = 0))"
    "drafting (with_new_blocks s i j (hdr_id (header req) = 0)) i j r (answer_pdu s req code [] [])"
    "is_free (m_mem_pool (c_mm s) ! i)" "is_free (m_mem_pool (mem_mark (c_mm s) i False) ! j)"
    "port r = \<lparr>port_number = COAP_SERVER_PORT\<rparr>" "remote r = remote req"
    "\<And>k. held k s \<Longrightarrow> k \<noteq> i \<and> k \<noteq> j \<and> held k (with_new_blocks s i j (hdr_id (header req) = 0))"
proof -
  let ?n = "unat (hdr_token_len (header req))"
  define c where "c = coap_message_conf_zero
     \<lparr>conf_type := (if hdr_type (header req) = COAP_TYPE_NON then COAP_TYPE_NON
                    else if hdr_type (header req) = COAP_TYPE_CON then COAP_TYPE_ACK else 0),
      conf_code := code, conf_id := hdr_id (header req),
      conf_token := take ?n (token req) @ replicate (8 - ?n) 0, conf_token_len := hdr_token_len (header req)\<rparr>"
  have rd: "arr_read (token req) 0 ?n = Inr (take ?n (token req))"
    and wr: "arr_write (replicate 8 0) 0 (take ?n (token req)) = Inr (take ?n (token req) @ replicate (8 - ?n) 0)"
    using assms(2) by (simp_all add: request_ok_def arr_read_eq arr_write_eq)
  have rc: "response_config req code = Inr c"
    unfolding response_config_def Let_def rd wr c_bind_Inr c_def ..
  have ok: "conf_ok c" and id: "conf_id c = hdr_id (header req)"
    using assms(2) by (simp_all add: conf_ok_def c_def request_ok_def)
  have pdu: "message_pdu (settled_conf s c) = answer_pdu s req code [] []"
    using assms(2) by (simp add: message_pdu_def answer_pdu_def answer_id_def c_def request_ok_def c_consts)
  from assms(1) ok show thesis
  proof (cases rule: message_new_outcome)
    case (failed e r c' s')
    then show thesis using assms(4) by blast
  next
    case (created i j n)
    let ?m = "new_message (settled_conf s c) (block_ptr j) n" and ?t = "with_new_blocks s i j (hdr_id (header req) = 0)"
    have dr: "drafting ?t i j (?m\<lparr>remote := remote req\<rparr>) (answer_pdu s req code [] [])"
      using created(2) unfolding pdu id by simp
    have "response_new s req code = Inr ((block_ptr i, ?m\<lparr>remote := remote req\<rparr>), ?t)"
      using created(1) id by (simp add: response_new_def rc APP_ERROR_CHECK_def coap_message_remote_addr_set_def)
    moreover have "port ?m = \<lparr>port_number = COAP_SERVER_PORT\<rparr>" using assms(3) by (simp add: new_message_def c_def)
    ultimately show thesis using that [OF _ dr created(3,4)] created(5) unfolding id by simp
  qed
qed

lemma set_code_drafting: "drafting s i j r p \<Longrightarrow> drafting s i j (set_code r code) (p\<lparr>pdu_code := code\<rparr>)"
  by (simp add: drafting_def building_def message_repr_def own_options_def set_code_def)

text \<open>A change of the static objects.\<close>

lemma drafting_statics:
  assumes "drafting s i j r p" "\<forall>k < TOTAL_BLOCK_COUNT. h (block_offset k) = c_heap s (block_offset k)"
  shows "drafting (s\<lparr>c_heap := h\<rparr>) i j r p"
proof -
  note d = assms(1) [unfolded drafting_def]
  have hj: "h (block_offset j) = c_heap s (block_offset j)" using assms(2) d by (simp add: held_def)
  have eq: "load_bytes h (opt_data op) n = load_bytes (c_heap s) (opt_data op) n" if "op \<in> set (used_options r)" for op n
    using d that hj by (auto simp: own_options_def)
  have repr: "options_repr h prev ops os = options_repr (c_heap s) prev ops os" if "set ops \<subseteq> set (used_options r)" for prev ops os
    using that by (induction ops os arbitrary: prev rule: list_induct2') (auto simp: eq)
  have "message_repr h r p" using d repr by (simp add: building_def message_repr_def)
  then have "building h r (block_offset j) 0 p" using d hj by (simp add: building_def)
  then show ?thesis using d device_inv_heap [OF _ assms(2)] by (simp add: drafting_def)
qed

section \<open>The LED\<close>

lemma LED_THREE_bit: "LED_THREE = push_bit 23 1" "LED_THREE AND (LEDS_MASK AND LEDS_INV_MASK) = push_bit 23 1"
    "LED_THREE AND (LEDS_MASK AND NOT LEDS_INV_MASK) = 0"
  by (simp_all add: LED_THREE_def LEDS_MASK_def LEDS_INV_MASK_def push_bit_eq_mult)

lemma led_macros:
  "LEDS_ON LED_THREE g = Bit_Operations.unset_bit 23 g" "LEDS_OFF LED_THREE g = Bit_Operations.set_bit 23 g"
  "LEDS_INVERT LED_THREE g = Bit_Operations.flip_bit 23 g"
proof -
  have x: "(g OR (c AND NOT g)) AND NOT (c AND g) = g XOR c" for c :: u32
    by (rule bit_word_eqI) (auto simp: bit_simps)
  show "LEDS_ON LED_THREE g = Bit_Operations.unset_bit 23 g" "LEDS_OFF LED_THREE g = Bit_Operations.set_bit 23 g"
    "LEDS_INVERT LED_THREE g = Bit_Operations.flip_bit 23 g"
    unfolding LEDS_ON_def LEDS_OFF_def LEDS_INVERT_def x LED_THREE_bit(2,3)
    unfolding LED_THREE_bit(1) unset_bit_eq_and_not set_bit_eq_or flip_bit_eq_xor by simp_all
qed

lemma led_on_bit: "LED_IS_ON LED_THREE g \<longleftrightarrow> \<not> bit g 23"
proof -
  have "LED_THREE = 2 ^ 23" by (simp add: LED_THREE_def)
  then have "LED_IS_ON LED_THREE g \<longleftrightarrow> bit (g XOR LEDS_INV_MASK) 23"
    unfolding LED_IS_ON_def and.commute [of LED_THREE] by (metis and_exp_eq_0_iff_not_bit)
  then show ?thesis by (simp add: bit_simps LEDS_INV_MASK_def)
qed

text \<open>Each command acts on the pin of the LED and on no other.\<close>

definition led_command :: "u8 \<Rightarrow> bool \<Rightarrow> bool" where
  "led_command command lit =
     (if command = COMMAND_ON then True else if command = COMMAND_OFF then False
      else if command = COMMAND_TOGGLE then \<not> lit else lit)"

definition led_gpio :: "u8 \<Rightarrow> u32 \<Rightarrow> u32" where
  "led_gpio command g =
     (if command = COMMAND_ON then LEDS_ON LED_THREE g else if command = COMMAND_OFF then LEDS_OFF LED_THREE g
      else if command = COMMAND_TOGGLE then LEDS_INVERT LED_THREE g else g)"

lemma led_gpio_lit: "LED_IS_ON LED_THREE (led_gpio command g) = led_command command (LED_IS_ON LED_THREE g)"
  by (simp add: led_on_bit led_gpio_def led_command_def led_macros bit_simps)

lemma led_gpio_others: "n \<noteq> 23 \<Longrightarrow> bit (led_gpio command g) n = bit g n"
  by (simp add: led_gpio_def led_macros bit_simps) (auto dest: bit_imp_le_length)

section \<open>Sending a reply and returning its blocks\<close>

lemma expects_answer_repr:
  "message_repr h r p \<Longrightarrow> expects_answer r \<longleftrightarrow> is_request (pdu_code p) \<or> pdu_code p = COAP_CODE_205_CONTENT \<and> pdu_type p = 0"
  by (auto simp: message_repr_def expects_answer_def is_con_response_def COAP_TYPE_CON_def unat_eq_0)

lemma two_marks_room:
  assumes "spare mm 3 256" "n \<noteq> 0" "n \<le> 256"
  shows "room_for (mem_mark (mem_mark mm i False) j False) n"
proof -
  have "spare mm (Suc (Suc (Suc 0))) 256" using assms(1) by (simp add: numeral_3_eq_3)
  then have "spare (mem_mark (mem_mark mm i False) j False) (Suc 0) 256" by (intro spare_mark)
  then show ?thesis
    using spare_room [OF spare_smaller [OF _ assms(3)] assms(2), of _ 0] assms(3)
    by (simp add: MAX_MEM_SIZE_def MEMORY_MANAGER_LARGE_BLOCK_SIZE_def)
qed

text \<open>Where the blocks of the message are those that were taken for it, the pools are as they were before.\<close>

lemma reply_sent:
  assumes "drafted t i j r p" "c_mm t = mem_mark (mem_mark mm i False) j False"
    and "is_free (m_mem_pool mm ! i)" "is_free (m_mem_pool (mem_mark mm i False) ! j)" "spare mm 3 256"
    and "pdu_wf p" "length (pdu_bytes p) \<le> 256" "\<not> is_request (pdu_code p)" "pdu_code p = COAP_CODE_205_CONTENT \<Longrightarrow> pdu_type p \<noteq> 0"
    and "length (q_token (env_junk E)) = 8" "env_write E (port r) (remote r) (pdu_bytes p) (world t) = (NRF_SUCCESS, w)"
  obtains h' where "response_send E t (block_ptr i, r) = Inr (t\<lparr>c_mm := mm, c_heap := h', world := w\<rparr>)"
    "device_inv (t\<lparr>c_mm := mm, c_heap := h', world := w\<rparr>)" "same_statics (c_heap t) h'"
proof -
  have "\<not> expects_answer r" using assms(1,8,9) expects_answer_repr by (auto simp: drafted_def)
  moreover have "length (pdu_bytes p) \<noteq> 0" by (simp add: pdu_bytes_def rfc_header_def)
  then have "room_for (c_mm t) (length (pdu_bytes p))" unfolding assms(2) using two_marks_room assms(5,7) by blast
  moreover have "mem_mark (mem_mark (c_mm t) j True) i True = mm" using assms(2-4) by (simp add: mem_mark_undo)
  ultimately show thesis
    using response_send_drafted [OF assms(1,6) _ assms(10) _ assms(11)] that by auto
qed

lemma answer_pdu_wf:
  assumes "request_ok req" "ascending_from 0 os" "length os \<le> COAP_MAX_NUMBER_OF_OPTIONS"
    and "length (rfc_options 0 os) + length bs \<le> 200"
  shows "pdu_wf (answer_pdu s req code os bs)" "length (pdu_bytes (answer_pdu s req code os bs)) \<le> 256"
proof -
  have "length (pdu_bytes (answer_pdu s req code os bs)) \<le> 13 + (length (rfc_options 0 os) + length bs)"
    using assms(1) by (simp add: pdu_bytes_def rfc_header_def rfc_payload_def answer_pdu_def request_ok_def)
  then show "pdu_wf (answer_pdu s req code os bs)" "length (pdu_bytes (answer_pdu s req code os bs)) \<le> 256"
    using assms by (simp_all add: pdu_wf_def) (simp_all add: answer_pdu_def request_ok_def)
qed

definition counted :: "'w app_state \<Rightarrow> coap_message_t \<Rightarrow> 'w app_state" where
  "counted s req = (if hdr_id (header req) = 0 then s\<lparr>m_message_id_counter := m_message_id_counter s + 1\<rparr> else s)"

lemma new_blocks_load:
  assumes "device_inv s" "detached (c_mm s) req" "is_free (m_mem_pool (c_mm s) ! i)" "is_free (m_mem_pool (mem_mark (c_mm s) i False) ! j)"
    and "i < TOTAL_BLOCK_COUNT" "j < TOTAL_BLOCK_COUNT" "i \<noteq> j"
  shows "load (c_heap (with_new_blocks s i j f)) (p_payload req) k = load (c_heap s) (p_payload req) k"
proof -
  have "is_free (m_mem_pool (c_mm s) ! j)" using assms(4,7) by (simp add: mem_mark_def)
  then have "outside (block_offset j) (p_payload req)" using assms(2,6) by (simp add: detached_def)
  then show ?thesis by (cases "p_payload req") (auto simp: with_new_blocks_def outside_def)
qed

section \<open>Requests on the LED\<close>

lemma led3_put:
  assumes "hdr_code (header req) = COAP_CODE_PUT" "load (c_heap s) (p_payload req) 0 = Inr command"
  shows "led3_request J s r req p_response =
    Inr (set_code p_response (if command \<in> {0x30, 0x31, 0x32} then COAP_CODE_204_CHANGED else COAP_CODE_400_BAD_REQUEST),
         led_upd s (led_gpio command))"
proof -
  have "hdr_code (header req) \<noteq> COAP_CODE_GET" using assms(1) by (simp add: c_consts)
  then show ?thesis
    using assms by (auto simp: led3_request_def led_gpio_def COMMAND_ON_def COMMAND_OFF_def COMMAND_TOGGLE_def set_code_def Let_def
        led_upd_def app_upd_def)
qed

text \<open>C14: A PUT request on the LED with a payload lights, darkens or toggles the LED when its first byte is \<open>1\<close>,
  \<open>0\<close> or \<open>2\<close>, and changes no other output pin; it is answered with 2.04, any other first byte with 4.00
  and no effect. The reply carries the token and the id of the request. All memory is returned before
  the observers are notified.\<close>

theorem led3_put_sets_led:
  assumes "device_inv s" "request_ok req" "hdr_code (header req) = COAP_CODE_PUT" "detached (c_mm s) req"
    and "load (c_heap s) (p_payload req) 0 = Inr command" "spare (c_mm s) 3 256" "length (q_token (env_junk E)) = 8"
    and "w = (world s)\<lparr>gpio_out := led_gpio command (gpio_out (world s))\<rparr>"
    and "env_write E \<lparr>port_number = COAP_SERVER_PORT\<rparr> (remote req)
      (pdu_bytes (answer_pdu s req (if command \<in> {0x30, 0x31, 0x32} then COAP_CODE_204_CHANGED else COAP_CODE_400_BAD_REQUEST) [] [])) w
      = (NRF_SUCCESS, w')"
  shows "(\<exists>h'. led3_callback E J s r req = notify_both E ((counted s req)\<lparr>c_heap := h', world := w'\<rparr>) \<and>
       device_inv ((counted s req)\<lparr>c_heap := h', world := w'\<rparr>) \<and> same_statics (c_heap s) h') \<and>
    LED_IS_ON LED_THREE (gpio_out w) = led_command command (led3_is_on s) \<and>
    (\<forall>n. n \<noteq> 23 \<longrightarrow> bit (gpio_out w) n = bit (gpio_out (world s)) n)"
proof -
  define code where "code = (if command \<in> {0x30, 0x31, 0x32} then COAP_CODE_204_CHANGED else COAP_CODE_400_BAD_REQUEST)"
  have code: "\<not> is_request code" "code \<noteq> COAP_CODE_205_CONTENT" "\<not> is_request COAP_CODE_405_METHOD_NOT_ALLOWED"
    by (simp_all add: code_def is_request_def c_consts)
  have two: "spare (c_mm s) 2 256" using assms(6) by (simp add: spare_def)
  obtain i j r0 where n: "response_new s req COAP_CODE_405_METHOD_NOT_ALLOWED = Inr ((block_ptr i, r0), with_new_blocks s i j (hdr_id (header req) = 0))"
    "drafting (with_new_blocks s i j (hdr_id (header req) = 0)) i j r0 (answer_pdu s req COAP_CODE_405_METHOD_NOT_ALLOWED [] [])"
    "is_free (m_mem_pool (c_mm s) ! i)" "is_free (m_mem_pool (mem_mark (c_mm s) i False) ! j)"
    "port r0 = \<lparr>port_number = COAP_SERVER_PORT\<rparr>" "remote r0 = remote req"
    by (rule response_new_drafts [OF assms(1,2) code(3) two])
  let ?t = "with_new_blocks s i j (hdr_id (header req) = 0)"
  have ij: "i < TOTAL_BLOCK_COUNT" "j < TOTAL_BLOCK_COUNT" "i \<noteq> j" using n(2) by (simp_all add: drafting_def held_def)
  have ld: "load (c_heap ?t) (p_payload req) 0 = Inr command"
    using new_blocks_load [OF assms(1,4) n(3,4) ij] assms(5) by simp
  let ?t' = "led_upd ?t (led_gpio command)" and ?r = "set_code r0 code"
  have wt: "?t' = ?t\<lparr>world := w\<rparr>" "world ?t' = w" by (simp_all add: led_upd_def app_upd_def assms(8) with_new_blocks_def)
  have "drafting ?t' i j ?r (answer_pdu s req code [] [])"
    using set_code_drafting [OF n(2), of code] unfolding wt(1) by (simp add: answer_pdu_def)
  then have dr: "drafted ?t' i j ?r (answer_pdu s req code [] [])" by (rule drafting_drafted)
  have wf: "pdu_wf (answer_pdu s req code [] [])" "length (pdu_bytes (answer_pdu s req code [] [])) \<le> 256"
    using answer_pdu_wf [OF assms(2), of "[]" "[]"] by simp_all
  have mm: "c_mm ?t' = mem_mark (mem_mark (c_mm s) i False) j False" unfolding wt(1) by (simp add: with_new_blocks_def)
  have tx: "env_write E (port ?r) (remote ?r) (pdu_bytes (answer_pdu s req code [] [])) (world ?t') = (NRF_SUCCESS, w')"
    using assms(9) n(5,6) unfolding wt(2) code_def by (simp add: set_code_def)
  obtain h' where h': "response_send E ?t' (block_ptr i, ?r) = Inr (?t'\<lparr>c_mm := c_mm s, c_heap := h', world := w'\<rparr>)"
    "device_inv (?t'\<lparr>c_mm := c_mm s, c_heap := h', world := w'\<rparr>)" "same_statics (c_heap ?t') h'"
    using reply_sent [OF dr mm n(3,4) assms(6) wf _ _ assms(7) tx] code by (auto simp: answer_pdu_def)
  have fin: "?t'\<lparr>c_mm := c_mm s, c_heap := h', world := w'\<rparr> = (counted s req)\<lparr>c_heap := h', world := w'\<rparr>"
    unfolding wt(1) by (simp add: with_new_blocks_def counted_def)
  have "led3_callback E J s r req = notify_both E ((counted s req)\<lparr>c_heap := h', world := w'\<rparr>)"
    using n(1) led3_put [OF assms(3) ld] h'(1) assms(3) unfolding fin led3_callback_def code_def by simp
  moreover have "same_statics (c_heap s) (c_heap ?t')"
    unfolding wt(1) using block_not_static [OF ij(2)] by (auto simp: same_statics_def with_new_blocks_def)
  ultimately have "\<exists>h'. led3_callback E J s r req = notify_both E ((counted s req)\<lparr>c_heap := h', world := w'\<rparr>) \<and>
       device_inv ((counted s req)\<lparr>c_heap := h', world := w'\<rparr>) \<and> same_statics (c_heap s) h'"
    using h'(2,3) same_statics_trans unfolding fin by blast
  then show ?thesis using led_gpio_others by (simp add: assms(8) led_gpio_lit led3_is_on_def)
qed

text \<open>C20: A PUT request on the LED without a payload dereferences the null payload pointer: the callback reads the
  command before it looks at the length.\<close>

theorem led3_put_without_payload_faults:
  assumes "device_inv s" "request_ok req" "hdr_code (header req) = COAP_CODE_PUT" "p_payload req = NULL" "spare (c_mm s) 2 256"
  shows "led3_callback E J s r req = Inl NullDereference"
proof -
  have code: "\<not> is_request COAP_CODE_405_METHOD_NOT_ALLOWED" by (simp add: is_request_def c_consts)
  obtain i j r0 where "response_new s req COAP_CODE_405_METHOD_NOT_ALLOWED = Inr ((block_ptr i, r0), with_new_blocks s i j (hdr_id (header req) = 0))"
    by (rule response_new_drafts [OF assms(1,2) code assms(5)])
  moreover have "hdr_code (header req) \<noteq> COAP_CODE_GET" using assms(3) by (simp add: c_consts)
  ultimately show ?thesis using assms(3,4) by (simp add: led3_callback_def led3_request_def)
qed

section \<open>A request is read as before the reply was made\<close>

lemma uint_decode_outside:
  "outside b q \<Longrightarrow> coap_opt_uint_decode (h(b := xs)) d len q = coap_opt_uint_decode h d len q"
  by (cases q) (simp_all add: coap_opt_uint_decode_def outside_def)

lemma mask_loop_outside:
  "\<forall>i \<in> set is. i < length os \<longrightarrow> outside b (opt_data (os ! i)) \<Longrightarrow>
   mask_get_loop (h(b := xs)) os opt acc is = mask_get_loop h os opt acc is"
  by (induction "is" arbitrary: acc) (auto simp: arr_get_def uint_decode_outside intro!: c_bind_cong)

lemma option_search_found:
  "option_search os num is = Inr (Some op) \<Longrightarrow> \<exists>i \<in> set is. i < length os \<and> op = os ! i"
  by (induction "is") (auto simp: arr_get_def split: if_splits)

lemma used_option_outside:
  assumes "\<forall>op \<in> set (used_options req). outside b (opt_data op)" "i \<in> set [0..<unat (options_count req)]" "i < length (options req)"
  shows "outside b (opt_data (options req ! i))"
proof -
  have "options req ! i \<in> set (used_options req)"
    using assms(2,3) by (auto simp: used_options_def in_set_conv_nth intro!: exI [of _ i])
  then show ?thesis using assms(1) by blast
qed

lemma match_select_outside:
  assumes "\<forall>op \<in> set (used_options req). outside b (opt_data op)"
  shows "coap_message_ct_match_select (h(b := xs)) x (Some req) support = coap_message_ct_match_select h x (Some req) support"
  using mask_loop_outside [of "[0..<unat (options_count req)]" "options req" b] used_option_outside [OF assms]
  by (simp add: coap_message_ct_match_select_def coap_message_accept_mask_get_def)

lemma observe_value_outside:
  assumes "\<forall>op \<in> set (used_options req). outside b (opt_data op)" "c_heap t = (c_heap s)(b := xs)"
  shows "observe_value t req = observe_value s req"
  using option_search_found [of "options req" COAP_OPT_OBSERVE "[0..<unat (options_count req)]"] used_option_outside [OF assms(1)]
  by (auto simp: observe_value_def assms(2) uint_decode_outside intro!: c_bind_cong split: option.splits)

lemma detached_block:
  assumes "detached (c_mm s) req" "is_free (m_mem_pool (mem_mark (c_mm s) i False) ! j)" "j < TOTAL_BLOCK_COUNT" "i \<noteq> j"
  shows "\<forall>op \<in> set (used_options req). outside (block_offset j) (opt_data op)"
  using assms by (simp add: detached_def mem_mark_def)

section \<open>Reading the LED\<close>

definition led_text :: "bool \<Rightarrow> u32 \<Rightarrow> u8 list" where
  "led_text lit ct =
     (if ct = COAP_CT_APP_JSON then c_chars (if lit then led3_true else led3_false) else [if lit then 0x31 else 0x30])"

lemma statics_ok_same: "same_statics h h' \<Longrightarrow> statics_ok h \<Longrightarrow> statics_ok h'"
  by (simp add: same_statics_def statics_ok_def app_objects)

lemma c_string_text: "0 \<notin> set (c_chars t) \<Longrightarrow> h b = c_string t \<Longrightarrow> text_at h (Ptr b 0) (c_chars t)"
  by (simp add: text_at_def c_string_def)

lemma led_strings: "0 \<notin> set (c_chars led3_true)" "0 \<notin> set (c_chars led3_false)" "0 \<notin> set (c_chars ''1'')" "0 \<notin> set (c_chars ''0'')"
  by (simp_all add: c_chars_def led3_true_def led3_false_def)

text \<open>The value of the LED is written to a static buffer, or one of two constants.\<close>

lemma led_value_text:
  assumes "statics_ok (c_heap s)" "led_value_get s ct = (str, s')"
  obtains h where "s' = s\<lparr>c_heap := h\<rparr>" "text_at h str (led_text (led3_is_on s) ct)" "statics_ok h"
    "\<forall>k < TOTAL_BLOCK_COUNT. h (block_offset k) = c_heap s (block_offset k)"
proof (cases "ct = COAP_CT_APP_JSON")
  case True
  then show thesis
    using that [of "c_heap s"] assms c_string_text [OF led_strings(1)] c_string_text [OF led_strings(2)]
    by (auto simp: led_value_get_def led_text_def statics_ok_def split: if_splits)
next
  case False
  let ?h = "(c_heap s)(OBJ_LED3_PLAIN := c_string (if led3_is_on s then ''1'' else ''0''))"
  have "text_at ?h str (led_text (led3_is_on s) ct)" "s' = s\<lparr>c_heap := ?h\<rparr>"
    using False assms(2) by (auto simp: led_value_get_def led_text_def text_at_def c_string_def c_chars_def split: if_splits)
  moreover have "statics_ok ?h" using assms(1) by (simp add: statics_ok_def app_objects c_string_def c_chars_def)
  moreover have "?h (block_offset k) = c_heap s (block_offset k)" if "k < TOTAL_BLOCK_COUNT" for k
    using block_not_static [OF that] by (auto simp: app_objects)
  ultimately show thesis using that by blast
qed

lemma led_text_length: "length (led_text lit ct) \<le> 15"
  by (simp add: led_text_def c_chars_def led3_true_def led3_false_def)

lemma answer_pdu_fields [simp]:
  "pdu_options (answer_pdu s req code os bs) = os" "pdu_code (answer_pdu s req code os bs) = code"
  "(answer_pdu s req code os bs)\<lparr>pdu_payload := bs'\<rparr> = answer_pdu s req code os bs'"
  "(answer_pdu s req code os bs)\<lparr>pdu_code := code'\<rparr> = answer_pdu s req code' os bs"
  "add_option num xs (answer_pdu s req code os bs) = answer_pdu s req code (os @ [(num, xs)]) bs"
  by (simp_all add: answer_pdu_def add_option_def)

lemma answer_not_con: "hdr_type (header req) \<in> {COAP_TYPE_CON, COAP_TYPE_NON} \<Longrightarrow> pdu_type (answer_pdu s req code os bs) \<noteq> 0"
  by (auto simp: answer_pdu_def)

text \<open>From the draft with its options to the end of the callback.\<close>

lemma led3_get_answer:
  assumes "hdr_code (header req) = COAP_CODE_GET" "hdr_type (header req) \<in> {COAP_TYPE_CON, COAP_TYPE_NON}" "request_ok req"
    and "spare (c_mm s) 3 256" "length (q_token (env_junk E)) = 8"
    and "response_new s req COAP_CODE_405_METHOD_NOT_ALLOWED = Inr ((block_ptr i, r0), t)"
    and "is_free (m_mem_pool (c_mm s) ! i)" "is_free (m_mem_pool (mem_mark (c_mm s) i False) ! j)"
    and "get_request J True t r req r0 = Inr (Some ct, r2, t1)" "c_mm t1 = mem_mark (mem_mark (c_mm s) i False) j False"
    and "drafting t1 i j r2 (answer_pdu s req COAP_CODE_205_CONTENT os [])" "statics_ok (c_heap t1)"
    and "port r2 = \<lparr>port_number = COAP_SERVER_PORT\<rparr>" "remote r2 = remote req"
    and "ascending_from 0 os" "length os \<le> 2" "length (rfc_options 0 os) \<le> 100"
    and "env_write E \<lparr>port_number = COAP_SERVER_PORT\<rparr> (remote req)
      (pdu_bytes (answer_pdu s req COAP_CODE_205_CONTENT os (led_text (led3_is_on t1) ct))) (world t1) = (NRF_SUCCESS, w)"
  shows "\<exists>h'. led3_callback E J s r req = Inr (t1\<lparr>c_mm := c_mm s, c_heap := h', world := w\<rparr>) \<and>
    device_inv (t1\<lparr>c_mm := c_mm s, c_heap := h', world := w\<rparr>) \<and> statics_ok h'"
proof -
  let ?p = "answer_pdu s req COAP_CODE_205_CONTENT os (led_text (led3_is_on t1) ct)"
  obtain str t2 where v: "led_value_get t1 ct = (str, t2)" by force
  from assms(12) v obtain h where h: "t2 = t1\<lparr>c_heap := h\<rparr>" "text_at h str (led_text (led3_is_on t1) ct)" "statics_ok h"
    "\<forall>k < TOTAL_BLOCK_COUNT. h (block_offset k) = c_heap t1 (block_offset k)" by (rule led_value_text)
  have d2: "drafting t2 i j r2 (answer_pdu s req COAP_CODE_205_CONTENT os [])"
    using drafting_statics [OF assms(11) h(4)] h(1) by simp
  have strt: "text_at (c_heap t2) str (led_text (led3_is_on t1) ct)" using h(1,2) by simp
  have len: "4 * length (pdu_options (answer_pdu s req COAP_CODE_205_CONTENT os [])) + length (led_text (led3_is_on t1) ct) \<le> 256"
    using assms(16) led_text_length [of "led3_is_on t1" ct] by simp
  obtain h2 r3 where p: "payload_string t2 r2 str = Inr (r3, t2\<lparr>c_heap := h2\<rparr>)"
    "drafted (t2\<lparr>c_heap := h2\<rparr>) i j r3 ?p"
    "agrees_below (block_offset j) 0 (c_heap t2) h2" "port r3 = port r2" "remote r3 = remote r2"
    "header r3 = header r2"
    by (rule payload_string_drafts [OF d2 strt len, unfolded answer_pdu_fields])
  have j: "j < TOTAL_BLOCK_COUNT" using assms(11) by (simp add: drafting_def held_def)
  have sum: "length (rfc_options 0 os) + length (led_text (led3_is_on t1) ct) \<le> 200"
    using assms(17) led_text_length [of "led3_is_on t1" ct] by linarith
  have wf: "pdu_wf ?p" "length (pdu_bytes ?p) \<le> 256"
    using answer_pdu_wf [OF assms(3,15) _ sum] assms(16) by (simp_all add: COAP_MAX_NUMBER_OF_OPTIONS_def)
  have nr: "\<not> is_request (pdu_code ?p)" by (simp add: is_request_def c_consts)
  have mm: "c_mm (t2\<lparr>c_heap := h2\<rparr>) = mem_mark (mem_mark (c_mm s) i False) j False" using assms(10) h(1) by simp
  have tx: "env_write E (port r3) (remote r3) (pdu_bytes ?p) (world (t2\<lparr>c_heap := h2\<rparr>)) = (NRF_SUCCESS, w)"
    using assms(18) p(4,5) assms(13,14) h(1) by simp
  obtain h' where h': "response_send E (t2\<lparr>c_heap := h2\<rparr>) (block_ptr i, r3)
      = Inr (t2\<lparr>c_heap := h2\<rparr>\<lparr>c_mm := c_mm s, c_heap := h', world := w\<rparr>)"
    "device_inv (t2\<lparr>c_heap := h2\<rparr>\<lparr>c_mm := c_mm s, c_heap := h', world := w\<rparr>)" "same_statics (c_heap (t2\<lparr>c_heap := h2\<rparr>)) h'"
    by (rule reply_sent [OF p(2) mm assms(7,8,4) wf nr answer_not_con [OF assms(2)] assms(5) tx])
  have "statics_ok h'"
    using statics_ok_same [OF same_statics_trans [OF agrees_statics [OF p(3) j]]] h'(3) h(1,3) by simp
  moreover have "hdr_code (header req) \<noteq> COAP_CODE_PUT" using assms(1) by (simp add: c_consts)
  then have "led3_callback E J s r req = Inr (t1\<lparr>c_mm := c_mm s, c_heap := h', world := w\<rparr>)"
    using assms(1,6,9) v p(1) h'(1) h(1) by (simp add: led3_callback_def led3_request_def)
  ultimately show ?thesis using h'(2) h(1) by auto
qed

lemma get_request_selects:
  assumes "device_inv s" "detached (c_mm s) req" "is_free (m_mem_pool (mem_mark (c_mm s) i False) ! j)" "j < TOTAL_BLOCK_COUNT" "i \<noteq> j"
    and "coap_message_ct_match_select (c_heap s) (junk_ct J) (Some req) (ct_support_mask (res_at (c_resources s) r)) = Inr (NRF_SUCCESS, ct)"
  shows "coap_message_ct_match_select (c_heap (with_new_blocks s i j f)) (junk_ct J) (Some req)
      (ct_support_mask (res_at (c_resources (with_new_blocks s i j f)) r)) = Inr (NRF_SUCCESS, ct)"
    "observe_value (with_new_blocks s i j f) req = observe_value s req"
proof -
  note o = detached_block [OF assms(2,3,4,5)]
  show "coap_message_ct_match_select (c_heap (with_new_blocks s i j f)) (junk_ct J) (Some req)
      (ct_support_mask (res_at (c_resources (with_new_blocks s i j f)) r)) = Inr (NRF_SUCCESS, ct)"
    using match_select_outside [OF o] assms(6) by (simp add: with_new_blocks_def)
  show "observe_value (with_new_blocks s i j f) req = observe_value s req"
    by (rule observe_value_outside [OF o]) (simp add: with_new_blocks_def)
qed

lemma code_405: "\<not> is_request COAP_CODE_405_METHOD_NOT_ALLOWED"
  by (simp add: is_request_def c_consts)

lemma new_blocks_statics: "j < TOTAL_BLOCK_COUNT \<Longrightarrow> same_statics (c_heap s) (c_heap (with_new_blocks s i j f))"
  using block_not_static [of j] by (auto simp: same_statics_def with_new_blocks_def)

lemma block2_request_outside:
  assumes "\<forall>op \<in> set (used_options req). outside b (opt_data op)"
  shows "block2_request (h(b := xs)) req = block2_request h req"
  using option_search_found [of "options req" COAP_OPT_BLOCK2 "[0..<unat (options_count req)]"] used_option_outside [OF assms]
  by (auto simp: block2_request_def load_bytes_outside intro!: c_bind_cong split: option.splits)

text \<open>The draft of the answer to a GET request without an Observe option.\<close>

definition plain_draft ::
  "'w app_state \<Rightarrow> coap_message_t \<Rightarrow> stack_junk \<Rightarrow> nat \<Rightarrow> u32 \<Rightarrow> nat \<Rightarrow> nat \<Rightarrow> coap_message_t \<Rightarrow> coap_message_t \<Rightarrow> 'w app_state \<Rightarrow> bool" where
  "plain_draft s req J r ct i j r0 r1 t \<longleftrightarrow>
     response_new s req COAP_CODE_405_METHOD_NOT_ALLOWED = Inr ((block_ptr i, r0), t) \<and>
     (\<forall>led3. get_request J led3 t r req r0 = Inr (Some ct, r1, t)) \<and>
     drafting t i j r1 (answer_pdu s req COAP_CODE_205_CONTENT [] []) \<and>
     is_free (m_mem_pool (c_mm s) ! i) \<and> is_free (m_mem_pool (mem_mark (c_mm s) i False) ! j) \<and>
     port r1 = \<lparr>port_number = COAP_SERVER_PORT\<rparr> \<and> remote r1 = remote req \<and>
     statics_ok (c_heap t) \<and> block2_request (c_heap t) req = block2_request (c_heap s) req \<and>
     t = with_new_blocks s i j (hdr_id (header req) = 0)"

lemma plain_draftD:
  assumes "plain_draft s req J r ct i j r0 r1 t"
  shows "t = with_new_blocks s i j (hdr_id (header req) = 0)"
    "response_new s req COAP_CODE_405_METHOD_NOT_ALLOWED = Inr ((block_ptr i, r0), t)"
    "get_request J led3 t r req r0 = Inr (Some ct, r1, t)"
    "drafting t i j r1 (answer_pdu s req COAP_CODE_205_CONTENT [] [])"
    "is_free (m_mem_pool (c_mm s) ! i)" "is_free (m_mem_pool (mem_mark (c_mm s) i False) ! j)"
    "port r1 = \<lparr>port_number = COAP_SERVER_PORT\<rparr>" "remote r1 = remote req"
    "statics_ok (c_heap t)" "block2_request (c_heap t) req = block2_request (c_heap s) req"
    "c_mm t = mem_mark (mem_mark (c_mm s) i False) j False" "world t = world s" "led3_is_on t = led3_is_on s" "c_resources t = c_resources s"
    "t\<lparr>c_mm := c_mm s, c_heap := h, world := w\<rparr> = (counted s req)\<lparr>c_heap := h, world := w\<rparr>"
proof -
  note d = assms [unfolded plain_draft_def]
  show t: "t = with_new_blocks s i j (hdr_id (header req) = 0)" using d by blast
  show "response_new s req COAP_CODE_405_METHOD_NOT_ALLOWED = Inr ((block_ptr i, r0), t)"
    "get_request J led3 t r req r0 = Inr (Some ct, r1, t)"
    "drafting t i j r1 (answer_pdu s req COAP_CODE_205_CONTENT [] [])"
    "is_free (m_mem_pool (c_mm s) ! i)" "is_free (m_mem_pool (mem_mark (c_mm s) i False) ! j)"
    "port r1 = \<lparr>port_number = COAP_SERVER_PORT\<rparr>" "remote r1 = remote req"
    "statics_ok (c_heap t)" "block2_request (c_heap t) req = block2_request (c_heap s) req"
    using d by blast+
  show "c_mm t = mem_mark (mem_mark (c_mm s) i False) j False" "world t = world s" "led3_is_on t = led3_is_on s" "c_resources t = c_resources s"
    "t\<lparr>c_mm := c_mm s, c_heap := h, world := w\<rparr> = (counted s req)\<lparr>c_heap := h, world := w\<rparr>"
    unfolding t by (simp_all add: with_new_blocks_def led3_is_on_def counted_def)
qed

lemma plain_get_draft:
  assumes "device_inv s" "request_ok req" "detached (c_mm s) req" "statics_ok (c_heap s)"
    and "coap_message_ct_match_select (c_heap s) (junk_ct J) (Some req) (ct_support_mask (res_at (c_resources s) r)) = Inr (NRF_SUCCESS, ct)"
    and "coap_message_opt_present (Some req) COAP_OPT_OBSERVE = Inr e" "e \<noteq> NRF_SUCCESS" "spare (c_mm s) 2 256"
  obtains i j r0 r1 t where "plain_draft s req J r ct i j r0 r1 t"
proof -
  obtain i j r0 where n: "response_new s req COAP_CODE_405_METHOD_NOT_ALLOWED = Inr ((block_ptr i, r0), with_new_blocks s i j (hdr_id (header req) = 0))"
    "drafting (with_new_blocks s i j (hdr_id (header req) = 0)) i j r0 (answer_pdu s req COAP_CODE_405_METHOD_NOT_ALLOWED [] [])"
    "is_free (m_mem_pool (c_mm s) ! i)" "is_free (m_mem_pool (mem_mark (c_mm s) i False) ! j)"
    "port r0 = \<lparr>port_number = COAP_SERVER_PORT\<rparr>" "remote r0 = remote req"
    by (rule response_new_drafts [OF assms(1,2) code_405 assms(8)])
  let ?t = "with_new_blocks s i j (hdr_id (header req) = 0)" and ?r = "set_code r0 COAP_CODE_205_CONTENT"
  have ij: "j < TOTAL_BLOCK_COUNT" "i \<noteq> j" using n(2) by (simp_all add: drafting_def held_def)
  have g: "get_request J led3 ?t r req r0 = Inr (Some ct, ?r, ?t)" for led3
    using get_request_selects(1) [OF assms(1,3) n(4) ij assms(5)] assms(6,7) by (simp add: get_request_def Let_def)
  have d: "drafting ?t i j ?r (answer_pdu s req COAP_CODE_205_CONTENT [] [])"
    using set_code_drafting [OF n(2), of COAP_CODE_205_CONTENT] by simp
  have b: "block2_request (c_heap ?t) req = block2_request (c_heap s) req"
    using block2_request_outside [OF detached_block [OF assms(3) n(4) ij]] by (simp add: with_new_blocks_def)
  have "plain_draft s req J r ct i j r0 ?r ?t"
    unfolding plain_draft_def
    using n(1,3-6) g d b statics_ok_same [OF new_blocks_statics [OF ij(1)] assms(4)] by (simp add: set_code_def)
  then show thesis by (rule that)
qed


section \<open>Registering an observer\<close>

lemma uint_value_length: "length (uint_value v) \<le> 4"
  by (simp add: uint_value_def uint_bytes_def)

lemma rfc_option_short: "d < 269 \<Longrightarrow> length bs \<le> 12 \<Longrightarrow> length (rfc_option d bs) \<le> 2 + length bs"
  by (simp add: rfc_option_def rfc_ext_def)

definition observe_options :: "u32 \<Rightarrow> u32 \<Rightarrow> (nat \<times> u8 list) list" where
  "observe_options n age = [(6, uint_value n), (14, uint_value age)]"

lemma observe_options_ok:
  "ascending_from 0 (observe_options n age)" "length (observe_options n age) \<le> 2"
  "length (rfc_options 0 (observe_options n age)) \<le> 100"
  using rfc_option_short [of 6 "uint_value n"] rfc_option_short [of 8 "uint_value age"] uint_value_length [of n] uint_value_length [of age]
  by (simp_all add: observe_options_def)

text \<open>The two options of a notification, added to a message without options.\<close>

lemma observe_options_draft:
  assumes "drafting s i j r p" "pdu_options p = []"
  obtains h r1 h' r2 where "opt_uint s r COAP_OPT_OBSERVE n = Inr (r1, s\<lparr>c_heap := h\<rparr>)"
    "opt_uint (s\<lparr>c_heap := h\<rparr>) r1 COAP_OPT_MAX_AGE age = Inr (r2, s\<lparr>c_heap := h'\<rparr>)"
    "drafting (s\<lparr>c_heap := h'\<rparr>) i j r2 (p\<lparr>pdu_options := observe_options n age\<rparr>)" "same_statics (c_heap s) h'"
    "port r2 = port r" "remote r2 = remote r"
proof -
  have j: "j < TOTAL_BLOCK_COUNT" using assms(1) by (simp add: drafting_def held_def)
  have ok: "next_option_ok p 6 (uint_value n)" "next_option_ok (add_option 6 (uint_value n) p) 14 (uint_value age)"
    using assms(2) rfc_option_short [of 6 "uint_value n"] rfc_option_short [of 8 "uint_value age"]
      uint_value_length [of n] uint_value_length [of age]
    by (simp_all add: next_option_ok_def add_option_def)
  have cnt: "length (pdu_options p) < 8" "length (pdu_options (add_option 6 (uint_value n) p)) < 8"
    using assms(2) by (simp_all add: add_option_def)
  obtain h r1 where a: "opt_uint s r (of_nat 6) n = Inr (r1, s\<lparr>c_heap := h\<rparr>)"
    "drafting (s\<lparr>c_heap := h\<rparr>) i j r1 (add_option 6 (uint_value n) p)"
    "agrees_below (block_offset j) 0 (c_heap s) h" "same_envelope r r1"
    by (rule opt_uint_drafting [OF assms(1) ok(1) cnt(1)])
  obtain h' r2 where b: "opt_uint (s\<lparr>c_heap := h\<rparr>) r1 (of_nat 14) age = Inr (r2, s\<lparr>c_heap := h\<rparr>\<lparr>c_heap := h'\<rparr>)"
    "drafting (s\<lparr>c_heap := h\<rparr>\<lparr>c_heap := h'\<rparr>) i j r2 (add_option 14 (uint_value age) (add_option 6 (uint_value n) p))"
    "agrees_below (block_offset j) 0 (c_heap (s\<lparr>c_heap := h\<rparr>)) h'" "same_envelope r1 r2"
    by (rule opt_uint_drafting [OF a(2) ok(2) cnt(2)])
  have "p\<lparr>pdu_options := observe_options n age\<rparr> = add_option 14 (uint_value age) (add_option 6 (uint_value n) p)"
    using assms(2) by (simp add: add_option_def observe_options_def)
  moreover have "same_statics (c_heap s) h'"
    using agrees_statics [OF agrees_below_trans [OF a(3) b(3) [simplified]] j] .
  ultimately show thesis
    using that [of r1 h r2 h'] a b by (simp add: same_envelope_def COAP_OPT_OBSERVE_def COAP_OPT_MAX_AGE_def)
qed


text \<open>C21: A GET request with an Observe option of more than 4 bytes stops the device: the value does not decode, and both
  resource callbacks pass the error to the check that does not return.\<close>

theorem long_observe_option_stops_device:
  assumes "device_inv s" "request_ok req" "hdr_code (header req) = COAP_CODE_GET" "detached (c_mm s) req" "spare (c_mm s) 2 256"
    and "coap_message_ct_match_select (c_heap s) (junk_ct J) (Some req) (ct_support_mask (res_at (c_resources s) r)) = Inr (NRF_SUCCESS, ct)"
    and "coap_message_opt_present (Some req) COAP_OPT_OBSERVE = Inr NRF_SUCCESS"
    and "option_search (options req) COAP_OPT_OBSERVE [0..<unat (options_count req)] = Inr (Some op)"
    and "4 < opt_length op" "opt_data op \<noteq> NULL"
  shows "led3_callback E J s r req = Inl (AppError (NRF_ERROR_INVALID_LENGTH OR IOT_COAP_ERR_BASE)) \<and>
    semantics_callback E J s r req = Inl (AppError (NRF_ERROR_INVALID_LENGTH OR IOT_COAP_ERR_BASE))"
proof -
  obtain i j r0 where n: "response_new s req COAP_CODE_405_METHOD_NOT_ALLOWED = Inr ((block_ptr i, r0), with_new_blocks s i j (hdr_id (header req) = 0))"
    "drafting (with_new_blocks s i j (hdr_id (header req) = 0)) i j r0 (answer_pdu s req COAP_CODE_405_METHOD_NOT_ALLOWED [] [])"
    "is_free (m_mem_pool (c_mm s) ! i)" "is_free (m_mem_pool (mem_mark (c_mm s) i False) ! j)"
    by (rule response_new_drafts [OF assms(1,2) code_405 assms(5)])
  have ij: "j < TOTAL_BLOCK_COUNT" "i \<noteq> j" using n(2) by (simp_all add: drafting_def held_def)
  have "opt_length op \<noteq> 0" "opt_length op \<noteq> 1" "opt_length op \<noteq> 2" "opt_length op \<noteq> 3" "opt_length op \<noteq> 4"
    using assms(9) by (auto simp: word_less_nat_alt)
  then have "coap_opt_uint_decode (c_heap s) (Some 0) (opt_length op) (opt_data op) = Inr (NRF_ERROR_INVALID_LENGTH OR IOT_COAP_ERR_BASE, Some 0)"
    using assms(10) by (simp add: coap_opt_uint_decode_def)
  moreover have "NRF_ERROR_INVALID_LENGTH OR IOT_COAP_ERR_BASE \<noteq> NRF_SUCCESS" by (simp add: c_consts)
  ultimately have "observe_value s req = Inl (AppError (NRF_ERROR_INVALID_LENGTH OR IOT_COAP_ERR_BASE))"
    using assms(8) by (simp add: observe_value_def APP_ERROR_CHECK_def)
  then have "get_request J led3 (with_new_blocks s i j (hdr_id (header req) = 0)) r req r0
      = Inl (AppError (NRF_ERROR_INVALID_LENGTH OR IOT_COAP_ERR_BASE))" for led3
    using get_request_selects [OF assms(1,4) n(4) ij assms(6)] assms(7) by (simp add: get_request_def handle_observe_def Let_def)
  then show ?thesis
    using n(1) assms(3) by (simp add: led3_callback_def led3_request_def semantics_callback_def semantics_request_def)
qed

section \<open>The end of an observation\<close>


section \<open>Notifications\<close>

definition observer_ok :: "coap_observer_t \<Rightarrow> bool" where
  "observer_ok ob \<longleftrightarrow> length (ob_token ob) = 8 \<and> unat (ob_token_len ob) \<le> 8"

text \<open>A transport that takes every datagram and records it in its part of the world.\<close>

definition takes_all :: "'w app_env \<Rightarrow> ('w \<Rightarrow> coap_port_t \<Rightarrow> coap_remote_t \<Rightarrow> u8 list \<Rightarrow> 'w) \<Rightarrow> bool" where
  "takes_all E tx \<longleftrightarrow> length (q_token (env_junk E)) = 8 \<and>
     (\<forall>q a bs w. env_write E q a bs w = (NRF_SUCCESS, w\<lparr>sw_outside := tx (sw_outside w) q a bs\<rparr>))"

definition note_text :: "bool \<Rightarrow> bool \<Rightarrow> u32 \<Rightarrow> u8 list" where
  "note_text led3 lit ct =
     (if led3 then led_text lit ct
      else c_chars (if lit then SEMANTICS_SWITCH_STATUS_ON else SEMANTICS_SWITCH_STATUS_OFF))"

text \<open>The notification of an observer in a state, and the state after it, except for the byte store.\<close>

definition note_pdu :: "bool \<Rightarrow> 'w app_state \<Rightarrow> coap_observer_t \<Rightarrow> pdu" where
  "note_pdu led3 s ob =
     \<lparr>pdu_version = 1, pdu_type = 1, pdu_code = COAP_CODE_205_CONTENT, pdu_id = ucast (m_message_id_counter s),
      pdu_token = take (unat (ob_token_len ob)) (ob_token ob),
      pdu_options = observe_options (if led3 then m_observer_sequence_num (world s) else m_observer_sequence_num_statedesc (world s))
        (expire_time (res_at (c_resources s) (notified_resource led3))),
      pdu_payload = note_text led3 (led3_is_on s) (ob_ct ob)\<rparr>"

definition notified ::
  "('w \<Rightarrow> coap_port_t \<Rightarrow> coap_remote_t \<Rightarrow> u8 list \<Rightarrow> 'w) \<Rightarrow> bool \<Rightarrow> coap_observer_t \<Rightarrow> 'w app_state \<Rightarrow> 'w app_state" where
  "notified tx led3 ob s =
     s\<lparr>m_message_id_counter := m_message_id_counter s + 1,
       world := (world (snd (sequence_next led3 s)))
         \<lparr>sw_outside := tx (sw_outside (world s)) \<lparr>port_number = COAP_SERVER_PORT\<rparr> (ob_remote ob) (pdu_bytes (note_pdu led3 s ob))\<rparr>\<rparr>"

lemma status_strings:
  "0 \<notin> set (c_chars SEMANTICS_SWITCH_STATUS_ON)" "0 \<notin> set (c_chars SEMANTICS_SWITCH_STATUS_OFF)"
  "length (c_chars SEMANTICS_SWITCH_STATUS_ON) \<le> 100" "length (c_chars SEMANTICS_SWITCH_STATUS_OFF) \<le> 100"
  by (simp_all add: c_chars_def SEMANTICS_SWITCH_STATUS_ON_def SEMANTICS_SWITCH_STATUS_OFF_def text_lines_def)

lemma note_text_length: "length (note_text led3 lit ct) \<le> 100"
  using status_strings(3,4) led_text_length [of lit ct] by (simp add: note_text_def)

lemma notification_text_at:
  assumes "statics_ok (c_heap s)" "notification_text led3 s ct = (str, s')"
  obtains h where "s' = s\<lparr>c_heap := h\<rparr>" "text_at h str (note_text led3 (led3_is_on s) ct)" "statics_ok h"
    "\<forall>k < TOTAL_BLOCK_COUNT. h (block_offset k) = c_heap s (block_offset k)"
proof (cases led3)
  case True
  then have "led_value_get s ct = (str, s')" using assms(2) by (simp add: notification_text_def)
  with assms(1) obtain h where "s' = s\<lparr>c_heap := h\<rparr>" "text_at h str (led_text (led3_is_on s) ct)" "statics_ok h"
    "\<forall>k < TOTAL_BLOCK_COUNT. h (block_offset k) = c_heap s (block_offset k)" by (rule led_value_text)
  then show thesis using that True by (simp add: note_text_def)
next
  case False
  then have "str = status_text s" "s' = s" using assms(2) by (auto simp: notification_text_def)
  then show thesis
    using that [of "c_heap s"] assms(1) False c_string_text [OF status_strings(1)] c_string_text [OF status_strings(2)]
    by (auto simp: note_text_def status_text_def statics_ok_def)
qed

lemma notification_config_eq:
  assumes "observer_ok ob"
  obtains c where "notification_config ob type = Inr c" "conf_ok c" "conf_id c = 0" "conf_code c = COAP_CODE_205_CONTENT"
    "conf_type c = type" "take (unat (conf_token_len c)) (conf_token c) = take (unat (ob_token_len ob)) (ob_token ob)"
proof -
  let ?n = "unat (ob_token_len ob)"
  have "arr_read (ob_token ob) 0 ?n = Inr (take ?n (ob_token ob))"
    "arr_write (replicate 8 0) 0 (take ?n (ob_token ob)) = Inr (take ?n (ob_token ob) @ replicate (8 - ?n) 0)"
    using assms by (simp_all add: observer_ok_def arr_read_eq arr_write_eq)
  then show thesis
    using that assms by (simp add: notification_config_def conf_ok_def observer_ok_def coap_message_conf_zero_def)
qed

lemma note_pdu_wf:
  assumes "observer_ok ob"
  shows "pdu_wf (note_pdu led3 s ob)" "length (pdu_bytes (note_pdu led3 s ob)) \<le> 256"
proof -
  let ?p = "note_pdu led3 s ob"
  have "length (pdu_token ?p) \<le> 8" using assms by (simp add: note_pdu_def observer_ok_def)
  moreover have os: "ascending_from 0 (pdu_options ?p)" "length (pdu_options ?p) \<le> 2" "length (rfc_options 0 (pdu_options ?p)) \<le> 100"
    unfolding note_pdu_def by (simp_all add: observe_options_ok del: One_nat_def)
  moreover have "length (rfc_payload (pdu_payload ?p)) \<le> 101"
    using note_text_length [of led3 "led3_is_on s" "ob_ct ob"] by (simp add: rfc_payload_def note_pdu_def)
  ultimately show "length (pdu_bytes ?p) \<le> 256" by (simp add: pdu_bytes_def rfc_header_def)
  then show "pdu_wf ?p" using os assms
    by (simp add: pdu_wf_def COAP_MAX_NUMBER_OF_OPTIONS_def) (simp add: note_pdu_def observer_ok_def)
qed

text \<open>The loop body up to the sending of the message.\<close>

lemma notify_observer_drafts:
  assumes "device_inv s" "statics_ok (c_heap s)" "spare (c_mm s) 3 256"
    and "i < length (c_observers s)" "ob = c_observers s ! i" "observer_ok ob"
  obtains i' j r h where
    "notify_observer E led3 COAP_TYPE_NON s i = response_send E
       (s\<lparr>c_mm := mem_mark (mem_mark (c_mm s) i' False) j False, c_heap := h, m_message_id_counter := m_message_id_counter s + 1,
          world := world (snd (sequence_next led3 s))\<rparr>) (block_ptr i', r)"
    "drafted (s\<lparr>c_mm := mem_mark (mem_mark (c_mm s) i' False) j False, c_heap := h, m_message_id_counter := m_message_id_counter s + 1,
          world := world (snd (sequence_next led3 s))\<rparr>) i' j r (note_pdu led3 s ob)"
    "is_free (m_mem_pool (c_mm s) ! i')" "is_free (m_mem_pool (mem_mark (c_mm s) i' False) ! j)"
    "port r = \<lparr>port_number = COAP_SERVER_PORT\<rparr>" "remote r = ob_remote ob" "statics_ok h"
proof -
  obtain c where c: "notification_config ob COAP_TYPE_NON = Inr c" "conf_ok c" "conf_id c = 0" "conf_code c = COAP_CODE_205_CONTENT"
    "conf_type c = COAP_TYPE_NON" "take (unat (conf_token_len c)) (conf_token c) = take (unat (ob_token_len ob)) (ob_token ob)"
    by (rule notification_config_eq [OF assms(6)])
  let ?w = "world (snd (sequence_next led3 s))" and ?n = "fst (sequence_next led3 s)"
  let ?age = "expire_time (res_at (c_resources s) (notified_resource led3))"
  let ?p = "message_pdu (settled_conf s c)"
  from assms(1) c(2) show thesis
  proof (cases rule: message_new_outcome)
    case (failed e r c' s')
    then show thesis using assms(3) by (simp add: spare_def)
  next
    case (created i' j n)
    let ?t = "with_new_blocks s i' j True" and ?m = "new_message (settled_conf s c) (block_ptr j) n"
    let ?r = "?m\<lparr>p_arg := Some i, remote := ob_remote ob\<rparr>" and ?t2 = "with_new_blocks s i' j True\<lparr>world := ?w\<rparr>"
    have new: "coap_message_new s c = Inr (NRF_SUCCESS, Some (block_ptr i', ?m), settled_conf s c, ?t)"
      and dr: "drafting ?t2 i' j ?r ?p" using created(1,2) by (simp_all add: c(3))
    have j: "j < TOTAL_BLOCK_COUNT" using dr by (simp add: drafting_def held_def)
    have seq: "sequence_next led3 ?t = (?n, ?t2)" by (simp add: sequence_next_def app_upd_def with_new_blocks_def)
    have none: "pdu_options ?p = []" by (simp add: message_pdu_def)
    obtain h r1 h1 r2 where o: "opt_uint ?t2 ?r COAP_OPT_OBSERVE ?n = Inr (r1, ?t2\<lparr>c_heap := h\<rparr>)"
      "opt_uint (?t2\<lparr>c_heap := h\<rparr>) r1 COAP_OPT_MAX_AGE ?age = Inr (r2, ?t2\<lparr>c_heap := h1\<rparr>)"
      "drafting (?t2\<lparr>c_heap := h1\<rparr>) i' j r2 (?p\<lparr>pdu_options := observe_options ?n ?age\<rparr>)" "same_statics (c_heap ?t2) h1"
      "port r2 = port ?r" "remote r2 = remote ?r" by (rule observe_options_draft [OF dr none])
    let ?t3 = "?t2\<lparr>c_heap := h1\<rparr>"
    have lit: "led3_is_on ?t3 = led3_is_on s" by (simp add: led3_is_on_def sequence_next_def app_upd_def)
    have res: "c_resources (?t2\<lparr>c_heap := h\<rparr>) = c_resources s" by (simp add: with_new_blocks_def)
    have "statics_ok (c_heap ?t3)"
      using statics_ok_same [OF same_statics_trans [OF new_blocks_statics [OF j, of s i' True]] assms(2)] o(4) by simp
    moreover obtain str t4 where v: "notification_text led3 ?t3 (ob_ct ob) = (str, t4)" by force
    ultimately obtain h4 where h4: "t4 = ?t3\<lparr>c_heap := h4\<rparr>" "text_at h4 str (note_text led3 (led3_is_on ?t3) (ob_ct ob))" "statics_ok h4"
      "\<forall>k < TOTAL_BLOCK_COUNT. h4 (block_offset k) = c_heap ?t3 (block_offset k)" by (rule notification_text_at)
    have d4: "drafting t4 i' j r2 (?p\<lparr>pdu_options := observe_options ?n ?age\<rparr>)" unfolding h4(1) by (rule drafting_statics [OF o(3) h4(4)])
    have at: "text_at (c_heap t4) str (note_text led3 (led3_is_on s) (ob_ct ob))" using h4(1,2) unfolding lit by simp
    have len: "4 * length (pdu_options (?p\<lparr>pdu_options := observe_options ?n ?age\<rparr>)) + length (note_text led3 (led3_is_on s) (ob_ct ob)) \<le> 256"
      using note_text_length [of led3 "led3_is_on s" "ob_ct ob"] by (simp add: observe_options_def)
    have pdu: "?p\<lparr>pdu_options := observe_options ?n ?age\<rparr>\<lparr>pdu_payload := note_text led3 (led3_is_on s) (ob_ct ob)\<rparr> = note_pdu led3 s ob"
      by (simp add: message_pdu_def note_pdu_def sequence_next_def c COAP_TYPE_NON_def)
    obtain h5 r3 where p5: "payload_string t4 r2 str = Inr (r3, t4\<lparr>c_heap := h5\<rparr>)" "drafted (t4\<lparr>c_heap := h5\<rparr>) i' j r3 (note_pdu led3 s ob)"
      "agrees_below (block_offset j) 0 (c_heap t4) h5" "port r3 = port r2" "remote r3 = remote r2" "header r3 = header r2"
      by (rule payload_string_drafts [OF d4 at len, unfolded pdu])
    have t5: "t4\<lparr>c_heap := h5\<rparr> = s\<lparr>c_mm := mem_mark (mem_mark (c_mm s) i' False) j False, c_heap := h5,
        m_message_id_counter := m_message_id_counter s + 1, world := ?w\<rparr>"
      by (simp add: h4(1) with_new_blocks_def)
    have "port r3 = \<lparr>port_number = COAP_SERVER_PORT\<rparr>" "remote r3 = ob_remote ob"
      using o(5,6) p5(4,5) c(4) by (simp_all add: new_message_def is_request_def c_consts)
    moreover have "statics_ok h5" using statics_ok_same [OF agrees_statics [OF p5(3) j]] h4(1,3) by simp
    moreover have "notify_observer E led3 COAP_TYPE_NON s i = response_send E (t4\<lparr>c_heap := h5\<rparr>) (block_ptr i', r3)"
      using assms(4,5) c(1) new seq o(1,2) v p5(1) res
      by (simp add: notify_observer_def APP_ERROR_CHECK_def coap_message_remote_addr_set_def Let_def)
    ultimately show thesis using that p5(2) created(3,4) unfolding t5 by blast
  qed
qed

lemma notify_observer_sends:
  assumes "device_inv s" "statics_ok (c_heap s)" "spare (c_mm s) 3 256" "takes_all E tx"
    and "i < length (c_observers s)" "ob = c_observers s ! i" "observer_ok ob"
  obtains h where "notify_observer E led3 COAP_TYPE_NON s i = Inr ((notified tx led3 ob s)\<lparr>c_heap := h\<rparr>)"
    "device_inv ((notified tx led3 ob s)\<lparr>c_heap := h\<rparr>)" "statics_ok h"
proof -
  let ?w = "world (snd (sequence_next led3 s))"
  obtain i' j r h where d: "notify_observer E led3 COAP_TYPE_NON s i = response_send E
       (s\<lparr>c_mm := mem_mark (mem_mark (c_mm s) i' False) j False, c_heap := h, m_message_id_counter := m_message_id_counter s + 1,
          world := ?w\<rparr>) (block_ptr i', r)"
    "drafted (s\<lparr>c_mm := mem_mark (mem_mark (c_mm s) i' False) j False, c_heap := h, m_message_id_counter := m_message_id_counter s + 1,
          world := ?w\<rparr>) i' j r (note_pdu led3 s ob)"
    "is_free (m_mem_pool (c_mm s) ! i')" "is_free (m_mem_pool (mem_mark (c_mm s) i' False) ! j)"
    "port r = \<lparr>port_number = COAP_SERVER_PORT\<rparr>" "remote r = ob_remote ob" "statics_ok h"
    by (rule notify_observer_drafts [OF assms(1-3,5-7)])
  let ?t = "s\<lparr>c_mm := mem_mark (mem_mark (c_mm s) i' False) j False, c_heap := h, m_message_id_counter := m_message_id_counter s + 1,
      world := ?w\<rparr>"
  let ?w' = "world (notified tx led3 ob s)"
  have nr: "\<not> is_request (pdu_code (note_pdu led3 s ob))" "pdu_type (note_pdu led3 s ob) \<noteq> 0"
    by (simp_all add: note_pdu_def is_request_def c_consts)
  have junk: "length (q_token (env_junk E)) = 8" using assms(4) by (simp add: takes_all_def)
  have "sw_outside ?w = sw_outside (world s)" by (simp add: sequence_next_def app_upd_def)
  then have tx: "env_write E (port r) (remote r) (pdu_bytes (note_pdu led3 s ob)) (world ?t) = (NRF_SUCCESS, ?w')"
    unfolding d(5,6) using assms(4) by (simp add: takes_all_def notified_def)
  have mm: "c_mm ?t = mem_mark (mem_mark (c_mm s) i' False) j False" by simp
  obtain h' where h': "response_send E ?t (block_ptr i', r) = Inr (?t\<lparr>c_mm := c_mm s, c_heap := h', world := ?w'\<rparr>)"
    "device_inv (?t\<lparr>c_mm := c_mm s, c_heap := h', world := ?w'\<rparr>)" "same_statics (c_heap ?t) h'"
    by (rule reply_sent [OF d(2) mm d(3,4) assms(3) note_pdu_wf [OF assms(7)] nr junk tx])
  have "?t\<lparr>c_mm := c_mm s, c_heap := h', world := ?w'\<rparr> = (notified tx led3 ob s)\<lparr>c_heap := h'\<rparr>" by (simp add: notified_def)
  then show thesis using that [of h'] d(1) h' statics_ok_same [OF _ d(7)] by simp
qed

text \<open>All observers of a resource.\<close>

lemma notified_fields [simp]:
  "c_mm (notified tx led3 ob s) = c_mm s" "c_queue (notified tx led3 ob s) = c_queue s" "c_heap (notified tx led3 ob s) = c_heap s"
  "c_observers (notified tx led3 ob s) = c_observers s" "c_resources (notified tx led3 ob s) = c_resources s"
  "notified tx led3 ob (s\<lparr>c_heap := h\<rparr>) = (notified tx led3 ob s)\<lparr>c_heap := h\<rparr>"
  "led3_is_on (notified tx led3 ob s) = led3_is_on s"
  "m_observer_sequence_num (world (notified tx True ob s)) = m_observer_sequence_num (world s) + 1"
  "m_observer_sequence_num (world (notified tx False ob s)) = m_observer_sequence_num (world s)"
  by (simp_all add: notified_def sequence_next_def app_upd_def note_pdu_def led3_is_on_def)

lemma notify_all_fields [simp]:
  "c_mm (fold (notified tx led3) obs s) = c_mm s" "c_queue (fold (notified tx led3) obs s) = c_queue s"
  "c_observers (fold (notified tx led3) obs s) = c_observers s"
  "fold (notified tx led3) obs (s\<lparr>c_heap := h\<rparr>) = (fold (notified tx led3) obs s)\<lparr>c_heap := h\<rparr>"
  "led3_is_on (fold (notified tx led3) obs s) = led3_is_on s"
  "m_observer_sequence_num (world (fold (notified tx True) obs s)) = m_observer_sequence_num (world s) + of_nat (length obs)"
  "m_observer_sequence_num (world (fold (notified tx False) obs s)) = m_observer_sequence_num (world s)"
  by (induction obs arbitrary: s) simp_all

lemma notify_loop_sends:
  assumes "device_inv s" "statics_ok (c_heap s)" "spare (c_mm s) 3 256" "takes_all E tx" "length (c_observers s) \<le> 256"
    and "\<And>ob. ob \<in> set (c_observers s) \<Longrightarrow> p_resource_of_interest ob \<noteq> None \<Longrightarrow> observer_ok ob"
    and "\<And>i. p = Some i \<Longrightarrow> i < length (c_observers s)" "length (c_observers s) - (case p of None \<Rightarrow> 0 | Some i \<Rightarrow> Suc i) < fuel"
  shows "\<exists>h. let idx = visit_from (\<lambda>ob. p_resource_of_interest ob = Some (notified_resource led3)) (c_observers s)
                 (case p of None \<Rightarrow> 0 | Some i \<Rightarrow> Suc i) fuel;
             s' = fold (notified tx led3) (map ((!) (c_observers s)) idx) s
         in notify_loop fuel E led3 COAP_TYPE_NON s p = Inr (s'\<lparr>c_heap := h\<rparr>) \<and> device_inv (s'\<lparr>c_heap := h\<rparr>) \<and> statics_ok h"
  using assms
proof (induction fuel arbitrary: s p)
  case 0
  then show ?case by simp
next
  case (Suc fuel)
  let ?P = "\<lambda>ob. p_resource_of_interest ob = Some (notified_resource led3)" and ?k = "case p of None \<Rightarrow> 0 | Some i \<Rightarrow> Suc i"
  have m: "i mod 256 = i" if "p = Some i" for i using Suc.prems(5,7) that by fastforce
  have z: "find_first P obs = find_next P 0 obs" for P :: "coap_observer_t \<Rightarrow> bool" and obs
    by (simp add: find_first_def find_next_def)
  have nxt: "internal_coap_observe_server_next_get (c_observers s) (Some p) p (Some (notified_resource led3)) =
      (case find_next ?P ?k (c_observers s) of Some i \<Rightarrow> (NRF_SUCCESS, Some (Some i))
       | None \<Rightarrow> (NRF_ERROR_NOT_FOUND OR IOT_COAP_ERR_BASE, Some None))"
    by (cases p) (simp_all add: internal_coap_observe_server_next_get_def z m)
  show ?case
  proof (cases "find_next ?P ?k (c_observers s)")
    case None
    have "NRF_ERROR_NOT_FOUND OR IOT_COAP_ERR_BASE \<noteq> NRF_SUCCESS" by (simp add: c_consts)
    then show ?thesis
      using None nxt Suc.prems(1,2) by (auto intro!: exI [of _ "c_heap s"])
  next
    case (Some j)
    have j: "?k \<le> j" "j < length (c_observers s)" "?P (c_observers s ! j)" using Some by (simp_all add: find_next_Some)
    let ?ob = "c_observers s ! j"
    have ok: "observer_ok ?ob" using Suc.prems(6) j by simp
    obtain h where h: "notify_observer E led3 COAP_TYPE_NON s j = Inr ((notified tx led3 ?ob s)\<lparr>c_heap := h\<rparr>)"
      "device_inv ((notified tx led3 ?ob s)\<lparr>c_heap := h\<rparr>)" "statics_ok h"
      by (rule notify_observer_sends [OF Suc.prems(1-4) j(2) refl ok])
    let ?s = "(notified tx led3 ?ob s)\<lparr>c_heap := h\<rparr>"
    have "\<exists>h'. let idx = visit_from ?P (c_observers ?s) (Suc j) fuel; s' = fold (notified tx led3) (map ((!) (c_observers ?s)) idx) ?s
         in notify_loop fuel E led3 COAP_TYPE_NON ?s (Some j) = Inr (s'\<lparr>c_heap := h'\<rparr>) \<and> device_inv (s'\<lparr>c_heap := h'\<rparr>) \<and> statics_ok h'"
      using Suc.IH [of ?s "Some j"] h(2,3) Suc.prems(3-6,8) j by simp
    then show ?thesis using nxt Some h(1) by (simp add: Let_def)
  qed
qed

lemma map_nth_filter: "map ((!) xs) (filter (\<lambda>i. P (xs ! i)) [0..<length xs]) = filter P xs"
proof -
  have "filter P xs = filter P (map ((!) xs) [0..<length xs])" by (simp add: map_nth)
  also have "\<dots> = map ((!) xs) (filter (P \<circ> (!) xs) [0..<length xs])" by (rule filter_map)
  finally show ?thesis by (simp add: comp_def)
qed

definition observers_for :: "nat \<Rightarrow> 'w app_state \<Rightarrow> coap_observer_t list" where
  "observers_for r s = filter (\<lambda>ob. p_resource_of_interest ob = Some r) (c_observers s)"

lemma notify_all_sends:
  assumes "device_inv s" "statics_ok (c_heap s)" "spare (c_mm s) 3 256" "takes_all E tx" "length (c_observers s) \<le> 256"
    and "\<And>ob. ob \<in> set (c_observers s) \<Longrightarrow> p_resource_of_interest ob \<noteq> None \<Longrightarrow> observer_ok ob"
  obtains h where "notify_loop (Suc (length (c_observers s))) E led3 COAP_TYPE_NON s None
      = Inr ((fold (notified tx led3) (observers_for (notified_resource led3) s) s)\<lparr>c_heap := h\<rparr>)"
    "device_inv ((fold (notified tx led3) (observers_for (notified_resource led3) s) s)\<lparr>c_heap := h\<rparr>)" "statics_ok h"
proof -
  have "visit_from (\<lambda>ob. p_resource_of_interest ob = Some (notified_resource led3)) (c_observers s) 0 (Suc (length (c_observers s)))
      = filter (\<lambda>i. p_resource_of_interest (c_observers s ! i) = Some (notified_resource led3)) [0..<length (c_observers s)]"
    using observers_of.visit_all [of "c_observers s" 0 "Suc (length (c_observers s))" "notified_resource led3"] by simp
  then show thesis
    using notify_loop_sends [OF assms, of None "Suc (length (c_observers s))" led3] that
      map_nth_filter [of "c_observers s" "\<lambda>ob. p_resource_of_interest ob = Some (notified_resource led3)"]
    by (auto simp: Let_def observers_for_def simp del: visit_from.simps)
qed


section \<open>Block-wise texts\<close>

lemma c_strncpy_text:
  "0 \<notin> set u \<Longrightarrow> c_strncpy (u @ 0 # rest) n = Inr (take n u @ replicate (n - length u) 0)"
proof (induction u arbitrary: n)
  case Nil
  then show ?case by (cases n) simp_all
next
  case (Cons b u)
  then show ?case by (cases n) auto
qed

lemma text_at_strncpy:
  assumes "text_at h q t" "k \<le> length t"
  shows "heap_strncpy h (ptr_add q k) n = Inr (take n (drop k t) @ replicate (n - (length t - k)) 0)"
proof -
  obtain c l rest where t: "q = Ptr c l" "l \<le> length (h c)" "drop l (h c) = t @ 0 # rest" "0 \<notin> set t"
    using assms(1) by (auto simp: text_at_def)
  have "length (h c) - l = length (t @ 0 # rest)" unfolding t(3) [symmetric] by simp
  then have "l + k \<le> length (h c)" using assms(2) t(2) by simp
  moreover have "drop (l + k) (h c) = drop k t @ 0 # rest"
    using arg_cong [OF t(3), of "drop k"] assms(2) by (simp add: add.commute)
  moreover have "0 \<notin> set (drop k t)" using t(4) by (auto dest: in_set_dropD)
  ultimately show ?thesis using t(1) c_strncpy_text [of "drop k t" rest n] by (simp add: heap_strncpy_def)
qed

text \<open>The size exponent of the Block2 option.\<close>

definition block_szx :: "nat \<Rightarrow> u32" where
  "block_szx sz = (if sz = 16 then 0 else if sz = 32 then 1 else 2)"

lemma coap_log_2_small: "coap_log_2 1 = 0" "coap_log_2 2 = 1" "coap_log_2 4 = 2"
  by (simp_all add: coap_log_2_def log_loop.simps [of 1] log_loop.simps [of 2] log_loop.simps [of 4] drop_bit_eq_div Let_def)

lemma block_szx_eq:
  assumes "sz \<in> {16, 32, 64}"
  shows "ucast (coap_log_2 (of_nat (sz div 16))) AND 0x07 = block_szx sz"
  using assms coap_log_2_small by (auto simp: block_szx_def)

definition block2_option :: "u32 \<Rightarrow> bool \<Rightarrow> nat \<Rightarrow> u32" where
  "block2_option num mr sz = push_bit 4 num OR push_bit 3 (if mr then 1 else 0) OR block_szx sz"

lemma block_offset_eq:
  assumes "unat num * sz \<le> length t" "length t < 2 ^ 16" "sz \<in> {16, 32, 64}"
  shows "unat (num * of_nat sz :: u32) = unat num * sz"
    "(num * of_nat sz + of_nat sz < (of_nat (length t) :: u32)) = (unat num * sz + sz < length t)"
proof -
  have s: "unat (of_nat sz :: u32) = sz" "sz \<le> 64" using assms(3) by auto
  show o: "unat (num * of_nat sz :: u32) = unat num * sz"
    using assms(1,2) s by (simp add: unat_word_ariths(2))
  have "unat (num * of_nat sz + of_nat sz :: u32) = unat num * sz + sz"
    using assms(1,2) s by (simp add: unat_word_ariths(1) o)
  moreover have "unat (of_nat (length t) :: u32) = length t" using assms(2) by (simp add: unat_of_nat_u32)
  ultimately show "(num * of_nat sz + of_nat sz < (of_nat (length t) :: u32)) = (unat num * sz + sz < length t)"
    by (simp add: word_less_nat_alt)
qed

definition block_of :: "u8 list \<Rightarrow> nat \<Rightarrow> nat \<Rightarrow> u8 list" where
  "block_of t sz k = take sz (drop (k * sz) t)"

lemma blocks_up_to: "concat (map (block_of t sz) [0..<k]) = take (k * sz) t"
proof (induction k)
  case (Suc k)
  have "take (Suc k * sz) t = take (k * sz + sz) t" by (simp add: add.commute)
  then show ?case using Suc by (simp only: take_add) (simp add: block_of_def)
qed simp

lemma response_part_text:
  assumes "0 \<notin> set t" "k \<le> length t" "length t - k < n \<or> (\<exists>js. junk = 0 # js)"
  shows "text_at (h(b := take n (drop k t) @ replicate (n - (length t - k)) 0 @ junk)) (Ptr b 0) (take n (drop k t))"
proof -
  have "0 \<notin> set (take n (drop k t))" using assms(1) by (auto dest: in_set_takeD in_set_dropD)
  moreover have "\<exists>rest. replicate (n - (length t - k)) 0 @ junk = 0 # rest"
    using assms(3) by (cases "n - (length t - k)") auto
  ultimately show ?thesis by (auto simp: text_at_def)
qed

lemma response_part_statics:
  "statics_ok h \<Longrightarrow> statics_ok (h(OBJ_RESPONSE_PART := xs))"
  "k < TOTAL_BLOCK_COUNT \<Longrightarrow> (h(OBJ_RESPONSE_PART := xs)) (block_offset k) = h (block_offset k)"
  using block_not_static [of k] by (auto simp: statics_ok_def app_objects)

lemma next_block2:
  "next_option_ok (answer_pdu s req code [] []) 23 (uint_value v)"
  using rfc_option_short [of 23 "uint_value v"] uint_value_length [of v] by (simp add: next_option_ok_def answer_pdu_def)

text \<open>The block of a text in the reply, where the array it is copied to ends in a zero.\<close>

lemma block2_reply_slice:
  assumes "drafting s i j r (answer_pdu s0 req code [] [])" "statics_ok (c_heap s)"
    and "block2_request (c_heap s) req = Inr (num, sz)" "sz \<in> {16, 32, 64}" "text_at (c_heap s) q t" "length t < 2 ^ 16"
    and "unat num * sz \<le> length t" "length t - unat num * sz < sz \<or> (\<exists>js. junk_stack J = 0 # js)"
    and "v = block2_option num (unat num * sz + sz < length t) sz"
  obtains h r' where "block2_reply J s req r q = Inr (r', s\<lparr>c_heap := h\<rparr>)"
    "drafted (s\<lparr>c_heap := h\<rparr>) i j r' (answer_pdu s0 req code [(23, uint_value v)] (block_of t sz (unat num)))"
    "statics_ok h" "port r' = port r" "remote r' = remote r"
proof -
  let ?k = "unat num * sz" and ?b = "block_of t sz (unat num)"
  let ?part = "take sz (drop ?k t) @ replicate (sz - (length t - ?k)) 0"
  let ?h = "(c_heap s)(OBJ_RESPONSE_PART := ?part @ junk_stack J)"
  have j: "j < TOTAL_BLOCK_COUNT" using assms(1) by (simp add: drafting_def held_def)
  have z: "0 \<notin> set t" using assms(5) by (auto simp: text_at_def)
  note off = block_offset_eq [OF assms(7,6,4)]
  have at: "text_at ?h (Ptr OBJ_RESPONSE_PART 0) ?b"
    using response_part_text [OF z assms(7,8)] by (simp add: block_of_def)
  have d: "drafting (s\<lparr>c_heap := ?h\<rparr>) i j r (answer_pdu s0 req code [] [])"
    by (rule drafting_statics [OF assms(1)]) (use response_part_statics(2) in blast)
  have cnt: "length (pdu_options (answer_pdu s0 req code [] [])) < 8" by simp
  obtain h1 r1 where o: "opt_uint (s\<lparr>c_heap := ?h\<rparr>) r (of_nat 23) v = Inr (r1, s\<lparr>c_heap := ?h\<rparr>\<lparr>c_heap := h1\<rparr>)"
    "drafting (s\<lparr>c_heap := ?h\<rparr>\<lparr>c_heap := h1\<rparr>) i j r1 (add_option 23 (uint_value v) (answer_pdu s0 req code [] []))"
    "agrees_below (block_offset j) 0 (c_heap (s\<lparr>c_heap := ?h\<rparr>)) h1" "same_envelope r r1"
    by (rule opt_uint_drafting [OF d next_block2 cnt])
  have same: "same_statics ?h h1" using agrees_statics [OF o(3) j] by simp
  then have at1: "text_at (c_heap (s\<lparr>c_heap := ?h\<rparr>\<lparr>c_heap := h1\<rparr>)) (Ptr OBJ_RESPONSE_PART 0) ?b"
    using at by (simp add: text_at_def same_statics_def app_objects)
  have len: "4 * length (pdu_options (add_option 23 (uint_value v) (answer_pdu s0 req code [] []))) + length ?b \<le> 256"
    using assms(4) by (auto simp: block_of_def)
  have pdu: "add_option 23 (uint_value v) (answer_pdu s0 req code [] [])\<lparr>pdu_payload := ?b\<rparr>
      = answer_pdu s0 req code [(23, uint_value v)] ?b" by simp
  obtain h2 r2 where p: "payload_string (s\<lparr>c_heap := ?h\<rparr>\<lparr>c_heap := h1\<rparr>) r1 (Ptr OBJ_RESPONSE_PART 0)
      = Inr (r2, s\<lparr>c_heap := ?h\<rparr>\<lparr>c_heap := h1\<rparr>\<lparr>c_heap := h2\<rparr>)"
    "drafted (s\<lparr>c_heap := ?h\<rparr>\<lparr>c_heap := h1\<rparr>\<lparr>c_heap := h2\<rparr>) i j r2 (answer_pdu s0 req code [(23, uint_value v)] ?b)"
    "agrees_below (block_offset j) 0 (c_heap (s\<lparr>c_heap := ?h\<rparr>\<lparr>c_heap := h1\<rparr>)) h2" "port r2 = port r1" "remote r2 = remote r1"
    "header r2 = header r1"
    by (rule payload_string_drafts [OF o(2) at1 len, unfolded pdu])
  have "v = push_bit 4 num OR push_bit 3 (if num * of_nat sz + of_nat sz < (of_nat (length t) :: u32) then 1 else 0) OR
      (ucast (coap_log_2 (of_nat (sz div 16))) AND 0x07)"
    unfolding assms(9) block2_option_def off(2) block_szx_eq [OF assms(4)] ..
  then have "block2_reply J s req r q = Inr (r2, s\<lparr>c_heap := h2\<rparr>)"
    using assms(3) text_at_strlen [OF assms(5)] text_at_strncpy [OF assms(5,7), of sz] off(1) o(1) p(1)
    by (simp add: block2_reply_def Let_def COAP_OPT_BLOCK2_def)
  moreover have "statics_ok h2"
    using statics_ok_same [OF same_statics_trans [OF same]] agrees_statics [OF p(3) j] response_part_statics(1) [OF assms(2)] by simp
  ultimately show thesis using that p(2,4,5) o(4) by (simp add: same_envelope_def)
qed

text \<open>Where the block is full and no zero follows the array, its length is read past its end.\<close>

lemma block2_reply_full:
  assumes "drafting s i j r (answer_pdu s0 req code [] [])"
    and "block2_request (c_heap s) req = Inr (num, sz)" "sz \<in> {16, 32, 64}" "text_at (c_heap s) q t" "length t < 2 ^ 16"
    and "unat num * sz + sz \<le> length t" "0 \<notin> set (junk_stack J)"
  shows "block2_reply J s req r q = Inl OutOfBoundsRead"
proof -
  let ?k = "unat num * sz" and ?v = "block2_option num (unat num * sz + sz < length t) sz"
  have k: "?k \<le> length t" using assms(6) by linarith
  let ?h = "(c_heap s)(OBJ_RESPONSE_PART := take sz (drop ?k t) @ junk_stack J)"
  have j: "j < TOTAL_BLOCK_COUNT" using assms(1) by (simp add: drafting_def held_def)
  have z: "0 \<notin> set t" using assms(4) by (auto simp: text_at_def)
  note off = block_offset_eq [OF k assms(5,3)]
  have full: "sz - (length t - ?k) = 0" using assms(6) by linarith
  have d: "drafting (s\<lparr>c_heap := ?h\<rparr>) i j r (answer_pdu s0 req code [] [])"
    by (rule drafting_statics [OF assms(1)]) (use response_part_statics(2) in blast)
  have cnt: "length (pdu_options (answer_pdu s0 req code [] [])) < 8" by simp
  obtain h1 r1 where o: "opt_uint (s\<lparr>c_heap := ?h\<rparr>) r (of_nat 23) ?v = Inr (r1, s\<lparr>c_heap := ?h\<rparr>\<lparr>c_heap := h1\<rparr>)"
    "drafting (s\<lparr>c_heap := ?h\<rparr>\<lparr>c_heap := h1\<rparr>) i j r1 (add_option 23 (uint_value ?v) (answer_pdu s0 req code [] []))"
    "agrees_below (block_offset j) 0 (c_heap (s\<lparr>c_heap := ?h\<rparr>)) h1" "same_envelope r r1"
    by (rule opt_uint_drafting [OF d next_block2 cnt])
  have "h1 OBJ_RESPONSE_PART = take sz (drop ?k t) @ junk_stack J"
    using agrees_statics [OF o(3) j] by (simp add: same_statics_def app_objects)
  moreover have "find_first (\<lambda>c. c = 0) (take sz (drop ?k t) @ junk_stack J) = None"
    using z assms(7) by (auto simp: find_first_None dest!: in_set_takeD in_set_dropD)
  ultimately have "heap_strlen h1 (Ptr OBJ_RESPONSE_PART 0) = Inl OutOfBoundsRead"
    by (simp add: heap_strlen_def c_strlen_def)
  moreover have "?v = push_bit 4 num OR push_bit 3 (if num * of_nat sz + of_nat sz < (of_nat (length t) :: u32) then 1 else 0) OR
      (ucast (coap_log_2 (of_nat (sz div 16))) AND 0x07)"
    unfolding block2_option_def off(2) block_szx_eq [OF assms(3)] ..
  ultimately show ?thesis
    using assms(2) text_at_strlen [OF assms(4)] text_at_strncpy [OF assms(4) k, of sz] off(1) o(1) full
    by (simp add: block2_reply_def Let_def COAP_OPT_BLOCK2_def payload_string_def)
qed

section \<open>Requests on the descriptions\<close>

definition semantics_text :: "bool \<Rightarrow> bool \<Rightarrow> u8 list" where
  "semantics_text restdesc lit =
     c_chars (if restdesc then SEMANTICS_SWITCH else if lit then SEMANTICS_SWITCH_STATUS_ON else SEMANTICS_SWITCH_STATUS_OFF)"

lemma semantics_string: "0 \<notin> set (c_chars SEMANTICS_SWITCH)" "length (c_chars SEMANTICS_SWITCH) < 2 ^ 16"
  by (simp_all add: c_chars_def SEMANTICS_SWITCH_def text_lines_def indent_def)

lemma semantics_text_length: "length (semantics_text restdesc lit) < 2 ^ 16"
  using status_strings(3,4) semantics_string(2) by (simp add: semantics_text_def)

lemma semantics_text_at:
  "statics_ok (c_heap s) \<Longrightarrow>
   text_at (c_heap s) (if restdesc then Ptr OBJ_SEMANTICS 0 else status_text s) (semantics_text restdesc (led3_is_on s))"
  using c_string_text [OF status_strings(1)] c_string_text [OF status_strings(2)] c_string_text [OF semantics_string(1)]
  by (simp add: semantics_text_def status_text_def statics_ok_def)

lemma szx_to_size: "coap_szx_to_size x = 16 * 2 ^ unat x"
proof -
  have "fold (\<lambda>_ sz. sz * 2) [0..<n] (16 :: nat) = 16 * 2 ^ n" for n by (induction n) simp_all
  then show ?thesis by (simp add: coap_szx_to_size_def)
qed

lemma block2_request_size:
  assumes "block2_request h req = Inr (num, sz)"
  shows "sz \<in> {16, 32, 64}"
proof -
  have c: "(2 :: nat) ^ n = 1 \<or> (2 :: nat) ^ n = 2 \<or> (2 :: nat) ^ n = 4" if "\<not> 4 < (2 :: nat) ^ n" for n
  proof (cases "n \<le> 2")
    case True
    then consider "n = 0" | "n = 1" | "n = 2" by linarith
    then show ?thesis by cases simp_all
  next
    case False
    then have "(2 :: nat) ^ 3 \<le> 2 ^ n" by (intro power_increasing) simp_all
    then show ?thesis using that by simp
  qed
  show ?thesis
    using assms by (auto simp: block2_request_def szx_to_size Let_def c_bind_def split: sum.splits option.splits if_splits dest!: c)
qed

lemma block_pdu_wf:
  assumes "request_ok req" "sz \<in> {16, 32, 64}"
  shows "pdu_wf (answer_pdu s req code [(23, uint_value v)] (block_of t sz k))"
    "length (pdu_bytes (answer_pdu s req code [(23, uint_value v)] (block_of t sz k))) \<le> 256"
proof -
  have "length (rfc_options 0 [(23, uint_value v)]) + length (block_of t sz k) \<le> 200"
    using rfc_option_short [of 23 "uint_value v"] uint_value_length [of v] assms(2) by (auto simp: block_of_def)
  then show "pdu_wf (answer_pdu s req code [(23, uint_value v)] (block_of t sz k))"
    "length (pdu_bytes (answer_pdu s req code [(23, uint_value v)] (block_of t sz k))) \<le> 256"
    using answer_pdu_wf [OF assms(1), of "[(23, uint_value v)]"] by (simp_all add: COAP_MAX_NUMBER_OF_OPTIONS_def)
qed

text \<open>C18: A GET request on a description, without an Observe option, is answered with 2.05 and the block of the text that
  the request asks for, 64 bytes at most: of the restdesc description, or of the state of the LED. The
  Block2 option of the reply has the number, the size and the more bit, which is set exactly where the
  text goes on; the blocks up to this one, put together, are the text up to the end of this block. The
  reply is right only where a zero follows the array the block is copied to, or the block is the last.\<close>

theorem semantics_get_returns_block:
  assumes "device_inv s" "request_ok req" "hdr_code (header req) = COAP_CODE_GET"
    and "hdr_type (header req) \<in> {COAP_TYPE_CON, COAP_TYPE_NON}" "detached (c_mm s) req" "statics_ok (c_heap s)"
    and "coap_message_ct_match_select (c_heap s) (junk_ct J) (Some req) (ct_support_mask (res_at (c_resources s) r)) = Inr (NRF_SUCCESS, ct)"
    and "coap_message_opt_present (Some req) COAP_OPT_OBSERVE = Inr e" "e \<noteq> NRF_SUCCESS"
    and "spare (c_mm s) 3 256" "length (q_token (env_junk E)) = 8"
    and "c_streq (res_name (res_at (c_resources s) r)) (c_string restdesc_name) = Inr restdesc"
    and "t = semantics_text restdesc (led3_is_on s)" "block2_request (c_heap s) req = Inr (num, sz)"
    and "unat num * sz \<le> length t" "length t - unat num * sz < sz \<or> (\<exists>js. junk_stack J = 0 # js)"
    and "v = block2_option num (unat num * sz + sz < length t) sz"
    and "env_write E \<lparr>port_number = COAP_SERVER_PORT\<rparr> (remote req)
      (pdu_bytes (answer_pdu s req COAP_CODE_205_CONTENT [(23, uint_value v)] (block_of t sz (unat num)))) (world s) = (NRF_SUCCESS, w)"
  shows "(\<exists>h'. semantics_callback E J s r req = Inr ((counted s req)\<lparr>c_heap := h', world := w\<rparr>) \<and>
      device_inv ((counted s req)\<lparr>c_heap := h', world := w\<rparr>) \<and> statics_ok h') \<and>
    concat (map (block_of t sz) [0..<Suc (unat num)]) = take (unat num * sz + sz) t"
proof -
  let ?b = "block_of t sz (unat num)"
  let ?p = "answer_pdu s req COAP_CODE_205_CONTENT [(23, uint_value v)] ?b"
  have two: "spare (c_mm s) 2 256" using assms(10) by (simp add: spare_def)
  obtain i j r0 r1 t' where "plain_draft s req J r ct i j r0 r1 t'"
    by (rule plain_get_draft [OF assms(1,2,5-9) two])
  note n = plain_draftD [OF this]
  have b2: "block2_request (c_heap t') req = Inr (num, sz)" using assms(14) n(10) by simp
  have sz: "sz \<in> {16, 32, 64}" using block2_request_size [OF assms(14)] .
  have at: "text_at (c_heap t') (if restdesc then Ptr OBJ_SEMANTICS 0 else status_text t') t"
    using semantics_text_at [OF n(9), of restdesc] unfolding n(13) assms(13) .
  have len: "length t < 2 ^ 16" unfolding assms(13) by (rule semantics_text_length)
  obtain h r2 where o: "block2_reply J t' req r1 (if restdesc then Ptr OBJ_SEMANTICS 0 else status_text t') = Inr (r2, t'\<lparr>c_heap := h\<rparr>)"
    "drafted (t'\<lparr>c_heap := h\<rparr>) i j r2 ?p" "statics_ok h" "port r2 = port r1" "remote r2 = remote r1"
    by (rule block2_reply_slice [OF n(4,9) b2 sz at len assms(15,16,17)])
  have wf: "pdu_wf ?p" "length (pdu_bytes ?p) \<le> 256"
    using block_pdu_wf [OF assms(2) sz] by blast+
  have nr: "\<not> is_request (pdu_code ?p)" by (simp add: is_request_def c_consts)
  have mm: "c_mm (t'\<lparr>c_heap := h\<rparr>) = mem_mark (mem_mark (c_mm s) i False) j False" using n(11) by simp
  have tx: "env_write E (port r2) (remote r2) (pdu_bytes ?p) (world (t'\<lparr>c_heap := h\<rparr>)) = (NRF_SUCCESS, w)"
    using assms(18) o(4,5) n(7,8,12) by simp
  obtain h' where h': "response_send E (t'\<lparr>c_heap := h\<rparr>) (block_ptr i, r2) = Inr (t'\<lparr>c_heap := h\<rparr>\<lparr>c_mm := c_mm s, c_heap := h', world := w\<rparr>)"
    "device_inv (t'\<lparr>c_heap := h\<rparr>\<lparr>c_mm := c_mm s, c_heap := h', world := w\<rparr>)" "same_statics (c_heap (t'\<lparr>c_heap := h\<rparr>)) h'"
    by (rule reply_sent [OF o(2) mm n(5,6) assms(10) wf nr answer_not_con [OF assms(4)] assms(11) tx])
  have fin: "t'\<lparr>c_heap := h\<rparr>\<lparr>c_mm := c_mm s, c_heap := h', world := w\<rparr> = (counted s req)\<lparr>c_heap := h', world := w\<rparr>"
    unfolding n(15) [symmetric] by simp
  have "semantics_callback E J s r req = Inr ((counted s req)\<lparr>c_heap := h', world := w\<rparr>)"
    using n(2,3,14) o(1) h'(1) assms(3,12) unfolding fin by (simp add: semantics_callback_def semantics_request_def)
  moreover have "statics_ok h'" using statics_ok_same h'(3) o(3) by simp
  moreover have "concat (map (block_of t sz) [0..<Suc (unat num)]) = take (unat num * sz + sz) t"
    using blocks_up_to [of t sz "Suc (unat num)"] by (simp only: mult_Suc add.commute)
  ultimately show ?thesis using h'(2) unfolding fin by blast
qed

text \<open>C22: A block that fills its array is not terminated: where the stack behind the array holds no zero, the answer to a
  GET request for a full block of a description reads past the end of the array to find its length.\<close>

theorem semantics_full_block_overreads:
  assumes "device_inv s" "request_ok req" "hdr_code (header req) = COAP_CODE_GET" "detached (c_mm s) req" "statics_ok (c_heap s)"
    and "coap_message_ct_match_select (c_heap s) (junk_ct J) (Some req) (ct_support_mask (res_at (c_resources s) r)) = Inr (NRF_SUCCESS, ct)"
    and "coap_message_opt_present (Some req) COAP_OPT_OBSERVE = Inr e" "e \<noteq> NRF_SUCCESS" "spare (c_mm s) 2 256"
    and "c_streq (res_name (res_at (c_resources s) r)) (c_string restdesc_name) = Inr restdesc"
    and "t = semantics_text restdesc (led3_is_on s)" "block2_request (c_heap s) req = Inr (num, sz)"
    and "unat num * sz + sz \<le> length t" "0 \<notin> set (junk_stack J)"
  shows "semantics_callback E J s r req = Inl OutOfBoundsRead"
proof -
  obtain i j r0 r1 t' where "plain_draft s req J r ct i j r0 r1 t'"
    by (rule plain_get_draft [OF assms(1,2,4-9)])
  note n = plain_draftD [OF this]
  have b2: "block2_request (c_heap t') req = Inr (num, sz)" using assms(12) n(10) by simp
  have at: "text_at (c_heap t') (if restdesc then Ptr OBJ_SEMANTICS 0 else status_text t') t"
    using semantics_text_at [OF n(9), of restdesc] unfolding n(13) assms(11) .
  have len: "length t < 2 ^ 16" unfolding assms(11) by (rule semantics_text_length)
  have "block2_reply J t' req r1 (if restdesc then Ptr OBJ_SEMANTICS 0 else status_text t') = Inl OutOfBoundsRead"
    by (rule block2_reply_full [OF n(4) b2 block2_request_size [OF assms(12)] at len assms(13,14)])
  then show ?thesis using n(2,3,14) assms(3,10) by (simp add: semantics_callback_def semantics_request_def)
qed

section \<open>Examples\<close>

text \<open>The device after start-up, with \<open>bs\<close> in the object 5000; the transport records what it takes.\<close>

definition switch_heap :: "u8 list \<Rightarrow> heap" where
  "switch_heap bs = (boot_heap bs)
     (OBJ_WELL_KNOWN_CORE := replicate 100 0, OBJ_LED3_TRUE := c_string led3_true, OBJ_LED3_FALSE := c_string led3_false,
      OBJ_LED3_PLAIN := [0, 0], OBJ_SEMANTICS := c_string SEMANTICS_SWITCH,
      OBJ_STATUS_ON := c_string SEMANTICS_SWITCH_STATUS_ON, OBJ_STATUS_OFF := c_string SEMANTICS_SWITCH_STATUS_OFF)"

definition switch_world :: "(coap_remote_t \<times> u8 list) list switch" where
  "switch_world =
     \<lparr>gpio_out = LEDS_MASK, m_display_state = LEDS_INACTIVE, mp_interface = None, m_global_token_count = 0x0102,
      m_observer_sequence_num = 5, m_observer_sequence_num_statedesc = 0, m_person_sensed = 0, m_pir_timer = 0,
      msg_count = 0, msg_count_2 = 0, sw_outside = []\<rparr>"

definition switch_resources :: coap_resources where
  "switch_resources =
     \<lparr>res_at = (\<lambda>_. coap_resource_zero)
        (R_LED3 := coap_resource_zero\<lparr>ct_support_mask := COAP_CT_MASK_APP_JSON OR COAP_CT_MASK_PLAIN_TEXT, max_age := 15, expire_time := 15\<rparr>,
         R_SEMANTICS_SWITCH := coap_resource_zero\<lparr>res_name := c_string restdesc_name, ct_support_mask := COAP_CT_MASK_PLAIN_TEXT\<rparr>),
      mp_root_resource = None, m_scratch_buffer = replicate SCRATCH_SIZE 0\<rparr>"

definition switch_boot :: "u8 list \<Rightarrow> observer_table \<Rightarrow> (coap_remote_t \<times> u8 list) list app_state" where
  "switch_boot bs obs =
     \<lparr>c_mm = c_mm (boot_state bs), c_heap = switch_heap bs, c_queue = c_queue (boot_state bs), c_resources = switch_resources,
      c_observers = obs, m_token_seed = 0, m_message_id_counter = 1, m_error_callback = None,
      m_coap_empty_message = coap_empty_message, world = switch_world\<rparr>"

definition switch_transport :: "(coap_remote_t \<times> u8 list) list app_env" where
  "switch_transport =
     \<lparr>env_transport_init = (\<lambda>ports w. (NRF_SUCCESS, w)),
      env_write = (\<lambda>q a bs w. (NRF_SUCCESS, w\<lparr>sw_outside := sw_outside w @ [(a, bs)]\<rparr>)),
      env_response = (\<lambda>cb st arg m s. Inr s), env_method = (\<lambda>cb r m s. Inr s), env_error = (\<lambda>cb e m s. Inr s),
      env_junk = queue_item_zero\<rparr>"

definition clean_stack :: stack_junk where
  "clean_stack = \<lparr>junk_observer = coap_observer_zero, junk_conf = coap_message_conf_zero, junk_stack = [0], junk_ct = 0\<rparr>"

definition free_observers :: observer_table where
  "free_observers = replicate COAP_OBSERVE_MAX_NUM_OBSERVERS coap_observer_zero"

text \<open>A confirmable request with the token AA and the id 7.\<close>

definition switch_request :: "u8 \<Rightarrow> coap_message_t" where
  "switch_request code = coap_message_zero
     \<lparr>header := \<lparr>hdr_version = 1, hdr_type = 0, hdr_token_len = 1, hdr_code = code, hdr_id = 7\<rparr>,
      token := [0xAA, 0, 0, 0, 0, 0, 0, 0], remote := peer\<rparr>"

lemma switch_device: "device_inv (switch_boot bs obs)"
proof -
  have h: "switch_heap bs (block_offset i) = boot_heap bs (block_offset i)" if "i < TOTAL_BLOCK_COUNT" for i
    using block_not_static [OF that] by (simp add: switch_heap_def app_objects)
  have "device_inv (boot_state bs)" by (rule boot_device)
  then show ?thesis
    using h by (simp add: device_inv_def core_inv_def answerable_def pool_heap_def switch_boot_def) (simp add: boot_state_def)
qed

lemma switch_spare: "spare (c_mm (switch_boot bs obs)) 3 256" "spare (c_mm (switch_boot bs obs)) 2 256"
  using spare_fewer [OF boot_spare [of bs], of 3] spare_fewer [OF boot_spare [of bs], of 2] by (simp_all add: switch_boot_def)

lemma switch_statics: "statics_ok (c_heap (switch_boot bs obs))"
  by (simp add: statics_ok_def switch_boot_def switch_heap_def app_objects)

lemma switch_request_ok: "request_ok (switch_request code)" "request_ok (switch_request code\<lparr>p_payload := q, payload_len := n\<rparr>)"
  by (simp_all add: request_ok_def switch_request_def)

lemma switch_detached:
  "detached mm (switch_request code)" "detached mm (switch_request code\<lparr>p_payload := Ptr 5000 0, payload_len := n\<rparr>)"
proof -
  have "block_offset i \<noteq> 5000" if "i < TOTAL_BLOCK_COUNT" for i using that by (auto simp: block_offset_def c_consts)
  then show "detached mm (switch_request code)" "detached mm (switch_request code\<lparr>p_payload := Ptr 5000 0, payload_len := n\<rparr>)"
    by (auto simp: detached_def switch_request_def coap_message_zero_def used_options_def outside_def)
qed

lemma switch_junk: "length (q_token (env_junk switch_transport)) = 8"
  by (simp add: switch_transport_def queue_item_zero_def)

theorem led3_put_sets_led_witness:
  "\<exists>h' w. led3_callback switch_transport clean_stack (switch_boot [0x31] free_observers) R_LED3
        (switch_request COAP_CODE_PUT\<lparr>p_payload := Ptr 5000 0, payload_len := 1\<rparr>)
      = notify_both switch_transport ((switch_boot [0x31] free_observers)\<lparr>c_heap := h', world := w\<rparr>) \<and>
     sw_outside w = [(peer, [0x61, 68, 0, 7, 0xAA])] \<and> LED_IS_ON LED_THREE (gpio_out w)"
proof -
  let ?s = "switch_boot [0x31] free_observers" and ?req = "switch_request COAP_CODE_PUT\<lparr>p_payload := Ptr 5000 0, payload_len := 1\<rparr>"
  let ?p = "answer_pdu ?s ?req (if (0x31 :: u8) \<in> {0x30, 0x31, 0x32} then COAP_CODE_204_CHANGED else COAP_CODE_400_BAD_REQUEST) [] []"
  let ?w = "(world ?s)\<lparr>gpio_out := led_gpio 0x31 (gpio_out (world ?s))\<rparr>"
  have ld: "load (c_heap ?s) (p_payload ?req) 0 = Inr 0x31"
    by (simp add: switch_boot_def switch_heap_def app_objects boot_heap_def arr_get_def STATIC_OBJECTS_def)
  have put: "hdr_code (header ?req) = COAP_CODE_PUT" by (simp add: switch_request_def)
  have bytes: "pdu_bytes ?p = [0x61, 68, 0, 7, 0xAA]"
    by (simp add: answer_pdu_def answer_id_def switch_request_def pdu_bytes_def rfc_header_def rfc_payload_def c_consts)
  have tx: "env_write switch_transport \<lparr>port_number = COAP_SERVER_PORT\<rparr> (remote ?req) (pdu_bytes ?p) ?w
      = (NRF_SUCCESS, ?w\<lparr>sw_outside := [(peer, [0x61, 68, 0, 7, 0xAA])]\<rparr>)"
    unfolding bytes by (simp add: switch_transport_def switch_boot_def switch_world_def switch_request_def)
  have same: "counted ?s ?req = ?s" by (simp add: counted_def switch_request_def)
  let ?w' = "?w\<lparr>sw_outside := [(peer, [0x61, 68, 0, 7, 0xAA])]\<rparr>"
  note r = led3_put_sets_led [OF switch_device switch_request_ok(2) put switch_detached(2) ld switch_spare(1) switch_junk refl tx,
      of clean_stack R_LED3, unfolded same]
  obtain h' where "led3_callback switch_transport clean_stack ?s R_LED3 ?req
      = notify_both switch_transport (?s\<lparr>c_heap := h', world := ?w'\<rparr>)" using r by blast
  moreover have "LED_IS_ON LED_THREE (gpio_out ?w')" using r by (simp add: led_command_def COMMAND_ON_def)
  ultimately show ?thesis by (intro exI [of _ h'] exI [of _ ?w'] conjI) simp_all
qed

theorem led3_put_without_payload_faults_witness:
  "led3_callback switch_transport clean_stack (switch_boot [] free_observers) R_LED3 (switch_request COAP_CODE_PUT) = Inl NullDereference"
  by (rule led3_put_without_payload_faults [OF switch_device switch_request_ok(1) _ _ switch_spare(2)])
    (simp_all add: switch_request_def coap_message_zero_def)

lemma switch_match:
  "coap_message_ct_match_select (c_heap (switch_boot bs obs)) (junk_ct J) (Some (switch_request code))
     (ct_support_mask (res_at (c_resources (switch_boot bs obs)) r)) = Inr (NRF_SUCCESS, 0)"
  if "r = R_LED3 \<or> r = R_SEMANTICS_SWITCH"
proof -
  have "find_first (\<lambda>i. i = (0 :: nat)) [0..<32] = Some 0"
    by (simp add: find_first_Some)
  moreover have "bit_to_content_format x 1 = (NRF_SUCCESS, 0)" for x
    by (simp add: bit_to_content_format_def c_consts)
  ultimately show ?thesis
    using that by (auto simp: coap_message_ct_match_select_def coap_message_accept_mask_get_def switch_request_def
        coap_message_zero_def switch_boot_def switch_resources_def app_resources COAP_CT_MASK_APP_JSON_def COAP_CT_MASK_PLAIN_TEXT_def)
qed

lemma switch_value: "take_bit 16 (answer_id s (switch_request code)) = 7" "answer_id s (switch_request code) = 7"
  by (simp_all add: answer_id_def switch_request_def)


text \<open>The requests with an Observe option, whose value is in the object 5000.\<close>

definition observe_request :: "u16 \<Rightarrow> coap_message_t" where
  "observe_request n = (switch_request COAP_CODE_GET)
     \<lparr>options_count := 1, options := (options coap_message_zero)[0 := \<lparr>opt_number = 6, opt_length = n, opt_data = Ptr 5000 0\<rparr>]\<rparr>"

lemma observe_request_ok: "request_ok (observe_request n)"
  by (simp add: request_ok_def observe_request_def switch_request_def)

lemma observe_request_detached: "detached mm (observe_request n)"
proof -
  have "block_offset i \<noteq> 5000" if "i < TOTAL_BLOCK_COUNT" for i using that by (auto simp: block_offset_def c_consts)
  moreover have "used_options (observe_request n) = [\<lparr>opt_number = 6, opt_length = n, opt_data = Ptr 5000 0\<rparr>]"
    by (simp add: observe_request_def switch_request_def coap_message_zero_def used_options_def COAP_MAX_NUMBER_OF_OPTIONS_def
        numeral_eq_Suc)
  moreover have "p_payload (observe_request n) = NULL"
    by (simp add: observe_request_def switch_request_def coap_message_zero_def)
  ultimately show ?thesis by (auto simp: detached_def outside_def)
qed

lemma observe_request_match:
  "coap_message_ct_match_select h x (Some (observe_request n)) support
    = coap_message_ct_match_select h x (Some (switch_request COAP_CODE_GET)) support"
  by (simp add: coap_message_ct_match_select_def coap_message_accept_mask_get_def observe_request_def switch_request_def
      coap_message_zero_def c_consts upt_rec)

lemma observe_request_present: "coap_message_opt_present (Some (observe_request n)) COAP_OPT_OBSERVE = Inr NRF_SUCCESS"
  by (simp add: coap_message_opt_present_def observe_request_def switch_request_def coap_message_zero_def c_consts upt_rec)

lemma observe_request_search:
  "option_search (options (observe_request n)) COAP_OPT_OBSERVE [0..<unat (options_count (observe_request n))]
    = Inr (Some \<lparr>opt_number = 6, opt_length = n, opt_data = Ptr 5000 0\<rparr>)"
  by (simp add: observe_request_def switch_request_def coap_message_zero_def c_consts upt_rec)

theorem long_observe_option_stops_device_witness:
  "led3_callback switch_transport clean_stack (switch_boot [1, 2, 3, 4, 5] free_observers) R_LED3 (observe_request 5)
     = Inl (AppError (NRF_ERROR_INVALID_LENGTH OR IOT_COAP_ERR_BASE))"
proof -
  have get: "hdr_code (header (observe_request 5)) = COAP_CODE_GET" by (simp add: observe_request_def switch_request_def)
  have match: "coap_message_ct_match_select (c_heap (switch_boot [1, 2, 3, 4, 5] free_observers)) (junk_ct clean_stack)
      (Some (observe_request 5)) (ct_support_mask (res_at (c_resources (switch_boot [1, 2, 3, 4, 5] free_observers)) R_LED3))
      = Inr (NRF_SUCCESS, 0)"
    unfolding observe_request_match by (rule switch_match [OF disjI1 [OF refl]])
  show ?thesis
    using long_observe_option_stops_device [OF switch_device observe_request_ok get observe_request_detached switch_spare(2) match
        observe_request_present observe_request_search]
    by simp
qed

text \<open>A registration, and its answer with the sequence number 5 and the Max-Age 15.\<close>

definition led_observer :: coap_observer_t where
  "led_observer = \<lparr>ob_remote = peer, ob_token = [0xAA, 0, 0, 0, 0, 0, 0, 0], ob_token_len = 1, ob_ct = 0, p_resource_of_interest = Some R_LED3\<rparr>"

lemma free_observers_inv: "obs_inv free_observers"
  by (simp add: obs_inv_def keys_unique_def free_observers_def key_of_def coap_observer_zero_def)

lemma led_observers_inv: "obs_inv (free_observers[0 := led_observer])"
proof -
  have "key_of (free_observers ! 0) = None" "0 < length free_observers"
    by (simp_all add: free_observers_def key_of_def coap_observer_zero_def c_consts)
  moreover have "table_map key_of free_observers k = None" for k
    by (auto simp: table_map_None free_observers_def key_of_def coap_observer_zero_def)
  moreover have "key_of led_observer = Some (R_LED3, peer)" by (simp add: key_of_def led_observer_def)
  ultimately show ?thesis
    using table_map_insert [of key_of free_observers 0 led_observer "(R_LED3, peer)"] free_observers_inv
    by (simp add: obs_inv_def)
qed

lemma dark_boot: "\<not> led3_is_on (switch_boot bs obs)"
  by (simp add: led3_is_on_def led_on_bit switch_boot_def switch_world_def LEDS_MASK_def)


lemma led_observer_ok: "observer_ok led_observer"
  by (simp add: observer_ok_def led_observer_def)

lemma led_observers_members: "ob \<in> set (free_observers[0 := led_observer]) \<Longrightarrow> ob = led_observer \<or> p_resource_of_interest ob = None"
  by (auto simp: free_observers_def coap_observer_zero_def dest!: subsetD [OF set_update_subset_insert])



lemma restdesc_found: "c_streq (res_name (res_at (c_resources (switch_boot bs obs)) R_SEMANTICS_SWITCH)) (c_string restdesc_name) = Inr True"
  by (simp add: switch_boot_def switch_resources_def c_string_def c_chars_def restdesc_name_def)

lemma restdesc_start: "64 < length (semantics_text True lit)" "block_of (semantics_text True lit) 64 0 = c_chars (take 64 SEMANTICS_SWITCH)"
proof -
  show "block_of (semantics_text True lit) 64 0 = c_chars (take 64 SEMANTICS_SWITCH)"
    by (simp add: block_of_def semantics_text_def c_chars_def take_map)
  show "64 < length (semantics_text True lit)"
    by (simp add: semantics_text_def c_chars_def SEMANTICS_SWITCH_def text_lines_def indent_def)
qed

lemma plain_request_block: "block2_request h (switch_request code) = Inr (0, 64)"
  by (simp add: block2_request_def switch_request_def coap_message_zero_def)

theorem semantics_get_returns_block_witness:
  "\<exists>h' w. semantics_callback switch_transport clean_stack (switch_boot [] free_observers) R_SEMANTICS_SWITCH (switch_request COAP_CODE_GET)
      = Inr ((switch_boot [] free_observers)\<lparr>c_heap := h', world := w\<rparr>) \<and>
     sw_outside w = [(peer, [0x61, 69, 0, 7, 0xAA, 0xD1, 10, 10, 0xFF] @ c_chars (take 64 SEMANTICS_SWITCH))]"
proof -
  let ?s = "switch_boot [] free_observers" and ?req = "switch_request COAP_CODE_GET"
  let ?t = "semantics_text True (led3_is_on ?s)"
  let ?v = "block2_option 0 (unat (0 :: u32) * 64 + 64 < length ?t) 64"
  let ?p = "answer_pdu ?s ?req COAP_CODE_205_CONTENT [(23, uint_value ?v)] (block_of ?t 64 (unat (0 :: u32)))"
  let ?bytes = "[0x61, 69, 0, 7, 0xAA, 0xD1, 10, 10, 0xFF] @ c_chars (take 64 SEMANTICS_SWITCH)"
  have get: "hdr_code (header ?req) = COAP_CODE_GET" "hdr_type (header ?req) \<in> {COAP_TYPE_CON, COAP_TYPE_NON}"
    by (simp_all add: switch_request_def COAP_TYPE_CON_def)
  have obs: "coap_message_opt_present (Some ?req) COAP_OPT_OBSERVE = Inr (NRF_ERROR_NOT_FOUND OR IOT_COAP_ERR_BASE)"
    "NRF_ERROR_NOT_FOUND OR IOT_COAP_ERR_BASE \<noteq> NRF_SUCCESS"
    by (simp_all add: coap_message_opt_present_def switch_request_def coap_message_zero_def c_consts)
  have v: "uint_value ?v = [10]"
    using restdesc_start(1) [of "led3_is_on ?s"] by (simp add: block2_option_def block_szx_def uint_value_def uint_bytes_def)
  have ne: "c_chars (take 64 SEMANTICS_SWITCH) \<noteq> []" by (simp add: SEMANTICS_SWITCH_def text_lines_def c_chars_def)
  have bytes: "pdu_bytes ?p = ?bytes"
    unfolding v using ne restdesc_start(2) [of "led3_is_on ?s"]
    by (simp add: answer_pdu_def answer_id_def switch_request_def pdu_bytes_def rfc_header_def rfc_payload_def
        c_consts rfc_option_def rfc_nibble_def rfc_ext_def)
  have tx: "env_write switch_transport \<lparr>port_number = COAP_SERVER_PORT\<rparr> (remote ?req) (pdu_bytes ?p) (world ?s)
      = (NRF_SUCCESS, (world ?s)\<lparr>sw_outside := [(peer, ?bytes)]\<rparr>)"
    unfolding bytes by (simp add: switch_transport_def switch_boot_def switch_world_def switch_request_def)
  have same: "counted ?s ?req = ?s" by (simp add: counted_def switch_request_def)
  have zero: "\<exists>js. junk_stack clean_stack = 0 # js" by (simp add: clean_stack_def)
  have start: "unat (0 :: u32) * 64 \<le> length ?t" by simp
  show ?thesis
    using semantics_get_returns_block [OF switch_device switch_request_ok(1) get switch_detached(1) switch_statics
        switch_match [OF disjI2 [OF refl]] obs switch_spare(1) switch_junk restdesc_found refl plain_request_block start
        disjI2 [OF zero] refl tx]
    unfolding same by fastforce
qed

theorem semantics_full_block_overreads_witness:
  "semantics_callback switch_transport (clean_stack\<lparr>junk_stack := []\<rparr>) (switch_boot [] free_observers) R_SEMANTICS_SWITCH
     (switch_request COAP_CODE_GET) = Inl OutOfBoundsRead"
proof -
  let ?s = "switch_boot [] free_observers" and ?req = "switch_request COAP_CODE_GET"
  have get: "hdr_code (header ?req) = COAP_CODE_GET" by (simp add: switch_request_def)
  have obs: "coap_message_opt_present (Some ?req) COAP_OPT_OBSERVE = Inr (NRF_ERROR_NOT_FOUND OR IOT_COAP_ERR_BASE)"
    "NRF_ERROR_NOT_FOUND OR IOT_COAP_ERR_BASE \<noteq> NRF_SUCCESS"
    by (simp_all add: coap_message_opt_present_def switch_request_def coap_message_zero_def c_consts)
  have len: "unat (0 :: u32) * 64 + 64 \<le> length (semantics_text True (led3_is_on ?s))"
    using restdesc_start(1) [of "led3_is_on ?s"] by simp
  show ?thesis
    using semantics_full_block_overreads [OF switch_device switch_request_ok(1) get switch_detached(1) switch_statics
        switch_match [OF disjI2 [OF refl]] obs switch_spare(2) restdesc_found refl plain_request_block len, of "clean_stack\<lparr>junk_stack := []\<rparr>"]
    by simp
qed

end
